(* ===== verification/Prelude.thy ===== *)
theory Prelude
  imports Complex_Main "HOL-Library.Sublist" "HOL-Library.AList"
begin

text \<open>
  Shared vocabulary of the development.

  \<^item> \<open>op\<close>: a database operation of the service. The Python code runs on an
    \<^verbatim>\<open>AsyncSession\<close>; an exception does not undo what the session has already
    done, only a savepoint or the end of the request does. An operation is therefore a function
    from a state to a pair of an outcome (\<open>Inl\<close> the raised exception, \<open>Inr\<close> the value)
    and the state it leaves behind, in both cases.
  \<^item> \<open>begin_nested\<close> (a savepoint) and \<open>session_scope\<close> (the request transaction)
    are the two places where a raise restores the state.
  \<^item> \<open>op_preserves\<close> and its rules carry invariants through the composition of
    operations.
  \<^item> the locales \<open>invariant_system\<close> and \<open>command_system\<close> are the interfaces of a
    step relation and of a command interpreter with an invariant.
\<close>

named_theorems op_defs \<open>definitions of the operations, unfolded in case analyses\<close>
named_theorems op_rules \<open>preservation rules of the operations\<close>
named_theorems key_facts \<open>evaluated facts about concrete payload keys\<close>

subsection \<open>Operations on a session\<close>

type_synonym ('s, 'e, 'a) op = "'s \<Rightarrow> ('e + 'a) \<times> 's"

definition op_return :: "'a \<Rightarrow> ('s, 'e, 'a) op" where
  "op_return x = (\<lambda>s. (Inr x, s))"

definition op_raise :: "'e \<Rightarrow> ('s, 'e, 'a) op" where
  "op_raise e = (\<lambda>s. (Inl e, s))"

definition op_read :: "('s \<Rightarrow> 'a) \<Rightarrow> ('s, 'e, 'a) op" where
  "op_read f = (\<lambda>s. (Inr (f s), s))"

definition op_modify :: "('s \<Rightarrow> 's) \<Rightarrow> ('s, 'e, unit) op" where
  "op_modify f = (\<lambda>s. (Inr (), f s))"

definition op_bind :: "('s, 'e, 'a) op \<Rightarrow> ('a \<Rightarrow> ('s, 'e, 'b) op) \<Rightarrow> ('s, 'e, 'b) op" where
  "op_bind m f = (\<lambda>s. case m s of (Inl e, s') \<Rightarrow> (Inl e, s') | (Inr x, s') \<Rightarrow> f x s')"

text \<open>
  \<open>async with session.begin_nested()\<close>: on an exception the savepoint is rolled back, so the
  state is the one at entry; otherwise it is released.
\<close>

definition begin_nested :: "('s, 'e, 'a) op \<Rightarrow> ('s, 'e, 'a) op" where
  "begin_nested m = (\<lambda>s. case m s of (Inl e, _) \<Rightarrow> (Inl e, s) | (Inr x, s') \<Rightarrow> (Inr x, s'))"

text \<open>
  \<^verbatim>\<open>db.session_scope\<close>: commit on success, roll back on an exception.
\<close>

definition session_scope :: "('s, 'e, 'a) op \<Rightarrow> ('s, 'e, 'a) op" where
  "session_scope m = (\<lambda>s. case m s of (Inr x, s') \<Rightarrow> (Inr x, s') | (Inl e, _) \<Rightarrow> (Inl e, s))"

text \<open>\<open>try: m except cond: h\<close>: the handler runs on the state the body left behind.\<close>

definition op_catch :: "('s, 'e, 'a) op \<Rightarrow> ('e \<Rightarrow> ('s, 'e, 'a) op) \<Rightarrow> ('s, 'e, 'a) op" where
  "op_catch m h = (\<lambda>s. case m s of (Inl e, s') \<Rightarrow> h e s' | (Inr x, s') \<Rightarrow> (Inr x, s'))"

lemmas op_basic_defs = op_return_def op_raise_def op_read_def op_modify_def

lemma op_bind_return [simp]: "op_bind (op_return x) f = f x"
  by (simp add: op_bind_def op_return_def)

lemma op_bind_raise [simp]: "op_bind (op_raise e) f = op_raise e"
  by (simp add: op_bind_def op_raise_def)

lemma op_bind_read: "op_bind (op_read g) f s = f (g s) s"
  by (simp add: op_bind_def op_read_def)

lemma op_bind_modify: "op_bind (op_modify g) f s = f () (g s)"
  by (simp add: op_bind_def op_modify_def)

lemma op_return_apply [simp]: "op_return x s = (Inr x, s)"
  by (simp add: op_return_def)

lemma op_raise_apply [simp]: "op_raise e s = (Inl e, s)"
  by (simp add: op_raise_def)

lemma op_read_apply [simp]: "op_read f s = (Inr (f s), s)"
  by (simp add: op_read_def)

lemma op_modify_apply [simp]: "op_modify f s = (Inr (), f s)"
  by (simp add: op_modify_def)

lemma op_bind_InrI: "m s = (Inr x, s') \<Longrightarrow> op_bind m f s = f x s'"
  by (simp add: op_bind_def)

lemma op_bind_InlI: "m s = (Inl e, s') \<Longrightarrow> op_bind m f s = (Inl e, s')"
  by (simp add: op_bind_def)

lemma op_bind_Inr_iff:
  "op_bind m f s = (Inr y, t) \<longleftrightarrow> (\<exists>x s'. m s = (Inr x, s') \<and> f x s' = (Inr y, t))"
  by (auto simp: op_bind_def split: prod.splits sum.splits)

lemma op_bind_assoc: "op_bind (op_bind m f) g = op_bind m (\<lambda>x. op_bind (f x) g)"
  by (auto simp: op_bind_def fun_eq_iff split: prod.splits sum.splits)

lemmas op_eval = op_bind_read op_bind_modify op_bind_return op_bind_raise
  op_return_apply op_raise_apply op_read_apply op_modify_apply

lemma begin_nested_raise_restores: "fst (begin_nested m s) = Inl e \<Longrightarrow> snd (begin_nested m s) = s"
  by (auto simp: begin_nested_def split: prod.splits sum.splits)

lemma session_scope_begin_nested: "session_scope m = begin_nested m"
  by (auto simp: begin_nested_def session_scope_def fun_eq_iff split: prod.splits sum.splits)

subsection \<open>Invariants of operations\<close>

definition op_preserves :: "('s \<Rightarrow> bool) \<Rightarrow> ('s, 'e, 'a) op \<Rightarrow> bool" where
  "op_preserves I m \<longleftrightarrow> (\<forall>s. I s \<longrightarrow> I (snd (m s)))"

text \<open>A weaker contract: the invariant is kept when the operation returns.\<close>

definition op_preserves_ok :: "('s \<Rightarrow> bool) \<Rightarrow> ('s, 'e, 'a) op \<Rightarrow> bool" where
  "op_preserves_ok I m \<longleftrightarrow> (\<forall>s x t. I s \<longrightarrow> m s = (Inr x, t) \<longrightarrow> I t)"

lemma op_preservesI: "(\<And>s. I s \<Longrightarrow> I (snd (m s))) \<Longrightarrow> op_preserves I m"
  by (simp add: op_preserves_def)

lemma op_preservesD: "op_preserves I m \<Longrightarrow> I s \<Longrightarrow> I (snd (m s))"
  by (simp add: op_preserves_def)

lemma op_preserves_okI: "(\<And>s x t. I s \<Longrightarrow> m s = (Inr x, t) \<Longrightarrow> I t) \<Longrightarrow> op_preserves_ok I m"
  unfolding op_preserves_ok_def by blast

lemma op_preserves_imp_ok: "op_preserves I m \<Longrightarrow> op_preserves_ok I m"
  by (metis op_preserves_def op_preserves_okI snd_conv)

lemma op_preserves_return [op_rules, simp]: "op_preserves I (op_return x)"
  by (simp add: op_preserves_def)

lemma op_preserves_raise [op_rules, simp]: "op_preserves I (op_raise e)"
  by (simp add: op_preserves_def)

lemma op_preserves_read [op_rules, simp]: "op_preserves I (op_read f)"
  by (simp add: op_preserves_def)

lemma op_preserves_modify: "(\<And>s. I s \<Longrightarrow> I (f s)) \<Longrightarrow> op_preserves I (op_modify f)"
  by (simp add: op_preserves_def)

lemma op_preserves_bind [op_rules]:
  "op_preserves I m \<Longrightarrow> (\<And>x. op_preserves I (f x)) \<Longrightarrow> op_preserves I (op_bind m f)"
  unfolding op_preserves_def op_bind_def
  by (auto split: prod.splits sum.splits)

lemma op_preserves_catch [op_rules]:
  "op_preserves I m \<Longrightarrow> (\<And>e. op_preserves I (h e)) \<Longrightarrow> op_preserves I (op_catch m h)"
  unfolding op_preserves_def op_catch_def
  by (auto split: prod.splits sum.splits)

lemma op_preserves_if [op_rules]:
  "(b \<Longrightarrow> op_preserves I m) \<Longrightarrow> (\<not> b \<Longrightarrow> op_preserves I n) \<Longrightarrow> op_preserves I (if b then m else n)"
  by simp

lemma op_preserves_option [op_rules]:
  "(x = None \<Longrightarrow> op_preserves I m) \<Longrightarrow> (\<And>y. x = Some y \<Longrightarrow> op_preserves I (f y)) \<Longrightarrow>
   op_preserves I (case x of None \<Rightarrow> m | Some y \<Rightarrow> f y)"
  by (cases x) auto

lemma op_preserves_prod [op_rules]:
  "(\<And>a b. x = (a, b) \<Longrightarrow> op_preserves I (f a b)) \<Longrightarrow> op_preserves I (case x of (a, b) \<Rightarrow> f a b)"
  by (cases x) auto

text \<open>Only the successful runs of the body of a savepoint have to keep the invariant.\<close>

lemma op_preserves_nested [op_rules]: "op_preserves_ok I m \<Longrightarrow> op_preserves I (begin_nested m)"
  unfolding op_preserves_def op_preserves_ok_def begin_nested_def
  by (auto split: prod.splits sum.splits)

lemma op_preserves_scope [op_rules]: "op_preserves_ok I m \<Longrightarrow> op_preserves I (session_scope m)"
  by (simp add: session_scope_begin_nested op_preserves_nested)

text \<open>An invariant established by the first operation and kept by the rest.\<close>

lemma op_bind_establishes:
  assumes "op_bind m f s = (Inr y, t)"
    and "\<And>x s1. m s = (Inr x, s1) \<Longrightarrow> I s1" and "\<And>x. op_preserves I (f x)"
  shows "I t"
  using assms unfolding op_bind_Inr_iff op_preserves_def by (metis snd_conv)

text \<open>An invariant kept in every case, with a fact about the value when there is one.\<close>

definition op_ensures :: "('s \<Rightarrow> bool) \<Rightarrow> ('s, 'e, 'a) op \<Rightarrow> ('a \<Rightarrow> bool) \<Rightarrow> bool" where
  "op_ensures I m P \<longleftrightarrow> op_preserves I m \<and> (\<forall>s x t. I s \<longrightarrow> m s = (Inr x, t) \<longrightarrow> P x)"

lemma op_ensuresI:
  "op_preserves I m \<Longrightarrow> (\<And>s x t. I s \<Longrightarrow> m s = (Inr x, t) \<Longrightarrow> P x) \<Longrightarrow> op_ensures I m P"
  unfolding op_ensures_def by blast

lemma op_preserves_bind_ensures:
  assumes "op_ensures I m P" and "\<And>x. P x \<Longrightarrow> op_preserves I (f x)"
  shows "op_preserves I (op_bind m f)"
proof (rule op_preservesI)
  fix s assume "I s"
  moreover obtain r t where m: "m s = (r, t)" by (cases "m s")
  ultimately have "I t" using assms(1) by (metis op_ensures_def op_preservesD snd_conv)
  moreover have "P x" if "r = Inr x" for x using assms(1) \<open>I s\<close> m that unfolding op_ensures_def by blast
  ultimately show "I (snd (op_bind m f s))"
    using m assms(2) by (cases r) (auto simp: op_bind_def intro: op_preservesD)
qed

subsection \<open>Step relations, command interpreters and their invariants\<close>

inductive reach :: "('s \<Rightarrow> bool) \<Rightarrow> ('s \<Rightarrow> 's \<Rightarrow> bool) \<Rightarrow> 's \<Rightarrow> bool"
  for init :: "'s \<Rightarrow> bool" and step :: "'s \<Rightarrow> 's \<Rightarrow> bool" where
  reach_init: "init s \<Longrightarrow> reach init step s"
| reach_step: "reach init step s \<Longrightarrow> step s t \<Longrightarrow> reach init step t"

locale invariant_system =
  fixes init :: "'s \<Rightarrow> bool" and step :: "'s \<Rightarrow> 's \<Rightarrow> bool" and inv :: "'s \<Rightarrow> bool"
  assumes inv_init: "init s \<Longrightarrow> inv s"
    and inv_step: "inv s \<Longrightarrow> step s t \<Longrightarrow> inv t"
begin

lemma reachable_inv: "reach init step s \<Longrightarrow> inv s"
  by (induction rule: reach.induct) (auto intro: inv_init inv_step)

end

text \<open>A command interpreter whose view only moves up in a preorder.\<close>

locale monotone_system =
  fixes exec :: "'c \<Rightarrow> 's \<Rightarrow> 's" and view :: "'s \<Rightarrow> 'v" and le :: "'v \<Rightarrow> 'v \<Rightarrow> bool"
  assumes le_refl: "le v v"
    and le_trans: "le u v \<Longrightarrow> le v w \<Longrightarrow> le u w"
    and exec_le: "le (view s) (view (exec c s))"
begin

lemma run_le: "le (view s) (view (fold exec cs s))"
  by (induction cs arbitrary: s) (auto intro: le_refl le_trans exec_le)

end

text \<open>
  A simulation between two command interpreters over commands of a given kind, for histories up to a
  given length.
\<close>

locale simulation =
  fixes conc :: "'c \<Rightarrow> 's \<Rightarrow> 's" and abstr :: "'c \<Rightarrow> 'a \<Rightarrow> 'a"
    and sim :: "nat \<Rightarrow> 's \<Rightarrow> 'a \<Rightarrow> bool" and ok :: "'c \<Rightarrow> bool" and max_steps :: nat
  assumes sim_step: "sim n s a \<Longrightarrow> ok c \<Longrightarrow> n < max_steps \<Longrightarrow> sim (Suc n) (conc c s) (abstr c a)"
begin

lemma sim_run:
  "sim n s a \<Longrightarrow> list_all ok cs \<Longrightarrow> n + length cs \<le> max_steps \<Longrightarrow> sim (n + length cs) (fold conc cs s) (fold abstr cs a)"
proof (induction cs arbitrary: n s a)
  case (Cons c cs)
  then have "sim (Suc n + length cs) (fold conc cs (conc c s)) (fold abstr cs (abstr c a))"
    by (intro Cons.IH sim_step) auto
  then show ?case by simp
qed simp

end

locale command_system =
  fixes exec :: "'c \<Rightarrow> 's \<Rightarrow> 's" and inv :: "'s \<Rightarrow> bool"
  assumes exec_inv: "inv s \<Longrightarrow> inv (exec c s)"
begin

lemma run_inv: "inv s \<Longrightarrow> inv (fold exec cs s)"
  by (induction cs arbitrary: s) (auto intro: exec_inv)

lemma run_prefix_inv: "inv s \<Longrightarrow> inv (fold exec (take n cs) s)"
  by (rule run_inv)

end

subsection \<open>Sums over rows\<close>

lemma sum_list_filter_append:
  "sum_list (map f (filter P (xs @ [x]))) =
   sum_list (map f (filter P xs)) + (if P x then f x else (0::int))"
  by simp

lemma sum_list_filter_nonneg:
  assumes "\<And>x. x \<in> set xs \<Longrightarrow> P x \<Longrightarrow> 0 \<le> (f x :: int)"
  shows "0 \<le> sum_list (map f (filter P xs))"
  using assms by (intro sum_list_nonneg) auto

lemma find_append: "find P (xs @ ys) = (case find P xs of None \<Rightarrow> find P ys | Some x \<Rightarrow> Some x)"
  by (induction xs) auto

lemma find_SomeD: "find P xs = Some x \<Longrightarrow> x \<in> set xs \<and> P x"
  by (induction xs) (auto split: if_splits)

lemma find_Some_iff_ex: "(\<exists>x. find P xs = Some x) \<longleftrightarrow> (\<exists>x \<in> set xs. P x)"
  by (induction xs) auto

end
