(* ===== verification/PyData.thy ===== *)
theory PyData
  imports Prelude
begin

text \<open>
  The Python values the service passes around: JSON documents, dictionaries in insertion order,
  and text. Text is modelled as ASCII (\<open>string\<close>), so \<open>str.lower\<close> is the ASCII case map;
  a finite float is its rational value.
\<close>

subsection \<open>JSON values and dictionaries\<close>

datatype json =
    JNull
  | JBool bool
  | JInt int
  | JFloat rat
  | JStr string
  | JList "json list"
  | JObj "(string \<times> json) list"

type_synonym dict = "(string \<times> json) list"

text \<open>\<open>d.get(k)\<close>, and \<open>d.get(k)\<close> where a missing key and \<open>None\<close> are the same.\<close>

definition dict_get :: "dict \<Rightarrow> string \<Rightarrow> json" where
  "dict_get d k = (case map_of d k of None \<Rightarrow> JNull | Some v \<Rightarrow> v)"

text \<open>Truth value of a Python object, as in \<open>if meta.get("incremental")\<close>.\<close>

fun truthy :: "json \<Rightarrow> bool" where
  "truthy JNull = False"
| "truthy (JBool b) = b"
| "truthy (JInt i) = (i \<noteq> 0)"
| "truthy (JFloat x) = (x \<noteq> 0)"
| "truthy (JStr s) = (s \<noteq> [])"
| "truthy (JList xs) = (xs \<noteq> [])"
| "truthy (JObj d) = (d \<noteq> [])"

text \<open>
  \<open>{**d, k: v}\<close>: an existing key keeps its position, a new one goes to the end.
\<close>

fun dict_set :: "dict \<Rightarrow> string \<Rightarrow> json \<Rightarrow> dict" where
  "dict_set [] k v = [(k, v)]"
| "dict_set ((k', v') # d) k v = (if k' = k then (k, v) # d else (k', v') # dict_set d k v)"

lemma map_of_dict_set: "map_of (dict_set d k v) = (map_of d)(k \<mapsto> v)"
  by (induction d k v rule: dict_set.induct) (auto simp: fun_eq_iff)

lemma dict_get_dict_set: "dict_get (dict_set d k v) k' = (if k' = k then v else dict_get d k')"
  by (simp add: dict_get_def map_of_dict_set)

lemma dict_get_Cons [simp]: "dict_get ((k, v) # d) k' = (if k' = k then v else dict_get d k')"
  by (simp add: dict_get_def)

lemma dict_get_Nil [simp]: "dict_get [] k = JNull"
  by (simp add: dict_get_def)

definition json_int :: "json \<Rightarrow> int" where
  "json_int v = (case v of JInt i \<Rightarrow> i | _ \<Rightarrow> 0)"

lemma json_int_simps [simp]: "json_int (JInt i) = i" "json_int JNull = 0"
  by (simp_all add: json_int_def)

definition opt_str :: "string option \<Rightarrow> json" where
  "opt_str x = (case x of None \<Rightarrow> JNull | Some s \<Rightarrow> JStr s)"

subsection \<open>Text\<close>

definition lower_char :: "char \<Rightarrow> char" where
  "lower_char c =
     (let n = of_char c :: nat in if 65 \<le> n \<and> n \<le> 90 then char_of (n + 32) else c)"

definition lower :: "string \<Rightarrow> string" where
  "lower s = map lower_char s"

text \<open>\<open>sub in s\<close>, \<open>s.startswith(p)\<close> and \<open>s.endswith(p)\<close>.\<close>

fun contains_sub :: "'a list \<Rightarrow> 'a list \<Rightarrow> bool" where
  "contains_sub p [] = (p = [])"
| "contains_sub p (x # xs) = (prefix p (x # xs) \<or> contains_sub p xs)"

abbreviation startswith :: "'a list \<Rightarrow> 'a list \<Rightarrow> bool" where
  "startswith s p \<equiv> prefix p s"

abbreviation endswith :: "'a list \<Rightarrow> 'a list \<Rightarrow> bool" where
  "endswith s p \<equiv> suffix p s"

lemma contains_sub_iff_sublist: "contains_sub p s \<longleftrightarrow> sublist p s"
  by (induction s) (auto simp: sublist_Cons_right)

lemma lower_char_idem [simp]: "lower_char (lower_char c) = lower_char c"
proof -
  have "of_char (char_of (n + 32) :: char) = n + 32" if "n \<le> 90" for n :: nat
    using that by simp
  then show ?thesis
    by (simp add: lower_char_def Let_def)
qed

lemma lower_idem [simp]: "lower (lower s) = lower s"
  by (simp add: lower_def)

subsection \<open>Decimal text and dates\<close>

definition digit :: "nat \<Rightarrow> char" where
  "digit n = ''0123456789'' ! (n mod 10)"

text \<open>\<open>n\<close> with at least \<open>k\<close> digits, as \<open>f"{n:0k}"\<close>.\<close>

fun dec_pad :: "nat \<Rightarrow> nat \<Rightarrow> string" where
  "dec_pad 0 n = (if n = 0 then [] else dec_pad 0 (n div 10) @ [digit n])"
| "dec_pad (Suc k) n = dec_pad k (n div 10) @ [digit n]"

declare dec_pad.simps(1) [simp del]

definition nat_str :: "nat \<Rightarrow> string" where
  "nat_str n = dec_pad 1 n"

definition int_str :: "int \<Rightarrow> string" where
  "int_str i = (if i < 0 then ''-'' @ nat_str (nat (- i)) else nat_str (nat i))"

text \<open>Year, month and day of a day number counted from 1970-01-01 (proleptic Gregorian).\<close>

definition civil_from_days :: "int \<Rightarrow> int \<times> int \<times> int" where
  "civil_from_days days =
     (let z = days + 719468;
          era = z div 146097;
          doe = z mod 146097;
          yoe = (doe - doe div 1460 + doe div 36524 - doe div 146096) div 365;
          doy = doe - (365 * yoe + yoe div 4 - yoe div 100);
          mp = (5 * doy + 2) div 153;
          d = doy - (153 * mp + 2) div 5 + 1;
          m = (if mp < 10 then mp + 3 else mp - 9)
      in (yoe + era * 400 + (if m \<le> 2 then 1 else 0), m, d))"

text \<open>
  A \<open>datetime\<close>: wall-clock microseconds since 1970-01-01T00:00 and the UTC offset in minutes
  (\<open>None\<close> for a naive value).
\<close>

record datetime =
  dt_wall :: int
  dt_offset :: "int option"

text \<open>The instant, with a naive value read as UTC (\<open>replace(tzinfo=UTC)\<close>).\<close>

definition dt_instant :: "datetime \<Rightarrow> int" where
  "dt_instant d = dt_wall d - (case dt_offset d of None \<Rightarrow> 0 | Some m \<Rightarrow> m * 60000000)"

definition utc :: "int \<Rightarrow> datetime" where
  "utc t = \<lparr>dt_wall = t, dt_offset = Some 0\<rparr>"

definition isoformat :: "datetime \<Rightarrow> string" where
  "isoformat dt =
     (let us = dt_wall dt mod 1000000;
          secs = dt_wall dt div 1000000;
          days = secs div 86400;
          sod = secs mod 86400;
          (y, m, d) = civil_from_days days;
          off = (case dt_offset dt of
                   None \<Rightarrow> []
                 | Some o' \<Rightarrow> (if o' < 0 then ''-'' else ''+'') @ dec_pad 2 (nat (\<bar>o'\<bar> div 60)) @ '':'' @
                              dec_pad 2 (nat (\<bar>o'\<bar> mod 60)))
      in dec_pad 4 (nat y) @ ''-'' @ dec_pad 2 (nat m) @ ''-'' @ dec_pad 2 (nat d) @ ''T'' @
         dec_pad 2 (nat (sod div 3600)) @ '':'' @ dec_pad 2 (nat (sod div 60 mod 60)) @ '':'' @
         dec_pad 2 (nat (sod mod 60)) @ (if us = 0 then [] else ''.'' @ dec_pad 6 (nat us)) @ off)"

end
