(* ===== verification/Errors.thy ===== *)
theory Errors
  imports PyData
begin

text \<open>
  \<^verbatim>\<open>src/app/errors.py\<close>: the exception classes of the service, their HTTP status,
  their wire code and their subclass relation, and the two response envelopes of the
  \<^verbatim>\<open>AppError\<close> handler of \<^verbatim>\<open>src/app/main.py\<close>.
\<close>

datatype err_class =
    AppError
  | UnauthorizedError
  | ForbiddenError
  | SubscriptionRequiredError
  | NotFoundError
  | SessionNotFoundError
  | UserNotFoundError
  | WorkspaceNotFoundError
  | MessageNotFoundError
  | ConflictError
  | InsufficientCreditsError
  | RunNotResumableError
  | ResumeInProgressError
  | SessionExpiredError
  | PayloadTooLargeError
  | BadRequestError
  | ValidationFailedError
  | RateLimitedError
  | UpstreamError
  | UpstreamTimeoutError
  | ServiceUnavailableError
  | CloudPaymentsWebhookMisconfiguredError
  | CloudPaymentsVerificationUnavailableError
  | CloudPaymentsCheckoutNotConfiguredError

text \<open>The base class named in each class statement.\<close>

fun base_class :: "err_class \<Rightarrow> err_class option" where
  "base_class AppError = None"
| "base_class SubscriptionRequiredError = Some ForbiddenError"
| "base_class SessionNotFoundError = Some NotFoundError"
| "base_class UserNotFoundError = Some NotFoundError"
| "base_class WorkspaceNotFoundError = Some NotFoundError"
| "base_class MessageNotFoundError = Some NotFoundError"
| "base_class InsufficientCreditsError = Some ConflictError"
| "base_class RunNotResumableError = Some ConflictError"
| "base_class ResumeInProgressError = Some ConflictError"
| "base_class SessionExpiredError = Some ConflictError"
| "base_class UpstreamTimeoutError = Some UpstreamError"
| "base_class CloudPaymentsWebhookMisconfiguredError = Some ServiceUnavailableError"
| "base_class CloudPaymentsCheckoutNotConfiguredError = Some ServiceUnavailableError"
| "base_class _ = Some AppError"

text \<open>The class attributes a class body sets itself; an attribute it does not set is inherited.\<close>

fun own_status_code :: "err_class \<Rightarrow> nat option" where
  "own_status_code AppError = Some 500"
| "own_status_code UnauthorizedError = Some 401"
| "own_status_code ForbiddenError = Some 403"
| "own_status_code NotFoundError = Some 404"
| "own_status_code ConflictError = Some 409"
| "own_status_code PayloadTooLargeError = Some 413"
| "own_status_code BadRequestError = Some 400"
| "own_status_code ValidationFailedError = Some 422"
| "own_status_code RateLimitedError = Some 429"
| "own_status_code UpstreamError = Some 502"
| "own_status_code ServiceUnavailableError = Some 503"
| "own_status_code CloudPaymentsWebhookMisconfiguredError = Some 500"
| "own_status_code CloudPaymentsVerificationUnavailableError = Some 500"
| "own_status_code _ = None"

fun err_code :: "err_class \<Rightarrow> string" where
  "err_code AppError = ''internal_error''"
| "err_code UnauthorizedError = ''unauthorized''"
| "err_code ForbiddenError = ''forbidden''"
| "err_code SubscriptionRequiredError = ''subscription_required''"
| "err_code NotFoundError = ''not_found''"
| "err_code SessionNotFoundError = ''session_not_found''"
| "err_code UserNotFoundError = ''user_not_found''"
| "err_code WorkspaceNotFoundError = ''workspace_not_found''"
| "err_code MessageNotFoundError = ''message_not_found''"
| "err_code ConflictError = ''conflict''"
| "err_code InsufficientCreditsError = ''insufficient_credits''"
| "err_code RunNotResumableError = ''run_not_resumable''"
| "err_code ResumeInProgressError = ''resume_in_progress''"
| "err_code SessionExpiredError = ''session_expired''"
| "err_code PayloadTooLargeError = ''payload_too_large''"
| "err_code BadRequestError = ''bad_request''"
| "err_code ValidationFailedError = ''validation_error''"
| "err_code RateLimitedError = ''rate_limited''"
| "err_code UpstreamError = ''upstream_error''"
| "err_code UpstreamTimeoutError = ''upstream_timeout''"
| "err_code ServiceUnavailableError = ''service_unavailable''"
| "err_code CloudPaymentsWebhookMisconfiguredError = ''cloudpayments_webhook_misconfigured''"
| "err_code CloudPaymentsVerificationUnavailableError = ''cloudpayments_verification_unavailable''"
| "err_code CloudPaymentsCheckoutNotConfiguredError = ''cloudpayments_checkout_not_configured''"

text \<open>Attribute lookup along the base classes, and \<open>isinstance\<close>.\<close>

definition class_depth :: "err_class \<Rightarrow> nat" where
  "class_depth c =
     (case base_class c of None \<Rightarrow> 0 | Some AppError \<Rightarrow> 1 | Some _ \<Rightarrow> 2)"

lemma base_class_depth: "base_class c = Some b \<Longrightarrow> class_depth b < class_depth c"
  by (cases c) (auto simp: class_depth_def)

function err_status_code :: "err_class \<Rightarrow> nat" where
  "err_status_code c =
     (case own_status_code c of
        Some n \<Rightarrow> n
      | None \<Rightarrow> (case base_class c of Some b \<Rightarrow> err_status_code b | None \<Rightarrow> 500))"
  by pat_completeness auto
termination
  by (relation "measure class_depth") (auto dest: base_class_depth)

function is_instance :: "err_class \<Rightarrow> err_class \<Rightarrow> bool" where
  "is_instance c d =
     (c = d \<or> (case base_class c of Some b \<Rightarrow> is_instance b d | None \<Rightarrow> False))"
  by pat_completeness auto
termination
  by (relation "measure (\<lambda>(c, d). class_depth c)") (auto dest: base_class_depth)

declare err_status_code.simps [simp del] is_instance.simps [simp del]

text \<open>A raised exception: its class and \<open>self.message = message or self.code\<close>.\<close>

datatype app_error = AppErr (err_cls: err_class) (err_msg: string)

definition mk_error :: "err_class \<Rightarrow> string option \<Rightarrow> app_error" where
  "mk_error c m =
     AppErr c (case m of None \<Rightarrow> err_code c | Some t \<Rightarrow> if t = [] then err_code c else t)"

abbreviation error :: "err_class \<Rightarrow> string \<Rightarrow> app_error" where
  "error c m \<equiv> mk_error c (Some m)"

text \<open>
  The \<^verbatim>\<open>AppError\<close> handler: the admin surface answers \<open>{"detail": \<dots>}\<close>, every
  other path the error envelope of \<open>_error_response\<close>.
\<close>

definition error_response :: "nat \<Rightarrow> string \<Rightarrow> string \<Rightarrow> json \<Rightarrow> nat \<times> json" where
  "error_response status code message request_id =
     (status, JObj [(''error'', JObj [(''code'', JStr code), (''message'', JStr message),
                                      (''requestId'', request_id)])])"

definition app_error_handler :: "string \<Rightarrow> json \<Rightarrow> app_error \<Rightarrow> nat \<times> json" where
  "app_error_handler path request_id exc =
     (if startswith path ''/v1/admin''
      then (err_status_code (err_cls exc), JObj [(''detail'', JStr (err_msg exc))])
      else error_response (err_status_code (err_cls exc)) (err_code (err_cls exc)) (err_msg exc)
             request_id)"

subsection \<open>Facts\<close>

lemma err_cls_mk_error [simp]: "err_cls (mk_error c m) = c"
  by (simp add: mk_error_def)

lemma is_instance_refl [simp]: "is_instance c c"
  by (simp add: is_instance.simps [of c c])

lemma is_instance_AppError: "is_instance c AppError"
  by (cases c) (simp_all add: is_instance.simps)

lemma is_instance_ConflictError_iff:
  "is_instance c ConflictError \<longleftrightarrow>
     c \<in> {ConflictError, InsufficientCreditsError, RunNotResumableError, ResumeInProgressError,
          SessionExpiredError}"
  by (cases c) (simp_all add: is_instance.simps)

definition all_err_classes :: "err_class list" where
  "all_err_classes =
     [AppError, UnauthorizedError, ForbiddenError,
      SubscriptionRequiredError, NotFoundError, SessionNotFoundError,
      UserNotFoundError, WorkspaceNotFoundError, MessageNotFoundError,
      ConflictError, InsufficientCreditsError, RunNotResumableError,
      ResumeInProgressError, SessionExpiredError, PayloadTooLargeError,
      BadRequestError, ValidationFailedError, RateLimitedError,
      UpstreamError, UpstreamTimeoutError, ServiceUnavailableError,
      CloudPaymentsWebhookMisconfiguredError, CloudPaymentsVerificationUnavailableError, CloudPaymentsCheckoutNotConfiguredError]"

lemma all_err_classes_complete: "c \<in> set all_err_classes"
  by (cases c) (simp_all add: all_err_classes_def)

lemma distinct_err_codes: "distinct (map err_code all_err_classes)"
  by code_simp

lemma err_code_inject: "err_code c = err_code d \<Longrightarrow> c = d"
  using distinct_err_codes all_err_classes_complete [of c] all_err_classes_complete [of d]
  by (auto simp: distinct_map dest: inj_onD)

lemma err_status_code_table:
  "err_status_code c =
     (if is_instance c ConflictError then 409
      else if is_instance c NotFoundError then 404
      else if is_instance c ForbiddenError then 403
      else if is_instance c UpstreamError then 502
      else if c = UnauthorizedError then 401
      else if c = PayloadTooLargeError then 413
      else if c = BadRequestError then 400
      else if c = ValidationFailedError then 422
      else if c = RateLimitedError then 429
      else if c \<in> {ServiceUnavailableError, CloudPaymentsCheckoutNotConfiguredError} then 503
      else 500)"
  by (cases c) (simp_all add: err_status_code.simps is_instance.simps)

end
