(* ===== verification/Redaction.thy ===== *)
theory Redaction
  imports PyData
begin

text \<open>
  \<^verbatim>\<open>src/app/observability/redaction.py\<close>: which keys are sensitive, and the recursive
  redaction applied to every audit payload. Dictionary keys are text, as in the payloads the
  service builds and in parsed JSON; a tuple is a list.
\<close>

subsection \<open>Key classes\<close>

definition REDACTED :: string where
  "REDACTED = ''***REDACTED***''"

definition deny_substrings :: "string list" where
  "deny_substrings = [''key'', ''token'', ''secret'', ''password'', ''authorization'', ''credential'']"

definition usage_count_allowlist :: "string list" where
  "usage_count_allowlist =
     [''input_tokens'', ''output_tokens'', ''total_tokens'',
      ''inputtokens'', ''outputtokens'', ''totaltokens'',
      ''cumulative_input_tokens'', ''cumulative_output_tokens'', ''cumulative_total_tokens'',
      ''cumulativeinputtokens'', ''cumulativeoutputtokens'', ''cumulativetotaltokens'']"

definition idempotency_key_allowlist :: "string list" where
  "idempotency_key_allowlist = [''idempotencykey'', ''idempotency_key'']"

definition deny_exact :: "string list" where
  "deny_exact =
     [''apikey'', ''transaction'', ''jws'', ''receipt'', ''dek'', ''nonce'',
      ''encrypted_key'', ''encrypted_dek'', ''x-admin-token'', ''x_admin_token'']"

definition is_sensitive_key :: "string \<Rightarrow> bool" where
  "is_sensitive_key key =
     (let lowered = lower key in
      if lowered \<in> set usage_count_allowlist then False
      else if lowered \<in> set idempotency_key_allowlist then False
      else if endswith lowered ''status'' then False
      else if lowered \<in> set deny_exact then True
      else list_ex (\<lambda>sub. contains_sub sub lowered) deny_substrings)"

subsection \<open>Redaction\<close>

lemma size_json_elem [termination_simp]:
  "v \<in> set xs \<Longrightarrow> size v < Suc (size_list size xs)"
  by (induction xs) auto

lemma size_json_entry [termination_simp]:
  "(k, v) \<in> set d \<Longrightarrow> size v < Suc (size_list (size_prod (\<lambda>_. 0) size) d)"
  by (induction d) auto

lemma size_item_entry:
  assumes "JObj d \<in> set xs" and "(k, v) \<in> set d"
  shows "2 * size v < Suc (Suc (Suc (2 * size_list size xs)))"
  using size_json_elem [OF assms(1)] size_json_entry [OF assms(2)] by simp

text \<open>
  \<open>redact\<close> and \<open>_redact_attachments\<close> are mutually recursive: the value under a key whose
  lower-cased name is \<open>attachments\<close> goes through the targeted rule.
\<close>

function (sequential) redact :: "json \<Rightarrow> json" and redact_attachments :: "json \<Rightarrow> json" where
  "redact (JObj d) =
     JObj (map (\<lambda>(k, v).
       (k, if is_sensitive_key k then JStr REDACTED
           else if lower k = ''attachments'' then redact_attachments v
           else redact v)) d)"
| "redact (JList xs) = JList (map redact xs)"
| "redact v = v"
| "redact_attachments (JList xs) =
     JList (map (\<lambda>item. case item of
         JObj d \<Rightarrow> JObj (map (\<lambda>(k, v). (k, if k = ''data'' then JStr REDACTED else redact v)) d)
       | _ \<Rightarrow> redact item) xs)"
| "redact_attachments v = redact v"
  by pat_completeness auto
termination
  by (relation "measure (\<lambda>x. case x of Inl v \<Rightarrow> 2 * size v | Inr v \<Rightarrow> 2 * size v + 1)")
    (auto dest: size_json_entry size_json_elem size_item_entry)

definition assert_no_secrets :: "dict \<Rightarrow> dict" where
  "assert_no_secrets payload =
     (case redact (JObj payload) of JObj d \<Rightarrow> d | _ \<Rightarrow> [])"

subsection \<open>Where a value sits in a document\<close>

text \<open>
  \<open>at_path v p w\<close>: \<open>w\<close> is a part of \<open>v\<close> reached through the keys \<open>p\<close>
  (list positions are not recorded).
\<close>

inductive at_path :: "json \<Rightarrow> string list \<Rightarrow> json \<Rightarrow> bool" where
  at_here: "at_path v [] v"
| at_key: "(k, v) \<in> set d \<Longrightarrow> at_path v p w \<Longrightarrow> at_path (JObj d) (k # p) w"
| at_elem: "v \<in> set xs \<Longrightarrow> at_path v p w \<Longrightarrow> at_path (JList xs) p w"

inductive_cases at_path_strE: "at_path (JStr s) p w"
inductive_cases at_path_nullE: "at_path JNull p w"
inductive_cases at_path_boolE: "at_path (JBool b) p w"
inductive_cases at_path_intE: "at_path (JInt i) p w"
inductive_cases at_path_objE: "at_path (JObj d) p w"
inductive_cases at_path_listE: "at_path (JList xs) p w"

lemmas at_path_leafE = at_path_strE at_path_nullE at_path_boolE at_path_intE

definition plain_path :: "string list \<Rightarrow> bool" where
  "plain_path p = list_all (\<lambda>k. lower k \<noteq> ''attachments'') p"

lemma plain_path_Cons [simp]: "plain_path (k # p) \<longleftrightarrow> lower k \<noteq> ''attachments'' \<and> plain_path p"
  by (simp add: plain_path_def)

subsection \<open>Lemmas about redaction\<close>

lemma redact_idem_both:
  "redact (redact v) = redact v"
  "redact_attachments (redact_attachments u) = redact_attachments u"
  by (induction v and u rule: redact_redact_attachments.induct)
    (auto split: json.splits)

lemma redact_hides_lemma:
  "at_path (redact v) p w \<Longrightarrow> plain_path p \<Longrightarrow> list_ex is_sensitive_key p \<Longrightarrow> w = JStr REDACTED"
proof (induction "redact v" p w arbitrary: v rule: at_path.induct)
  case at_here
  then show ?case by simp
next
  case (at_key k u d p w)
  from at_key.hyps(4) obtain e where v: "v = JObj e"
    by (cases v) auto
  with at_key.hyps(1,4) obtain u0 where
    "u = (if is_sensitive_key k then JStr REDACTED
          else if lower k = ''attachments'' then redact_attachments u0 else redact u0)"
    by auto
  with at_key.prems(1) have u: "u = (if is_sensitive_key k then JStr REDACTED else redact u0)"
    by simp
  show ?case
  proof (cases "is_sensitive_key k")
    case True
    with u at_key.hyps(2) show ?thesis by (auto elim: at_path_strE)
  next
    case False
    with u at_key.prems at_key.hyps(3) [of u0] show ?thesis by auto
  qed
next
  case (at_elem u xs p w)
  from at_elem.hyps(4) obtain ys where "v = JList ys" and "xs = map redact ys"
    by (cases v) auto
  with at_elem show ?case by auto
qed

lemma redact_keeps_lemma:
  "at_path v p w \<Longrightarrow> plain_path p \<Longrightarrow> \<not> list_ex is_sensitive_key p \<Longrightarrow>
   at_path (redact v) p (redact w)"
proof (induction rule: at_path.induct)
  case (at_here v)
  show ?case by (rule at_path.at_here)
next
  case (at_key k v d p w)
  then have "(k, redact v) \<in> set (map (\<lambda>(k, v). (k, if is_sensitive_key k then JStr REDACTED
      else if lower k = ''attachments'' then redact_attachments v else redact v)) d)"
    by (auto intro!: image_eqI [where x = "(k, v)"])
  moreover from at_key have "at_path (redact v) p (redact w)" by simp
  ultimately show ?case unfolding redact.simps by (rule at_path.at_key)
next
  case (at_elem v xs p w)
  then have "redact v \<in> set (map redact xs)" and "at_path (redact v) p (redact w)" by auto
  then show ?case unfolding redact.simps by (rule at_path.at_elem)
qed

lemma map_fst_redact: "redact (JObj d) = JObj e \<Longrightarrow> map fst e = map fst d"
  by (auto simp: case_prod_beta)

lemma assert_no_secrets_map:
  "assert_no_secrets d =
     map (\<lambda>(k, v). (k, if is_sensitive_key k then JStr REDACTED
                       else if lower k = ''attachments'' then redact_attachments v
                       else redact v)) d"
  by (simp add: assert_no_secrets_def)

text \<open>An integer under a key that is neither sensitive nor \<open>attachments\<close> is stored as it is.\<close>

lemma dict_get_assert_no_secrets:
  "dict_get (assert_no_secrets d) k =
     (if map_of d k = None then JNull
      else if is_sensitive_key k then JStr REDACTED
      else if lower k = ''attachments'' then redact_attachments (dict_get d k)
      else redact (dict_get d k))"
  unfolding assert_no_secrets_map by (induction d) (auto simp: dict_get_def)

subsection \<open>What redaction promises\<close>

text \<open>
  Outside of attachments nothing stays readable under a sensitive key, at any depth:
  whatever sits at or below such a key in the redacted document is the placeholder.
\<close>

theorem redact_hides_secrets:
  assumes "at_path (redact v) p w" and "plain_path p" and "list_ex is_sensitive_key p"
  shows "w = JStr REDACTED"
  by (rule redact_hides_lemma [OF assms])

theorem redact_hides_secrets_witness:
  "at_path (redact (JObj [(''req'', JList [JObj [(''apiKey'', JStr ''sk-1'')]])])) [''req'', ''apiKey'']
     (JStr REDACTED) \<and> (JStr REDACTED = JStr REDACTED)"
proof -
  let ?v = "JObj [(''req'', JList [JObj [(''apiKey'', JStr ''sk-1'')]])]"
  have s: "is_sensitive_key ''apiKey''" "\<not> is_sensitive_key ''req''" "lower ''req'' \<noteq> ''attachments''"
    "lower ''apiKey'' \<noteq> ''attachments''" by code_simp+
  then have r: "redact ?v = JObj [(''req'', JList [JObj [(''apiKey'', JStr REDACTED)]])]" by simp
  have at: "at_path (redact ?v) [''req'', ''apiKey''] (JStr REDACTED)"
    unfolding r
    by (rule at_key [where v = "JList [JObj [(''apiKey'', JStr REDACTED)]]"], simp,
        rule at_elem [where v = "JObj [(''apiKey'', JStr REDACTED)]"], simp,
        rule at_key [where v = "JStr REDACTED"], simp, rule at_here)
  show ?thesis using redact_hides_secrets [OF at] s at by simp
qed

text \<open>
  Redaction loses nothing else and is stable: a value reached only through keys that are
  neither sensitive nor \<open>attachments\<close> is still there, in its redacted form, and redacting twice
  is redacting once.
\<close>

theorem redact_keeps_the_rest:
  assumes "at_path v p w" and "plain_path p" and "\<not> list_ex is_sensitive_key p"
  shows "at_path (redact v) p (redact w) \<and> redact (redact v) = redact v"
  using redact_keeps_lemma [OF assms] redact_idem_both(1) by blast

theorem redact_keeps_the_rest_witness:
  "at_path (redact (JObj [(''amount'', JInt 5)])) [''amount''] (redact (JInt 5))"
proof -
  have "\<not> list_ex is_sensitive_key [''amount'']" "plain_path [''amount'']" by code_simp+
  moreover have "at_path (JObj [(''amount'', JInt 5)]) [''amount''] (JInt 5)"
    by (rule at_key [where v = "JInt 5"]) (simp_all add: at_here)
  ultimately show ?thesis using redact_keeps_the_rest by blast
qed

text \<open>
  The rule for attachments tests only for the exact key \<open>data\<close>: a sensitive key directly in an
  attachment item, or \<open>Data\<close> in another case, is not redacted.
\<close>

lemma attachment_item_secret_survives:
  "redact (JObj [(''attachments'', JList [JObj [(''apiKey'', JStr ''sk-1'')]])]) =
     JObj [(''attachments'', JList [JObj [(''apiKey'', JStr ''sk-1'')]])]"
proof -
  have "\<not> is_sensitive_key ''attachments''" "lower ''attachments'' = ''attachments''" by code_simp+
  then show ?thesis by simp
qed

end
