(* ===== verification/Float64.thy ===== *)
theory Float64
  imports Prelude
begin

text \<open>
  Python's \<open>float\<close>: IEEE 754 binary64 with round-half-to-even, as rationals plus the two
  infinities and NaN. The sign of zero is not kept (no modelled operation depends on it).
\<close>

subsection \<open>Rounding to an integer, half to even\<close>

definition round_half_even :: "rat \<Rightarrow> int" where
  "round_half_even q =
     (let f = \<lfloor>q\<rfloor>; d = q - of_int f in
      if d < 1 / 2 then f
      else if d > 1 / 2 then f + 1
      else if even f then f else f + 1)"

lemma round_half_even_ge: "of_int k \<le> q \<Longrightarrow> k \<le> round_half_even q"
  by (auto simp: round_half_even_def Let_def) (linarith+)

lemma round_half_even_le: "q \<le> of_int k \<Longrightarrow> round_half_even q \<le> k"
proof -
  assume h: "q \<le> of_int k"
  show ?thesis
  proof (cases "\<lfloor>q\<rfloor> < k")
    case True
    then show ?thesis by (simp add: round_half_even_def Let_def)
  next
    case False
    with h have "q = of_int k" by linarith
    then show ?thesis by (simp add: round_half_even_def)
  qed
qed

lemma round_half_even_of_int [simp]: "round_half_even (of_int k) = k"
  by (simp add: round_half_even_def)

lemma round_half_even_mono: "p \<le> q \<Longrightarrow> round_half_even p \<le> round_half_even q"
proof -
  assume h: "p \<le> q"
  show ?thesis
  proof (cases "\<lfloor>p\<rfloor> = \<lfloor>q\<rfloor>")
    case True
    with h show ?thesis by (auto simp: round_half_even_def Let_def)
  next
    case False
    with h have lt: "\<lfloor>p\<rfloor> + 1 \<le> \<lfloor>q\<rfloor>" using floor_mono [OF h] by linarith
    have "round_half_even p \<le> \<lfloor>p\<rfloor> + 1" by (rule round_half_even_le) linarith
    also have "\<lfloor>p\<rfloor> + 1 \<le> \<lfloor>q\<rfloor>" by (rule lt)
    also have "\<lfloor>q\<rfloor> \<le> round_half_even q" by (rule round_half_even_ge) simp
    finally show ?thesis .
  qed
qed

subsection \<open>Binary exponents\<close>

text \<open>The largest \<open>k\<close> with \<open>2 ^ k \<le> n\<close>, for a positive natural.\<close>

fun ilog2 :: "nat \<Rightarrow> nat" where
  "ilog2 n = (if n < 2 then 0 else Suc (ilog2 (n div 2)))"

declare ilog2.simps [simp del]

lemma ilog2_bounds: "0 < n \<Longrightarrow> 2 ^ ilog2 n \<le> n \<and> n < 2 ^ Suc (ilog2 n)"
proof (induction n rule: ilog2.induct)
  case (1 n)
  show ?case
  proof (cases "n < 2")
    case True
    with 1 show ?thesis by (simp add: ilog2.simps)
  next
    case False
    with 1 have "2 ^ ilog2 (n div 2) \<le> n div 2" "n div 2 < 2 ^ Suc (ilog2 (n div 2))" by simp_all
    with False show ?thesis by (subst (1 2) ilog2.simps) auto
  qed
qed

text \<open>The exponent of a positive rational: \<open>2 powi k \<le> m < 2 powi (k + 1)\<close>.\<close>

definition exponent_of :: "rat \<Rightarrow> int" where
  "exponent_of m =
     (let (a, b) = quotient_of m;
          k = int (ilog2 (nat a)) - int (ilog2 (nat b))
      in if 2 powi k \<le> m then k else k - 1)"

lemma powi_nat_diff: "(2 :: rat) powi (int i - int j) = 2 ^ i / 2 ^ j"
  by (simp add: power_int_diff)

lemma exponent_of_bounds:
  assumes "0 < m"
  shows "2 powi exponent_of m \<le> m \<and> m < 2 powi (exponent_of m + 1)"
proof -
  obtain a b where ab: "quotient_of m = (a, b)" by fastforce
  have b: "0 < b" using quotient_of_denom_pos [OF ab] .
  have m: "m = of_int a / of_int b" using quotient_of_div [OF ab] .
  with assms b have a: "0 < a" by (simp add: zero_less_divide_iff)
  define i where "i = ilog2 (nat a)"
  define j where "j = ilog2 (nat b)"
  have "2 ^ i \<le> nat a" "nat a < 2 ^ Suc i" "2 ^ j \<le> nat b" "nat b < 2 ^ Suc j"
    using ilog2_bounds [of "nat a"] ilog2_bounds [of "nat b"] a b by (simp_all add: i_def j_def)
  then have ai: "(2 :: rat) ^ i \<le> of_int a" "of_int a < (2 :: rat) ^ Suc i"
    and bj: "(2 :: rat) ^ j \<le> of_int b" "of_int b < (2 :: rat) ^ Suc j"
    using a b by (metis int_nat_eq of_int_le_iff of_int_less_iff of_int_of_nat_eq of_int_power of_int_numeral
        of_nat_le_iff of_nat_less_iff of_nat_numeral of_nat_power order_less_imp_le)+
  have hi: "m < 2 powi (int i - int j + 1)"
  proof -
    have "m < 2 ^ Suc i / 2 ^ j"
      unfolding m using ai(2) bj(1) a b by (intro frac_less) simp_all
    also have "\<dots> = 2 powi (int i - int j + 1)" by (simp add: power_int_add powi_nat_diff)
    finally show ?thesis .
  qed
  have lo: "2 powi (int i - int j - 1) \<le> m"
  proof -
    have "(2 :: rat) powi (int i - int j - 1) = 2 ^ i / 2 ^ Suc j"
      by (simp add: power_int_diff)
    also have "\<dots> \<le> m"
      unfolding m using ai(1) bj(2) a b by (intro frac_le) simp_all
    finally show ?thesis .
  qed
  show ?thesis
    using hi lo by (auto simp: exponent_of_def ab Let_def i_def [symmetric] j_def [symmetric])
qed

subsection \<open>Rounding to binary64\<close>

text \<open>
  The magnitude of the nearest binary64 number of a non-negative rational, before the overflow
  test: 53 significant bits, with the fixed spacing of the subnormal range below.
\<close>

definition ulp_exp :: "rat \<Rightarrow> int" where
  "ulp_exp m = max (exponent_of m - 52) (-1074)"

definition round_mag :: "rat \<Rightarrow> rat" where
  "round_mag m =
     (if m \<le> 0 then 0
      else of_int (round_half_even (m / 2 powi ulp_exp m)) * 2 powi ulp_exp m)"

datatype float64 = Fin rat | PInf | NInf | NaN

definition round64 :: "rat \<Rightarrow> float64" where
  "round64 r =
     (let m = round_mag \<bar>r\<bar> in
      if m \<ge> 2 ^ 1024 then (if r > 0 then PInf else NInf)
      else Fin (if r < 0 then - m else m))"

lemma pos_powi [simp]: "0 < (2 :: rat) powi k"
  by (simp add: zero_less_power_int)

lemma exponent_of_mono:
  assumes "0 < m" "m \<le> n"
  shows "exponent_of m \<le> exponent_of n"
proof (rule ccontr)
  assume "\<not> exponent_of m \<le> exponent_of n"
  then have "(2 :: rat) powi (exponent_of n + 1) \<le> 2 powi exponent_of m"
    by (intro power_int_increasing) auto
  with exponent_of_bounds [of m] exponent_of_bounds [of n] assms show False by auto
qed

lemma round_mag_nonneg [simp]: "0 \<le> round_mag m"
proof (cases "m \<le> 0")
  case False
  then have "of_int 0 \<le> m / 2 powi ulp_exp m" by (simp add: zero_le_divide_iff less_imp_le)
  then have "0 \<le> round_half_even (m / 2 powi ulp_exp m)" by (rule round_half_even_ge)
  then show ?thesis by (simp add: round_mag_def less_imp_le)
qed (simp add: round_mag_def)

lemma round_mag_upper:
  assumes "0 < m"
  shows "round_mag m \<le> 2 powi (ulp_exp m + 53)"
proof -
  let ?e = "ulp_exp m"
  have "m < 2 powi (exponent_of m + 1)" using exponent_of_bounds [OF assms] by simp
  also have "\<dots> \<le> 2 powi (?e + 53)" by (intro power_int_increasing) (auto simp: ulp_exp_def)
  also have "\<dots> = 2 ^ 53 * 2 powi ?e" by (simp add: power_int_add)
  finally have "m / 2 powi ?e \<le> of_int (2 ^ 53)" by (simp add: divide_le_eq)
  then have "round_half_even (m / 2 powi ?e) \<le> 2 ^ 53" by (rule round_half_even_le)
  then have "(of_int (round_half_even (m / 2 powi ?e)) :: rat) \<le> of_int (2 ^ 53)"
    by (simp only: of_int_le_iff)
  then have "of_int (round_half_even (m / 2 powi ?e)) * 2 powi ?e \<le> of_int (2 ^ 53) * (2 :: rat) powi ?e"
    by (intro mult_right_mono) simp_all
  with assms show ?thesis by (simp add: round_mag_def power_int_add)
qed

lemma round_mag_lower:
  assumes "0 < m" "-1074 < ulp_exp m"
  shows "2 powi (ulp_exp m + 52) \<le> round_mag m"
proof -
  let ?e = "ulp_exp m"
  have e: "?e + 52 = exponent_of m" using assms(2) by (simp add: ulp_exp_def)
  have "2 powi (?e + 52) \<le> m" unfolding e using exponent_of_bounds [OF assms(1)] by simp
  then have "of_int (2 ^ 52) \<le> m / 2 powi ?e"
    by (simp add: le_divide_eq power_int_add)
  then have "2 ^ 52 \<le> round_half_even (m / 2 powi ?e)" by (rule round_half_even_ge)
  then have "(of_int (2 ^ 52) :: rat) \<le> of_int (round_half_even (m / 2 powi ?e))"
    by (simp only: of_int_le_iff)
  then have "of_int (2 ^ 52) * (2 :: rat) powi ?e \<le> of_int (round_half_even (m / 2 powi ?e)) * 2 powi ?e"
    by (intro mult_right_mono) simp_all
  with assms(1) show ?thesis by (simp add: round_mag_def power_int_add)
qed

text \<open>Rounding is monotone, also across a change of exponent.\<close>

lemma round_mag_mono:
  assumes "m \<le> n"
  shows "round_mag m \<le> round_mag n"
proof (cases "0 < m")
  case False
  then have "round_mag m = 0" by (simp add: round_mag_def)
  then show ?thesis by simp
next
  case True
  with assms have n: "0 < n" by simp
  have le: "ulp_exp m \<le> ulp_exp n"
    using exponent_of_mono [OF True assms] by (auto simp: ulp_exp_def)
  show ?thesis
  proof (cases "ulp_exp m = ulp_exp n")
    case eq: True
    have "m / 2 powi ulp_exp n \<le> n / 2 powi ulp_exp n"
      using assms by (intro divide_right_mono) simp_all
    then have "round_half_even (m / 2 powi ulp_exp n) \<le> round_half_even (n / 2 powi ulp_exp n)"
      by (rule round_half_even_mono)
    with True n eq show ?thesis by (simp add: round_mag_def)
  next
    case False
    with le have lt: "ulp_exp m + 53 \<le> ulp_exp n + 52" by simp
    have sub: "-1074 < ulp_exp n" using False le by (auto simp: ulp_exp_def)
    have "round_mag m \<le> 2 powi (ulp_exp m + 53)" by (rule round_mag_upper [OF True])
    also have "\<dots> \<le> 2 powi (ulp_exp n + 52)" using lt by (intro power_int_increasing) simp_all
    also have "\<dots> \<le> round_mag n" by (rule round_mag_lower [OF n sub])
    finally show ?thesis .
  qed
qed

subsection \<open>Operations\<close>

text \<open>\<open>float(n)\<close> for an integer: \<open>None\<close> is the \<open>OverflowError\<close>.\<close>

definition float_of_int :: "int \<Rightarrow> float64 option" where
  "float_of_int n = (case round64 (of_int n) of Fin r \<Rightarrow> Some (Fin r) | _ \<Rightarrow> None)"

text \<open>Addition, multiplication and division by a finite non-zero constant.\<close>

fun fadd :: "float64 \<Rightarrow> float64 \<Rightarrow> float64" where
  "fadd NaN _ = NaN"
| "fadd _ NaN = NaN"
| "fadd PInf NInf = NaN"
| "fadd NInf PInf = NaN"
| "fadd PInf _ = PInf"
| "fadd _ PInf = PInf"
| "fadd NInf _ = NInf"
| "fadd _ NInf = NInf"
| "fadd (Fin a) (Fin b) = round64 (a + b)"

definition fsign :: "float64 \<Rightarrow> int" where
  "fsign x = (case x of Fin r \<Rightarrow> if r > 0 then 1 else if r < 0 then -1 else 0 | PInf \<Rightarrow> 1 | NInf \<Rightarrow> -1 | NaN \<Rightarrow> 0)"

definition finf :: "int \<Rightarrow> float64" where
  "finf s = (if s > 0 then PInf else if s < 0 then NInf else NaN)"

definition fmul :: "float64 \<Rightarrow> float64 \<Rightarrow> float64" where
  "fmul x y =
     (case (x, y) of
        (NaN, _) \<Rightarrow> NaN
      | (_, NaN) \<Rightarrow> NaN
      | (Fin a, Fin b) \<Rightarrow> round64 (a * b)
      | _ \<Rightarrow> finf (fsign x * fsign y))"

definition fdiv_const :: "float64 \<Rightarrow> rat \<Rightarrow> float64" where
  "fdiv_const x c =
     (case x of Fin a \<Rightarrow> round64 (a / c) | NaN \<Rightarrow> NaN
      | _ \<Rightarrow> finf (fsign x * (if c > 0 then 1 else -1)))"

text \<open>\<open>math.ceil\<close>: \<open>None\<close> is the \<open>OverflowError\<close> or \<open>ValueError\<close> of a non-finite value.\<close>

definition fceil :: "float64 \<Rightarrow> int option" where
  "fceil x = (case x of Fin r \<Rightarrow> Some \<lceil>r\<rceil> | _ \<Rightarrow> None)"

subsection \<open>Non-negative values are ordered by the operations\<close>

text \<open>The order on non-negative values: a finite number below another, anything below infinity.\<close>

definition fle :: "float64 \<Rightarrow> float64 \<Rightarrow> bool" where
  "fle x y =
     (case (x, y) of
        (Fin a, Fin b) \<Rightarrow> 0 \<le> a \<and> a \<le> b
      | (Fin a, PInf) \<Rightarrow> 0 \<le> a
      | (PInf, PInf) \<Rightarrow> True
      | _ \<Rightarrow> False)"

lemma round64_nonneg: "0 \<le> r \<Longrightarrow> round64 r = (if round_mag r \<ge> 2 ^ 1024 then PInf else Fin (round_mag r))"
proof -
  assume "0 \<le> r"
  moreover have "\<not> 2 ^ 1024 \<le> round_mag r" if "r = 0" using that by (simp add: round_mag_def)
  ultimately show ?thesis by (cases "r = 0") (auto simp: round64_def Let_def)
qed

lemma round64_mono: "0 \<le> a \<Longrightarrow> a \<le> b \<Longrightarrow> fle (round64 a) (round64 b)"
  using round_mag_mono [of a b] by (auto simp: round64_nonneg fle_def)

lemma fle_simps [simp]:
  "fle (Fin a) (Fin b) \<longleftrightarrow> 0 \<le> a \<and> a \<le> b" "fle (Fin a) PInf \<longleftrightarrow> 0 \<le> a"
  "fle PInf PInf" "\<not> fle PInf (Fin b)" "\<not> fle NInf y" "\<not> fle NaN y" "\<not> fle x NInf" "\<not> fle x NaN"
  by (simp_all add: fle_def split: float64.splits)

lemma float_of_int_mono:
  assumes "0 \<le> m" "m \<le> n" "float_of_int n = Some y"
  shows "\<exists>x. float_of_int m = Some x \<and> fle x y"
proof -
  have "fle (round64 (of_int m)) (round64 (of_int n))"
    using assms(1,2) by (intro round64_mono) simp_all
  with assms(3) show ?thesis
    by (auto simp: float_of_int_def fle_def split: float64.splits)
qed

lemma fle_refl_round: "0 \<le> r \<Longrightarrow> fle (round64 r) (round64 r)"
  by (rule round64_mono) simp_all

lemma fdiv_const_mono:
  assumes "0 \<le> a" "a \<le> b" "0 < c"
  shows "fle (fdiv_const (Fin a) c) (fdiv_const (Fin b) c)"
  unfolding fdiv_const_def float64.case
  using assms by (intro round64_mono divide_right_mono) simp_all

lemma fmul_mono:
  assumes "0 \<le> a" "a \<le> b" "0 \<le> c"
  shows "fle (fmul (Fin a) (Fin c)) (fmul (Fin b) (Fin c))"
  unfolding fmul_def prod.case float64.case
  using assms by (intro round64_mono mult_right_mono) simp_all

lemma fadd_mono:
  assumes "fle x x'" "fle y y'"
  shows "fle (fadd x y) (fadd x' y')"
proof (cases "\<exists>a b a' b'. x = Fin a \<and> y = Fin b \<and> x' = Fin a' \<and> y' = Fin b'")
  case True
  then obtain a b a' b' where xy: "x = Fin a" "y = Fin b" "x' = Fin a'" "y' = Fin b'" by blast
  have "fle (round64 (a + b)) (round64 (a' + b'))"
    using assms xy by (intro round64_mono) simp_all
  then show ?thesis by (simp add: xy)
next
  case False
  have top: "fle (round64 (a + b)) PInf" if "0 \<le> a" "0 \<le> b" for a b
    using that by (simp add: round64_nonneg fle_def)
  show ?thesis
    using assms False
    by (cases x; cases x'; cases y; cases y') (auto intro!: top)
qed

lemma fceil_mono: "fle x y \<Longrightarrow> fceil y = Some n \<Longrightarrow> \<exists>m. fceil x = Some m \<and> m \<le> n"
  by (cases x; cases y) (auto simp: fceil_def fle_def intro: ceiling_mono)

text \<open>A magnitude below \<open>2 ^ 1023\<close> does not overflow.\<close>

lemma round_mag_no_overflow:
  assumes "m < 2 ^ 1023"
  shows "round_mag m < 2 ^ 1024"
proof (cases "0 < m")
  case True
  have "exponent_of m \<le> 1022"
  proof (rule ccontr)
    assume "\<not> exponent_of m \<le> 1022"
    then have "(2 :: rat) powi 1023 \<le> 2 powi exponent_of m" by (intro power_int_increasing) auto
    with exponent_of_bounds [OF True] assms show False by simp
  qed
  then have "ulp_exp m + 53 \<le> 1023" by (simp add: ulp_exp_def)
  then have "(2 :: rat) powi (ulp_exp m + 53) \<le> 2 powi 1023" by (intro power_int_increasing) simp_all
  with round_mag_upper [OF True] have "round_mag m \<le> 2 ^ 1023" by simp
  then show ?thesis by (rule le_less_trans) simp
qed (simp add: round_mag_def)

lemma round64_Fin_bound: "0 \<le> r \<Longrightarrow> round64 r = Fin q \<Longrightarrow> 0 \<le> q \<and> q < 2 ^ 1024"
  by (auto simp: round64_nonneg split: if_splits)

text \<open>Integers below \<open>2 ^ 53\<close> are represented exactly.\<close>

lemma round_mag_exact:
  assumes "0 < n" "n < 2 ^ 53"
  shows "round_mag (of_int n) = of_int n"
proof -
  let ?m = "of_int n :: rat"
  have pos: "0 < ?m" using assms by simp
  define e where "e = exponent_of ?m"
  have le: "e \<le> 52"
  proof (rule ccontr)
    assume "\<not> e \<le> 52"
    then have "(2 :: rat) powi 53 \<le> 2 powi e" by (intro power_int_increasing) auto
    with exponent_of_bounds [OF pos] have "(2 :: rat) ^ 53 \<le> of_int n" by (simp add: e_def)
    then have "of_int (2 ^ 53) \<le> (of_int n :: rat)" by simp
    with assms(2) show False by (simp only: of_int_le_iff)
  qed
  have ge: "0 \<le> e"
  proof (rule ccontr)
    assume "\<not> 0 \<le> e"
    then have "(2 :: rat) powi (e + 1) \<le> 2 powi 0" by (intro power_int_increasing) auto
    with exponent_of_bounds [OF pos] have "?m < 1" by (simp add: e_def)
    with assms(1) show False by simp
  qed
  have u: "ulp_exp ?m = e - 52" using ge by (simp add: ulp_exp_def e_def)
  have "?m / 2 powi (e - 52) = of_int n * 2 powi (52 - e)"
    by (simp add: power_int_diff)
  also have "(2 :: rat) powi (52 - e) = of_int (2 ^ nat (52 - e))"
    using le by (simp add: power_int_def)
  finally have "?m / 2 powi (e - 52) = of_int (n * 2 ^ nat (52 - e))" by simp
  then have "round_half_even (?m / 2 powi (e - 52)) = n * 2 ^ nat (52 - e)"
    by (simp only: round_half_even_of_int)
  then have "round_mag ?m = of_int (n * 2 ^ nat (52 - e)) * 2 powi (e - 52)"
    using pos by (simp add: round_mag_def u)
  also have "\<dots> = ?m / 2 powi (e - 52) * 2 powi (e - 52)"
    using \<open>?m / 2 powi (e - 52) = of_int (n * 2 ^ nat (52 - e))\<close> by simp
  finally show ?thesis by simp
qed

lemma round64_exact: "0 \<le> n \<Longrightarrow> n < 2 ^ 53 \<Longrightarrow> round64 (of_int n) = Fin (of_int n)"
proof -
  assume h: "0 \<le> n" "n < 2 ^ 53"
  have m: "round_mag (of_int n) = of_int n"
    using h round_mag_exact [of n] by (cases "n = 0") (simp_all add: round_mag_def)
  have "(of_int n :: rat) < of_int (2 ^ 53)" using h(2) by (simp only: of_int_less_iff)
  also have "\<dots> \<le> 2 ^ 1024" by simp
  finally have "(of_int n :: rat) < 2 ^ 1024" .
  then show ?thesis using h m by (simp add: round64_nonneg)
qed

end
