(* ===== verification/Database.thy ===== *)
theory Database
  imports Errors Redaction Float64
begin

text \<open>
  The tables of \<^verbatim>\<open>src/app/models/tables.py\<close> the modelled services read and write, the
  settings they consult, and the append-only audit service of
  \<^verbatim>\<open>src/app/audit/service.py\<close>. A primary-keyed table is a map, a table with a surrogate
  key is the list of its rows in insertion order. \<open>gen_random_uuid()\<close> is modelled by a counter
  of fresh identifiers starting at 1, so that an identifier is never the nil UUID. Instants are
  microseconds since the epoch.
\<close>

subsection \<open>Identifiers\<close>

type_synonym uuid = nat

definition hex_digit :: "nat \<Rightarrow> char" where
  "hex_digit n = ''0123456789abcdef'' ! (n mod 16)"

fun hex_digits :: "nat \<Rightarrow> nat \<Rightarrow> string" where
  "hex_digits 0 n = []"
| "hex_digits (Suc k) n = hex_digits k (n div 16) @ [hex_digit n]"

text \<open>\<open>str(uuid)\<close>: 32 hexadecimal digits in groups of 8-4-4-4-12.\<close>

definition uuid_str :: "uuid \<Rightarrow> string" where
  "uuid_str n =
     (let h = hex_digits 32 n in
      take 8 h @ ''-'' @ take 4 (drop 8 h) @ ''-'' @ take 4 (drop 12 h) @ ''-'' @
      take 4 (drop 16 h) @ ''-'' @ drop 20 h)"

lemma hex_digits_length [simp]: "length (hex_digits k n) = k"
  by (induction k arbitrary: n) auto

lemma hex_digit_inj: "hex_digit m = hex_digit n \<longleftrightarrow> m mod 16 = n mod 16"
proof -
  have "distinct ''0123456789abcdef''" by simp
  then show ?thesis unfolding hex_digit_def by (subst nth_eq_iff_index_eq) simp_all
qed

lemma hex_digits_inj: "m < 16 ^ k \<Longrightarrow> n < 16 ^ k \<Longrightarrow> hex_digits k m = hex_digits k n \<longleftrightarrow> m = n"
proof (induction k arbitrary: m n)
  case (Suc k)
  have "m div 16 < 16 ^ k" "n div 16 < 16 ^ k" using Suc.prems by (simp_all add: less_mult_imp_div_less mult.commute)
  then have "hex_digits (Suc k) m = hex_digits (Suc k) n \<longleftrightarrow> m div 16 = n div 16 \<and> m mod 16 = n mod 16"
    by (simp add: Suc.IH hex_digit_inj)
  also have "\<dots> \<longleftrightarrow> m = n" by (metis div_mult_mod_eq)
  finally show ?case .
qed simp

lemma uuid_str_length [simp]: "length (uuid_str n) = 36"
  by (simp add: uuid_str_def Let_def)

text \<open>The text of an identifier determines it: identifiers are 128 bits wide.\<close>

lemma uuid_str_inj:
  assumes "m < 2 ^ 128" "n < 2 ^ 128"
  shows "uuid_str m = uuid_str n \<longleftrightarrow> m = n"
proof
  assume eq: "uuid_str m = uuid_str n"
  have join: "hex_digits 32 k = take 8 (uuid_str k) @ take 4 (drop 9 (uuid_str k)) @ take 4 (drop 14 (uuid_str k)) @
     take 4 (drop 19 (uuid_str k)) @ drop 24 (uuid_str k)" for k
  proof -
    define h where "h = hex_digits 32 k"
    have l: "length h = 32" by (simp add: h_def)
    have "take 4 (drop 16 h) @ drop 20 h = drop 16 h" "take 4 (drop 12 h) @ drop 16 h = drop 12 h"
      "take 4 (drop 8 h) @ drop 12 h = drop 8 h"
      using append_take_drop_id [of 4 "drop 16 h"] append_take_drop_id [of 4 "drop 12 h"] append_take_drop_id [of 4 "drop 8 h"]
      by simp_all
    then show ?thesis using l by (simp add: uuid_str_def Let_def flip: h_def)
  qed
  have "hex_digits 32 m = hex_digits 32 n" by (simp only: join eq)
  moreover have "(16::nat) ^ 32 = 2 ^ 128" by simp
  ultimately show "m = n" using assms hex_digits_inj [of m 32 n] by (simp only:)
qed simp

subsection \<open>Exceptions\<close>

text \<open>
  An application error, an error of the database driver (a constraint violation), the internal
  signal \<open>_RetryNormalPath\<close> of the wallet, or a built-in exception of Python by its name.
\<close>

datatype exn = App app_error | DbError | RetryNormalPath | PyError string

abbreviation raise_app :: "err_class \<Rightarrow> string \<Rightarrow> ('s, exn, 'a) op" where
  "raise_app c m \<equiv> op_raise (App (error c m))"

fun exn_is :: "err_class \<Rightarrow> exn \<Rightarrow> bool" where
  "exn_is c (App e) = is_instance (err_cls e) c"
| "exn_is c _ = False"

subsection \<open>Rows\<close>

record user_row =
  trial_used :: bool

record subscription =
  sub_status :: string
  sub_plan :: "string option"
  sub_expires_at :: "int option"

record wallet =
  balance :: int
  debt :: int

datatype tx_type = Debit | Credit

record ledger_tx =
  tx_id :: uuid
  tx_user :: uuid
  tx_type :: tx_type
  tx_amount :: int
  tx_meta :: dict
  tx_key :: string

record byok_key =
  key_sealed :: "string \<times> string \<times> string"
  key_status :: string
  key_enabled :: bool

record chat_session =
  ses_user :: uuid
  ses_project_id :: "string option"
  ses_mode :: string
  ses_model :: "string option"
  ses_title :: "string option"
  ses_assistant_mode :: string
  ses_workspace :: "uuid option"
  ses_pinned :: bool
  ses_created_at :: int
  ses_updated_at :: int

text \<open>
  The steps of all conversations in the order of the identity column \<open>seq\<close>, which is their
  order of insertion.
\<close>

record chat_step =
  st_id :: uuid
  st_session :: uuid
  st_turn :: uuid
  st_role :: string
  st_payload :: dict
  st_usage :: "dict option"

record tool_call =
  tc_id :: uuid
  tc_session :: uuid
  tc_turn :: uuid
  tc_name :: string
  tc_provider_id :: string
  tc_args :: dict
  tc_status :: string
  tc_result :: "dict option"

record user_preferences =
  pref_assistant_mode :: string
  pref_notifications :: bool
  pref_code_defaults :: dict

record site_project =
  pj_id :: uuid
  pj_user :: uuid
  pj_external :: string

record site_file =
  sf_project :: uuid
  sf_path :: string
  sf_content :: string
  sf_content_type :: string
  sf_size :: int

record workspace =
  ws_user :: uuid
  ws_name :: string
  ws_description :: "string option"
  ws_instructions :: "string option"
  ws_created_at :: int
  ws_updated_at :: int

record workspace_file =
  wf_id :: uuid
  wf_workspace :: uuid
  wf_filename :: string
  wf_content :: string
  wf_media_type :: string
  wf_size :: int
  wf_extracted_text :: "string option"
  wf_created_at :: int

record audit_row =
  audit_user :: uuid
  audit_session :: "uuid option"
  audit_type :: string
  audit_payload :: dict

record grant_event =
  ge_payload_hash :: string
  ge_plan :: string
  ge_expires_at :: int
  ge_grant_credits :: bool
  ge_ledger_tx_id :: "uuid option"

record webhook_event =
  wh_user :: uuid
  wh_kind :: string
  wh_payload :: json

record agent_run =
  run_user :: uuid
  run_session_id :: string
  run_status :: string
  run_credits_spent :: int
  run_last_billed_step :: int
  run_paused_reason :: "string option"
  run_continued_from :: "string option"
  run_model :: "string option"
  run_created_at :: int
  run_updated_at :: int

record agent_snapshot =
  snap_user :: uuid
  snap_result_text :: string
  snap_last_tool :: "string option"
  snap_pending_approval :: "dict option"
  snap_input_tokens :: int
  snap_output_tokens :: int
  snap_updated_at :: int
  snap_heartbeat_at :: "int option"

record hermes_instance =
  hi_container_id :: "string option"
  hi_endpoint :: "string option"
  hi_sealed :: "string \<times> string \<times> string"
  hi_status :: string
  hi_port :: "int option"
  hi_last_active_at :: int
  hi_provisioning_started_at :: "int option"
  hi_created_at :: int

record db =
  users :: "uuid \<rightharpoonup> user_row"
  subscriptions :: "uuid \<rightharpoonup> subscription"
  wallets :: "uuid \<rightharpoonup> wallet"
  ledger :: "ledger_tx list"
  byok_keys :: "uuid \<rightharpoonup> byok_key"
  chat_sessions :: "uuid \<rightharpoonup> chat_session"
  chat_steps :: "chat_step list"
  tool_calls :: "tool_call list"
  preferences :: "uuid \<rightharpoonup> user_preferences"
  site_projects :: "site_project list"
  site_files :: "site_file list"
  workspaces :: "(uuid \<times> workspace) list"
  workspace_files :: "workspace_file list"
  audit_logs :: "audit_row list"
  grant_events :: "uuid \<times> string \<rightharpoonup> grant_event"
  adapty_events :: "string \<rightharpoonup> webhook_event"
  cp_events :: "string \<rightharpoonup> webhook_event"
  auth_devices :: "(string \<times> uuid) list"
  agent_runs :: "(string \<times> agent_run) list"
  agent_snapshots :: "string \<rightharpoonup> agent_snapshot"
  hermes_instances :: "(uuid \<times> hermes_instance) list"
  next_id :: uuid
  request_id :: "string option"

definition empty_db :: db where
  "empty_db =
     \<lparr>users = Map.empty, subscriptions = Map.empty, wallets = Map.empty, ledger = [],
      byok_keys = Map.empty, chat_sessions = Map.empty, chat_steps = [], tool_calls = [],
      preferences = Map.empty, site_projects = [], site_files = [], workspaces = [], workspace_files = [], audit_logs = [],
      grant_events = Map.empty, adapty_events = Map.empty, cp_events = Map.empty, auth_devices = [],
      agent_runs = [], agent_snapshots = Map.empty, hermes_instances = [], next_id = 1, request_id = None\<rparr>"

subsection \<open>Settings\<close>

record settings =
  cloudpayments_api_token :: string
  cloudpayments_product_tokens :: "(string \<times> int) list"
  cloudpayments_subscription_tokens_grant :: int
  cloudpayments_paid_statuses :: "string list"
  cloudpayments_payment_freshness_hours :: int
  agent_debt_reconcile_enabled :: bool
  subscription_credits_per_period :: int
  token_products :: "(string \<times> int) list"
  adapty_product_tokens :: "(string \<times> int) list"
  adapty_subscription_tokens_grant :: int
  credits_per_1k_input :: float64
  credits_per_1k_output :: float64
  agent_incremental_billing_enabled :: bool
  agent_state_flush_interval_seconds :: rat
  agent_state_result_text_max_chars :: int
  hermes_proxy_timeout_seconds :: rat
  hermes_connect_timeout_seconds :: rat
  hermes_launch_budget_seconds :: rat
  hermes_launch_retry_attempts :: int
  hermes_launch_retry_backoff_seconds :: rat

type_synonym 'a dbop = "(db, exn, 'a) op"

subsection \<open>Audit\<close>

definition EVENT_BILLING_DEBIT :: string where
  "EVENT_BILLING_DEBIT = ''billing_debit''"
definition EVENT_BILLING_DEBIT_INSUFFICIENT :: string where
  "EVENT_BILLING_DEBIT_INSUFFICIENT = ''billing_debit_insufficient''"
definition EVENT_BILLING_CREDIT :: string where
  "EVENT_BILLING_CREDIT = ''billing_credit''"
definition EVENT_BILLING_DEBT_REPAID :: string where
  "EVENT_BILLING_DEBT_REPAID = ''billing_debt_repaid''"
definition EVENT_ADAPTY_SUBSCRIPTION :: string where
  "EVENT_ADAPTY_SUBSCRIPTION = ''adapty_subscription''"
definition EVENT_CLOUDPAYMENTS_PAYMENT :: string where
  "EVENT_CLOUDPAYMENTS_PAYMENT = ''cloudpayments_payment''"
definition EVENT_ADMIN_GRANT :: string where
  "EVENT_ADMIN_GRANT = ''admin_grant''"
definition EVENT_ADMIN_SUBSCRIPTION_GRANT :: string where
  "EVENT_ADMIN_SUBSCRIPTION_GRANT = ''admin_subscription_grant''"
definition EVENT_ADMIN_DEBIT :: string where
  "EVENT_ADMIN_DEBIT = ''admin_debit''"

lemmas event_defs = EVENT_BILLING_DEBIT_def EVENT_BILLING_DEBIT_INSUFFICIENT_def
  EVENT_BILLING_CREDIT_def EVENT_BILLING_DEBT_REPAID_def EVENT_ADAPTY_SUBSCRIPTION_def
  EVENT_CLOUDPAYMENTS_PAYMENT_def EVENT_ADMIN_GRANT_def EVENT_ADMIN_SUBSCRIPTION_GRANT_def EVENT_ADMIN_DEBIT_def

record audit_event =
  ev_user :: uuid
  ev_type :: string
  ev_payload :: dict
  ev_session :: "uuid option"

definition audit_row_of :: "string option \<Rightarrow> audit_event \<Rightarrow> audit_row" where
  "audit_row_of rid e =
     \<lparr>audit_user = ev_user e, audit_session = ev_session e, audit_type = ev_type e,
      audit_payload = assert_no_secrets (dict_set (ev_payload e) ''requestId'' (opt_str rid))\<rparr>"

text \<open>\<open>AuditService.record\<close>: redact, append, flush in the caller's transaction.\<close>

definition audit_record :: "audit_event \<Rightarrow> unit dbop" where
  "audit_record e =
     op_modify (\<lambda>s. s\<lparr>audit_logs := audit_logs s @ [audit_row_of (request_id s) e]\<rparr>)"

lemma audit_record_apply [simp]:
  "audit_record e s = (Inr (), s\<lparr>audit_logs := audit_logs s @ [audit_row_of (request_id s) e]\<rparr>)"
  by (simp add: audit_record_def)

lemma op_bind_audit_record [simp]:
  "op_bind (audit_record e) f s =
   f () (s\<lparr>audit_logs := audit_logs s @ [audit_row_of (request_id s) e]\<rparr>)"
  by (simp add: op_bind_def)

text \<open>What redaction does to an integer field of an audit payload.\<close>

lemma audit_payload_int:
  assumes "\<not> is_sensitive_key k" and "lower k \<noteq> ''attachments''" and "k \<noteq> ''requestId''"
    and "dict_get (ev_payload e) k = JInt i"
  shows "json_int (dict_get (audit_payload (audit_row_of rid e)) k) = i"
proof -
  have "map_of (dict_set (ev_payload e) ''requestId'' (opt_str rid)) k \<noteq> None"
    using assms(3,4) by (auto simp: map_of_dict_set dict_get_def split: option.splits)
  with assms show ?thesis
    by (auto simp: audit_row_of_def dict_get_assert_no_secrets dict_get_dict_set)
qed

lemma repaid_key_plain [key_facts]:
  "\<not> is_sensitive_key ''repaid''" "lower ''repaid'' \<noteq> ''attachments''" "''repaid'' \<noteq> ''requestId''"
  by code_simp+

lemma debtAdded_key_plain [key_facts]:
  "\<not> is_sensitive_key ''debtAdded''" "lower ''debtAdded'' \<noteq> ''attachments''"
  "''debtAdded'' \<noteq> ''requestId''"
  by code_simp+

end
