(* ===== verification/Wallet.thy ===== *)
theory Wallet
  imports Database
begin

text \<open>
  \<^verbatim>\<open>src/app/wallet/service.py\<close>: the credit ledger. Every statement the service sends is
  one definition (\<open>insert_ledger\<close>, \<open>update_debit\<close>, \<dots>); the methods compose them with the
  savepoints of the source. Amounts are unbounded integers (Python's), the \<open>CHECK\<close> and
  \<open>UNIQUE\<close> constraints of the tables are part of the statements. Prometheus counters are not
  modelled.
\<close>

subsection \<open>Results\<close>

record consume_result =
  cr_new_balance :: int
  cr_ledger_tx_id :: uuid
  cr_idempotent_replay :: bool
  cr_charged_amount :: int

record grant_result =
  gr_new_balance :: int
  gr_ledger_tx_id :: uuid
  gr_idempotent_replay :: bool

definition NIL_TX_ID :: uuid where
  "NIL_TX_ID = 0"

definition AGENT_RUN_SOURCE :: string where
  "AGENT_RUN_SOURCE = ''agent_run''"

subsection \<open>Reads\<close>

definition existing_tx :: "uuid \<Rightarrow> string \<Rightarrow> db \<Rightarrow> ledger_tx option" where
  "existing_tx uid key s = find (\<lambda>t. tx_user t = uid \<and> tx_key t = key) (ledger s)"

definition current_balance :: "uuid \<Rightarrow> db \<Rightarrow> int" where
  "current_balance uid s = (case wallets s uid of None \<Rightarrow> 0 | Some w \<Rightarrow> balance w)"

definition current_debt :: "uuid \<Rightarrow> db \<Rightarrow> int" where
  "current_debt uid s = (case wallets s uid of None \<Rightarrow> 0 | Some w \<Rightarrow> debt w)"

text \<open>
  SQL \<open>text LIKE pattern ESCAPE '\'\<close>. A pattern that ends in the escape character is an error
  in PostgreSQL and matches nothing here; the patterns built below never do.
\<close>

fun like_match :: "string \<Rightarrow> string \<Rightarrow> bool" where
  "like_match [] t = (t = [])"
| "like_match (c # p) t =
     (if c = CHR ''%'' then
        like_match p t \<or> (case t of [] \<Rightarrow> False | _ # t' \<Rightarrow> like_match (c # p) t')
      else if c = CHR 0x5C then
        (case p of
           [] \<Rightarrow> False
         | d # p' \<Rightarrow> (case t of [] \<Rightarrow> False | e # t' \<Rightarrow> d = e \<and> like_match p' t'))
      else if c = CHR ''_'' then (case t of [] \<Rightarrow> False | _ # t' \<Rightarrow> like_match p t')
      else (case t of [] \<Rightarrow> False | e # t' \<Rightarrow> c = e \<and> like_match p t'))"

text \<open>\<open>s.replace(c, r)\<close> for a one-character \<open>c\<close>.\<close>

definition replace_char :: "char \<Rightarrow> string \<Rightarrow> string \<Rightarrow> string" where
  "replace_char c r s = concat (map (\<lambda>x. if x = c then r else [x]) s)"

definition escape_like :: "string \<Rightarrow> string" where
  "escape_like run_id =
     replace_char CHR ''_'' [CHR 0x5C, CHR ''_'']
       (replace_char CHR ''%'' [CHR 0x5C, CHR ''%'']
         (replace_char CHR 0x5C [CHR 0x5C, CHR 0x5C] run_id))"

definition charged_for_run :: "uuid \<Rightarrow> string \<Rightarrow> db \<Rightarrow> int" where
  "charged_for_run uid run_id s =
     sum_list (map tx_amount
       (filter (\<lambda>t. tx_user t = uid \<and> tx_type t = Debit \<and>
                   (tx_key t = run_id \<or> like_match (escape_like run_id @ '':%'') (tx_key t)))
         (ledger s)))"

definition validate_session :: "uuid \<Rightarrow> uuid \<Rightarrow> unit dbop" where
  "validate_session uid sid =
     op_bind (op_read (\<lambda>s. map_option ses_user (chat_sessions s sid))) (\<lambda>owner.
       case owner of
         None \<Rightarrow> raise_app SessionNotFoundError ''session not found''
       | Some u \<Rightarrow> if u \<noteq> uid then raise_app ForbiddenError ''session does not belong to user''
                   else op_return ())"

subsection \<open>Statements\<close>

text \<open>\<open>INSERT INTO wallets \<dots> ON CONFLICT DO NOTHING\<close>; the row references \<open>users\<close>.\<close>

definition ensure_wallet :: "uuid \<Rightarrow> unit dbop" where
  "ensure_wallet uid = (\<lambda>s.
     case wallets s uid of
       Some _ \<Rightarrow> (Inr (), s)
     | None \<Rightarrow>
         if users s uid = None then (Inl DbError, s)
         else (Inr (), s\<lparr>wallets := (wallets s)(uid \<mapsto> \<lparr>balance = 0, debt = 0\<rparr>)\<rparr>))"

text \<open>
  \<open>INSERT INTO ledger_transactions \<dots> ON CONFLICT (user_id, idempotency_key) DO NOTHING
  RETURNING id\<close>, with the table's \<open>CHECK (amount > 0)\<close>.
\<close>

definition insert_ledger :: "uuid \<Rightarrow> tx_type \<Rightarrow> int \<Rightarrow> dict \<Rightarrow> string \<Rightarrow> uuid option dbop" where
  "insert_ledger uid ty amount meta key = (\<lambda>s.
     if amount \<le> 0 then (Inl DbError, s)
     else (case existing_tx uid key s of
             Some _ \<Rightarrow> (Inr None, s)
           | None \<Rightarrow>
               (Inr (Some (next_id s)),
                s\<lparr>ledger := ledger s @
                    [\<lparr>tx_id = next_id s, tx_user = uid, tx_type = ty, tx_amount = amount,
                      tx_meta = meta, tx_key = key\<rparr>],
                  next_id := next_id s + 1\<rparr>)))"

text \<open>\<open>UPDATE wallets SET balance = balance - :amount WHERE \<dots> AND balance >= :amount\<close>.\<close>

definition update_debit :: "uuid \<Rightarrow> int \<Rightarrow> int option dbop" where
  "update_debit uid amount = (\<lambda>s.
     case wallets s uid of
       None \<Rightarrow> (Inr None, s)
     | Some w \<Rightarrow>
         if balance w \<ge> amount
         then (Inr (Some (balance w - amount)),
               s\<lparr>wallets := (wallets s)(uid \<mapsto> w\<lparr>balance := balance w - amount\<rparr>)\<rparr>)
         else (Inr None, s))"

text \<open>The partial debit of the agent path: \<open>balance - :partial\<close>, \<open>debt + :delta\<close>.\<close>

definition update_partial :: "uuid \<Rightarrow> int \<Rightarrow> int \<Rightarrow> int option dbop" where
  "update_partial uid part delta = (\<lambda>s.
     case wallets s uid of
       None \<Rightarrow> (Inr None, s)
     | Some w \<Rightarrow>
         if balance w \<ge> part
         then (Inr (Some (debt w + delta)),
               s\<lparr>wallets := (wallets s)(uid \<mapsto>
                   w\<lparr>balance := balance w - part, debt := debt w + delta\<rparr>)\<rparr>)
         else (Inr None, s))"

text \<open>
  The two \<open>UPDATE\<close>s of \<open>grant\<close>: with clawback (the repaid part is computed from the debt
  before the update) and without. They return balance, debt and the repaid part of the row.
\<close>

definition update_grant_clawback :: "uuid \<Rightarrow> int \<Rightarrow> (int \<times> int \<times> int) option dbop" where
  "update_grant_clawback uid amount = (\<lambda>s.
     case wallets s uid of
       None \<Rightarrow> (Inr None, s)
     | Some w \<Rightarrow>
         let repaid = min amount (debt w);
             w' = w\<lparr>debt := debt w - repaid, balance := balance w + (amount - repaid)\<rparr>
         in (Inr (Some (balance w', debt w', repaid)), s\<lparr>wallets := (wallets s)(uid \<mapsto> w')\<rparr>))"

definition update_grant_plain :: "uuid \<Rightarrow> int \<Rightarrow> int option dbop" where
  "update_grant_plain uid amount = (\<lambda>s.
     case wallets s uid of
       None \<Rightarrow> (Inr None, s)
     | Some w \<Rightarrow>
         (Inr (Some (balance w + amount)),
          s\<lparr>wallets := (wallets s)(uid \<mapsto> w\<lparr>balance := balance w + amount\<rparr>)\<rparr>))"

text \<open>
  The single statement of the incremental debit (a CTE over the locked wallet row): insert a debit
  of \<open>LEAST(amount, balance)\<close> where the balance is positive, and decrement the balance by the
  inserted amount. It returns the inserted id and amount, and the resulting balance.
\<close>

definition clamp_debit_statement ::
  "uuid \<Rightarrow> int \<Rightarrow> dict \<Rightarrow> string \<Rightarrow> (uuid option \<times> int option \<times> int option) dbop" where
  "clamp_debit_statement uid amount meta key = (\<lambda>s.
     case wallets s uid of
       None \<Rightarrow> (Inr (None, None, None), s)
     | Some w \<Rightarrow>
         if balance w \<le> 0 then (Inr (None, None, Some (balance w)), s)
         else
           let charged = min amount (balance w) in
           (case insert_ledger uid Debit charged meta key s of
              (Inl e, s') \<Rightarrow> (Inl e, s')
            | (Inr None, s') \<Rightarrow> (Inr (None, None, Some (balance w)), s')
            | (Inr (Some i), s') \<Rightarrow>
                (Inr (Some i, Some charged, Some (balance w - charged)),
                 s'\<lparr>wallets := (wallets s')(uid \<mapsto> w\<lparr>balance := balance w - charged\<rparr>)\<rparr>)))"

subsection \<open>Debits\<close>

definition debit_in_savepoint ::
  "uuid \<Rightarrow> int \<Rightarrow> string \<Rightarrow> dict \<Rightarrow> (uuid option \<times> int option) dbop" where
  "debit_in_savepoint uid amount key meta =
     begin_nested
       (op_bind (insert_ledger uid Debit amount meta key) (\<lambda>inserted.
          case inserted of
            None \<Rightarrow> op_return (None, None)
          | Some i \<Rightarrow>
              op_bind (update_debit uid amount) (\<lambda>updated.
                case updated of
                  None \<Rightarrow> raise_app InsufficientCreditsError ''insufficient_credits''
                | Some b \<Rightarrow> op_return (Some i, Some b))))"

definition agent_reconcile_applies :: "settings \<Rightarrow> dict \<Rightarrow> bool" where
  "agent_reconcile_applies cfg meta =
     (if dict_get meta ''source'' \<noteq> JStr AGENT_RUN_SOURCE then False
      else agent_debt_reconcile_enabled cfg)"

text \<open>The result of a debit that finds its key already in the ledger.\<close>

definition replay_result :: "uuid \<Rightarrow> ledger_tx \<Rightarrow> db \<Rightarrow> consume_result" where
  "replay_result uid t s =
     \<lparr>cr_new_balance = current_balance uid s, cr_ledger_tx_id = tx_id t,
      cr_idempotent_replay = True, cr_charged_amount = 0\<rparr>"

text \<open>
  The savepoint of \<open>_consume_agent_with_debt\<close>. Its argument \<open>bal\<close> is the balance read
  before the savepoint, which another transaction may have changed since; \<open>Inl\<close> is the replay
  found inside, \<open>Inr\<close> the inserted id and the new debt.
\<close>

definition agent_debt_savepoint ::
  "uuid \<Rightarrow> int \<Rightarrow> string \<Rightarrow> dict \<Rightarrow> int \<Rightarrow> (consume_result + uuid \<times> int) dbop" where
  "agent_debt_savepoint uid amount key meta bal =
     begin_nested
       (op_bind (insert_ledger uid Debit bal meta key) (\<lambda>inserted.
          case inserted of
            None \<Rightarrow>
              op_bind (op_read (existing_tx uid key)) (\<lambda>existing.
                case existing of
                  None \<Rightarrow> raise_app ConflictError ''idempotency conflict''
                | Some t \<Rightarrow> op_read (\<lambda>s. Inl (replay_result uid t s)))
          | Some i \<Rightarrow>
              op_bind (update_partial uid bal (amount - bal)) (\<lambda>updated.
                case updated of
                  None \<Rightarrow> op_raise RetryNormalPath
                | Some d \<Rightarrow> op_return (Inr (i, d)))))"

text \<open>The part of \<open>_consume_agent_with_debt\<close> after the balance has been read.\<close>

definition agent_debt_write ::
  "uuid \<Rightarrow> int \<Rightarrow> string \<Rightarrow> dict \<Rightarrow> int \<Rightarrow> consume_result option dbop" where
  "agent_debt_write uid amount key meta bal =
     (if amount \<le> bal then op_return None
      else if bal \<le> 0 then op_return None
      else
        op_bind
          (op_catch
             (op_bind (agent_debt_savepoint uid amount key meta bal) (\<lambda>r. op_return (Some r)))
             (\<lambda>e. if e = RetryNormalPath then op_return None else op_raise e)) (\<lambda>r.
        case r of
          None \<Rightarrow> op_return None
        | Some (Inl replay) \<Rightarrow> op_return (Some replay)
        | Some (Inr (i, new_debt)) \<Rightarrow>
            op_bind (audit_record
              \<lparr>ev_user = uid, ev_type = EVENT_BILLING_DEBIT_INSUFFICIENT,
               ev_payload =
                 [(''runId'', dict_get meta ''runId''), (''usage'', dict_get meta ''usage''),
                  (''model'', dict_get meta ''model''), (''requiredAmount'', JInt amount),
                  (''partialDebited'', JInt bal), (''debtAdded'', JInt (amount - bal)),
                  (''debt'', JInt new_debt)],
               ev_session = None\<rparr>) (\<lambda>_.
            op_return (Some \<lparr>cr_new_balance = 0, cr_ledger_tx_id = i,
                             cr_idempotent_replay = False, cr_charged_amount = bal\<rparr>))))"

definition consume_agent_with_debt ::
  "uuid \<Rightarrow> int \<Rightarrow> string \<Rightarrow> dict \<Rightarrow> consume_result option dbop" where
  "consume_agent_with_debt uid amount key meta =
     op_bind (op_read (existing_tx uid key)) (\<lambda>existing.
       case existing of
         Some t \<Rightarrow> op_read (\<lambda>s. Some (replay_result uid t s))
       | None \<Rightarrow>
           op_bind (op_read (current_balance uid)) (\<lambda>bal.
             agent_debt_write uid amount key meta bal))"

definition consume_incremental_clamp ::
  "uuid \<Rightarrow> int \<Rightarrow> string \<Rightarrow> dict \<Rightarrow> consume_result dbop" where
  "consume_incremental_clamp uid amount key meta =
     op_bind (op_read (existing_tx uid key)) (\<lambda>existing.
       case existing of
         Some t \<Rightarrow> op_read (replay_result uid t)
       | None \<Rightarrow>
           op_bind (clamp_debit_statement uid amount meta key) (\<lambda>(txid, charged, nb).
             let new_balance = (case nb of Some b \<Rightarrow> b | None \<Rightarrow> 0) in
             case txid of
               None \<Rightarrow>
                 op_read (\<lambda>s. case existing_tx uid key s of
                   Some t \<Rightarrow> \<lparr>cr_new_balance = new_balance, cr_ledger_tx_id = tx_id t,
                               cr_idempotent_replay = True, cr_charged_amount = 0\<rparr>
                 | None \<Rightarrow> \<lparr>cr_new_balance = new_balance, cr_ledger_tx_id = NIL_TX_ID,
                             cr_idempotent_replay = False, cr_charged_amount = 0\<rparr>)
             | Some i \<Rightarrow>
                 let c = (case charged of Some c \<Rightarrow> c | None \<Rightarrow> 0) in
                 op_bind (audit_record
                   \<lparr>ev_user = uid, ev_type = EVENT_BILLING_DEBIT,
                    ev_payload =
                      [(''ledgerTxId'', JStr (uuid_str i)), (''amount'', JInt c),
                       (''newBalance'', JInt new_balance), (''runId'', dict_get meta ''runId''),
                       (''stepIndex'', dict_get meta ''stepIndex''),
                       (''model'', dict_get meta ''model'')],
                    ev_session = None\<rparr>) (\<lambda>_.
                 op_return \<lparr>cr_new_balance = new_balance, cr_ledger_tx_id = i,
                            cr_idempotent_replay = False, cr_charged_amount = c\<rparr>)))"

text \<open>The full-debit path of \<open>consume\<close>, after the savepoint.\<close>

definition consume_plain ::
  "uuid \<Rightarrow> int \<Rightarrow> string \<Rightarrow> dict \<Rightarrow> uuid option \<Rightarrow> consume_result dbop" where
  "consume_plain uid amount key meta session_id =
     op_bind (debit_in_savepoint uid amount key meta) (\<lambda>(inserted, nb).
       case inserted of
         None \<Rightarrow>
           op_bind (op_read (existing_tx uid key)) (\<lambda>existing.
             case existing of
               None \<Rightarrow> raise_app ConflictError ''idempotency conflict''
             | Some t \<Rightarrow>
                 if tx_type t \<noteq> Debit \<or> tx_amount t \<noteq> amount
                 then raise_app ConflictError ''idempotency key reused with different payload''
                 else op_read (replay_result uid t))
       | Some i \<Rightarrow>
           let new_balance = (case nb of Some b \<Rightarrow> b | None \<Rightarrow> 0) in
           op_bind (audit_record
             \<lparr>ev_user = uid, ev_type = EVENT_BILLING_DEBIT,
              ev_payload =
                [(''ledgerTxId'', JStr (uuid_str i)), (''amount'', JInt amount),
                 (''newBalance'', JInt new_balance),
                 (''sessionId'', opt_str (map_option uuid_str session_id)),
                 (''model'', dict_get meta ''model'')],
              ev_session = session_id\<rparr>) (\<lambda>_.
           op_return \<lparr>cr_new_balance = new_balance, cr_ledger_tx_id = i,
                      cr_idempotent_replay = False, cr_charged_amount = amount\<rparr>))"

definition consume ::
  "settings \<Rightarrow> uuid \<Rightarrow> int \<Rightarrow> string \<Rightarrow> dict \<Rightarrow> uuid option \<Rightarrow> consume_result dbop" where
  "consume cfg uid amount key meta session_id =
     (if amount \<le> 0 then raise_app ConflictError ''amount must be positive''
      else
        op_bind (case session_id of Some sid \<Rightarrow> validate_session uid sid | None \<Rightarrow> op_return ()) (\<lambda>_.
        op_bind (ensure_wallet uid) (\<lambda>_.
          if truthy (dict_get meta ''incremental'')
          then consume_incremental_clamp uid amount key meta
          else if agent_reconcile_applies cfg meta
          then op_bind (consume_agent_with_debt uid amount key meta) (\<lambda>reconciled.
                 case reconciled of
                   Some r \<Rightarrow> op_return r
                 | None \<Rightarrow> consume_plain uid amount key meta session_id)
          else consume_plain uid amount key meta session_id)))"

subsection \<open>Credits\<close>

definition grant ::
  "settings \<Rightarrow> uuid \<Rightarrow> int \<Rightarrow> string \<Rightarrow> dict \<Rightarrow> string \<Rightarrow> grant_result dbop" where
  "grant cfg uid amount key meta reason =
     (if amount \<le> 0 then raise_app ConflictError ''amount must be positive''
      else
        op_bind (ensure_wallet uid) (\<lambda>_.
        op_bind (insert_ledger uid Credit amount meta key) (\<lambda>inserted.
          case inserted of
            None \<Rightarrow>
              op_bind (op_read (existing_tx uid key)) (\<lambda>existing.
                case existing of
                  None \<Rightarrow> raise_app ConflictError ''idempotency conflict''
                | Some t \<Rightarrow>
                    if tx_type t \<noteq> Credit \<or> tx_amount t \<noteq> amount
                    then raise_app ConflictError ''idempotency key reused with different payload''
                    else op_read (\<lambda>s. \<lparr>gr_new_balance = current_balance uid s,
                                       gr_ledger_tx_id = tx_id t, gr_idempotent_replay = True\<rparr>))
          | Some i \<Rightarrow>
              op_bind
                (if agent_debt_reconcile_enabled cfg
                 then op_bind (update_grant_clawback uid amount) (\<lambda>row.
                        op_return (case row of None \<Rightarrow> (amount, 0, 0)
                                   | Some (b, d, r) \<Rightarrow> (b, r, d)))
                 else op_bind (update_grant_plain uid amount) (\<lambda>row.
                        op_return (case row of None \<Rightarrow> (amount, 0, 0) | Some b \<Rightarrow> (b, 0, 0))))
                (\<lambda>(new_balance, repaid, debt_remaining).
              op_bind (audit_record
                \<lparr>ev_user = uid, ev_type = EVENT_BILLING_CREDIT,
                 ev_payload = [(''ledgerTxId'', JStr (uuid_str i)), (''amount'', JInt amount),
                               (''newBalance'', JInt new_balance), (''reason'', JStr reason)],
                 ev_session = None\<rparr>) (\<lambda>_.
              op_bind
                (if repaid > 0
                 then audit_record
                   \<lparr>ev_user = uid, ev_type = EVENT_BILLING_DEBT_REPAID,
                    ev_payload =
                      [(''userId'', JStr (uuid_str uid)), (''repaid'', JInt repaid),
                       (''debtRemaining'', JInt debt_remaining),
                       (''grantLedgerTxId'', JStr (uuid_str i))],
                    ev_session = None\<rparr>
                 else op_return ()) (\<lambda>_.
              op_return \<lparr>gr_new_balance = new_balance, gr_ledger_tx_id = i,
                         gr_idempotent_replay = False\<rparr>))))))"

subsection \<open>View\<close>

definition get_wallet_view :: "uuid \<Rightarrow> nat \<Rightarrow> (int \<times> int \<times> ledger_tx list) dbop" where
  "get_wallet_view uid last_n =
     op_bind (ensure_wallet uid) (\<lambda>_.
       op_read (\<lambda>s. (current_balance uid s, current_debt uid s,
                     take last_n (rev (filter (\<lambda>t. tx_user t = uid) (ledger s))))))"

subsection \<open>The books of a user\<close>

definition credits_of :: "uuid \<Rightarrow> db \<Rightarrow> int" where
  "credits_of u s =
     sum_list (map tx_amount (filter (\<lambda>t. tx_user t = u \<and> tx_type t = Credit) (ledger s)))"

definition debits_of :: "uuid \<Rightarrow> db \<Rightarrow> int" where
  "debits_of u s =
     sum_list (map tx_amount (filter (\<lambda>t. tx_user t = u \<and> tx_type t = Debit) (ledger s)))"

text \<open>What the audit log says was repaid out of grants, and was turned into debt.\<close>

definition repaid_of :: "uuid \<Rightarrow> db \<Rightarrow> int" where
  "repaid_of u s =
     sum_list (map (\<lambda>r. json_int (dict_get (audit_payload r) ''repaid''))
       (filter (\<lambda>r. audit_user r = u \<and> audit_type r = EVENT_BILLING_DEBT_REPAID) (audit_logs s)))"

definition debt_added_of :: "uuid \<Rightarrow> db \<Rightarrow> int" where
  "debt_added_of u s =
     sum_list (map (\<lambda>r. json_int (dict_get (audit_payload r) ''debtAdded''))
       (filter (\<lambda>r. audit_user r = u \<and> audit_type r = EVENT_BILLING_DEBIT_INSUFFICIENT)
         (audit_logs s)))"

text \<open>Structure of the ledger: the constraints of the table and freshness of identifiers.\<close>

definition ledger_wf :: "db \<Rightarrow> bool" where
  "ledger_wf s \<longleftrightarrow>
     (\<forall>t \<in> set (ledger s). 0 < tx_amount t \<and> 0 < tx_id t \<and> tx_id t < next_id s) \<and>
     distinct (map (\<lambda>t. (tx_user t, tx_key t)) (ledger s)) \<and>
     distinct (map tx_id (ledger s)) \<and> 0 < next_id s"

text \<open>
  The books balance: what is left of the credits after the debits is the balance plus what was
  repaid, and the debt is what was added minus what was repaid.
\<close>

definition books_ok :: "uuid \<Rightarrow> db \<Rightarrow> bool" where
  "books_ok u s \<longleftrightarrow>
     0 \<le> current_balance u s \<and> 0 \<le> current_debt u s \<and>
     current_balance u s + repaid_of u s = credits_of u s - debits_of u s \<and>
     current_debt u s = debt_added_of u s - repaid_of u s"

definition wallet_inv :: "db \<Rightarrow> bool" where
  "wallet_inv s \<longleftrightarrow> ledger_wf s \<and> (\<forall>u. books_ok u s)"

lemmas books_defs = credits_of_def debits_of_def repaid_of_def debt_added_of_def
  current_balance_def current_debt_def

subsection \<open>Reads of the ledger\<close>

lemma existing_tx_None_iff:
  "existing_tx u k s = None \<longleftrightarrow> (\<forall>t \<in> set (ledger s). \<not> (tx_user t = u \<and> tx_key t = k))"
  by (auto simp: existing_tx_def find_None_iff)

lemma existing_tx_SomeD:
  "existing_tx u k s = Some t \<Longrightarrow> t \<in> set (ledger s) \<and> tx_user t = u \<and> tx_key t = k"
  by (auto simp: existing_tx_def dest: find_SomeD)

lemma existing_tx_unique:
  assumes "ledger_wf s" and "t \<in> set (ledger s)" and "tx_user t = u" and "tx_key t = k"
  shows "existing_tx u k s = Some t"
proof -
  from assms obtain t' where t': "existing_tx u k s = Some t'"
    by (cases "existing_tx u k s") (auto simp: existing_tx_None_iff)
  then have "t' \<in> set (ledger s)" and "(tx_user t', tx_key t') = (tx_user t, tx_key t)"
    using assms(3,4) by (auto dest: existing_tx_SomeD)
  with assms(1,2) have "t' = t"
    by (auto simp: ledger_wf_def distinct_map dest: inj_onD)
  with t' show ?thesis by simp
qed

lemma existing_tx_append:
  "existing_tx u k (s\<lparr>ledger := ledger s @ [t]\<rparr>) =
     (case existing_tx u k s of
        Some x \<Rightarrow> Some x
      | None \<Rightarrow> if tx_user t = u \<and> tx_key t = k then Some t else None)"
  by (simp add: existing_tx_def find_append split: option.splits)

lemma existing_tx_frame [simp]:
  "existing_tx u k (s\<lparr>wallets := w\<rparr>) = existing_tx u k s"
  "existing_tx u k (s\<lparr>audit_logs := a\<rparr>) = existing_tx u k s"
  "existing_tx u k (s\<lparr>next_id := n\<rparr>) = existing_tx u k s"
  by (simp_all add: existing_tx_def)

subsection \<open>The effects of a debit and of a credit\<close>

text \<open>
  \<open>post_debit\<close>: \<open>c\<close> credits taken, \<open>d\<close> turned into debt, one ledger row, one audit
  row. \<open>post_credit\<close>: \<open>a\<close> credits granted, \<open>r\<close> of them repaying debt.
\<close>

definition post_debit ::
  "uuid \<Rightarrow> wallet \<Rightarrow> int \<Rightarrow> int \<Rightarrow> string \<Rightarrow> dict \<Rightarrow> audit_row \<Rightarrow> db \<Rightarrow> db" where
  "post_debit uid w c d key meta row s =
     s\<lparr>wallets := (wallets s)(uid \<mapsto> w\<lparr>balance := balance w - c, debt := debt w + d\<rparr>),
       ledger := ledger s @ [\<lparr>tx_id = next_id s, tx_user = uid, tx_type = Debit, tx_amount = c,
                              tx_meta = meta, tx_key = key\<rparr>],
       audit_logs := audit_logs s @ [row], next_id := next_id s + 1\<rparr>"

definition post_credit ::
  "uuid \<Rightarrow> wallet \<Rightarrow> int \<Rightarrow> int \<Rightarrow> string \<Rightarrow> dict \<Rightarrow> audit_row list \<Rightarrow> db \<Rightarrow> db" where
  "post_credit uid w a r key meta rows s =
     s\<lparr>wallets := (wallets s)(uid \<mapsto> w\<lparr>debt := debt w - r, balance := balance w + (a - r)\<rparr>),
       ledger := ledger s @ [\<lparr>tx_id = next_id s, tx_user = uid, tx_type = Credit, tx_amount = a,
                              tx_meta = meta, tx_key = key\<rparr>],
       audit_logs := audit_logs s @ rows, next_id := next_id s + 1\<rparr>"

lemma wallet_inv_wf: "wallet_inv s \<Longrightarrow> ledger_wf s"
  by (simp add: wallet_inv_def)

lemma ledger_wf_append:
  assumes "ledger_wf s" and "existing_tx u k s = None" and "0 < a"
    and "ledger t = ledger s @ [\<lparr>tx_id = next_id s, tx_user = u, tx_type = ty, tx_amount = a,
                                 tx_meta = m, tx_key = k\<rparr>]"
    and "next_id t = next_id s + 1"
  shows "ledger_wf t"
  using assms by (auto simp: ledger_wf_def existing_tx_None_iff less_Suc_eq)

lemma post_debit_inv:
  assumes inv: "wallet_inv s" and w: "wallets s uid = Some w"
    and fresh: "existing_tx uid key s = None"
    and c: "0 < c" "c \<le> balance w" and d: "0 \<le> d"
    and row: "audit_user row = uid" "audit_type row \<noteq> EVENT_BILLING_DEBT_REPAID"
      "(if audit_type row = EVENT_BILLING_DEBIT_INSUFFICIENT
        then json_int (dict_get (audit_payload row) ''debtAdded'') else 0) = d"
  shows "wallet_inv (post_debit uid w c d key meta row s)"
  unfolding wallet_inv_def
proof (intro conjI allI)
  show "ledger_wf (post_debit uid w c d key meta row s)"
    by (rule ledger_wf_append [OF wallet_inv_wf [OF inv] fresh c(1)]) (simp_all add: post_debit_def)
  fix u
  have "books_ok u s" using inv by (simp add: wallet_inv_def)
  then show "books_ok u (post_debit uid w c d key meta row s)"
    using w c d row by (auto simp: books_ok_def books_defs post_debit_def split: if_splits)
qed

lemma post_credit_inv:
  assumes inv: "wallet_inv s" and w: "wallets s uid = Some w"
    and fresh: "existing_tx uid key s = None"
    and a: "0 < a" "0 \<le> r" "r \<le> a" "r \<le> debt w"
    and rows: "\<forall>row \<in> set rows. audit_user row = uid \<and>
        audit_type row \<noteq> EVENT_BILLING_DEBIT_INSUFFICIENT"
      "sum_list (map (\<lambda>x. json_int (dict_get (audit_payload x) ''repaid''))
         (filter (\<lambda>x. audit_type x = EVENT_BILLING_DEBT_REPAID) rows)) = r"
  shows "wallet_inv (post_credit uid w a r key meta rows s)"
  unfolding wallet_inv_def
proof (intro conjI allI)
  show "ledger_wf (post_credit uid w a r key meta rows s)"
    by (rule ledger_wf_append [OF wallet_inv_wf [OF inv] fresh a(1)]) (simp_all add: post_credit_def)
  fix u
  have [simp]: "filter (\<lambda>x. audit_user x = u \<and> audit_type x = EVENT_BILLING_DEBT_REPAID) rows =
      (if u = uid then filter (\<lambda>x. audit_type x = EVENT_BILLING_DEBT_REPAID) rows else [])"
    using rows(1) by (auto intro: filter_cong simp: filter_empty_conv)
  have [simp]: "filter (\<lambda>x. audit_user x = u \<and>
      audit_type x = EVENT_BILLING_DEBIT_INSUFFICIENT) rows = []"
    using rows(1) by (auto simp: filter_empty_conv)
  have "books_ok u s" using inv by (simp add: wallet_inv_def)
  then show "books_ok u (post_credit uid w a r key meta rows s)"
    using w a rows(2) by (auto simp: books_ok_def books_defs post_credit_def)
qed

end
