(* ===== verification/WalletFacts.thy ===== *)
theory WalletFacts
  imports Wallet
begin

text \<open>
  What each method of the wallet does, path by path: the outcome and the state it leaves, as
  equations over \<open>post_debit\<close> and \<open>post_credit\<close>; and the preservation of the books.
\<close>

subsection \<open>Provisioning\<close>

definition ensured :: "uuid \<Rightarrow> db \<Rightarrow> db" where
  "ensured uid s =
     (case wallets s uid of
        Some _ \<Rightarrow> s
      | None \<Rightarrow> s\<lparr>wallets := (wallets s)(uid \<mapsto> \<lparr>balance = 0, debt = 0\<rparr>)\<rparr>)"

lemma ensure_wallet_eval:
  "ensure_wallet uid s =
     (if wallets s uid = None \<and> users s uid = None then (Inl DbError, s)
      else (Inr (), ensured uid s))"
  by (auto simp: ensure_wallet_def ensured_def split: option.splits)

lemma ensured_frame [simp]:
  "ledger (ensured uid s) = ledger s" "audit_logs (ensured uid s) = audit_logs s"
  "next_id (ensured uid s) = next_id s" "request_id (ensured uid s) = request_id s"
  "users (ensured uid s) = users s" "chat_sessions (ensured uid s) = chat_sessions s"
  "subscriptions (ensured uid s) = subscriptions s" "grant_events (ensured uid s) = grant_events s"
  "adapty_events (ensured uid s) = adapty_events s" "cp_events (ensured uid s) = cp_events s"
  "existing_tx u k (ensured uid s) = existing_tx u k s"
  by (simp_all add: ensured_def existing_tx_def split: option.splits)

lemma ensured_reads [simp]:
  "current_balance u (ensured uid s) = current_balance u s"
  "current_debt u (ensured uid s) = current_debt u s"
  "credits_of u (ensured uid s) = credits_of u s" "debits_of u (ensured uid s) = debits_of u s"
  "repaid_of u (ensured uid s) = repaid_of u s"
  "debt_added_of u (ensured uid s) = debt_added_of u s"
  by (auto simp: books_defs ensured_def split: option.splits)

lemma ensured_inv [simp]: "wallet_inv (ensured uid s) = wallet_inv s"
  by (simp add: wallet_inv_def ledger_wf_def books_ok_def)

lemma ensured_wallet: "\<exists>w. wallets (ensured uid s) uid = Some w"
  by (auto simp: ensured_def split: option.splits)

lemma ensured_idem: "wallets s uid = Some w \<Longrightarrow> ensured uid s = s"
  by (simp add: ensured_def)

lemma current_of_wallet:
  "wallets s uid = Some w \<Longrightarrow> current_balance uid s = balance w"
  "wallets s uid = Some w \<Longrightarrow> current_debt uid s = debt w"
  by (simp_all add: current_balance_def current_debt_def)

subsection \<open>Full debit\<close>

lemma begin_nested_ok: "m s = (Inr x, t) \<Longrightarrow> begin_nested m s = (Inr x, t)"
  by (simp add: begin_nested_def)

lemma begin_nested_err: "m s = (Inl e, t) \<Longrightarrow> begin_nested m s = (Inl e, s)"
  by (simp add: begin_nested_def)

definition debit_row ::
  "uuid \<Rightarrow> int \<Rightarrow> int \<Rightarrow> dict \<Rightarrow> uuid option \<Rightarrow> db \<Rightarrow> audit_row" where
  "debit_row uid amount nb meta session_id s =
     audit_row_of (request_id s)
       \<lparr>ev_user = uid, ev_type = EVENT_BILLING_DEBIT,
        ev_payload =
          [(''ledgerTxId'', JStr (uuid_str (next_id s))), (''amount'', JInt amount),
           (''newBalance'', JInt nb), (''sessionId'', opt_str (map_option uuid_str session_id)),
           (''model'', dict_get meta ''model'')],
        ev_session = session_id\<rparr>"

lemma consume_plain_fresh:
  assumes "0 < amount" "existing_tx uid key s = None" "wallets s uid = Some w" "amount \<le> balance w"
  shows "consume_plain uid amount key meta sid s =
    (Inr \<lparr>cr_new_balance = balance w - amount, cr_ledger_tx_id = next_id s,
          cr_idempotent_replay = False, cr_charged_amount = amount\<rparr>,
     post_debit uid w amount 0 key meta (debit_row uid amount (balance w - amount) meta sid s) s)"
  using assms
  by (simp add: consume_plain_def debit_in_savepoint_def op_bind_def begin_nested_def
      insert_ledger_def update_debit_def post_debit_def debit_row_def Let_def)

lemma consume_plain_insufficient:
  assumes "0 < amount" "existing_tx uid key s = None" "wallets s uid = Some w" "balance w < amount"
  shows "consume_plain uid amount key meta sid s =
    (Inl (App (error InsufficientCreditsError ''insufficient_credits'')), s)"
  using assms
  by (simp add: consume_plain_def debit_in_savepoint_def op_bind_def begin_nested_def
      insert_ledger_def update_debit_def)

lemma consume_plain_replay:
  assumes "0 < amount" "existing_tx uid key s = Some t"
  shows "consume_plain uid amount key meta sid s =
    (if tx_type t \<noteq> Debit \<or> tx_amount t \<noteq> amount
     then Inl (App (error ConflictError ''idempotency key reused with different payload''))
     else Inr (replay_result uid t s), s)"
  using assms
  by (simp add: consume_plain_def debit_in_savepoint_def op_bind_def begin_nested_def
      insert_ledger_def)

lemmas consume_plain_cases = consume_plain_fresh consume_plain_insufficient consume_plain_replay

subsection \<open>Partial debit of the agent path\<close>

definition shortfall_row :: "uuid \<Rightarrow> int \<Rightarrow> int \<Rightarrow> int \<Rightarrow> dict \<Rightarrow> db \<Rightarrow> audit_row" where
  "shortfall_row uid amount bal nd meta s =
     audit_row_of (request_id s)
       \<lparr>ev_user = uid, ev_type = EVENT_BILLING_DEBIT_INSUFFICIENT,
        ev_payload =
          [(''runId'', dict_get meta ''runId''), (''usage'', dict_get meta ''usage''),
           (''model'', dict_get meta ''model''), (''requiredAmount'', JInt amount),
           (''partialDebited'', JInt bal), (''debtAdded'', JInt (amount - bal)),
           (''debt'', JInt nd)],
        ev_session = None\<rparr>"

lemma agent_debt_write_defer:
  "amount \<le> bal \<or> bal \<le> 0 \<Longrightarrow> agent_debt_write uid amount key meta bal s = (Inr None, s)"
  by (auto simp: agent_debt_write_def)

lemma agent_debt_write_shortfall:
  assumes "0 < bal" "bal < amount" "existing_tx uid key s = None" "wallets s uid = Some w"
    "bal \<le> balance w"
  shows "agent_debt_write uid amount key meta bal s =
    (Inr (Some \<lparr>cr_new_balance = 0, cr_ledger_tx_id = next_id s, cr_idempotent_replay = False,
                cr_charged_amount = bal\<rparr>),
     post_debit uid w bal (amount - bal) key meta
       (shortfall_row uid amount bal (debt w + (amount - bal)) meta s) s)"
  using assms
  by (simp add: agent_debt_write_def agent_debt_savepoint_def op_bind_def op_catch_def
      begin_nested_def insert_ledger_def update_partial_def post_debit_def shortfall_row_def)

lemma agent_debt_write_raced:
  assumes "0 < bal" "bal < amount" "existing_tx uid key s = None" "wallets s uid = Some w"
    "balance w < bal"
  shows "agent_debt_write uid amount key meta bal s = (Inr None, s)"
  using assms
  by (simp add: agent_debt_write_def agent_debt_savepoint_def op_bind_def op_catch_def
      begin_nested_def insert_ledger_def update_partial_def)

lemma agent_debt_write_replay:
  assumes "0 < bal" "bal < amount" "existing_tx uid key s = Some t"
  shows "agent_debt_write uid amount key meta bal s = (Inr (Some (replay_result uid t s)), s)"
  using assms
  by (simp add: agent_debt_write_def agent_debt_savepoint_def op_bind_def op_catch_def
      begin_nested_def insert_ledger_def)

lemma agent_debt_write_nowallet:
  assumes "existing_tx uid key s = None" "wallets s uid = None"
  shows "agent_debt_write uid amount key meta bal s = (Inr None, s)"
  using assms
  by (auto simp: agent_debt_write_def agent_debt_savepoint_def op_bind_def op_catch_def
      begin_nested_def insert_ledger_def update_partial_def)

lemma consume_agent_with_debt_eval:
  "consume_agent_with_debt uid amount key meta s =
     (case existing_tx uid key s of
        Some t \<Rightarrow> (Inr (Some (replay_result uid t s)), s)
      | None \<Rightarrow> agent_debt_write uid amount key meta (current_balance uid s) s)"
  by (simp add: consume_agent_with_debt_def op_bind_read split: option.splits)

subsection \<open>Incremental debit\<close>

definition step_row :: "uuid \<Rightarrow> int \<Rightarrow> int \<Rightarrow> dict \<Rightarrow> db \<Rightarrow> audit_row" where
  "step_row uid c nb meta s =
     audit_row_of (request_id s)
       \<lparr>ev_user = uid, ev_type = EVENT_BILLING_DEBIT,
        ev_payload =
          [(''ledgerTxId'', JStr (uuid_str (next_id s))), (''amount'', JInt c),
           (''newBalance'', JInt nb), (''runId'', dict_get meta ''runId''),
           (''stepIndex'', dict_get meta ''stepIndex''), (''model'', dict_get meta ''model'')],
        ev_session = None\<rparr>"

lemma consume_incremental_replay:
  "existing_tx uid key s = Some t \<Longrightarrow>
   consume_incremental_clamp uid amount key meta s = (Inr (replay_result uid t s), s)"
  by (simp add: consume_incremental_clamp_def op_bind_read)

lemma consume_incremental_empty:
  assumes "existing_tx uid key s = None" "wallets s uid = Some w" "balance w \<le> 0"
  shows "consume_incremental_clamp uid amount key meta s =
    (Inr \<lparr>cr_new_balance = balance w, cr_ledger_tx_id = NIL_TX_ID, cr_idempotent_replay = False,
          cr_charged_amount = 0\<rparr>, s)"
  using assms by (simp add: consume_incremental_clamp_def clamp_debit_statement_def op_bind_def Let_def)

lemma consume_incremental_fresh:
  assumes "0 < amount" "existing_tx uid key s = None" "wallets s uid = Some w" "0 < balance w"
  defines "c \<equiv> min amount (balance w)"
  shows "consume_incremental_clamp uid amount key meta s =
    (Inr \<lparr>cr_new_balance = balance w - c, cr_ledger_tx_id = next_id s,
          cr_idempotent_replay = False, cr_charged_amount = c\<rparr>,
     post_debit uid w c 0 key meta (step_row uid c (balance w - c) meta s) s)"
proof -
  have "0 < c" using assms by (simp add: c_def)
  with assms(1-4) show ?thesis
    unfolding c_def [symmetric]
    by (simp add: consume_incremental_clamp_def clamp_debit_statement_def op_bind_def Let_def
        insert_ledger_def post_debit_def step_row_def c_def [symmetric])
qed

subsection \<open>One description of every debit\<close>

text \<open>
  \<open>debit_effect\<close>: either nothing is taken and the state is unchanged, or exactly one debit of
  \<open>c\<close> credits is booked, \<open>d\<close> becomes debt, and the result reports just that.
\<close>

definition debit_effect ::
  "uuid \<Rightarrow> string \<Rightarrow> dict \<Rightarrow> db \<Rightarrow> (exn + consume_result) \<Rightarrow> db \<Rightarrow> bool" where
  "debit_effect uid key meta s out t \<longleftrightarrow>
     (t = s \<and> (\<forall>r. out = Inr r \<longrightarrow> cr_charged_amount r = 0 \<and>
                 cr_new_balance r = current_balance uid s)) \<or>
     (\<exists>w c d row r. out = Inr r \<and> wallets s uid = Some w \<and> existing_tx uid key s = None \<and>
        0 < c \<and> c \<le> balance w \<and> 0 \<le> d \<and> audit_user row = uid \<and>
        audit_type row \<noteq> EVENT_BILLING_DEBT_REPAID \<and>
        (if audit_type row = EVENT_BILLING_DEBIT_INSUFFICIENT
         then json_int (dict_get (audit_payload row) ''debtAdded'') else 0) = d \<and>
        t = post_debit uid w c d key meta row s \<and>
        r = \<lparr>cr_new_balance = balance w - c, cr_ledger_tx_id = next_id s,
             cr_idempotent_replay = False, cr_charged_amount = c\<rparr>)"

lemma debit_effect_raise [simp]: "debit_effect uid key meta s (Inl e) s"
  by (simp add: debit_effect_def)

lemma debit_effect_nothing:
  "cr_charged_amount r = 0 \<Longrightarrow> cr_new_balance r = current_balance uid s \<Longrightarrow>
   debit_effect uid key meta s (Inr r) s"
  by (simp add: debit_effect_def)

lemma debit_row_sel [simp]:
  "audit_user (debit_row uid a nb meta sid s) = uid"
  "audit_type (debit_row uid a nb meta sid s) = EVENT_BILLING_DEBIT"
  "audit_user (step_row uid a nb meta s) = uid"
  "audit_type (step_row uid a nb meta s) = EVENT_BILLING_DEBIT"
  "audit_user (shortfall_row uid a bal nd meta s) = uid"
  "audit_type (shortfall_row uid a bal nd meta s) = EVENT_BILLING_DEBIT_INSUFFICIENT"
  by (simp_all add: debit_row_def step_row_def shortfall_row_def audit_row_of_def)

lemma event_types_distinct [simp]:
  "EVENT_BILLING_DEBIT \<noteq> EVENT_BILLING_DEBT_REPAID"
  "EVENT_BILLING_DEBIT \<noteq> EVENT_BILLING_DEBIT_INSUFFICIENT"
  "EVENT_BILLING_DEBIT_INSUFFICIENT \<noteq> EVENT_BILLING_DEBT_REPAID"
  "EVENT_BILLING_CREDIT \<noteq> EVENT_BILLING_DEBT_REPAID"
  "EVENT_BILLING_CREDIT \<noteq> EVENT_BILLING_DEBIT_INSUFFICIENT"
  "EVENT_BILLING_DEBT_REPAID \<noteq> EVENT_BILLING_DEBIT_INSUFFICIENT"
  by (simp_all add: event_defs)

lemma shortfall_row_debt:
  "json_int (dict_get (audit_payload (shortfall_row uid a bal nd meta s)) ''debtAdded'') = a - bal"
  unfolding shortfall_row_def by (rule audit_payload_int) (simp_all add: key_facts)

lemma replay_result_sel [simp]:
  "cr_charged_amount (replay_result uid t s) = 0" "cr_idempotent_replay (replay_result uid t s)"
  "cr_new_balance (replay_result uid t s) = current_balance uid s"
  "cr_ledger_tx_id (replay_result uid t s) = tx_id t"
  by (simp_all add: replay_result_def)

lemma post_debit_effect:
  assumes "existing_tx uid key s = None" "wallets s uid = Some w" "0 < c" "c \<le> balance w"
    "0 \<le> d" "audit_user row = uid" "audit_type row \<noteq> EVENT_BILLING_DEBT_REPAID"
    "(if audit_type row = EVENT_BILLING_DEBIT_INSUFFICIENT
      then json_int (dict_get (audit_payload row) ''debtAdded'') else 0) = d"
  shows "debit_effect uid key meta s
    (Inr \<lparr>cr_new_balance = balance w - c, cr_ledger_tx_id = next_id s,
          cr_idempotent_replay = False, cr_charged_amount = c\<rparr>)
    (post_debit uid w c d key meta row s)"
  unfolding debit_effect_def using assms by blast

lemma consume_plain_effect:
  assumes "0 < amount" and w: "wallets s uid = Some w"
  shows "debit_effect uid key meta s (fst (consume_plain uid amount key meta sid s))
           (snd (consume_plain uid amount key meta sid s))"
proof (cases "existing_tx uid key s")
  case None
  show ?thesis
  proof (cases "amount \<le> balance w")
    case True
    with assms None show ?thesis by (simp add: consume_plain_fresh post_debit_effect)
  next
    case False
    with assms None show ?thesis by (simp add: consume_plain_insufficient debit_effect_nothing)
  qed
next
  case (Some t)
  with assms show ?thesis by (auto simp: consume_plain_replay intro: debit_effect_nothing)
qed

lemma consume_incremental_effect:
  assumes "0 < amount" and w: "wallets s uid = Some w"
  shows "debit_effect uid key meta s (fst (consume_incremental_clamp uid amount key meta s))
           (snd (consume_incremental_clamp uid amount key meta s))"
proof (cases "existing_tx uid key s")
  case None
  show ?thesis
  proof (cases "0 < balance w")
    case True
    with assms None show ?thesis by (simp add: consume_incremental_fresh post_debit_effect)
  next
    case False
    with assms None show ?thesis
      by (simp add: consume_incremental_empty debit_effect_nothing current_of_wallet)
  qed
next
  case (Some t)
  then show ?thesis by (simp add: consume_incremental_replay debit_effect_nothing)
qed

text \<open>
  The write half of the agent path, for any balance \<open>bal\<close> read earlier: it defers and leaves
  the state alone, replays, or books the partial debit. The last case needs the balance of the
  moment to cover \<open>bal\<close>.
\<close>

lemma agent_debt_write_effect:
  assumes w: "wallets s uid = Some w"
  shows "agent_debt_write uid amount key meta bal s = (Inr None, s) \<or>
    (\<exists>t. existing_tx uid key s = Some t \<and>
       agent_debt_write uid amount key meta bal s = (Inr (Some (replay_result uid t s)), s)) \<or>
    (0 < bal \<and> bal < amount \<and> bal \<le> balance w \<and> existing_tx uid key s = None \<and>
     agent_debt_write uid amount key meta bal s =
       (Inr (Some \<lparr>cr_new_balance = 0, cr_ledger_tx_id = next_id s,
                   cr_idempotent_replay = False, cr_charged_amount = bal\<rparr>),
        post_debit uid w bal (amount - bal) key meta
          (shortfall_row uid amount bal (debt w + (amount - bal)) meta s) s))"
proof (cases "amount \<le> bal \<or> bal \<le> 0")
  case True
  then show ?thesis by (simp add: agent_debt_write_defer)
next
  case False
  then have bal: "0 < bal" "bal < amount" by auto
  show ?thesis
  proof (cases "existing_tx uid key s")
    case None
    with bal w show ?thesis
      by (cases "bal \<le> balance w") (simp_all add: agent_debt_write_shortfall agent_debt_write_raced)
  next
    case (Some t)
    with bal show ?thesis by (simp add: agent_debt_write_replay)
  qed
qed

lemma consume_agent_effect:
  assumes amount: "0 < amount" and w: "wallets s uid = Some w"
    and res: "consume_agent_with_debt uid amount key meta s = (Inr ro, t)"
  shows "(ro = None \<and> t = s) \<or> (\<exists>r. ro = Some r \<and> debit_effect uid key meta s (Inr r) t)"
proof (cases "existing_tx uid key s")
  case (Some x)
  with res show ?thesis
    by (auto simp: consume_agent_with_debt_eval debit_effect_nothing)
next
  case None
  have bal: "current_balance uid s = balance w" using w by (simp add: current_of_wallet)
  with None res have eq: "agent_debt_write uid amount key meta (balance w) s = (Inr ro, t)"
    by (simp add: consume_agent_with_debt_eval)
  show ?thesis
    using agent_debt_write_effect [OF w, of amount key meta "balance w"] eq None
    by (auto intro!: post_debit_effect [of uid key s w "balance w", simplified]
        simp: w shortfall_row_debt)
qed

lemma consume_agent_never_raises:
  assumes "wallets s uid = Some w"
  shows "\<exists>ro t. consume_agent_with_debt uid amount key meta s = (Inr ro, t)"
  using agent_debt_write_effect [OF assms, of amount key meta "current_balance uid s"]
  by (auto simp: consume_agent_with_debt_eval split: option.splits)

subsection \<open>Consume\<close>

definition session_error :: "uuid \<Rightarrow> uuid option \<Rightarrow> db \<Rightarrow> app_error option" where
  "session_error uid sid s =
     (case sid of
        None \<Rightarrow> None
      | Some x \<Rightarrow>
          (case map_option ses_user (chat_sessions s x) of
             None \<Rightarrow> Some (error SessionNotFoundError ''session not found'')
           | Some u \<Rightarrow> if u \<noteq> uid then Some (error ForbiddenError ''session does not belong to user'')
                       else None))"

text \<open>The dispatch of \<open>consume\<close> once its arguments have been accepted.\<close>

definition consume_route ::
  "settings \<Rightarrow> uuid \<Rightarrow> int \<Rightarrow> string \<Rightarrow> dict \<Rightarrow> uuid option \<Rightarrow> consume_result dbop" where
  "consume_route cfg uid amount key meta sid =
     (if truthy (dict_get meta ''incremental'') then consume_incremental_clamp uid amount key meta
      else if agent_reconcile_applies cfg meta
      then op_bind (consume_agent_with_debt uid amount key meta) (\<lambda>reconciled.
             case reconciled of
               Some r \<Rightarrow> op_return r
             | None \<Rightarrow> consume_plain uid amount key meta sid)
      else consume_plain uid amount key meta sid)"

lemma session_step:
  "(case sid of Some x \<Rightarrow> validate_session uid x | None \<Rightarrow> op_return ()) s =
     (case session_error uid sid s of Some e \<Rightarrow> (Inl (App e), s) | None \<Rightarrow> (Inr (), s))"
  by (simp add: session_error_def validate_session_def op_bind_read split: option.splits)

lemma consume_eval:
  "consume cfg uid amount key meta sid s =
     (if amount \<le> 0 then (Inl (App (error ConflictError ''amount must be positive'')), s)
      else case session_error uid sid s of
             Some e \<Rightarrow> (Inl (App e), s)
           | None \<Rightarrow>
               if wallets s uid = None \<and> users s uid = None then (Inl DbError, s)
               else consume_route cfg uid amount key meta sid (ensured uid s))"
proof (cases "session_error uid sid s")
  case None
  then show ?thesis
    by (simp add: consume_def consume_route_def op_bind_InrI [of _ s "()" s] session_step
        ensure_wallet_eval op_bind_def [of "ensure_wallet uid"])
next
  case (Some e)
  then show ?thesis by (simp add: consume_def op_bind_InlI [of _ s "App e" s] session_step)
qed

lemma consume_route_effect:
  assumes amount: "0 < amount" and w: "wallets s uid = Some w"
  shows "debit_effect uid key meta s (fst (consume_route cfg uid amount key meta sid s))
           (snd (consume_route cfg uid amount key meta sid s))"
proof (cases "truthy (dict_get meta ''incremental'')")
  case True
  with consume_incremental_effect [OF assms] show ?thesis by (simp add: consume_route_def)
next
  case inc: False
  show ?thesis
  proof (cases "agent_reconcile_applies cfg meta")
    case False
    with inc consume_plain_effect [OF assms] show ?thesis by (simp add: consume_route_def)
  next
    case True
    obtain ro t where eq: "consume_agent_with_debt uid amount key meta s = (Inr ro, t)"
      using consume_agent_never_raises [OF w] by blast
    with inc True consume_agent_effect [OF assms eq] consume_plain_effect [OF assms]
    show ?thesis by (auto simp: consume_route_def op_bind_def)
  qed
qed

lemma debit_effect_inv:
  "wallet_inv s \<Longrightarrow> debit_effect uid key meta s out t \<Longrightarrow> wallet_inv t"
  unfolding debit_effect_def by (auto intro!: post_debit_inv)

lemma consume_route_inv:
  "0 < amount \<Longrightarrow> wallet_inv s \<Longrightarrow>
   wallet_inv (snd (consume_route cfg uid amount key meta sid (ensured uid s)))"
  using ensured_wallet [of uid s] consume_route_effect debit_effect_inv ensured_inv by metis

lemma consume_preserves_inv [op_rules]:
  "op_preserves wallet_inv (consume cfg uid amount key meta sid)"
  by (rule op_preservesI) (auto simp: consume_eval consume_route_inv split: option.splits)

text \<open>A successful \<open>consume\<close>, seen from the state before it.\<close>

lemma consume_success:
  assumes "consume cfg uid amount key meta sid s = (Inr r, t)"
  shows "0 < amount \<and> session_error uid sid s = None \<and>
    consume_route cfg uid amount key meta sid (ensured uid s) = (Inr r, t) \<and>
    debit_effect uid key meta (ensured uid s) (Inr r) t"
proof -
  from assms have h: "0 < amount" "session_error uid sid s = None"
    "consume_route cfg uid amount key meta sid (ensured uid s) = (Inr r, t)"
    by (auto simp: consume_eval split: if_splits option.splits)
  obtain w where "wallets (ensured uid s) uid = Some w" using ensured_wallet by blast
  from consume_route_effect [OF h(1) this, of key meta cfg sid] h show ?thesis by simp
qed

lemma debit_effect_charged:
  assumes "debit_effect uid key meta s (Inr r) t"
  shows "cr_charged_amount r = current_balance uid s - current_balance uid t \<and>
    cr_charged_amount r = debits_of uid t - debits_of uid s \<and>
    cr_new_balance r = current_balance uid t \<and> credits_of uid t = credits_of uid s"
  using assms by (auto simp: debit_effect_def post_debit_def books_defs)

lemma debit_effect_frame:
  assumes "debit_effect uid key meta s out t" and "u \<noteq> uid"
  shows "wallets t u = wallets s u \<and> credits_of u t = credits_of u s \<and>
    debits_of u t = debits_of u s"
  using assms by (auto simp: debit_effect_def post_debit_def books_defs)

subsection \<open>Grant\<close>

definition credit_row :: "uuid \<Rightarrow> int \<Rightarrow> int \<Rightarrow> string \<Rightarrow> db \<Rightarrow> audit_row" where
  "credit_row uid amount nb reason s =
     audit_row_of (request_id s)
       \<lparr>ev_user = uid, ev_type = EVENT_BILLING_CREDIT,
        ev_payload = [(''ledgerTxId'', JStr (uuid_str (next_id s))), (''amount'', JInt amount),
                      (''newBalance'', JInt nb), (''reason'', JStr reason)],
        ev_session = None\<rparr>"

definition repaid_row :: "uuid \<Rightarrow> int \<Rightarrow> int \<Rightarrow> db \<Rightarrow> audit_row" where
  "repaid_row uid repaid remaining s =
     audit_row_of (request_id s)
       \<lparr>ev_user = uid, ev_type = EVENT_BILLING_DEBT_REPAID,
        ev_payload = [(''userId'', JStr (uuid_str uid)), (''repaid'', JInt repaid),
                      (''debtRemaining'', JInt remaining),
                      (''grantLedgerTxId'', JStr (uuid_str (next_id s)))],
        ev_session = None\<rparr>"

text \<open>The part of a grant that settles debt.\<close>

definition clawback :: "settings \<Rightarrow> wallet \<Rightarrow> int \<Rightarrow> int" where
  "clawback cfg w amount = (if agent_debt_reconcile_enabled cfg then min amount (debt w) else 0)"

definition grant_rows ::
  "settings \<Rightarrow> uuid \<Rightarrow> wallet \<Rightarrow> int \<Rightarrow> string \<Rightarrow> db \<Rightarrow> audit_row list" where
  "grant_rows cfg uid w amount reason s =
     (let r = clawback cfg w amount in
      credit_row uid amount (balance w + (amount - r)) reason s #
      (if r > 0 then [repaid_row uid r (debt w - r) s] else []))"

lemma grant_fresh:
  assumes "0 < amount" "wallets s uid = Some w" "existing_tx uid key s = None"
  shows "grant cfg uid amount key meta reason s =
    (Inr \<lparr>gr_new_balance = balance w + (amount - clawback cfg w amount),
          gr_ledger_tx_id = next_id s, gr_idempotent_replay = False\<rparr>,
     post_credit uid w amount (clawback cfg w amount) key meta
       (grant_rows cfg uid w amount reason s) s)"
  using assms
  by (simp add: grant_def ensure_wallet_def op_bind_def insert_ledger_def Let_def
      update_grant_clawback_def update_grant_plain_def post_credit_def clawback_def grant_rows_def
      credit_row_def repaid_row_def)

lemma grant_replay:
  assumes "0 < amount" "wallets s uid = Some w" "existing_tx uid key s = Some t"
  shows "grant cfg uid amount key meta reason s =
    (if tx_type t \<noteq> Credit \<or> tx_amount t \<noteq> amount
     then Inl (App (error ConflictError ''idempotency key reused with different payload''))
     else Inr \<lparr>gr_new_balance = balance w, gr_ledger_tx_id = tx_id t,
               gr_idempotent_replay = True\<rparr>, s)"
  using assms
  by (simp add: grant_def ensure_wallet_def op_bind_def insert_ledger_def current_balance_def)

lemma grant_ensured:
  "grant cfg uid amount key meta reason s =
     (if amount \<le> 0 then (Inl (App (error ConflictError ''amount must be positive'')), s)
      else if wallets s uid = None \<and> users s uid = None then (Inl DbError, s)
      else grant cfg uid amount key meta reason (ensured uid s))"
proof -
  obtain w where w: "wallets (ensured uid s) uid = Some w" using ensured_wallet by blast
  then show ?thesis
    by (auto simp: grant_def ensure_wallet_eval op_bind_def ensured_idem [OF w])
qed

lemma grant_rows_sel:
  "\<forall>row \<in> set (grant_rows cfg uid w amount reason s).
     audit_user row = uid \<and> audit_type row \<noteq> EVENT_BILLING_DEBIT_INSUFFICIENT"
  by (simp add: grant_rows_def Let_def credit_row_def repaid_row_def audit_row_of_def)

lemma repaid_row_amount:
  "json_int (dict_get (audit_payload (repaid_row uid r d s)) ''repaid'') = r"
  unfolding repaid_row_def by (rule audit_payload_int) (simp_all add: key_facts)

lemma grant_rows_repaid:
  assumes "0 \<le> clawback cfg w amount"
  shows "sum_list (map (\<lambda>x. json_int (dict_get (audit_payload x) ''repaid''))
    (filter (\<lambda>x. audit_type x = EVENT_BILLING_DEBT_REPAID) (grant_rows cfg uid w amount reason s)))
    = clawback cfg w amount"
  using assms
  by (auto simp: grant_rows_def Let_def repaid_row_amount)
    (simp_all add: credit_row_def repaid_row_def audit_row_of_def)

lemma wallet_nonneg:
  assumes "wallet_inv s" and "wallets s uid = Some w"
  shows "0 \<le> balance w" and "0 \<le> debt w"
proof -
  have "books_ok uid s" using assms(1) by (simp add: wallet_inv_def)
  with assms(2) show "0 \<le> balance w" and "0 \<le> debt w"
    by (simp_all add: books_ok_def current_of_wallet)
qed

lemma grant_fresh_inv:
  assumes "wallet_inv s" "0 < amount" "wallets s uid = Some w" "existing_tx uid key s = None"
  shows "wallet_inv (snd (grant cfg uid amount key meta reason s))"
proof -
  have "0 \<le> clawback cfg w amount" "clawback cfg w amount \<le> amount" "clawback cfg w amount \<le> debt w"
    using assms(2) wallet_nonneg [OF assms(1,3)] by (simp_all add: clawback_def)
  then have "wallet_inv (post_credit uid w amount (clawback cfg w amount) key meta
      (grant_rows cfg uid w amount reason s) s)"
    by (intro post_credit_inv assms grant_rows_sel grant_rows_repaid) auto
  then show ?thesis using grant_fresh [OF assms(2-4)] by simp
qed

lemma grant_preserves_inv [op_rules]: "op_preserves wallet_inv (grant cfg uid amount key meta reason)"
proof (rule op_preservesI)
  fix s
  assume inv: "wallet_inv s"
  obtain w where w: "wallets (ensured uid s) uid = Some w" using ensured_wallet by blast
  have "wallet_inv (snd (grant cfg uid amount key meta reason (ensured uid s)))" if "0 < amount"
  proof (cases "existing_tx uid key (ensured uid s)")
    case None
    then show ?thesis using grant_fresh_inv [OF _ that w] inv by simp
  next
    case (Some t)
    then show ?thesis using grant_replay [OF that w] inv by simp
  qed
  with inv show "wallet_inv (snd (grant cfg uid amount key meta reason s))"
    by (subst grant_ensured) auto
qed

lemma view_preserves_inv [op_rules]: "op_preserves wallet_inv (get_wallet_view uid n)"
  by (rule op_preservesI) (auto simp: get_wallet_view_def op_bind_def ensure_wallet_eval)

subsection \<open>Histories of wallet calls\<close>

text \<open>
  Any history of calls, each one swallowing its exception and keeping what it has written: the
  weakest caller the service allows (the agent relay is such a caller).
\<close>

datatype wallet_cmd =
    CmdConsume uuid int string dict "uuid option"
  | CmdGrant uuid int string dict string
  | CmdView uuid nat

fun exec_wallet :: "settings \<Rightarrow> wallet_cmd \<Rightarrow> db \<Rightarrow> db" where
  "exec_wallet cfg (CmdConsume u a k m sid) s = snd (consume cfg u a k m sid s)"
| "exec_wallet cfg (CmdGrant u a k m r) s = snd (grant cfg u a k m r s)"
| "exec_wallet cfg (CmdView u n) s = snd (get_wallet_view u n s)"

lemma exec_wallet_inv: "wallet_inv s \<Longrightarrow> wallet_inv (exec_wallet cfg c s)"
  by (cases c) (auto intro: op_preservesD op_rules)

interpretation wallet_runs: command_system "exec_wallet cfg" wallet_inv for cfg
  by unfold_locales (rule exec_wallet_inv)

subsection \<open>Interleaving: an agent debit with a stale balance\<close>

text \<open>
  The agent path reads the balance in one statement and writes in a later savepoint; other
  transactions may commit in between. \<open>race_step\<close> has one rule per kind of step: a complete
  wallet call, the read half of an agent debit (the balance it saw is remembered), the write half
  with the remembered balance, and the full debit the source falls back to when the write half
  defers.
\<close>

record agent_read =
  ar_user :: uuid
  ar_amount :: int
  ar_key :: string
  ar_meta :: dict
  ar_balance :: int

inductive race_step :: "settings \<Rightarrow> db \<times> agent_read list \<Rightarrow> db \<times> agent_read list \<Rightarrow> bool"
  for cfg :: settings where
  race_call: "race_step cfg (s, ps) (exec_wallet cfg c s, ps)"
| race_read: "0 < amount \<Longrightarrow> existing_tx uid key s = None \<Longrightarrow>
    race_step cfg (s, ps)
      (s, \<lparr>ar_user = uid, ar_amount = amount, ar_key = key, ar_meta = meta,
           ar_balance = current_balance uid s\<rparr> # ps)"
| race_write: "p \<in> set ps \<Longrightarrow>
    agent_debt_write (ar_user p) (ar_amount p) (ar_key p) (ar_meta p) (ar_balance p) s = (out, t) \<Longrightarrow>
    race_step cfg (s, ps) (t, remove1 p ps)"
| race_fallback: "p \<in> set ps \<Longrightarrow>
    agent_debt_write (ar_user p) (ar_amount p) (ar_key p) (ar_meta p) (ar_balance p) s
      = (Inr None, t) \<Longrightarrow>
    consume_plain (ar_user p) (ar_amount p) (ar_key p) (ar_meta p) sid t = (out, t') \<Longrightarrow>
    race_step cfg (s, ps) (t', remove1 p ps)"

inductive_cases race_stepE: "race_step cfg sp tq"

lemma agent_debt_write_inv:
  assumes inv: "wallet_inv s"
  shows "wallet_inv (snd (agent_debt_write uid amount key meta bal s))"
proof (cases "wallets s uid")
  case None
  show ?thesis
  proof (cases "amount \<le> bal \<or> bal \<le> 0")
    case True
    with inv show ?thesis by (simp add: agent_debt_write_defer)
  next
    case False
    with None inv show ?thesis
      by (cases "existing_tx uid key s")
        (simp_all add: agent_debt_write_nowallet agent_debt_write_replay)
  qed
next
  case (Some w)
  from agent_debt_write_effect [OF Some, of amount key meta bal] inv Some show ?thesis
    by (auto intro!: post_debit_inv simp: shortfall_row_debt)
qed

lemma consume_plain_inv:
  assumes inv: "wallet_inv s" and "0 < amount"
  shows "wallet_inv (snd (consume_plain uid amount key meta sid s))"
proof (cases "wallets s uid")
  case None
  with inv assms(2) show ?thesis
    by (cases "existing_tx uid key s")
      (simp_all add: consume_plain_replay, simp add: consume_plain_def debit_in_savepoint_def
        op_bind_def begin_nested_def insert_ledger_def update_debit_def)
next
  case (Some w)
  from debit_effect_inv [OF inv consume_plain_effect [OF assms(2) Some]] show ?thesis .
qed

definition race_inv :: "db \<times> agent_read list \<Rightarrow> bool" where
  "race_inv sp \<longleftrightarrow> wallet_inv (fst sp) \<and> (\<forall>p \<in> set (snd sp). 0 < ar_amount p)"

lemma race_step_inv: "race_inv sp \<Longrightarrow> race_step cfg sp tq \<Longrightarrow> race_inv tq"
proof (erule race_stepE, goal_cases)
  case (1 s ps c)
  then show ?case by (auto simp: race_inv_def intro: exec_wallet_inv)
next
  case (2 amount uid key s ps meta)
  then show ?case by (auto simp: race_inv_def)
next
  case (3 p ps s out t)
  then show ?case
    using agent_debt_write_inv [of s "ar_user p" "ar_amount p" "ar_key p" "ar_meta p" "ar_balance p"]
    by (auto simp: race_inv_def dest: notin_set_remove1 in_set_remove1)
next
  case (4 p ps s t sid out t')
  then have "wallet_inv t" and "0 < ar_amount p"
    using agent_debt_write_inv [of s "ar_user p" "ar_amount p" "ar_key p" "ar_meta p" "ar_balance p"]
    by (auto simp: race_inv_def)
  with 4 show ?case
    using consume_plain_inv [of t "ar_amount p" "ar_user p" "ar_key p" "ar_meta p" sid]
    by (auto simp: race_inv_def dest: notin_set_remove1)
qed

definition race_init :: "db \<times> agent_read list \<Rightarrow> bool" where
  "race_init sp \<longleftrightarrow> wallet_inv (fst sp) \<and> snd sp = []"

interpretation race: invariant_system race_init "race_step cfg" race_inv for cfg
proof unfold_locales
  show "race_init s \<Longrightarrow> race_inv s" for s by (simp add: race_init_def race_inv_def)
  show "race_inv s \<Longrightarrow> race_step cfg s t \<Longrightarrow> race_inv t" for s t by (rule race_step_inv)
qed

subsection \<open>The prefix query of a run\<close>

lemma escape_like_concat:
  "escape_like r =
     concat (map (\<lambda>c. if c \<in> {CHR 0x5C, CHR ''%'', CHR ''_''} then [CHR 0x5C, c] else [c]) r)"
  by (induction r) (auto simp: escape_like_def replace_char_def)

lemma like_match_escaped:
  "like_match (escape_like r @ p) t \<longleftrightarrow> (\<exists>t'. t = r @ t' \<and> like_match p t')"
proof (induction r arbitrary: t)
  case Nil
  then show ?case by (simp add: escape_like_concat)
next
  case (Cons c r)
  have "like_match (escape_like (c # r) @ p) t =
      (case t of [] \<Rightarrow> False | e # t' \<Rightarrow> c = e \<and> like_match (escape_like r @ p) t')"
    by (auto simp: escape_like_concat split: list.splits)
  also have "\<dots> \<longleftrightarrow> (\<exists>t'. t = (c # r) @ t' \<and> like_match p t')"
    by (cases t) (auto simp: Cons.IH simp del: like_match.simps)
  finally show ?case .
qed

lemma like_match_percent: "like_match ''%'' t"
  by (induction t) auto

lemma like_match_run_prefix: "like_match (escape_like r @ '':%'') t \<longleftrightarrow> prefix (r @ '':'') t"
proof -
  have "like_match '':%'' u \<longleftrightarrow> (\<exists>v. u = CHR '':'' # v)" for u
    by (cases u) (auto simp: like_match.simps(2) [of "CHR '':''"] like_match_percent
        simp del: like_match.simps(2))
  then show ?thesis
    unfolding like_match_escaped prefix_def by auto
qed

subsection \<open>Repeating a call\<close>

lemma post_debit_existing:
  assumes "existing_tx uid key s = None"
  shows "existing_tx uid key (post_debit uid w c d key meta row s) =
    Some \<lparr>tx_id = next_id s, tx_user = uid, tx_type = Debit, tx_amount = c, tx_meta = meta,
          tx_key = key\<rparr>"
  using assms by (simp add: existing_tx_def post_debit_def find_append)

lemma post_credit_existing:
  assumes "existing_tx uid key s = None"
  shows "existing_tx uid key (post_credit uid w a r key meta rows s) =
    Some \<lparr>tx_id = next_id s, tx_user = uid, tx_type = Credit, tx_amount = a, tx_meta = meta,
          tx_key = key\<rparr>"
  using assms by (simp add: existing_tx_def post_credit_def find_append)

lemma post_debit_wallet: "\<exists>w'. wallets (post_debit uid w c d key meta row s) uid = Some w'"
  by (simp add: post_debit_def)

lemma post_credit_wallet: "\<exists>w'. wallets (post_credit uid w a r key meta rows s) uid = Some w'"
  by (simp add: post_credit_def)

lemma post_debit_frame [simp]:
  "chat_sessions (post_debit uid w c d key meta row s) = chat_sessions s"
  "users (post_debit uid w c d key meta row s) = users s"
  "ensured uid (post_debit uid w c d key meta row s) = post_debit uid w c d key meta row s"
  by (simp_all add: post_debit_def ensured_def)

lemma session_error_cong: "chat_sessions t = chat_sessions s \<Longrightarrow> session_error u sid t = session_error u sid s"
  by (auto simp: session_error_def split: option.splits)

lemma consume_route_existing:
  assumes "0 < amount" "existing_tx uid key s = Some t"
    and "tx_type t = Debit" "tx_amount t = amount \<or> truthy (dict_get meta ''incremental'') \<or>
           agent_reconcile_applies cfg meta"
  shows "consume_route cfg uid amount key meta sid s = (Inr (replay_result uid t s), s)"
  using assms
  by (auto simp: consume_route_def consume_incremental_replay consume_plain_replay op_bind_def
      consume_agent_with_debt_eval)

text \<open>On the full path the booked amount is the requested one.\<close>

lemma consume_route_charged_amount:
  assumes amount: "0 < amount" and w: "wallets s uid = Some w"
    and out: "fst (consume_route cfg uid amount key meta sid s) = Inr r"
    and plain: "\<not> truthy (dict_get meta ''incremental'')" "\<not> agent_reconcile_applies cfg meta"
    and c: "cr_charged_amount r \<noteq> 0"
  shows "cr_charged_amount r = amount"
proof (cases "existing_tx uid key s")
  case None
  with assms show ?thesis
    by (cases "amount \<le> balance w")
      (auto simp: consume_route_def consume_plain_fresh consume_plain_insufficient)
next
  case (Some t)
  with assms show ?thesis
    by (auto simp: consume_route_def consume_plain_replay split: if_splits)
qed

lemma consume_charged_cases:
  assumes ok: "fst (consume cfg uid amount key meta sid s) = Inr r"
    and c: "0 < cr_charged_amount r"
  shows "\<exists>w d row. wallets (ensured uid s) uid = Some w \<and> existing_tx uid key s = None \<and>
    cr_charged_amount r \<le> balance w \<and> cr_ledger_tx_id r = next_id s \<and>
    snd (consume cfg uid amount key meta sid s) =
      post_debit uid w (cr_charged_amount r) d key meta row (ensured uid s)"
proof -
  obtain t where eq: "consume cfg uid amount key meta sid s = (Inr r, t)"
    using ok by (cases "consume cfg uid amount key meta sid s") auto
  from consume_success [OF eq] have "debit_effect uid key meta (ensured uid s) (Inr r) t" by simp
  with c obtain w d row where "wallets (ensured uid s) uid = Some w"
    "existing_tx uid key (ensured uid s) = None" "cr_charged_amount r \<le> balance w"
    "cr_ledger_tx_id r = next_id (ensured uid s)"
    "t = post_debit uid w (cr_charged_amount r) d key meta row (ensured uid s)"
    unfolding debit_effect_def by fastforce
  with eq show ?thesis by auto
qed

lemma grant_cases:
  assumes ok: "fst (grant cfg uid amount key meta reason s) = Inr g"
  shows "0 < amount \<and> (\<exists>w. wallets (ensured uid s) uid = Some w \<and>
    ((\<exists>t. existing_tx uid key s = Some t \<and> tx_type t = Credit \<and> tx_amount t = amount \<and>
        g = \<lparr>gr_new_balance = balance w, gr_ledger_tx_id = tx_id t, gr_idempotent_replay = True\<rparr> \<and>
        snd (grant cfg uid amount key meta reason s) = ensured uid s) \<or>
     (existing_tx uid key s = None \<and>
        g = \<lparr>gr_new_balance = balance w + (amount - clawback cfg w amount),
             gr_ledger_tx_id = next_id s, gr_idempotent_replay = False\<rparr> \<and>
        snd (grant cfg uid amount key meta reason s) =
          post_credit uid w amount (clawback cfg w amount) key meta
            (grant_rows cfg uid w amount reason (ensured uid s)) (ensured uid s))))"
proof -
  obtain w where w: "wallets (ensured uid s) uid = Some w" using ensured_wallet by blast
  from ok have amount: "0 < amount" and eq:
    "grant cfg uid amount key meta reason s = grant cfg uid amount key meta reason (ensured uid s)"
    using grant_ensured [of cfg uid amount key meta reason s] by (auto split: if_splits)
  show ?thesis
  proof (cases "existing_tx uid key (ensured uid s)")
    case None
    with ok eq amount w show ?thesis using grant_fresh [OF amount w None] by simp
  next
    case (Some t)
    with ok eq amount w show ?thesis
      using grant_replay [OF amount w Some] by (auto split: if_splits)
  qed
qed

lemma grant_existing:
  assumes "0 < amount" "wallets s uid = Some w" "existing_tx uid key s = Some t"
    "tx_type t = Credit" "tx_amount t = amount"
  shows "grant cfg uid amount key meta reason s =
    (Inr \<lparr>gr_new_balance = balance w, gr_ledger_tx_id = tx_id t, gr_idempotent_replay = True\<rparr>, s)"
  using grant_replay [OF assms(1-3)] assms(4,5) by simp

lemma grant_again:
  assumes ok: "fst (grant cfg uid amount key meta reason s) = Inr g"
  defines "t \<equiv> snd (grant cfg uid amount key meta reason s)"
  shows "grant cfg uid amount key meta' reason' t =
    (Inr \<lparr>gr_new_balance = current_balance uid t, gr_ledger_tx_id = gr_ledger_tx_id g,
          gr_idempotent_replay = True\<rparr>, t)"
proof -
  from grant_cases [OF ok] obtain w where "0 < amount" and
    "(\<exists>x. t = ensured uid s \<and> wallets t uid = Some w \<and> existing_tx uid key s = Some x \<and>
        tx_type x = Credit \<and> tx_amount x = amount \<and> tx_id x = gr_ledger_tx_id g) \<or>
     (existing_tx uid key s = None \<and> gr_ledger_tx_id g = next_id s \<and>
        t = post_credit uid w amount (clawback cfg w amount) key meta
          (grant_rows cfg uid w amount reason (ensured uid s)) (ensured uid s))"
    unfolding t_def by auto
  then have "\<exists>w' x. wallets t uid = Some w' \<and> existing_tx uid key t = Some x \<and>
      tx_type x = Credit \<and> tx_amount x = amount \<and> tx_id x = gr_ledger_tx_id g"
    using post_credit_existing [of uid key "ensured uid s"] post_credit_wallet [of uid w]
    by auto
  with \<open>0 < amount\<close> obtain w' x where "0 < amount" "wallets t uid = Some w'"
    "existing_tx uid key t = Some x" "tx_type x = Credit" "tx_amount x = amount"
    "tx_id x = gr_ledger_tx_id g"
    by blast
  then show ?thesis by (simp add: grant_existing current_of_wallet)
qed

subsection \<open>The interface the purchase and webhook services rely on\<close>

text \<open>
  What a client of the ledger may assume of \<open>grant\<close>: it keeps the books, a successful grant is
  recorded under its key, and the same grant again (in a retry, a redelivered webhook, a repeated
  purchase) returns the recorded transaction and changes nothing.
\<close>

locale credit_ledger =
  fixes do_grant :: "uuid \<Rightarrow> int \<Rightarrow> string \<Rightarrow> dict \<Rightarrow> string \<Rightarrow> grant_result dbop"
    and lookup :: "uuid \<Rightarrow> string \<Rightarrow> db \<Rightarrow> ledger_tx option"
    and books :: "db \<Rightarrow> bool"
  assumes grant_books: "op_preserves books (do_grant u a k m r)"
    and grant_recorded: "fst (do_grant u a k m r s) = Inr g \<Longrightarrow>
      \<exists>t. lookup u k (snd (do_grant u a k m r s)) = Some t \<and> tx_type t = Credit \<and> tx_amount t = a \<and>
          tx_id t = gr_ledger_tx_id g"
    and grant_replayed: "fst (do_grant u a k m r s) = Inr g \<Longrightarrow>
      \<exists>b. do_grant u a k m' r' (snd (do_grant u a k m r s)) =
        (Inr \<lparr>gr_new_balance = b, gr_ledger_tx_id = gr_ledger_tx_id g, gr_idempotent_replay = True\<rparr>,
         snd (do_grant u a k m r s))"
begin

lemma bind_books:
  "(\<And>x. op_preserves books (f x)) \<Longrightarrow> op_preserves books (op_bind (do_grant u a k m r) f)"
  by (rule op_preserves_bind [OF grant_books])

lemma retry_keeps_state:
  assumes "fst (do_grant u a k m r s) = Inr g"
  shows "fold (\<lambda>_ t. snd (do_grant u a k m r t)) ns (snd (do_grant u a k m r s)) =
         snd (do_grant u a k m r s)"
proof -
  obtain b where "do_grant u a k m r (snd (do_grant u a k m r s)) =
      (Inr \<lparr>gr_new_balance = b, gr_ledger_tx_id = gr_ledger_tx_id g, gr_idempotent_replay = True\<rparr>,
       snd (do_grant u a k m r s))"
    using grant_replayed [OF assms] by blast
  then show ?thesis by (induction ns) auto
qed

end

interpretation wl: credit_ledger "grant cfg" existing_tx wallet_inv for cfg
proof unfold_locales
  show "op_preserves wallet_inv (grant cfg u a k m r)" for u a k m r
    by (rule grant_preserves_inv)
  show "\<exists>t. existing_tx u k (snd (grant cfg u a k m r s)) = Some t \<and> tx_type t = Credit \<and>
      tx_amount t = a \<and> tx_id t = gr_ledger_tx_id g" if "fst (grant cfg u a k m r s) = Inr g"
    for u a k m r s g
    using grant_cases [OF that] by (auto simp: post_credit_existing)
  show "\<exists>b. grant cfg u a k m' r' (snd (grant cfg u a k m r s)) =
      (Inr \<lparr>gr_new_balance = b, gr_ledger_tx_id = gr_ledger_tx_id g, gr_idempotent_replay = True\<rparr>,
       snd (grant cfg u a k m r s))" if "fst (grant cfg u a k m r s) = Inr g"
    for u a k m r s g m' r'
    using grant_again [OF that] by blast
qed

end
