(* ===== verification/WalletClaims.thy ===== *)
theory WalletClaims
  imports WalletFacts
begin

text \<open>
  The promises of the wallet to the rest of the service, with an instance of each on a small
  database: user 1 holds a wallet, user 2 owns a chat session.
\<close>

definition demo_cfg :: settings where
  "demo_cfg = \<lparr>cloudpayments_api_token = ''tok'', cloudpayments_product_tokens = [],
     cloudpayments_subscription_tokens_grant = 1000, cloudpayments_paid_statuses = [''succeeded''],
     cloudpayments_payment_freshness_hours = 72, agent_debt_reconcile_enabled = True, subscription_credits_per_period = 1000,
     token_products = [(''tok.100'', 100)], adapty_product_tokens = [(''pro.month'', 500)],
     adapty_subscription_tokens_grant = 250, credits_per_1k_input = Fin 1, credits_per_1k_output = Fin 5,
     agent_incremental_billing_enabled = True, agent_state_flush_interval_seconds = 3,
     agent_state_result_text_max_chars = 65536, hermes_proxy_timeout_seconds = 30,
     hermes_connect_timeout_seconds = 10, hermes_launch_budget_seconds = 150,
     hermes_launch_retry_attempts = 3, hermes_launch_retry_backoff_seconds = 2\<rparr>"

definition demo_session :: chat_session where
  "demo_session = \<lparr>ses_user = 2, ses_project_id = None, ses_mode = ''credits'', ses_model = None, ses_title = None,
     ses_assistant_mode = ''chat'', ses_workspace = None, ses_pinned = False, ses_created_at = 0, ses_updated_at = 0\<rparr>"

lemma demo_session_user [simp]: "ses_user demo_session = 2"
  by (simp add: demo_session_def)

definition demo_db :: db where
  "demo_db = empty_db\<lparr>users := [1 \<mapsto> \<lparr>trial_used = False\<rparr>, 2 \<mapsto> \<lparr>trial_used = True\<rparr>],
     wallets := [1 \<mapsto> \<lparr>balance = 0, debt = 0\<rparr>], chat_sessions := [7 \<mapsto> demo_session]\<rparr>"

text \<open>User 1 after a grant of 50 credits.\<close>

definition demo_funded :: db where
  "demo_funded = snd (grant demo_cfg 1 50 ''g1'' [] ''welcome'' demo_db)"

lemma demo_db_inv: "wallet_inv demo_db"
  by (auto simp: wallet_inv_def ledger_wf_def books_ok_def books_defs demo_db_def empty_db_def)

lemma demo_funded_inv: "wallet_inv demo_funded"
  unfolding demo_funded_def by (rule op_preservesD [OF grant_preserves_inv demo_db_inv])

lemma demo_funded_eq:
  "demo_funded = post_credit 1 \<lparr>balance = 0, debt = 0\<rparr> 50 0 ''g1'' []
     (grant_rows demo_cfg 1 \<lparr>balance = 0, debt = 0\<rparr> 50 ''welcome'' demo_db) demo_db"
proof -
  have "wallets demo_db 1 = Some \<lparr>balance = 0, debt = 0\<rparr>" "existing_tx 1 ''g1'' demo_db = None"
    by (simp_all add: demo_db_def empty_db_def existing_tx_def)
  then show ?thesis
    unfolding demo_funded_def by (simp add: grant_fresh clawback_def)
qed

lemma demo_funded_facts [simp]:
  "wallets demo_funded (Suc 0) = Some \<lparr>balance = 50, debt = 0\<rparr>"
  "k \<noteq> ''g1'' \<Longrightarrow> existing_tx (Suc 0) k demo_funded = None"
  "next_id demo_funded = 2" "chat_sessions demo_funded = [7 \<mapsto> demo_session]"
  "ensured (Suc 0) demo_funded = demo_funded"
  "current_balance (Suc 0) demo_funded = 50" "current_debt (Suc 0) demo_funded = 0"
  by (simp_all add: demo_funded_eq post_credit_def demo_db_def empty_db_def existing_tx_def
      ensured_def current_balance_def current_debt_def)

definition agent_meta :: dict where
  "agent_meta = [(''source'', JStr ''agent_run''), (''runId'', JStr ''r1'')]"

text \<open>
  Claim C1. Whatever wallet calls are made on a fresh ledger, in any order, with any arguments, and
  with every exception swallowed by its caller, the books of every user balance: the balance and
  the debt are not negative, the balance plus what grants have repaid is the sum of the credit rows
  minus the sum of the debit rows, and the debt is what was accrued minus what was repaid.
\<close>

theorem books_balance_in_every_history:
  "books_ok u (fold (exec_wallet cfg) cmds (empty_db\<lparr>users := us, chat_sessions := ss\<rparr>))"
proof -
  have "wallet_inv (empty_db\<lparr>users := us, chat_sessions := ss\<rparr>)"
    by (auto simp: wallet_inv_def ledger_wf_def books_ok_def books_defs empty_db_def)
  then show ?thesis
    using wallet_runs.run_inv [of _ cfg cmds] by (simp add: wallet_inv_def)
qed

text \<open>
  Claim C10. The books also balance when agent debits are interleaved with other transactions: the
  write half may run on a balance read arbitrarily earlier, and the full debit it falls back to may
  run after it.
\<close>

theorem books_balance_under_interleaving:
  assumes "reach race_init (race_step cfg) (s, ps)"
  shows "ledger_wf s \<and> books_ok u s"
  using race.reachable_inv [OF assms] by (simp add: race_inv_def wallet_inv_def)

text \<open>The run: a balance of 50 is read for a debit of 80, then another debit takes 20, then the
  write half runs on the stale 50.\<close>

definition demo_stale :: agent_read where
  "demo_stale = \<lparr>ar_user = 1, ar_amount = 80, ar_key = ''r1'', ar_meta = agent_meta,
     ar_balance = current_balance 1 demo_funded\<rparr>"

definition demo_raced :: db where
  "demo_raced = snd (agent_debt_write 1 80 ''r1'' agent_meta (current_balance 1 demo_funded)
     (exec_wallet demo_cfg (CmdConsume 1 20 ''c1'' [] None) demo_funded))"

lemma demo_raced_reach: "reach race_init (race_step demo_cfg) (demo_raced, [])"
proof -
  let ?s1 = "exec_wallet demo_cfg (CmdConsume 1 20 ''c1'' [] None) demo_funded"
  have r0: "reach race_init (race_step demo_cfg) (demo_funded, [])"
    by (rule reach_init) (simp add: race_init_def demo_funded_inv)
  have r1: "reach race_init (race_step demo_cfg) (demo_funded, [demo_stale])"
    unfolding demo_stale_def by (rule reach_step [OF r0 race_read]) simp_all
  have r2: "reach race_init (race_step demo_cfg) (?s1, [demo_stale])"
    by (rule reach_step [OF r1 race_call])
  have "race_step demo_cfg (?s1, [demo_stale]) (demo_raced, remove1 demo_stale [demo_stale])"
    by (rule race_write [where out = "fst (agent_debt_write 1 80 ''r1'' agent_meta
          (current_balance 1 demo_funded) ?s1)"])
      (simp_all add: demo_stale_def demo_raced_def)
  from reach_step [OF r2 this] show ?thesis by simp
qed

theorem books_balance_under_interleaving_witness:
  "reach race_init (race_step demo_cfg) (demo_raced, []) \<and> ledger_wf demo_raced \<and>
   books_ok 1 demo_raced"
  using books_balance_under_interleaving [OF demo_raced_reach] demo_raced_reach by blast

text \<open>
  What a debit reports is what it took: on every path of \<open>consume\<close> the reported charge
  is the decrement of the balance and the increment of the debit rows, the reported balance is the
  balance of the wallet, and no other user's wallet or ledger sum moves.
\<close>

theorem consume_reports_what_it_took:
  assumes "consume cfg uid amount key meta sid s = (Inr r, t)"
  shows "cr_charged_amount r = current_balance uid s - current_balance uid t \<and>
    cr_charged_amount r = debits_of uid t - debits_of uid s \<and>
    cr_new_balance r = current_balance uid t \<and>
    credits_of uid t = credits_of uid s \<and>
    (\<forall>u. u \<noteq> uid \<longrightarrow> current_balance u t = current_balance u s \<and> debits_of u t = debits_of u s)"
proof -
  have e: "debit_effect uid key meta (ensured uid s) (Inr r) t"
    using consume_success [OF assms] by simp
  have "current_balance u t = current_balance u (ensured uid s)" if "u \<noteq> uid" for u
    using debit_effect_frame [OF e that] by (simp add: current_balance_def)
  with debit_effect_charged [OF e] debit_effect_frame [OF e] show ?thesis by simp
qed

definition demo_consume_result :: consume_result where
  "demo_consume_result = \<lparr>cr_new_balance = 20, cr_ledger_tx_id = 2, cr_idempotent_replay = False,
     cr_charged_amount = 30\<rparr>"

lemma demo_consume_run:
  "consume demo_cfg 1 30 ''k'' [] None demo_funded =
     (Inr demo_consume_result, snd (consume demo_cfg 1 30 ''k'' [] None demo_funded))"
proof -
  have "fst (consume demo_cfg 1 30 ''k'' [] None demo_funded) = Inr demo_consume_result"
    by (simp add: consume_eval consume_route_def session_error_def agent_reconcile_applies_def
        consume_plain_fresh demo_consume_result_def)
  then show ?thesis by (metis prod.collapse)
qed

theorem consume_reports_what_it_took_witness:
  "consume demo_cfg 1 30 ''k'' [] None demo_funded =
     (Inr demo_consume_result, snd (consume demo_cfg 1 30 ''k'' [] None demo_funded)) \<and>
   30 = current_balance 1 demo_funded -
     current_balance 1 (snd (consume demo_cfg 1 30 ''k'' [] None demo_funded))"
  using consume_reports_what_it_took [OF demo_consume_run] demo_consume_run
  by (simp add: demo_consume_result_def)

text \<open>
  Claim C2. A debit that took something can be repeated any number of times: the same call on the
  state it left returns the same transaction, is marked as a replay, charges nothing and changes
  nothing.
\<close>

theorem consume_is_idempotent:
  assumes "consume cfg uid amount key meta sid s = (Inr r, t)" and "0 < cr_charged_amount r"
  shows "consume cfg uid amount key meta sid t =
    (Inr \<lparr>cr_new_balance = current_balance uid t, cr_ledger_tx_id = cr_ledger_tx_id r,
          cr_idempotent_replay = True, cr_charged_amount = 0\<rparr>, t)"
proof -
  have ok: "fst (consume cfg uid amount key meta sid s) = Inr r" using assms(1) by simp
  obtain w d row where w: "wallets (ensured uid s) uid = Some w"
    and fresh: "existing_tx uid key s = None" and id: "cr_ledger_tx_id r = next_id s"
    and t: "t = post_debit uid w (cr_charged_amount r) d key meta row (ensured uid s)"
    using consume_charged_cases [OF ok assms(2)] assms(1) by auto
  from consume_success [OF assms(1)] have amount: "0 < amount" and sess: "session_error uid sid s = None"
    and route: "consume_route cfg uid amount key meta sid (ensured uid s) = (Inr r, t)"
    by auto
  let ?x = "\<lparr>tx_id = next_id s, tx_user = uid, tx_type = Debit, tx_amount = cr_charged_amount r,
             tx_meta = meta, tx_key = key\<rparr>"
  have x: "existing_tx uid key t = Some ?x"
    unfolding t by (simp add: post_debit_existing fresh)
  have "cr_charged_amount r = amount \<or> truthy (dict_get meta ''incremental'') \<or>
      agent_reconcile_applies cfg meta"
    using consume_route_charged_amount [OF amount w, of cfg key meta sid r] route assms(2) by auto
  then have "consume_route cfg uid amount key meta sid t = (Inr (replay_result uid ?x t), t)"
    by (intro consume_route_existing [OF amount x]) auto
  moreover have "ensured uid t = t" and "wallets t uid \<noteq> None"
    using post_debit_wallet [of uid w] by (auto simp: t)
  moreover have "session_error uid sid t = None"
    using sess session_error_cong [of t s] by (simp add: t)
  ultimately show ?thesis
    using amount id by (simp add: consume_eval replay_result_def)
qed

theorem consume_is_idempotent_witness:
  "0 < cr_charged_amount demo_consume_result \<and>
   fst (consume demo_cfg 1 30 ''k'' [] None (snd (consume demo_cfg 1 30 ''k'' [] None demo_funded))) =
     Inr \<lparr>cr_new_balance = current_balance 1 (snd (consume demo_cfg 1 30 ''k'' [] None demo_funded)),
          cr_ledger_tx_id = 2, cr_idempotent_replay = True, cr_charged_amount = 0\<rparr>"
  using consume_is_idempotent [OF demo_consume_run] by (simp add: demo_consume_result_def)

text \<open>
  A debit that raises leaves no trace in the books, also when the caller swallows the
  exception and commits: ledger, audit log, balances and debts are as before.
\<close>

theorem failed_consume_leaves_no_trace:
  assumes "consume cfg uid amount key meta sid s = (Inl e, t)"
  shows "ledger t = ledger s \<and> audit_logs t = audit_logs s \<and>
    (\<forall>u. current_balance u t = current_balance u s \<and> current_debt u t = current_debt u s)"
proof (cases "t = s")
  case False
  with assms have eq: "consume_route cfg uid amount key meta sid (ensured uid s) = (Inl e, t)"
    and amount: "0 < amount"
    by (auto simp: consume_eval split: if_splits option.splits)
  obtain w where "wallets (ensured uid s) uid = Some w" using ensured_wallet by blast
  from consume_route_effect [OF amount this, of key meta cfg sid] eq
  have "t = ensured uid s" by (auto simp: debit_effect_def)
  then show ?thesis by simp
qed simp

theorem failed_consume_leaves_no_trace_witness:
  "consume demo_cfg 1 90 ''k'' [] None demo_funded =
     (Inl (App (error InsufficientCreditsError ''insufficient_credits'')), demo_funded) \<and>
   ledger demo_funded = ledger demo_funded"
proof -
  have h: "consume demo_cfg 1 90 ''k'' [] None demo_funded =
      (Inl (App (error InsufficientCreditsError ''insufficient_credits'')), demo_funded)"
    by (simp add: consume_eval consume_route_def session_error_def agent_reconcile_applies_def
        consume_plain_insufficient)
  show ?thesis using failed_consume_leaves_no_trace [OF h] h by simp
qed

text \<open>
  The shortfall of an agent run: with reconciliation on and a positive balance below the
  amount, \<open>consume\<close> does not raise; it drains the balance, books exactly the drained amount, and
  the missing rest becomes debt, so charge and new debt add up to the amount.
\<close>

theorem agent_shortfall_becomes_debt:
  assumes "agent_reconcile_applies cfg meta" and "\<not> truthy (dict_get meta ''incremental'')"
    and "0 < current_balance uid s" and "current_balance uid s < amount"
    and "existing_tx uid key s = None"
  shows "\<exists>r t. consume cfg uid amount key meta None s = (Inr r, t) \<and>
    cr_charged_amount r = current_balance uid s \<and> current_balance uid t = 0 \<and>
    cr_charged_amount r + (current_debt uid t - current_debt uid s) = amount \<and>
    cr_idempotent_replay r = False"
proof -
  obtain w where w: "wallets s uid = Some w"
    using assms(3) by (auto simp: current_balance_def split: option.splits)
  have bal: "current_balance uid s = balance w" using w by (simp add: current_of_wallet)
  have route: "consume cfg uid amount key meta None s = consume_route cfg uid amount key meta None s"
    using assms(3,4) w by (simp add: consume_eval session_error_def ensured_idem)
  show ?thesis
    unfolding route consume_route_def
    using assms w bal
    by (simp add: op_bind_def consume_agent_with_debt_eval agent_debt_write_shortfall
        post_debit_def current_balance_def current_debt_def)
qed

theorem agent_shortfall_becomes_debt_witness:
  "\<exists>r t. consume demo_cfg 1 80 ''r1'' agent_meta None demo_funded = (Inr r, t) \<and>
    cr_charged_amount r = 50 \<and> current_balance 1 t = 0 \<and>
    50 + (current_debt 1 t - current_debt 1 demo_funded) = 80"
proof -
  have "agent_reconcile_applies demo_cfg agent_meta"
    by (simp add: agent_reconcile_applies_def agent_meta_def AGENT_RUN_SOURCE_def demo_cfg_def)
  moreover have "\<not> truthy (dict_get agent_meta ''incremental'')" by (simp add: agent_meta_def)
  ultimately show ?thesis
    using agent_shortfall_becomes_debt [of demo_cfg agent_meta 1 demo_funded 80 "''r1''"] by force
qed

text \<open>
  A grant that is not a replay is neither lost nor counted twice: the credit row carries
  the full amount, and the amount is split exactly between the balance and the settled debt. With
  reconciliation on, the balance only grows once the debt is zero; with it off, the debt is not
  touched.
\<close>

theorem grant_splits_exactly:
  assumes "wallet_inv s" and "grant cfg uid amount key meta reason s = (Inr g, t)"
    and "\<not> gr_idempotent_replay g"
  shows "credits_of uid t = credits_of uid s + amount \<and>
    (current_balance uid t - current_balance uid s) + (current_debt uid s - current_debt uid t) = amount \<and>
    gr_new_balance g = current_balance uid t \<and>
    (agent_debt_reconcile_enabled cfg \<longrightarrow>
       current_debt uid t = max 0 (current_debt uid s - amount)) \<and>
    (\<not> agent_debt_reconcile_enabled cfg \<longrightarrow> current_debt uid t = current_debt uid s)"
proof -
  have ok: "fst (grant cfg uid amount key meta reason s) = Inr g" using assms(2) by simp
  obtain w where amount: "0 < amount" and w: "wallets (ensured uid s) uid = Some w"
    and g: "gr_new_balance g = balance w + (amount - clawback cfg w amount)"
    and t: "t = post_credit uid w amount (clawback cfg w amount) key meta
          (grant_rows cfg uid w amount reason (ensured uid s)) (ensured uid s)"
    using grant_cases [OF ok] assms(2,3) by auto
  have s: "current_balance uid s = balance w" "current_debt uid s = debt w"
    using current_of_wallet [OF w] by simp_all
  have "0 \<le> debt w" using wallet_nonneg [of "ensured uid s" uid w] assms(1) w by simp
  moreover have "current_balance uid t = balance w + (amount - clawback cfg w amount)"
    "current_debt uid t = debt w - clawback cfg w amount"
    by (simp_all add: t post_credit_def current_balance_def current_debt_def)
  moreover have "credits_of uid t = credits_of uid s + amount"
    by (simp add: t post_credit_def credits_of_def)
  ultimately show ?thesis using amount g s by (auto simp: clawback_def min_def max_def)
qed

lemma demo_grant_run:
  "\<exists>g t. grant demo_cfg 1 70 ''g2'' [] ''topup'' demo_funded = (Inr g, t) \<and>
     \<not> gr_idempotent_replay g"
  by (simp add: grant_fresh)

theorem grant_splits_exactly_witness:
  "\<exists>g t. grant demo_cfg 1 70 ''g2'' [] ''topup'' demo_funded = (Inr g, t) \<and>
     credits_of 1 t = credits_of 1 demo_funded + 70"
  using demo_grant_run grant_splits_exactly [OF demo_funded_inv] by blast

text \<open>
  A successful grant can be retried any number of times, with whatever metadata: the state
  stays as the first one left it, and each retry returns the transaction of the first.
\<close>

theorem grant_is_idempotent:
  assumes "grant cfg uid amount key meta reason s = (Inr g, t)"
  shows "fold (\<lambda>_ x. snd (grant cfg uid amount key meta reason x)) retries t = t \<and>
    grant cfg uid amount key meta' reason' t =
      (Inr \<lparr>gr_new_balance = current_balance uid t, gr_ledger_tx_id = gr_ledger_tx_id g,
            gr_idempotent_replay = True\<rparr>, t)"
proof -
  have ok: "fst (grant cfg uid amount key meta reason s) = Inr g" using assms by simp
  show ?thesis
    using wl.retry_keeps_state [OF ok, of retries] grant_again [OF ok, of meta' reason'] assms
    by simp
qed

theorem grant_is_idempotent_witness:
  "\<exists>g t. grant demo_cfg 1 70 ''g2'' [] ''topup'' demo_funded = (Inr g, t) \<and>
     fold (\<lambda>_ x. snd (grant demo_cfg 1 70 ''g2'' [] ''topup'' x)) [1::nat, 2, 3] t = t"
  using demo_grant_run grant_is_idempotent by blast

text \<open>
  The credits a run has been charged are the debits booked under its identifier or under
  the identifier followed by a colon, whatever characters the identifier contains: a \<open>%\<close>, an
  underscore or a backslash in it does not widen the SQL pattern.
\<close>

theorem charged_for_run_is_prefix_sum:
  "charged_for_run uid run_id s =
     sum_list (map tx_amount
       (filter (\<lambda>t. tx_user t = uid \<and> tx_type t = Debit \<and>
                   (tx_key t = run_id \<or> startswith (tx_key t) (run_id @ '':'')))
         (ledger s)))"
  by (simp add: charged_for_run_def like_match_run_prefix)

subsection \<open>Where the comments and the ledger part\<close>

text \<open>
  The header of the service and the table say that the balance is the sum of the credits minus the
  sum of the debits. After a clawback it is less: the credit row carries the full grant, while the
  repaid part never reaches the balance. (The books of claim C1 account for it.)
\<close>

lemma clawback_breaks_plain_sum:
  "\<exists>cmds. let s = fold (exec_wallet demo_cfg) cmds demo_funded in
     current_balance 1 s \<noteq> credits_of 1 s - debits_of 1 s"
proof (intro exI)
  let ?c = "CmdConsume 1 80 ''r1'' agent_meta None" and ?g = "CmdGrant 1 40 ''g2'' [] ''topup''"
  have a: "agent_reconcile_applies demo_cfg agent_meta" "\<not> truthy (dict_get agent_meta ''incremental'')"
    by (simp_all add: agent_reconcile_applies_def agent_meta_def AGENT_RUN_SOURCE_def demo_cfg_def)
  define s1 where "s1 = exec_wallet demo_cfg ?c demo_funded"
  have s1: "s1 = post_debit 1 \<lparr>balance = 50, debt = 0\<rparr> 50 30 ''r1'' agent_meta
      (shortfall_row 1 80 50 30 agent_meta demo_funded) demo_funded"
    using a by (simp add: s1_def consume_eval consume_route_def session_error_def op_bind_def
        consume_agent_with_debt_eval agent_debt_write_shortfall)
  have w1: "wallets s1 1 = Some \<lparr>balance = 0, debt = 30\<rparr>" "existing_tx 1 ''g2'' s1 = None"
    unfolding s1 by (simp_all add: post_debit_def existing_tx_def demo_funded_eq post_credit_def
        demo_db_def empty_db_def)
  have "exec_wallet demo_cfg ?g s1 = post_credit 1 \<lparr>balance = 0, debt = 30\<rparr> 40 30 ''g2'' []
      (grant_rows demo_cfg 1 \<lparr>balance = 0, debt = 30\<rparr> 40 ''topup'' s1) s1"
    using w1 by (simp add: grant_fresh clawback_def demo_cfg_def)
  then have "current_balance 1 (exec_wallet demo_cfg ?g s1) = 10"
    "credits_of 1 (exec_wallet demo_cfg ?g s1) - debits_of 1 (exec_wallet demo_cfg ?g s1) = 40"
    unfolding s1 by (simp_all add: books_defs post_credit_def post_debit_def demo_funded_eq
        demo_db_def empty_db_def)
  then show "let s = fold (exec_wallet demo_cfg) [?c, ?g] demo_funded in
     current_balance 1 s \<noteq> credits_of 1 s - debits_of 1 s"
    unfolding s1_def by (simp add: Let_def)
qed

end
