(* ===== verification/Policy.thy ===== *)
theory Policy
  imports Database
begin

text \<open>
  \<^verbatim>\<open>src/app/policy/engine.py\<close>, the pure access decision, and
  \<^verbatim>\<open>src/app/policy/loader.py\<close>, which builds its input from the database and computes
  \<^verbatim>\<open>/policy/effective\<close>. Python's \<open>None\<close> is \<open>None\<close>; the current time is an
  argument.
\<close>

subsection \<open>Engine\<close>

datatype mode = ModeCredits | ModeByok

datatype subscription_status = SubActive | SubExpired | SubNone

datatype byok_state =
  ByokMissing | ByokDisabled | ByokInvalid | ByokValid | ByokValidating | ByokOffline | ByokExpired

datatype block_reason =
    BR_trial_used | BR_subscription_required | BR_subscription_expired | BR_credits_empty
  | BR_byok_disabled | BR_byok_invalid | BR_rate_limited | BR_policy_denied
  | BR_debt_outstanding | BR_max_tokens

record policy_state =
  subscription_status :: subscription_status
  ps_trial_used :: bool
  credits_balance :: int
  byok_enabled :: bool
  byok_status :: byok_state

record decision =
  allow :: bool
  block_reason :: "block_reason option"

definition allowed :: decision where
  "allowed = \<lparr>allow = True, block_reason = None\<rparr>"

definition blocked :: "block_reason \<Rightarrow> decision" where
  "blocked r = \<lparr>allow = False, block_reason = Some r\<rparr>"

definition effective_byok_state :: "bool \<Rightarrow> byok_state \<Rightarrow> byok_state" where
  "effective_byok_state enabled status = (if \<not> enabled then ByokDisabled else status)"

definition evaluate :: "policy_state \<Rightarrow> mode \<Rightarrow> decision" where
  "evaluate state mode =
     (if mode = ModeByok then
        if subscription_status state \<noteq> SubActive then
          if subscription_status state = SubExpired then blocked BR_subscription_expired
          else blocked BR_subscription_required
        else
          (let effective = effective_byok_state (byok_enabled state) (byok_status state) in
           if effective = ByokDisabled then blocked BR_byok_disabled
           else if effective \<noteq> ByokValid then blocked BR_byok_invalid
           else allowed)
      else if subscription_status state = SubActive then
        if credits_balance state = 0 then blocked BR_credits_empty else allowed
      else if subscription_status state = SubExpired then blocked BR_subscription_expired
      else if ps_trial_used state then blocked BR_trial_used
      else allowed)"

subsection \<open>Loader\<close>

definition effective_subscription_status ::
  "int \<Rightarrow> string option \<Rightarrow> int option \<Rightarrow> subscription_status" where
  "effective_subscription_status now status expires_at =
     (if status = None \<or> status = Some ''none'' then SubNone
      else if status = Some ''expired'' then SubExpired
      else (case expires_at of
              Some t \<Rightarrow> if t \<le> now then SubExpired else SubActive
            | None \<Rightarrow> SubActive))"

text \<open>\<open>ByokState(byok.key_status)\<close>: a value outside the enumeration raises \<open>ValueError\<close>.\<close>

definition byok_state_of :: "string \<Rightarrow> byok_state option" where
  "byok_state_of s =
     map_of [(''missing'', ByokMissing), (''disabled'', ByokDisabled), (''invalid'', ByokInvalid),
             (''valid'', ByokValid), (''validating'', ByokValidating), (''offline'', ByokOffline),
             (''expired'', ByokExpired)] s"

definition load_policy_state :: "int \<Rightarrow> uuid \<Rightarrow> policy_state dbop" where
  "load_policy_state now uid = (\<lambda>s.
     let trial = (case users s uid of None \<Rightarrow> False | Some u \<Rightarrow> trial_used u);
         sub = subscriptions s uid;
         st = effective_subscription_status now (map_option sub_status sub)
                (case sub of None \<Rightarrow> None | Some x \<Rightarrow> sub_expires_at x);
         bal = (case wallets s uid of None \<Rightarrow> 0 | Some w \<Rightarrow> balance w)
     in case byok_keys s uid of
          None \<Rightarrow> (Inr \<lparr>subscription_status = st, ps_trial_used = trial, credits_balance = bal,
                        byok_enabled = False, byok_status = ByokMissing\<rparr>, s)
        | Some k \<Rightarrow>
            (case byok_state_of (key_status k) of
               None \<Rightarrow> (Inl (PyError ''ValueError''), s)
             | Some b \<Rightarrow> (Inr \<lparr>subscription_status = st, ps_trial_used = trial,
                               credits_balance = bal, byok_enabled = key_enabled k,
                               byok_status = b\<rparr>, s)))"

record effective_policy =
  is_subscribed :: bool
  trial_remaining :: nat
  ep_credits_balance :: int
  ep_debt :: int
  ep_byok_enabled :: bool
  can_generate_credits_mode :: bool
  can_generate_byok_mode :: bool
  reasons :: "block_reason list"

definition effective_of :: "policy_state \<Rightarrow> int \<Rightarrow> effective_policy" where
  "effective_of state dbt =
     (let cd = evaluate state ModeCredits;
          bd = evaluate state ModeByok;
          rs0 = (if \<not> allow cd then (case block_reason cd of Some r \<Rightarrow> [r] | None \<Rightarrow> []) else []);
          rs = (if \<not> allow bd
                then (case block_reason bd of
                        Some r \<Rightarrow> if r \<notin> set rs0 then rs0 @ [r] else rs0
                      | None \<Rightarrow> rs0)
                else rs0)
      in \<lparr>is_subscribed = (subscription_status state = SubActive),
          trial_remaining =
            (if subscription_status state = SubNone \<and> \<not> ps_trial_used state then 1 else 0),
          ep_credits_balance = credits_balance state,
          ep_debt = dbt,
          ep_byok_enabled = (byok_enabled state \<and> byok_status state = ByokValid),
          can_generate_credits_mode = allow cd,
          can_generate_byok_mode = allow bd,
          reasons = rs\<rparr>)"

definition effective :: "int \<Rightarrow> uuid \<Rightarrow> effective_policy dbop" where
  "effective now uid =
     op_bind (load_policy_state now uid) (\<lambda>state.
     op_bind (op_read (\<lambda>s. case wallets s uid of None \<Rightarrow> 0 | Some w \<Rightarrow> debt w)) (\<lambda>dbt.
     op_return (effective_of state dbt)))"

subsection \<open>Lemmas\<close>

lemmas policy_defs = evaluate_def effective_byok_state_def allowed_def blocked_def Let_def

lemma blocked_sel [simp]: "allow (blocked r) = False" "block_reason (blocked r) = Some r"
  by (simp_all add: blocked_def)

lemma allowed_sel [simp]: "allow allowed" "block_reason allowed = None"
  by (simp_all add: allowed_def)

lemma evaluate_outcome: "evaluate st m = allowed \<or> (\<exists>r. evaluate st m = blocked r)"
  by (auto simp: evaluate_def Let_def)

lemma evaluate_reason_iff: "block_reason (evaluate st m) = None \<longleftrightarrow> allow (evaluate st m)"
  by (simp add: policy_defs)

lemma evaluate_credits_reasons:
  "\<not> allow (evaluate st ModeCredits) \<Longrightarrow>
   \<exists>r \<in> {BR_credits_empty, BR_subscription_expired, BR_trial_used}.
     block_reason (evaluate st ModeCredits) = Some r"
  by (auto simp: policy_defs split: if_splits)

lemma evaluate_byok_reasons:
  "\<not> allow (evaluate st ModeByok) \<Longrightarrow>
   \<exists>r \<in> {BR_subscription_expired, BR_subscription_required, BR_byok_disabled, BR_byok_invalid}.
     block_reason (evaluate st ModeByok) = Some r"
  by (auto simp: policy_defs split: if_splits)

lemma load_policy_state_pure [simp]: "snd (load_policy_state now uid s) = s"
  by (auto simp: load_policy_state_def Let_def split: option.splits)

lemma load_policy_state_status:
  "load_policy_state now uid s = (Inr st, t) \<Longrightarrow>
   t = s \<and>
   subscription_status st =
     effective_subscription_status now (map_option sub_status (subscriptions s uid))
       (case subscriptions s uid of None \<Rightarrow> None | Some x \<Rightarrow> sub_expires_at x)"
  by (auto simp: load_policy_state_def Let_def split: option.splits)

subsection \<open>What the policy promises\<close>

text \<open>
  The decision is the documented table. Credits mode is open exactly to an active
  subscription with a non-zero balance and to the unused trial of a user without a subscription; the
  user's own key needs an active subscription and a switched-on, valid key. A refusal always carries
  its reason: the state of the subscription first, then the balance, the trial or the key.
\<close>

theorem evaluate_table:
  "(allow (evaluate st ModeCredits) \<longleftrightarrow>
      subscription_status st = SubActive \<and> credits_balance st \<noteq> 0 \<or>
      subscription_status st = SubNone \<and> \<not> ps_trial_used st) \<and>
   (allow (evaluate st ModeByok) \<longleftrightarrow>
      subscription_status st = SubActive \<and> byok_enabled st \<and> byok_status st = ByokValid) \<and>
   block_reason (evaluate st ModeCredits) =
     (if allow (evaluate st ModeCredits) then None
      else Some (case subscription_status st of SubActive \<Rightarrow> BR_credits_empty
                 | SubExpired \<Rightarrow> BR_subscription_expired | SubNone \<Rightarrow> BR_trial_used)) \<and>
   block_reason (evaluate st ModeByok) =
     (if allow (evaluate st ModeByok) then None
      else Some (case subscription_status st of SubExpired \<Rightarrow> BR_subscription_expired
                 | SubNone \<Rightarrow> BR_subscription_required
                 | SubActive \<Rightarrow> if byok_enabled st \<and> byok_status st \<noteq> ByokDisabled
                                then BR_byok_invalid else BR_byok_disabled))"
  by (cases "subscription_status st") (auto simp: policy_defs)

text \<open>
  \<open>/policy/effective\<close> tells the client what a request would be answered: its two
  flags are the two decisions, a mode is refused exactly when its reason is listed, no reason is
  listed twice, and computing it changes nothing.
\<close>

theorem effective_agrees_with_evaluate:
  assumes "effective now uid s = (Inr ep, t)"
  shows "t = s \<and> (\<exists>st. load_policy_state now uid s = (Inr st, s) \<and>
    can_generate_credits_mode ep = allow (evaluate st ModeCredits) \<and>
    can_generate_byok_mode ep = allow (evaluate st ModeByok) \<and>
    set (reasons ep) = set_option (block_reason (evaluate st ModeCredits)) \<union>
                       set_option (block_reason (evaluate st ModeByok)) \<and>
    distinct (reasons ep))"
proof -
  from assms obtain st where st: "load_policy_state now uid s = (Inr st, s)"
    and ep: "\<exists>d. ep = effective_of st d" and t: "t = s"
    by (auto simp: effective_def op_bind_Inr_iff dest: load_policy_state_status)
  obtain d where d: "ep = effective_of st d" using ep by blast
  have "can_generate_credits_mode ep = allow (evaluate st ModeCredits) \<and>
    can_generate_byok_mode ep = allow (evaluate st ModeByok) \<and>
    set (reasons ep) = set_option (block_reason (evaluate st ModeCredits)) \<union>
                       set_option (block_reason (evaluate st ModeByok)) \<and>
    distinct (reasons ep)"
    unfolding d effective_of_def Let_def
    using evaluate_outcome [of st ModeCredits] evaluate_outcome [of st ModeByok]
    by (elim disjE exE) (simp_all add: insert_commute)
  with t st show ?thesis by blast
qed

theorem effective_agrees_with_evaluate_witness:
  "\<exists>ep. effective 0 1 (empty_db\<lparr>users := [1 \<mapsto> \<lparr>trial_used = True\<rparr>]\<rparr>) =
       (Inr ep, empty_db\<lparr>users := [1 \<mapsto> \<lparr>trial_used = True\<rparr>]\<rparr>) \<and> distinct (reasons ep)"
proof -
  let ?s = "empty_db\<lparr>users := [1 \<mapsto> \<lparr>trial_used = True\<rparr>]\<rparr>"
  obtain ep where "effective 0 1 ?s = (Inr ep, ?s)"
    by (simp add: effective_def load_policy_state_def op_bind_def Let_def empty_db_def)
  with effective_agrees_with_evaluate [OF this] show ?thesis by blast
qed

end
