(* ===== verification/Subscription.thy ===== *)
theory Subscription
  imports WalletFacts Policy
begin

text \<open>
  \<^verbatim>\<open>src/app/subscription/service.py\<close>: the operator's subscription grant with its durable
  idempotency anchor, and \<^verbatim>\<open>src/app/token_purchase/service.py\<close>: consumable purchases.
  SHA-256 and the StoreKit verifier are arguments of the definitions that use them.
\<close>

subsection \<open>Operator subscription grant\<close>

record admin_sub_result =
  as_status :: string
  as_plan :: string
  as_expires_at :: int
  as_credits_granted :: "int option"
  as_ledger_tx_id :: "uuid option"
  as_idempotent_replay :: bool

definition bool_str :: "bool \<Rightarrow> string" where
  "bool_str b = (if b then ''True'' else ''False'')"

text \<open>The canonical payload: plan, UTC instant and flag, joined by the unit separator.\<close>

definition canonical_payload :: "string \<Rightarrow> datetime \<Rightarrow> bool \<Rightarrow> string" where
  "canonical_payload plan expires_at gc =
     plan @ [CHR 0x1F] @ isoformat (utc (dt_instant expires_at)) @ [CHR 0x1F] @ bool_str gc"

definition payload_hash :: "(string \<Rightarrow> string) \<Rightarrow> string \<Rightarrow> datetime \<Rightarrow> bool \<Rightarrow> string" where
  "payload_hash sha256 plan expires_at gc = sha256 (canonical_payload plan expires_at gc)"

text \<open>\<open>INSERT INTO subscription_grant_events \<dots> ON CONFLICT DO NOTHING RETURNING\<close>.\<close>

definition insert_grant_event :: "uuid \<Rightarrow> string \<Rightarrow> grant_event \<Rightarrow> bool dbop" where
  "insert_grant_event uid key ev = (\<lambda>s.
     case grant_events s (uid, key) of
       Some _ \<Rightarrow> (Inr False, s)
     | None \<Rightarrow>
         if users s uid = None then (Inl DbError, s)
         else (Inr True, s\<lparr>grant_events := (grant_events s)((uid, key) \<mapsto> ev)\<rparr>))"

definition handle_existing_grant_event ::
  "settings \<Rightarrow> uuid \<Rightarrow> string \<Rightarrow> string \<Rightarrow> admin_sub_result dbop" where
  "handle_existing_grant_event cfg uid key phash =
     op_bind (op_read (\<lambda>s. grant_events s (uid, key))) (\<lambda>row.
       case row of
         None \<Rightarrow> raise_app ConflictError ''idempotency conflict''
       | Some ev \<Rightarrow>
           if ge_payload_hash ev \<noteq> phash
           then raise_app ConflictError ''idempotency key reused with different payload''
           else op_return
             \<lparr>as_status = ''active'', as_plan = ge_plan ev, as_expires_at = ge_expires_at ev,
              as_credits_granted =
                (if ge_grant_credits ev then Some (subscription_credits_per_period cfg) else None),
              as_ledger_tx_id = ge_ledger_tx_id ev, as_idempotent_replay = True\<rparr>)"

text \<open>The upsert of the subscription row.\<close>

definition upsert_subscription :: "uuid \<Rightarrow> string \<Rightarrow> int \<Rightarrow> unit dbop" where
  "upsert_subscription uid plan expires =
     op_modify (\<lambda>s. s\<lparr>subscriptions := (subscriptions s)(uid \<mapsto>
       \<lparr>sub_status = ''active'', sub_plan = Some plan, sub_expires_at = Some expires\<rparr>)\<rparr>)"

definition record_grant_tx :: "uuid \<Rightarrow> string \<Rightarrow> uuid \<Rightarrow> unit dbop" where
  "record_grant_tx uid key txid =
     op_modify (\<lambda>s. case grant_events s (uid, key) of
       None \<Rightarrow> s
     | Some ev \<Rightarrow> s\<lparr>grant_events :=
         (grant_events s)((uid, key) \<mapsto> ev\<lparr>ge_ledger_tx_id := Some txid\<rparr>)\<rparr>)"

definition admin_sub_grant_key :: "string \<Rightarrow> string" where
  "admin_sub_grant_key key = ''admin-sub-grant:'' @ key"

definition apply_new_grant ::
  "settings \<Rightarrow> uuid \<Rightarrow> string \<Rightarrow> datetime \<Rightarrow> bool \<Rightarrow> string \<Rightarrow> string \<Rightarrow> admin_sub_result dbop" where
  "apply_new_grant cfg uid plan expires_at gc key reason =
     op_bind (upsert_subscription uid plan (dt_instant expires_at)) (\<lambda>_.
     op_bind
       (if gc
        then op_bind (grant cfg uid (subscription_credits_per_period cfg) (admin_sub_grant_key key)
                        [(''source'', JStr ''admin_subscription_grant''), (''reason'', JStr reason)]
                        ''admin_subscription'') (\<lambda>g.
             op_bind (record_grant_tx uid key (gr_ledger_tx_id g)) (\<lambda>_.
             op_return (Some (subscription_credits_per_period cfg), Some (gr_ledger_tx_id g))))
        else op_return (None, None)) (\<lambda>(credits_granted, ledger_tx_id).
     op_bind (audit_record
       \<lparr>ev_user = uid, ev_type = EVENT_ADMIN_SUBSCRIPTION_GRANT,
        ev_payload =
          [(''actor'', JStr ''admin''), (''userId'', JStr (uuid_str uid)), (''plan'', JStr plan),
           (''expiresAt'', JStr (isoformat expires_at)), (''reason'', JStr reason),
           (''idempotencyKey'', JStr key), (''grantCredits'', JBool gc),
           (''ledgerTxId'', opt_str (map_option uuid_str ledger_tx_id))],
        ev_session = None\<rparr>) (\<lambda>_.
     op_return
       \<lparr>as_status = ''active'', as_plan = plan, as_expires_at = dt_instant expires_at,
        as_credits_granted = credits_granted, as_ledger_tx_id = ledger_tx_id,
        as_idempotent_replay = False\<rparr>)))"

definition admin_grant ::
  "(string \<Rightarrow> string) \<Rightarrow> settings \<Rightarrow> uuid \<Rightarrow> string \<Rightarrow> datetime \<Rightarrow> bool \<Rightarrow> string \<Rightarrow> string
   \<Rightarrow> admin_sub_result dbop" where
  "admin_grant sha256 cfg uid plan expires_at gc key reason =
     (let phash = payload_hash sha256 plan expires_at gc in
      op_bind (insert_grant_event uid key
        \<lparr>ge_payload_hash = phash, ge_plan = plan, ge_expires_at = dt_instant expires_at,
         ge_grant_credits = gc, ge_ledger_tx_id = None\<rparr>) (\<lambda>inserted.
      if \<not> inserted then handle_existing_grant_event cfg uid key phash
      else apply_new_grant cfg uid plan expires_at gc key reason))"

subsection \<open>Token purchase\<close>

record verified_transaction =
  vt_transaction_id :: string
  vt_product_id :: string

record purchase_result =
  pr_credits_added :: int
  pr_new_balance :: int
  pr_transaction_id :: string

definition require_active_subscription :: "int \<Rightarrow> uuid \<Rightarrow> unit dbop" where
  "require_active_subscription now uid =
     op_bind (load_policy_state now uid) (\<lambda>st.
       if subscription_status st \<noteq> SubActive
       then raise_app SubscriptionRequiredError ''an active subscription is required to buy tokens''
       else op_return ())"

definition credits_for_product :: "settings \<Rightarrow> string \<Rightarrow> int dbop" where
  "credits_for_product cfg product_id =
     (case map_of (token_products cfg) product_id of
        None \<Rightarrow> raise_app ValidationFailedError ''unknown token product''
      | Some c \<Rightarrow> op_return c)"

definition purchase ::
  "(string \<Rightarrow> app_error + verified_transaction) \<Rightarrow> settings \<Rightarrow> int \<Rightarrow> uuid \<Rightarrow> string
   \<Rightarrow> purchase_result dbop" where
  "purchase verify cfg now uid signed_transaction =
     op_bind (require_active_subscription now uid) (\<lambda>_.
       case verify signed_transaction of
         Inl e \<Rightarrow> op_raise (App e)
       | Inr verified \<Rightarrow>
           op_bind (credits_for_product cfg (vt_product_id verified)) (\<lambda>credits.
           op_bind (grant cfg uid credits (''token-purchase:'' @ vt_transaction_id verified)
                     [(''source'', JStr ''token_purchase''),
                      (''productId'', JStr (vt_product_id verified)),
                      (''transactionId'', JStr (vt_transaction_id verified))]
                     ''token_purchase'') (\<lambda>g.
           op_return \<lparr>pr_credits_added = (if gr_idempotent_replay g then 0 else credits),
                      pr_new_balance = gr_new_balance g,
                      pr_transaction_id = vt_transaction_id verified\<rparr>)))"

subsection \<open>Lemmas\<close>

lemma wallet_inv_frame [simp]:
  "wallet_inv (s\<lparr>grant_events := ge\<rparr>) = wallet_inv s"
  "wallet_inv (s\<lparr>subscriptions := sb\<rparr>) = wallet_inv s"
  "wallet_inv (s\<lparr>adapty_events := ae\<rparr>) = wallet_inv s"
  "wallet_inv (s\<lparr>cp_events := ce\<rparr>) = wallet_inv s"
  "wallet_inv (s\<lparr>agent_runs := rs\<rparr>) = wallet_inv s"
  "wallet_inv (s\<lparr>agent_snapshots := ss\<rparr>) = wallet_inv s"
  by (simp_all add: wallet_inv_def ledger_wf_def books_ok_def books_defs)

lemma wallet_inv_audit:
  assumes "ev_type e \<noteq> EVENT_BILLING_DEBT_REPAID" "ev_type e \<noteq> EVENT_BILLING_DEBIT_INSUFFICIENT"
  shows "op_preserves wallet_inv (audit_record e)"
proof (rule op_preservesI)
  fix s
  assume "wallet_inv s"
  let ?t = "snd (audit_record e s)"
  have "repaid_of u ?t = repaid_of u s" "debt_added_of u ?t = debt_added_of u s"
    "credits_of u ?t = credits_of u s" "debits_of u ?t = debits_of u s"
    "current_balance u ?t = current_balance u s" "current_debt u ?t = current_debt u s" for u
    using assms by (simp_all add: books_defs audit_row_of_def)
  then have "books_ok u ?t = books_ok u s" for u by (simp only: books_ok_def)
  moreover have "ledger_wf ?t = ledger_wf s" by (simp add: ledger_wf_def)
  ultimately show "wallet_inv ?t"
    using \<open>wallet_inv s\<close> unfolding wallet_inv_def by blast
qed

lemma admin_events_neutral [simp]:
  "EVENT_ADMIN_SUBSCRIPTION_GRANT \<noteq> EVENT_BILLING_DEBT_REPAID"
  "EVENT_ADMIN_SUBSCRIPTION_GRANT \<noteq> EVENT_BILLING_DEBIT_INSUFFICIENT"
  "EVENT_ADMIN_GRANT \<noteq> EVENT_BILLING_DEBT_REPAID"
  "EVENT_ADMIN_GRANT \<noteq> EVENT_BILLING_DEBIT_INSUFFICIENT"
  "EVENT_ADMIN_DEBIT \<noteq> EVENT_BILLING_DEBT_REPAID"
  "EVENT_ADMIN_DEBIT \<noteq> EVENT_BILLING_DEBIT_INSUFFICIENT"
  "EVENT_ADAPTY_SUBSCRIPTION \<noteq> EVENT_BILLING_DEBT_REPAID"
  "EVENT_ADAPTY_SUBSCRIPTION \<noteq> EVENT_BILLING_DEBIT_INSUFFICIENT"
  "EVENT_CLOUDPAYMENTS_PAYMENT \<noteq> EVENT_BILLING_DEBT_REPAID"
  "EVENT_CLOUDPAYMENTS_PAYMENT \<noteq> EVENT_BILLING_DEBIT_INSUFFICIENT"
  by (simp_all add: event_defs)

lemma insert_grant_event_inv [op_rules]: "op_preserves wallet_inv (insert_grant_event uid key ev)"
  by (rule op_preservesI) (auto simp: insert_grant_event_def split: option.splits)

lemma handle_existing_inv [op_rules]:
  "op_preserves wallet_inv (handle_existing_grant_event cfg uid key ph)"
  unfolding handle_existing_grant_event_def by (intro op_rules)

lemma upsert_subscription_inv [op_rules]: "op_preserves wallet_inv (upsert_subscription u p e)"
  by (rule op_preservesI) (simp add: upsert_subscription_def)

lemma record_grant_tx_inv [op_rules]: "op_preserves wallet_inv (record_grant_tx u k i)"
  by (rule op_preservesI) (simp add: record_grant_tx_def split: option.splits)

lemma load_policy_state_inv [op_rules]: "op_preserves I (load_policy_state now uid)"
  by (rule op_preservesI) simp

lemma apply_new_grant_inv [op_rules]:
  "op_preserves wallet_inv (apply_new_grant cfg uid plan ex gc key reason)"
  unfolding apply_new_grant_def by (intro op_rules wallet_inv_audit) simp_all

lemma admin_grant_inv [op_rules]:
  "op_preserves wallet_inv (admin_grant sha cfg uid plan ex gc key reason)"
  unfolding admin_grant_def Let_def by (intro op_rules)

lemma purchase_inv [op_rules]: "op_preserves wallet_inv (purchase verify cfg now uid tx)"
  unfolding purchase_def require_active_subscription_def credits_for_product_def
  by (cases "verify tx") (auto intro!: op_rules)

subsection \<open>What a grant leaves alone\<close>

definition outside_wallet ::
  "(uuid \<rightharpoonup> user_row) \<Rightarrow> (uuid \<rightharpoonup> subscription) \<Rightarrow> (uuid \<times> string \<rightharpoonup> grant_event) \<Rightarrow>
   (string \<rightharpoonup> webhook_event) \<times> (string \<rightharpoonup> webhook_event) \<times> (string \<times> uuid) list \<Rightarrow>
   (uuid \<rightharpoonup> byok_key) \<Rightarrow> db \<Rightarrow> bool" where
  "outside_wallet us sb ge ae bk s \<longleftrightarrow>
     users s = us \<and> subscriptions s = sb \<and> grant_events s = ge \<and>
     (adapty_events s, cp_events s, auth_devices s) = ae \<and>
     byok_keys s = bk"

lemma outside_wallet_statements [op_rules]:
  "op_preserves (outside_wallet us sb ge ae bk) (ensure_wallet u)"
  "op_preserves (outside_wallet us sb ge ae bk) (insert_ledger u ty a m k)"
  "op_preserves (outside_wallet us sb ge ae bk) (update_grant_clawback u a)"
  "op_preserves (outside_wallet us sb ge ae bk) (update_grant_plain u a)"
  "op_preserves (outside_wallet us sb ge ae bk) (audit_record e)"
  by (auto intro!: op_preservesI simp: outside_wallet_def ensure_wallet_def insert_ledger_def
      update_grant_clawback_def update_grant_plain_def Let_def split: option.splits)

lemma grant_outside_wallet:
  "op_preserves (outside_wallet us sb ge ae bk) (grant cfg uid a k m r)"
  unfolding grant_def by (intro op_rules)

lemma grant_frame [simp]:
  "users (snd (grant cfg uid a k m r s)) = users s"
  "subscriptions (snd (grant cfg uid a k m r s)) = subscriptions s"
  "grant_events (snd (grant cfg uid a k m r s)) = grant_events s"
  "adapty_events (snd (grant cfg uid a k m r s)) = adapty_events s"
  "cp_events (snd (grant cfg uid a k m r s)) = cp_events s"
  "auth_devices (snd (grant cfg uid a k m r s)) = auth_devices s"
  "byok_keys (snd (grant cfg uid a k m r s)) = byok_keys s"
  using op_preservesD [OF grant_outside_wallet, of "users s" "subscriptions s" "grant_events s"
      "(adapty_events s, cp_events s, auth_devices s)" "byok_keys s" s cfg uid a k m r]
  by (simp_all add: outside_wallet_def)

lemma load_policy_state_cong:
  assumes "users t = users s" "subscriptions t = subscriptions s" "byok_keys t = byok_keys s"
    and "load_policy_state now uid s = (Inr st, s)"
  shows "\<exists>st'. load_policy_state now uid t = (Inr st', t) \<and>
    subscription_status st' = subscription_status st"
  using assms by (auto simp: load_policy_state_def Let_def split: option.splits)

subsection \<open>A new operator grant, seen as a whole\<close>

definition new_grant_event :: "(string \<Rightarrow> string) \<Rightarrow> string \<Rightarrow> datetime \<Rightarrow> bool \<Rightarrow> grant_event" where
  "new_grant_event sha plan ex gc =
     \<lparr>ge_payload_hash = payload_hash sha plan ex gc, ge_plan = plan,
      ge_expires_at = dt_instant ex, ge_grant_credits = gc, ge_ledger_tx_id = None\<rparr>"

lemma admin_grant_event_after:
  assumes "admin_grant sha cfg uid plan ex gc key reason s = (Inr r, t)"
    and "grant_events s (uid, key) = None"
  shows "grant_events t (uid, key) =
      Some ((new_grant_event sha plan ex gc)\<lparr>ge_ledger_tx_id := as_ledger_tx_id r\<rparr>) \<and>
    as_plan r = plan \<and> as_expires_at r = dt_instant ex \<and> as_status r = ''active'' \<and>
    as_credits_granted r = (if gc then Some (subscription_credits_per_period cfg) else None)"
proof -
  let ?s1 = "s\<lparr>grant_events := (grant_events s)((uid, key) \<mapsto> new_grant_event sha plan ex gc)\<rparr>"
  from assms have new: "apply_new_grant cfg uid plan ex gc key reason ?s1 = (Inr r, t)"
    by (auto simp: admin_grant_def insert_grant_event_def op_bind_def new_grant_event_def Let_def
        split: if_splits)
  show ?thesis
  proof (cases gc)
    case False
    with new show ?thesis
      by (auto simp: apply_new_grant_def upsert_subscription_def op_eval new_grant_event_def)
  next
    case True
    let ?s2 = "snd (upsert_subscription uid plan (dt_instant ex) ?s1)"
    let ?g = "grant cfg uid (subscription_credits_per_period cfg) (admin_sub_grant_key key)
      [(''source'', JStr ''admin_subscription_grant''), (''reason'', JStr reason)]
      ''admin_subscription'' ?s2"
    from new True obtain g s3 where g: "?g = (Inr g, s3)"
      by (auto simp: apply_new_grant_def upsert_subscription_def op_bind_def split: prod.splits sum.splits)
    have "grant_events s3 = grant_events ?s2" using grant_frame(3) g by (metis snd_conv)
    then have "grant_events s3 (uid, key) = Some (new_grant_event sha plan ex gc)"
      by (simp add: upsert_subscription_def)
    with new True g show ?thesis
      by (auto simp: apply_new_grant_def upsert_subscription_def record_grant_tx_def op_bind_def
          new_grant_event_def)
  qed
qed

lemma admin_grant_existing:
  assumes "grant_events s (uid, key) = Some ev"
  shows "admin_grant sha cfg uid plan ex gc key reason s =
    (if ge_payload_hash ev \<noteq> payload_hash sha plan ex gc
     then Inl (App (error ConflictError ''idempotency key reused with different payload''))
     else Inr \<lparr>as_status = ''active'', as_plan = ge_plan ev, as_expires_at = ge_expires_at ev,
               as_credits_granted =
                 (if ge_grant_credits ev then Some (subscription_credits_per_period cfg) else None),
               as_ledger_tx_id = ge_ledger_tx_id ev, as_idempotent_replay = True\<rparr>, s)"
  using assms
  by (simp add: admin_grant_def insert_grant_event_def handle_existing_grant_event_def op_bind_def
      Let_def)

end
