(* ===== verification/Admin.thy ===== *)
theory Admin
  imports Subscription
begin

text \<open>
  \<^verbatim>\<open>src/app/admin/service.py\<close>: the operator surface over the wallet and the subscription
  service.
\<close>

definition user_exists :: "uuid \<Rightarrow> bool dbop" where
  "user_exists uid = op_read (\<lambda>s. users s uid \<noteq> None)"

definition require_user_exists :: "uuid \<Rightarrow> unit dbop" where
  "require_user_exists uid =
     op_bind (user_exists uid) (\<lambda>ex.
       if \<not> ex then raise_app UserNotFoundError ''user not found'' else op_return ())"

definition admin_event :: "string \<Rightarrow> uuid \<Rightarrow> int \<Rightarrow> string \<Rightarrow> string \<Rightarrow> uuid \<Rightarrow> bool \<Rightarrow> audit_event" where
  "admin_event ty uid amount reason key txid replay =
     \<lparr>ev_user = uid, ev_type = ty,
      ev_payload =
        [(''actor'', JStr ''admin''), (''userId'', JStr (uuid_str uid)), (''amount'', JInt amount),
         (''reason'', JStr reason), (''idempotencyKey'', JStr key),
         (''ledgerTxId'', JStr (uuid_str txid)), (''idempotentReplay'', JBool replay)],
      ev_session = None\<rparr>"

text \<open>\<open>AdminService.grant\<close>; its \<open>except ConflictError\<close> only counts and re-raises.\<close>

definition admin_service_grant ::
  "settings \<Rightarrow> uuid \<Rightarrow> int \<Rightarrow> string \<Rightarrow> string \<Rightarrow> grant_result dbop" where
  "admin_service_grant cfg uid amount key reason =
     op_bind (require_user_exists uid) (\<lambda>_.
     op_bind (op_catch
       (grant cfg uid amount key [(''source'', JStr ''admin''), (''reason'', JStr reason)] reason)
       op_raise) (\<lambda>g.
     op_bind (audit_record (admin_event EVENT_ADMIN_GRANT uid amount reason key (gr_ledger_tx_id g)
                             (gr_idempotent_replay g))) (\<lambda>_.
     op_return g)))"

text \<open>\<open>AdminService.debit\<close>; both handlers re-raise what they caught.\<close>

definition admin_service_debit ::
  "settings \<Rightarrow> uuid \<Rightarrow> int \<Rightarrow> string \<Rightarrow> string \<Rightarrow> grant_result dbop" where
  "admin_service_debit cfg uid amount key reason =
     op_bind (user_exists uid) (\<lambda>ex.
     if \<not> ex then raise_app UserNotFoundError ''user not found''
     else
       op_bind (op_catch
         (consume cfg uid amount key
            [(''source'', JStr ''admin_debit''), (''reason'', JStr reason)] None)
         op_raise) (\<lambda>c.
       op_bind (audit_record (admin_event EVENT_ADMIN_DEBIT uid amount reason key
                               (cr_ledger_tx_id c) (cr_idempotent_replay c))) (\<lambda>_.
       op_return \<lparr>gr_new_balance = cr_new_balance c, gr_ledger_tx_id = cr_ledger_tx_id c,
                  gr_idempotent_replay = cr_idempotent_replay c\<rparr>)))"

definition admin_subscription_grant ::
  "(string \<Rightarrow> string) \<Rightarrow> settings \<Rightarrow> uuid \<Rightarrow> string \<Rightarrow> datetime \<Rightarrow> bool \<Rightarrow> string \<Rightarrow> string
   \<Rightarrow> admin_sub_result dbop" where
  "admin_subscription_grant sha256 cfg uid plan expires_at gc key reason =
     op_bind (user_exists uid) (\<lambda>ex.
     if \<not> ex then raise_app UserNotFoundError ''user not found''
     else op_catch (admin_grant sha256 cfg uid plan expires_at gc key reason) op_raise)"

record admin_wallet_view =
  wv_user :: uuid
  wv_balance :: int
  wv_debt :: int
  wv_last_transactions :: "ledger_tx list"

definition admin_get_wallet_view :: "uuid \<Rightarrow> nat \<Rightarrow> admin_wallet_view dbop" where
  "admin_get_wallet_view uid last_n =
     op_bind (require_user_exists uid) (\<lambda>_.
     op_bind (get_wallet_view uid last_n) (\<lambda>(b, d, txs).
     op_return \<lparr>wv_user = uid, wv_balance = b, wv_debt = d, wv_last_transactions = txs\<rparr>))"

subsection \<open>Lemmas\<close>

lemma op_catch_reraise [simp]: "op_catch m op_raise = m"
  by (auto simp: op_catch_def fun_eq_iff split: prod.splits sum.splits)

lemma admin_event_type [simp]: "ev_type (admin_event ty u a r k i b) = ty"
  by (simp add: admin_event_def)

lemma user_exists_inv [op_rules]: "op_preserves I (user_exists u)" "op_preserves I (require_user_exists u)"
  unfolding user_exists_def require_user_exists_def by (intro op_rules)+

lemma admin_grant_wallet_inv [op_rules]:
  "op_preserves wallet_inv (admin_service_grant cfg u a k r)"
  unfolding admin_service_grant_def op_catch_reraise
  by (intro op_rules wallet_inv_audit) simp_all

lemma admin_debit_wallet_inv [op_rules]:
  "op_preserves wallet_inv (admin_service_debit cfg u a k r)"
  unfolding admin_service_debit_def op_catch_reraise
  by (intro op_rules wallet_inv_audit) simp_all

lemma admin_sub_wallet_inv [op_rules]:
  "op_preserves wallet_inv (admin_subscription_grant sha cfg u p e gc k r)"
  unfolding admin_subscription_grant_def op_catch_reraise by (intro op_rules)

lemma admin_view_wallet_inv [op_rules]: "op_preserves wallet_inv (admin_get_wallet_view u n)"
  unfolding admin_get_wallet_view_def by (intro op_rules)

lemma admin_debit_route:
  assumes "users s uid \<noteq> None" "0 < amount"
  shows "consume cfg uid amount key [(''source'', JStr ''admin_debit''), (''reason'', JStr reason)] None s =
    consume_plain uid amount key [(''source'', JStr ''admin_debit''), (''reason'', JStr reason)] None
      (ensured uid s)"
  using assms
  by (auto simp: consume_eval session_error_def consume_route_def agent_reconcile_applies_def
      AGENT_RUN_SOURCE_def)

text \<open>Every audit row of type \<open>admin_grant\<close>/\<open>admin_debit\<close> carries the idempotency key.\<close>

lemma admin_event_key_kept:
  "dict_get (audit_payload (audit_row_of rid (admin_event ty u a r k i b))) ''idempotencyKey'' = JStr k"
proof -
  have f: "\<not> is_sensitive_key ''idempotencyKey''" "lower ''idempotencyKey'' \<noteq> ''attachments''"
    by code_simp+
  show ?thesis
    using f by (simp add: audit_row_of_def dict_get_assert_no_secrets dict_get_dict_set
        map_of_dict_set admin_event_def)
qed

end
