(* ===== verification/BillingCommon.thy ===== *)
theory BillingCommon
  imports Subscription
begin

text \<open>
  What the two payment webhooks share: reading identifiers out of a parsed body
  (\<open>uuid.UUID(text)\<close>, \<open>str.strip\<close>) and the two-step user resolution of
  \<^verbatim>\<open>src/app/billing_common/resolve.py\<close>.
\<close>

subsection \<open>Text\<close>

definition is_space :: "char \<Rightarrow> bool" where
  "is_space c = (let n = of_char c :: nat in 9 \<le> n \<and> n \<le> 13 \<or> 28 \<le> n \<and> n \<le> 32)"

definition strip_chars :: "(char \<Rightarrow> bool) \<Rightarrow> string \<Rightarrow> string" where
  "strip_chars p s = rev (dropWhile p (rev (dropWhile p s)))"

definition strip :: "string \<Rightarrow> string" where
  "strip s = strip_chars is_space s"

text \<open>\<open>s.replace(p, "")\<close> for a non-empty \<open>p\<close>: occurrences are removed left to right.\<close>

function remove_sub :: "string \<Rightarrow> string \<Rightarrow> string" where
  "remove_sub p s =
     (if p = [] \<or> s = [] then s
      else if prefix p s then remove_sub p (drop (length p) s)
      else hd s # remove_sub p (tl s))"
  by pat_completeness auto
termination
  by (relation "measure (\<lambda>(p, s). length s)") auto

declare remove_sub.simps [simp del]

definition hex_value :: "char \<Rightarrow> nat option" where
  "hex_value c =
     (let n = of_char c :: nat in
      if 48 \<le> n \<and> n \<le> 57 then Some (n - 48)
      else if 97 \<le> n \<and> n \<le> 102 then Some (n - 87)
      else if 65 \<le> n \<and> n \<le> 70 then Some (n - 55)
      else None)"

text \<open>
  The digits of \<open>int(s, 16)\<close>: hexadecimal digits with single underscores between them. The flag
  says whether an underscore may come next.
\<close>

fun hex_number :: "nat \<Rightarrow> bool \<Rightarrow> string \<Rightarrow> nat option" where
  "hex_number acc sep [] = (if sep then Some acc else None)"
| "hex_number acc sep (c # cs) =
     (if c = CHR ''_'' then (if sep then hex_number acc False cs else None)
      else case hex_value c of
             None \<Rightarrow> None
           | Some v \<Rightarrow> hex_number (16 * acc + v) True cs)"

text \<open>
  \<open>int(s, 16)\<close> on text without a minus sign: surrounding blanks, a plus sign and a
  \<open>0x\<close> prefix are accepted.
\<close>

definition int16 :: "string \<Rightarrow> nat option" where
  "int16 s =
     (let t = strip s;
          u = (case t of c # cs \<Rightarrow> if c = CHR ''+'' then cs else t | [] \<Rightarrow> t)
      in if prefix ''0x'' u \<or> prefix ''0X'' u then
           (case drop 2 u of
              c # cs \<Rightarrow> if c = CHR ''_'' then hex_number 0 False cs else hex_number 0 False (c # cs)
            | [] \<Rightarrow> None)
         else hex_number 0 False u)"

text \<open>\<open>uuid.UUID(text)\<close>; \<open>None\<close> is \<open>ValueError\<close>.\<close>

definition uuid_parse :: "string \<Rightarrow> uuid option" where
  "uuid_parse t =
     (let h = remove_sub ''uuid:'' (remove_sub ''urn:'' t);
          h' = filter (\<lambda>c. c \<noteq> CHR ''-'') (strip_chars (\<lambda>c. c \<in> set ''{}'') h)
      in if length h' \<noteq> 32 then None else int16 h')"

subsection \<open>Fields of a parsed body\<close>

fun as_dict :: "json \<Rightarrow> dict" where
  "as_dict (JObj d) = d"
| "as_dict _ = []"

subsection \<open>Resolution\<close>

definition RESOLVED_VIA_USER_ID :: string where
  "RESOLVED_VIA_USER_ID = ''user_id''"

definition RESOLVED_VIA_DEVICE_ID :: string where
  "RESOLVED_VIA_DEVICE_ID = ''device_id''"

text \<open>
  \<open>SELECT user_id FROM auth_devices WHERE lower(device_id) = :x ORDER BY user_id LIMIT 1\<close>.
\<close>

definition device_owner :: "string \<Rightarrow> db \<Rightarrow> uuid option" where
  "device_owner x s =
     (case map snd (filter (\<lambda>(d, u). lower d = x) (auth_devices s)) of
        [] \<Rightarrow> None
      | u # us \<Rightarrow> Some (fold min us u))"

definition resolve_user :: "uuid \<Rightarrow> (uuid \<times> string) option dbop" where
  "resolve_user x = op_read (\<lambda>s.
     if users s x \<noteq> None then Some (x, RESOLVED_VIA_USER_ID)
     else case device_owner (uuid_str x) s of
            Some u \<Rightarrow> Some (u, RESOLVED_VIA_DEVICE_ID)
          | None \<Rightarrow> None)"

subsection \<open>Lemmas\<close>

lemma fold_min_mem: "fold min us (u :: nat) \<in> set (u # us)"
  by (induction us arbitrary: u) (auto simp: min_def split: if_splits)

lemma fold_min_Min: "fold min us (u :: nat) = Min (set (u # us))"
  by (rule Min.set_eq_fold [symmetric])

lemma fold_min_le: "v \<in> set (u # us) \<Longrightarrow> fold min us (u :: nat) \<le> v"
  unfolding fold_min_Min by (intro Min_le) auto

lemma device_owner_least:
  "device_owner x s = Some u \<Longrightarrow>
   (\<exists>d. (d, u) \<in> set (auth_devices s) \<and> lower d = x) \<and>
   (\<forall>d v. (d, v) \<in> set (auth_devices s) \<and> lower d = x \<longrightarrow> u \<le> v)"
proof -
  assume h: "device_owner x s = Some u"
  let ?us = "map snd (filter (\<lambda>(d, u). lower d = x) (auth_devices s))"
  have mem: "v \<in> set ?us \<longleftrightarrow> (\<exists>d. (d, v) \<in> set (auth_devices s) \<and> lower d = x)" for v
    by force
  from h obtain w ws where us: "?us = w # ws" and u: "u = fold min ws w"
    by (auto simp: device_owner_def split: list.splits)
  from fold_min_mem [of ws w] have "u \<in> set ?us" by (simp add: us u)
  moreover have "u \<le> v" if "v \<in> set ?us" for v
    using that fold_min_le [of v w ws] by (simp add: us u)
  ultimately show ?thesis using mem by blast
qed

lemma device_owner_None:
  "device_owner x s = None \<longleftrightarrow> (\<forall>(d, u) \<in> set (auth_devices s). lower d \<noteq> x)"
proof -
  have "device_owner x s = None \<longleftrightarrow> filter (\<lambda>(d, u). lower d = x) (auth_devices s) = []"
    by (auto simp: device_owner_def split: list.splits)
  then show ?thesis by (auto simp: filter_empty_conv)
qed

end
