(* ===== verification/Adapty.thy ===== *)
theory Adapty
  imports BillingCommon
begin

text \<open>
  \<^verbatim>\<open>src/app/billing_adapty/\<close>: the defensive parser and the subscription webhook.
  \<open>json.loads\<close> and \<open>datetime.fromisoformat\<close> are arguments (\<open>None\<close> is the
  \<open>ValueError\<close> the code catches).
\<close>

subsection \<open>Parser\<close>

definition EVENT_STARTED :: string where "EVENT_STARTED = ''subscription_started''"
definition EVENT_RENEWED :: string where "EVENT_RENEWED = ''subscription_renewed''"
definition EVENT_CANCELLED :: string where "EVENT_CANCELLED = ''subscription_cancelled''"
definition EVENT_EXPIRED :: string where "EVENT_EXPIRED = ''subscription_expired''"

definition GRANTING_EVENTS :: "string list" where
  "GRANTING_EVENTS = [EVENT_STARTED, EVENT_RENEWED]"

definition EXPIRING_EVENTS :: "string list" where
  "EXPIRING_EVENTS = [EVENT_CANCELLED, EVENT_EXPIRED]"

definition KNOWN_EVENTS :: "string list" where
  "KNOWN_EVENTS = GRANTING_EVENTS @ EXPIRING_EVENTS"

record parsed_event =
  pe_event_id :: string
  pe_event_type :: string
  pe_customer_user_id :: uuid
  pe_vendor_product_id :: "string option"
  pe_expires_at :: "datetime option"

fun first_str :: "json list \<Rightarrow> string option" where
  "first_str [] = None"
| "first_str (c # cs) = (case c of JStr s \<Rightarrow> if s \<noteq> [] then Some s else first_str cs | _ \<Rightarrow> first_str cs)"

definition parse_event_id :: "dict \<Rightarrow> string option" where
  "parse_event_id body = first_str [dict_get body ''event_id'', dict_get body ''id'']"

definition parse_event_type :: "dict \<Rightarrow> string" where
  "parse_event_type body = (case dict_get body ''event_type'' of JStr s \<Rightarrow> lower s | _ \<Rightarrow> [])"

definition parse_customer_user_id :: "dict \<Rightarrow> uuid option" where
  "parse_customer_user_id body =
     (let profile = as_dict (dict_get body ''profile'') in
      case first_str [dict_get body ''customer_user_id'', dict_get profile ''customer_user_id'',
                      dict_get body ''user_id''] of
        None \<Rightarrow> None
      | Some raw \<Rightarrow> uuid_parse raw)"

definition parse_vendor_product_id :: "dict \<Rightarrow> string option" where
  "parse_vendor_product_id body =
     (let props = as_dict (dict_get body ''event_properties'') in
      first_str [dict_get props ''vendor_product_id'', dict_get props ''product_id'',
                 dict_get body ''vendor_product_id'', dict_get body ''product_id''])"

definition parse_expires_at :: "(string \<Rightarrow> datetime option) \<Rightarrow> dict \<Rightarrow> datetime option" where
  "parse_expires_at fromisoformat body =
     (let props = as_dict (dict_get body ''event_properties'');
          profile = as_dict (dict_get body ''profile'')
      in case first_str [dict_get props ''expires_at'', dict_get profile ''expires_at''] of
           None \<Rightarrow> None
         | Some raw \<Rightarrow>
             let candidate = (if endswith raw ''Z'' then butlast raw @ ''+00:00'' else raw) in
             map_option (\<lambda>d. if dt_offset d = None then d\<lparr>dt_offset := Some 0\<rparr> else d)
               (fromisoformat candidate))"

subsection \<open>Service\<close>

record webhook_outcome =
  wo_result :: string
  wo_reason :: "string option"
  wo_event_type :: "string option"

definition ignored :: "string option \<Rightarrow> string option \<Rightarrow> webhook_outcome" where
  "ignored reason ty = \<lparr>wo_result = ''ignored'', wo_reason = reason, wo_event_type = ty\<rparr>"

definition plain_outcome :: "string \<Rightarrow> webhook_outcome" where
  "plain_outcome r = \<lparr>wo_result = r, wo_reason = None, wo_event_type = None\<rparr>"

definition tier_for :: "settings \<Rightarrow> string option \<Rightarrow> int" where
  "tier_for cfg product =
     (case map_of (adapty_product_tokens cfg) (case product of Some p \<Rightarrow> p | None \<Rightarrow> []) of
        Some n \<Rightarrow> if n \<noteq> 0 then n else adapty_subscription_tokens_grant cfg
      | None \<Rightarrow> adapty_subscription_tokens_grant cfg)"

definition adapty_key :: "string \<Rightarrow> string" where
  "adapty_key event_id = ''adapty-event:'' @ event_id"

definition adapty_grant :: "settings \<Rightarrow> parsed_event \<Rightarrow> grant_result dbop" where
  "adapty_grant cfg ev =
     grant cfg (pe_customer_user_id ev) (tier_for cfg (pe_vendor_product_id ev))
       (adapty_key (pe_event_id ev))
       [(''adaptyEventId'', JStr (pe_event_id ev)), (''eventType'', JStr (pe_event_type ev)),
        (''vendorProductId'', opt_str (pe_vendor_product_id ev))]
       ''adapty_subscription''"

text \<open>\<open>_upsert_subscription\<close>: the status and plan it returns, and the row it writes.\<close>

definition adapty_upsert_subscription :: "parsed_event \<Rightarrow> (string \<times> string option) dbop" where
  "adapty_upsert_subscription ev = (\<lambda>s.
     let uid = pe_customer_user_id ev in
     if pe_event_type ev \<in> set GRANTING_EVENTS
     then (Inr (''active'', pe_vendor_product_id ev),
           s\<lparr>subscriptions := (subscriptions s)(uid \<mapsto>
               \<lparr>sub_status = ''active'', sub_plan = pe_vendor_product_id ev,
                sub_expires_at = map_option dt_instant (pe_expires_at ev)\<rparr>)\<rparr>)
     else (case subscriptions s uid of
             None \<Rightarrow>
               (Inr (''expired'', None),
                s\<lparr>subscriptions := (subscriptions s)(uid \<mapsto>
                    \<lparr>sub_status = ''expired'', sub_plan = None, sub_expires_at = None\<rparr>)\<rparr>)
           | Some row \<Rightarrow>
               (Inr (''expired'', sub_plan row),
                s\<lparr>subscriptions := (subscriptions s)(uid \<mapsto> row\<lparr>sub_status := ''expired''\<rparr>)\<rparr>)))"

text \<open>\<open>INSERT INTO adapty_webhook_events \<dots> ON CONFLICT (event_id) DO NOTHING RETURNING\<close>.\<close>

definition insert_adapty_event :: "parsed_event \<Rightarrow> dict \<Rightarrow> bool dbop" where
  "insert_adapty_event ev body = (\<lambda>s.
     case adapty_events s (pe_event_id ev) of
       Some _ \<Rightarrow> (Inr False, s)
     | None \<Rightarrow>
         if users s (pe_customer_user_id ev) = None then (Inl DbError, s)
         else (Inr True, s\<lparr>adapty_events := (adapty_events s)(pe_event_id ev \<mapsto>
                 \<lparr>wh_user = pe_customer_user_id ev, wh_kind = pe_event_type ev,
                  wh_payload = JObj body\<rparr>)\<rparr>))"

definition adapty_apply :: "settings \<Rightarrow> parsed_event \<Rightarrow> dict \<Rightarrow> webhook_outcome dbop" where
  "adapty_apply cfg ev body =
     op_bind (insert_adapty_event ev body) (\<lambda>inserted.
     if \<not> inserted then op_return (plain_outcome ''duplicate'')
     else
       op_bind (adapty_upsert_subscription ev) (\<lambda>(status, plan).
       op_bind (if pe_event_type ev \<in> set GRANTING_EVENTS
                then op_bind (adapty_grant cfg ev) (\<lambda>_. op_return ())
                else op_return ()) (\<lambda>_.
       op_bind (audit_record
         \<lparr>ev_user = pe_customer_user_id ev, ev_type = EVENT_ADAPTY_SUBSCRIPTION,
          ev_payload =
            [(''adaptyEventId'', JStr (pe_event_id ev)), (''eventType'', JStr (pe_event_type ev)),
             (''status'', JStr status), (''plan'', opt_str plan),
             (''expiresAt'', opt_str (map_option isoformat (pe_expires_at ev))),
             (''customerId'', JStr (uuid_str (pe_customer_user_id ev)))],
          ev_session = None\<rparr>) (\<lambda>_.
       op_return (plain_outcome ''applied'')))))"

definition adapty_handle ::
  "(string \<Rightarrow> json option) \<Rightarrow> (string \<Rightarrow> datetime option) \<Rightarrow> settings \<Rightarrow> string
   \<Rightarrow> webhook_outcome dbop" where
  "adapty_handle loads fromisoformat cfg raw =
     (if raw = [] then op_return (ignored (Some ''empty_body'') None)
      else case loads raw of
        None \<Rightarrow> op_return (ignored (Some ''invalid_json'') None)
      | Some (JObj body) \<Rightarrow>
          (case parse_event_id body of
             None \<Rightarrow> op_return (ignored (Some ''missing_event_id'') None)
           | Some event_id \<Rightarrow>
               (case parse_customer_user_id body of
                  None \<Rightarrow> op_return (ignored (Some ''missing_customer_user_id'') None)
                | Some uid \<Rightarrow>
                    op_bind (op_read (\<lambda>s. users s uid \<noteq> None)) (\<lambda>known.
                    if \<not> known then op_return (ignored (Some ''user_not_found'') None)
                    else if parse_event_type body \<notin> set KNOWN_EVENTS
                    then op_return (ignored None (Some (parse_event_type body)))
                    else adapty_apply cfg
                      \<lparr>pe_event_id = event_id, pe_event_type = parse_event_type body,
                       pe_customer_user_id = uid,
                       pe_vendor_product_id = parse_vendor_product_id body,
                       pe_expires_at = parse_expires_at fromisoformat body\<rparr> body)))
      | Some _ \<Rightarrow> op_return (ignored (Some ''not_an_object'') None))"

subsection \<open>Lemmas\<close>

lemma insert_adapty_event_inv [op_rules]: "op_preserves wallet_inv (insert_adapty_event ev body)"
  by (rule op_preservesI) (auto simp: insert_adapty_event_def split: option.splits)

lemma adapty_upsert_inv [op_rules]: "op_preserves wallet_inv (adapty_upsert_subscription ev)"
  by (rule op_preservesI) (auto simp: adapty_upsert_subscription_def Let_def split: option.splits)

lemma adapty_apply_inv [op_rules]: "op_preserves wallet_inv (adapty_apply cfg ev body)"
  unfolding adapty_apply_def adapty_grant_def by (intro op_rules wallet_inv_audit) simp_all

lemma adapty_handle_inv [op_rules]: "op_preserves wallet_inv (adapty_handle loads fromiso cfg raw)"
  unfolding adapty_handle_def
  by (auto intro!: op_rules split: option.split json.split)

lemma adapty_upsert_frame:
  assumes "adapty_upsert_subscription ev s = (out, t)"
  shows "adapty_events t = adapty_events s \<and> users t = users s \<and> ledger t = ledger s \<and>
    wallets t = wallets s \<and> audit_logs t = audit_logs s \<and>
    (\<forall>u. u \<noteq> pe_customer_user_id ev \<longrightarrow> subscriptions t u = subscriptions s u)"
  using assms by (auto simp: adapty_upsert_subscription_def Let_def split: if_splits option.splits)

text \<open>After a call that did not raise, the event is on record, and the users are unchanged.\<close>

definition adapty_on_record :: "string \<Rightarrow> (uuid \<rightharpoonup> user_row) \<Rightarrow> db \<Rightarrow> bool" where
  "adapty_on_record eid us s \<longleftrightarrow> adapty_events s eid \<noteq> None \<and> users s = us"

lemma adapty_on_record_rules [op_rules]:
  "op_preserves (adapty_on_record eid us) (adapty_upsert_subscription ev)"
  "op_preserves (adapty_on_record eid us) (grant cfg u a k m r)"
  "op_preserves (adapty_on_record eid us) (audit_record e)"
proof -
  show "op_preserves (adapty_on_record eid us) (adapty_upsert_subscription ev)"
    using adapty_upsert_frame
    by (intro op_preservesI) (metis adapty_on_record_def prod.collapse)
qed (auto intro!: op_preservesI simp: adapty_on_record_def)

lemma adapty_apply_recorded:
  assumes "adapty_apply cfg ev body s = (Inr o', t)"
  shows "adapty_on_record (pe_event_id ev) (users s) t"
proof (rule op_bind_establishes [OF assms [unfolded adapty_apply_def]])
  show "adapty_on_record (pe_event_id ev) (users s) s1"
    if "insert_adapty_event ev body s = (Inr b, s1)" for b s1
    using that by (auto simp: insert_adapty_event_def adapty_on_record_def
        split: option.splits if_splits)
qed (unfold adapty_grant_def, intro op_rules)

lemma adapty_apply_duplicate:
  "adapty_events s (pe_event_id ev) \<noteq> None \<Longrightarrow>
   adapty_apply cfg ev body s = (Inr (plain_outcome ''duplicate''), s)"
  by (auto simp: adapty_apply_def insert_adapty_event_def op_bind_def)

end
