(* ===== verification/CloudPayments.thy ===== *)
theory CloudPayments
  imports BillingCommon
begin

text \<open>
  \<^verbatim>\<open>src/app/billing_cloudpayments/\<close>: the payment callback (only a trigger), the verification
  against the aggregator's API, the reconciliation and the crediting of each verified payment in a
  transaction of its own. Arguments: \<open>loads\<close> (\<open>json.loads\<close>), \<open>fromiso\<close>
  (\<open>datetime.fromisoformat\<close>), \<open>repr\<close> (\<open>str\<close> of a float or a container) and
  \<open>http\<close>, the answer of the aggregator. Logging is not modelled.
\<close>

subsection \<open>Parser\<close>

definition KIND_SUBSCRIPTION :: string where "KIND_SUBSCRIPTION = ''subscription''"
definition KIND_TOKENS :: string where "KIND_TOKENS = ''tokens''"
definition KIND_UNKNOWN :: string where "KIND_UNKNOWN = ''unknown''"

definition SUB_KEYWORDS :: "string list" where
  "SUB_KEYWORDS = [''week'', ''month'', ''year'', ''day'']"

definition SUB_SUFFIXES :: "string list" where
  "SUB_SUFFIXES = [''_nottrial'', ''_trial'']"

definition INTERVAL_UNITS :: "string list" where
  "INTERVAL_UNITS = [''year'', ''month'', ''week'', ''day'']"

definition EXPIRY_DAYS :: "(string \<times> int) list" where
  "EXPIRY_DAYS = [(''day'', 1), (''week'', 7), (''month'', 30), (''year'', 365)]"

text \<open>First non-empty text or non-boolean integer (as text).\<close>

fun cp_first_str :: "json list \<Rightarrow> string option" where
  "cp_first_str [] = None"
| "cp_first_str (c # cs) =
     (case c of
        JStr s \<Rightarrow> if s \<noteq> [] then Some s else cp_first_str cs
      | JInt i \<Rightarrow> Some (int_str i)
      | _ \<Rightarrow> cp_first_str cs)"

definition cp_parse_data :: "(string \<Rightarrow> json option) \<Rightarrow> dict \<Rightarrow> dict option" where
  "cp_parse_data loads body =
     (case dict_get body ''Data'' of
        JObj d \<Rightarrow> Some d
      | JStr raw \<Rightarrow> (case loads raw of Some (JObj d) \<Rightarrow> Some d | _ \<Rightarrow> None)
      | _ \<Rightarrow> None)"

text \<open>\<open>str(value)\<close>.\<close>

fun py_str :: "(json \<Rightarrow> string) \<Rightarrow> json \<Rightarrow> string" where
  "py_str repr (JStr s) = s"
| "py_str repr (JInt i) = int_str i"
| "py_str repr (JBool b) = bool_str b"
| "py_str repr JNull = ''None''"
| "py_str repr v = repr v"

text \<open>\<open>str(value or "").strip().lower()\<close>.\<close>

definition norm_str :: "(json \<Rightarrow> string) \<Rightarrow> json \<Rightarrow> string" where
  "norm_str repr v = lower (strip (if truthy v then py_str repr v else []))"

definition parse_status :: "(json \<Rightarrow> string) \<Rightarrow> dict \<Rightarrow> string" where
  "parse_status repr body = norm_str repr (dict_get body ''Status'')"

definition parse_operation_type :: "(json \<Rightarrow> string) \<Rightarrow> dict \<Rightarrow> string" where
  "parse_operation_type repr body = norm_str repr (dict_get body ''OperationType'')"

definition parse_gate :: "string \<Rightarrow> string \<Rightarrow> bool" where
  "parse_gate status operation_type \<longleftrightarrow> status = ''completed'' \<and> operation_type = ''payment''"

definition cp_parse_user_id :: "dict \<Rightarrow> dict \<Rightarrow> uuid option" where
  "cp_parse_user_id body data =
     (case cp_first_str [dict_get body ''AccountId'', dict_get data ''user_id''] of
        None \<Rightarrow> None
      | Some raw \<Rightarrow> uuid_parse (lower raw))"

definition is_digit :: "char \<Rightarrow> bool" where
  "is_digit c = (let n = of_char c :: nat in 48 \<le> n \<and> n \<le> 57)"

text \<open>\<open>re.match(r"^\d+_tokens", s, re.I)\<close>.\<close>

definition tokens_name :: "string \<Rightarrow> bool" where
  "tokens_name s =
     (takeWhile is_digit s \<noteq> [] \<and> prefix ''_tokens'' (lower (dropWhile is_digit s)))"

definition looks_like_subscription :: "string \<Rightarrow> bool" where
  "looks_like_subscription product_id =
     (let lowered = lower product_id in
      if list_ex (\<lambda>k. contains_sub k lowered) SUB_KEYWORDS then True
      else list_ex (\<lambda>x. endswith lowered x) SUB_SUFFIXES)"

definition classify_product :: "string \<Rightarrow> string option \<Rightarrow> string list \<Rightarrow> string" where
  "classify_product product_id unit token_product_ids =
     (if product_id \<in> set token_product_ids then KIND_TOKENS
      else if (case unit of Some u \<Rightarrow> u \<in> set INTERVAL_UNITS | None \<Rightarrow> False) then KIND_SUBSCRIPTION
      else if tokens_name product_id then KIND_TOKENS
      else if looks_like_subscription product_id then KIND_SUBSCRIPTION
      else KIND_UNKNOWN)"

definition infer_interval_unit_from_code :: "string \<Rightarrow> string option" where
  "infer_interval_unit_from_code code = find (\<lambda>k. contains_sub k (lower code)) SUB_KEYWORDS"

definition compute_expiry :: "int \<Rightarrow> string option \<Rightarrow> int \<Rightarrow> int" where
  "compute_expiry now unit count =
     (let days = (case map_of EXPIRY_DAYS (case unit of Some u \<Rightarrow> u | None \<Rightarrow> []) of
                    Some d \<Rightarrow> d | None \<Rightarrow> 30)
      in now + days * max count 1 * 86400000000)"

subsection \<open>Verification\<close>

datatype http_outcome = HttpTimeout | HttpConnectError | HttpResponse nat "json option"

record creditable_payment =
  cp_payment_id :: string
  cp_product_code :: string
  cp_payment_type :: string
  cp_status :: string
  cp_paid_at :: datetime

definition verification_unavailable :: exn where
  "verification_unavailable =
     App (error CloudPaymentsVerificationUnavailableError ''cloudpayments verification unavailable'')"

definition is_obj :: "json \<Rightarrow> bool" where
  "is_obj v = (case v of JObj _ \<Rightarrow> True | _ \<Rightarrow> False)"

definition list_payments :: "(uuid \<Rightarrow> http_outcome) \<Rightarrow> uuid \<Rightarrow> exn + json list" where
  "list_payments http device_id =
     (case http device_id of
        HttpTimeout \<Rightarrow> Inl verification_unavailable
      | HttpConnectError \<Rightarrow> Inl verification_unavailable
      | HttpResponse status body \<Rightarrow>
          if status = 404 then Inr []
          else if \<not> (200 \<le> status \<and> status < 300) then Inl verification_unavailable
          else (case body of
                  Some (JObj d) \<Rightarrow>
                    (case dict_get d ''data'' of
                       JList xs \<Rightarrow> Inr (filter is_obj xs)
                     | _ \<Rightarrow> Inl verification_unavailable)
                | _ \<Rightarrow> Inl verification_unavailable))"

definition parse_paid_at :: "(string \<Rightarrow> datetime option) \<Rightarrow> json \<Rightarrow> datetime option" where
  "parse_paid_at fromiso v =
     (case v of
        JStr raw \<Rightarrow>
          if strip raw = [] then None
          else
            let text = strip raw;
                text' = (if last text \<in> set ''Zz'' then butlast text @ ''+00:00'' else text)
            in map_option (\<lambda>d. if dt_offset d = None then d\<lparr>dt_offset := Some 0\<rparr> else d) (fromiso text')
      | _ \<Rightarrow> None)"

definition nonblank :: "json \<Rightarrow> string option" where
  "nonblank v = (case v of JStr s \<Rightarrow> if strip s = [] then None else Some (strip s) | _ \<Rightarrow> None)"

text \<open>One item of the aggregator's list: creditable, or passed over.\<close>

definition creditable_of ::
  "(json \<Rightarrow> string) \<Rightarrow> (string \<Rightarrow> datetime option) \<Rightarrow> string list \<Rightarrow> int \<Rightarrow> json \<Rightarrow> creditable_payment option" where
  "creditable_of repr fromiso paid_statuses cutoff item =
     (case item of
        JObj d \<Rightarrow>
          let status = norm_str repr (dict_get d ''status'') in
          if status \<notin> set paid_statuses then None
          else (case parse_paid_at fromiso (dict_get d ''paid_at'') of
            None \<Rightarrow> None
          | Some paid_at \<Rightarrow>
              if dt_instant paid_at < cutoff then None
              else (case nonblank (dict_get d ''payment_id'') of
                None \<Rightarrow> None
              | Some payment_id \<Rightarrow>
                  (case dict_get d ''product'' of
                     JObj product \<Rightarrow>
                       (case nonblank (dict_get product ''code'') of
                          None \<Rightarrow> None
                        | Some code \<Rightarrow>
                            (case nonblank (dict_get product ''payment_type'') of
                               None \<Rightarrow> None
                             | Some ty \<Rightarrow>
                                 Some \<lparr>cp_payment_id = payment_id, cp_product_code = code,
                                       cp_payment_type = lower ty, cp_status = status,
                                       cp_paid_at = paid_at\<rparr>))
                   | _ \<Rightarrow> None)))
      | _ \<Rightarrow> None)"

definition select_creditable_payments ::
  "(json \<Rightarrow> string) \<Rightarrow> (string \<Rightarrow> datetime option) \<Rightarrow> json list \<Rightarrow> string list \<Rightarrow> int \<Rightarrow> int
   \<Rightarrow> creditable_payment list" where
  "select_creditable_payments repr fromiso data paid_statuses now freshness_hours =
     (let cutoff = now - freshness_hours * 3600000000
      in List.map_filter (creditable_of repr fromiso paid_statuses cutoff) data)"

subsection \<open>Service\<close>

record cp_outcome =
  co_result :: string
  co_reason :: "string option"

definition cp_ignored :: "string \<Rightarrow> cp_outcome" where
  "cp_ignored r = \<lparr>co_result = ''ignored'', co_reason = Some r\<rparr>"

definition cp_result :: "string \<Rightarrow> cp_outcome" where
  "cp_result r = \<lparr>co_result = r, co_reason = None\<rparr>"

text \<open>Equal dictionary keys: \<open>True\<close>, \<open>1\<close> and \<open>1.0\<close> are the same key.\<close>

fun hash_key :: "json \<Rightarrow> json" where
  "hash_key (JBool b) = JFloat (if b then 1 else 0)"
| "hash_key (JInt i) = JFloat (of_int i)"
| "hash_key v = v"

text \<open>
  The loop of \<open>_list_payments_both\<close> that drops items with a \<open>payment_id\<close> already seen.
  A list or object as \<open>payment_id\<close> is not hashable.
\<close>

fun dedup_payments :: "json list \<Rightarrow> json list \<Rightarrow> exn + json list" where
  "dedup_payments seen [] = Inr []"
| "dedup_payments seen (item # items) =
     (case dict_get (as_dict item) ''payment_id'' of
        JNull \<Rightarrow> map_sum id ((#) item) (dedup_payments seen items)
      | JList _ \<Rightarrow> Inl (PyError ''TypeError'')
      | JObj _ \<Rightarrow> Inl (PyError ''TypeError'')
      | key \<Rightarrow>
          if hash_key key \<in> set seen then dedup_payments seen items
          else map_sum id ((#) item) (dedup_payments (hash_key key # seen) items))"

definition list_payments_both ::
  "(uuid \<Rightarrow> http_outcome) \<Rightarrow> uuid \<Rightarrow> uuid \<Rightarrow> exn + json list" where
  "list_payments_both http user_id other =
     (case list_payments http user_id of
        Inl e \<Rightarrow> Inl e
      | Inr xs \<Rightarrow>
          if other \<noteq> user_id
          then (case list_payments http other of
                  Inl e \<Rightarrow> Inl e
                | Inr ys \<Rightarrow> dedup_payments [] (xs @ ys))
          else dedup_payments [] xs)"

text \<open>Kind, credits and reason of a payment; \<open>None\<close> is a payment that is skipped.\<close>

definition payment_terms :: "settings \<Rightarrow> creditable_payment \<Rightarrow> (string \<times> int \<times> string) option" where
  "payment_terms cfg p =
     (let one_time_ids = map fst (token_products cfg);
          kind0 = (if cp_payment_type p = ''one_time'' then Some KIND_TOKENS
                   else if cp_payment_type p = ''subscription'' then Some KIND_SUBSCRIPTION
                   else None)
      in case kind0 of
           None \<Rightarrow> None
         | Some k0 \<Rightarrow>
             let kind = (if k0 = KIND_TOKENS \<and> cp_product_code p \<notin> set one_time_ids \<and>
                            classify_product (cp_product_code p) None one_time_ids = KIND_SUBSCRIPTION
                         then KIND_SUBSCRIPTION else k0)
             in if kind = KIND_TOKENS then
                  (case map_of (token_products cfg) (cp_product_code p) of
                     None \<Rightarrow> None
                   | Some c \<Rightarrow> if c \<le> 0 then None else Some (kind, c, ''cloudpayments_tokens''))
                else Some (kind,
                  (case map_of (cloudpayments_product_tokens cfg) (cp_product_code p) of
                     Some c \<Rightarrow> c | None \<Rightarrow> cloudpayments_subscription_tokens_grant cfg),
                  ''cloudpayments_subscription''))"

definition cp_key :: "string \<Rightarrow> string" where
  "cp_key payment_id = ''cp-txn:'' @ payment_id"

definition insert_cp_event :: "creditable_payment \<Rightarrow> uuid \<Rightarrow> string \<Rightarrow> bool dbop" where
  "insert_cp_event p uid kind = (\<lambda>s.
     case cp_events s (cp_payment_id p) of
       Some _ \<Rightarrow> (Inr False, s)
     | None \<Rightarrow>
         if users s uid = None then (Inl DbError, s)
         else (Inr True, s\<lparr>cp_events := (cp_events s)(cp_payment_id p \<mapsto>
                 \<lparr>wh_user = uid, wh_kind = kind,
                  wh_payload = JObj
                    [(''paymentId'', JStr (cp_payment_id p)), (''productCode'', JStr (cp_product_code p)),
                     (''paymentType'', JStr (cp_payment_type p)), (''status'', JStr (cp_status p)),
                     (''kind'', JStr kind)]\<rparr>)\<rparr>))"

text \<open>
  \<open>_apply_payment\<close>: first the statements between \<open>try\<close> and the commit, then the
  method; any exception rolls back what this payment has written and is re-raised.
\<close>

definition cp_credit_rest ::
  "settings \<Rightarrow> int \<Rightarrow> creditable_payment \<Rightarrow> uuid \<Rightarrow> string \<Rightarrow> int \<Rightarrow> string \<Rightarrow> string dbop" where
  "cp_credit_rest cfg now p uid kind credits reason =
     (let expires = (if kind = KIND_SUBSCRIPTION
            then Some (compute_expiry now (infer_interval_unit_from_code (cp_product_code p)) 1)
            else None)
      in
      op_bind (case expires of
                 Some t \<Rightarrow> upsert_subscription uid (cp_product_code p) t
               | None \<Rightarrow> op_return ()) (\<lambda>_.
      op_bind (grant cfg uid credits (cp_key (cp_payment_id p))
        [(''paymentId'', JStr (cp_payment_id p)), (''productCode'', JStr (cp_product_code p)),
         (''kind'', JStr kind)] reason) (\<lambda>_.
      op_bind (audit_record
        \<lparr>ev_user = uid, ev_type = EVENT_CLOUDPAYMENTS_PAYMENT,
         ev_payload =
           [(''transactionId'', JStr (cp_payment_id p)), (''paymentId'', JStr (cp_payment_id p)),
            (''productId'', JStr (cp_product_code p)), (''kind'', JStr kind),
            (''semantics'', JStr kind), (''paymentType'', JStr (cp_payment_type p)),
            (''status'', opt_str (if kind = KIND_SUBSCRIPTION then Some ''active'' else None)),
            (''plan'', opt_str (if kind = KIND_SUBSCRIPTION then Some (cp_product_code p) else None)),
            (''expiresAt'', opt_str (map_option (\<lambda>t. isoformat (utc t)) expires)),
            (''creditsGranted'', JInt credits),
            (''paidAt'', JStr (isoformat (cp_paid_at p)))],
         ev_session = None\<rparr>) (\<lambda>_.
      op_return ''credited''))))"

definition cp_credit_body ::
  "settings \<Rightarrow> int \<Rightarrow> creditable_payment \<Rightarrow> uuid \<Rightarrow> string \<Rightarrow> int \<Rightarrow> string \<Rightarrow> string dbop" where
  "cp_credit_body cfg now p uid kind credits reason =
     op_bind (insert_cp_event p uid kind) (\<lambda>inserted.
       if \<not> inserted then op_return ''duplicate''
       else cp_credit_rest cfg now p uid kind credits reason)"

definition cp_apply_payment :: "settings \<Rightarrow> int \<Rightarrow> creditable_payment \<Rightarrow> uuid \<Rightarrow> string dbop" where
  "cp_apply_payment cfg now p uid =
     (case payment_terms cfg p of
        None \<Rightarrow> op_return ''skipped''
      | Some (kind, credits, reason) \<Rightarrow>
          session_scope (cp_credit_body cfg now p uid kind credits reason))"

text \<open>The loop over the creditable payments: counts of credited and skipped ones.\<close>

fun cp_apply_all ::
  "settings \<Rightarrow> int \<Rightarrow> uuid \<Rightarrow> nat \<times> nat \<Rightarrow> creditable_payment list \<Rightarrow> (nat \<times> nat) dbop" where
  "cp_apply_all cfg now uid (credited, skipped) [] = op_return (credited, skipped)"
| "cp_apply_all cfg now uid (credited, skipped) (p # ps) =
     op_bind (cp_apply_payment cfg now p uid) (\<lambda>applied.
       cp_apply_all cfg now uid
         (if applied = ''credited'' then (credited + 1, skipped)
          else if applied = ''skipped'' then (credited, skipped + 1)
          else (credited, skipped)) ps)"

text \<open>
  \<open>handle\<close> in three parts: reading the callback (an answer at once, or the identifier it
  names), settling once the user is resolved, and the method as a whole.
\<close>

definition cp_trigger ::
  "(string \<Rightarrow> json option) \<Rightarrow> (json \<Rightarrow> string) \<Rightarrow> string \<Rightarrow> cp_outcome + uuid" where
  "cp_trigger loads repr raw =
     (if raw = [] then Inl (cp_ignored ''empty_body'')
      else case loads raw of
        None \<Rightarrow> Inl (cp_ignored ''invalid_json'')
      | Some (JObj body) \<Rightarrow>
          if \<not> parse_gate (parse_status repr body) (parse_operation_type repr body)
          then Inl (cp_ignored ''not_a_completed_payment'')
          else
            let data = (case cp_parse_data loads body of Some d \<Rightarrow> d | None \<Rightarrow> []) in
            (case cp_parse_user_id body data of
               None \<Rightarrow> Inl (cp_ignored ''invalid_account_id'')
             | Some device_id \<Rightarrow> Inr device_id)
      | Some _ \<Rightarrow> Inl (cp_ignored ''not_an_object''))"

definition cp_settle ::
  "(string \<Rightarrow> datetime option) \<Rightarrow> (json \<Rightarrow> string) \<Rightarrow> (uuid \<Rightarrow> http_outcome)
   \<Rightarrow> settings \<Rightarrow> int \<Rightarrow> uuid \<Rightarrow> uuid \<Rightarrow> cp_outcome dbop" where
  "cp_settle fromiso repr http cfg now uid device_id =
     (case list_payments_both http uid device_id of
        Inl e \<Rightarrow> op_raise e
      | Inr payments \<Rightarrow>
          let creditable = select_creditable_payments repr fromiso payments
                (cloudpayments_paid_statuses cfg) now (cloudpayments_payment_freshness_hours cfg)
          in if creditable = [] then op_return (cp_ignored ''no_creditable_payment'')
             else op_bind (cp_apply_all cfg now uid (0, 0) creditable) (\<lambda>(credited, skipped).
               op_return
                 (if credited \<ge> 1 then cp_result ''applied''
                  else if skipped \<ge> 1 then cp_ignored ''payment_skipped''
                  else cp_result ''duplicate'')))"

definition cp_handle ::
  "(string \<Rightarrow> json option) \<Rightarrow> (string \<Rightarrow> datetime option) \<Rightarrow> (json \<Rightarrow> string) \<Rightarrow> (uuid \<Rightarrow> http_outcome)
   \<Rightarrow> settings \<Rightarrow> int \<Rightarrow> string \<Rightarrow> cp_outcome dbop" where
  "cp_handle loads fromiso repr http cfg now raw =
     (if cloudpayments_api_token cfg = []
      then raise_app CloudPaymentsWebhookMisconfiguredError ''cloudpayments api token not configured''
      else case cp_trigger loads repr raw of
        Inl out \<Rightarrow> op_return out
      | Inr device_id \<Rightarrow>
          op_bind (resolve_user device_id) (\<lambda>resolved.
            case resolved of
              None \<Rightarrow> op_return (cp_ignored ''user_not_found'')
            | Some (uid, _) \<Rightarrow> cp_settle fromiso repr http cfg now uid device_id))"

subsection \<open>Lemmas\<close>

lemma insert_cp_event_inv [op_rules]: "op_preserves wallet_inv (insert_cp_event p uid kind)"
  by (rule op_preservesI) (auto simp: insert_cp_event_def split: option.splits)

lemma cp_credit_rest_inv [op_rules]:
  "op_preserves wallet_inv (cp_credit_rest cfg now p uid kind credits reason)"
  unfolding cp_credit_rest_def Let_def by (intro op_rules wallet_inv_audit) simp_all

lemma cp_apply_payment_inv [op_rules]: "op_preserves wallet_inv (cp_apply_payment cfg now p uid)"
  unfolding cp_apply_payment_def cp_credit_body_def by (intro op_rules op_preserves_imp_ok)

lemma cp_apply_all_inv [op_rules]: "op_preserves wallet_inv (cp_apply_all cfg now uid n ps)"
proof (induction ps arbitrary: n)
  case Nil
  then show ?case by (cases n) (auto intro!: op_preservesI)
next
  case (Cons p ps)
  then show ?case by (cases n) (simp, intro op_rules Cons.IH)
qed

lemma cp_handle_inv [op_rules]:
  "op_preserves wallet_inv (cp_handle loads fromiso repr http cfg now raw)"
  unfolding cp_handle_def cp_settle_def resolve_user_def Let_def
  by (auto intro!: op_rules split: option.split json.split sum.split)

text \<open>A payment is settled: on record, or one the service skips.\<close>

definition settled :: "settings \<Rightarrow> creditable_payment \<Rightarrow> db \<Rightarrow> bool" where
  "settled cfg p s \<longleftrightarrow> payment_terms cfg p = None \<or> cp_events s (cp_payment_id p) \<noteq> None"

lemma settled_apply:
  assumes "settled cfg p s"
  shows "\<exists>o'. cp_apply_payment cfg now p uid s = (Inr o', s) \<and> o' \<noteq> ''credited''"
  using assms
  by (cases "payment_terms cfg p")
    (auto simp: settled_def cp_apply_payment_def cp_credit_body_def insert_cp_event_def
      session_scope_def op_bind_def)

lemma settled_apply_all:
  "(\<forall>p \<in> set ps. settled cfg p s) \<Longrightarrow>
   \<exists>k. cp_apply_all cfg now uid (c, n) ps s = (Inr (c, k), s)"
proof (induction ps arbitrary: c n)
  case Nil
  then show ?case by simp
next
  case (Cons p ps)
  then obtain o' where o': "cp_apply_payment cfg now p uid s = (Inr o', s)" "o' \<noteq> ''credited''"
    using settled_apply by fastforce
  with Cons show ?case by (simp add: op_bind_def)
qed

lemma settled_steps [op_rules]:
  "op_preserves (settled cfg p) (grant cfg' u a k m r)"
  "op_preserves (settled cfg p) (upsert_subscription u pl t)"
  "op_preserves (settled cfg p) (audit_record e)"
  "op_preserves (settled cfg p) (insert_cp_event p' uid kind)"
  by (auto intro!: op_preservesI
      simp: settled_def upsert_subscription_def insert_cp_event_def split: option.splits)

lemma settled_rest [op_rules]:
  "op_preserves (settled cfg p) (cp_credit_rest cfg' now p' uid kind credits reason)"
  unfolding cp_credit_rest_def Let_def by (intro op_rules)

lemma settled_kept [op_rules]: "op_preserves (settled cfg p) (cp_apply_payment cfg' now p' uid)"
  unfolding cp_apply_payment_def cp_credit_body_def by (intro op_rules op_preserves_imp_ok)

lemma settled_kept_all [op_rules]: "op_preserves (settled cfg p) (cp_apply_all cfg' now uid n ps)"
proof (induction ps arbitrary: n)
  case Nil
  then show ?case by (cases n) (auto intro!: op_preservesI)
next
  case (Cons p ps)
  then show ?case by (cases n) (simp, intro op_rules Cons.IH)
qed

lemma cp_apply_payment_settles:
  assumes "cp_apply_payment cfg now p uid s = (Inr o', t)"
  shows "settled cfg p t"
proof (cases "payment_terms cfg p")
  case None
  then show ?thesis by (simp add: settled_def)
next
  case (Some terms)
  then obtain kind credits reason where terms: "payment_terms cfg p = Some (kind, credits, reason)"
    by (cases terms) auto
  let ?rest = "\<lambda>inserted. if \<not> inserted then op_return ''duplicate''
       else cp_credit_rest cfg now p uid kind credits reason"
  have body: "op_bind (insert_cp_event p uid kind) ?rest s = (Inr o', t)"
    using assms
    by (simp add: cp_apply_payment_def terms cp_credit_body_def session_scope_def
        split: prod.splits sum.splits)
  have ins: "settled cfg p s1" if "insert_cp_event p uid kind s = (Inr b, s1)" for b s1
    using that by (auto simp: insert_cp_event_def settled_def split: option.splits if_splits)
  have rest: "op_preserves (settled cfg p) (?rest b)" for b by (intro op_rules)
  show ?thesis by (rule op_bind_establishes [OF body ins rest])
qed

end
