(* ===== verification/BillingClaims.thy ===== *)
theory BillingClaims
  imports WalletClaims Admin Adapty CloudPayments
begin

text \<open>
  What the billing surfaces promise: the operator's subscription grant, token purchases, the
  operator debit, the Adapty webhook and the CloudPayments webhook. The instances run on the small
  database of the wallet claims.
\<close>

subsection \<open>Operator subscription grant\<close>

text \<open>
  The idempotency key of an operator's subscription grant is anchored durably: after a
  successful grant, the same request replays the stored plan, expiry, credits and ledger
  transaction and changes nothing; a request with the same key whose payload hashes differently is
  refused with a conflict and changes nothing either.
\<close>

theorem subscription_grant_anchored:
  assumes "admin_grant sha cfg uid plan ex gc key reason s = (Inr r, t)"
    and "grant_events s (uid, key) = None"
  shows "admin_grant sha cfg uid plan ex gc key reason' t = (Inr (r\<lparr>as_idempotent_replay := True\<rparr>), t) \<and>
    (payload_hash sha plan' ex' gc' \<noteq> payload_hash sha plan ex gc \<longrightarrow>
       (\<exists>e. admin_grant sha cfg uid plan' ex' gc' key reason' t = (Inl (App e), t) \<and>
            err_cls e = ConflictError))"
proof -
  have ev: "grant_events t (uid, key) =
      Some ((new_grant_event sha plan ex gc)\<lparr>ge_ledger_tx_id := as_ledger_tx_id r\<rparr>)"
    and r: "as_plan r = plan" "as_expires_at r = dt_instant ex" "as_status r = ''active''"
      "as_credits_granted r = (if gc then Some (subscription_credits_per_period cfg) else None)"
    using admin_grant_event_after [OF assms] by auto
  show ?thesis
    using r by (auto simp: admin_grant_existing [OF ev] new_grant_event_def mk_error_def
        intro!: admin_sub_result.equality)
qed

definition demo_date :: datetime where
  "demo_date = \<lparr>dt_wall = 1767225600000000, dt_offset = Some 0\<rparr>"

lemma demo_db_facts [simp]:
  "users demo_db (Suc 0) = Some \<lparr>trial_used = False\<rparr>" "users demo_db 2 = Some \<lparr>trial_used = True\<rparr>"
  "wallets demo_db (Suc 0) = Some \<lparr>balance = 0, debt = 0\<rparr>" "grant_events demo_db = Map.empty"
  "adapty_events demo_db = Map.empty" "cp_events demo_db = Map.empty" "ledger demo_db = []"
  "subscriptions demo_db = Map.empty" "byok_keys demo_db = Map.empty" "next_id demo_db = 1"
  by (simp_all add: demo_db_def empty_db_def)

lemma demo_existing [simp]:
  "ledger s = [] \<Longrightarrow> existing_tx u k s = None"
  by (simp add: existing_tx_def)

lemma demo_admin_grant_run:
  "\<exists>r t. admin_grant id demo_cfg 1 ''pro'' demo_date True ''k1'' ''gift'' demo_db = (Inr r, t)"
  by (simp add: admin_grant_def insert_grant_event_def apply_new_grant_def upsert_subscription_def
      record_grant_tx_def op_bind_def Let_def grant_fresh demo_cfg_def)

theorem subscription_grant_anchored_witness:
  "\<exists>r t. admin_grant id demo_cfg 1 ''pro'' demo_date True ''k1'' ''gift'' demo_db = (Inr r, t) \<and>
     admin_grant id demo_cfg 1 ''pro'' demo_date True ''k1'' ''again'' t =
       (Inr (r\<lparr>as_idempotent_replay := True\<rparr>), t)"
proof -
  obtain r t where run: "admin_grant id demo_cfg 1 ''pro'' demo_date True ''k1'' ''gift'' demo_db = (Inr r, t)"
    using demo_admin_grant_run by blast
  with subscription_grant_anchored [OF run] show ?thesis by auto
qed

subsection \<open>Token purchase\<close>

text \<open>
  A purchase needs an active subscription whatever the receipt says: without one it
  raises and leaves the database untouched, so nothing can be credited by a receipt alone.
\<close>

theorem purchase_needs_subscription:
  assumes "load_policy_state now uid s = (Inr st, s)" and "subscription_status st \<noteq> SubActive"
  shows "purchase verify cfg now uid receipt s =
    (Inl (App (error SubscriptionRequiredError ''an active subscription is required to buy tokens'')), s)"
  using assms by (simp add: purchase_def require_active_subscription_def op_bind_def)

theorem purchase_needs_subscription_witness:
  "purchase (\<lambda>_. Inr \<lparr>vt_transaction_id = ''t1'', vt_product_id = ''tok.100''\<rparr>) demo_cfg 0 1 ''jws'' demo_db =
    (Inl (App (error SubscriptionRequiredError ''an active subscription is required to buy tokens'')), demo_db)"
  by (rule purchase_needs_subscription
      [where st = "\<lparr>subscription_status = SubNone, ps_trial_used = False, credits_balance = 0,
                   byok_enabled = False, byok_status = ByokMissing\<rparr>"])
    (simp_all add: load_policy_state_def effective_subscription_status_def)

text \<open>
  A receipt is credited once: a successful purchase can be repeated with any signed
  transaction that verifies to the same transaction and product; each repetition reports zero added
  credits and changes nothing.
\<close>

theorem receipt_is_credited_once:
  assumes "purchase verify cfg now uid receipt s = (Inr r, t)"
    and "verify receipt' = verify receipt"
  shows "purchase verify cfg now uid receipt' t =
    (Inr \<lparr>pr_credits_added = 0, pr_new_balance = current_balance uid t,
          pr_transaction_id = pr_transaction_id r\<rparr>, t)"
proof -
  from assms(1) obtain st where st: "load_policy_state now uid s = (Inr st, s)"
    "subscription_status st = SubActive"
    unfolding purchase_def require_active_subscription_def op_bind_Inr_iff
    by (auto split: if_splits dest!: load_policy_state_status [THEN conjunct1] simp: op_bind_Inr_iff)
  let ?body = "\<lambda>v credits. grant cfg uid credits (''token-purchase:'' @ vt_transaction_id v)
      [(''source'', JStr ''token_purchase''), (''productId'', JStr (vt_product_id v)),
       (''transactionId'', JStr (vt_transaction_id v))] ''token_purchase''"
  obtain v credits g where v: "verify receipt = Inr v"
    and c: "map_of (token_products cfg) (vt_product_id v) = Some credits"
    and g: "?body v credits s = (Inr g, t)"
    and r: "pr_transaction_id r = vt_transaction_id v"
    using assms(1) st
    by (auto simp: purchase_def require_active_subscription_def credits_for_product_def op_bind_def
        split: sum.splits option.splits prod.splits)
  have fr: "users t = users s" "subscriptions t = subscriptions s" "byok_keys t = byok_keys s"
    using grant_frame [of cfg uid credits] g by (metis snd_conv)+
  obtain st' where st': "load_policy_state now uid t = (Inr st', t)" "subscription_status st' = SubActive"
    using load_policy_state_cong [OF fr st(1)] st(2) by auto
  have "fst (?body v credits s) = Inr g" using g by simp
  from grant_again [OF this] g have again: "?body v credits t =
      (Inr \<lparr>gr_new_balance = current_balance uid t, gr_ledger_tx_id = gr_ledger_tx_id g,
            gr_idempotent_replay = True\<rparr>, t)"
    by simp
  show ?thesis
    using st' v c r assms(2) again
    by (simp add: purchase_def require_active_subscription_def credits_for_product_def op_bind_def)
qed

text \<open>User 1 with an active subscription.\<close>

definition demo_subscribed :: db where
  "demo_subscribed = demo_db\<lparr>subscriptions :=
     [1 \<mapsto> \<lparr>sub_status = ''active'', sub_plan = Some ''pro'', sub_expires_at = None\<rparr>]\<rparr>"

definition demo_verify :: "string \<Rightarrow> app_error + verified_transaction" where
  "demo_verify j = (if j = ''jws'' \<or> j = ''jws2''
     then Inr \<lparr>vt_transaction_id = ''t1'', vt_product_id = ''tok.100''\<rparr>
     else Inl (error ValidationFailedError ''invalid transaction''))"

lemma demo_subscribed_facts [simp]:
  "users demo_subscribed = users demo_db" "byok_keys demo_subscribed = Map.empty"
  "wallets demo_subscribed (Suc 0) = Some \<lparr>balance = 0, debt = 0\<rparr>" "ledger demo_subscribed = []"
  "subscriptions demo_subscribed (Suc 0) =
     Some \<lparr>sub_status = ''active'', sub_plan = Some ''pro'', sub_expires_at = None\<rparr>"
  by (simp_all add: demo_subscribed_def)

lemma demo_purchase_run:
  "\<exists>r t. purchase demo_verify demo_cfg 0 1 ''jws'' demo_subscribed = (Inr r, t)"
  by (simp add: purchase_def require_active_subscription_def load_policy_state_def op_bind_def Let_def
      effective_subscription_status_def demo_verify_def credits_for_product_def grant_fresh demo_cfg_def)

theorem receipt_is_credited_once_witness:
  "\<exists>r t. purchase demo_verify demo_cfg 0 1 ''jws'' demo_subscribed = (Inr r, t) \<and>
     (\<exists>r'. purchase demo_verify demo_cfg 0 1 ''jws2'' t = (Inr r', t) \<and> pr_credits_added r' = 0)"
proof -
  obtain r t where run: "purchase demo_verify demo_cfg 0 1 ''jws'' demo_subscribed = (Inr r, t)"
    using demo_purchase_run by blast
  have "demo_verify ''jws2'' = demo_verify ''jws''" by (simp add: demo_verify_def)
  from receipt_is_credited_once [OF run this] run show ?thesis by simp
qed

subsection \<open>Operator debit\<close>

text \<open>
  An operator debit is all or nothing and never creates debt: when it returns, the balance
  went down by exactly the amount (or by nothing, when it is a replay) and the debt is unchanged;
  when it raises, no ledger row, audit row, balance or debt has changed.
\<close>

theorem operator_debit_all_or_nothing:
  assumes "admin_service_debit cfg uid amount key reason s = (out, t)"
  shows "case out of
      Inr g \<Rightarrow> current_balance uid s - current_balance uid t =
                 (if gr_idempotent_replay g then 0 else amount) \<and>
               current_debt uid t = current_debt uid s \<and> gr_new_balance g = current_balance uid t
    | Inl e \<Rightarrow> ledger t = ledger s \<and> audit_logs t = audit_logs s \<and>
               (\<forall>u. current_balance u t = current_balance u s \<and> current_debt u t = current_debt u s)"
proof (cases "users s uid = None \<or> amount \<le> 0")
  case True
  with assms show ?thesis
    by (cases "users s uid = None")
      (auto simp: admin_service_debit_def user_exists_def op_bind_def consume_eval)
next
  case False
  let ?meta = "[(''source'', JStr ''admin_debit''), (''reason'', JStr reason)]"
  define s' where "s' = ensured uid s"
  obtain w where w: "wallets s' uid = Some w" unfolding s'_def using ensured_wallet by blast
  have same: "current_balance u s = current_balance u s'" "current_debt u s = current_debt u s'"
    "ledger s = ledger s'" "audit_logs s = audit_logs s'" for u by (simp_all add: s'_def)
  have run: "op_bind (consume_plain uid amount key ?meta None) (\<lambda>c.
        op_bind (audit_record (admin_event EVENT_ADMIN_DEBIT uid amount reason key
                   (cr_ledger_tx_id c) (cr_idempotent_replay c))) (\<lambda>_.
        op_return \<lparr>gr_new_balance = cr_new_balance c, gr_ledger_tx_id = cr_ledger_tx_id c,
                  gr_idempotent_replay = cr_idempotent_replay c\<rparr>)) s' = (out, t)"
    using assms False admin_debit_route [of s uid amount cfg key reason]
    by (auto simp: admin_service_debit_def user_exists_def op_bind_def s'_def)
  show ?thesis
    using False w run unfolding same
    by (cases "existing_tx uid key s'"; cases "amount \<le> balance w")
      (auto simp: consume_plain_cases op_bind_def replay_result_def post_debit_def
        current_balance_def current_debt_def split: if_splits)
qed

theorem operator_debit_all_or_nothing_witness:
  "\<exists>g t. admin_service_debit demo_cfg 1 20 ''d1'' ''fix'' demo_funded = (Inr g, t) \<and>
     current_balance 1 demo_funded - current_balance 1 t = 20"
proof -
  have u: "users demo_funded (Suc 0) \<noteq> None" by (simp add: demo_funded_def)
  have run: "\<exists>g t. admin_service_debit demo_cfg 1 20 ''d1'' ''fix'' demo_funded = (Inr g, t) \<and>
      \<not> gr_idempotent_replay g"
    using u by (simp add: admin_service_debit_def user_exists_def op_bind_def admin_debit_route
        consume_plain_fresh)
  then obtain g t where "admin_service_debit demo_cfg 1 20 ''d1'' ''fix'' demo_funded = (Inr g, t)"
    "\<not> gr_idempotent_replay g" by blast
  with operator_debit_all_or_nothing [OF this(1)] show ?thesis by auto
qed

subsection \<open>Adapty webhook\<close>

text \<open>
  Adapty may deliver an event any number of times: once a delivery was handled without an
  exception, the same body changes nothing any more and is answered \<open>duplicate\<close>, unless it was
  ignored in the first place.
\<close>

theorem adapty_redelivery_changes_nothing:
  assumes "adapty_handle loads fromiso cfg raw s = (Inr o1, t)"
  shows "\<exists>o2. adapty_handle loads fromiso cfg raw t = (Inr o2, t) \<and>
    (if wo_result o1 = ''ignored'' then t = s \<and> o2 = o1 else o2 = plain_outcome ''duplicate'')"
proof (cases "t = s \<and> wo_result o1 = ''ignored''")
  case True
  with assms show ?thesis by auto
next
  case False
  with assms obtain body eid uid where
    raw: "raw \<noteq> []" "loads raw = Some (JObj body)" "parse_event_id body = Some eid"
      "parse_customer_user_id body = Some uid" "users s uid \<noteq> None"
      "parse_event_type body \<in> set KNOWN_EVENTS"
    and app: "adapty_apply cfg
        \<lparr>pe_event_id = eid, pe_event_type = parse_event_type body, pe_customer_user_id = uid,
         pe_vendor_product_id = parse_vendor_product_id body,
         pe_expires_at = parse_expires_at fromiso body\<rparr> body s = (Inr o1, t)"
    by (auto simp: adapty_handle_def op_eval ignored_def split: if_splits option.splits json.splits)
  from adapty_apply_recorded [OF app] have rec: "adapty_events t eid \<noteq> None" "users t = users s"
    by (simp_all add: adapty_on_record_def)
  from app have "wo_result o1 \<noteq> ''ignored''"
    by (auto simp: adapty_apply_def op_bind_Inr_iff plain_outcome_def split: if_splits prod.splits)
  with raw rec show ?thesis
    by (auto simp: adapty_handle_def op_eval adapty_apply_duplicate)
qed

text \<open>
  The effect of a handled Adapty event: a start or renewal leaves an active subscription
  with the product as plan and the event's expiry, and books exactly the product's tier as one
  credit; a cancellation or expiry leaves an expired subscription and touches neither ledger nor
  wallet.
\<close>

theorem adapty_event_effect:
  assumes "adapty_apply cfg ev body s = (Inr o1, t)" and "adapty_events s (pe_event_id ev) = None"
    and "existing_tx (pe_customer_user_id ev) (adapty_key (pe_event_id ev)) s = None"
  shows "if pe_event_type ev \<in> set GRANTING_EVENTS
    then subscriptions t (pe_customer_user_id ev) =
           Some \<lparr>sub_status = ''active'', sub_plan = pe_vendor_product_id ev,
                 sub_expires_at = map_option dt_instant (pe_expires_at ev)\<rparr> \<and>
         credits_of (pe_customer_user_id ev) t =
           credits_of (pe_customer_user_id ev) s + tier_for cfg (pe_vendor_product_id ev)
    else (\<exists>row. subscriptions t (pe_customer_user_id ev) = Some row \<and> sub_status row = ''expired'') \<and>
         ledger t = ledger s \<and> wallets t = wallets s"
proof (cases "pe_event_type ev \<in> set GRANTING_EVENTS")
  case False
  with assms show ?thesis
    by (auto simp: adapty_apply_def insert_adapty_event_def adapty_upsert_subscription_def op_bind_def
        Let_def split: if_splits option.splits)
next
  case True
  let ?uid = "pe_customer_user_id ev"
  define s1 where "s1 = s\<lparr>adapty_events := (adapty_events s)(pe_event_id ev \<mapsto>
      \<lparr>wh_user = ?uid, wh_kind = pe_event_type ev, wh_payload = JObj body\<rparr>),
    subscriptions := (subscriptions s)(?uid \<mapsto>
      \<lparr>sub_status = ''active'', sub_plan = pe_vendor_product_id ev,
       sub_expires_at = map_option dt_instant (pe_expires_at ev)\<rparr>)\<rparr>"
  obtain g t1 where g: "adapty_grant cfg ev s1 = (Inr g, t1)"
    and t: "subscriptions t = subscriptions t1" "ledger t = ledger t1"
    using assms(1,2) True
    by (auto simp: adapty_apply_def insert_adapty_event_def adapty_upsert_subscription_def op_bind_def
        s1_def Let_def split: if_splits prod.splits sum.splits)
  have ok: "fst (adapty_grant cfg ev s1) = Inr g" using g by simp
  have fresh: "existing_tx ?uid (adapty_key (pe_event_id ev)) s1 = None"
    using assms(3) by (simp add: s1_def existing_tx_def)
  have "subscriptions t1 = subscriptions s1"
    using grant_frame(2) g unfolding adapty_grant_def by (metis snd_conv)
  moreover have "credits_of ?uid t1 = credits_of ?uid s1 + tier_for cfg (pe_vendor_product_id ev)"
    using grant_cases [OF ok [unfolded adapty_grant_def]] g fresh
    by (auto simp: adapty_grant_def post_credit_def credits_of_def)
  ultimately show ?thesis using True t by (simp add: s1_def credits_of_def)
qed

text \<open>A renewal for user 1, as the webhook delivers it.\<close>

definition demo_event :: dict where
  "demo_event = [(''event_id'', JStr ''e1''), (''event_type'', JStr ''subscription_renewed''),
     (''customer_user_id'', JStr ''00000000-0000-0000-0000-000000000001''),
     (''vendor_product_id'', JStr ''pro.month'')]"

lemma demo_event_parse:
  "parse_event_id demo_event = Some ''e1''" "parse_event_type demo_event = ''subscription_renewed''"
  "parse_customer_user_id demo_event = Some 1" "parse_vendor_product_id demo_event = Some ''pro.month''"
  "parse_expires_at fromiso demo_event = None"
     apply code_simp apply code_simp apply code_simp apply code_simp
  by (simp add: parse_expires_at_def demo_event_def)

definition demo_parsed :: parsed_event where
  "demo_parsed = \<lparr>pe_event_id = ''e1'', pe_event_type = ''subscription_renewed'',
     pe_customer_user_id = 1, pe_vendor_product_id = Some ''pro.month'', pe_expires_at = None\<rparr>"

lemma demo_known: "''subscription_renewed'' \<in> set KNOWN_EVENTS" "''subscription_renewed'' \<in> set GRANTING_EVENTS"
  by code_simp+

lemma demo_adapty_apply:
  "\<exists>t. adapty_apply demo_cfg demo_parsed demo_event demo_db = (Inr (plain_outcome ''applied''), t)"
  using demo_known
  by (simp add: adapty_apply_def insert_adapty_event_def adapty_upsert_subscription_def op_bind_def
      demo_parsed_def adapty_grant_def grant_fresh tier_for_def demo_cfg_def Let_def)

lemma demo_adapty_handle:
  "adapty_handle (\<lambda>_. Some (JObj demo_event)) fromiso demo_cfg ''body'' demo_db =
   adapty_apply demo_cfg demo_parsed demo_event demo_db"
  using demo_known by (simp add: adapty_handle_def demo_event_parse op_eval demo_parsed_def)

theorem adapty_redelivery_changes_nothing_witness:
  "\<exists>t. adapty_handle (\<lambda>_. Some (JObj demo_event)) (\<lambda>_. None) demo_cfg ''body'' demo_db =
       (Inr (plain_outcome ''applied''), t) \<and>
     adapty_handle (\<lambda>_. Some (JObj demo_event)) (\<lambda>_. None) demo_cfg ''body'' t =
       (Inr (plain_outcome ''duplicate''), t)"
proof -
  obtain t where run: "adapty_handle (\<lambda>_. Some (JObj demo_event)) (\<lambda>_. None) demo_cfg ''body'' demo_db =
       (Inr (plain_outcome ''applied''), t)"
    using demo_adapty_apply demo_adapty_handle by auto
  from adapty_redelivery_changes_nothing [OF run] run show ?thesis
    by (auto simp: plain_outcome_def)
qed

theorem adapty_event_effect_witness:
  "\<exists>t. adapty_apply demo_cfg demo_parsed demo_event demo_db = (Inr (plain_outcome ''applied''), t) \<and>
     credits_of 1 t = 500"
proof -
  obtain t where run: "adapty_apply demo_cfg demo_parsed demo_event demo_db =
      (Inr (plain_outcome ''applied''), t)"
    using demo_adapty_apply by blast
  have "credits_of (pe_customer_user_id demo_parsed) t =
      credits_of (pe_customer_user_id demo_parsed) demo_db + tier_for demo_cfg (pe_vendor_product_id demo_parsed)"
    using adapty_event_effect [OF run] demo_known by (simp add: demo_parsed_def)
  moreover have "credits_of 1 demo_db = 0" by (simp add: credits_of_def)
  ultimately show ?thesis
    using run by (simp add: demo_parsed_def tier_for_def demo_cfg_def)
qed

subsection \<open>CloudPayments webhook\<close>

text \<open>A payment that is creditable at a later time was creditable before, with the same reading.\<close>

lemma creditable_earlier:
  "creditable_of repr fromiso st c' item = Some p \<Longrightarrow> c \<le> c' \<Longrightarrow>
   creditable_of repr fromiso st c item = Some p"
  by (auto simp: creditable_of_def Let_def split: json.splits option.splits if_splits)

lemma select_mem:
  "p \<in> set (select_creditable_payments repr fromiso data st now h) \<longleftrightarrow>
   (\<exists>item \<in> set data. creditable_of repr fromiso st (now - h * 3600000000) item = Some p)"
  by (force simp: select_creditable_payments_def List.map_filter_def Let_def)

lemma select_earlier:
  assumes "now \<le> now'"
  shows "set (select_creditable_payments repr fromiso data st now' h) \<subseteq>
    set (select_creditable_payments repr fromiso data st now h)"
proof -
  have "now - h * 3600000000 \<le> now' - h * 3600000000" using assms by simp
  from creditable_earlier [OF _ this] show ?thesis unfolding select_mem subset_iff by blast
qed

lemma cp_apply_all_settles:
  "cp_apply_all cfg now uid n ps s = (Inr r, t) \<Longrightarrow> \<forall>p \<in> set ps. settled cfg p t"
proof (induction ps arbitrary: n s)
  case (Cons p ps)
  obtain a b where n: "n = (a, b)" by (cases n)
  from Cons.prems obtain o1 s1 m where one: "cp_apply_payment cfg now p uid s = (Inr o1, s1)"
    and rest: "cp_apply_all cfg now uid m ps s1 = (Inr r, t)"
    unfolding n cp_apply_all.simps op_bind_Inr_iff by blast
  have "settled cfg p t"
    using op_preservesD [OF settled_kept_all cp_apply_payment_settles [OF one], of cfg now uid m ps] rest
    by simp
  with Cons.IH [OF rest] show ?case by simp
qed simp

text \<open>Crediting payments does not change who a device belongs to.\<close>

definition same_identities :: "db \<Rightarrow> db \<Rightarrow> bool" where
  "same_identities s0 s \<longleftrightarrow> users s = users s0 \<and> auth_devices s = auth_devices s0"

lemma same_identities_steps [op_rules]:
  "op_preserves (same_identities s0) (grant cfg u a k m r)"
  "op_preserves (same_identities s0) (upsert_subscription u pl e)"
  "op_preserves (same_identities s0) (audit_record ev)"
  "op_preserves (same_identities s0) (insert_cp_event p uid kind)"
  by (auto intro!: op_preservesI simp: same_identities_def upsert_subscription_def insert_cp_event_def
      split: option.splits)

lemma same_identities_payment [op_rules]:
  "op_preserves (same_identities s0) (cp_apply_payment cfg now p uid)"
  unfolding cp_apply_payment_def cp_credit_body_def cp_credit_rest_def Let_def
  by (intro op_rules op_preserves_imp_ok)

lemma same_identities_all [op_rules]:
  "op_preserves (same_identities s0) (cp_apply_all cfg now uid n ps)"
proof (induction ps arbitrary: n)
  case Nil
  then show ?case by (cases n) (auto intro!: op_preservesI)
next
  case (Cons p ps)
  then show ?case by (cases n) (simp, intro op_rules Cons.IH)
qed

lemma resolve_user_same: "same_identities s t \<Longrightarrow> resolve_user x s = (Inr v, s) \<Longrightarrow> resolve_user x t = (Inr v, t)"
  by (auto simp: same_identities_def resolve_user_def device_owner_def)

lemma cp_settle_again:
  assumes "cp_settle fromiso repr http cfg now uid dev s = (Inr o1, t)" and "now \<le> now'"
  shows "(\<exists>o2. cp_settle fromiso repr http cfg now' uid dev t = (Inr o2, t) \<and>
      co_result o2 \<noteq> ''applied'') \<and> same_identities s t"
proof -
  from assms(1) obtain ps where ps: "list_payments_both http uid dev = Inr ps"
    by (auto simp: cp_settle_def split: sum.splits)
  define sel where "sel = (\<lambda>n. select_creditable_payments repr fromiso ps
      (cloudpayments_paid_statuses cfg) n (cloudpayments_payment_freshness_hours cfg))"
  have sub: "set (sel now') \<subseteq> set (sel now)" unfolding sel_def by (rule select_earlier [OF assms(2)])
  have refl: "same_identities s s" by (simp add: same_identities_def)
  have fin: "(\<forall>p \<in> set (sel now). settled cfg p t) \<and> same_identities s t"
  proof (cases "sel now = []")
    case True
    with assms(1) ps refl show ?thesis by (simp add: cp_settle_def sel_def Let_def)
  next
    case False
    with assms(1) ps obtain r where run: "cp_apply_all cfg now uid (0, 0) (sel now) s = (Inr r, t)"
      by (auto simp: cp_settle_def sel_def Let_def op_bind_Inr_iff)
    from cp_apply_all_settles [OF run] op_preservesD [OF same_identities_all refl, of cfg now uid "(0, 0)" "sel now"]
      run show ?thesis by simp
  qed
  then have "\<forall>p \<in> set (sel now'). settled cfg p t" using sub by blast
  from settled_apply_all [OF this, of now' uid 0 0] obtain k where
    "cp_apply_all cfg now' uid (0, 0) (sel now') t = (Inr (0, k), t)" by auto
  with ps fin show ?thesis
    by (auto simp: cp_settle_def sel_def Let_def op_bind_def cp_ignored_def cp_result_def)
qed

text \<open>
  Claim C29. A payment callback can be repeated safely: after a callback was handled without an
  exception, the same callback, with the aggregator giving the same answer then or later, credits
  nothing more; the database stays as it is and the answer is not \<open>applied\<close>.
\<close>

theorem cp_redelivery_credits_nothing:
  assumes "cp_handle loads fromiso repr http cfg now raw s = (Inr o1, t)" and "now \<le> now'"
  shows "\<exists>o2. cp_handle loads fromiso repr http cfg now' raw t = (Inr o2, t) \<and>
    co_result o2 \<noteq> ''applied''"
proof (cases "cp_trigger loads repr raw")
  case (Inl out)
  then have "co_result out = ''ignored''"
    by (auto simp: cp_trigger_def cp_ignored_def Let_def split: if_splits option.splits json.splits)
  with Inl assms(1) show ?thesis by (auto simp: cp_handle_def split: if_splits)
next
  case (Inr dev)
  obtain who where who: "resolve_user dev s = (Inr who, s)" by (simp add: resolve_user_def)
  show ?thesis
  proof (cases who)
    case None
    with Inr who assms(1) show ?thesis
      by (auto simp: cp_handle_def op_bind_def cp_ignored_def split: if_splits)
  next
    case (Some u)
    obtain uid via where u: "u = (uid, via)" by (cases u)
    have run: "cp_settle fromiso repr http cfg now uid dev s = (Inr o1, t)"
      and cfg: "cloudpayments_api_token cfg \<noteq> []"
      using Inr who Some u assms(1) by (auto simp: cp_handle_def op_bind_def split: if_splits)
    from cp_settle_again [OF run assms(2)] obtain o2 where
      o2: "cp_settle fromiso repr http cfg now' uid dev t = (Inr o2, t)" "co_result o2 \<noteq> ''applied''"
      and same: "same_identities s t" by blast
    from resolve_user_same [OF same who] o2 Inr Some u cfg show ?thesis
      by (simp add: cp_handle_def op_bind_def)
  qed
qed

text \<open>A callback for user 1 and an aggregator that knows one paid pack of tokens.\<close>

definition demo_callback :: dict where
  "demo_callback = [(''Status'', JStr ''Completed''), (''OperationType'', JStr ''Payment''),
     (''AccountId'', JStr ''00000000-0000-0000-0000-000000000001'')]"

definition demo_http :: "uuid \<Rightarrow> http_outcome" where
  "demo_http u = HttpResponse 200 (Some (JObj [(''data'', JList [JObj
     [(''status'', JStr ''Succeeded''), (''paid_at'', JStr ''2026-01-01T00:00:00''),
      (''payment_id'', JStr ''p1''),
      (''product'', JObj [(''code'', JStr ''tok.100''), (''payment_type'', JStr ''one_time'')])]])]))"

definition demo_fromiso :: "string \<Rightarrow> datetime option" where
  "demo_fromiso x = (if x = ''2026-01-01T00:00:00''
     then Some \<lparr>dt_wall = 1767225600000000, dt_offset = None\<rparr> else None)"

definition demo_payment :: creditable_payment where
  "demo_payment = \<lparr>cp_payment_id = ''p1'', cp_product_code = ''tok.100'', cp_payment_type = ''one_time'',
     cp_status = ''succeeded'', cp_paid_at = \<lparr>dt_wall = 1767225600000000, dt_offset = Some 0\<rparr>\<rparr>"

lemma demo_trigger: "cp_trigger (\<lambda>_. Some (JObj demo_callback)) (\<lambda>_. []) ''body'' = Inr 1"
  by code_simp

lemma demo_verified:
  "\<exists>ps. list_payments_both demo_http 1 1 = Inr ps \<and>
     select_creditable_payments (\<lambda>_. []) demo_fromiso ps (cloudpayments_paid_statuses demo_cfg)
       1767225600000000 (cloudpayments_payment_freshness_hours demo_cfg) = [demo_payment]"
proof -
  have "list_payments_both demo_http 1 1 = Inr (case list_payments demo_http 1 of Inr ps \<Rightarrow> ps)"
    by code_simp
  moreover have "select_creditable_payments (\<lambda>_. []) demo_fromiso
      (case list_payments demo_http 1 of Inr ps \<Rightarrow> ps) (cloudpayments_paid_statuses demo_cfg)
      1767225600000000 (cloudpayments_payment_freshness_hours demo_cfg) = [demo_payment]"
    by code_simp
  ultimately show ?thesis by blast
qed

lemma demo_terms: "payment_terms demo_cfg demo_payment = Some (''tokens'', 100, ''cloudpayments_tokens'')"
  by code_simp

lemma demo_credited:
  "\<exists>t. cp_apply_payment demo_cfg now demo_payment 1 demo_db = (Inr ''credited'', t)"
  by (simp add: cp_apply_payment_def demo_terms session_scope_def cp_credit_body_def op_bind_def
      insert_cp_event_def cp_credit_rest_def Let_def KIND_SUBSCRIPTION_def grant_fresh)

lemma demo_callback_run:
  "\<exists>t. cp_handle (\<lambda>_. Some (JObj demo_callback)) demo_fromiso (\<lambda>_. []) demo_http demo_cfg
     1767225600000000 ''body'' demo_db = (Inr (cp_result ''applied''), t)"
proof -
  obtain t where "cp_apply_payment demo_cfg 1767225600000000 demo_payment 1 demo_db =
      (Inr ''credited'', t)"
    using demo_credited by blast
  moreover have "resolve_user 1 demo_db = (Inr (Some (1, RESOLVED_VIA_USER_ID)), demo_db)"
    by (simp add: resolve_user_def)
  moreover have "cloudpayments_api_token demo_cfg \<noteq> []" by (simp add: demo_cfg_def)
  ultimately show ?thesis
    using demo_verified by (auto simp: cp_handle_def demo_trigger op_bind_def cp_settle_def Let_def)
qed

theorem cp_redelivery_credits_nothing_witness:
  "\<exists>t o2. cp_handle (\<lambda>_. Some (JObj demo_callback)) demo_fromiso (\<lambda>_. []) demo_http demo_cfg
       1767225600000000 ''body'' demo_db = (Inr (cp_result ''applied''), t) \<and>
     cp_handle (\<lambda>_. Some (JObj demo_callback)) demo_fromiso (\<lambda>_. []) demo_http demo_cfg
       1767225660000000 ''body'' t = (Inr o2, t) \<and> co_result o2 \<noteq> ''applied''"
proof -
  obtain t where run: "cp_handle (\<lambda>_. Some (JObj demo_callback)) demo_fromiso (\<lambda>_. []) demo_http demo_cfg
       1767225600000000 ''body'' demo_db = (Inr (cp_result ''applied''), t)"
    using demo_callback_run by blast
  with cp_redelivery_credits_nothing [OF run, of 1767225660000000] show ?thesis by auto
qed

text \<open>
  Only the aggregator's word moves money: when its answer holds no payment that is
  creditable now, or it cannot be reached, no callback changes the database, whatever its body
  claims.
\<close>

theorem unverified_callback_moves_nothing:
  assumes "\<And>uid dev ps. list_payments_both http uid dev = Inr ps \<Longrightarrow>
      select_creditable_payments repr fromiso ps (cloudpayments_paid_statuses cfg) now
        (cloudpayments_payment_freshness_hours cfg) = []"
  shows "snd (cp_handle loads fromiso repr http cfg now raw s) = s"
proof -
  have "snd (cp_settle fromiso repr http cfg now uid dev s) = s" for uid dev
    using assms [of uid dev] by (cases "list_payments_both http uid dev") (simp_all add: cp_settle_def Let_def)
  then show ?thesis
    by (auto simp: cp_handle_def op_bind_def resolve_user_def split: sum.splits option.splits)
qed

theorem unverified_callback_moves_nothing_witness:
  "snd (cp_handle (\<lambda>_. Some (JObj [(''Status'', JStr ''Completed''), (''OperationType'', JStr ''Payment''),
       (''AccountId'', JStr ''00000000-0000-0000-0000-000000000001'')]))
     (\<lambda>_. None) (\<lambda>_. []) (\<lambda>_. HttpResponse 404 None) demo_cfg 0 ''body'' demo_db) = demo_db"
  by (rule unverified_callback_moves_nothing)
    (auto simp: list_payments_both_def list_payments_def select_creditable_payments_def
      List.map_filter_def split: if_splits)

end
