(* ===== verification/AgentSse.thy ===== *)
theory AgentSse
  imports BillingCommon
begin

text \<open>
  The event reader of \<^verbatim>\<open>src/app/agent_proxy/service.py\<close>: splitting the byte stream of
  the instance into SSE blocks, parsing a block, and reading names, text and token counts out of an
  event. A \<open>char\<close> is a byte here; decoded text is kept as its UTF-8 bytes. \<open>json.loads\<close> is the
  argument \<open>loads\<close>.
\<close>

subsection \<open>Blocks of the stream\<close>

text \<open>\<open>buffer.split(b"\n\n", 1)\<close> where the separator occurs.\<close>

fun split_block :: "string \<Rightarrow> (string \<times> string) option" where
  "split_block [] = None"
| "split_block (c # s) =
     (if c = CHR 0x0A \<and> s \<noteq> [] \<and> hd s = CHR 0x0A then Some ([], tl s)
      else map_option (\<lambda>(b, r). (c # b, r)) (split_block s))"

lemma split_block_eq: "split_block s = Some (b, r) \<Longrightarrow> s = b @ [CHR 0x0A, CHR 0x0A] @ r"
proof (induction s arbitrary: b)
  case (Cons c s)
  then show ?case by (cases s) (auto split: if_splits)
qed simp

lemma split_block_append:
  "split_block s = Some (b, r) \<Longrightarrow> split_block (s @ t) = Some (b, r @ t)"
proof (induction s arbitrary: b)
  case (Cons c s)
  then show ?case by (cases s) (auto split: if_splits)
qed simp

text \<open>The inner \<open>while\<close> loop: the complete blocks of a buffer and what is left.\<close>

function drain :: "string \<Rightarrow> string list \<times> string" where
  "drain buffer =
     (case split_block buffer of
        None \<Rightarrow> ([], buffer)
      | Some (block, rest) \<Rightarrow> (let (bs, r) = drain rest in (block # bs, r)))"
  by pat_completeness auto
termination
  by (relation "measure length") (auto dest: split_block_eq)

declare drain.simps [simp del]

text \<open>\<open>_iter_sse_blocks\<close>: the outer loop over the chunks, then the unterminated rest.\<close>

fun iter_chunks :: "string \<Rightarrow> string list \<Rightarrow> string list \<times> string" where
  "iter_chunks buffer [] = ([], buffer)"
| "iter_chunks buffer (chunk # chunks) =
     (let (bs, buffer') = drain (buffer @ chunk);
          (bs', r) = iter_chunks buffer' chunks
      in (bs @ bs', r))"

definition byte_space :: "char \<Rightarrow> bool" where
  "byte_space c = (let n = of_char c :: nat in 9 \<le> n \<and> n \<le> 13 \<or> n = 32)"

text \<open>Blocks as they are parsed, with the raw bytes that are forwarded.\<close>

definition iter_sse_blocks :: "string list \<Rightarrow> (string \<times> string) list" where
  "iter_sse_blocks chunks =
     (let (bs, rest) = iter_chunks [] chunks in
      map (\<lambda>b. (b, b @ [CHR 0x0A, CHR 0x0A])) bs @
      (if strip_chars byte_space rest \<noteq> [] then [(rest, rest)] else []))"

subsection \<open>Text\<close>

text \<open>Strict UTF-8 (no overlong forms, no surrogates, at most U+10FFFF).\<close>

definition cont :: "nat \<Rightarrow> bool" where
  "cont b = (0x80 \<le> b \<and> b \<le> 0xBF)"

function utf8_valid :: "nat list \<Rightarrow> bool" where
  "utf8_valid bs =
     (case bs of
        [] \<Rightarrow> True
      | b # r \<Rightarrow>
          if b < 0x80 then utf8_valid r
          else (case r of
            c # r2 \<Rightarrow>
              if 0xC2 \<le> b \<and> b \<le> 0xDF then cont c \<and> utf8_valid r2
              else (case r2 of
                d # r3 \<Rightarrow>
                  if 0xE0 \<le> b \<and> b \<le> 0xEF then
                    cont c \<and> cont d \<and> (b = 0xE0 \<longrightarrow> 0xA0 \<le> c) \<and> (b = 0xED \<longrightarrow> c \<le> 0x9F) \<and>
                    utf8_valid r3
                  else (case r3 of
                    e # r4 \<Rightarrow>
                      0xF0 \<le> b \<and> b \<le> 0xF4 \<and> cont c \<and> cont d \<and> cont e \<and>
                      (b = 0xF0 \<longrightarrow> 0x90 \<le> c) \<and> (b = 0xF4 \<longrightarrow> c \<le> 0x8F) \<and> utf8_valid r4
                  | [] \<Rightarrow> False)
              | [] \<Rightarrow> False)
          | [] \<Rightarrow> False))"
  by pat_completeness auto
termination by (relation "measure length") auto

declare utf8_valid.simps [simp del]

text \<open>The blanks \<open>str.strip\<close> removes, encoded.\<close>

definition blanks :: "string list" where
  "blanks =
     map (\<lambda>n. [char_of (n :: nat)]) ([9..<14] @ [28..<33]) @
     map (map (\<lambda>n. char_of (n :: nat)))
       ([[0xC2, 0x85], [0xC2, 0xA0], [0xE1, 0x9A, 0x80]] @
        map (\<lambda>n. [0xE2, 0x80, n]) ([0x80..<0x8B] @ [0xA8, 0xA9, 0xAF]) @
        [[0xE2, 0x81, 0x9F], [0xE3, 0x80, 0x80]])"

lemma blanks_nonempty: "b \<in> set blanks \<Longrightarrow> b \<noteq> []"
  by (auto simp: blanks_def)

function lstrip_any :: "string list \<Rightarrow> string \<Rightarrow> string" where
  "lstrip_any pats s =
     (case find (\<lambda>b. b \<noteq> [] \<and> prefix b s) pats of
        None \<Rightarrow> s
      | Some b \<Rightarrow> lstrip_any pats (drop (length b) s))"
  by pat_completeness auto
termination
  by (relation "measure (\<lambda>(p, s). length s)") (auto simp: find_Some_iff prefix_def)

declare lstrip_any.simps [simp del]

definition text_strip :: "string \<Rightarrow> string" where
  "text_strip s =
     rev (lstrip_any (map rev blanks) (rev (lstrip_any blanks s)))"

subsection \<open>Parsing a block\<close>

record sse_event =
  se_name :: "string option"
  se_data :: dict

fun split_lines :: "string \<Rightarrow> string list" where
  "split_lines [] = [[]]"
| "split_lines (c # s) =
     (if c = CHR 0x0A then [] # split_lines s
      else (case split_lines s of l # ls \<Rightarrow> (c # l) # ls | [] \<Rightarrow> [[c]]))"

fun join_lines :: "string list \<Rightarrow> string" where
  "join_lines [] = []"
| "join_lines [l] = l"
| "join_lines (l # ls) = l @ [CHR 0x0A] @ join_lines ls"

text \<open>The loop over the lines: the last \<open>event:\<close> name and the \<open>data:\<close> lines.\<close>

fun sse_lines :: "string option \<times> string list \<Rightarrow> string list \<Rightarrow> string option \<times> string list" where
  "sse_lines acc [] = acc"
| "sse_lines (name, data) (line # lines) =
     (if \<not> utf8_valid (map of_char line) then sse_lines (name, data) lines
      else if startswith line '':'' then sse_lines (name, data) lines
      else if startswith line ''event:'' then sse_lines (Some (text_strip (drop 6 line)), data) lines
      else if startswith line ''data:'' then sse_lines (name, data @ [text_strip (drop 5 line)]) lines
      else sse_lines (name, data) lines)"

definition parse_sse_block :: "(string \<Rightarrow> json option) \<Rightarrow> string \<Rightarrow> sse_event" where
  "parse_sse_block loads block =
     (let (name, data_lines) = sse_lines (None, []) (split_lines block) in
      \<lparr>se_name = name,
       se_data =
         (if data_lines = [] then []
          else case loads (join_lines data_lines) of Some (JObj d) \<Rightarrow> d | _ \<Rightarrow> [])\<rparr>)"

subsection \<open>The reader neither drops nor invents bytes\<close>

lemma drain_concat:
  "concat (map (\<lambda>b. b @ [CHR 0x0A, CHR 0x0A]) (fst (drain s))) @ snd (drain s) = s"
proof (induction s rule: drain.induct)
  case (1 s)
  show ?case
  proof (cases "split_block s")
    case None
    then show ?thesis by (simp add: drain.simps [of s])
  next
    case (Some p)
    obtain b r where p: "p = (b, r)" by (cases p)
    from 1 [OF Some p [symmetric]] split_block_eq Some p show ?thesis
      by (simp add: drain.simps [of s] case_prod_beta Let_def)
  qed
qed

lemma drain_append:
  "drain (s @ t) =
     (fst (drain s) @ fst (drain (snd (drain s) @ t)), snd (drain (snd (drain s) @ t)))"
proof (induction s rule: drain.induct)
  case (1 s)
  show ?case
  proof (cases "split_block s")
    case None
    then show ?thesis by (simp add: drain.simps [of s])
  next
    case (Some p)
    obtain b r where p: "p = (b, r)" by (cases p)
    have st: "split_block (s @ t) = Some (b, r @ t)" using Some p by (simp add: split_block_append)
    from 1 [OF Some p [symmetric]] Some p show ?thesis
      by (simp add: drain.simps [of s] drain.simps [of "s @ t"] st case_prod_beta Let_def)
  qed
qed

lemma drain_idem: "drain (snd (drain s)) = ([], snd (drain s))"
proof (induction s rule: drain.induct)
  case (1 s)
  show ?case
  proof (cases "split_block s")
    case None
    then show ?thesis by (simp add: drain.simps [of s])
  next
    case (Some p)
    obtain b r where p: "p = (b, r)" by (cases p)
    from 1 [OF Some p [symmetric]] Some p show ?thesis
      by (simp add: drain.simps [of s] case_prod_beta Let_def)
  qed
qed

lemma iter_chunks_drain:
  "drain buffer = ([], buffer) \<Longrightarrow> iter_chunks buffer chunks = drain (buffer @ concat chunks)"
proof (induction chunks arbitrary: buffer)
  case (Cons c cs)
  have "iter_chunks (snd (drain (buffer @ c))) cs = drain (snd (drain (buffer @ c)) @ concat cs)"
    by (rule Cons.IH [OF drain_idem])
  then show ?case
    using drain_append [of "buffer @ c" "concat cs"] by (simp add: case_prod_beta Let_def)
qed simp

text \<open>
  Claim C28. How the network cuts the stream does not matter: the blocks depend only on the bytes
  received, and what is forwarded is what was received, apart from an unterminated rest of blanks at
  the end of the stream.
\<close>

theorem sse_reader_is_lossless:
  "(concat chunks = concat chunks' \<longrightarrow> iter_sse_blocks chunks = iter_sse_blocks chunks') \<and>
   (\<exists>rest. concat chunks = concat (map snd (iter_sse_blocks chunks)) @ rest \<and>
     strip_chars byte_space rest = [])"
proof -
  have d: "iter_chunks [] cs = drain (concat cs)" for cs
    using iter_chunks_drain [of "[]" cs] by (simp add: drain.simps)
  let ?rest = "snd (drain (concat chunks))"
  have all: "concat chunks =
      concat (map (\<lambda>b. b @ [CHR 0x0A, CHR 0x0A]) (fst (drain (concat chunks)))) @ ?rest"
    by (rule drain_concat [symmetric])
  have "\<exists>rest. concat chunks = concat (map snd (iter_sse_blocks chunks)) @ rest \<and>
      strip_chars byte_space rest = []"
  proof (cases "strip_chars byte_space ?rest = []")
    case True
    with all show ?thesis
      by (intro exI [of _ ?rest])
        (simp add: iter_sse_blocks_def d case_prod_beta Let_def comp_def)
  next
    case False
    with all show ?thesis
      by (intro exI [of _ "[]"])
        (simp add: iter_sse_blocks_def d case_prod_beta Let_def comp_def strip_chars_def)
  qed
  then show ?thesis by (simp add: iter_sse_blocks_def d)
qed

theorem sse_reader_is_lossless_witness:
  "iter_sse_blocks [''data: 1'' @ [CHR 0x0A], [CHR 0x0A] @ ''data: 2''] =
   iter_sse_blocks [''data: 1'' @ [CHR 0x0A, CHR 0x0A] @ ''data: 2'']"
  using sse_reader_is_lossless
    [of "[''data: 1'' @ [CHR 0x0A], [CHR 0x0A] @ ''data: 2'']"
        "[''data: 1'' @ [CHR 0x0A, CHR 0x0A] @ ''data: 2'']"]
  by simp

end
