(* ===== verification/AgentEvents.thy ===== *)
theory AgentEvents
  imports AgentSse
begin

text \<open>
  Reading one event of an agent run (\<^verbatim>\<open>src/app/agent_proxy/service.py\<close>): its name, the
  assistant text, tool and approval labels, the token counts, and the derived statuses.
\<close>

subsection \<open>Names\<close>

definition EVENT_RUN_COMPLETED :: string where "EVENT_RUN_COMPLETED = ''run.completed''"
definition EVENT_RUN_FAILED :: string where "EVENT_RUN_FAILED = ''run.failed''"
definition EVENT_RUN_PAUSED :: string where "EVENT_RUN_PAUSED = ''run.paused''"
definition EVENT_APPROVAL_REQUEST :: string where "EVENT_APPROVAL_REQUEST = ''approval.request''"
definition EVENT_USAGE_DELTA :: string where "EVENT_USAGE_DELTA = ''usage.delta''"
definition EVENT_MESSAGE_DELTA :: string where "EVENT_MESSAGE_DELTA = ''message.delta''"
definition TOOL_EVENT_PREFIX :: string where "TOOL_EVENT_PREFIX = ''tool.''"

lemmas event_name_defs = EVENT_RUN_COMPLETED_def EVENT_RUN_FAILED_def EVENT_RUN_PAUSED_def
  EVENT_APPROVAL_REQUEST_def EVENT_USAGE_DELTA_def EVENT_MESSAGE_DELTA_def TOOL_EVENT_PREFIX_def

text \<open>The first text among the values of the keys.\<close>

fun first_text :: "string list \<Rightarrow> dict \<Rightarrow> string option" where
  "first_text [] d = None"
| "first_text (k # ks) d = (case dict_get d k of JStr v \<Rightarrow> Some v | _ \<Rightarrow> first_text ks d)"

definition event_name :: "sse_event \<Rightarrow> string option" where
  "event_name ev =
     (case se_name ev of
        Some n \<Rightarrow> if n \<noteq> [] then Some n else first_text [''type'', ''event''] (se_data ev)
      | None \<Rightarrow> first_text [''type'', ''event''] (se_data ev))"

definition is_terminal_event :: "sse_event \<Rightarrow> bool" where
  "is_terminal_event ev =
     (event_name ev \<in> Some ` {EVENT_RUN_COMPLETED, EVENT_RUN_FAILED, EVENT_RUN_PAUSED})"

subsection \<open>Text carriers\<close>

text \<open>The first non-empty text among the values of the keys.\<close>

fun first_nonempty :: "string list \<Rightarrow> dict \<Rightarrow> string option" where
  "first_nonempty [] d = None"
| "first_nonempty (k # ks) d =
     (case dict_get d k of
        JStr v \<Rightarrow> if v \<noteq> [] then Some v else first_nonempty ks d
      | _ \<Rightarrow> first_nonempty ks d)"

definition as_event_text :: "json \<Rightarrow> string option" where
  "as_event_text v =
     (case v of
        JStr s \<Rightarrow> if s \<noteq> [] then Some s else None
      | JObj d \<Rightarrow> first_nonempty [''text'', ''content'', ''value''] d
      | _ \<Rightarrow> None)"

fun tool_name_at :: "json \<Rightarrow> string option" where
  "tool_name_at (JStr s) = (if s \<noteq> [] then Some s else None)"
| "tool_name_at (JObj d) = first_nonempty [''name'', ''tool'', ''tool_name''] d"
| "tool_name_at _ = None"

fun first_Some :: "'a option list \<Rightarrow> 'a option" where
  "first_Some [] = None"
| "first_Some (x # xs) = (case x of Some v \<Rightarrow> Some v | None \<Rightarrow> first_Some xs)"

definition extract_tool_name :: "sse_event \<Rightarrow> string option" where
  "extract_tool_name ev =
     first_Some (map (\<lambda>k. tool_name_at (dict_get (se_data ev) k)) [''tool'', ''tool_name'', ''name''])"

definition extract_approval_preview :: "sse_event \<Rightarrow> string option" where
  "extract_approval_preview ev =
     first_Some (map (\<lambda>k. as_event_text (dict_get (se_data ev) k)) [''preview'', ''description'', ''summary''])"

definition DELTA_TEXT_KEYS :: "string list" where
  "DELTA_TEXT_KEYS = [''text'', ''delta'', ''content'']"

definition extract_delta_text :: "sse_event \<Rightarrow> string" where
  "extract_delta_text ev =
     (case first_Some (map (\<lambda>k. as_event_text (dict_get (se_data ev) k)) DELTA_TEXT_KEYS) of
        Some t \<Rightarrow> t | None \<Rightarrow> [])"

definition DELTA_ENVELOPE_KEYS :: "string list" where
  "DELTA_ENVELOPE_KEYS = DELTA_TEXT_KEYS @
     [''event'', ''type'', ''run_id'', ''runId'', ''id'', ''session_id'', ''sessionId'', ''model'', ''role'',
      ''index'', ''timestamp'']"

definition delta_shape_looks_unknown :: "sse_event \<Rightarrow> bool" where
  "delta_shape_looks_unknown ev =
     (list_ex (\<lambda>k. let v = dict_get (se_data ev) k in
                   v \<noteq> JNull \<and> v \<noteq> JStr [] \<and> as_event_text v = None) DELTA_TEXT_KEYS \<or>
      list_ex (\<lambda>(k, v). k \<notin> set DELTA_ENVELOPE_KEYS \<and> as_event_text v \<noteq> None) (se_data ev))"

definition extract_model :: "sse_event \<Rightarrow> string option" where
  "extract_model ev = (case dict_get (se_data ev) ''model'' of JStr m \<Rightarrow> Some m | _ \<Rightarrow> None)"

subsection \<open>Token counts\<close>

text \<open>\<open>int(x)\<close> of a finite float.\<close>

definition trunc :: "rat \<Rightarrow> int" where
  "trunc x = (if 0 \<le> x then \<lfloor>x\<rfloor> else \<lceil>x\<rceil>)"

definition as_int_or_none :: "json \<Rightarrow> int option" where
  "as_int_or_none v = (case v of JInt i \<Rightarrow> Some i | JFloat x \<Rightarrow> Some (trunc x) | _ \<Rightarrow> None)"

definition as_int :: "json \<Rightarrow> int" where
  "as_int v = (case v of JInt i \<Rightarrow> i | JFloat x \<Rightarrow> trunc x | _ \<Rightarrow> 0)"

record usage_counts =
  uc_input :: int
  uc_output :: int
  uc_total :: int
  uc_recognised :: bool
  uc_partial :: bool
  uc_sources :: "string list"
  uc_divergent :: bool
  uc_non_monotonic :: bool

datatype field_set = Cumulative | PerStep

definition field_set_name :: "field_set \<Rightarrow> string" where
  "field_set_name f = (case f of Cumulative \<Rightarrow> ''cumulative'' | PerStep \<Rightarrow> ''per_step'')"

definition USAGE_FIELD_SETS :: "(field_set \<times> string \<times> string \<times> string) list" where
  "USAGE_FIELD_SETS =
     [(Cumulative, ''cumulative_input_tokens'', ''cumulative_output_tokens'', ''cumulative_total_tokens''),
      (PerStep, ''input_tokens'', ''output_tokens'', ''total_tokens'')]"

definition usage_carriers :: "sse_event \<Rightarrow> (string \<times> dict) list" where
  "usage_carriers ev =
     (case dict_get (se_data ev) ''usage'' of JObj d \<Rightarrow> [(''usage'', d)] | _ \<Rightarrow> []) @
     [(''top'', se_data ev)]"

text \<open>
  One probe of a carrier for a field set: both counts and the total, one of them, or none. The
  loops visit the probes in the order of the field sets, then of the carriers.
\<close>

datatype probe =
    Full field_set string int int int
  | Partial string int int int
  | Miss

definition or_zero :: "int option \<Rightarrow> int" where
  "or_zero x = (case x of Some i \<Rightarrow> i | None \<Rightarrow> 0)"

definition probe_carrier :: "field_set \<times> string \<times> string \<times> string \<Rightarrow> string \<times> dict \<Rightarrow> probe" where
  "probe_carrier fs carrier =
     (case (fs, carrier) of ((f, ik, ok, tk), (label, d)) \<Rightarrow>
        let i = as_int_or_none (dict_get d ik);
            o' = as_int_or_none (dict_get d ok);
            t = or_zero (as_int_or_none (dict_get d tk));
            src = label @ ''.'' @ field_set_name f
        in case (i, o') of
             (None, None) \<Rightarrow> Miss
           | (Some x, Some y) \<Rightarrow> Full f src x y t
           | _ \<Rightarrow> Partial src (or_zero i) (or_zero o') t)"

definition usage_probes :: "sse_event \<Rightarrow> probe list" where
  "usage_probes ev =
     concat (map (\<lambda>fs. map (probe_carrier fs) (usage_carriers ev)) USAGE_FIELD_SETS)"

definition full_matches :: "probe list \<Rightarrow> (field_set \<times> string \<times> int \<times> int \<times> int) list" where
  "full_matches ps = List.map_filter (\<lambda>p. case p of Full f s x y t \<Rightarrow> Some (f, s, x, y, t) | _ \<Rightarrow> None) ps"

fun first_partial :: "probe list \<Rightarrow> (string \<times> int \<times> int \<times> int) option" where
  "first_partial [] = None"
| "first_partial (p # ps) = (case p of Partial s x y t \<Rightarrow> Some (s, x, y, t) | _ \<Rightarrow> first_partial ps)"

definition max_list :: "int list \<Rightarrow> int" where
  "max_list xs = fold max (tl xs) (hd xs)"

definition pairs_of :: "field_set \<Rightarrow> (field_set \<times> string \<times> int \<times> int \<times> int) list \<Rightarrow> (int \<times> int) list" where
  "pairs_of f full = remdups (map (\<lambda>(_, _, x, y, _). (x, y)) (filter (\<lambda>(g, _). g = f) full))"

definition non_monotonic :: "(int \<times> int) list \<Rightarrow> (int \<times> int) list \<Rightarrow> bool" where
  "non_monotonic per_step cumulative =
     (per_step \<noteq> [] \<and> cumulative \<noteq> [] \<and>
      (max_list (map fst per_step) > max_list (map fst cumulative) \<or>
       max_list (map snd per_step) > max_list (map snd cumulative)))"

definition extract_usage_counts :: "sse_event \<Rightarrow> usage_counts" where
  "extract_usage_counts ev =
     (let probes = usage_probes ev;
          full = full_matches probes
      in if full \<noteq> [] then
           \<lparr>uc_input = max_list (map (\<lambda>(_, _, x, _, _). x) full),
            uc_output = max_list (map (\<lambda>(_, _, _, y, _). y) full),
            uc_total = max_list (map (\<lambda>(_, _, _, _, t). t) full),
            uc_recognised = True, uc_partial = False,
            uc_sources = map (\<lambda>(_, s, _). s) full,
            uc_divergent = (length (pairs_of Cumulative full) > 1 \<or> length (pairs_of PerStep full) > 1),
            uc_non_monotonic = non_monotonic (pairs_of PerStep full) (pairs_of Cumulative full)\<rparr>
         else (case first_partial probes of
           Some (s, x, y, t) \<Rightarrow>
             \<lparr>uc_input = x, uc_output = y, uc_total = t, uc_recognised = True, uc_partial = True,
              uc_sources = [s], uc_divergent = False, uc_non_monotonic = False\<rparr>
         | None \<Rightarrow>
             \<lparr>uc_input = 0, uc_output = 0, uc_total = 0, uc_recognised = False, uc_partial = False,
              uc_sources = [], uc_divergent = False, uc_non_monotonic = False\<rparr>))"

subsection \<open>The billing gate\<close>

definition is_empty_value :: "json \<Rightarrow> bool" where
  "is_empty_value v = (v \<in> {JNull, JObj [], JList [], JStr []})"

fun mentions_usage :: "nat \<Rightarrow> json \<Rightarrow> bool" where
  "mentions_usage 0 node = False"
| "mentions_usage (Suc depth) (JObj d) =
     list_ex (\<lambda>(k, v). contains_sub ''token'' (lower k) \<or>
                       (contains_sub ''usage'' (lower k) \<and> \<not> is_empty_value v) \<or>
                       mentions_usage depth v) d"
| "mentions_usage (Suc depth) (JList xs) = list_ex (mentions_usage depth) xs"
| "mentions_usage (Suc depth) _ = False"

definition USAGE_GATE_MAX_DEPTH :: nat where
  "USAGE_GATE_MAX_DEPTH = 4"

definition is_provably_usage_free :: "sse_event \<Rightarrow> bool" where
  "is_provably_usage_free ev = (\<not> mentions_usage USAGE_GATE_MAX_DEPTH (JObj (se_data ev)))"

definition has_token_like_field :: "sse_event \<Rightarrow> bool" where
  "has_token_like_field ev =
     list_ex (\<lambda>d. list_ex (\<lambda>(k, v). contains_sub ''token'' (lower k) \<and>
                                    (case v of JInt _ \<Rightarrow> True | _ \<Rightarrow> False)) d)
       (se_data ev # (case dict_get (se_data ev) ''usage'' of JObj d \<Rightarrow> [d] | _ \<Rightarrow> []))"

subsection \<open>Derived statuses\<close>

definition map_client_status :: "string \<Rightarrow> bool \<Rightarrow> string" where
  "map_client_status db_status has_pending_approval =
     (if db_status \<in> {''running'', ''resumed''}
      then (if has_pending_approval then ''waiting_approval'' else ''running'')
      else case map_of [(''paused'', ''paused''), (''completed'', ''completed''), (''failed'', ''failed''),
                        (''cancelled'', ''stopped'')] db_status of
             Some s \<Rightarrow> s | None \<Rightarrow> ''running'')"

definition orphan_billing_basis :: "bool \<Rightarrow> int \<Rightarrow> int \<Rightarrow> string" where
  "orphan_billing_basis snapshot_present input_tokens output_tokens =
     (if \<not> snapshot_present then ''no_snapshot''
      else if input_tokens = 0 \<and> output_tokens = 0 then ''zero_usage''
      else ''snapshot'')"

subsection \<open>Lemmas\<close>

lemma fold_max_eq: "fold max xs (x :: int) = Max (set (x # xs))"
  by (rule Max.set_eq_fold [symmetric])

lemma max_list_Max: "xs \<noteq> [] \<Longrightarrow> max_list xs = Max (set xs)"
  by (cases xs) (simp_all add: max_list_def fold_max_eq del: fold_simps)

lemma full_matches_mem:
  "(f, s, x, y, t) \<in> set (full_matches ps) \<longleftrightarrow> Full f s x y t \<in> set ps"
  by (induction ps) (auto simp: full_matches_def List.map_filter_simps split: probe.splits)

lemma first_partial_None: "first_partial ps = None \<longleftrightarrow> (\<forall>s x y t. Partial s x y t \<notin> set ps)"
  by (induction ps) (auto split: probe.splits)

lemma first_partial_Some: "first_partial ps = Some (s, x, y, t) \<Longrightarrow> Partial s x y t \<in> set ps"
  by (induction ps) (auto split: probe.splits)

lemma map_of_get: "dict_get d k \<noteq> JNull \<Longrightarrow> (k, dict_get d k) \<in> set d"
  by (auto simp: dict_get_def dest: map_of_SomeD split: option.splits)

lemma token_keys:
  "contains_sub ''token'' (lower ''cumulative_input_tokens'')"
  "contains_sub ''token'' (lower ''cumulative_output_tokens'')"
  "contains_sub ''token'' (lower ''input_tokens'')" "contains_sub ''token'' (lower ''output_tokens'')"
  by code_simp+

text \<open>A carrier from which a count was read has a key that mentions tokens.\<close>

lemma probe_hit_key:
  assumes "fs \<in> set USAGE_FIELD_SETS" and "probe_carrier fs (label, d) \<noteq> Miss"
  shows "\<exists>k v. (k, v) \<in> set d \<and> contains_sub ''token'' (lower k)"
proof -
  obtain f ik ok tk where fs: "fs = (f, ik, ok, tk)" by (cases fs)
  have keys: "contains_sub ''token'' (lower ik)" "contains_sub ''token'' (lower ok)"
    using assms(1) token_keys by (auto simp: fs USAGE_FIELD_SETS_def)
  have "as_int_or_none (dict_get d ik) \<noteq> None \<or> as_int_or_none (dict_get d ok) \<noteq> None"
    using assms(2) by (auto simp: fs probe_carrier_def Let_def split: option.splits)
  then have "dict_get d ik \<noteq> JNull \<or> dict_get d ok \<noteq> JNull"
    by (auto simp: as_int_or_none_def)
  with keys map_of_get show ?thesis by blast
qed

lemma probes_hit_mentions:
  assumes "p \<in> set (usage_probes ev)" and "p \<noteq> Miss"
  shows "mentions_usage (Suc (Suc n)) (JObj (se_data ev))"
proof -
  from assms obtain fs label d where fs: "fs \<in> set USAGE_FIELD_SETS" and p: "p = probe_carrier fs (label, d)"
    and c: "(label, d) \<in> set (usage_carriers ev)"
    by (auto simp: usage_probes_def)
  obtain k v where kv: "(k, v) \<in> set d" "contains_sub ''token'' (lower k)"
    using probe_hit_key [OF fs] p assms(2) by blast
  from c consider "d = se_data ev" | "dict_get (se_data ev) ''usage'' = JObj d"
    by (auto simp: usage_carriers_def split: json.splits)
  then show ?thesis
  proof cases
    case 1
    with kv show ?thesis by (auto simp: list_ex_iff)
  next
    case 2
    then have "(''usage'', JObj d) \<in> set (se_data ev)"
      using map_of_get [of "se_data ev" "''usage''"] by simp
    moreover have "mentions_usage (Suc n) (JObj d)" using kv by (auto simp: list_ex_iff)
    ultimately show ?thesis
      unfolding mentions_usage.simps(2) [of "Suc n"] list_ex_iff
      by (intro bexI [of _ "(''usage'', JObj d)"]) (simp_all del: mentions_usage.simps)
  qed
qed

lemma recognised_iff: "uc_recognised (extract_usage_counts ev) \<longleftrightarrow> (\<exists>p \<in> set (usage_probes ev). p \<noteq> Miss)"
proof -
  have "full_matches (usage_probes ev) = [] \<longleftrightarrow> (\<forall>f s x y t. Full f s x y t \<notin> set (usage_probes ev))"
    using full_matches_mem by (metis list.set_intros(1) neq_Nil_conv prod_cases5 empty_iff list.set(1))
  then show ?thesis
    by (auto simp: extract_usage_counts_def Let_def first_partial_None split: option.splits
        dest!: first_partial_Some) (metis probe.exhaust)+
qed

subsection \<open>What the reader promises\<close>

text \<open>
  The money path reads a union, not a ranking: when any carrier holds both counts, the
  counts are the element-wise maxima over all carriers and field sets that do, so a zeroed carrier
  never hides a populated one; when nothing is readable the counts are zero and say so.
\<close>

theorem usage_is_the_maximum_of_its_carriers:
  "(Full f src x y t \<in> set (usage_probes ev) \<longrightarrow>
      x \<le> uc_input (extract_usage_counts ev) \<and> y \<le> uc_output (extract_usage_counts ev) \<and>
      (\<exists>f' s' y' t'. Full f' s' (uc_input (extract_usage_counts ev)) y' t' \<in> set (usage_probes ev)) \<and>
      (\<exists>f' s' x' t'. Full f' s' x' (uc_output (extract_usage_counts ev)) t' \<in> set (usage_probes ev))) \<and>
   (\<not> uc_recognised (extract_usage_counts ev) \<longrightarrow>
      uc_input (extract_usage_counts ev) = 0 \<and> uc_output (extract_usage_counts ev) = 0)"
proof -
  let ?full = "full_matches (usage_probes ev)"
  let ?X = "map (\<lambda>(_, _, x, _, _). x) ?full" and ?Y = "map (\<lambda>(_, _, _, y, _). y) ?full"
  have "x \<le> max_list ?X \<and> y \<le> max_list ?Y \<and>
      (\<exists>f' s' y' t'. Full f' s' (max_list ?X) y' t' \<in> set (usage_probes ev)) \<and>
      (\<exists>f' s' x' t'. Full f' s' x' (max_list ?Y) t' \<in> set (usage_probes ev)) \<and> ?full \<noteq> []"
    if "Full f src x y t \<in> set (usage_probes ev)"
  proof -
    have mem: "(f, src, x, y, t) \<in> set ?full" using that by (simp add: full_matches_mem)
    then have ne: "?X \<noteq> []" "?Y \<noteq> []" by auto
    have "x \<in> set ?X" "y \<in> set ?Y" using mem by force+
    moreover have "max_list ?X \<in> set ?X" "max_list ?Y \<in> set ?Y"
      unfolding max_list_Max [OF ne(1)] max_list_Max [OF ne(2)] using ne by (intro Max_in; simp)+
    moreover have "\<exists>f' s' y' t'. Full f' s' z y' t' \<in> set (usage_probes ev)" if "z \<in> set ?X" for z
      using that by (force simp: full_matches_mem)
    moreover have "\<exists>f' s' x' t'. Full f' s' x' z t' \<in> set (usage_probes ev)" if "z \<in> set ?Y" for z
      using that by (force simp: full_matches_mem)
    moreover have "z \<le> max_list ?X" if "z \<in> set ?X" for z
      using that by (simp only: max_list_Max [OF ne(1)]) (rule Max_ge, simp_all)
    moreover have "z \<le> max_list ?Y" if "z \<in> set ?Y" for z
      using that by (simp only: max_list_Max [OF ne(2)]) (rule Max_ge, simp_all)
    ultimately show ?thesis using mem by (metis list.set(1) empty_iff)
  qed
  then show ?thesis
    by (auto simp: extract_usage_counts_def Let_def split: option.splits)
qed

definition demo_usage_event :: sse_event where
  "demo_usage_event = \<lparr>se_name = Some ''run.completed'', se_data =
     [(''usage'', JObj [(''input_tokens'', JInt 6313), (''output_tokens'', JInt 658)]),
      (''cumulative_input_tokens'', JInt 0), (''cumulative_output_tokens'', JInt 0)]\<rparr>"

theorem usage_is_the_maximum_of_its_carriers_witness:
  "Full PerStep ''usage.per_step'' 6313 658 0 \<in> set (usage_probes demo_usage_event) \<and>
   6313 \<le> uc_input (extract_usage_counts demo_usage_event)"
proof -
  have "Full PerStep ''usage.per_step'' 6313 658 0 \<in> set (usage_probes demo_usage_event)" by code_simp
  then show ?thesis using usage_is_the_maximum_of_its_carriers by blast
qed

text \<open>
  The gate that silences the zero-billing warning covers the reader: a block that is
  declared provably free of usage is one from which no count was read, so its counts are zero.
\<close>

theorem usage_free_blocks_bill_nothing:
  assumes "is_provably_usage_free ev"
  shows "\<not> uc_recognised (extract_usage_counts ev) \<and>
    uc_input (extract_usage_counts ev) = 0 \<and> uc_output (extract_usage_counts ev) = 0"
proof -
  have d: "USAGE_GATE_MAX_DEPTH = Suc (Suc 2)" by (simp add: USAGE_GATE_MAX_DEPTH_def)
  have "\<not> uc_recognised (extract_usage_counts ev)"
    using assms probes_hit_mentions [of _ ev 2] by (auto simp: recognised_iff is_provably_usage_free_def d)
  then show ?thesis
    by (auto simp: extract_usage_counts_def Let_def split: option.splits if_splits)
qed

theorem usage_free_blocks_bill_nothing_witness:
  "is_provably_usage_free \<lparr>se_name = None, se_data = [(''event'', JStr ''run.completed''), (''usage'', JNull)]\<rparr> \<and>
   uc_input (extract_usage_counts \<lparr>se_name = None, se_data = [(''event'', JStr ''run.completed''), (''usage'', JNull)]\<rparr>) = 0"
proof -
  have "is_provably_usage_free \<lparr>se_name = None, se_data = [(''event'', JStr ''run.completed''), (''usage'', JNull)]\<rparr>"
    by code_simp
  with usage_free_blocks_bill_nothing [OF this] show ?thesis by simp
qed

end
