(* ===== verification/AgentRuns.thy ===== *)
theory AgentRuns
  imports Subscription
begin

text \<open>
  The lifecycle and snapshot rows of agent runs: \<^verbatim>\<open>src/app/agent_proxy/runs_repo.py\<close>
  and \<^verbatim>\<open>src/app/agent_proxy/snapshots_repo.py\<close>. One definition per statement; a method
  that returns the row count returns a natural. The time of the statement, \<open>now()\<close>, is an argument.
\<close>

subsection \<open>Lifecycle rows\<close>

definition AGENT_RUN_STATUS :: "string list" where
  "AGENT_RUN_STATUS = [''running'', ''paused'', ''resumed'', ''completed'', ''failed'', ''cancelled'']"

definition active_status :: "string \<Rightarrow> bool" where
  "active_status st \<longleftrightarrow> st = ''running'' \<or> st = ''resumed''"

definition run_of :: "string \<Rightarrow> db \<Rightarrow> agent_run option" where
  "run_of run_id s = map_of (agent_runs s) run_id"

definition set_run :: "string \<Rightarrow> agent_run \<Rightarrow> db \<Rightarrow> db" where
  "set_run run_id r s = s\<lparr>agent_runs := AList.update run_id r (agent_runs s)\<rparr>"

definition runs_get :: "string \<Rightarrow> agent_run option dbop" where
  "runs_get run_id = op_read (run_of run_id)"

definition create_running ::
  "int \<Rightarrow> string \<Rightarrow> uuid \<Rightarrow> string \<Rightarrow> string option \<Rightarrow> string option \<Rightarrow> string \<Rightarrow> unit dbop" where
  "create_running now run_id uid session_id model parent status = (\<lambda>s.
     if status \<notin> set AGENT_RUN_STATUS then (Inl DbError, s)
     else case run_of run_id s of
       Some _ \<Rightarrow> (Inr (), s)
     | None \<Rightarrow>
         if users s uid = None \<or> (\<exists>p. parent = Some p \<and> p \<noteq> run_id \<and> run_of p s = None)
         then (Inl DbError, s)
         else (Inr (), set_run run_id
                \<lparr>run_user = uid, run_session_id = session_id, run_status = status,
                 run_credits_spent = 0, run_last_billed_step = 0, run_paused_reason = None,
                 run_continued_from = parent, run_model = model, run_created_at = now,
                 run_updated_at = now\<rparr> s))"

text \<open>
  \<open>UPDATE agent_runs SET \<dots> WHERE run_id = :run_id AND cond\<close>, with the row count.
\<close>

definition update_run :: "string \<Rightarrow> (agent_run \<Rightarrow> bool) \<Rightarrow> (agent_run \<Rightarrow> agent_run) \<Rightarrow> nat dbop" where
  "update_run run_id cond f = (\<lambda>s.
     case run_of run_id s of
       None \<Rightarrow> (Inr 0, s)
     | Some r \<Rightarrow> if cond r then (Inr 1, set_run run_id (f r) s) else (Inr 0, s))"

text \<open>
  \<open>record_step\<close>: the checks \<open>cumulative_credits_spent >= 0\<close> and the four-byte
  \<open>last_billed_step\<close> of the table.
\<close>

definition record_step :: "int \<Rightarrow> string \<Rightarrow> int \<Rightarrow> int \<Rightarrow> unit dbop" where
  "record_step now run_id step_index credits = (\<lambda>s.
     if \<not> (- (2 ^ 31) \<le> step_index \<and> step_index < 2 ^ 31) then (Inl DbError, s)
     else case run_of run_id s of
       None \<Rightarrow> (Inr (), s)
     | Some r \<Rightarrow>
         if run_credits_spent r + credits < 0 then (Inl DbError, s)
         else (Inr (), set_run run_id
                (r\<lparr>run_last_billed_step := max (run_last_billed_step r) step_index,
                   run_credits_spent := run_credits_spent r + credits, run_updated_at := now\<rparr>) s))"

definition mark_paused :: "int \<Rightarrow> string \<Rightarrow> string \<Rightarrow> nat dbop" where
  "mark_paused now run_id reason =
     update_run run_id (\<lambda>r. active_status (run_status r))
       (\<lambda>r. r\<lparr>run_status := ''paused'', run_paused_reason := Some reason, run_updated_at := now\<rparr>)"

definition mark_status :: "int \<Rightarrow> string \<Rightarrow> string \<Rightarrow> nat dbop" where
  "mark_status now run_id status =
     (if status \<notin> set AGENT_RUN_STATUS then op_raise DbError
      else update_run run_id (\<lambda>r. active_status (run_status r))
             (\<lambda>r. r\<lparr>run_status := status, run_updated_at := now\<rparr>))"

definition mark_stopped :: "int \<Rightarrow> string \<Rightarrow> uuid \<Rightarrow> nat dbop" where
  "mark_stopped now run_id uid =
     update_run run_id (\<lambda>r. run_user r = uid \<and> active_status (run_status r))
       (\<lambda>r. r\<lparr>run_status := ''cancelled'', run_updated_at := now\<rparr>)"

definition has_child :: "string \<Rightarrow> db \<Rightarrow> bool" where
  "has_child run_id s = list_ex (\<lambda>(_, r). run_continued_from r = Some run_id) (agent_runs s)"

text \<open>Without an \<open>ORDER BY\<close> the first matching row in insertion order stands for the row found.\<close>

definition active_child :: "string \<Rightarrow> (string \<times> agent_run) option dbop" where
  "active_child parent = op_read (\<lambda>s. find (\<lambda>(_, r). run_continued_from r = Some parent) (agent_runs s))"

definition cas_resume :: "int \<Rightarrow> string \<Rightarrow> (string \<times> string option) option dbop" where
  "cas_resume now run_id =
     op_bind (op_read (run_of run_id)) (\<lambda>row.
     op_bind (update_run run_id (\<lambda>r. run_status r = ''paused'')
                (\<lambda>r. r\<lparr>run_status := ''resumed'', run_updated_at := now\<rparr>)) (\<lambda>n.
     op_return (if n = 1 then map_option (\<lambda>r. (run_session_id r, run_model r)) row else None)))"

definition revert_cas :: "int \<Rightarrow> string \<Rightarrow> nat dbop" where
  "revert_cas now run_id = (\<lambda>s.
     update_run run_id (\<lambda>r. run_status r = ''resumed'' \<and> \<not> has_child run_id s)
       (\<lambda>r. r\<lparr>run_status := ''paused'', run_updated_at := now\<rparr>) s)"

text \<open>
  \<open>list_orphan_candidates\<close>: active runs whose last heartbeat (or creation) is older than the
  timeout, oldest first. The age is in microseconds.
\<close>

record orphan_candidate =
  oc_run_id :: string
  oc_user :: uuid
  oc_snapshot_present :: bool
  oc_age :: int
  oc_input_tokens :: int
  oc_output_tokens :: int

definition last_seen :: "db \<Rightarrow> string \<Rightarrow> agent_run \<Rightarrow> int" where
  "last_seen s run_id r =
     (case agent_snapshots s run_id of
        Some sn \<Rightarrow> (case snap_heartbeat_at sn of Some t \<Rightarrow> t | None \<Rightarrow> run_created_at r)
      | None \<Rightarrow> run_created_at r)"

definition list_orphan_candidates :: "int \<Rightarrow> int \<Rightarrow> nat \<Rightarrow> orphan_candidate list dbop" where
  "list_orphan_candidates now timeout_seconds limit = op_read (\<lambda>s.
     take limit
       (map (\<lambda>(k, r).
          \<lparr>oc_run_id = k, oc_user = run_user r,
           oc_snapshot_present = (agent_snapshots s k \<noteq> None),
           oc_age = now - last_seen s k r,
           oc_input_tokens = (case agent_snapshots s k of Some sn \<Rightarrow> snap_input_tokens sn | None \<Rightarrow> 0),
           oc_output_tokens = (case agent_snapshots s k of Some sn \<Rightarrow> snap_output_tokens sn | None \<Rightarrow> 0)\<rparr>)
         (sort_key (\<lambda>(_, r). run_created_at r)
           (filter (\<lambda>(k, r). active_status (run_status r) \<and>
                             last_seen s k r < now - timeout_seconds * 1000000)
             (agent_runs s)))))"

subsection \<open>Snapshot rows\<close>

record snapshot_upsert_result =
  su_applied :: bool
  su_stored_text_length :: nat

definition snapshots_get :: "string \<Rightarrow> uuid \<Rightarrow> agent_snapshot option dbop" where
  "snapshots_get run_id uid = op_read (\<lambda>s.
     case agent_snapshots s run_id of
       Some sn \<Rightarrow> if snap_user sn = uid then Some sn else None
     | None \<Rightarrow> None)"

text \<open>The per-column merge of \<open>ON CONFLICT (run_id) DO UPDATE\<close>.\<close>

definition merge_snapshot :: "agent_snapshot \<Rightarrow> agent_snapshot \<Rightarrow> bool \<Rightarrow> agent_snapshot" where
  "merge_snapshot t ex assert_approval =
     t\<lparr>snap_result_text :=
         (if length (snap_result_text ex) \<ge> length (snap_result_text t) \<and>
             take (length (snap_result_text t)) (snap_result_text ex) = snap_result_text t
          then snap_result_text ex else snap_result_text t),
       snap_input_tokens := max (snap_input_tokens t) (snap_input_tokens ex),
       snap_output_tokens := max (snap_output_tokens t) (snap_output_tokens ex),
       snap_last_tool := snap_last_tool ex,
       snap_pending_approval :=
         (if assert_approval then snap_pending_approval ex else snap_pending_approval t),
       snap_updated_at := snap_updated_at ex\<rparr>"

text \<open>
  \<open>upsert\<close>: the row references the run and the user, and its counters are checked to be
  non-negative before the conflict is resolved.
\<close>

definition snapshot_upsert :: "string \<Rightarrow> agent_snapshot \<Rightarrow> bool \<Rightarrow> snapshot_upsert_result dbop" where
  "snapshot_upsert run_id ex assert_approval = (\<lambda>s.
     if snap_input_tokens ex < 0 \<or> snap_output_tokens ex < 0 then (Inl DbError, s)
     else case agent_snapshots s run_id of
       Some t \<Rightarrow>
         if snap_user t = snap_user ex
         then let t' = merge_snapshot t ex assert_approval in
           (Inr \<lparr>su_applied = True, su_stored_text_length = length (snap_result_text t')\<rparr>,
            s\<lparr>agent_snapshots := (agent_snapshots s)(run_id \<mapsto> t')\<rparr>)
         else (Inr \<lparr>su_applied = False, su_stored_text_length = 0\<rparr>, s)
     | None \<Rightarrow>
         if run_of run_id s = None \<or> users s (snap_user ex) = None then (Inl DbError, s)
         else (Inr \<lparr>su_applied = True, su_stored_text_length = length (snap_result_text ex)\<rparr>,
               s\<lparr>agent_snapshots := (agent_snapshots s)(run_id \<mapsto> ex\<lparr>snap_heartbeat_at := None\<rparr>)\<rparr>))"

definition touch_consumer_heartbeat :: "int \<Rightarrow> string \<Rightarrow> nat dbop" where
  "touch_consumer_heartbeat now run_id = (\<lambda>s.
     case agent_snapshots s run_id of
       None \<Rightarrow> (Inr 0, s)
     | Some sn \<Rightarrow>
         (Inr 1, s\<lparr>agent_snapshots := (agent_snapshots s)(run_id \<mapsto> sn\<lparr>snap_heartbeat_at := Some now\<rparr>)\<rparr>))"

definition ensure_row :: "int \<Rightarrow> string \<Rightarrow> uuid \<Rightarrow> unit dbop" where
  "ensure_row now run_id uid = (\<lambda>s.
     case agent_snapshots s run_id of
       Some _ \<Rightarrow> (Inr (), s)
     | None \<Rightarrow>
         if run_of run_id s = None \<or> users s uid = None then (Inl DbError, s)
         else (Inr (), s\<lparr>agent_snapshots := (agent_snapshots s)(run_id \<mapsto>
                 \<lparr>snap_user = uid, snap_result_text = [], snap_last_tool = None,
                  snap_pending_approval = None, snap_input_tokens = 0, snap_output_tokens = 0,
                  snap_updated_at = now, snap_heartbeat_at = None\<rparr>)\<rparr>))"

definition clear_pending_approval :: "int \<Rightarrow> string \<Rightarrow> uuid \<Rightarrow> nat dbop" where
  "clear_pending_approval now run_id uid = (\<lambda>s.
     case agent_snapshots s run_id of
       Some sn \<Rightarrow>
         if snap_user sn = uid \<and> snap_pending_approval sn \<noteq> None
         then (Inr 1, s\<lparr>agent_snapshots := (agent_snapshots s)(run_id \<mapsto>
                 sn\<lparr>snap_pending_approval := None, snap_updated_at := now\<rparr>)\<rparr>)
         else (Inr 0, s)
     | None \<Rightarrow> (Inr 0, s))"

text \<open>
  \<open>sweep_expired\<close>: the rows it clears are those of runs, so the count runs over the run table.
\<close>

definition sweep_hits :: "int \<Rightarrow> int \<Rightarrow> db \<Rightarrow> string \<Rightarrow> bool" where
  "sweep_hits now ttl_days s run_id =
     (case (agent_snapshots s run_id, run_of run_id s) of
        (Some sn, Some r) \<Rightarrow>
          snap_updated_at sn < now - ttl_days * 86400000000 \<and>
          (snap_result_text sn \<noteq> [] \<or> snap_pending_approval sn \<noteq> None) \<and>
          run_status r \<in> {''completed'', ''failed'', ''cancelled'', ''paused''}
      | _ \<Rightarrow> False)"

definition sweep_expired :: "int \<Rightarrow> int \<Rightarrow> nat dbop" where
  "sweep_expired now ttl_days = (\<lambda>s.
     (Inr (length (filter (sweep_hits now ttl_days s) (map fst (agent_runs s)))),
      s\<lparr>agent_snapshots := (\<lambda>k.
          if sweep_hits now ttl_days s k
          then map_option (\<lambda>sn. sn\<lparr>snap_result_text := [], snap_pending_approval := None\<rparr>)
                 (agent_snapshots s k)
          else agent_snapshots s k)\<rparr>))"

subsection \<open>Lemmas\<close>

lemma run_of_set_run [simp]: "run_of k (set_run k' r s) = (if k = k' then Some r else run_of k s)"
  by (simp add: run_of_def set_run_def update_conv')

lemma set_run_frame [simp]:
  "users (set_run k r s) = users s" "agent_snapshots (set_run k r s) = agent_snapshots s"
  "wallets (set_run k r s) = wallets s" "ledger (set_run k r s) = ledger s"
  "audit_logs (set_run k r s) = audit_logs s" "wallet_inv (set_run k r s) = wallet_inv s"
  by (simp_all add: set_run_def)

lemma has_child_iff: "has_child p s \<longleftrightarrow> (\<exists>k r. (k, r) \<in> set (agent_runs s) \<and> run_continued_from r = Some p)"
  by (auto simp: has_child_def list_ex_iff)

lemma merge_text:
  "snap_result_text (merge_snapshot t ex b) =
     (if prefix (snap_result_text t) (snap_result_text ex) then snap_result_text ex else snap_result_text t)"
proof -
  have "length (snap_result_text ex) \<ge> length (snap_result_text t) \<and>
      take (length (snap_result_text t)) (snap_result_text ex) = snap_result_text t \<longleftrightarrow>
      prefix (snap_result_text t) (snap_result_text ex)"
    by (metis append_eq_conv_conj prefix_def prefix_length_le take_is_prefix)
  then show ?thesis by (simp add: merge_snapshot_def)
qed

end
