(* ===== verification/AgentBilling.thy ===== *)
theory AgentBilling
  imports AgentEvents AgentRuns
begin

text \<open>
  The price of an agent run (\<^verbatim>\<open>src/app/agent_proxy/billing.py\<close>) and the debits of
  \<^verbatim>\<open>src/app/agent_proxy/service.py\<close>: one per usage event, the remainder at the end of
  the run, and the finalization of abandoned runs. A \<open>commit()\<close> makes the state so far durable; a
  \<open>rollback()\<close> returns to the last commit, which for each of these methods is the state it was
  called on. Warnings are not modelled.
\<close>

subsection \<open>Price\<close>

definition usage_to_credits :: "int \<Rightarrow> int \<Rightarrow> float64 \<Rightarrow> float64 \<Rightarrow> exn + int" where
  "usage_to_credits input_tokens output_tokens per_in per_out =
     (let i = max input_tokens 0; o' = max output_tokens 0 in
      if i = 0 \<and> o' = 0 then Inr 0
      else case (float_of_int i, float_of_int o') of
        (Some fi, Some fo) \<Rightarrow>
          let raw = fadd (fmul (fdiv_const fi 1000) per_in) (fmul (fdiv_const fo 1000) per_out) in
          (case fceil raw of
             Some amount \<Rightarrow> Inr (max amount 1)
           | None \<Rightarrow> Inl (PyError (if raw = NaN then ''ValueError'' else ''OverflowError'')))
      | _ \<Rightarrow> Inl (PyError ''OverflowError''))"

subsection \<open>One usage event\<close>

definition step_key :: "string \<Rightarrow> int \<Rightarrow> string" where
  "step_key run_id step_index = run_id @ '':'' @ int_str step_index"

definition step_meta :: "string \<Rightarrow> int \<Rightarrow> sse_event \<Rightarrow> dict" where
  "step_meta run_id step_index ev =
     (let d = se_data ev; usage = extract_usage_counts ev in
      [(''source'', JStr AGENT_RUN_SOURCE), (''incremental'', JBool True), (''runId'', JStr run_id),
       (''stepIndex'', JInt step_index),
       (''usage'', JObj
         [(''input_tokens'', JInt (as_int (dict_get d ''input_tokens''))),
          (''output_tokens'', JInt (as_int (dict_get d ''output_tokens''))),
          (''cumulative_input_tokens'', JInt (as_int (dict_get d ''cumulative_input_tokens''))),
          (''cumulative_output_tokens'', JInt (as_int (dict_get d ''cumulative_output_tokens''))),
          (''billed_input'', JInt (uc_input usage)), (''billed_output'', JInt (uc_output usage)),
          (''billed_from'', JList (map JStr (uc_sources usage)))]),
       (''model'', opt_str (extract_model ev))])"

definition bill_step ::
  "settings \<Rightarrow> int \<Rightarrow> uuid \<Rightarrow> string \<Rightarrow> sse_event \<Rightarrow> int \<Rightarrow> (int \<times> bool) dbop" where
  "bill_step cfg now uid run_id ev charged =
     (let usage = extract_usage_counts ev;
          step_index = as_int (dict_get (se_data ev) ''step_index'')
      in case usage_to_credits (uc_input usage) (uc_output usage)
                (credits_per_1k_input cfg) (credits_per_1k_output cfg) of
           Inl e \<Rightarrow> op_raise e
         | Inr owed \<Rightarrow>
             let want = owed - charged in
             if want \<le> 0 then op_return (charged, False)
             else op_bind (op_read (current_balance uid)) (\<lambda>bal.
               let charge = min want bal in
               if charge > 0 then
                 op_bind (consume cfg uid charge (step_key run_id step_index)
                            (step_meta run_id step_index ev) None) (\<lambda>result.
                 if cr_idempotent_replay result then op_return (charged, False)
                 else
                   let actual = cr_charged_amount result in
                   op_bind (if actual > 0 then record_step now run_id step_index actual
                            else op_return ()) (\<lambda>_.
                   op_return (charged + actual, actual < want)))
               else op_return (charged, 0 < want)))"

subsection \<open>End of a run\<close>

definition record_insufficient ::
  "uuid \<Rightarrow> string \<Rightarrow> int \<Rightarrow> string option \<Rightarrow> int \<Rightarrow> int \<Rightarrow> int \<Rightarrow> unit dbop" where
  "record_insufficient uid run_id amount model input_tokens output_tokens total_tokens =
     op_bind (op_read (current_balance uid)) (\<lambda>bal.
       audit_record
         \<lparr>ev_user = uid, ev_type = EVENT_BILLING_DEBIT_INSUFFICIENT,
          ev_payload =
            [(''runId'', JStr run_id),
             (''usage'', JObj [(''input_tokens'', JInt input_tokens), (''output_tokens'', JInt output_tokens),
                               (''total_tokens'', JInt total_tokens)]),
             (''model'', opt_str model), (''amount'', JInt amount), (''balance'', JInt bal)],
          ev_session = None\<rparr>)"

text \<open>
  \<open>_bill_completed\<close>: an \<open>InsufficientCreditsError\<close> of the debit is recorded, any other
  exception of it is rolled back and swallowed.
\<close>

definition completed_meta :: "string \<Rightarrow> sse_event \<Rightarrow> dict" where
  "completed_meta run_id ev =
     (let usage = extract_usage_counts ev in
      [(''source'', JStr AGENT_RUN_SOURCE), (''runId'', JStr run_id),
       (''usage'', JObj [(''input_tokens'', JInt (uc_input usage)), (''output_tokens'', JInt (uc_output usage)),
                         (''total_tokens'', JInt (uc_total usage))]),
       (''model'', opt_str (extract_model ev))])"

definition bill_completed ::
  "settings \<Rightarrow> uuid \<Rightarrow> string \<Rightarrow> sse_event \<Rightarrow> int \<Rightarrow> bool dbop" where
  "bill_completed cfg uid run_id ev charged =
     (let usage = extract_usage_counts ev in
      case usage_to_credits (uc_input usage) (uc_output usage)
             (credits_per_1k_input cfg) (credits_per_1k_output cfg) of
        Inl e \<Rightarrow> op_raise e
      | Inr owed \<Rightarrow>
          let amount = owed - charged in
          if amount \<le> 0 then op_return True
          else (\<lambda>s.
            case consume cfg uid amount run_id (completed_meta run_id ev) None s of
              (Inr _, s') \<Rightarrow> (Inr True, s')
            | (Inl e, s') \<Rightarrow>
                if exn_is InsufficientCreditsError e
                then op_bind (record_insufficient uid run_id amount (extract_model ev)
                                (uc_input usage) (uc_output usage) (uc_total usage))
                       (\<lambda>_. op_return True) s'
                else (Inr True, s)))"

definition mark_terminal :: "int \<Rightarrow> string \<Rightarrow> string \<Rightarrow> unit dbop" where
  "mark_terminal now run_id status = (\<lambda>s.
     case mark_status now run_id status s of
       (Inr _, s') \<Rightarrow> (Inr (), s')
     | (Inl DbError, _) \<Rightarrow> (Inr (), s)
     | (Inl e, s') \<Rightarrow> (Inl e, s'))"

text \<open>
  \<open>finalize_orphan_run\<close>. The debit and the status are one transaction here, so the roll-back
  of a failed status write would also undo the debit; the status written is a constant of the
  enumeration and its statement does not fail.
\<close>

definition EVENT_ORPHAN_FINALIZED :: string where
  "EVENT_ORPHAN_FINALIZED = ''agent_run_orphan_finalized''"

definition orphan_meta :: "string \<Rightarrow> dict" where
  "orphan_meta run_id = [(''source'', JStr AGENT_RUN_SOURCE), (''orphan'', JBool True), (''runId'', JStr run_id)]"

definition orphan_debit ::
  "settings \<Rightarrow> uuid \<Rightarrow> string \<Rightarrow> int \<Rightarrow> int \<Rightarrow> int \<Rightarrow> int dbop" where
  "orphan_debit cfg uid run_id input_tokens output_tokens owed =
     (if owed > 0 then
        op_catch
          (op_bind (consume cfg uid owed run_id (orphan_meta run_id) None) (\<lambda>r.
             op_return (cr_charged_amount r)))
          (\<lambda>e. if exn_is InsufficientCreditsError e
               then op_bind (record_insufficient uid run_id owed None input_tokens output_tokens
                               (input_tokens + output_tokens)) (\<lambda>_. op_return 0)
               else op_raise e)
      else op_return 0)"

definition orphan_event ::
  "uuid \<Rightarrow> string \<Rightarrow> int \<Rightarrow> int \<Rightarrow> int \<Rightarrow> int \<Rightarrow> int \<Rightarrow> string \<Rightarrow> rat \<Rightarrow> audit_event" where
  "orphan_event uid run_id input_tokens output_tokens observed already_charged billed basis heartbeat_age =
     \<lparr>ev_user = uid, ev_type = EVENT_ORPHAN_FINALIZED,
      ev_payload =
        [(''runId'', JStr run_id),
         (''usage'', JObj [(''input_tokens'', JInt input_tokens), (''output_tokens'', JInt output_tokens)]),
         (''observed'', JInt observed), (''alreadyCharged'', JInt already_charged),
         (''billed'', JInt billed), (''billingBasis'', JStr basis),
         (''heartbeatAgeSeconds'', JFloat heartbeat_age)],
      ev_session = None\<rparr>"

definition finalize_orphan_run ::
  "settings \<Rightarrow> int \<Rightarrow> uuid \<Rightarrow> string \<Rightarrow> int \<Rightarrow> int \<Rightarrow> bool \<Rightarrow> rat \<Rightarrow> unit dbop" where
  "finalize_orphan_run cfg now uid run_id input_tokens output_tokens snapshot_present heartbeat_age =
     (let basis = orphan_billing_basis snapshot_present input_tokens output_tokens in
      case usage_to_credits input_tokens output_tokens
             (credits_per_1k_input cfg) (credits_per_1k_output cfg) of
        Inl e \<Rightarrow> op_raise e
      | Inr observed \<Rightarrow>
          op_bind (op_read (charged_for_run uid run_id)) (\<lambda>already_charged.
          op_bind (orphan_debit cfg uid run_id input_tokens output_tokens
                     (max (observed - already_charged) 0)) (\<lambda>billed.
          op_bind (mark_terminal now run_id ''failed'') (\<lambda>_.
          audit_record (orphan_event uid run_id input_tokens output_tokens observed already_charged
                          billed basis heartbeat_age)))))"

subsection \<open>Lemmas on the price\<close>

lemma usage_to_credits_zero:
  "usage_to_credits i o' a b = Inr n \<Longrightarrow> 0 \<le> n \<and> (n = 0 \<longleftrightarrow> i \<le> 0 \<and> o' \<le> 0)"
  by (auto simp: usage_to_credits_def Let_def max_def split: option.splits if_splits)

lemma float_of_int_Fin:
  "float_of_int n = Some x \<Longrightarrow> 0 \<le> n \<Longrightarrow> \<exists>q. x = Fin q \<and> 0 \<le> q \<and> q < 2 ^ 1024"
  by (cases "round64 (of_int n)") (auto simp: float_of_int_def dest!: round64_Fin_bound [rotated])

lemma fdiv_const_Fin:
  assumes "0 \<le> a" "a < 2 ^ 1024"
  shows "\<exists>p. fdiv_const (Fin a) 1000 = Fin p \<and> 0 \<le> p"
proof -
  have "(2 :: rat) ^ 1024 = 2 * 2 ^ 1023" by simp
  then have "a / 1000 < 2 ^ 1023" using assms by (simp add: divide_less_eq)
  from round_mag_no_overflow [OF this] show ?thesis
    using assms by (simp add: fdiv_const_def round64_nonneg)
qed

text \<open>The cost of one direction: monotone in the count for a finite non-negative rate.\<close>

lemma side_cost_mono:
  assumes "0 \<le> m" "m \<le> n" "0 \<le> c" "float_of_int m = Some x" "float_of_int n = Some y"
  shows "fle (fmul (fdiv_const x 1000) (Fin c)) (fmul (fdiv_const y 1000) (Fin c))"
proof -
  obtain a where a: "x = Fin a" "0 \<le> a" "a < 2 ^ 1024"
    using float_of_int_Fin [OF assms(4,1)] by blast
  obtain b where b: "y = Fin b" "0 \<le> b" "b < 2 ^ 1024"
    using float_of_int_Fin [OF assms(5)] assms(1,2) by auto
  have "fle x y" using float_of_int_mono [OF assms(1,2,5)] assms(4) by auto
  then have le: "a \<le> b" using a b by simp
  have d: "fle (fdiv_const (Fin a) 1000) (fdiv_const (Fin b) 1000)"
    by (rule fdiv_const_mono [OF a(2) le]) simp
  obtain p q where pq: "fdiv_const (Fin a) 1000 = Fin p" "fdiv_const (Fin b) 1000 = Fin q"
    using fdiv_const_Fin a b by meson
  with d have "0 \<le> p" "p \<le> q" by simp_all
  from fmul_mono [OF this assms(3)] show ?thesis by (simp add: a b pq)
qed

lemma usage_to_credits_mono:
  assumes "i \<le> i'" "o' \<le> p'" "0 \<le> a" "0 \<le> b"
    and n': "usage_to_credits i' p' (Fin a) (Fin b) = Inr n'"
  shows "\<exists>n. usage_to_credits i o' (Fin a) (Fin b) = Inr n \<and> n \<le> n'"
proof (cases "i \<le> 0 \<and> o' \<le> 0")
  case True
  then show ?thesis using usage_to_credits_zero [OF n'] by (auto simp: usage_to_credits_def)
next
  case False
  with assms(1,2) have "\<not> (i' \<le> 0 \<and> p' \<le> 0)" by auto
  with n' obtain fi fo c where f: "float_of_int (max i' 0) = Some fi" "float_of_int (max p' 0) = Some fo"
    and c: "fceil (fadd (fmul (fdiv_const fi 1000) (Fin a)) (fmul (fdiv_const fo 1000) (Fin b))) = Some c"
    and nc: "n' = max c 1"
    by (auto simp: usage_to_credits_def Let_def split: option.splits if_splits)
  have le: "0 \<le> max i 0" "max i 0 \<le> max i' 0" "0 \<le> max o' 0" "max o' 0 \<le> max p' 0"
    using assms(1,2) by auto
  obtain gi go where g: "float_of_int (max i 0) = Some gi" "float_of_int (max o' 0) = Some go"
    using float_of_int_mono [OF le(1,2) f(1)] float_of_int_mono [OF le(3,4) f(2)] by blast
  have "fle (fmul (fdiv_const gi 1000) (Fin a)) (fmul (fdiv_const fi 1000) (Fin a))"
    "fle (fmul (fdiv_const go 1000) (Fin b)) (fmul (fdiv_const fo 1000) (Fin b))"
    by (rule side_cost_mono [OF le(1,2) assms(3) g(1) f(1)],
        rule side_cost_mono [OF le(3,4) assms(4) g(2) f(2)])
  from fceil_mono [OF fadd_mono [OF this] c] obtain m where
    "fceil (fadd (fmul (fdiv_const gi 1000) (Fin a)) (fmul (fdiv_const go 1000) (Fin b))) = Some m" "m \<le> c"
    by blast
  with False g nc show ?thesis by (auto simp: usage_to_credits_def Let_def)
qed

subsection \<open>What a debit adds to the credits charged for a run\<close>

definition run_keyed :: "string \<Rightarrow> string \<Rightarrow> bool" where
  "run_keyed run_id key \<longleftrightarrow> key = run_id \<or> startswith key (run_id @ '':'')"

lemma run_keyed_self [simp]: "run_keyed k k" "run_keyed k (step_key k i)"
  by (simp_all add: run_keyed_def step_key_def)

lemma charged_for_run_eq:
  "charged_for_run uid run_id s =
     sum_list (map tx_amount
       (filter (\<lambda>t. tx_user t = uid \<and> tx_type t = Debit \<and> run_keyed run_id (tx_key t)) (ledger s)))"
  by (simp add: charged_for_run_def like_match_run_prefix run_keyed_def)

lemma charged_for_run_post_debit:
  "charged_for_run uid run_id (post_debit uid w c d key meta row s) =
     charged_for_run uid run_id s + (if run_keyed run_id key then c else 0)"
  by (simp add: charged_for_run_eq post_debit_def)

lemma charged_for_run_cong: "ledger t = ledger s \<Longrightarrow> charged_for_run uid run_id t = charged_for_run uid run_id s"
  by (simp add: charged_for_run_def)

lemma debit_effect_charged_for_run:
  assumes "debit_effect uid key meta s (Inr r) t" "run_keyed run_id key"
  shows "charged_for_run uid run_id t = charged_for_run uid run_id s + cr_charged_amount r"
  using assms by (auto simp: debit_effect_def charged_for_run_post_debit)

lemma consume_charged_for_run:
  assumes "consume cfg uid amount key meta sid s = (Inr r, t)" "run_keyed run_id key"
  shows "charged_for_run uid run_id t = charged_for_run uid run_id s + cr_charged_amount r"
proof -
  have "debit_effect uid key meta (ensured uid s) (Inr r) t" using consume_success [OF assms(1)] by simp
  from debit_effect_charged_for_run [OF this assms(2)] show ?thesis
    by (simp add: charged_for_run_cong [of "ensured uid s" s])
qed

text \<open>The incremental debit of a step: it takes what the balance allows, or nothing on a replay.\<close>

lemma step_meta_incremental [simp]: "truthy (dict_get (step_meta r i ev) ''incremental'')"
  by (simp add: step_meta_def Let_def)

lemma consume_step_eval:
  assumes "0 < amount" "wallets s uid = Some w" "0 < balance w" "truthy (dict_get meta ''incremental'')"
  shows "consume cfg uid amount key meta None s =
    (case existing_tx uid key s of
       Some x \<Rightarrow> (Inr (replay_result uid x s), s)
     | None \<Rightarrow>
         let c = min amount (balance w) in
         (Inr \<lparr>cr_new_balance = balance w - c, cr_ledger_tx_id = next_id s,
               cr_idempotent_replay = False, cr_charged_amount = c\<rparr>,
          post_debit uid w c 0 key meta (step_row uid c (balance w - c) meta s) s))"
  using assms
  by (auto simp: consume_eval session_error_def consume_route_def ensured_idem consume_incremental_replay
      consume_incremental_fresh Let_def split: option.splits)

lemma record_step_ledger:
  "ledger (snd (record_step now k i c s)) = ledger s" "wallets (snd (record_step now k i c s)) = wallets s"
  by (auto simp: record_step_def split: option.splits)

lemma bill_step_eval:
  assumes "usage_to_credits (uc_input (extract_usage_counts ev)) (uc_output (extract_usage_counts ev))
       (credits_per_1k_input cfg) (credits_per_1k_output cfg) = Inr owed"
    and "0 < owed - charged" "0 < min (owed - charged) (current_balance uid s)"
    and "consume cfg uid (min (owed - charged) (current_balance uid s))
        (step_key run_id (as_int (dict_get (se_data ev) ''step_index'')))
        (step_meta run_id (as_int (dict_get (se_data ev) ''step_index'')) ev) None s = (Inr r, s1)"
    and "\<not> cr_idempotent_replay r" "0 < cr_charged_amount r"
  shows "bill_step cfg now uid run_id ev charged s =
    op_bind (record_step now run_id (as_int (dict_get (se_data ev) ''step_index'')) (cr_charged_amount r))
      (\<lambda>_. op_return (charged + cr_charged_amount r, cr_charged_amount r < owed - charged)) s1"
  using assms by (simp add: bill_step_def Let_def op_bind_read op_bind_InrI)

lemma bill_step_cases:
  assumes "bill_step cfg now uid run_id ev charged s = (Inr (charged', depleted), t)"
  obtains owed where
    "usage_to_credits (uc_input (extract_usage_counts ev)) (uc_output (extract_usage_counts ev))
       (credits_per_1k_input cfg) (credits_per_1k_output cfg) = Inr owed"
    "charged' - charged = charged_for_run uid run_id t - charged_for_run uid run_id s"
    "current_balance uid t = current_balance uid s - (charged' - charged)"
    "current_debt uid t = current_debt uid s"
    "charged \<le> charged'" "charged' \<le> max charged owed"
    "0 \<le> current_balance uid s \<Longrightarrow> 0 \<le> current_balance uid t"
    "depleted \<Longrightarrow> charged' < owed"
    "depleted \<Longrightarrow> 0 \<le> current_balance uid s \<Longrightarrow> current_balance uid t = 0"
    "\<not> depleted \<Longrightarrow> charged' = max charged owed \<or>
       existing_tx uid (step_key run_id (as_int (dict_get (se_data ev) ''step_index''))) s \<noteq> None"
    "\<And>k. k \<noteq> step_key run_id (as_int (dict_get (se_data ev) ''step_index'')) \<Longrightarrow>
       existing_tx uid k t = existing_tx uid k s"
proof -
  let ?i = "as_int (dict_get (se_data ev) ''step_index'')"
  obtain owed where owed: "usage_to_credits (uc_input (extract_usage_counts ev))
      (uc_output (extract_usage_counts ev)) (credits_per_1k_input cfg) (credits_per_1k_output cfg) = Inr owed"
    using assms by (auto simp: bill_step_def Let_def split: sum.splits)
  let ?want = "owed - charged" and ?bal = "current_balance uid s"
  show thesis
  proof (cases "?want \<le> 0 \<or> ?bal \<le> 0")
    case True
    with assms owed have "t = s" "charged' = charged" "depleted = (0 < ?want)"
      by (auto simp: bill_step_def Let_def op_bind_def min_def split: if_splits)
    with True show thesis by (intro that [OF owed]) auto
  next
    case False
    then obtain w where w: "wallets s uid = Some w" "balance w = ?bal"
      by (auto simp: current_balance_def split: option.splits)
    let ?c = "min ?want ?bal"
    let ?cons = "consume cfg uid ?c (step_key run_id ?i) (step_meta run_id ?i ev) None s"
    have c: "0 < ?c" using False by simp
    show thesis
    proof (cases "existing_tx uid (step_key run_id ?i) s")
      case (Some x)
      with assms owed False c w have "t = s" "charged' = charged" "\<not> depleted"
        by (auto simp: bill_step_def Let_def op_bind_def consume_step_eval replay_result_def
            split: if_splits)
      with Some False show thesis by (intro that [OF owed]) auto
    next
      case None
      let ?s1 = "post_debit uid w ?c 0 (step_key run_id ?i) (step_meta run_id ?i ev)
          (step_row uid ?c (balance w - ?c) (step_meta run_id ?i ev) s) s"
      have cons: "?cons = (Inr \<lparr>cr_new_balance = balance w - ?c, cr_ledger_tx_id = next_id s,
               cr_idempotent_replay = False, cr_charged_amount = ?c\<rparr>, ?s1)"
        using consume_step_eval [OF c w(1), of "step_meta run_id ?i ev" cfg "step_key run_id ?i"] None False w
        by (simp add: Let_def min_absorb1)
      have run: "op_bind (record_step now run_id ?i ?c) (\<lambda>_. op_return (charged + ?c, ?c < ?want)) ?s1 =
          (Inr (charged', depleted), t)"
        using bill_step_eval [OF owed _ c cons] assms False c by simp
      then have r: "t = snd (record_step now run_id ?i ?c ?s1)" "charged' = charged + ?c"
          "depleted = (?c < ?want)"
        unfolding op_bind_Inr_iff by auto
      have led: "ledger t = ledger ?s1" "wallets t = wallets ?s1" using r record_step_ledger by auto
      have f1: "charged_for_run uid run_id t = charged_for_run uid run_id s + ?c"
        using charged_for_run_cong [OF led(1)] by (simp add: charged_for_run_post_debit)
      have wt: "wallets t uid = Some (w\<lparr>balance := balance w - ?c, debt := debt w + 0\<rparr>)"
        unfolding led(2) by (simp add: post_debit_def)
      have f2: "current_balance uid t = ?bal - ?c" "current_debt uid t = current_debt uid s"
        unfolding current_of_wallet [OF wt] current_of_wallet [OF w(1)] by simp_all
      have m: "?c \<le> ?want" "?c < ?want \<Longrightarrow> ?c = ?bal" "?c \<le> ?bal" by linarith+
      have f3: "existing_tx uid k t = existing_tx uid k s" if "k \<noteq> step_key run_id ?i" for k
        using that by (auto simp: existing_tx_def led(1) post_debit_def find_append split: option.splits)
      show thesis
        by (rule that [OF owed]) (use f1 f2 r m c in linarith, (use f1 f2 r m c in linarith)+, rule f3)
    qed
  qed
qed

end
