(* ===== verification/AgentProcess.thy ===== *)
theory AgentProcess
  imports AgentBilling
begin

text \<open>
  The rules of one upstream event (\<^verbatim>\<open>src/app/agent_proxy/service.py\<close>,
  \<open>process_event\<close> and what it calls): the relay-local accumulation, the throttled snapshot
  writer, the incremental debit, the pause at zero and the terminal statuses.

  An operation runs on the pair of the mutable \<open>_RunProcessing\<close> object and the database. Every
  write is followed by a commit before the next one, so a roll-back returns to the state the writer
  was called on. Readings of \<open>time.monotonic()\<close> are exact rationals and arguments; log lines are
  kept in the field \<open>rs_log\<close>, so that the one-line-per-relay latches can be stated.
\<close>

subsection \<open>Relay state\<close>

datatype relay_warning =
    CarrierUnknown | DeltaSilent nat | NoDeltaText nat | AnchorsFrozen nat
  | UsageUnrecognised string | UsageHalfRead string | UsageDivergent string | UsageNonMonotonic string
  | ZeroBilledWithText nat | ZeroBilledShapeUnknown | FinalBelowBilled int int
  | TenancySkip | TextFrozen nat nat | SnapshotWriteFailed

record relay_state =
  rs_partial_text :: "string list"
  rs_steps :: "dict list"
  rs_last_tool :: "string option"
  rs_pending_approval :: "dict option"
  rs_input_tokens :: int
  rs_output_tokens :: int
  rs_last_flush_at :: rat
  rs_tenancy_skip_logged :: bool
  rs_text_frozen_logged :: bool
  rs_delta_shape_unknown_logged :: bool
  rs_delta_events :: nat
  rs_delta_text_seen :: bool
  rs_delta_silent_logged :: bool
  rs_usage_anomalies_logged :: "(string \<times> string) list"
  rs_usage_events_since_anchor_advance :: nat
  rs_log :: "relay_warning list"

definition new_relay_state :: relay_state where
  "new_relay_state =
     \<lparr>rs_partial_text = [], rs_steps = [], rs_last_tool = None, rs_pending_approval = None,
      rs_input_tokens = 0, rs_output_tokens = 0, rs_last_flush_at = 0,
      rs_tenancy_skip_logged = False, rs_text_frozen_logged = False,
      rs_delta_shape_unknown_logged = False, rs_delta_events = 0, rs_delta_text_seen = False,
      rs_delta_silent_logged = False, rs_usage_anomalies_logged = [],
      rs_usage_events_since_anchor_advance = 0, rs_log = []\<rparr>"

record run_processing =
  rp_user :: uuid
  rp_run_id :: string
  rp_incremental :: bool
  rp_charged :: int
  rp_billed :: bool
  rp_state :: relay_state

type_synonym 'a relay_op = "(run_processing \<times> db, exn, 'a) op"

definition on_db :: "'a dbop \<Rightarrow> 'a relay_op" where
  "on_db m = (\<lambda>(r, s). case m s of (x, s') \<Rightarrow> (x, (r, s')))"

definition on_run :: "(run_processing \<Rightarrow> run_processing) \<Rightarrow> unit relay_op" where
  "on_run f = op_modify (\<lambda>(r, s). (f r, s))"

definition on_state :: "(relay_state \<Rightarrow> relay_state) \<Rightarrow> unit relay_op" where
  "on_state f = on_run (\<lambda>r. r\<lparr>rp_state := f (rp_state r)\<rparr>)"

definition the_run :: "run_processing relay_op" where
  "the_run = op_read fst"

definition warn :: "relay_warning \<Rightarrow> relay_state \<Rightarrow> relay_state" where
  "warn w st = st\<lparr>rs_log := rs_log st @ [w]\<rparr>"

definition new_run_processing :: "settings \<Rightarrow> uuid \<Rightarrow> string \<Rightarrow> run_processing dbop" where
  "new_run_processing cfg uid run_id =
     op_bind (if agent_incremental_billing_enabled cfg then op_read (charged_for_run uid run_id)
              else op_return 0) (\<lambda>charged.
     op_return \<lparr>rp_user = uid, rp_run_id = run_id,
                rp_incremental = agent_incremental_billing_enabled cfg, rp_charged = charged,
                rp_billed = False, rp_state = new_relay_state\<rparr>)"

subsection \<open>Anomaly latches\<close>

definition latch_usage_anomaly :: "string \<Rightarrow> string \<Rightarrow> relay_warning \<Rightarrow> relay_state \<Rightarrow> relay_state" where
  "latch_usage_anomaly kind anomaly w st =
     (if (kind, anomaly) \<in> set (rs_usage_anomalies_logged st) then st
      else warn w (st\<lparr>rs_usage_anomalies_logged := (kind, anomaly) # rs_usage_anomalies_logged st\<rparr>))"

definition USAGE_ANCHOR_STALL_WARN_AFTER :: nat where "USAGE_ANCHOR_STALL_WARN_AFTER = 5"
definition DELTA_SILENT_WARN_AFTER :: nat where "DELTA_SILENT_WARN_AFTER = 10"

definition note_anchor_progress :: "bool \<Rightarrow> relay_state \<Rightarrow> relay_state" where
  "note_anchor_progress advanced st =
     (if advanced then st\<lparr>rs_usage_events_since_anchor_advance := 0\<rparr>
      else let n = Suc (rs_usage_events_since_anchor_advance st);
               st' = st\<lparr>rs_usage_events_since_anchor_advance := n\<rparr>
           in if n < USAGE_ANCHOR_STALL_WARN_AFTER then st'
              else latch_usage_anomaly EVENT_USAGE_DELTA ''anchors_frozen'' (AnchorsFrozen n) st')"

definition warn_usage_anomalies ::
  "string \<Rightarrow> usage_counts \<Rightarrow> sse_event option \<Rightarrow> relay_state \<Rightarrow> relay_state" where
  "warn_usage_anomalies kind usage ev st =
     (let st1 = (case ev of
                   Some e \<Rightarrow> if \<not> uc_recognised usage \<and> \<not> is_provably_usage_free e
                            then latch_usage_anomaly kind ''unrecognised'' (UsageUnrecognised kind) st else st
                 | None \<Rightarrow> st);
          st2 = (if uc_partial usage then latch_usage_anomaly kind ''half_read'' (UsageHalfRead kind) st1 else st1);
          st3 = (if uc_divergent usage then latch_usage_anomaly kind ''divergent'' (UsageDivergent kind) st2 else st2)
      in if uc_non_monotonic usage
         then latch_usage_anomaly kind ''non_monotonic'' (UsageNonMonotonic kind) st3 else st3)"

definition assert_billable_usage ::
  "sse_event \<Rightarrow> usage_counts \<Rightarrow> int \<Rightarrow> relay_state \<Rightarrow> relay_state" where
  "assert_billable_usage ev usage owed st =
     (let st1 = warn_usage_anomalies ''run.completed'' usage None st in
      if owed > 0 then st1
      else
        let st2 = (if rs_delta_text_seen st1 then warn (ZeroBilledWithText (rs_delta_events st1)) st1 else st1)
        in if is_provably_usage_free ev then st2 else warn ZeroBilledShapeUnknown st2)"

definition warn_if_no_delta_text :: "relay_state \<Rightarrow> relay_state" where
  "warn_if_no_delta_text st =
     (if rs_delta_events st > 0 \<and> \<not> rs_delta_text_seen st \<and> \<not> rs_delta_silent_logged st
      then warn (NoDeltaText (rs_delta_events st)) (st\<lparr>rs_delta_silent_logged := True\<rparr>) else st)"

subsection \<open>Snapshot writer\<close>

definition log_write_anomaly :: "snapshot_upsert_result \<Rightarrow> nat \<Rightarrow> relay_state \<Rightarrow> relay_state" where
  "log_write_anomaly written submitted st =
     (if \<not> su_applied written then
        (if rs_tenancy_skip_logged st then st else warn TenancySkip (st\<lparr>rs_tenancy_skip_logged := True\<rparr>))
      else if su_stored_text_length written < submitted \<and> \<not> rs_text_frozen_logged st
      then warn (TextFrozen (su_stored_text_length written) submitted) (st\<lparr>rs_text_frozen_logged := True\<rparr>)
      else st)"

text \<open>\<open>text[:n]\<close> when the text is longer than \<open>n\<close>; a negative bound counts from the end.\<close>

definition cap_text :: "int \<Rightarrow> string \<Rightarrow> string" where
  "cap_text n s =
     (if int (length s) > n
      then take (if 0 \<le> n then nat n else length s - nat (- n)) s else s)"

text \<open>
  The clock readings of one event: of the database, at the throttle, after the write, and after
  the write of a pause.
\<close>

record event_clock =
  ck_now :: int
  ck_check :: rat
  ck_written :: rat
  ck_paused :: rat

definition relay_snapshot :: "int \<Rightarrow> string \<Rightarrow> run_processing \<Rightarrow> agent_snapshot" where
  "relay_snapshot now text r =
     (let st = rp_state r in
      \<lparr>snap_user = rp_user r, snap_result_text = text, snap_last_tool = rs_last_tool st,
       snap_pending_approval = rs_pending_approval st, snap_input_tokens = rs_input_tokens st,
       snap_output_tokens = rs_output_tokens st, snap_updated_at = now, snap_heartbeat_at = None\<rparr>)"

definition write_snapshot :: "int \<Rightarrow> string \<Rightarrow> bool \<Rightarrow> unit relay_op" where
  "write_snapshot now text assert_approval = (\<lambda>(r, s).
     case snapshot_upsert (rp_run_id r) (relay_snapshot now text r) assert_approval s of
       (Inr written, s') \<Rightarrow>
         (Inr (), (r\<lparr>rp_state := log_write_anomaly written (length text) (rp_state r)\<rparr>, s'))
     | (Inl DbError, _) \<Rightarrow> (Inr (), (r\<lparr>rp_state := warn SnapshotWriteFailed (rp_state r)\<rparr>, s))
     | (Inl e, s') \<Rightarrow> (Inl e, (r, s')))"

definition flush_snapshot :: "settings \<Rightarrow> int \<Rightarrow> rat \<Rightarrow> rat \<Rightarrow> bool \<Rightarrow> bool \<Rightarrow> unit relay_op" where
  "flush_snapshot cfg now check written immediate assert_approval =
     op_bind the_run (\<lambda>r.
     if \<not> immediate \<and> check - rs_last_flush_at (rp_state r) < agent_state_flush_interval_seconds cfg
     then op_return ()
     else
       let text = cap_text (agent_state_result_text_max_chars cfg) (concat (rs_partial_text (rp_state r))) in
       op_bind (on_state (\<lambda>st. st\<lparr>rs_partial_text := [text]\<rparr>)) (\<lambda>_.
       op_bind (write_snapshot now text assert_approval) (\<lambda>_.
       on_state (\<lambda>st. st\<lparr>rs_last_flush_at := written\<rparr>))))"

definition flush_run_snapshot :: "settings \<Rightarrow> event_clock \<Rightarrow> unit relay_op" where
  "flush_run_snapshot cfg ck = flush_snapshot cfg (ck_now ck) (ck_check ck) (ck_written ck) True True"

definition build_pending_approval :: "settings \<Rightarrow> sse_event \<Rightarrow> dict" where
  "build_pending_approval cfg ev =
     [(''tool'', opt_str (extract_tool_name ev)),
      (''preview'', opt_str (map_option (cap_text (agent_state_result_text_max_chars cfg))
                       (extract_approval_preview ev)))]"

subsection \<open>Pause at zero\<close>

definition REASON_CREDITS_EXHAUSTED :: string where
  "REASON_CREDITS_EXHAUSTED = ''credits_exhausted''"

definition paused_payload :: "run_processing \<Rightarrow> dict" where
  "paused_payload r =
     (let st = rp_state r in
      [(''event'', JStr EVENT_RUN_PAUSED), (''run_id'', JStr (rp_run_id r)),
       (''reason'', JStr REASON_CREDITS_EXHAUSTED), (''status'', JStr ''paused''),
       (''output'', JStr (concat (rs_partial_text st))), (''steps'', JList (map JObj (rs_steps st))),
       (''billed'', JInt (rp_charged r)), (''balance'', JInt 0),
       (''usage'', JObj [(''cumulative_input_tokens'', JInt (rs_input_tokens st)),
                         (''cumulative_output_tokens'', JInt (rs_output_tokens st))])])"

text \<open>
  \<open>_pause_run\<close>: \<open>stop\<close> is the outcome of the interrupt sent to the instance. The returned
  document is the body of the synthetic block, before its encoding.
\<close>

definition pause_run :: "settings \<Rightarrow> event_clock \<Rightarrow> exn + dict \<Rightarrow> dict relay_op" where
  "pause_run cfg ck stop =
     op_bind (case stop of Inl e \<Rightarrow> op_raise e | Inr _ \<Rightarrow> op_return ()) (\<lambda>_.
     op_bind (on_state (\<lambda>st. (warn_if_no_delta_text st)\<lparr>rs_pending_approval := None\<rparr>)) (\<lambda>_.
     op_bind (flush_snapshot cfg (ck_now ck) (ck_check ck) (ck_paused ck) True True) (\<lambda>_.
     op_bind the_run (\<lambda>r.
     op_bind (on_db (mark_paused (ck_now ck) (rp_run_id r) REASON_CREDITS_EXHAUSTED)) (\<lambda>_.
     op_return (paused_payload r))))))"

subsection \<open>Events\<close>

definition on_message_delta :: "settings \<Rightarrow> event_clock \<Rightarrow> sse_event \<Rightarrow> unit relay_op" where
  "on_message_delta cfg ck ev =
     (let piece = extract_delta_text ev in
      op_bind (on_state (\<lambda>st. st\<lparr>rs_delta_events := Suc (rs_delta_events st)\<rparr>)) (\<lambda>_.
      op_bind
        (if piece \<noteq> [] then
           op_bind (on_state (\<lambda>st. st\<lparr>rs_delta_text_seen := True,
                                     rs_partial_text := rs_partial_text st @ [piece]\<rparr>)) (\<lambda>_.
           flush_snapshot cfg (ck_now ck) (ck_check ck) (ck_written ck) False False)
         else
           on_state (\<lambda>st.
             if \<not> rs_delta_shape_unknown_logged st \<and> delta_shape_looks_unknown ev
             then warn CarrierUnknown (st\<lparr>rs_delta_shape_unknown_logged := True\<rparr>) else st)) (\<lambda>_.
      on_state (\<lambda>st.
        if \<not> rs_delta_text_seen st \<and> \<not> rs_delta_silent_logged st \<and>
           DELTA_SILENT_WARN_AFTER \<le> rs_delta_events st
        then warn (DeltaSilent (rs_delta_events st)) (st\<lparr>rs_delta_silent_logged := True\<rparr>) else st))))"

definition on_tool_event :: "settings \<Rightarrow> event_clock \<Rightarrow> sse_event \<Rightarrow> unit relay_op" where
  "on_tool_event cfg ck ev =
     op_bind (on_state (\<lambda>st. st\<lparr>rs_steps := rs_steps st @ [se_data ev],
        rs_last_tool := (case extract_tool_name ev of Some t \<Rightarrow> Some t | None \<Rightarrow> rs_last_tool st),
        rs_pending_approval := None\<rparr>)) (\<lambda>_.
     flush_snapshot cfg (ck_now ck) (ck_check ck) (ck_written ck) True True)"

definition on_approval_request :: "settings \<Rightarrow> event_clock \<Rightarrow> sse_event \<Rightarrow> unit relay_op" where
  "on_approval_request cfg ck ev =
     op_bind (on_state (\<lambda>st. st\<lparr>rs_pending_approval := Some (build_pending_approval cfg ev)\<rparr>)) (\<lambda>_.
     flush_snapshot cfg (ck_now ck) (ck_check ck) (ck_written ck) True True)"

definition raise_anchors :: "usage_counts \<Rightarrow> relay_state \<Rightarrow> relay_state" where
  "raise_anchors usage st =
     st\<lparr>rs_input_tokens := max (rs_input_tokens st) (uc_input usage),
        rs_output_tokens := max (rs_output_tokens st) (uc_output usage)\<rparr>"

definition bill_relay_step :: "settings \<Rightarrow> event_clock \<Rightarrow> sse_event \<Rightarrow> bool relay_op" where
  "bill_relay_step cfg ck ev =
     op_bind the_run (\<lambda>r.
     op_bind (on_db (bill_step cfg (ck_now ck) (rp_user r) (rp_run_id r) ev (rp_charged r))) (\<lambda>(charged, depleted).
     op_bind (on_run (\<lambda>r. r\<lparr>rp_charged := charged\<rparr>)) (\<lambda>_.
     op_return depleted)))"

definition on_usage_delta :: "settings \<Rightarrow> event_clock \<Rightarrow> exn + dict \<Rightarrow> sse_event \<Rightarrow> dict option relay_op" where
  "on_usage_delta cfg ck stop ev =
     (let anchors = extract_usage_counts ev in
      op_bind (on_state (warn_usage_anomalies EVENT_USAGE_DELTA anchors (Some ev))) (\<lambda>_.
      op_bind the_run (\<lambda>r.
      let st = rp_state r; st' = raise_anchors anchors st;
          advanced = ((rs_input_tokens st', rs_output_tokens st') \<noteq> (rs_input_tokens st, rs_output_tokens st))
      in
      op_bind (on_state (\<lambda>st. note_anchor_progress advanced (raise_anchors anchors st))) (\<lambda>_.
      op_bind (if advanced then flush_snapshot cfg (ck_now ck) (ck_check ck) (ck_written ck) True False
               else op_return ()) (\<lambda>_.
      if rp_incremental r then
        op_bind (bill_relay_step cfg ck ev) (\<lambda>depleted.
        if depleted then op_bind (pause_run cfg ck stop) (\<lambda>p. op_return (Some p))
        else op_return None)
      else op_return None)))))"

definition on_run_failed :: "settings \<Rightarrow> event_clock \<Rightarrow> unit relay_op" where
  "on_run_failed cfg ck =
     op_bind (on_state (\<lambda>st. (warn_if_no_delta_text st)\<lparr>rs_pending_approval := None\<rparr>)) (\<lambda>_.
     op_bind (flush_snapshot cfg (ck_now ck) (ck_check ck) (ck_written ck) True True) (\<lambda>_.
     op_bind the_run (\<lambda>r.
     on_db (mark_terminal (ck_now ck) (rp_run_id r) ''failed''))))"

text \<open>The debit at completion with the reports of \<open>_bill_completed\<close> on the way.\<close>

definition bill_relay_completed :: "settings \<Rightarrow> sse_event \<Rightarrow> bool relay_op" where
  "bill_relay_completed cfg ev =
     op_bind the_run (\<lambda>r.
     let usage = extract_usage_counts ev in
     case usage_to_credits (uc_input usage) (uc_output usage)
            (credits_per_1k_input cfg) (credits_per_1k_output cfg) of
       Inl e \<Rightarrow> op_raise e
     | Inr owed \<Rightarrow>
         op_bind (on_state (assert_billable_usage ev usage owed)) (\<lambda>_.
         op_bind (on_state (\<lambda>st.
           if owed - rp_charged r \<le> 0 \<and> rp_charged r > 0 \<and> owed < rp_charged r
           then warn (FinalBelowBilled owed (rp_charged r)) st else st)) (\<lambda>_.
         on_db (bill_completed cfg (rp_user r) (rp_run_id r) ev (rp_charged r)))))"

definition on_run_completed :: "settings \<Rightarrow> event_clock \<Rightarrow> sse_event \<Rightarrow> unit relay_op" where
  "on_run_completed cfg ck ev =
     (let usage = extract_usage_counts ev in
      op_bind (on_state (\<lambda>st. (raise_anchors usage (warn_if_no_delta_text st))\<lparr>rs_pending_approval := None\<rparr>)) (\<lambda>_.
      op_bind (flush_snapshot cfg (ck_now ck) (ck_check ck) (ck_written ck) True True) (\<lambda>_.
      op_bind the_run (\<lambda>r.
      op_bind (on_db (mark_terminal (ck_now ck) (rp_run_id r) ''completed'')) (\<lambda>_.
      if rp_billed r then op_return ()
      else op_bind (bill_relay_completed cfg ev) (\<lambda>billed.
           on_run (\<lambda>r. r\<lparr>rp_billed := billed\<rparr>)))))))"

definition process_event ::
  "settings \<Rightarrow> event_clock \<Rightarrow> exn + dict \<Rightarrow> sse_event \<Rightarrow> dict option relay_op" where
  "process_event cfg ck stop ev =
     (let name = event_name ev; unpaused = (\<lambda>m. op_bind m (\<lambda>_. op_return None)) in
      if name = Some EVENT_MESSAGE_DELTA then unpaused (on_message_delta cfg ck ev)
      else if (case name of Some n \<Rightarrow> prefix TOOL_EVENT_PREFIX n | None \<Rightarrow> False)
      then unpaused (on_tool_event cfg ck ev)
      else if name = Some EVENT_APPROVAL_REQUEST then unpaused (on_approval_request cfg ck ev)
      else if name = Some EVENT_USAGE_DELTA then on_usage_delta cfg ck stop ev
      else if name = Some EVENT_RUN_FAILED then unpaused (on_run_failed cfg ck)
      else if name = Some EVENT_RUN_COMPLETED then unpaused (on_run_completed cfg ck ev)
      else op_return None)"

text \<open>The loop over the blocks of one subscription; it ends with the first synthetic block.\<close>

fun relay_events ::
  "settings \<Rightarrow> (event_clock \<times> (exn + dict) \<times> sse_event) list \<Rightarrow> dict option relay_op" where
  "relay_events cfg [] = op_return None"
| "relay_events cfg ((ck, stop, ev) # evs) =
     op_bind (process_event cfg ck stop ev) (\<lambda>p.
       case p of Some b \<Rightarrow> op_return (Some b) | None \<Rightarrow> relay_events cfg evs)"

end
