(* ===== verification/AgentRunClaims.thy ===== *)
theory AgentRunClaims
  imports AgentRuns
begin

text \<open>
  The run table as a state machine: every statement of the two repositories as a command, and what
  no sequence of commands can do.
\<close>

datatype run_cmd =
    CreateRunning int string uuid string "string option" "string option" string
  | RecordStep int string int int
  | MarkPaused int string string
  | MarkStatus int string string
  | MarkStopped int string uuid
  | CasResume int string
  | RevertCas int string
  | UpsertSnapshot string agent_snapshot bool
  | TouchHeartbeat int string
  | EnsureRow int string uuid
  | ClearApproval int string uuid

fun exec_run :: "run_cmd \<Rightarrow> db \<Rightarrow> db" where
  "exec_run (CreateRunning n k u ss m p st) s = snd (create_running n k u ss m p st s)"
| "exec_run (RecordStep n k i c) s = snd (record_step n k i c s)"
| "exec_run (MarkPaused n k r) s = snd (mark_paused n k r s)"
| "exec_run (MarkStatus n k st) s = snd (mark_status n k st s)"
| "exec_run (MarkStopped n k u) s = snd (mark_stopped n k u s)"
| "exec_run (CasResume n k) s = snd (cas_resume n k s)"
| "exec_run (RevertCas n k) s = snd (revert_cas n k s)"
| "exec_run (UpsertSnapshot k ex b) s = snd (snapshot_upsert k ex b s)"
| "exec_run (TouchHeartbeat n k) s = snd (touch_consumer_heartbeat n k s)"
| "exec_run (EnsureRow n k u) s = snd (ensure_row n k u s)"
| "exec_run (ClearApproval n k u) s = snd (clear_pending_approval n k u s)"

lemmas run_op_defs = create_running_def record_step_def mark_paused_def mark_status_def
  mark_stopped_def cas_resume_def revert_cas_def update_run_def op_bind_def

lemmas snap_op_defs = snapshot_upsert_def touch_consumer_heartbeat_def ensure_row_def
  clear_pending_approval_def

definition terminal_status :: "string \<Rightarrow> bool" where
  "terminal_status st \<longleftrightarrow> st = ''completed'' \<or> st = ''failed'' \<or> st = ''cancelled''"

lemma terminal_not_active: "terminal_status st \<Longrightarrow> \<not> active_status st \<and> st \<noteq> ''paused'' \<and> st \<noteq> ''resumed''"
  by (auto simp: terminal_status_def active_status_def)

subsection \<open>Lifecycle rows only advance\<close>

fun run_le :: "agent_run option \<Rightarrow> agent_run option \<Rightarrow> bool" where
  "run_le None _ = True"
| "run_le (Some r) None = False"
| "run_le (Some r) (Some r') =
     (run_user r' = run_user r \<and> run_session_id r' = run_session_id r \<and>
      run_continued_from r' = run_continued_from r \<and> run_created_at r' = run_created_at r \<and>
      run_last_billed_step r \<le> run_last_billed_step r' \<and>
      (terminal_status (run_status r) \<longrightarrow> run_status r' = run_status r))"

lemma run_le_refl: "run_le r r"
  by (cases r) auto

lemma run_le_trans: "run_le r s \<Longrightarrow> run_le s t \<Longrightarrow> run_le r t"
  by (cases r; cases s; cases t) auto

lemma snap_runs [simp]:
  "run_of k (snd (snapshot_upsert k' ex b s)) = run_of k s"
  "run_of k (snd (touch_consumer_heartbeat n k' s)) = run_of k s"
  "run_of k (snd (ensure_row n k' u s)) = run_of k s"
  "run_of k (snd (clear_pending_approval n k' u s)) = run_of k s"
  by (auto simp: snap_op_defs run_of_def Let_def split: option.splits)

lemma exec_run_le: "run_le (run_of k s) (run_of k (exec_run c s))"
proof (cases c)
  case (CreateRunning n k' u ss m p st)
  then show ?thesis by (auto simp: run_op_defs run_le_refl split: option.splits)
next
  case (RecordStep n k' i cr)
  then show ?thesis by (cases "run_of k' s") (auto simp: run_op_defs run_le_refl)
next
  case (MarkPaused n k' r)
  then show ?thesis
    by (cases "run_of k' s") (auto simp: run_op_defs run_le_refl dest: terminal_not_active)
next
  case (MarkStatus n k' st)
  then show ?thesis
    by (cases "run_of k' s") (auto simp: run_op_defs run_le_refl dest: terminal_not_active)
next
  case (MarkStopped n k' u)
  then show ?thesis
    by (cases "run_of k' s") (auto simp: run_op_defs run_le_refl dest: terminal_not_active)
next
  case (CasResume n k')
  then show ?thesis
    by (cases "run_of k' s") (auto simp: run_op_defs run_le_refl dest: terminal_not_active)
next
  case (RevertCas n k')
  then show ?thesis
    by (cases "run_of k' s") (auto simp: run_op_defs run_le_refl dest: terminal_not_active)
qed (simp_all add: run_le_refl)

interpretation run_rows: monotone_system exec_run "run_of k" run_le for k
  by unfold_locales (auto intro: run_le_refl run_le_trans exec_run_le)

text \<open>
  The first terminal status wins: whatever statements follow, in any order, a run that is
  completed, failed or cancelled keeps that status; no run changes its owner, session or parent, and
  the last billed step never goes back.
\<close>

theorem first_terminal_status_wins:
  assumes "run_of k s = Some r"
  shows "\<exists>r'. run_of k (fold exec_run cmds s) = Some r' \<and>
    (terminal_status (run_status r) \<longrightarrow> run_status r' = run_status r) \<and>
    run_user r' = run_user r \<and> run_session_id r' = run_session_id r \<and>
    run_continued_from r' = run_continued_from r \<and>
    run_last_billed_step r \<le> run_last_billed_step r'"
  using run_rows.run_le [of k s cmds] assms by (cases "run_of k (fold exec_run cmds s)") auto

definition demo_run :: agent_run where
  "demo_run = \<lparr>run_user = 1, run_session_id = ''s1'', run_status = ''running'', run_credits_spent = 0,
     run_last_billed_step = 0, run_paused_reason = None, run_continued_from = None,
     run_model = None, run_created_at = 0, run_updated_at = 0\<rparr>"

definition demo_runs :: db where
  "demo_runs = empty_db\<lparr>users := [1 \<mapsto> \<lparr>trial_used = False\<rparr>], agent_runs := [(''r1'', demo_run\<lparr>run_status := ''cancelled''\<rparr>)]\<rparr>"

theorem first_terminal_status_wins_witness:
  "run_of ''r1'' demo_runs = Some (demo_run\<lparr>run_status := ''cancelled''\<rparr>) \<and>
   (\<exists>r'. run_of ''r1'' (fold exec_run [MarkStatus 5 ''r1'' ''completed''] demo_runs) = Some r' \<and>
     run_status r' = ''cancelled'')"
proof -
  have h: "run_of ''r1'' demo_runs = Some (demo_run\<lparr>run_status := ''cancelled''\<rparr>)"
    by (simp add: run_of_def demo_runs_def)
  from first_terminal_status_wins [OF h, of "[MarkStatus 5 ''r1'' ''completed'']"] h show ?thesis
    by (auto simp: terminal_status_def)
qed

subsection \<open>Resuming\<close>

text \<open>The commands that may put a run into \<open>paused\<close>.\<close>

fun pauses :: "string \<Rightarrow> run_cmd \<Rightarrow> bool" where
  "pauses k (MarkPaused n k' r) = (k' = k)"
| "pauses k (MarkStatus n k' st) = (k' = k \<and> st = ''paused'')"
| "pauses k (RevertCas n k') = (k' = k)"
| "pauses k (CreateRunning n k' u ss m p st) = (k' = k \<and> st = ''paused'')"
| "pauses k _ = False"

definition not_paused :: "string \<Rightarrow> db \<Rightarrow> bool" where
  "not_paused k s \<longleftrightarrow> (\<forall>r. run_of k s = Some r \<longrightarrow> run_status r \<noteq> ''paused'')"

lemma not_paused_step: "not_paused k s \<Longrightarrow> \<not> pauses k c \<Longrightarrow> not_paused k (exec_run c s)"
  by (cases c) (auto simp: run_op_defs not_paused_def active_status_def split: option.splits)

lemma not_paused_run: "not_paused k s \<Longrightarrow> \<forall>c \<in> set cmds. \<not> pauses k c \<Longrightarrow> not_paused k (fold exec_run cmds s)"
  by (induction cmds arbitrary: s) (auto intro: not_paused_step)

lemma cas_resume_not_paused: "not_paused k s \<Longrightarrow> cas_resume now k s = (Inr None, s)"
  by (auto simp: cas_resume_def update_run_def op_bind_def not_paused_def split: option.splits)

lemma update_keeps_child:
  "(c, x) \<in> set al \<Longrightarrow> run_continued_from x = Some p \<Longrightarrow>
   (\<And>r. map_of al k = Some r \<Longrightarrow> run_continued_from r' = run_continued_from r) \<Longrightarrow>
   \<exists>c y. (c, y) \<in> set (AList.update k r' al) \<and> run_continued_from y = Some p"
proof (induction al)
  case (Cons a al)
  show ?case
  proof (cases "fst a = k")
    case True
    show ?thesis
    proof (cases "a = (c, x)")
      case eq: True
      with Cons.prems(2) Cons.prems(3) [of x] True have "run_continued_from r' = Some p" by auto
      with True show ?thesis by (cases a) auto
    next
      case False
      with Cons.prems True show ?thesis by (cases a) auto
    qed
  next
    case False
    show ?thesis
    proof (cases "a = (c, x)")
      case True
      with False Cons.prems show ?thesis by auto
    next
      case ne: False
      with False Cons.prems have "\<exists>c y. (c, y) \<in> set (AList.update k r' al) \<and> run_continued_from y = Some p"
        by (intro Cons.IH) (auto split: if_splits)
      with False show ?thesis by (cases a) auto
    qed
  qed
qed simp

lemma set_run_child:
  assumes "has_child p s" and "\<And>r. run_of k s = Some r \<Longrightarrow> run_continued_from r' = run_continued_from r"
  shows "has_child p (set_run k r' s)"
proof -
  from assms(1) obtain c x where "(c, x) \<in> set (agent_runs s)" "run_continued_from x = Some p"
    by (auto simp: has_child_iff)
  from update_keeps_child [OF this] assms(2) show ?thesis
    by (simp add: has_child_iff set_run_def run_of_def)
qed

lemma snap_child [simp]:
  "has_child k (snd (snapshot_upsert k' ex b s)) = has_child k s"
  "has_child k (snd (touch_consumer_heartbeat n k' s)) = has_child k s"
  "has_child k (snd (ensure_row n k' u s)) = has_child k s"
  "has_child k (snd (clear_pending_approval n k' u s)) = has_child k s"
  by (auto simp: snap_op_defs has_child_def Let_def split: option.splits)

lemma exec_run_child: "has_child p s \<Longrightarrow> has_child p (exec_run c s)"
  by (cases c) (auto simp: run_op_defs intro!: set_run_child split: option.splits)

interpretation chained: command_system exec_run "has_child p" for p
  by unfold_locales (rule exec_run_child)

text \<open>
  A paused run is resumed by one caller: after a won compare-and-set every later one loses
  and changes nothing, as long as nothing pauses the run again; and once a continuation is chained
  to the run, no later revert undoes the resume.
\<close>

theorem resume_has_one_winner:
  assumes "cas_resume now k s = (Inr (Some won), t)"
  shows "((\<forall>c \<in> set cmds. \<not> pauses k c) \<longrightarrow>
      cas_resume now' k (fold exec_run cmds t) = (Inr None, fold exec_run cmds t)) \<and>
    (has_child k t \<longrightarrow>
      revert_cas now' k (fold exec_run cmds t) = (Inr 0, fold exec_run cmds t))"
proof -
  have "not_paused k t"
    using assms by (auto simp: cas_resume_def update_run_def op_bind_def not_paused_def
        split: option.splits if_splits)
  moreover have "revert_cas now' k u = (Inr 0, u)" if "has_child k u" for u
    using that by (auto simp: revert_cas_def update_run_def split: option.splits)
  ultimately show ?thesis
    using not_paused_run cas_resume_not_paused chained.run_inv by blast
qed

definition demo_paused :: db where
  "demo_paused = demo_runs\<lparr>agent_runs := [(''r1'', demo_run\<lparr>run_status := ''paused''\<rparr>)]\<rparr>"

theorem resume_has_one_winner_witness:
  "\<exists>t. cas_resume 9 ''r1'' demo_paused = (Inr (Some (''s1'', None)), t) \<and>
     cas_resume 10 ''r1'' (fold exec_run [RecordStep 9 ''r1'' 3 1] t) =
       (Inr None, fold exec_run [RecordStep 9 ''r1'' 3 1] t)"
proof -
  have "\<exists>t. cas_resume 9 ''r1'' demo_paused = (Inr (Some (''s1'', None)), t)"
    by (simp add: cas_resume_def update_run_def op_bind_def run_of_def demo_paused_def demo_run_def)
  then obtain t where run: "cas_resume 9 ''r1'' demo_paused = (Inr (Some (''s1'', None)), t)" by blast
  from resume_has_one_winner [OF run, of "[RecordStep 9 ''r1'' 3 1]" 10] run show ?thesis by simp
qed

subsection \<open>Snapshots only grow\<close>

fun snap_le :: "agent_snapshot option \<Rightarrow> agent_snapshot option \<Rightarrow> bool" where
  "snap_le None _ = True"
| "snap_le (Some a) None = False"
| "snap_le (Some a) (Some b) =
     (snap_user b = snap_user a \<and> prefix (snap_result_text a) (snap_result_text b) \<and>
      snap_input_tokens a \<le> snap_input_tokens b \<and> snap_output_tokens a \<le> snap_output_tokens b)"

lemma snap_le_refl: "snap_le a a"
  by (cases a) auto

lemma snap_le_trans: "snap_le a b \<Longrightarrow> snap_le b c \<Longrightarrow> snap_le a c"
  by (cases a; cases b; cases c) (auto intro: prefix_order.trans)

lemma merge_le: "snap_le (Some t) (Some (merge_snapshot t ex b))"
  using merge_text [of t ex b] by (simp add: merge_snapshot_def)

lemma update_run_snaps [simp]: "agent_snapshots (snd (update_run k c f s)) = agent_snapshots s"
  by (auto simp: update_run_def split: option.splits)

lemma exec_run_snap_le: "snap_le (agent_snapshots s k) (agent_snapshots (exec_run c s) k)"
proof (cases c)
  case (UpsertSnapshot k' ex b)
  then show ?thesis
    by (cases "agent_snapshots s k'")
      (auto simp: snapshot_upsert_def Let_def snap_le_refl merge_le simp del: snap_le.simps(3))
next
  case (TouchHeartbeat n k')
  then show ?thesis by (cases "agent_snapshots s k'") (auto simp: touch_consumer_heartbeat_def snap_le_refl)
next
  case (EnsureRow n k' u)
  then show ?thesis by (cases "agent_snapshots s k'") (auto simp: ensure_row_def snap_le_refl)
next
  case (ClearApproval n k' u)
  then show ?thesis
    by (cases "agent_snapshots s k'") (auto simp: clear_pending_approval_def snap_le_refl)
qed (auto simp: run_op_defs snap_le_refl split: option.splits)

interpretation snap_rows: monotone_system exec_run "\<lambda>s. agent_snapshots s k" snap_le for k
  by unfold_locales (auto intro: snap_le_refl snap_le_trans exec_run_snap_le)

text \<open>
  Until it is swept, a snapshot never loses anything: through any sequence of statements,
  a consumer that restarts with a shorter or different text included, the stored text is a prefix of
  every later one, the token counters never fall, and the owner never changes.
\<close>

theorem snapshot_text_only_grows:
  assumes "agent_snapshots s k = Some a"
  shows "\<exists>b. agent_snapshots (fold exec_run cmds s) k = Some b \<and> snap_user b = snap_user a \<and>
    prefix (snap_result_text a) (snap_result_text b) \<and>
    snap_input_tokens a \<le> snap_input_tokens b \<and> snap_output_tokens a \<le> snap_output_tokens b"
  using snap_rows.run_le [of s k cmds] assms
  by (cases "agent_snapshots (fold exec_run cmds s) k") auto

definition demo_snap :: agent_snapshot where
  "demo_snap = \<lparr>snap_user = 1, snap_result_text = ''hello wor'', snap_last_tool = None,
     snap_pending_approval = None, snap_input_tokens = 10, snap_output_tokens = 2,
     snap_updated_at = 0, snap_heartbeat_at = None\<rparr>"

theorem snapshot_text_only_grows_witness:
  "\<exists>b. agent_snapshots (fold exec_run [UpsertSnapshot ''r1'' (demo_snap\<lparr>snap_result_text := ''other text here''\<rparr>) True]
       (demo_runs\<lparr>agent_snapshots := [''r1'' \<mapsto> demo_snap]\<rparr>)) ''r1'' = Some b \<and>
     prefix ''hello wor'' (snap_result_text b)"
proof -
  let ?s = "demo_runs\<lparr>agent_snapshots := [''r1'' \<mapsto> demo_snap]\<rparr>"
  have "agent_snapshots ?s ''r1'' = Some demo_snap" by simp
  moreover have "snap_result_text demo_snap = ''hello wor''" by (simp add: demo_snap_def)
  ultimately show ?thesis using snapshot_text_only_grows by metis
qed

text \<open>
  The retention sweep is idempotent and silent: a second pass finds nothing and changes
  nothing, no pass moves the time of the last state write, and a run that is still active keeps its
  text.
\<close>

theorem sweep_is_idempotent:
  "sweep_expired now ttl (snd (sweep_expired now ttl s)) = (Inr 0, snd (sweep_expired now ttl s)) \<and>
   map_option snap_updated_at (agent_snapshots (snd (sweep_expired now ttl s)) k) =
     map_option snap_updated_at (agent_snapshots s k) \<and>
   ((\<exists>r. run_of k s = Some r \<and> active_status (run_status r)) \<longrightarrow>
      agent_snapshots (snd (sweep_expired now ttl s)) k = agent_snapshots s k)"
proof -
  let ?t = "snd (sweep_expired now ttl s)"
  have rows: "run_of j ?t = run_of j s" for j by (simp add: sweep_expired_def run_of_def)
  have none: "\<not> sweep_hits now ttl ?t j" for j
    unfolding sweep_hits_def rows
    by (auto simp: sweep_expired_def sweep_hits_def split: option.splits prod.splits if_splits)
  have "sweep_expired now ttl ?t = (Inr 0, ?t)"
    unfolding sweep_expired_def [of now ttl] prod.sel using none
    by (simp add: sweep_expired_def)
  moreover have "agent_snapshots ?t k = agent_snapshots s k"
    if "run_of k s = Some r" "active_status (run_status r)" for r
    using that by (auto simp: sweep_expired_def sweep_hits_def active_status_def split: option.splits)
  moreover have "map_option snap_updated_at (agent_snapshots ?t k) =
      map_option snap_updated_at (agent_snapshots s k)"
    by (simp add: sweep_expired_def option.map_comp comp_def)
  ultimately show ?thesis by blast
qed

theorem sweep_is_idempotent_witness:
  "\<exists>s. run_of ''r1'' s = Some demo_run \<and> active_status (run_status demo_run) \<and>
     agent_snapshots (snd (sweep_expired 99000000000000 1 s)) ''r1'' = Some demo_snap"
proof -
  let ?s = "demo_runs\<lparr>agent_runs := [(''r1'', demo_run)], agent_snapshots := [''r1'' \<mapsto> demo_snap]\<rparr>"
  have r: "run_of ''r1'' ?s = Some demo_run" "active_status (run_status demo_run)"
    by (simp_all add: run_of_def demo_run_def active_status_def)
  then have "agent_snapshots (snd (sweep_expired 99000000000000 1 ?s)) ''r1'' = agent_snapshots ?s ''r1''"
    using sweep_is_idempotent [of 99000000000000 1 ?s "''r1''"] by blast
  with r show ?thesis by (intro exI [of _ ?s]) simp
qed

end
