(* ===== verification/AgentBillingClaims.thy ===== *)
theory AgentBillingClaims
  imports AgentBilling WalletClaims AgentRunClaims
begin

text \<open>
  What billing an agent run promises: the price is monotone and rounded in the house's favour once,
  the debits of the steps telescope to the price of the whole run, and an abandoned run is charged
  the remainder once.
\<close>

subsection \<open>Price\<close>

text \<open>
  Claim C27. The price of usage, computed in binary64 as the code does, is monotone in both counts
  for finite non-negative rates, never negative, and zero exactly for no usage: rounding can neither
  make a longer run cheaper nor a used run free.
\<close>

theorem price_is_monotone_and_positive:
  assumes "0 \<le> a" "0 \<le> b" and "i \<le> i'" "o' \<le> p'"
    and "usage_to_credits i' p' (Fin a) (Fin b) = Inr n'"
  shows "\<exists>n. usage_to_credits i o' (Fin a) (Fin b) = Inr n \<and> n \<le> n' \<and> 0 \<le> n \<and>
    (n = 0 \<longleftrightarrow> i \<le> 0 \<and> o' \<le> 0)"
  using usage_to_credits_mono [OF assms(3,4,1,2,5)] usage_to_credits_zero by blast

lemma price_of_thousands:
  assumes "0 < i" "i < 2 ^ 40" "0 < j" "j < 2 ^ 40"
  shows "usage_to_credits (1000 * i) (1000 * j) (Fin 1) (Fin 5) = Inr (i + 5 * j)"
proof -
  have big: "(2 :: int) ^ 53 = 8192 * 2 ^ 40" by simp
  have f: "float_of_int (1000 * k) = Some (Fin (of_int (1000 * k)))" if "0 < k" "k < 2 ^ 40" for k
    using that round64_exact [of "1000 * k"] by (simp add: float_of_int_def)
  have d: "fdiv_const (Fin (of_int (1000 * k))) 1000 = Fin (of_int k)" if "0 < k" "k < 2 ^ 40" for k
    using that round64_exact [of k] by (simp add: fdiv_const_def)
  have "fmul (Fin (of_int i)) (Fin 1) = Fin (of_int i)"
    using assms(1,2) round64_exact [of i] by (simp add: fmul_def)
  moreover have "fmul (Fin (of_int j)) (Fin 5) = Fin (of_int (j * 5))"
    using assms(3,4) round64_exact [of "j * 5"] by (simp add: fmul_def)
  moreover have "fadd (Fin (of_int i)) (Fin (of_int (j * 5))) = Fin (of_int (i + j * 5))"
    using assms round64_exact [of "i + j * 5"] by simp
  ultimately have "fceil (fadd (fmul (Fin (of_int i)) (Fin 1)) (fmul (Fin (of_int j)) (Fin 5))) =
      Some (i + j * 5)"
    by (simp only: fceil_def float64.case ceiling_of_int)
  then show ?thesis
    using assms f [OF assms(1,2)] f [OF assms(3,4)] d [OF assms(1,2)] d [OF assms(3,4)]
    by (simp add: usage_to_credits_def Let_def max_def mult.commute)
qed

theorem price_is_monotone_and_positive_witness:
  "usage_to_credits 3000 1000 (Fin 1) (Fin 5) = Inr 8 \<and>
   (\<exists>n. usage_to_credits 100 20 (Fin 1) (Fin 5) = Inr n \<and> n \<le> 8 \<and> 0 \<le> n)"
proof -
  have p: "usage_to_credits 3000 1000 (Fin 1) (Fin 5) = Inr 8" using price_of_thousands [of 3 1] by simp
  show ?thesis using price_is_monotone_and_positive [OF _ _ _ _ p, of 100 20] p by auto
qed

subsection \<open>Steps\<close>

definition owed_of :: "settings \<Rightarrow> sse_event \<Rightarrow> int" where
  "owed_of cfg ev =
     (case usage_to_credits (uc_input (extract_usage_counts ev)) (uc_output (extract_usage_counts ev))
             (credits_per_1k_input cfg) (credits_per_1k_output cfg) of
        Inr n \<Rightarrow> n | Inl _ \<Rightarrow> 0)"

definition key_of :: "string \<Rightarrow> sse_event \<Rightarrow> string" where
  "key_of run_id ev = step_key run_id (as_int (dict_get (se_data ev) ''step_index''))"

text \<open>The usage events of a run, one after the other, up to a pause.\<close>

fun bill_steps ::
  "settings \<Rightarrow> int \<Rightarrow> uuid \<Rightarrow> string \<Rightarrow> sse_event list \<Rightarrow> int \<Rightarrow> (int \<times> bool) dbop" where
  "bill_steps cfg now uid run_id [] charged = op_return (charged, False)"
| "bill_steps cfg now uid run_id (ev # evs) charged =
     op_bind (bill_step cfg now uid run_id ev charged) (\<lambda>(c, depleted).
       if depleted then op_return (c, True) else bill_steps cfg now uid run_id evs c)"

lemma bill_step_facts:
  assumes "bill_step cfg now uid run_id ev charged s = (Inr (charged', depleted), t)"
    and "0 \<le> current_balance uid s"
  shows "charged' - charged = charged_for_run uid run_id t - charged_for_run uid run_id s"
    and "charged \<le> charged'" and "charged' \<le> max charged (owed_of cfg ev)"
    and "current_balance uid t = current_balance uid s - (charged' - charged)"
    and "current_debt uid t = current_debt uid s"
    and "if depleted then current_balance uid t = 0 \<and> charged' < owed_of cfg ev
      else charged' = max charged (owed_of cfg ev) \<or> existing_tx uid (key_of run_id ev) s \<noteq> None"
    and "k \<noteq> key_of run_id ev \<Longrightarrow> existing_tx uid k t = existing_tx uid k s"
  by (rule bill_step_cases [OF assms(1)], use assms(2) in \<open>simp add: owed_of_def key_of_def\<close>)+

text \<open>
  One usage event: what the relay believes it has charged is what the ledger says, the
  charge never exceeds what is owed so far, comes out of the balance and never becomes debt; the
  relay reports depletion only when the wallet is empty and something is still owed, and otherwise
  everything owed is paid unless the step was already on the books.
\<close>

theorem bill_step_tracks_the_ledger:
  assumes "bill_step cfg now uid run_id ev charged s = (Inr (charged', depleted), t)"
    and "charged = charged_for_run uid run_id s" and "0 \<le> current_balance uid s"
  shows "charged' = charged_for_run uid run_id t \<and>
    charged \<le> charged' \<and> charged' \<le> max charged (owed_of cfg ev) \<and>
    current_balance uid t = current_balance uid s - (charged' - charged) \<and>
    current_debt uid t = current_debt uid s \<and>
    (if depleted then current_balance uid t = 0 \<and> charged' < owed_of cfg ev
     else charged' = max charged (owed_of cfg ev) \<or> existing_tx uid (key_of run_id ev) s \<noteq> None)"
  using bill_step_facts(1-6) [OF assms(1,3)] assms(2) by simp

lemma bill_step_balance:
  assumes "bill_step cfg now uid run_id ev charged s = (Inr (charged', depleted), t)"
    and "0 \<le> current_balance uid s"
  shows "0 \<le> current_balance uid t"
  by (rule bill_step_cases [OF assms(1)]) (use assms(2) in simp)

lemma bill_steps_telescope:
  "bill_steps cfg now uid run_id evs charged s = (Inr (charged', False), t) \<Longrightarrow>
   charged = charged_for_run uid run_id s \<Longrightarrow> 0 \<le> current_balance uid s \<Longrightarrow>
   distinct (map (key_of run_id) evs) \<Longrightarrow>
   (\<And>ev. ev \<in> set evs \<Longrightarrow> existing_tx uid (key_of run_id ev) s = None) \<Longrightarrow>
   charged' = charged_for_run uid run_id t \<and> charged' = fold (\<lambda>ev. max (owed_of cfg ev)) evs charged \<and>
   0 \<le> current_balance uid t \<and>
   (\<forall>k. k \<notin> key_of run_id ` set evs \<longrightarrow> existing_tx uid k t = existing_tx uid k s)"
proof (induction evs arbitrary: charged s)
  case (Cons ev evs)
  then obtain c s1 where one: "bill_step cfg now uid run_id ev charged s = (Inr (c, False), s1)"
    and rest: "bill_steps cfg now uid run_id evs c s1 = (Inr (charged', False), t)"
    by (auto simp: op_bind_Inr_iff split: if_splits)
  note f = bill_step_facts [OF one Cons.prems(3)]
  have c: "c = charged_for_run uid run_id s1" "c = max (owed_of cfg ev) charged"
    using f(1,6) Cons.prems(2,5) by auto
  have bal: "0 \<le> current_balance uid s1" by (rule bill_step_balance [OF one Cons.prems(3)])
  have fresh: "existing_tx uid (key_of run_id e) s1 = None" if "e \<in> set evs" for e
  proof -
    have "key_of run_id e \<noteq> key_of run_id ev"
      using Cons.prems(4) that by (simp add: image_iff) metis
    then show ?thesis using f(7) Cons.prems(5) that by simp
  qed
  from Cons.IH [OF rest c(1) bal _ fresh] Cons.prems(4) f(7) c(2) show ?case by auto
qed simp

subsection \<open>The whole run\<close>

lemma consume_sufficient:
  assumes "0 < amount" "existing_tx uid key s = None" "wallets s uid = Some w" "amount \<le> balance w"
    "\<not> truthy (dict_get meta ''incremental'')"
  shows "consume cfg uid amount key meta None s =
    (Inr \<lparr>cr_new_balance = balance w - amount, cr_ledger_tx_id = next_id s,
          cr_idempotent_replay = False, cr_charged_amount = amount\<rparr>,
     post_debit uid w amount 0 key meta (debit_row uid amount (balance w - amount) meta None s) s)"
  using assms
  by (simp add: consume_eval session_error_def consume_route_def ensured_idem op_bind_def
      consume_agent_with_debt_eval agent_debt_write_defer current_of_wallet consume_plain_fresh)

lemma completed_meta_plain [simp]: "\<not> truthy (dict_get (completed_meta r ev) ''incremental'')"
  by (simp add: completed_meta_def Let_def)

lemma orphan_meta_plain [simp]: "\<not> truthy (dict_get (orphan_meta r) ''incremental'')"
  by (simp add: orphan_meta_def)

lemma current_balance_wallet: "0 < current_balance uid s \<Longrightarrow> \<exists>w. wallets s uid = Some w \<and> balance w = current_balance uid s"
  by (auto simp: current_balance_def split: option.splits)

lemma bill_completed_pays:
  assumes "usage_to_credits (uc_input (extract_usage_counts ev)) (uc_output (extract_usage_counts ev))
       (credits_per_1k_input cfg) (credits_per_1k_output cfg) = Inr owed"
    and "existing_tx uid run_id s = None" and "max 0 (owed - charged) \<le> current_balance uid s"
  shows "\<exists>t. bill_completed cfg uid run_id ev charged s = (Inr True, t) \<and>
    charged_for_run uid run_id t = charged_for_run uid run_id s + max 0 (owed - charged) \<and>
    current_debt uid t = current_debt uid s"
proof (cases "owed - charged \<le> 0")
  case True
  with assms(1) show ?thesis by (simp add: bill_completed_def)
next
  case False
  with assms(3) have "0 < current_balance uid s" by auto
  then obtain w where w: "wallets s uid = Some w" "balance w = current_balance uid s"
    using current_balance_wallet by blast
  let ?a = "owed - charged"
  let ?t = "post_debit uid w ?a 0 run_id (completed_meta run_id ev)
      (debit_row uid ?a (balance w - ?a) (completed_meta run_id ev) None s) s"
  have "0 < ?a" "?a \<le> balance w" using False assms(3) w(2) by simp_all
  from consume_sufficient [OF this(1) assms(2) w(1) this(2) completed_meta_plain]
  have run: "bill_completed cfg uid run_id ev charged s = (Inr True, ?t)"
    using assms(1) False by (simp add: bill_completed_def Let_def)
  have wt: "wallets ?t uid = Some (w\<lparr>balance := balance w - ?a, debt := debt w + 0\<rparr>)"
    by (simp add: post_debit_def)
  have "current_debt uid ?t = current_debt uid s"
    unfolding current_of_wallet [OF wt] current_of_wallet [OF w(1)] by simp
  with run False show ?thesis by (simp add: charged_for_run_post_debit)
qed

text \<open>
  Claim C26. Per-step billing and billing at the end cost the same: when no step found the wallet
  empty, the steps carried different indices not yet on the books, none of them costs more than the final
  usage, and the balance covers the remainder, then the debits of the run add up to exactly the price of
  the final usage.
\<close>

theorem run_is_billed_exactly_once:
  assumes "bill_steps cfg now uid run_id evs 0 s = (Inr (charged, False), t)"
    and "charged_for_run uid run_id s = 0" and "0 \<le> current_balance uid s"
    and "distinct (map (key_of run_id) evs)"
    and "\<forall>ev \<in> set evs. existing_tx uid (key_of run_id ev) s = None"
    and "existing_tx uid run_id s = None"
    and "usage_to_credits (uc_input (extract_usage_counts final)) (uc_output (extract_usage_counts final))
       (credits_per_1k_input cfg) (credits_per_1k_output cfg) = Inr owed"
    and "\<forall>ev \<in> set evs. owed_of cfg ev \<le> owed" and "0 \<le> owed"
    and "owed - charged \<le> current_balance uid t"
  shows "\<exists>u. bill_completed cfg uid run_id final charged t = (Inr True, u) \<and>
    charged_for_run uid run_id u = owed"
proof -
  have steps: "charged = charged_for_run uid run_id t" "charged = fold (\<lambda>ev. max (owed_of cfg ev)) evs 0"
    "0 \<le> current_balance uid t" "run_id \<notin> key_of run_id ` set evs \<longrightarrow> existing_tx uid run_id t = None"
    using bill_steps_telescope [OF assms(1) _ assms(3,4)] assms(2,5,6) by auto
  have "run_id \<notin> key_of run_id ` set evs" by (auto simp: key_of_def step_key_def)
  with steps have fresh: "existing_tx uid run_id t = None" by simp
  have "fold (\<lambda>ev. max (owed_of cfg ev)) evs c \<le> owed" if "c \<le> owed" for c
    using assms(8) that by (induction evs arbitrary: c) auto
  with steps(2) assms(9) have "charged \<le> owed" by simp
  then have "max 0 (owed - charged) \<le> current_balance uid t" using assms(10) by simp
  from bill_completed_pays [OF assms(7) fresh this] \<open>charged \<le> owed\<close> steps(1) show ?thesis by auto
qed

definition usage_event :: "int \<Rightarrow> int \<Rightarrow> int \<Rightarrow> sse_event" where
  "usage_event i o' step = \<lparr>se_name = Some ''usage.delta'', se_data =
     [(''cumulative_input_tokens'', JInt i), (''cumulative_output_tokens'', JInt o'),
      (''step_index'', JInt step)]\<rparr>"

lemma usage_event_counts:
  "uc_input (extract_usage_counts (usage_event i o' st)) = i"
  "uc_output (extract_usage_counts (usage_event i o' st)) = o'"
  "as_int (dict_get (se_data (usage_event i o' st)) ''step_index'') = st"
  by (simp_all add: extract_usage_counts_def usage_event_def usage_probes_def usage_carriers_def
      USAGE_FIELD_SETS_def probe_carrier_def as_int_or_none_def as_int_def full_matches_def
      List.map_filter_simps max_list_def Let_def)

lemma demo_rates: "credits_per_1k_input demo_cfg = Fin 1" "credits_per_1k_output demo_cfg = Fin 5"
  by (simp_all add: demo_cfg_def)

lemma demo_step_price:
  "usage_to_credits (uc_input (extract_usage_counts (usage_event 3000 1000 st)))
     (uc_output (extract_usage_counts (usage_event 3000 1000 st)))
     (credits_per_1k_input demo_cfg) (credits_per_1k_output demo_cfg) = Inr 8"
  "usage_to_credits (uc_input (extract_usage_counts (usage_event 4000 2000 st)))
     (uc_output (extract_usage_counts (usage_event 4000 2000 st)))
     (credits_per_1k_input demo_cfg) (credits_per_1k_output demo_cfg) = Inr 14"
  using price_of_thousands [of 3 1] price_of_thousands [of 4 2]
  by (simp_all add: usage_event_counts demo_rates)

lemma demo_existing_funded: "k \<noteq> ''g1'' \<Longrightarrow> existing_tx 1 k demo_funded = None"
  by simp

lemma demo_bill_step:
  "\<exists>t. bill_step demo_cfg 0 1 ''r9'' (usage_event 3000 1000 1) 0 demo_funded = (Inr (8, False), t)"
proof -
  let ?ev = "usage_event 3000 1000 1"
  have key: "step_key ''r9'' 1 \<noteq> ''g1''" by (simp add: step_key_def)
  have bal: "current_balance 1 demo_funded = 50" and w: "wallets demo_funded 1 = Some \<lparr>balance = 50, debt = 0\<rparr>"
    by simp_all
  have i: "as_int (dict_get (se_data ?ev) ''step_index'') = 1" by (rule usage_event_counts)
  obtain r s1 where c: "consume demo_cfg 1 8 (step_key ''r9'' 1) (step_meta ''r9'' 1 ?ev) None demo_funded = (Inr r, s1)"
    and r: "\<not> cr_idempotent_replay r" "cr_charged_amount r = 8" and s1: "agent_runs s1 = agent_runs demo_funded"
    using consume_step_eval [OF _ w _ step_meta_incremental, of 8 demo_cfg "step_key ''r9'' 1" "''r9''" 1 ?ev]
      demo_existing_funded [OF key] by (simp add: Let_def post_debit_def)
  have "bill_step demo_cfg 0 1 ''r9'' ?ev 0 demo_funded =
      op_bind (record_step 0 ''r9'' 1 8) (\<lambda>_. op_return (8, False)) s1"
    using bill_step_eval [OF demo_step_price(1) _ _ _ r(1), of 0 1 demo_funded "''r9''" 1 s1 0] bal i c r(2)
    by simp
  moreover have "agent_runs demo_funded = []"
    by (simp add: demo_funded_eq post_credit_def demo_db_def empty_db_def)
  then have "\<exists>u. record_step 0 ''r9'' 1 8 s1 = (Inr (), u)"
    using s1 by (simp add: record_step_def run_of_def)
  ultimately show ?thesis by (auto simp: op_bind_def)
qed

theorem bill_step_tracks_the_ledger_witness:
  "\<exists>t. bill_step demo_cfg 0 1 ''r9'' (usage_event 3000 1000 1) 0 demo_funded = (Inr (8, False), t) \<and>
     charged_for_run 1 ''r9'' t = 8 \<and> current_balance 1 t = 42"
proof -
  obtain t where run: "bill_step demo_cfg 0 1 ''r9'' (usage_event 3000 1000 1) 0 demo_funded =
      (Inr (8, False), t)"
    using demo_bill_step by blast
  have "0 = charged_for_run 1 ''r9'' demo_funded"
    by (simp add: charged_for_run_eq demo_funded_eq post_credit_def demo_db_def empty_db_def)
  from bill_step_tracks_the_ledger [OF run this] run show ?thesis by simp
qed

theorem run_is_billed_exactly_once_witness:
  "\<exists>t u. bill_steps demo_cfg 0 1 ''r9'' [usage_event 3000 1000 1] 0 demo_funded = (Inr (8, False), t) \<and>
     bill_completed demo_cfg 1 ''r9'' (usage_event 4000 2000 2) 8 t = (Inr True, u) \<and>
     charged_for_run 1 ''r9'' u = 14"
proof -
  obtain t where one: "bill_step demo_cfg 0 1 ''r9'' (usage_event 3000 1000 1) 0 demo_funded =
      (Inr (8, False), t)"
    using demo_bill_step by blast
  then have run: "bill_steps demo_cfg 0 1 ''r9'' [usage_event 3000 1000 1] 0 demo_funded = (Inr (8, False), t)"
    by (simp add: op_bind_def)
  have c0: "charged_for_run 1 ''r9'' demo_funded = 0"
    by (simp add: charged_for_run_eq demo_funded_eq post_credit_def demo_db_def empty_db_def)
  have b: "0 \<le> current_balance 1 demo_funded" by simp
  have bt: "current_balance 1 t = 42" using bill_step_facts(4) [OF one b] by simp
  have k: "key_of ''r9'' (usage_event 3000 1000 1) \<noteq> ''g1''" by (simp add: key_of_def step_key_def)
  have ow: "owed_of demo_cfg (usage_event 3000 1000 1) = 8" using demo_step_price(1) by (simp add: owed_of_def)
  from run_is_billed_exactly_once [OF run c0 b _ _ _ demo_step_price(2), of 2] run bt ow
    demo_existing_funded [OF k] show ?thesis by simp
qed

subsection \<open>Abandoned runs\<close>

lemma consume_plain_charged_le:
  assumes "0 < amount" "existing_tx uid key s = None" "wallets s uid = Some w"
    and "consume_plain uid amount key meta sid s = (Inr r, t)"
  shows "cr_charged_amount r = amount"
  using assms by (cases "amount \<le> balance w") (auto simp: consume_plain_cases)

lemma consume_route_charged_le:
  assumes "0 < amount" "existing_tx uid key s = None" "wallets s uid = Some w"
    and "consume_route cfg uid amount key meta sid s = (Inr r, t)"
  shows "cr_charged_amount r \<le> amount"
proof (cases "truthy (dict_get meta ''incremental'')")
  case True
  with assms show ?thesis
    by (cases "0 < balance w") (auto simp: consume_route_def consume_incremental_fresh consume_incremental_empty)
next
  case False
  show ?thesis
  proof (cases "agent_reconcile_applies cfg meta \<and> 0 < balance w \<and> balance w < amount")
    case True
    with False assms show ?thesis
      by (auto simp: consume_route_def op_bind_def consume_agent_with_debt_eval current_of_wallet
          agent_debt_write_shortfall)
  next
    case no: False
    have "consume_plain uid amount key meta sid s = (Inr r, t)"
      using False no assms
      by (auto simp: consume_route_def op_bind_def consume_agent_with_debt_eval current_of_wallet
          agent_debt_write_defer split: if_splits)
    from consume_plain_charged_le [OF assms(1-3) this] show ?thesis by simp
  qed
qed

lemma consume_charged_bounds:
  assumes "consume cfg uid amount key meta sid s = (Inr r, t)"
  shows "0 \<le> cr_charged_amount r \<and> cr_charged_amount r \<le> amount"
proof -
  obtain w where w: "wallets (ensured uid s) uid = Some w" using ensured_wallet by blast
  from consume_success [OF assms] have amount: "0 < amount"
    and route: "consume_route cfg uid amount key meta sid (ensured uid s) = (Inr r, t)"
    and eff: "debit_effect uid key meta (ensured uid s) (Inr r) t" by auto
  show ?thesis
  proof (cases "existing_tx uid key s")
    case None
    then have "existing_tx uid key (ensured uid s) = None" by simp
    from consume_route_charged_le [OF amount this w route] eff show ?thesis
      by (auto simp: debit_effect_def)
  next
    case (Some x)
    then have "existing_tx uid key (ensured uid s) \<noteq> None" by simp
    with eff amount show ?thesis by (auto simp: debit_effect_def)
  qed
qed

lemma consume_raise_ledger:
  assumes "consume cfg uid amount key meta sid s = (Inl e, t)"
  shows "ledger t = ledger s"
proof (cases "t = s")
  case False
  with assms have eq: "consume_route cfg uid amount key meta sid (ensured uid s) = (Inl e, t)"
    and amount: "0 < amount"
    by (auto simp: consume_eval split: if_splits option.splits)
  obtain w where "wallets (ensured uid s) uid = Some w" using ensured_wallet by blast
  from consume_route_effect [OF amount this, of key meta cfg sid] eq
  have "t = ensured uid s" by (auto simp: debit_effect_def)
  then show ?thesis by simp
qed simp

lemma record_insufficient_ledger:
  "record_insufficient u k a m i j n s = (Inr (), t) \<Longrightarrow> ledger t = ledger s"
  by (auto simp: record_insufficient_def op_bind_def)

lemma orphan_debit_bounds:
  assumes "orphan_debit cfg uid run_id i j owed s = (Inr billed, t)" and "0 \<le> owed"
  shows "charged_for_run uid run_id t = charged_for_run uid run_id s + billed \<and> 0 \<le> billed \<and> billed \<le> owed"
proof (cases "owed > 0")
  case False
  with assms show ?thesis by (auto simp: orphan_debit_def)
next
  case True
  show ?thesis
  proof (cases "fst (consume cfg uid owed run_id (orphan_meta run_id) None s)")
    case (Inr r)
    then obtain s1 where c: "consume cfg uid owed run_id (orphan_meta run_id) None s = (Inr r, s1)"
      by (metis prod.collapse)
    then have "billed = cr_charged_amount r" "t = s1"
      using assms True by (auto simp: orphan_debit_def op_catch_def op_bind_def)
    with consume_charged_for_run [OF c run_keyed_self(1)] consume_charged_bounds [OF c] show ?thesis by simp
  next
    case (Inl e)
    then obtain s1 where c: "consume cfg uid owed run_id (orphan_meta run_id) None s = (Inl e, s1)"
      by (metis prod.collapse)
    then obtain u where "record_insufficient uid run_id owed None i j (i + j) s1 = (Inr u, t)" "billed = 0"
      using assms True
      by (auto simp: orphan_debit_def op_catch_def op_bind_def split: if_splits prod.splits sum.splits)
    then have "ledger t = ledger s"
      using record_insufficient_ledger consume_raise_ledger [OF c] by fastforce
    from charged_for_run_cong [OF this] \<open>billed = 0\<close> True show ?thesis by simp
  qed
qed

lemma mark_terminal_eq: "mark_terminal now k ''failed'' s = (Inr (), snd (mark_status now k ''failed'' s))"
  by (auto simp: mark_terminal_def mark_status_def AGENT_RUN_STATUS_def update_run_def split: option.splits)

lemma mark_status_frame [simp]:
  "ledger (snd (mark_status now k st s)) = ledger s" "wallets (snd (mark_status now k st s)) = wallets s"
  by (auto simp: mark_status_def update_run_def split: option.splits)

lemma mark_status_settles:
  assumes "run_of k (snd (mark_status now k ''failed'' s)) = Some r"
  shows "\<not> active_status (run_status r)"
  using assms
  by (auto simp: mark_status_def update_run_def AGENT_RUN_STATUS_def active_status_def
      split: option.splits if_splits)

lemma finalize_orphan_run_eval:
  assumes "usage_to_credits i j (credits_per_1k_input cfg) (credits_per_1k_output cfg) = Inr observed"
  shows "finalize_orphan_run cfg now uid run_id i j present age s =
    (case orphan_debit cfg uid run_id i j (max (observed - charged_for_run uid run_id s) 0) s of
       (Inl e, s1) \<Rightarrow> (Inl e, s1)
     | (Inr billed, s1) \<Rightarrow>
         let s2 = snd (mark_status now run_id ''failed'' s1);
             ev = orphan_event uid run_id i j observed (charged_for_run uid run_id s) billed
                    (orphan_billing_basis present i j) age
         in (Inr (), s2\<lparr>audit_logs := audit_logs s2 @ [audit_row_of (request_id s2) ev]\<rparr>))"
proof -
  have tail: "op_bind (mark_terminal now run_id ''failed'') (\<lambda>_. audit_record ev) s1 =
      (let s2 = snd (mark_status now run_id ''failed'' s1) in
       (Inr (), s2\<lparr>audit_logs := audit_logs s2 @ [audit_row_of (request_id s2) ev]\<rparr>))" for ev s1
    unfolding Let_def op_bind_InrI [OF mark_terminal_eq] by (rule audit_record_apply)
  show ?thesis
    unfolding finalize_orphan_run_def Let_def assms sum.case op_bind_read op_bind_def [of "orphan_debit _ _ _ _ _ _"]
      tail by (rule refl)
qed

text \<open>
  An abandoned run is charged the remainder, not the whole run: after its finalization the
  debits of the run have not fallen and do not exceed the price of the observed usage (or what had
  already been charged), the run is no longer active, and once the price is paid a further
  finalization takes nothing.
\<close>

theorem orphan_is_charged_the_remainder:
  assumes "finalize_orphan_run cfg now uid run_id i j present age s = (Inr (), t)"
    and "usage_to_credits i j (credits_per_1k_input cfg) (credits_per_1k_output cfg) = Inr observed"
  shows "charged_for_run uid run_id s \<le> charged_for_run uid run_id t \<and>
    charged_for_run uid run_id t \<le> max observed (charged_for_run uid run_id s) \<and>
    (\<forall>r. run_of run_id t = Some r \<longrightarrow> \<not> active_status (run_status r)) \<and>
    (observed \<le> charged_for_run uid run_id t \<longrightarrow>
       ledger (snd (finalize_orphan_run cfg now' uid run_id i j present age' t)) = ledger t \<and>
       wallets (snd (finalize_orphan_run cfg now' uid run_id i j present age' t)) = wallets t)"
proof -
  let ?owed = "max (observed - charged_for_run uid run_id s) 0"
  from assms obtain billed s1 row where d: "orphan_debit cfg uid run_id i j ?owed s = (Inr billed, s1)"
    and t: "t = (snd (mark_status now run_id ''failed'' s1))\<lparr>audit_logs := row\<rparr>"
    unfolding finalize_orphan_run_eval [OF assms(2)] Let_def by (auto split: prod.splits sum.splits)
  have b: "charged_for_run uid run_id s1 = charged_for_run uid run_id s + billed" "0 \<le> billed" "billed \<le> ?owed"
    using orphan_debit_bounds [OF d] by auto
  have led: "ledger t = ledger s1" by (simp add: t)
  have c: "charged_for_run uid run_id t = charged_for_run uid run_id s1" using led by (rule charged_for_run_cong)
  have settled: "\<not> active_status (run_status r)" if "run_of run_id t = Some r" for r
    using that mark_status_settles [of run_id now s1 r] by (simp add: t run_of_def)
  have again: "ledger (snd (finalize_orphan_run cfg now' uid run_id i j present age' t)) = ledger t \<and>
       wallets (snd (finalize_orphan_run cfg now' uid run_id i j present age' t)) = wallets t"
    if "observed \<le> charged_for_run uid run_id t"
    using that unfolding finalize_orphan_run_eval [OF assms(2)] Let_def
    by (simp add: orphan_debit_def)
  show ?thesis using b c settled again by auto
qed

theorem orphan_is_charged_the_remainder_witness:
  "\<exists>t. finalize_orphan_run demo_cfg 0 1 ''r9'' 3000 1000 True 60 demo_funded = (Inr (), t) \<and>
     charged_for_run 1 ''r9'' t \<le> 8"
proof -
  have p: "usage_to_credits 3000 1000 (credits_per_1k_input demo_cfg) (credits_per_1k_output demo_cfg) = Inr 8"
    using price_of_thousands [of 3 1] by (simp add: demo_rates)
  have c0: "charged_for_run 1 ''r9'' demo_funded = 0"
    by (simp add: charged_for_run_eq demo_funded_eq post_credit_def demo_db_def empty_db_def)
  have w: "wallets demo_funded 1 = Some \<lparr>balance = 50, debt = 0\<rparr>" and e: "existing_tx 1 ''r9'' demo_funded = None"
    by simp_all
  obtain r s1 where "consume demo_cfg 1 8 ''r9'' (orphan_meta ''r9'') None demo_funded = (Inr r, s1)"
    using consume_sufficient [OF _ e w _ orphan_meta_plain, of 8 demo_cfg] by simp
  then have "orphan_debit demo_cfg 1 ''r9'' 3000 1000 8 demo_funded = (Inr (cr_charged_amount r), s1)"
    by (simp add: orphan_debit_def op_catch_def op_bind_def)
  then have run: "\<exists>t. finalize_orphan_run demo_cfg 0 1 ''r9'' 3000 1000 True 60 demo_funded = (Inr (), t)"
    unfolding finalize_orphan_run_eval [OF p] Let_def c0 by simp
  then obtain t where run: "finalize_orphan_run demo_cfg 0 1 ''r9'' 3000 1000 True 60 demo_funded = (Inr (), t)"
    by blast
  from orphan_is_charged_the_remainder [OF run p] c0 run show ?thesis by auto
qed

end
