(* ===== verification/AgentProcessFacts.thy ===== *)
theory AgentProcessFacts
  imports AgentProcess AgentBillingClaims
begin

text \<open>
  Lemmas on the processing of agent events: what each operation leaves alone, the invariants it
  keeps, and the shape of the snapshot flush.
\<close>

subsection \<open>Lifting\<close>

lemma on_db_apply [simp]: "on_db m (r, s) = (fst (m s), (r, snd (m s)))"
  by (simp add: on_db_def split: prod.splits)

lemma on_run_apply [simp]: "on_run f (r, s) = (Inr (), (f r, s))"
  by (simp add: on_run_def)

lemma on_state_apply [simp]: "on_state f (r, s) = (Inr (), (r\<lparr>rp_state := f (rp_state r)\<rparr>, s))"
  by (simp add: on_state_def)

lemma the_run_apply [simp]: "the_run (r, s) = (Inr r, (r, s))"
  by (simp add: the_run_def)

lemma bind_on_run [simp]: "op_bind (on_run f) g (r, s) = g () (f r, s)"
  by (simp add: op_bind_def)

lemma bind_on_state [simp]: "op_bind (on_state f) g (r, s) = g () (r\<lparr>rp_state := f (rp_state r)\<rparr>, s)"
  by (simp add: op_bind_def)

lemma bind_the_run [simp]: "op_bind the_run g (r, s) = g r (r, s)"
  by (simp add: op_bind_def)

text \<open>An invariant of the database alone.\<close>

definition db_inv :: "(db \<Rightarrow> bool) \<Rightarrow> run_processing \<times> db \<Rightarrow> bool" where
  "db_inv I p \<longleftrightarrow> I (snd p)"

lemma db_inv_on_db [op_rules]: "op_preserves I m \<Longrightarrow> op_preserves (db_inv I) (on_db m)"
  by (auto simp: op_preserves_def db_inv_def)

lemma db_inv_on_run [op_rules]: "op_preserves (db_inv I) (on_run f)"
  by (auto simp: op_preserves_def db_inv_def)

lemma db_inv_on_state [op_rules]: "op_preserves (db_inv I) (on_state f)"
  by (auto simp: op_preserves_def db_inv_def)

lemma the_run_inv [op_rules]: "op_preserves I the_run"
  by (simp add: the_run_def)

lemma op_preserves_sum [op_rules]:
  "(\<And>e. x = Inl e \<Longrightarrow> op_preserves I (f e)) \<Longrightarrow> (\<And>y. x = Inr y \<Longrightarrow> op_preserves I (g y)) \<Longrightarrow>
   op_preserves I (case x of Inl e \<Rightarrow> f e | Inr y \<Rightarrow> g y)"
  by (cases x) auto

subsection \<open>The books\<close>

lemma insufficient_audit_inv:
  assumes "ev_type e \<noteq> EVENT_BILLING_DEBT_REPAID" "map_of (ev_payload e) ''debtAdded'' = None"
  shows "op_preserves wallet_inv (audit_record e)"
proof (rule op_preservesI)
  fix s
  assume "wallet_inv s"
  let ?t = "snd (audit_record e s)"
  have "dict_get (audit_payload (audit_row_of (request_id s) e)) ''debtAdded'' = JNull"
    using assms(2) by (simp add: audit_row_of_def dict_get_assert_no_secrets map_of_dict_set)
  then have "repaid_of u ?t = repaid_of u s" "debt_added_of u ?t = debt_added_of u s"
    "credits_of u ?t = credits_of u s" "debits_of u ?t = debits_of u s"
    "current_balance u ?t = current_balance u s" "current_debt u ?t = current_debt u s" for u
    using assms(1) by (simp_all add: books_defs json_int_def) (simp add: audit_row_of_def)
  then have "books_ok u ?t = books_ok u s" for u by (simp only: books_ok_def)
  moreover have "ledger_wf ?t = ledger_wf s" by (simp add: ledger_wf_def)
  ultimately show "wallet_inv ?t"
    using \<open>wallet_inv s\<close> unfolding wallet_inv_def by blast
qed

lemma record_insufficient_inv [op_rules]: "op_preserves wallet_inv (record_insufficient u k a m i j n)"
  unfolding record_insufficient_def
  by (intro op_rules insufficient_audit_inv) (simp_all add: event_defs)

lemma update_run_inv [op_rules]: "op_preserves wallet_inv (update_run k c f)"
  by (rule op_preservesI) (auto simp: update_run_def split: option.splits)

lemma lifecycle_inv [op_rules]:
  "op_preserves wallet_inv (mark_paused now k x)" "op_preserves wallet_inv (mark_status now k x)"
  "op_preserves wallet_inv (mark_stopped now k u)" "op_preserves wallet_inv (record_step now k i c)"
  "op_preserves wallet_inv (mark_terminal now k x)"
proof -
  show "op_preserves wallet_inv (mark_paused now k x)" "op_preserves wallet_inv (mark_stopped now k u)"
    unfolding mark_paused_def mark_stopped_def by (intro op_rules)+
  show ms: "op_preserves wallet_inv (mark_status now k x)"
    unfolding mark_status_def by (intro op_rules)
  show "op_preserves wallet_inv (record_step now k i c)"
    by (rule op_preservesI) (auto simp: record_step_def split: option.splits)
  show "op_preserves wallet_inv (mark_terminal now k x)"
    using ms by (auto simp: mark_terminal_def op_preserves_def split: prod.splits sum.splits exn.splits)
qed

lemma bill_step_inv [op_rules]: "op_preserves wallet_inv (bill_step cfg now u k ev c)"
  unfolding bill_step_def Let_def by (intro op_rules)

lemma bill_completed_inv [op_rules]: "op_preserves wallet_inv (bill_completed cfg u k ev c)"
proof (rule op_preservesI)
  fix s
  assume inv: "wallet_inv s"
  show "wallet_inv (snd (bill_completed cfg u k ev c s))"
  proof (cases "consume cfg u
      (projr (usage_to_credits (uc_input (extract_usage_counts ev)) (uc_output (extract_usage_counts ev))
        (credits_per_1k_input cfg) (credits_per_1k_output cfg)) - c) k (completed_meta k ev) None s")
    case (Pair out s')
    have "wallet_inv s'" using op_preservesD [OF consume_preserves_inv inv] Pair by (metis snd_conv)
    moreover have "op_preserves wallet_inv (op_bind (record_insufficient u k a m i j n) (\<lambda>_. op_return True))"
      for a m i j n by (intro op_rules)
    ultimately have "wallet_inv (snd (op_bind (record_insufficient u k a m i j n) (\<lambda>_. op_return True) s'))"
      for a m i j n by (rule op_preservesD [rotated])
    with \<open>wallet_inv s'\<close> show ?thesis
      using Pair inv by (auto simp: bill_completed_def Let_def split: sum.splits)
  qed
qed

lemma orphan_debit_inv [op_rules]: "op_preserves wallet_inv (orphan_debit cfg u k i j n)"
  unfolding orphan_debit_def by (intro op_rules)

lemma finalize_orphan_run_inv [op_rules]: "op_preserves wallet_inv (finalize_orphan_run cfg now u k i j b a)"
  unfolding finalize_orphan_run_def Let_def
  by (intro op_rules wallet_inv_audit) (simp_all add: orphan_event_def EVENT_ORPHAN_FINALIZED_def event_defs)

lemma snapshot_upsert_inv [op_rules]: "op_preserves wallet_inv (snapshot_upsert k ex b)"
  by (rule op_preservesI) (auto simp: snapshot_upsert_def Let_def split: option.splits)

subsection \<open>The snapshot flush\<close>

lemma snapshot_upsert_cases:
  obtains "snapshot_upsert k ex b s = (Inl DbError, s)"
  | w sn where "snapshot_upsert k ex b s = (Inr w, s\<lparr>agent_snapshots := (agent_snapshots s)(k \<mapsto> sn)\<rparr>)"
      "\<not> (snap_input_tokens ex < 0 \<or> snap_output_tokens ex < 0)"
      "(agent_snapshots s k = None \<and> run_of k s \<noteq> None \<and> users s (snap_user ex) \<noteq> None \<and>
          sn = ex\<lparr>snap_heartbeat_at := None\<rparr>) \<or>
       (\<exists>t. agent_snapshots s k = Some t \<and> snap_user t = snap_user ex \<and> sn = merge_snapshot t ex b)"
  | w where "snapshot_upsert k ex b s = (Inr w, s)" "\<exists>t. agent_snapshots s k = Some t \<and> snap_user t \<noteq> snap_user ex"
proof (cases "snap_input_tokens ex < 0 \<or> snap_output_tokens ex < 0")
  case True
  then show thesis by (intro that(1)) (auto simp: snapshot_upsert_def)
next
  case nonneg: False
  show thesis
  proof (cases "agent_snapshots s k")
    case None
    show thesis
    proof (cases "run_of k s = None \<or> users s (snap_user ex) = None")
      case True
      with None show thesis by (intro that(1)) (auto simp: snapshot_upsert_def)
    next
      case False
      with None nonneg show thesis by (intro that(2)) (auto simp: snapshot_upsert_def)
    qed
  next
    case (Some t)
    show thesis
    proof (cases "snap_user t = snap_user ex")
      case True
      with Some nonneg show thesis by (intro that(2)) (auto simp: snapshot_upsert_def Let_def)
    next
      case False
      with Some nonneg show thesis by (intro that(3)) (auto simp: snapshot_upsert_def)
    qed
  qed
qed

text \<open>What the flush keeps of the processing object.\<close>

definition same_relay :: "run_processing \<Rightarrow> run_processing \<Rightarrow> bool" where
  "same_relay r r' \<longleftrightarrow>
     rp_user r' = rp_user r \<and> rp_run_id r' = rp_run_id r \<and> rp_incremental r' = rp_incremental r \<and>
     rp_charged r' = rp_charged r \<and> rp_billed r' = rp_billed r \<and>
     rs_input_tokens (rp_state r') = rs_input_tokens (rp_state r) \<and>
     rs_output_tokens (rp_state r') = rs_output_tokens (rp_state r)"

lemma same_relay_refl [simp]: "same_relay r r"
  by (simp add: same_relay_def)

lemma same_relay_trans: "same_relay a b \<Longrightarrow> same_relay b c \<Longrightarrow> same_relay a c"
  by (simp add: same_relay_def)

lemma log_write_anomaly_keeps [simp]:
  "rs_partial_text (log_write_anomaly w n st) = rs_partial_text st"
  "rs_input_tokens (log_write_anomaly w n st) = rs_input_tokens st"
  "rs_output_tokens (log_write_anomaly w n st) = rs_output_tokens st"
  by (simp_all add: log_write_anomaly_def warn_def)

lemma warn_keeps [simp]:
  "rs_partial_text (warn w st) = rs_partial_text st" "rs_input_tokens (warn w st) = rs_input_tokens st"
  "rs_output_tokens (warn w st) = rs_output_tokens st"
  by (simp_all add: warn_def)

abbreviation relay_text :: "run_processing \<Rightarrow> string" where
  "relay_text r \<equiv> concat (rs_partial_text (rp_state r))"

abbreviation flushed_text :: "settings \<Rightarrow> run_processing \<Rightarrow> string" where
  "flushed_text cfg r \<equiv> cap_text (agent_state_result_text_max_chars cfg) (relay_text r)"

lemma flush_snapshot_cases:
  obtains (skipped) "flush_snapshot cfg now c w imm ap (r, s) = (Inr (), (r, s))" "\<not> imm"
  | (failed) r' where "flush_snapshot cfg now c w imm ap (r, s) = (Inr (), (r', s))" "same_relay r r'"
      "relay_text r' = flushed_text cfg r"
      "snapshot_upsert (rp_run_id r) (relay_snapshot now (flushed_text cfg r) r) ap s = (Inl DbError, s)"
  | (stored) r' res ss where
      "flush_snapshot cfg now c w imm ap (r, s) = (Inr (), (r', s\<lparr>agent_snapshots := ss\<rparr>))" "same_relay r r'"
      "relay_text r' = flushed_text cfg r"
      "snapshot_upsert (rp_run_id r) (relay_snapshot now (flushed_text cfg r) r) ap s =
         (Inr res, s\<lparr>agent_snapshots := ss\<rparr>)"
proof (cases "\<not> imm \<and> c - rs_last_flush_at (rp_state r) < agent_state_flush_interval_seconds cfg")
  case True
  then show thesis by (intro skipped) (simp_all add: flush_snapshot_def)
next
  case False
  let ?text = "flushed_text cfg r" and ?r1 = "r\<lparr>rp_state := (rp_state r)\<lparr>rs_partial_text := [flushed_text cfg r]\<rparr>\<rparr>"
  have snap: "relay_snapshot now ?text ?r1 = relay_snapshot now ?text r"
    by (simp add: relay_snapshot_def Let_def)
  have run: "flush_snapshot cfg now c w imm ap (r, s) =
      op_bind (write_snapshot now ?text ap) (\<lambda>_. on_state (\<lambda>st. st\<lparr>rs_last_flush_at := w\<rparr>)) (?r1, s)"
    using False by (auto simp: flush_snapshot_def Let_def)
  show thesis
  proof (cases rule: snapshot_upsert_cases [of "rp_run_id r" "relay_snapshot now ?text r" ap s])
    case 1
    let ?r' = "?r1\<lparr>rp_state := (warn SnapshotWriteFailed (rp_state ?r1))\<lparr>rs_last_flush_at := w\<rparr>\<rparr>"
    show thesis
      by (rule failed [of ?r', OF _ _ _ 1]) (simp_all add: run op_bind_def write_snapshot_def snap 1 same_relay_def)
  next
    case (2 res sn)
    let ?r' = "?r1\<lparr>rp_state := (log_write_anomaly res (length ?text) (rp_state ?r1))\<lparr>rs_last_flush_at := w\<rparr>\<rparr>"
    show thesis
      by (rule stored [of ?r', OF _ _ _ 2(1)]) (simp_all add: run op_bind_def write_snapshot_def snap 2(1) same_relay_def)
  next
    case (3 res)
    let ?r' = "?r1\<lparr>rp_state := (log_write_anomaly res (length ?text) (rp_state ?r1))\<lparr>rs_last_flush_at := w\<rparr>\<rparr>"
    show thesis
      by (rule stored [of ?r' "agent_snapshots s" res])
        (simp_all add: run op_bind_def write_snapshot_def snap 3(1) same_relay_def)
  qed
qed

lemma flush_snapshot_frame:
  obtains r' ss where
    "flush_snapshot cfg now c w imm ap (r, s) = (Inr (), (r', s\<lparr>agent_snapshots := ss\<rparr>))" "same_relay r r'"
proof -
  have s: "s = s\<lparr>agent_snapshots := agent_snapshots s\<rparr>" by simp
  show thesis
  proof (cases rule: flush_snapshot_cases [of cfg now c w imm ap r s])
    case skipped
    then show thesis using that [of r "agent_snapshots s"] s by simp
  next
    case (failed r')
    then show thesis using that [of r' "agent_snapshots s"] s by simp
  next
    case (stored r' res ss)
    then show thesis using that by blast
  qed
qed

lemma flush_snapshot_inv [op_rules]: "op_preserves (db_inv wallet_inv) (flush_snapshot cfg now c w imm ap)"
proof (rule op_preservesI)
  fix p :: "run_processing \<times> db"
  assume inv: "db_inv wallet_inv p"
  obtain r s where p: "p = (r, s)" by (cases p)
  obtain r' ss where "flush_snapshot cfg now c w imm ap (r, s) = (Inr (), (r', s\<lparr>agent_snapshots := ss\<rparr>))"
    by (rule flush_snapshot_frame)
  with inv show "db_inv wallet_inv (snd (flush_snapshot cfg now c w imm ap p))"
    by (simp add: db_inv_def p)
qed

subsection \<open>Every event keeps the books\<close>

lemma pause_run_inv [op_rules]: "op_preserves (db_inv wallet_inv) (pause_run cfg ck stop)"
  unfolding pause_run_def by (intro op_rules)

lemma bill_relay_inv [op_rules]:
  "op_preserves (db_inv wallet_inv) (bill_relay_step cfg ck ev)"
  "op_preserves (db_inv wallet_inv) (bill_relay_completed cfg ev)"
  unfolding bill_relay_step_def bill_relay_completed_def Let_def by (intro op_rules)+

lemma process_event_inv [op_rules]: "op_preserves (db_inv wallet_inv) (process_event cfg ck stop ev)"
  unfolding process_event_def Let_def on_message_delta_def on_tool_event_def on_approval_request_def
    on_usage_delta_def on_run_failed_def on_run_completed_def
  by (intro op_rules)

lemma relay_events_inv [op_rules]: "op_preserves (db_inv wallet_inv) (relay_events cfg evs)"
  by (induction cfg evs rule: relay_events.induct) (simp_all only: relay_events.simps, (intro op_rules; simp)+)

end
