(* ===== verification/AgentProcessClaims.thy ===== *)
theory AgentProcessClaims
  imports AgentProcessFacts AgentRunClaims
begin

text \<open>
  Properties of the event processing of an agent run: the terminal status is settled whatever the
  billing does, and the stored text is the head of the streamed text.
\<close>

subsection \<open>What a debit leaves alone\<close>

lemma ensured_rows [simp]:
  "agent_runs (ensured u s) = agent_runs s" "agent_snapshots (ensured u s) = agent_snapshots s"
  "users (ensured u s) = users s"
  by (auto simp: ensured_def split: option.splits)

lemma consume_frame:
  "agent_runs (snd (consume cfg u a k m sid s)) = agent_runs s \<and>
   agent_snapshots (snd (consume cfg u a k m sid s)) = agent_snapshots s \<and>
   users (snd (consume cfg u a k m sid s)) = users s"
proof -
  obtain w where w: "wallets (ensured u s) u = Some w" using ensured_wallet by blast
  have "agent_runs t = agent_runs s \<and> agent_snapshots t = agent_snapshots s \<and> users t = users s"
    if "debit_effect u k m (ensured u s) out t" for out t
    using that by (auto simp: debit_effect_def post_debit_def)
  from this [OF consume_route_effect [OF _ w, of a k m cfg sid]] show ?thesis
    by (auto simp: consume_eval split: option.splits)
qed

text \<open>The part of the database that an operation on runs, snapshots and users sees.\<close>

abbreviation rows_of :: "db \<Rightarrow> (string \<times> agent_run) list \<times> (string \<rightharpoonup> agent_snapshot) \<times> (uuid \<rightharpoonup> user_row)" where
  "rows_of s \<equiv> (agent_runs s, agent_snapshots s, users s)"

lemma record_insufficient_rows: "rows_of (snd (record_insufficient u k a m i j n s)) = rows_of s"
  by (simp add: record_insufficient_def op_bind_def)

lemma bill_completed_rows: "rows_of (snd (bill_completed cfg u k ev c s)) = rows_of s"
proof -
  let ?cost = "usage_to_credits (uc_input (extract_usage_counts ev)) (uc_output (extract_usage_counts ev))
        (credits_per_1k_input cfg) (credits_per_1k_output cfg)"
  obtain out t where c: "consume cfg u (projr ?cost - c) k (completed_meta k ev) None s = (out, t)"
    by fastforce
  have t: "rows_of t = rows_of s" using consume_frame [of cfg u "projr ?cost - c" k "completed_meta k ev" None s] c by simp
  have "rows_of (snd (op_bind (record_insufficient u k a m i j n) (\<lambda>_. op_return True) t)) = rows_of t" for a m i j n
    using record_insufficient_rows [of u k a m i j n t]
    by (auto simp: op_bind_def record_insufficient_def)
  with t c show ?thesis
    by (auto simp: bill_completed_def Let_def split: sum.splits)
qed

subsection \<open>Terminal events\<close>

definition settled_status :: "string \<Rightarrow> string \<Rightarrow> string" where
  "settled_status final st = (if active_status st then final else st)"

lemma mark_terminal_effect:
  assumes "final = ''completed'' \<or> final = ''failed''"
  shows "mark_terminal now k final s = (Inr (), snd (mark_terminal now k final s))"
    and "map_option run_status (run_of k (snd (mark_terminal now k final s))) =
      map_option (\<lambda>r. settled_status final (run_status r)) (run_of k s)"
    and "agent_snapshots (snd (mark_terminal now k final s)) = agent_snapshots s"
    and "users (snd (mark_terminal now k final s)) = users s"
    and "run_of k (snd (mark_terminal now k final s)) = None \<longleftrightarrow> run_of k s = None"
  using assms
  by (auto simp: mark_terminal_def mark_status_def AGENT_RUN_STATUS_def update_run_def settled_status_def
      split: option.splits if_splits)

text \<open>The status row of a run, as an invariant of what follows the status write.\<close>

definition status_is :: "string \<Rightarrow> string option \<Rightarrow> db \<Rightarrow> bool" where
  "status_is k st s \<longleftrightarrow> map_option run_status (run_of k s) = st"

lemma status_is_rows: "(\<And>s. rows_of (snd (m s)) = rows_of s) \<Longrightarrow> op_preserves (status_is k st) m"
  by (simp add: op_preserves_def status_is_def run_of_def)

lemma bill_relay_completed_status: "op_preserves (db_inv (status_is k st)) (bill_relay_completed cfg ev)"
  unfolding bill_relay_completed_def Let_def
  by (intro op_rules status_is_rows bill_completed_rows)

lemma terminal_status_kept:
  assumes "final = ''completed'' \<or> final = ''failed''"
    and "\<And>r. op_preserves (db_inv (status_is k (map_option (\<lambda>r. settled_status final (run_status r)) (run_of k s)))) (rest r)"
    and "rp_run_id r = k"
  shows "status_is k (map_option (\<lambda>r. settled_status final (run_status r)) (run_of k s))
     (snd (snd (op_bind (on_state f) (\<lambda>_. op_bind (flush_snapshot cfg now c w True True) (\<lambda>_.
        op_bind the_run (\<lambda>r. op_bind (on_db (mark_terminal now (rp_run_id r) final)) (\<lambda>_. rest r)))) (r, s))))"
proof -
  let ?r1 = "r\<lparr>rp_state := f (rp_state r)\<rparr>"
  obtain r' ss where fl: "flush_snapshot cfg now c w True True (?r1, s) = (Inr (), (r', s\<lparr>agent_snapshots := ss\<rparr>))"
    and same: "same_relay ?r1 r'" by (rule flush_snapshot_frame)
  let ?s1 = "s\<lparr>agent_snapshots := ss\<rparr>"
  let ?s2 = "snd (mark_terminal now k final ?s1)"
  have k: "rp_run_id r' = k" using same assms(3) by (simp add: same_relay_def)
  have run: "op_bind (on_state f) (\<lambda>_. op_bind (flush_snapshot cfg now c w True True) (\<lambda>_.
        op_bind the_run (\<lambda>r. op_bind (on_db (mark_terminal now (rp_run_id r) final)) (\<lambda>_. rest r)))) (r, s) =
      rest r' (r', ?s2)"
    using arg_cong [OF mark_terminal_effect(1) [OF assms(1), of now k ?s1], of fst]
    by (simp add: op_bind_InrI [of "flush_snapshot cfg now c w True True", OF fl] k) (simp add: op_bind_def)
  have "run_of k ?s1 = run_of k s" by (simp add: run_of_def)
  then have "db_inv (status_is k (map_option (\<lambda>r. settled_status final (run_status r)) (run_of k s))) (r', ?s2)"
    using mark_terminal_effect(2) [OF assms(1), of k now ?s1] by (simp add: db_inv_def status_is_def)
  from op_preservesD [OF assms(2) this] show ?thesis unfolding run by (simp add: db_inv_def)
qed

text \<open>
  Claim C13. A terminal event settles the run whatever the billing does: after a completed or failed
  event has been processed, with any outcome of the debit, the status of the run is the terminal one
  if the run was active and is unchanged otherwise.
\<close>

theorem terminal_event_settles_the_run:
  assumes "event_name ev = Some EVENT_RUN_COMPLETED \<or> event_name ev = Some EVENT_RUN_FAILED"
    and "final = (if event_name ev = Some EVENT_RUN_COMPLETED then ''completed'' else ''failed'')"
  shows "map_option run_status (run_of (rp_run_id r) (snd (snd (process_event cfg ck stop ev (r, s))))) =
    map_option (\<lambda>row. if active_status (run_status row) then final else run_status row) (run_of (rp_run_id r) s)"
proof -
  let ?I = "\<lambda>final. db_inv (status_is (rp_run_id r) (map_option (\<lambda>r. settled_status final (run_status r)) (run_of (rp_run_id r) s)))"
  have C: "event_name ev = Some EVENT_RUN_COMPLETED \<Longrightarrow> process_event cfg ck stop ev (r, s) =
      op_bind (on_run_completed cfg ck ev) (\<lambda>_. op_return None) (r, s)"
    and F: "event_name ev = Some EVENT_RUN_FAILED \<Longrightarrow> process_event cfg ck stop ev (r, s) =
      op_bind (on_run_failed cfg ck) (\<lambda>_. op_return None) (r, s)"
    by (simp_all add: process_event_def event_name_defs)
  show ?thesis
  proof (cases "event_name ev = Some EVENT_RUN_COMPLETED")
    case True
    let ?rest = "\<lambda>r'. op_bind (if rp_billed r' then op_return () else op_bind (bill_relay_completed cfg ev)
          (\<lambda>billed. on_run (\<lambda>r. r\<lparr>rp_billed := billed\<rparr>))) (\<lambda>_. op_return (None :: dict option))"
    have rest: "op_preserves (?I ''completed'') (?rest r')" for r'
      by (intro op_rules bill_relay_completed_status)
    have "status_is (rp_run_id r) (map_option (\<lambda>r. settled_status ''completed'' (run_status r)) (run_of (rp_run_id r) s))
        (snd (snd (op_bind (on_run_completed cfg ck ev) (\<lambda>_. op_return (None :: dict option)) (r, s))))"
      unfolding on_run_completed_def Let_def op_bind_assoc
      by (rule terminal_status_kept [where rest = ?rest, OF _ rest refl]) simp
    moreover have "final = ''completed''" using assms(2) True by simp
    ultimately show ?thesis unfolding C [OF True] status_is_def settled_status_def by (simp cong: if_cong)
  next
    case False
    then have name: "event_name ev = Some EVENT_RUN_FAILED" using assms(1) by simp
    have rest: "op_preserves (?I ''failed'') (op_return (None :: dict option))" by (intro op_rules)
    have "status_is (rp_run_id r) (map_option (\<lambda>r. settled_status ''failed'' (run_status r)) (run_of (rp_run_id r) s))
        (snd (snd (op_bind (on_run_failed cfg ck) (\<lambda>_. op_return (None :: dict option)) (r, s))))"
      unfolding on_run_failed_def op_bind_assoc by (rule terminal_status_kept [OF _ rest refl]) simp
    moreover have "final = ''failed''" using assms(2) False by simp
    ultimately show ?thesis unfolding F [OF name] status_is_def settled_status_def by (simp cong: if_cong)
  qed
qed


subsection \<open>The stored text\<close>

definition delta_text :: "sse_event \<Rightarrow> string" where
  "delta_text ev = (if event_name ev = Some EVENT_MESSAGE_DELTA then extract_delta_text ev else [])"

text \<open>
  The buffer has the head \<open>T\<close>, the row of the run exists, and the stored text, if any, is the
  user's own and a prefix of \<open>T\<close>.
\<close>

definition text_inv :: "settings \<Rightarrow> string \<Rightarrow> uuid \<Rightarrow> string \<Rightarrow> run_processing \<times> db \<Rightarrow> bool" where
  "text_inv cfg k u T p \<longleftrightarrow>
     rp_run_id (fst p) = k \<and> rp_user (fst p) = u \<and> flushed_text cfg (fst p) = T \<and>
     0 \<le> rs_input_tokens (rp_state (fst p)) \<and> 0 \<le> rs_output_tokens (rp_state (fst p)) \<and>
     run_of k (snd p) \<noteq> None \<and> users (snd p) u \<noteq> None \<and>
     (\<forall>sn. agent_snapshots (snd p) k = Some sn \<longrightarrow> snap_user sn = u \<and> prefix (snap_result_text sn) T)"

definition text_shown :: "settings \<Rightarrow> string \<Rightarrow> uuid \<Rightarrow> string \<Rightarrow> run_processing \<times> db \<Rightarrow> bool" where
  "text_shown cfg k u T p \<longleftrightarrow> text_inv cfg k u T p \<and>
     (\<exists>sn. agent_snapshots (snd p) k = Some sn \<and> snap_result_text sn = T)"

lemmas text_defs = text_inv_def text_shown_def

lemma warn_if_no_delta_text_keeps [simp]:
  "rs_partial_text (warn_if_no_delta_text st) = rs_partial_text st"
  "rs_input_tokens (warn_if_no_delta_text st) = rs_input_tokens st"
  "rs_output_tokens (warn_if_no_delta_text st) = rs_output_tokens st"
  by (simp_all add: warn_if_no_delta_text_def)

lemma latch_keeps [simp]:
  "rs_partial_text (latch_usage_anomaly a b c st) = rs_partial_text st"
  "rs_input_tokens (latch_usage_anomaly a b c st) = rs_input_tokens st"
  "rs_output_tokens (latch_usage_anomaly a b c st) = rs_output_tokens st"
  by (simp_all add: latch_usage_anomaly_def)

lemma warnings_keep [simp]:
  "rs_partial_text (warn_usage_anomalies a b c st) = rs_partial_text st"
  "rs_input_tokens (warn_usage_anomalies a b c st) = rs_input_tokens st"
  "rs_output_tokens (warn_usage_anomalies a b c st) = rs_output_tokens st"
  "rs_partial_text (note_anchor_progress d st) = rs_partial_text st"
  "rs_input_tokens (note_anchor_progress d st) = rs_input_tokens st"
  "rs_output_tokens (note_anchor_progress d st) = rs_output_tokens st"
  "rs_partial_text (assert_billable_usage ev b n st) = rs_partial_text st"
  "rs_input_tokens (assert_billable_usage ev b n st) = rs_input_tokens st"
  "rs_output_tokens (assert_billable_usage ev b n st) = rs_output_tokens st"
  by (simp_all add: warn_usage_anomalies_def note_anchor_progress_def assert_billable_usage_def Let_def
      split: option.splits)

lemma raise_anchors_keeps [simp]:
  "rs_partial_text (raise_anchors u st) = rs_partial_text st"
  "rs_input_tokens (raise_anchors u st) = max (rs_input_tokens st) (uc_input u)"
  "rs_output_tokens (raise_anchors u st) = max (rs_output_tokens st) (uc_output u)"
  by (simp_all add: raise_anchors_def)

text \<open>State updates that keep the buffer and do not lower the anchors, and calls that keep the rows.\<close>

definition keeps_text :: "(relay_state \<Rightarrow> relay_state) \<Rightarrow> bool" where
  "keeps_text f \<longleftrightarrow> (\<forall>st. rs_partial_text (f st) = rs_partial_text st \<and>
     rs_input_tokens st \<le> rs_input_tokens (f st) \<and> rs_output_tokens st \<le> rs_output_tokens (f st))"

lemma text_on_state:
  assumes "keeps_text f"
  shows "op_preserves (text_inv cfg k u T) (on_state f)" "op_preserves (text_shown cfg k u T) (on_state f)"
proof -
  have "rs_partial_text (f st) = rs_partial_text st" "rs_input_tokens st \<le> rs_input_tokens (f st)"
    "rs_output_tokens st \<le> rs_output_tokens (f st)" for st
    using assms by (auto simp: keeps_text_def)
  then show "op_preserves (text_inv cfg k u T) (on_state f)" "op_preserves (text_shown cfg k u T) (on_state f)"
    by (auto simp: op_preserves_def text_defs intro: order_trans)
qed

lemma text_on_db:
  assumes "\<And>s. agent_snapshots (snd (m s)) = agent_snapshots s" "\<And>s. users (snd (m s)) = users s"
    and "\<And>s. run_of k s \<noteq> None \<Longrightarrow> run_of k (snd (m s)) \<noteq> None"
  shows "op_preserves (text_inv cfg k u T) (on_db m)" "op_preserves (text_shown cfg k u T) (on_db m)"
  using assms by (auto simp: op_preserves_def text_defs)

lemma text_on_run:
  assumes "\<And>r. rp_state (f r) = rp_state r \<and> rp_run_id (f r) = rp_run_id r \<and> rp_user (f r) = rp_user r"
  shows "op_preserves (text_inv cfg k u T) (on_run f)" "op_preserves (text_shown cfg k u T) (on_run f)"
  using assms by (auto simp: op_preserves_def text_defs)

lemma cap_text_idem [simp]: "0 \<le> n \<Longrightarrow> cap_text n (cap_text n s) = cap_text n s"
  by (auto simp: cap_text_def min_def)

lemma cap_text_take: "0 \<le> n \<Longrightarrow> cap_text n s = take (nat n) s"
  by (auto simp: cap_text_def)

lemma merge_user [simp]: "snap_user (merge_snapshot t ex b) = snap_user t"
  by (simp add: merge_snapshot_def)

text \<open>A stored flush leaves exactly the head of the buffer.\<close>

lemma flush_text:
  assumes "0 \<le> agent_state_result_text_max_chars cfg" and inv: "text_inv cfg k u T (r, s)"
  shows "text_inv cfg k u T (snd (flush_snapshot cfg now c w imm ap (r, s))) \<and>
    (imm \<longrightarrow> text_shown cfg k u T (snd (flush_snapshot cfg now c w imm ap (r, s))))"
proof -
  let ?ex = "relay_snapshot now T r"
  have T: "flushed_text cfg r = T" and k: "rp_run_id r = k" and u: "rp_user r = u"
    using inv by (auto simp: text_inv_def)
  have rel: "snap_result_text ?ex = T" "snap_user ?ex = u"
    "\<not> snap_input_tokens ?ex < 0" "\<not> snap_output_tokens ?ex < 0"
    using inv by (auto simp: relay_snapshot_def Let_def text_inv_def)
  have tok: "0 \<le> rs_input_tokens (rp_state r) \<and> 0 \<le> rs_output_tokens (rp_state r)"
    using inv by (simp add: text_inv_def)
  show ?thesis
  proof (cases rule: snapshot_upsert_cases [of k ?ex ap s])
    case 1
    then have "fst (snapshot_upsert k ?ex ap s) = Inl DbError" by simp
    moreover have "users s (snap_user ?ex) \<noteq> None" "run_of k s \<noteq> None"
      "\<And>t. agent_snapshots s k = Some t \<Longrightarrow> snap_user t = snap_user ?ex"
      using inv rel by (auto simp: text_inv_def)
    ultimately have False using rel(3,4)
      by (simp add: snapshot_upsert_def Let_def del: not_less split: option.splits if_splits)
    then show ?thesis ..
  next
    case (2 res sn)
    have sn: "snap_user sn = u" "snap_result_text sn = T"
    proof -
      have old: "snap_user t = u \<and> prefix (snap_result_text t) T" if "agent_snapshots s k = Some t" for t
        using inv that by (simp add: text_inv_def)
      from 2(3) have "snap_user sn = u \<and> snap_result_text sn = T"
      proof
        assume "\<exists>t. agent_snapshots s k = Some t \<and> snap_user t = snap_user ?ex \<and> sn = merge_snapshot t ?ex ap"
        then obtain t where "agent_snapshots s k = Some t" "sn = merge_snapshot t ?ex ap" by blast
        with old [of t] rel(1) show ?thesis by (simp add: merge_text)
      qed (use rel in simp)
      then show "snap_user sn = u" "snap_result_text sn = T" by simp_all
    qed
    show ?thesis
    proof (cases rule: flush_snapshot_cases [of cfg now c w imm ap r s])
      case skipped
      with inv show ?thesis by simp
    next
      case (failed r')
      with 2(1) T k show ?thesis by simp
    next
      case (stored r' res' ss)
      have "s\<lparr>agent_snapshots := ss\<rparr> = s\<lparr>agent_snapshots := (agent_snapshots s)(k \<mapsto> sn)\<rparr>"
        using stored(4) 2(1) T k by simp
      from arg_cong [OF this, of agent_snapshots] have ss: "ss = (agent_snapshots s)(k \<mapsto> sn)" by simp
      have "flushed_text cfg r' = T" unfolding stored(3) cap_text_idem [OF assms(1)] by (rule T)
      then have r': "rp_run_id r' = k" "rp_user r' = u" "flushed_text cfg r' = T"
        using stored(2) k u by (simp_all add: same_relay_def)
      have "rs_input_tokens (rp_state r') = rs_input_tokens (rp_state r)"
        "rs_output_tokens (rp_state r') = rs_output_tokens (rp_state r)"
        using stored(2) by (simp_all add: same_relay_def)
      with stored(1) sn ss inv tok r' show ?thesis
        by (auto simp: text_defs run_of_def)
    qed
  next
    case (3 res)
    then have False using inv rel by (auto simp: text_inv_def)
    then show ?thesis ..
  qed
qed

lemma flush_text_inv:
  assumes "0 \<le> agent_state_result_text_max_chars cfg"
  shows "op_preserves (text_inv cfg k u T) (flush_snapshot cfg now c w imm ap)"
  using flush_text [OF assms] by (auto simp: op_preserves_def)

text \<open>Calls of the database that keep the snapshots and the users and drop no run.\<close>

definition keeps_rows :: "'a dbop \<Rightarrow> bool" where
  "keeps_rows m \<longleftrightarrow> (\<forall>s k. agent_snapshots (snd (m s)) = agent_snapshots s \<and> users (snd (m s)) = users s \<and>
     (run_of k s \<noteq> None \<longrightarrow> run_of k (snd (m s)) \<noteq> None))"

lemma text_keeps_rows:
  assumes "keeps_rows m"
  shows "op_preserves (text_inv cfg k u T) (on_db m)" "op_preserves (text_shown cfg k u T) (on_db m)"
  using assms by (auto intro!: text_on_db simp: keeps_rows_def)

lemma keeps_rowsI: "(\<And>s. rows_of (snd (m s)) = rows_of s) \<Longrightarrow> keeps_rows m"
  by (auto simp: keeps_rows_def run_of_def)

lemma keeps_rows_bind: "keeps_rows m \<Longrightarrow> (\<And>x. keeps_rows (f x)) \<Longrightarrow> keeps_rows (op_bind m f)"
  unfolding keeps_rows_def op_bind_def by (auto split: prod.splits sum.splits) (metis snd_conv)+

lemma keeps_rows_record_step: "keeps_rows (record_step now k i c)"
  by (auto simp: keeps_rows_def record_step_def split: option.splits)

lemma keeps_rows_mark_paused: "keeps_rows (mark_paused now k x)"
  by (auto simp: keeps_rows_def mark_paused_def update_run_def split: option.splits)

lemma keeps_rows_mark_terminal: "final = ''completed'' \<or> final = ''failed'' \<Longrightarrow> keeps_rows (mark_terminal now k final)"
  by (auto simp: keeps_rows_def mark_terminal_def mark_status_def AGENT_RUN_STATUS_def update_run_def
      split: option.splits)

lemma keeps_rows_bill_step: "keeps_rows (bill_step cfg now u k ev c)"
proof -
  have r: "keeps_rows (op_raise e)" "keeps_rows (op_return x)" "keeps_rows (op_read g)" "keeps_rows (Pair y)" for e x g y
    by (simp_all add: keeps_rows_def)
  have c: "keeps_rows (consume cfg u a key m None)" for a key m
    using consume_frame by (intro keeps_rowsI) simp
  show ?thesis
    unfolding bill_step_def Let_def
    by (cases "usage_to_credits (uc_input (extract_usage_counts ev)) (uc_output (extract_usage_counts ev))
        (credits_per_1k_input cfg) (credits_per_1k_output cfg)")
      (auto intro!: keeps_rows_bind r c keeps_rows_record_step)
qed

lemma keeps_textI [simp]:
  "keeps_text (\<lambda>st. (warn_if_no_delta_text st)\<lparr>rs_pending_approval := x\<rparr>)"
  "keeps_text (warn_usage_anomalies a b c)" "keeps_text (assert_billable_usage ev b n)"
  "keeps_text (\<lambda>st. note_anchor_progress d (raise_anchors v st))"
  "keeps_text (\<lambda>st. (raise_anchors v (warn_if_no_delta_text st))\<lparr>rs_pending_approval := x\<rparr>)"
  "keeps_text (\<lambda>st. st\<lparr>rs_steps := g st, rs_last_tool := h st, rs_pending_approval := x\<rparr>)"
  "keeps_text (\<lambda>st. st\<lparr>rs_pending_approval := x\<rparr>)"
  "keeps_text (\<lambda>st. st\<lparr>rs_delta_events := i st\<rparr>)"
  "keeps_text (\<lambda>st. if P st then warn (q st) (st\<lparr>rs_delta_shape_unknown_logged := True\<rparr>) else st)"
  "keeps_text (\<lambda>st. if P st then warn (q st) (st\<lparr>rs_delta_silent_logged := True\<rparr>) else st)"
  "keeps_text (\<lambda>st. if P st then warn (q st) st else st)"
  by (simp_all add: keeps_text_def)

lemmas text_rules = text_on_state text_keeps_rows keeps_rows_bill_step keeps_rows_mark_paused
  keeps_rows_mark_terminal keeps_rowsI [OF bill_completed_rows]

lemma text_pause_run:
  assumes cap: "0 \<le> agent_state_result_text_max_chars cfg"
  shows "op_preserves (text_inv cfg k u T) (pause_run cfg ck stop)"
  unfolding pause_run_def by (intro op_rules text_rules flush_text_inv [OF cap]) simp_all

lemma text_bill_relay:
  "op_preserves (text_inv cfg k u T) (bill_relay_step cfg ck ev)"
  "op_preserves (text_inv cfg k u T) (bill_relay_completed cfg ev)"
  "op_preserves (text_shown cfg k u T) (bill_relay_completed cfg ev)"
  unfolding bill_relay_step_def bill_relay_completed_def Let_def
  by (intro op_rules text_rules text_on_run; simp)+

text \<open>Every event but a delta keeps the head; a delta extends it.\<close>

lemma text_event:
  assumes cap: "0 \<le> agent_state_result_text_max_chars cfg" and ev: "event_name ev \<noteq> Some EVENT_MESSAGE_DELTA"
  shows "op_preserves (text_inv cfg k u T) (process_event cfg ck stop ev)"
  unfolding process_event_def Let_def on_tool_event_def on_approval_request_def
    on_usage_delta_def on_run_failed_def on_run_completed_def if_not_P [OF ev]
  by (intro op_rules text_rules text_on_run flush_text_inv [OF cap] text_pause_run [OF cap] text_bill_relay) simp_all

lemma cap_text_append:
  "0 \<le> n \<Longrightarrow> prefix (cap_text n x) (cap_text n (x @ y))"
  "0 \<le> n \<Longrightarrow> cap_text n (cap_text n x @ y) = cap_text n (x @ y)"
  by (simp_all add: cap_text_take min_def)

lemma text_grows:
  assumes cap: "0 \<le> agent_state_result_text_max_chars cfg" and inv: "text_inv cfg k u T (r, s)"
    and r': "rp_run_id r' = rp_run_id r" "rp_user r' = rp_user r" "relay_text r' = relay_text r @ piece"
      "rs_input_tokens (rp_state r') = rs_input_tokens (rp_state r)"
      "rs_output_tokens (rp_state r') = rs_output_tokens (rp_state r)"
  shows "text_inv cfg k u (cap_text (agent_state_result_text_max_chars cfg) (T @ piece)) (r', s)"
proof -
  let ?cap = "cap_text (agent_state_result_text_max_chars cfg)"
  have T: "T = ?cap (relay_text r)" using inv by (simp add: text_inv_def)
  have eq: "?cap (T @ piece) = ?cap (relay_text r @ piece)"
    unfolding T by (rule cap_text_append(2) [OF cap])
  have "prefix T (?cap (T @ piece))" unfolding eq unfolding T by (rule cap_text_append(1) [OF cap])
  then show ?thesis
    using inv r' unfolding eq by (auto simp: text_inv_def intro: prefix_order.trans)
qed

lemma text_delta:
  assumes cap: "0 \<le> agent_state_result_text_max_chars cfg" and inv: "text_inv cfg k u T (r, s)"
    and ev: "event_name ev = Some EVENT_MESSAGE_DELTA"
  shows "text_inv cfg k u (cap_text (agent_state_result_text_max_chars cfg) (T @ extract_delta_text ev))
    (snd (process_event cfg ck stop ev (r, s)))"
proof -
  let ?piece = "extract_delta_text ev"
  let ?T = "cap_text (agent_state_result_text_max_chars cfg) (T @ ?piece)"
  let ?r1 = "r\<lparr>rp_state := (rp_state r)\<lparr>rs_delta_events := Suc (rs_delta_events (rp_state r))\<rparr>\<rparr>"
  let ?st2 = "(rp_state ?r1)\<lparr>rs_delta_text_seen := True, rs_partial_text := rs_partial_text (rp_state ?r1) @ [?piece]\<rparr>"
  let ?r2 = "if ?piece = [] then ?r1 else r\<lparr>rp_state := ?st2\<rparr>"
  define rest where "rest = op_bind
      (if ?piece \<noteq> [] then flush_snapshot cfg (ck_now ck) (ck_check ck) (ck_written ck) False False
       else on_state (\<lambda>st. if \<not> rs_delta_shape_unknown_logged st \<and> delta_shape_looks_unknown ev
             then warn CarrierUnknown (st\<lparr>rs_delta_shape_unknown_logged := True\<rparr>) else st))
      (\<lambda>_. op_bind (on_state (\<lambda>st. if \<not> rs_delta_text_seen st \<and> \<not> rs_delta_silent_logged st \<and>
           DELTA_SILENT_WARN_AFTER \<le> rs_delta_events st
        then warn (DeltaSilent (rs_delta_events st)) (st\<lparr>rs_delta_silent_logged := True\<rparr>) else st))
      (\<lambda>_. op_return (None :: dict option)))"
  have run: "process_event cfg ck stop ev (r, s) = rest (?r2, s)"
    using ev by (simp add: process_event_def on_message_delta_def Let_def op_bind_assoc rest_def)
  have "text_inv cfg k u ?T (?r2, s)"
    by (rule text_grows [OF cap inv]) simp_all
  moreover have "op_preserves (text_inv cfg k u ?T) rest"
    unfolding rest_def by (intro op_rules text_rules flush_text_inv [OF cap]) simp_all
  ultimately show ?thesis unfolding run by (rule op_preservesD [rotated])
qed

lemma text_step:
  assumes "0 \<le> agent_state_result_text_max_chars cfg" and "text_inv cfg k u T (r, s)"
  shows "text_inv cfg k u (cap_text (agent_state_result_text_max_chars cfg) (T @ delta_text ev))
    (snd (process_event cfg ck stop ev (r, s)))"
proof (cases "event_name ev = Some EVENT_MESSAGE_DELTA")
  case True
  then show ?thesis using text_delta [OF assms] by (simp add: delta_text_def)
next
  case False
  have "cap_text (agent_state_result_text_max_chars cfg) T = T"
    using assms by (auto simp: text_inv_def)
  with op_preservesD [OF text_event [OF assms(1) False] assms(2)] False show ?thesis
    by (simp add: delta_text_def)
qed

lemma text_relay:
  assumes cap: "0 \<le> agent_state_result_text_max_chars cfg" and "text_inv cfg k u T (r, s)"
    and "relay_events cfg evs (r, s) = (Inr None, (r', t))"
  shows "text_inv cfg k u (cap_text (agent_state_result_text_max_chars cfg)
      (T @ concat (map (\<lambda>(_, _, ev). delta_text ev) evs))) (r', t)"
  using assms(2,3)
proof (induction evs arbitrary: T r s)
  case Nil
  then show ?case using cap by (auto simp: text_inv_def)
next
  case (Cons e evs)
  obtain ck stop ev where e: "e = (ck, stop, ev)" by (metis prod_cases3)
  from Cons.prems(2) obtain p r1 s1 where step: "process_event cfg ck stop ev (r, s) = (Inr p, (r1, s1))"
    and rest: "(case p of Some b \<Rightarrow> op_return (Some b) | None \<Rightarrow> relay_events cfg evs) (r1, s1) = (Inr None, (r', t))"
    unfolding e relay_events.simps op_bind_Inr_iff by (metis prod.collapse)
  then have "relay_events cfg evs (r1, s1) = (Inr None, (r', t))" by (cases p) auto
  moreover have "text_inv cfg k u (cap_text (agent_state_result_text_max_chars cfg) (T @ delta_text ev)) (r1, s1)"
    using text_step [OF cap Cons.prems(1), of ev ck stop] step by simp
  ultimately show ?case using Cons.IH [of _ r1 s1] by (fastforce simp: e cap_text_append(2) [OF cap])
qed

lemma text_terminal:
  assumes cap: "0 \<le> agent_state_result_text_max_chars cfg" and inv: "text_inv cfg k u T (r, s)"
    and ev: "event_name ev = Some EVENT_RUN_COMPLETED \<or> event_name ev = Some EVENT_RUN_FAILED"
  shows "text_shown cfg k u T (snd (process_event cfg ck stop ev (r, s)))"
proof -
  have flushed: "text_shown cfg k u T (snd (op_bind (on_state f) (\<lambda>_. op_bind
      (flush_snapshot cfg now c w True True) (\<lambda>_. rest)) (r, s)))"
    if f: "keeps_text f" and rest: "op_preserves (text_shown cfg k u T) rest"
    for f now c w and rest :: "dict option relay_op"
  proof -
    let ?r1 = "r\<lparr>rp_state := f (rp_state r)\<rparr>"
    have "text_inv cfg k u T (?r1, s)" using op_preservesD [OF text_on_state(1) [OF f] inv] by simp
    from flush_text [OF cap this, of now c w True True]
    have "text_shown cfg k u T (snd (flush_snapshot cfg now c w True True (?r1, s)))" by blast
    moreover obtain r' ss where "flush_snapshot cfg now c w True True (?r1, s) = (Inr (), (r', s\<lparr>agent_snapshots := ss\<rparr>))"
      by (rule flush_snapshot_frame)
    ultimately show ?thesis using op_preservesD [OF rest] by (simp add: op_bind_InrI)
  qed
  have name: "event_name ev \<noteq> Some EVENT_MESSAGE_DELTA" using ev by (auto simp: event_name_defs)
  show ?thesis
  proof (cases "event_name ev = Some EVENT_RUN_COMPLETED")
    case True
    then have "process_event cfg ck stop ev = op_bind (on_run_completed cfg ck ev) (\<lambda>_. op_return None)"
      by (simp add: process_event_def event_name_defs)
    then show ?thesis unfolding on_run_completed_def Let_def op_bind_assoc
      by (simp only:) (rule flushed; (intro op_rules text_rules text_on_run text_bill_relay)?; simp)
  next
    case False
    with ev have "process_event cfg ck stop ev = op_bind (on_run_failed cfg ck) (\<lambda>_. op_return None)"
      by (simp add: process_event_def event_name_defs)
    then show ?thesis unfolding on_run_failed_def op_bind_assoc
      by (simp only:) (rule flushed; (intro op_rules text_rules)?; simp)
  qed
qed

text \<open>
  Claim C12. The stored state shows the head of the streamed text: when a subscription of a run starts
  with no snapshot or an empty one and ends with a terminal event, the stored text is exactly the
  first characters, up to the cap, of the concatenation of all deltas, however the throttled flushes
  fell and whatever the other events were.
\<close>

theorem stored_text_is_the_head_of_the_stream:
  assumes "0 \<le> agent_state_result_text_max_chars cfg"
    and "new_run_processing cfg uid run_id s = (Inr r, s)"
    and "run_of run_id s \<noteq> None" and "users s uid \<noteq> None"
    and "agent_snapshots s run_id = None \<or>
      (\<exists>sn. agent_snapshots s run_id = Some sn \<and> snap_user sn = uid \<and> snap_result_text sn = [])"
    and "relay_events cfg evs (r, s) = (Inr None, (r', s'))"
    and "event_name ev = Some EVENT_RUN_COMPLETED \<or> event_name ev = Some EVENT_RUN_FAILED"
  shows "\<exists>sn. agent_snapshots (snd (snd (process_event cfg ck stop ev (r', s')))) run_id = Some sn \<and>
    snap_user sn = uid \<and>
    snap_result_text sn = take (nat (agent_state_result_text_max_chars cfg))
      (concat (map (\<lambda>(_, _, e). delta_text e) evs))"
proof -
  have "text_inv cfg run_id uid [] (r, s)"
    using assms(1-5)
    by (auto simp: new_run_processing_def text_inv_def new_relay_state_def op_bind_def cap_text_def split: if_splits)
  from text_relay [OF assms(1) this assms(6)]
  have "text_inv cfg run_id uid (cap_text (agent_state_result_text_max_chars cfg)
      (concat (map (\<lambda>(_, _, ev). delta_text ev) evs))) (r', s')" by simp
  from text_terminal [OF assms(1) this assms(7), of ck stop] assms(1) show ?thesis
    by (auto simp: text_defs cap_text_take)
qed


lemma quiet_event_returns:
  assumes "event_name ev = Some EVENT_MESSAGE_DELTA \<or> event_name ev = Some EVENT_RUN_FAILED"
  shows "\<exists>r' s'. process_event cfg ck stop ev (r, s) = (Inr None, (r', s'))"
proof -
  have fl: "\<exists>r' ss. flush_snapshot cfg now c w imm ap (r, s) = (Inr (), (r', s\<lparr>agent_snapshots := ss\<rparr>))" for now c w imm ap r
    by (metis flush_snapshot_frame)
  show ?thesis
  proof (cases "event_name ev = Some EVENT_MESSAGE_DELTA")
    case True
    then have pe: "process_event cfg ck stop ev = op_bind (on_message_delta cfg ck ev) (\<lambda>_. op_return None)"
      by (simp add: process_event_def)
    show ?thesis
    proof (cases "extract_delta_text ev = []")
      case True
      then show ?thesis by (simp add: pe on_message_delta_def Let_def op_bind_assoc)
    next
      case False
      let ?st = "(rp_state r)\<lparr>rs_delta_events := Suc (rs_delta_events (rp_state r)), rs_delta_text_seen := True,
        rs_partial_text := rs_partial_text (rp_state r) @ [extract_delta_text ev]\<rparr>"
      obtain r' ss where f: "flush_snapshot cfg (ck_now ck) (ck_check ck) (ck_written ck) False False (r\<lparr>rp_state := ?st\<rparr>, s) =
        (Inr (), (r', s\<lparr>agent_snapshots := ss\<rparr>))" using fl by blast
      from False show ?thesis
        by (simp add: pe on_message_delta_def Let_def op_bind_assoc op_bind_InrI [of "flush_snapshot cfg (ck_now ck) (ck_check ck) (ck_written ck) False False", OF f])
    qed
  next
    case False
    with assms have name: "event_name ev = Some EVENT_RUN_FAILED" by simp
    let ?r1 = "r\<lparr>rp_state := (warn_if_no_delta_text (rp_state r))\<lparr>rs_pending_approval := None\<rparr>\<rparr>"
    obtain r' ss where f: "flush_snapshot cfg (ck_now ck) (ck_check ck) (ck_written ck) True True (?r1, s) =
        (Inr (), (r', s\<lparr>agent_snapshots := ss\<rparr>))" using fl by blast
    let ?m = "mark_terminal (ck_now ck) (rp_run_id r') ''failed'' (s\<lparr>agent_snapshots := ss\<rparr>)"
    have "fst ?m = Inr ()" using mark_terminal_effect(1) [of "''failed''"] by (metis fst_conv)
    then have "process_event cfg ck stop ev (r, s) = (Inr None, (r', snd ?m))"
      using name f
      by (simp add: process_event_def event_name_defs on_run_failed_def op_bind_assoc op_bind_InrI)
    then show ?thesis by blast
  qed
qed

lemma new_run_processing_returns: "\<exists>r. new_run_processing cfg u k s = (Inr r, s)"
  by (cases "agent_incremental_billing_enabled cfg") (simp_all add: new_run_processing_def op_bind_def)

definition demo_delta :: sse_event where
  "demo_delta = \<lparr>se_name = Some ''message.delta'', se_data = [(''text'', JStr ''Hello'')]\<rparr>"

definition demo_failed :: sse_event where
  "demo_failed = \<lparr>se_name = Some ''run.failed'', se_data = []\<rparr>"

definition demo_clock :: event_clock where
  "demo_clock = \<lparr>ck_now = 5, ck_check = 1, ck_written = 1, ck_paused = 1\<rparr>"

definition demo_live :: db where
  "demo_live = demo_runs\<lparr>agent_runs := [(''r1'', demo_run)]\<rparr>"

lemma demo_delta_text: "delta_text demo_delta = ''Hello''"
  by (simp add: delta_text_def demo_delta_def event_name_def event_name_defs extract_delta_text_def
      DELTA_TEXT_KEYS_def as_event_text_def)

theorem stored_text_is_the_head_of_the_stream_witness:
  "\<exists>r s' r'. new_run_processing demo_cfg 1 ''r1'' demo_live = (Inr r, demo_live) \<and>
     relay_events demo_cfg [(demo_clock, Inr [], demo_delta)] (r, demo_live) = (Inr None, (r', s')) \<and>
     (\<exists>sn. agent_snapshots (snd (snd (process_event demo_cfg demo_clock (Inr []) demo_failed (r', s')))) ''r1'' = Some sn \<and>
       snap_result_text sn = ''Hello'')"
proof -
  obtain r where r: "new_run_processing demo_cfg 1 ''r1'' demo_live = (Inr r, demo_live)"
    using new_run_processing_returns by blast
  have names: "event_name demo_delta = Some EVENT_MESSAGE_DELTA" "event_name demo_failed = Some EVENT_RUN_FAILED"
    by (simp_all add: demo_delta_def demo_failed_def event_name_def event_name_defs)
  obtain r' s' where "process_event demo_cfg demo_clock (Inr []) demo_delta (r, demo_live) = (Inr None, (r', s'))"
    using quiet_event_returns [of demo_delta] names by blast
  then have e: "relay_events demo_cfg [(demo_clock, Inr [], demo_delta)] (r, demo_live) = (Inr None, (r', s'))"
    by (simp add: op_bind_InrI)
  have db: "run_of ''r1'' demo_live \<noteq> None" "users demo_live 1 \<noteq> None" "agent_snapshots demo_live ''r1'' = None"
    "0 \<le> agent_state_result_text_max_chars demo_cfg"
    by (simp_all add: demo_live_def demo_runs_def run_of_def empty_db_def demo_cfg_def)
  obtain sn where "agent_snapshots (snd (snd (process_event demo_cfg demo_clock (Inr []) demo_failed (r', s')))) ''r1'' = Some sn"
    "snap_result_text sn = take (nat (agent_state_result_text_max_chars demo_cfg)) ''Hello''"
    using stored_text_is_the_head_of_the_stream [OF db(4) r db(1,2) disjI1 [OF db(3)] e disjI2 [OF names(2)], of demo_clock "Inr []"]
    by (auto simp: demo_delta_text)
  moreover have "take (nat (agent_state_result_text_max_chars demo_cfg)) ''Hello'' = ''Hello''"
    by (simp add: demo_cfg_def)
  ultimately show ?thesis using r e by fastforce
qed

theorem terminal_event_settles_the_run_witness:
  "event_name demo_failed = Some EVENT_RUN_FAILED \<and>
   map_option run_status (run_of ''r1'' (snd (snd (process_event demo_cfg demo_clock (Inr []) demo_failed
     (\<lparr>rp_user = 1, rp_run_id = ''r1'', rp_incremental = True, rp_charged = 0, rp_billed = False,
       rp_state = new_relay_state\<rparr>, demo_live))))) = Some ''failed''"
proof -
  have name: "event_name demo_failed = Some EVENT_RUN_FAILED"
    by (simp add: demo_failed_def event_name_def event_name_defs)
  have f: "''failed'' = (if event_name demo_failed = Some EVENT_RUN_COMPLETED then ''completed'' else ''failed'')"
    by (simp add: name event_name_defs)
  have "run_of ''r1'' demo_live = Some demo_run" "active_status (run_status demo_run)"
    by (simp_all add: demo_live_def run_of_def demo_run_def active_status_def)
  with terminal_event_settles_the_run [OF disjI2 [OF name] f, of "\<lparr>rp_user = 1, rp_run_id = ''r1'', rp_incremental = True,
      rp_charged = 0, rp_billed = False, rp_state = new_relay_state\<rparr>" demo_cfg demo_clock "Inr []" demo_live] name
  show ?thesis by simp
qed

end
