(* ===== verification/AgentPauseClaims.thy ===== *)
theory AgentPauseClaims
  imports AgentProcessClaims
begin

text \<open>
  The pause at zero: during a run under incremental billing the charge the relay carries agrees with
  the ledger, and a depleted balance ends the run without debt.
\<close>

subsection \<open>Pause at zero\<close>

text \<open>The processing object of an unfinished run agrees with the ledger, and no debt arises.\<close>

definition charge_inv :: "uuid \<Rightarrow> string \<Rightarrow> int \<Rightarrow> run_processing \<times> db \<Rightarrow> bool" where
  "charge_inv u k d p \<longleftrightarrow>
     rp_user (fst p) = u \<and> rp_run_id (fst p) = k \<and> rp_incremental (fst p) \<and>
     rp_charged (fst p) = charged_for_run u k (snd p) \<and>
     0 \<le> current_balance u (snd p) \<and> current_debt u (snd p) = d"

lemma charge_on_state: "op_preserves (charge_inv u k d) (on_state f)"
  by (auto simp: op_preserves_def charge_inv_def)

lemma money_frame:
  assumes "ledger t = ledger s" "wallets t = wallets s"
  shows "charged_for_run u k t = charged_for_run u k s" "current_balance u t = current_balance u s"
    "current_debt u t = current_debt u s"
  using assms by (simp_all add: charged_for_run_def current_balance_def current_debt_def)

lemma charge_on_db:
  assumes "\<And>s. ledger (snd (m s)) = ledger s \<and> wallets (snd (m s)) = wallets s"
  shows "op_preserves (charge_inv u k d) (on_db m)"
  using assms money_frame [of "snd (m _)" _] by (auto simp: op_preserves_def charge_inv_def)

lemma charge_flush: "op_preserves (charge_inv u k d) (flush_snapshot cfg now c w imm ap)"
proof (rule op_preservesI)
  fix p
  assume inv: "charge_inv u k d p"
  obtain r s where p: "p = (r, s)" by (cases p)
  obtain r' ss where f: "flush_snapshot cfg now c w imm ap (r, s) = (Inr (), (r', s\<lparr>agent_snapshots := ss\<rparr>))"
    and same: "same_relay r r'" by (rule flush_snapshot_frame)
  have "charged_for_run u k (s\<lparr>agent_snapshots := ss\<rparr>) = charged_for_run u k s"
    "current_balance u (s\<lparr>agent_snapshots := ss\<rparr>) = current_balance u s"
    "current_debt u (s\<lparr>agent_snapshots := ss\<rparr>) = current_debt u s" by (rule money_frame; simp)+
  with inv f same show "charge_inv u k d (snd (flush_snapshot cfg now c w imm ap p))"
    by (simp add: p charge_inv_def same_relay_def)
qed

lemma update_run_money: "ledger (snd (update_run k c f s)) = ledger s \<and> wallets (snd (update_run k c f s)) = wallets s"
  by (auto simp: update_run_def split: option.splits)

lemma lifecycle_money:
  "ledger (snd (mark_paused now k x s)) = ledger s \<and> wallets (snd (mark_paused now k x s)) = wallets s"
  "ledger (snd (mark_terminal now k x s)) = ledger s \<and> wallets (snd (mark_terminal now k x s)) = wallets s"
proof -
  show "ledger (snd (mark_paused now k x s)) = ledger s \<and> wallets (snd (mark_paused now k x s)) = wallets s"
    unfolding mark_paused_def by (rule update_run_money)
  obtain out s' where e: "mark_status now k x s = (out, s')" by fastforce
  have "ledger s' = ledger s" "wallets s' = wallets s" using mark_status_frame [of now k x s] e by simp_all
  then show "ledger (snd (mark_terminal now k x s)) = ledger s \<and> wallets (snd (mark_terminal now k x s)) = wallets s"
    by (auto simp: mark_terminal_def e split: sum.splits exn.splits)
qed

lemma charge_quiet_event:
  assumes "event_name ev \<noteq> Some EVENT_USAGE_DELTA" "event_name ev \<noteq> Some EVENT_RUN_COMPLETED"
  shows "op_preserves (charge_inv u k d) (process_event cfg ck stop ev)"
  unfolding process_event_def Let_def on_message_delta_def on_tool_event_def on_approval_request_def
    on_run_failed_def if_not_P [OF assms(1)] if_not_P [OF assms(2)]
  by (intro op_rules charge_on_state charge_on_db charge_flush lifecycle_money)

text \<open>A usage event up to the debit, and the pause.\<close>

lemma usage_delta_split:
  obtains r' ss where "on_usage_delta cfg ck stop ev (r, s) =
      (if rp_incremental r then op_bind (bill_relay_step cfg ck ev) (\<lambda>depleted.
         if depleted then op_bind (pause_run cfg ck stop) (\<lambda>p. op_return (Some p)) else op_return None)
       else op_return None) (r', s\<lparr>agent_snapshots := ss\<rparr>)"
    "rp_user r' = rp_user r" "rp_run_id r' = rp_run_id r" "rp_incremental r' = rp_incremental r"
    "rp_charged r' = rp_charged r" "rp_billed r' = rp_billed r"
proof -
  let ?u = "extract_usage_counts ev"
  let ?st = "warn_usage_anomalies EVENT_USAGE_DELTA ?u (Some ev) (rp_state r)"
  let ?adv = "(rs_input_tokens (raise_anchors ?u ?st), rs_output_tokens (raise_anchors ?u ?st)) \<noteq>
      (rs_input_tokens ?st, rs_output_tokens ?st)"
  let ?r1 = "r\<lparr>rp_state := note_anchor_progress ?adv (raise_anchors ?u ?st)\<rparr>"
  let ?tail = "if rp_incremental r then op_bind (bill_relay_step cfg ck ev) (\<lambda>depleted.
         if depleted then op_bind (pause_run cfg ck stop) (\<lambda>p. op_return (Some p)) else op_return None)
       else op_return None"
  have run: "on_usage_delta cfg ck stop ev (r, s) = op_bind
      (if ?adv then flush_snapshot cfg (ck_now ck) (ck_check ck) (ck_written ck) True False else op_return ())
      (\<lambda>_. ?tail) (?r1, s)"
    by (simp only: on_usage_delta_def Let_def bind_on_state bind_the_run) simp
  have s: "s = s\<lparr>agent_snapshots := agent_snapshots s\<rparr>" by simp
  show thesis
  proof (cases ?adv)
    case True
    obtain r' ss where "flush_snapshot cfg (ck_now ck) (ck_check ck) (ck_written ck) True False (?r1, s) =
        (Inr (), (r', s\<lparr>agent_snapshots := ss\<rparr>))" "same_relay ?r1 r'" by (rule flush_snapshot_frame)
    then show thesis using that [of r' ss] True
      unfolding run by (simp add: op_bind_InrI same_relay_def)
  next
    case False
    then show thesis using that [of ?r1 "agent_snapshots s"] unfolding run by simp
  qed
qed

lemma pause_run_effect:
  assumes "pause_run cfg ck stop (r, s) = (Inr b, (r', t))"
  shows "rp_charged r' = rp_charged r \<and> rp_user r' = rp_user r \<and> rp_run_id r' = rp_run_id r \<and>
    rp_incremental r' = rp_incremental r \<and> b = paused_payload r' \<and> ledger t = ledger s \<and> wallets t = wallets s \<and>
    (\<forall>row. run_of (rp_run_id r) t = Some row \<longrightarrow> \<not> active_status (run_status row))"
proof -
  let ?r1 = "r\<lparr>rp_state := (warn_if_no_delta_text (rp_state r))\<lparr>rs_pending_approval := None\<rparr>\<rparr>"
  obtain x where stop: "stop = Inr x" using assms by (cases stop) (auto simp: pause_run_def)
  obtain r2 ss where f: "flush_snapshot cfg (ck_now ck) (ck_check ck) (ck_paused ck) True True (?r1, s) =
      (Inr (), (r2, s\<lparr>agent_snapshots := ss\<rparr>))" and same: "same_relay ?r1 r2" by (rule flush_snapshot_frame)
  let ?s2 = "s\<lparr>agent_snapshots := ss\<rparr>"
  let ?m = "mark_paused (ck_now ck) (rp_run_id r2) REASON_CREDITS_EXHAUSTED ?s2"
  have ok: "\<exists>n. fst ?m = Inr n" by (auto simp: mark_paused_def update_run_def split: option.splits)
  have "pause_run cfg ck stop (r, s) =
      op_bind (on_db (mark_paused (ck_now ck) (rp_run_id r2) REASON_CREDITS_EXHAUSTED)) (\<lambda>_. op_return (paused_payload r2)) (r2, ?s2)"
    by (simp add: pause_run_def stop op_bind_InrI [of "flush_snapshot cfg (ck_now ck) (ck_check ck) (ck_paused ck) True True", OF f])
  with ok assms have r: "r' = r2" "t = snd ?m" "b = paused_payload r2"
    by (auto simp: op_bind_def)
  have "\<not> active_status (run_status row)" if "run_of (rp_run_id r2) (snd ?m) = Some row" for row
    using that by (auto simp: mark_paused_def update_run_def active_status_def split: option.splits if_splits)
  moreover have "ledger (snd ?m) = ledger s" "wallets (snd ?m) = wallets s"
    using lifecycle_money(1) [of "ck_now ck" "rp_run_id r2" REASON_CREDITS_EXHAUSTED ?s2] by simp_all
  ultimately show ?thesis using same r by (simp add: same_relay_def)
qed

definition paused_at_zero :: "uuid \<Rightarrow> string \<Rightarrow> dict \<Rightarrow> db \<Rightarrow> bool" where
  "paused_at_zero u k b t \<longleftrightarrow>
     current_balance u t = 0 \<and> dict_get b ''billed'' = JInt (charged_for_run u k t) \<and>
     (\<forall>row. run_of k t = Some row \<longrightarrow> \<not> active_status (run_status row))"

lemma charge_usage_event:
  assumes inv: "charge_inv u k d (r, s)" and run: "on_usage_delta cfg ck stop ev (r, s) = (Inr p, (r', t))"
  shows "charge_inv u k d (r', t) \<and> (\<forall>b. p = Some b \<longrightarrow> paused_at_zero u k b t)"
proof -
  obtain r1 ss where
    split: "on_usage_delta cfg ck stop ev (r, s) =
      (if rp_incremental r then op_bind (bill_relay_step cfg ck ev) (\<lambda>depleted.
         if depleted then op_bind (pause_run cfg ck stop) (\<lambda>p. op_return (Some p)) else op_return None)
       else op_return None) (r1, s\<lparr>agent_snapshots := ss\<rparr>)"
    and r1: "rp_user r1 = rp_user r" "rp_run_id r1 = rp_run_id r" "rp_incremental r1 = rp_incremental r"
      "rp_charged r1 = rp_charged r" "rp_billed r1 = rp_billed r" by (rule usage_delta_split)
  let ?s1 = "s\<lparr>agent_snapshots := ss\<rparr>"
  have m1: "charged_for_run u k ?s1 = charged_for_run u k s" "current_balance u ?s1 = current_balance u s"
    "current_debt u ?s1 = current_debt u s" by (rule money_frame; simp)+
  from inv have r: "rp_user r = u" "rp_run_id r = k" "rp_incremental r" "rp_charged r = charged_for_run u k s"
    "0 \<le> current_balance u s" "current_debt u s = d" by (simp_all add: charge_inv_def)
  obtain c dep s2 where b: "bill_step cfg (ck_now ck) u k ev (rp_charged r) ?s1 = (Inr (c, dep), s2)"
    and tail: "(if dep then op_bind (pause_run cfg ck stop) (\<lambda>p. op_return (Some p)) else op_return None)
      (r1\<lparr>rp_charged := c\<rparr>, s2) = (Inr p, (r', t))"
    using run r r1 unfolding split
    by (cases "bill_step cfg (ck_now ck) u k ev (rp_charged r) ?s1", cases "fst (bill_step cfg (ck_now ck) u k ev (rp_charged r) ?s1)")
      (auto simp: bill_relay_step_def op_bind_def split: if_splits)
  show ?thesis
  proof (rule bill_step_cases [OF b])
    fix owed
    assume h: "c - rp_charged r = charged_for_run u k s2 - charged_for_run u k ?s1"
      "current_balance u s2 = current_balance u ?s1 - (c - rp_charged r)"
      "current_debt u s2 = current_debt u ?s1" "0 \<le> current_balance u ?s1 \<Longrightarrow> 0 \<le> current_balance u s2"
      "dep \<Longrightarrow> 0 \<le> current_balance u ?s1 \<Longrightarrow> current_balance u s2 = 0"
    have c: "c = charged_for_run u k s2" "0 \<le> current_balance u s2" "current_debt u s2 = d"
      using h r m1 by simp_all
    show ?thesis
    proof (cases dep)
      case False
      with tail c r r1 show ?thesis by (auto simp: charge_inv_def)
    next
      case True
      with tail obtain b where pr: "pause_run cfg ck stop (r1\<lparr>rp_charged := c\<rparr>, s2) = (Inr b, (r', t))" and p: "p = Some b"
        by (auto simp: op_bind_Inr_iff)
      note e = pause_run_effect [OF pr]
      have m2: "charged_for_run u k t = charged_for_run u k s2" "current_balance u t = current_balance u s2"
        "current_debt u t = current_debt u s2" using e by (intro money_frame; simp)+
      have "current_balance u t = 0" using h(5) True r(5) m1 m2 by simp
      with e m2 c r r1 p show ?thesis
        by (auto simp: charge_inv_def paused_at_zero_def paused_payload_def Let_def)
    qed
  qed
qed

lemma charge_relay:
  assumes "charge_inv u k d (r, s)" and "relay_events cfg evs (r, s) = (Inr p, (r', t))"
    and "\<forall>(_, _, ev) \<in> set evs. event_name ev \<noteq> Some EVENT_RUN_COMPLETED"
  shows "charge_inv u k d (r', t) \<and> (\<forall>b. p = Some b \<longrightarrow> paused_at_zero u k b t)"
  using assms
proof (induction evs arbitrary: r s)
  case (Cons e evs)
  obtain ck stop ev where e: "e = (ck, stop, ev)" by (metis prod_cases3)
  from Cons.prems(2) obtain q r1 s1 where step: "process_event cfg ck stop ev (r, s) = (Inr q, (r1, s1))"
    and rest: "(case q of Some b \<Rightarrow> op_return (Some b) | None \<Rightarrow> relay_events cfg evs) (r1, s1) = (Inr p, (r', t))"
    unfolding e relay_events.simps op_bind_Inr_iff by (metis prod.collapse)
  have name: "event_name ev \<noteq> Some EVENT_RUN_COMPLETED" using Cons.prems(3) e by auto
  have one: "charge_inv u k d (r1, s1) \<and> (\<forall>b. q = Some b \<longrightarrow> paused_at_zero u k b s1)"
  proof (cases "event_name ev = Some EVENT_USAGE_DELTA")
    case True
    then have "process_event cfg ck stop ev = on_usage_delta cfg ck stop ev"
      by (simp add: process_event_def event_name_defs)
    with charge_usage_event [OF Cons.prems(1)] step show ?thesis by simp
  next
    case False
    have "q = None" using step False name
      by (auto simp: process_event_def Let_def op_bind_Inr_iff split: if_splits)
    with op_preservesD [OF charge_quiet_event [OF False name] Cons.prems(1), of cfg ck stop] step show ?thesis by simp
  qed
  show ?case
  proof (cases q)
    case None
    with rest Cons.IH one Cons.prems(3) show ?thesis by simp
  next
    case (Some b)
    with rest one show ?thesis by auto
  qed
qed simp

text \<open>
  Claim C11. A depleted balance pauses the run without debt: when the processing of a run under
  incremental billing, with no run.completed among its events, ends with the synthetic pause, the balance is exactly zero, no debt was added,
  the amount reported to the client is what the ledger charged for the run, and the run is no longer
  active.
\<close>

theorem depleted_run_pauses_without_debt:
  assumes "agent_incremental_billing_enabled cfg" and "new_run_processing cfg uid run_id s = (Inr r, s)"
    and "0 \<le> current_balance uid s"
    and "\<forall>(_, _, ev) \<in> set evs. event_name ev \<noteq> Some EVENT_RUN_COMPLETED"
    and "relay_events cfg evs (r, s) = (Inr (Some b), (r', t))"
  shows "current_balance uid t = 0 \<and> current_debt uid t = current_debt uid s \<and>
    dict_get b ''billed'' = JInt (charged_for_run uid run_id t) \<and>
    (\<forall>row. run_of run_id t = Some row \<longrightarrow> \<not> active_status (run_status row))"
proof -
  have "charge_inv uid run_id (current_debt uid s) (r, s)"
    using assms(1-3) by (auto simp: new_run_processing_def op_bind_def charge_inv_def)
  from charge_relay [OF this assms(5,4)] show ?thesis by (simp add: charge_inv_def paused_at_zero_def)
qed

lemma pause_run_returns: "\<exists>b r' t. pause_run cfg ck (Inr x) (r, s) = (Inr b, (r', t))"
proof -
  let ?r1 = "r\<lparr>rp_state := (warn_if_no_delta_text (rp_state r))\<lparr>rs_pending_approval := None\<rparr>\<rparr>"
  obtain r2 ss where f: "flush_snapshot cfg (ck_now ck) (ck_check ck) (ck_paused ck) True True (?r1, s) =
      (Inr (), (r2, s\<lparr>agent_snapshots := ss\<rparr>))" by (rule flush_snapshot_frame)
  have "\<exists>n. fst (mark_paused (ck_now ck) (rp_run_id r2) REASON_CREDITS_EXHAUSTED (s\<lparr>agent_snapshots := ss\<rparr>)) = Inr n"
    by (auto simp: mark_paused_def update_run_def split: option.splits)
  then show ?thesis
    by (simp add: pause_run_def op_bind_InrI [of "flush_snapshot cfg (ck_now ck) (ck_check ck) (ck_paused ck) True True", OF f])
      (auto simp: op_bind_def)
qed

theorem depleted_run_pauses_without_debt_witness:
  "\<exists>r b r' t. new_run_processing demo_cfg 1 ''r1'' demo_live = (Inr r, demo_live) \<and>
     relay_events demo_cfg [(demo_clock, Inr [], usage_event 3000 1000 1)] (r, demo_live) = (Inr (Some b), (r', t)) \<and>
     current_balance 1 t = 0 \<and> dict_get b ''billed'' = JInt (charged_for_run 1 ''r1'' t)"
proof -
  let ?ev = "usage_event 3000 1000 1"
  have inc: "agent_incremental_billing_enabled demo_cfg" by (simp add: demo_cfg_def)
  have c0: "charged_for_run 1 ''r1'' demo_live = 0" "current_balance 1 demo_live = 0"
    by (simp_all add: charged_for_run_eq demo_live_def demo_runs_def empty_db_def current_balance_def)
  obtain r where r: "new_run_processing demo_cfg 1 ''r1'' demo_live = (Inr r, demo_live)"
    using new_run_processing_returns by blast
  then have rp: "rp_user r = 1" "rp_run_id r = ''r1''" "rp_incremental r" "rp_charged r = 0"
    using inc c0 by (auto simp: new_run_processing_def op_bind_def)
  have name: "event_name ?ev = Some EVENT_USAGE_DELTA"
    by (simp add: usage_event_def event_name_def event_name_defs)
  obtain r1 ss where
    split: "on_usage_delta demo_cfg demo_clock (Inr []) ?ev (r, demo_live) =
      (if rp_incremental r then op_bind (bill_relay_step demo_cfg demo_clock ?ev) (\<lambda>depleted.
         if depleted then op_bind (pause_run demo_cfg demo_clock (Inr [])) (\<lambda>p. op_return (Some p)) else op_return None)
       else op_return None) (r1, demo_live\<lparr>agent_snapshots := ss\<rparr>)"
    and r1: "rp_user r1 = rp_user r" "rp_run_id r1 = rp_run_id r" "rp_charged r1 = rp_charged r"
    by (rule usage_delta_split)
  let ?s1 = "demo_live\<lparr>agent_snapshots := ss\<rparr>"
  have "current_balance 1 ?s1 = 0" using c0(2) money_frame(2) [of ?s1 demo_live] by simp
  then have "bill_step demo_cfg now 1 ''r1'' ?ev 0 ?s1 = (Inr (0, True), ?s1)" for now
    using demo_step_price(1) [of 1] by (simp add: bill_step_def Let_def op_bind_read)
  then have "on_usage_delta demo_cfg demo_clock (Inr []) ?ev (r, demo_live) =
      op_bind (pause_run demo_cfg demo_clock (Inr [])) (\<lambda>p. op_return (Some p)) (r1\<lparr>rp_charged := 0\<rparr>, ?s1)"
    unfolding split using rp r1 by (simp add: bill_relay_step_def op_bind_assoc op_bind_InrI)
  with pause_run_returns [of demo_cfg demo_clock "[]" "r1\<lparr>rp_charged := 0\<rparr>" ?s1]
  obtain b r' t where "on_usage_delta demo_cfg demo_clock (Inr []) ?ev (r, demo_live) = (Inr (Some b), (r', t))"
    by (auto simp: op_bind_InrI)
  then have e: "relay_events demo_cfg [(demo_clock, Inr [], ?ev)] (r, demo_live) = (Inr (Some b), (r', t))"
    using name by (simp add: process_event_def event_name_defs op_bind_InrI)
  have "current_balance 1 t = 0 \<and> dict_get b ''billed'' = JInt (charged_for_run 1 ''r1'' t)"
    using depleted_run_pauses_without_debt [OF inc r _ _ e] c0(2) name by (simp add: event_name_defs)
  with r e show ?thesis by blast
qed

end
