(* ===== verification/AgentService.thy ===== *)
theory AgentService
  imports AgentProcess Policy
begin

text \<open>
  The request handlers of the agent proxy (\<^verbatim>\<open>src/app/agent_proxy/service.py\<close>): launch,
  resume, stop, approval and the state view, with the HTTP calls to the user's instance below them.

  What the instance answers is the argument \<open>hermes_world\<close>: the outcome of \<open>ensure_running\<close>
  (the instance registry is a component of its own), the answer of each HTTP attempt as a function of
  the URL and the body sent, and the clock readings around it. Metrics and log lines are not modelled;
  the background consumer a launch starts cannot fail the launch and is not part of the answer.
\<close>

subsection \<open>Calls to the instance\<close>

datatype transport_kind = ConnectError | ConnectTimeout | PoolTimeout | OtherTimeout | OtherTransport

datatype http_result = BudgetTimeout | TransportFailure transport_kind | Response int "json option"

record attempt =
  at_start :: rat
  at_failed :: rat
  at_result :: http_result

record instance_endpoint =
  base_url :: string
  api_key :: string

record hermes_world =
  hw_ensure :: "exn + instance_endpoint"
  hw_clock :: rat
  hw_post :: "string \<Rightarrow> json \<Rightarrow> nat \<Rightarrow> attempt"
  hw_get :: "string \<Rightarrow> attempt"

definition MIN_ATTEMPT_SECONDS :: rat where "MIN_ATTEMPT_SECONDS = 1"

definition budget_deadline :: "settings \<Rightarrow> rat \<Rightarrow> rat" where
  "budget_deadline cfg clock = clock + hermes_launch_budget_seconds cfg"

definition budget_error :: exn where
  "budget_error = App (error UpstreamTimeoutError ''hermes instance did not answer within the request budget'')"

definition remaining :: "rat \<Rightarrow> rat \<Rightarrow> exn + rat" where
  "remaining deadline clock =
     (let left = deadline - clock in if left < MIN_ATTEMPT_SECONDS then Inl budget_error else Inr left)"

record http_timeout =
  to_connect :: rat
  to_read :: rat
  to_write :: rat
  to_pool :: rat

definition attempt_timeout :: "settings \<Rightarrow> rat \<Rightarrow> http_timeout" where
  "attempt_timeout cfg left =
     (let connect = min (hermes_connect_timeout_seconds cfg) left;
          read_write = min (hermes_proxy_timeout_seconds cfg) left
      in \<lparr>to_connect = connect, to_read = read_write, to_write = read_write, to_pool = connect\<rparr>)"

definition is_timeout :: "transport_kind \<Rightarrow> bool" where
  "is_timeout k \<longleftrightarrow> k \<in> {ConnectTimeout, PoolTimeout, OtherTimeout}"

definition transport_error :: "transport_kind \<Rightarrow> exn" where
  "transport_error k =
     (if is_timeout k then budget_error else App (error UpstreamError ''hermes instance unreachable''))"

definition connect_phase :: "transport_kind \<Rightarrow> bool" where
  "connect_phase k \<longleftrightarrow> k \<in> {ConnectError, ConnectTimeout, PoolTimeout}"

text \<open>
  The retry cycle of \<open>_launch_run\<close>, from attempt number \<open>i\<close> with the given number of
  attempts left. The second component lists the attempts that were made.
\<close>

fun launch_attempts ::
  "rat \<Rightarrow> rat \<Rightarrow> (nat \<Rightarrow> attempt) \<Rightarrow> nat \<Rightarrow> nat \<Rightarrow> (exn + int \<times> json option) \<times> nat list" where
  "launch_attempts deadline backoff w i 0 =
     (Inl (App (error UpstreamError ''hermes instance unreachable'')), [])"
| "launch_attempts deadline backoff w i (Suc n) =
     (case remaining deadline (at_start (w i)) of
        Inl e \<Rightarrow> (Inl e, [])
      | Inr left \<Rightarrow>
          (case at_result (w i) of
             Response status body \<Rightarrow> (Inr (status, body), [i])
           | BudgetTimeout \<Rightarrow> (Inl budget_error, [i])
           | TransportFailure k \<Rightarrow>
               if connect_phase k \<and> 0 < n \<and>
                  MIN_ATTEMPT_SECONDS \<le> deadline - at_failed (w i) - backoff
               then (case launch_attempts deadline backoff w (Suc i) n of (out, made) \<Rightarrow> (out, i # made))
               else (Inl (transport_error k), [i])))"

definition launch_outcome :: "int \<times> json option \<Rightarrow> exn + string \<times> string" where
  "launch_outcome response =
     (case response of (status, body) \<Rightarrow>
        if \<not> (200 \<le> status \<and> status < 300)
        then Inl (App (error UpstreamError ''hermes run launch failed''))
        else (case body of
                None \<Rightarrow> Inl (App (error UpstreamError ''hermes run launch returned invalid body''))
              | Some (JObj d) \<Rightarrow>
                  (case dict_get d ''run_id'' of
                     JStr run_id \<Rightarrow>
                       if run_id = [] then Inl (App (error UpstreamError ''hermes run launch returned no run_id''))
                       else Inr (run_id,
                              if dict_get d ''status'' \<in> {JStr ''queued'', JStr ''running''}
                              then (case dict_get d ''status'' of JStr st \<Rightarrow> st | _ \<Rightarrow> ''queued'')
                              else ''queued'')
                   | _ \<Rightarrow> Inl (App (error UpstreamError ''hermes run launch returned no run_id'')))
              | Some _ \<Rightarrow> Inl (PyError ''AttributeError'')))"

definition launch_run ::
  "settings \<Rightarrow> hermes_world \<Rightarrow> instance_endpoint \<Rightarrow> dict \<Rightarrow> rat \<Rightarrow> exn + string \<times> string" where
  "launch_run cfg w endpoint body deadline =
     (case fst (launch_attempts deadline (hermes_launch_retry_backoff_seconds cfg)
                  (hw_post w (base_url endpoint @ ''/v1/runs'') (JObj body)) 1
                  (nat (max (hermes_launch_retry_attempts cfg) 1))) of
        Inl e \<Rightarrow> Inl e
      | Inr response \<Rightarrow> launch_outcome response)"

text \<open>\<open>_passthrough_post\<close>: one attempt under the budget of the whole request.\<close>

definition passthrough_post :: "settings \<Rightarrow> hermes_world \<Rightarrow> string \<Rightarrow> json \<Rightarrow> exn + dict" where
  "passthrough_post cfg w path body =
     (case hw_ensure w of
        Inl e \<Rightarrow> Inl e
      | Inr endpoint \<Rightarrow>
          (let a = hw_post w (base_url endpoint @ path) body 1 in
           case remaining (budget_deadline cfg (hw_clock w)) (at_start a) of
             Inl e \<Rightarrow> Inl e
           | Inr left \<Rightarrow>
               (case at_result a of
                  BudgetTimeout \<Rightarrow> Inl budget_error
                | TransportFailure k \<Rightarrow> Inl (transport_error k)
                | Response status answer \<Rightarrow>
                    if \<not> (200 \<le> status \<and> status < 300)
                    then Inl (App (error UpstreamError ''hermes request failed''))
                    else Inr (case answer of Some (JObj d) \<Rightarrow> d | _ \<Rightarrow> []))))"

definition interrupt_run :: "settings \<Rightarrow> hermes_world \<Rightarrow> string \<Rightarrow> exn + dict" where
  "interrupt_run cfg w run_id = passthrough_post cfg w (''/v1/runs/'' @ run_id @ ''/stop'') JNull"

definition history_item :: "json \<Rightarrow> json option" where
  "history_item item =
     (case item of
        JObj d \<Rightarrow> (case (map_of d ''role'', map_of d ''content'') of
                    (Some r, Some c) \<Rightarrow> Some (JObj [(''role'', r), (''content'', c)])
                  | _ \<Rightarrow> None)
      | _ \<Rightarrow> None)"

definition transcript_items :: "json \<Rightarrow> json list" where
  "transcript_items payload =
     (case (case payload of
              JObj d \<Rightarrow> if truthy (dict_get d ''messages'') then dict_get d ''messages''
                       else if truthy (dict_get d ''data'') then dict_get d ''data'' else JList []
            | v \<Rightarrow> v) of
        JList xs \<Rightarrow> xs
      | _ \<Rightarrow> [])"

definition fetch_session_transcript ::
  "hermes_world \<Rightarrow> instance_endpoint \<Rightarrow> string \<Rightarrow> rat \<Rightarrow> exn + json list" where
  "fetch_session_transcript w endpoint session_id deadline =
     (let a = hw_get w (base_url endpoint @ ''/api/sessions/'' @ session_id @ ''/messages'') in
      case remaining deadline (at_start a) of
        Inl e \<Rightarrow> Inl e
      | Inr left \<Rightarrow>
          (case at_result a of
             BudgetTimeout \<Rightarrow> Inl budget_error
           | TransportFailure k \<Rightarrow> Inl (transport_error k)
           | Response status body \<Rightarrow>
               if status = 404 then Inl (App (error SessionExpiredError ''session transcript not found''))
               else if \<not> (200 \<le> status \<and> status < 300)
               then Inl (App (error UpstreamError ''hermes session transcript failed''))
               else (case body of
                       None \<Rightarrow> Inl (App (error UpstreamError ''hermes session transcript invalid body''))
                     | Some payload \<Rightarrow>
                         let history = List.map_filter history_item (transcript_items payload) in
                         if history = [] then Inl (App (error SessionExpiredError ''session transcript empty''))
                         else Inr history)))"

subsection \<open>Launch\<close>

definition EVENT_AGENT_RUN :: string where "EVENT_AGENT_RUN = ''agent_run''"
definition DEBT_OUTSTANDING :: string where "DEBT_OUTSTANDING = ''debt_outstanding''"

fun block_reason_value :: "block_reason \<Rightarrow> string" where
  "block_reason_value BR_trial_used = ''trial_used''"
| "block_reason_value BR_subscription_required = ''subscription_required''"
| "block_reason_value BR_subscription_expired = ''subscription_expired''"
| "block_reason_value BR_credits_empty = ''credits_empty''"
| "block_reason_value BR_byok_disabled = ''byok_disabled''"
| "block_reason_value BR_byok_invalid = ''byok_invalid''"
| "block_reason_value BR_rate_limited = ''rate_limited''"
| "block_reason_value BR_policy_denied = ''policy_denied''"
| "block_reason_value BR_debt_outstanding = ''debt_outstanding''"
| "block_reason_value BR_max_tokens = ''max_tokens''"

definition agent_audit :: "uuid \<Rightarrow> dict \<Rightarrow> unit dbop" where
  "agent_audit uid payload =
     audit_record \<lparr>ev_user = uid, ev_type = EVENT_AGENT_RUN, ev_payload = payload, ev_session = None\<rparr>"

text \<open>
  The credits gate and the debt gate that precede a launch and a resume; the answer is
  \<open>Some reason\<close> when the request is blocked.
\<close>

definition policy_block :: "settings \<Rightarrow> int \<Rightarrow> uuid \<Rightarrow> string \<Rightarrow> string option option dbop" where
  "policy_block cfg now uid phase =
     op_bind (load_policy_state now uid) (\<lambda>state.
     let decision = evaluate state ModeCredits in
     if \<not> allow decision then
       let reason = map_option block_reason_value (block_reason decision) in
       op_bind (agent_audit uid [(''phase'', JStr phase), (''blockReason'', opt_str reason)]) (\<lambda>_.
       op_return (Some reason))
     else if agent_debt_reconcile_enabled cfg then
       op_bind (op_read (current_debt uid)) (\<lambda>debt.
       if debt > 0 then
         op_bind (agent_audit uid [(''phase'', JStr phase), (''blockReason'', JStr DEBT_OUTSTANDING),
                                   (''debt'', JInt debt)]) (\<lambda>_.
         op_return (Some (Some DEBT_OUTSTANDING)))
       else op_return None)
     else op_return None)"

definition or_raise :: "exn + 'a \<Rightarrow> 'a dbop" where
  "or_raise x = (case x of Inl e \<Rightarrow> op_raise e | Inr v \<Rightarrow> op_return v)"

datatype run_launch_result = LaunchBlocked "string option" | Launched string string

definition launch_body :: "string \<Rightarrow> string \<Rightarrow> string option \<Rightarrow> dict" where
  "launch_body message session_id model =
     [(''input'', JStr message), (''session_id'', JStr session_id)] @
     (case model of None \<Rightarrow> [] | Some m \<Rightarrow> [(''model'', JStr m)])"

definition agent_launch ::
  "settings \<Rightarrow> hermes_world \<Rightarrow> int \<Rightarrow> string \<Rightarrow> uuid \<Rightarrow> string \<Rightarrow> string option \<Rightarrow> string option
   \<Rightarrow> run_launch_result dbop" where
  "agent_launch cfg w now fresh uid message session_id model =
     op_bind (policy_block cfg now uid ''blocked'') (\<lambda>blocked.
     case blocked of
       Some reason \<Rightarrow> op_return (LaunchBlocked reason)
     | None \<Rightarrow>
         op_bind (or_raise (hw_ensure w)) (\<lambda>endpoint.
         let sid = (case session_id of Some x \<Rightarrow> if x = [] then fresh else x | None \<Rightarrow> fresh) in
         op_bind (or_raise (launch_run cfg w endpoint (launch_body message sid model)
                              (budget_deadline cfg (hw_clock w)))) (\<lambda>(run_id, status).
         op_bind (create_running now run_id uid sid model None ''running'') (\<lambda>_.
         op_bind (agent_audit uid [(''phase'', JStr ''launched''), (''runId'', JStr run_id),
                                   (''status'', JStr status)]) (\<lambda>_.
         op_return (Launched run_id status))))))"

subsection \<open>Run routes\<close>

definition assert_run_owner :: "uuid \<Rightarrow> string \<Rightarrow> agent_run dbop" where
  "assert_run_owner uid run_id =
     op_bind (runs_get run_id) (\<lambda>run.
     case run of
       None \<Rightarrow> raise_app NotFoundError ''run not found''
     | Some r \<Rightarrow> if run_user r \<noteq> uid then raise_app NotFoundError ''run not found'' else op_return r)"

definition approval :: "settings \<Rightarrow> hermes_world \<Rightarrow> int \<Rightarrow> uuid \<Rightarrow> string \<Rightarrow> dict \<Rightarrow> dict dbop" where
  "approval cfg w now uid run_id body =
     op_bind (assert_run_owner uid run_id) (\<lambda>_.
     op_bind (or_raise (passthrough_post cfg w (''/v1/runs/'' @ run_id @ ''/approval'') (JObj body))) (\<lambda>result.
     op_bind (clear_pending_approval now run_id uid) (\<lambda>_.
     op_return result)))"

definition stop_run :: "settings \<Rightarrow> hermes_world \<Rightarrow> int \<Rightarrow> uuid \<Rightarrow> string \<Rightarrow> dict dbop" where
  "stop_run cfg w now uid run_id =
     op_bind (assert_run_owner uid run_id) (\<lambda>_.
     op_bind (or_raise (interrupt_run cfg w run_id)) (\<lambda>result.
     op_bind (mark_stopped now run_id uid) (\<lambda>_.
     op_return result)))"

record run_state_view =
  rv_run_id :: string
  rv_session_id :: string
  rv_status :: string
  rv_result_text :: string
  rv_last_tool :: "string option"
  rv_pending_approval :: "dict option"
  rv_block_reason :: "string option"
  rv_input_tokens :: int
  rv_output_tokens :: int
  rv_updated_at :: int
  rv_continued_from :: "string option"

definition state_view :: "string \<Rightarrow> agent_run \<Rightarrow> agent_snapshot option \<Rightarrow> run_state_view" where
  "state_view run_id run snapshot =
     (let pending = (case snapshot of Some sn \<Rightarrow> snap_pending_approval sn | None \<Rightarrow> None);
          status = map_client_status (run_status run) (pending \<noteq> None)
      in \<lparr>rv_run_id = run_id, rv_session_id = run_session_id run, rv_status = status,
          rv_result_text = (case snapshot of Some sn \<Rightarrow> snap_result_text sn | None \<Rightarrow> []),
          rv_last_tool = (case snapshot of Some sn \<Rightarrow> snap_last_tool sn | None \<Rightarrow> None),
          rv_pending_approval = pending,
          rv_block_reason = (if status = ''paused'' then run_paused_reason run else None),
          rv_input_tokens = (case snapshot of Some sn \<Rightarrow> snap_input_tokens sn | None \<Rightarrow> 0),
          rv_output_tokens = (case snapshot of Some sn \<Rightarrow> snap_output_tokens sn | None \<Rightarrow> 0),
          rv_updated_at = (case snapshot of Some sn \<Rightarrow> snap_updated_at sn | None \<Rightarrow> run_updated_at run),
          rv_continued_from = run_continued_from run\<rparr>)"

definition get_state :: "uuid \<Rightarrow> string \<Rightarrow> run_state_view dbop" where
  "get_state uid run_id =
     op_bind (assert_run_owner uid run_id) (\<lambda>run.
     op_bind (snapshots_get run_id uid) (\<lambda>snapshot.
     op_return (state_view run_id run snapshot)))"

subsection \<open>Resume\<close>

datatype run_resume_result = ResumeBlocked "string option" | Resumed string string

definition resume_body :: "string \<Rightarrow> string option \<Rightarrow> string option \<Rightarrow> json list \<Rightarrow> dict" where
  "resume_body session_id message model history =
     [(''session_id'', JStr session_id)] @
     (case message of None \<Rightarrow> [] | Some m \<Rightarrow> [(''input'', JStr m)]) @
     (case model of None \<Rightarrow> [] | Some m \<Rightarrow> [(''model'', JStr m)]) @
     (if history = [] then [] else [(''conversation_history'', JList history)])"

text \<open>Wake, hydrate and launch under one budget.\<close>

definition resume_launch ::
  "settings \<Rightarrow> hermes_world \<Rightarrow> string \<Rightarrow> string option \<Rightarrow> string option \<Rightarrow> exn + string \<times> string" where
  "resume_launch cfg w session_id model message =
     (let deadline = budget_deadline cfg (hw_clock w) in
      case hw_ensure w of
        Inl e \<Rightarrow> Inl e
      | Inr endpoint \<Rightarrow>
          (case fetch_session_transcript w endpoint session_id deadline of
             Inl e \<Rightarrow> Inl e
           | Inr history \<Rightarrow> launch_run cfg w endpoint (resume_body session_id message model history) deadline))"

definition resume_won ::
  "settings \<Rightarrow> hermes_world \<Rightarrow> int \<Rightarrow> uuid \<Rightarrow> string \<Rightarrow> string option \<Rightarrow> string \<times> string option
   \<Rightarrow> run_resume_result dbop" where
  "resume_won cfg w now uid run_id message cas =
     (case cas of (session_id, model) \<Rightarrow>
        (case resume_launch cfg w session_id model message of
           Inl e \<Rightarrow> op_bind (revert_cas now run_id) (\<lambda>_. op_raise e)
         | Inr (new_run_id, status) \<Rightarrow>
             op_bind (create_running now new_run_id uid session_id model (Some run_id) ''running'') (\<lambda>_.
             op_bind (agent_audit uid [(''phase'', JStr ''resumed''), (''runId'', JStr new_run_id),
                                       (''continuedFrom'', JStr run_id), (''status'', JStr status)]) (\<lambda>_.
             op_return (Resumed new_run_id run_id)))))"

definition resume_run ::
  "settings \<Rightarrow> hermes_world \<Rightarrow> int \<Rightarrow> uuid \<Rightarrow> string \<Rightarrow> string option \<Rightarrow> run_resume_result dbop" where
  "resume_run cfg w now uid run_id message =
     op_bind (assert_run_owner uid run_id) (\<lambda>run.
     if run_status run \<notin> {''paused'', ''resumed''} then raise_app RunNotResumableError ''run is not resumable''
     else
       op_bind (policy_block cfg now uid ''resumed'') (\<lambda>blocked.
       case blocked of
         Some reason \<Rightarrow> op_return (ResumeBlocked reason)
       | None \<Rightarrow>
           op_bind (cas_resume now run_id) (\<lambda>cas.
           case cas of
             None \<Rightarrow>
               op_bind (active_child run_id) (\<lambda>child.
               case child of
                 Some (k, _) \<Rightarrow> op_return (Resumed k run_id)
               | None \<Rightarrow> raise_app ResumeInProgressError ''resume in progress'')
           | Some c \<Rightarrow> resume_won cfg w now uid run_id message c)))"

end
