(* ===== verification/AgentServiceClaims.thy ===== *)
theory AgentServiceClaims
  imports AgentService AgentRunClaims WalletClaims
begin

text \<open>
  Properties of the agent routes: a launch request reaches the instance at most once, the runs of
  other users are invisible, and a resume either chains exactly one child or leaves the run resumable.
\<close>

subsection \<open>Launch\<close>

text \<open>Whether an attempt may have reached the server: everything but a failure to connect.\<close>

definition may_have_reached :: "http_result \<Rightarrow> bool" where
  "may_have_reached res \<longleftrightarrow> \<not> (\<exists>k. res = TransportFailure k \<and> connect_phase k)"

text \<open>
  The retry cycle of a launch never sends a request that may have been accepted twice:
  at most one of the attempts made can have reached the instance, it is the last one, there are no
  more attempts than configured, and an answer that is returned is the answer to the last attempt.
\<close>

theorem launch_reaches_the_instance_once:
  assumes "launch_attempts deadline backoff w i n = (out, made)"
  shows "length (filter (\<lambda>j. may_have_reached (at_result (w j))) made) \<le> 1 \<and>
    list_all (\<lambda>j. \<not> may_have_reached (at_result (w j))) (butlast made) \<and> length made \<le> n \<and>
    (\<forall>status body. out = Inr (status, body) \<longrightarrow> made \<noteq> [] \<and> at_result (w (last made)) = Response status body)"
  using assms
proof (induction deadline backoff w i n arbitrary: out made rule: launch_attempts.induct)
  case (2 deadline backoff w i n)
  show ?case
  proof (cases "remaining deadline (at_start (w i))")
    case (Inl e)
    with 2(2) show ?thesis by auto
  next
    case left: (Inr left)
    show ?thesis
    proof (cases "at_result (w i)")
      case BudgetTimeout
      with 2(2) left show ?thesis by auto
    next
      case (Response status body)
      with 2(2) left show ?thesis by auto
    next
      case (TransportFailure k)
      let ?again = "connect_phase k \<and> 0 < n \<and> MIN_ATTEMPT_SECONDS \<le> deadline - at_failed (w i) - backoff"
      show ?thesis
      proof (cases ?again)
        case False
        with 2(2) left TransportFailure show ?thesis by (auto split: if_splits)
      next
        case True
        obtain o' m where r: "launch_attempts deadline backoff w (Suc i) n = (o', m)" by fastforce
        have eq: "out = o'" "made = i # m" using 2(2) left TransportFailure True r by auto
        have "\<not> may_have_reached (at_result (w i))" using TransportFailure True by (auto simp: may_have_reached_def)
        with 2(1) [OF left TransportFailure True r] eq show ?thesis by auto
      qed
    qed
  qed
qed simp

theorem launch_reaches_the_instance_once_witness:
  "\<exists>made. launch_attempts 150 2 (\<lambda>i. \<lparr>at_start = 0, at_failed = 10,
      at_result = if i = 1 then TransportFailure ConnectTimeout else Response 200 (Some (JObj []))\<rparr>) 1 3 =
      (Inr (200, Some (JObj [])), made) \<and> length made \<le> 3"
proof -
  let ?w = "\<lambda>i :: nat. \<lparr>at_start = 0 :: rat, at_failed = 10,
      at_result = if i = 1 then TransportFailure ConnectTimeout else Response 200 (Some (JObj []))\<rparr>"
  have "launch_attempts 150 2 ?w 1 (Suc (Suc (Suc 0))) = (Inr (200, Some (JObj [])), [1, 2])"
    by (simp add: remaining_def MIN_ATTEMPT_SECONDS_def connect_phase_def)
  then have run: "launch_attempts 150 2 ?w 1 3 = (Inr (200, Some (JObj [])), [1, 2])"
    by (simp add: eval_nat_numeral)
  from launch_reaches_the_instance_once [OF this] run show ?thesis by blast
qed

text \<open>An answer that is JSON but not an object is not caught: the handler raises \<open>AttributeError\<close>.\<close>

lemma launch_body_not_an_object:
  "launch_outcome (200, Some (JList [])) = Inl (PyError ''AttributeError'')"
  by (simp add: launch_outcome_def)

subsection \<open>Ownership\<close>

lemma assert_run_owner_foreign:
  assumes "\<forall>r. run_of k s = Some r \<longrightarrow> run_user r \<noteq> uid"
  shows "assert_run_owner uid k s = (Inl (App (error NotFoundError ''run not found'')), s)"
  using assms by (auto simp: assert_run_owner_def runs_get_def op_bind_def split: option.splits)

lemma assert_run_owner_own:
  "run_of k s = Some r \<Longrightarrow> run_user r = uid \<Longrightarrow> assert_run_owner uid k s = (Inr r, s)"
  by (simp add: assert_run_owner_def runs_get_def op_bind_def)

text \<open>
  A run that does not exist or belongs to another user is invisible on every route: state,
  approval, stop and resume all answer 404 and change nothing, whatever the instance would answer.
\<close>

theorem foreign_run_is_invisible:
  assumes "\<forall>r. run_of run_id s = Some r \<longrightarrow> run_user r \<noteq> uid"
  shows "get_state uid run_id s = (Inl (App (error NotFoundError ''run not found'')), s) \<and>
    approval cfg w now uid run_id body s = (Inl (App (error NotFoundError ''run not found'')), s) \<and>
    stop_run cfg w now uid run_id s = (Inl (App (error NotFoundError ''run not found'')), s) \<and>
    resume_run cfg w now uid run_id message s = (Inl (App (error NotFoundError ''run not found'')), s)"
  using assert_run_owner_foreign [OF assms]
  by (simp add: get_state_def approval_def stop_run_def resume_run_def op_bind_InlI)

theorem foreign_run_is_invisible_witness:
  "run_of ''r1'' demo_runs \<noteq> None \<and>
   get_state 2 ''r1'' demo_runs = (Inl (App (error NotFoundError ''run not found'')), demo_runs)"
proof -
  have r: "run_of ''r1'' demo_runs = Some (demo_run\<lparr>run_status := ''cancelled''\<rparr>)"
    by (simp add: run_of_def demo_runs_def)
  then have "\<forall>r. run_of ''r1'' demo_runs = Some r \<longrightarrow> run_user r \<noteq> 2" by (simp add: demo_run_def)
  from foreign_run_is_invisible [OF this] r show ?thesis by simp
qed

subsection \<open>Resume\<close>

text \<open>The gate reads users, subscriptions, wallets and keys only; when it passes it writes nothing.\<close>

lemma policy_passes:
  "policy_block cfg now uid phase s = (Inr None, t) \<longleftrightarrow>
     t = s \<and> (\<exists>st. load_policy_state now uid s = (Inr st, s) \<and> allow (evaluate st ModeCredits) \<and>
       (agent_debt_reconcile_enabled cfg \<longrightarrow> current_debt uid s \<le> 0))"
proof -
  have "\<exists>out. load_policy_state now uid s = (out, s)"
    by (metis load_policy_state_pure prod.collapse)
  then obtain out where out: "load_policy_state now uid s = (out, s)" ..
  show ?thesis
    by (cases out) (auto simp: policy_block_def op_bind_def out Let_def agent_audit_def)
qed

lemma policy_passes_cong:
  assumes "policy_block cfg now uid phase s = (Inr None, s)"
    and "users t = users s" "subscriptions t = subscriptions s" "byok_keys t = byok_keys s" "wallets t = wallets s"
  shows "policy_block cfg now uid phase t = (Inr None, t)"
proof -
  have "fst (load_policy_state now uid t) = fst (load_policy_state now uid s)"
    using assms(2-5) by (auto simp: load_policy_state_def Let_def split: option.splits)
  then have "load_policy_state now uid t = (Inr st, t)" if "load_policy_state now uid s = (Inr st, s)" for st
    using that by (metis load_policy_state_pure fst_conv prod.collapse)
  moreover have "current_debt uid t = current_debt uid s" using assms(5) by (simp add: current_debt_def)
  ultimately show ?thesis using assms(1) by (auto simp: policy_passes)
qed

lemma cas_resume_paused:
  assumes "run_of k s = Some r" "run_status r = ''paused''"
  shows "cas_resume now k s = (Inr (Some (run_session_id r, run_model r)),
    set_run k (r\<lparr>run_status := ''resumed'', run_updated_at := now\<rparr>) s)"
  using assms by (simp add: cas_resume_def op_bind_read op_bind_def update_run_def)

lemma resume_paused:
  assumes "run_of k s = Some r" "run_status r = ''paused''" "run_user r = uid"
    and "policy_block cfg now uid ''resumed'' s = (Inr None, s)"
  shows "resume_run cfg w now uid k message s =
    resume_won cfg w now uid k message (run_session_id r, run_model r)
      (set_run k (r\<lparr>run_status := ''resumed'', run_updated_at := now\<rparr>) s)"
  using assms cas_resume_paused [OF assms(1,2)] assert_run_owner_own [OF assms(1,3)]
  by (simp add: resume_run_def op_bind_InrI)

lemma alist_update_mem: "(j, x) \<in> set (AList.update k v xs) \<Longrightarrow> (j, x) = (k, v) \<or> (j, x) \<in> set xs"
  by (induction xs) (auto split: if_splits)

lemma has_child_set_run:
  assumes "run_continued_from r' = run_continued_from r" "run_of k s = Some r" "\<not> has_child p s"
  shows "\<not> has_child p (set_run k r' s)"
proof
  assume "has_child p (set_run k r' s)"
  then obtain j x where x: "(j, x) \<in> set (AList.update k r' (agent_runs s))" "run_continued_from x = Some p"
    by (auto simp: has_child_iff set_run_def)
  have "(j, x) = (k, r') \<or> (j, x) \<in> set (agent_runs s)" by (rule alist_update_mem [OF x(1)])
  moreover have "(k, r) \<in> set (agent_runs s)" using assms(2) by (auto simp: run_of_def dest: map_of_SomeD)
  ultimately show False using x(2) assms(1,3) by (auto simp: has_child_iff)
qed

text \<open>
  Claim C15. A resume whose relaunch fails leaves the run resumable: when the instance cannot be
  woken, its transcript cannot be read or the launch fails, after the compare-and-set has been won,
  the error is raised, the run is paused again with nothing but its timestamp changed, and no other
  run, no ledger entry and no wallet has moved.
\<close>

theorem failed_resume_stays_resumable:
  assumes "run_of run_id s = Some r" "run_status r = ''paused''" "run_user r = uid" "\<not> has_child run_id s"
    and "policy_block cfg now uid ''resumed'' s = (Inr None, s)"
    and "resume_launch cfg w (run_session_id r) (run_model r) message = Inl e"
  shows "\<exists>t. resume_run cfg w now uid run_id message s = (Inl e, t) \<and>
    run_of run_id t = Some (r\<lparr>run_updated_at := now\<rparr>) \<and>
    (\<forall>k. k \<noteq> run_id \<longrightarrow> run_of k t = run_of k s) \<and> ledger t = ledger s \<and> wallets t = wallets s"
proof -
  let ?r1 = "r\<lparr>run_status := ''resumed'', run_updated_at := now\<rparr>" and ?s1 = "set_run run_id (r\<lparr>run_status := ''resumed'', run_updated_at := now\<rparr>) s"
  let ?t = "set_run run_id (?r1\<lparr>run_status := ''paused'', run_updated_at := now\<rparr>) ?s1"
  have "\<not> has_child run_id ?s1" using has_child_set_run [OF _ assms(1,4)] by simp
  then have "revert_cas now run_id ?s1 = (Inr 1, ?t)"
    by (simp add: revert_cas_def update_run_def)
  then have "resume_run cfg w now uid run_id message s = (Inl e, ?t)"
    using assms(6) by (simp add: resume_paused [OF assms(1-3,5)] resume_won_def op_bind_InrI)
  moreover have "?r1\<lparr>run_status := ''paused'', run_updated_at := now\<rparr> = r\<lparr>run_updated_at := now\<rparr>"
    using assms(2) by simp
  ultimately show ?thesis by (intro exI [of _ ?t]) simp
qed

text \<open>The state after a new child row has been chained.\<close>

lemma find_child_append:
  assumes "\<not> has_child p s" "run_of k s = None" "run_continued_from row = Some p"
  shows "find (\<lambda>(_, r). run_continued_from r = Some p) (agent_runs (set_run k row s)) = Some (k, row)"
proof -
  have new: "k \<notin> fst ` set (agent_runs s)" using assms(2) by (simp add: run_of_def map_of_eq_None_iff)
  have "AList.update k row xs = xs @ [(k, row)]" if "k \<notin> fst ` set xs" for xs
    using that by (induction xs) auto
  then have "agent_runs (set_run k row s) = agent_runs s @ [(k, row)]" using new by (simp add: set_run_def)
  moreover have "find (\<lambda>(_, r). run_continued_from r = Some p) (agent_runs s) = None"
    using assms(1) by (auto simp: has_child_iff find_None_iff)
  ultimately show ?thesis using assms(3) by (simp add: find_append)
qed

text \<open>
  Claim C14. A resume chains exactly one child and is idempotent: when a paused run without a child is
  resumed and the instance starts a new run, the new row continues the old one in the same session,
  the old row is resumed, and a repeated resume, whatever the instance would then answer, returns the
  same child and changes nothing.
\<close>

theorem resume_chains_one_child:
  assumes "run_of run_id s = Some r" "run_status r = ''paused''" "run_user r = uid" "\<not> has_child run_id s"
    and "policy_block cfg now uid ''resumed'' s = (Inr None, s)"
    and "resume_launch cfg w (run_session_id r) (run_model r) message = Inr (new_id, status)"
    and "run_of new_id s = None" and "users s uid \<noteq> None"
  shows "\<exists>t child. resume_run cfg w now uid run_id message s = (Inr (Resumed new_id run_id), t) \<and>
    run_of new_id t = Some child \<and> run_continued_from child = Some run_id \<and>
    run_session_id child = run_session_id r \<and> run_status child = ''running'' \<and>
    map_option run_status (run_of run_id t) = Some ''resumed'' \<and>
    resume_run cfg w' now uid run_id message' t = (Inr (Resumed new_id run_id), t)"
proof -
  let ?r1 = "r\<lparr>run_status := ''resumed'', run_updated_at := now\<rparr>"
  let ?s1 = "set_run run_id ?r1 s"
  define child where "child = \<lparr>run_user = uid, run_session_id = run_session_id r, run_status = ''running'',
     run_credits_spent = 0, run_last_billed_step = 0, run_paused_reason = None,
     run_continued_from = Some run_id, run_model = run_model r, run_created_at = now, run_updated_at = now\<rparr>"
  let ?s2 = "set_run new_id child ?s1"
  have ne: "new_id \<noteq> run_id" using assms(1,7) by auto
  have cr: "create_running now new_id uid (run_session_id r) (run_model r) (Some run_id) ''running'' ?s1 = (Inr (), ?s2)"
    using assms(7,8) ne by (simp add: create_running_def AGENT_RUN_STATUS_def child_def)
  define t where "t = snd (agent_audit uid [(''phase'', JStr ''resumed''), (''runId'', JStr new_id),
     (''continuedFrom'', JStr run_id), (''status'', JStr status)] ?s2)"
  have run: "resume_run cfg w now uid run_id message s = (Inr (Resumed new_id run_id), t)"
    using assms(6) cr
    by (simp add: resume_paused [OF assms(1-3,5)] resume_won_def op_bind_InrI t_def agent_audit_def)
  have runs: "agent_runs t = agent_runs ?s2" "users t = users s" "subscriptions t = subscriptions s"
    "byok_keys t = byok_keys s" "wallets t = wallets s"
    by (simp_all add: t_def agent_audit_def set_run_def)
  have rows: "run_of new_id t = Some child" "run_of run_id t = Some ?r1"
    using ne by (simp_all add: run_of_def runs(1)) (simp_all flip: run_of_def)
  have "find (\<lambda>(_, r). run_continued_from r = Some run_id) (agent_runs t) = Some (new_id, child)"
    unfolding runs(1)
    by (rule find_child_append) (use has_child_set_run [OF _ assms(1,4)] assms(7) ne in \<open>simp_all add: child_def\<close>)
  moreover have "policy_block cfg now uid ''resumed'' t = (Inr None, t)"
    by (rule policy_passes_cong [OF assms(5) runs(2-5)])
  moreover have "assert_run_owner uid run_id t = (Inr ?r1, t)"
    using rows(2) assms(3) by (intro assert_run_owner_own) simp_all
  moreover have "cas_resume now run_id t = (Inr None, t)"
    using rows(2) by (simp add: cas_resume_def op_bind_def update_run_def)
  ultimately have "resume_run cfg w' now uid run_id message' t = (Inr (Resumed new_id run_id), t)"
    by (simp add: resume_run_def op_bind_InrI active_child_def)
  with run rows show ?thesis by (intro exI [of _ t] exI [of _ child]) (simp add: child_def)
qed

lemma demo_paused_facts:
  "run_of ''r1'' demo_paused = Some (demo_run\<lparr>run_status := ''paused''\<rparr>)" "\<not> has_child ''r1'' demo_paused"
  "run_of ''r2'' demo_paused = None" "users demo_paused 1 \<noteq> None"
  "policy_block demo_cfg 9 1 ''resumed'' demo_paused = (Inr None, demo_paused)"
proof -
  show "run_of ''r1'' demo_paused = Some (demo_run\<lparr>run_status := ''paused''\<rparr>)" "\<not> has_child ''r1'' demo_paused"
    "run_of ''r2'' demo_paused = None" "users demo_paused 1 \<noteq> None"
    by (simp_all add: demo_paused_def demo_runs_def run_of_def has_child_def demo_run_def)
  show "policy_block demo_cfg 9 1 ''resumed'' demo_paused = (Inr None, demo_paused)"
    by (auto simp: policy_passes load_policy_state_def demo_paused_def demo_runs_def empty_db_def
        effective_subscription_status_def policy_defs current_debt_def)
qed

definition demo_world :: "exn + instance_endpoint \<Rightarrow> hermes_world" where
  "demo_world e = \<lparr>hw_ensure = e, hw_clock = 0,
     hw_post = \<lambda>_ _ _. \<lparr>at_start = 0, at_failed = 0, at_result = Response 202 (Some (JObj [(''run_id'', JStr ''r2'')]))\<rparr>,
     hw_get = \<lambda>_. \<lparr>at_start = 0, at_failed = 0, at_result = Response 200
       (Some (JList [JObj [(''role'', JStr ''user''), (''content'', JStr ''hi'')]]))\<rparr>\<rparr>"

theorem failed_resume_stays_resumable_witness:
  "\<exists>t. resume_run demo_cfg (demo_world (Inl budget_error)) 9 1 ''r1'' None demo_paused = (Inl budget_error, t) \<and>
     run_of ''r1'' t = Some (demo_run\<lparr>run_status := ''paused'', run_updated_at := 9\<rparr>)"
proof -
  let ?r = "demo_run\<lparr>run_status := ''paused''\<rparr>"
  have "resume_launch demo_cfg (demo_world (Inl budget_error)) (run_session_id ?r) (run_model ?r) None = Inl budget_error"
    by (simp add: resume_launch_def demo_world_def Let_def)
  from failed_resume_stays_resumable [OF demo_paused_facts(1) _ _ demo_paused_facts(2,5) this]
  show ?thesis by (auto simp: demo_run_def)
qed

theorem resume_chains_one_child_witness:
  "\<exists>t. resume_run demo_cfg (demo_world (Inr \<lparr>base_url = ''http://h'', api_key = ''k''\<rparr>)) 9 1 ''r1'' None demo_paused =
       (Inr (Resumed ''r2'' ''r1''), t) \<and>
     resume_run demo_cfg (demo_world (Inl budget_error)) 9 1 ''r1'' None t = (Inr (Resumed ''r2'' ''r1''), t)"
proof -
  let ?r = "demo_run\<lparr>run_status := ''paused''\<rparr>"
  let ?w = "demo_world (Inr \<lparr>base_url = ''http://h'', api_key = ''k''\<rparr>)"
  have at: "nat (max (hermes_launch_retry_attempts demo_cfg) 1) = Suc (Suc (Suc 0))" "hermes_launch_budget_seconds demo_cfg = 150"
    by (simp_all add: demo_cfg_def eval_nat_numeral)
  have "resume_launch demo_cfg ?w (run_session_id ?r) (run_model ?r) None = Inr (''r2'', ''queued'')"
    by (simp add: resume_launch_def demo_world_def Let_def launch_run_def at fetch_session_transcript_def remaining_def
        budget_deadline_def MIN_ATTEMPT_SECONDS_def transcript_items_def history_item_def List.map_filter_simps
        launch_outcome_def)
  from resume_chains_one_child [OF demo_paused_facts(1) _ _ demo_paused_facts(2,5) this demo_paused_facts(3,4),
      of "demo_world (Inl budget_error)" None]
  show ?thesis by (auto simp: demo_run_def)
qed

end
