(* ===== verification/PyUnicode.thy ===== *)
theory PyUnicode
  imports Prelude
begin

text \<open>
  Python's text as the event transport uses it: a \<open>str\<close> is a list of code points, \<open>bytes\<close> a
  list of natural numbers below 256, and \<open>decode\<close>/\<open>encode\<close> are UTF-8 with the
  \<open>surrogateescape\<close> error handler, under which an undecodable byte becomes a lone low surrogate.
\<close>

type_synonym bytes = "nat list"
type_synonym ustr = "nat list"

definition cont_byte :: "nat \<Rightarrow> bool" where
  "cont_byte b \<longleftrightarrow> 128 \<le> b \<and> b < 192"

text \<open>
  A well-formed sequence at the head of the input, with the number of bytes it takes: no overlong
  forms, no surrogates, nothing above U+10FFFF.
\<close>

fun utf8_head :: "bytes \<Rightarrow> (nat \<times> nat) option" where
  "utf8_head [] = None"
| "utf8_head (a # bs) =
     (if a < 128 then Some (a, 1)
      else if 194 \<le> a \<and> a < 224 then
        (case bs of
           b # _ \<Rightarrow> if cont_byte b then Some ((a - 192) * 64 + (b - 128), 2) else None
         | _ \<Rightarrow> None)
      else if 224 \<le> a \<and> a < 240 then
        (case bs of
           b # c # _ \<Rightarrow>
             if cont_byte b \<and> cont_byte c \<and> (a = 224 \<longrightarrow> 160 \<le> b) \<and> (a = 237 \<longrightarrow> b < 160)
             then Some ((a - 224) * 4096 + (b - 128) * 64 + (c - 128), 3) else None
         | _ \<Rightarrow> None)
      else if 240 \<le> a \<and> a < 245 then
        (case bs of
           b # c # d # _ \<Rightarrow>
             if cont_byte b \<and> cont_byte c \<and> cont_byte d \<and> (a = 240 \<longrightarrow> 144 \<le> b) \<and> (a = 244 \<longrightarrow> b < 144)
             then Some ((a - 240) * 262144 + (b - 128) * 4096 + (c - 128) * 64 + (d - 128), 4) else None
         | _ \<Rightarrow> None)
      else None)"

lemma utf8_head_length: "utf8_head bs = Some (c, n) \<Longrightarrow> 0 < n \<and> n \<le> length bs"
  by (cases bs) (auto split: if_splits list.splits)

function utf8_decode :: "bytes \<Rightarrow> ustr" where
  "utf8_decode bs =
     (if bs = [] then []
      else case utf8_head bs of
        Some (c, n) \<Rightarrow> c # utf8_decode (drop n bs)
      | None \<Rightarrow> (56320 + hd bs) # utf8_decode (tl bs))"
  by auto
termination
  by (relation "measure length") (auto dest: utf8_head_length)

declare utf8_decode.simps [simp del]

text \<open>\<open>encode\<close>: a surrogate that does not stand for a byte cannot be encoded.\<close>

definition utf8_encode_char :: "nat \<Rightarrow> bytes option" where
  "utf8_encode_char c =
     (if c < 128 then Some [c]
      else if c < 2048 then Some [192 + c div 64, 128 + c mod 64]
      else if 56448 \<le> c \<and> c < 56576 then Some [c - 56320]
      else if 55296 \<le> c \<and> c < 57344 then None
      else if c < 65536 then Some [224 + c div 4096, 128 + c div 64 mod 64, 128 + c mod 64]
      else if c < 1114112
      then Some [240 + c div 262144, 128 + c div 4096 mod 64, 128 + c div 64 mod 64, 128 + c mod 64]
      else None)"

fun utf8_encode :: "ustr \<Rightarrow> bytes option" where
  "utf8_encode [] = Some []"
| "utf8_encode (c # cs) =
     (case (utf8_encode_char c, utf8_encode cs) of
        (Some x, Some y) \<Rightarrow> Some (x @ y)
      | _ \<Rightarrow> None)"

subsection \<open>Round trip\<close>

lemma enc1: "a < 128 \<Longrightarrow> utf8_encode_char a = Some [a]"
  by (simp add: utf8_encode_char_def)

lemma enc2:
  assumes "194 \<le> a" "a < 224" "cont_byte b"
  shows "utf8_encode_char ((a - 192) * 64 + (b - 128)) = Some [a, b]"
proof -
  define x y where "x = a - 192" and "y = b - 128"
  have b: "2 \<le> x" "x < 32" "y < 64" "a = 192 + x" "b = 128 + y"
    using assms by (auto simp: cont_byte_def x_def y_def)
  have "(x * 64 + y) div 64 = x" "(x * 64 + y) mod 64 = y" "128 \<le> x * 64 + y" "x * 64 + y < 2048"
    using b by simp_all
  then show ?thesis using b by (auto simp: utf8_encode_char_def)
qed

lemma enc3:
  assumes "224 \<le> a" "a < 240" "cont_byte b" "cont_byte c" "a = 224 \<Longrightarrow> 160 \<le> b" "a = 237 \<Longrightarrow> b < 160"
  shows "utf8_encode_char ((a - 224) * 4096 + (b - 128) * 64 + (c - 128)) = Some [a, b, c]"
proof -
  define x y z where "x = a - 224" and "y = b - 128" and "z = c - 128"
  have b: "x < 16" "y < 64" "z < 64" "a = 224 + x" "b = 128 + y" "c = 128 + z"
    using assms by (auto simp: cont_byte_def x_def y_def z_def)
  have lo: "x = 0 \<Longrightarrow> 32 \<le> y" and hi: "x = 13 \<Longrightarrow> y < 32" using assms(5,6) b by auto
  let ?c = "x * 4096 + y * 64 + z"
  have yz: "y * 64 + z < 4096" using b by simp
  have d: "?c div 4096 = x" using yz by (simp add: add.assoc div_mult_self3)
  have "?c = (x * 64 + y) * 64 + z" by simp
  then have e: "?c div 64 = x * 64 + y" "?c mod 64 = z" using b(3) by (metis div_mult_self3 add.commute div_less add_0 zero_neq_numeral, metis mod_mult_self3 mod_less)
  have "2048 \<le> ?c" using lo by (cases "x = 0") auto
  moreover have "?c < 65536" using b yz by linarith
  moreover have "\<not> (55296 \<le> ?c \<and> ?c < 57344)"
  proof
    assume s: "55296 \<le> ?c \<and> ?c < 57344"
    then have "x = 13" using yz by linarith
    with hi b(3) s show False by auto
  qed
  ultimately show ?thesis
    using b d e by (auto simp: utf8_encode_char_def x_def [symmetric] y_def [symmetric] z_def [symmetric])
qed

lemma enc4:
  assumes "240 \<le> a" "a < 245" "cont_byte b" "cont_byte c" "cont_byte d" "a = 240 \<Longrightarrow> 144 \<le> b" "a = 244 \<Longrightarrow> b < 144"
  shows "utf8_encode_char ((a - 240) * 262144 + (b - 128) * 4096 + (c - 128) * 64 + (d - 128)) = Some [a, b, c, d]"
proof -
  define x y z w where "x = a - 240" and "y = b - 128" and "z = c - 128" and "w = d - 128"
  have b: "x < 5" "y < 64" "z < 64" "w < 64" "a = 240 + x" "b = 128 + y" "c = 128 + z" "d = 128 + w"
    using assms by (auto simp: cont_byte_def x_def y_def z_def w_def)
  have lo: "x = 0 \<Longrightarrow> 16 \<le> y" and hi: "x = 4 \<Longrightarrow> y < 16" using assms(6,7) b by auto
  let ?c = "x * 262144 + y * 4096 + z * 64 + w"
  have eq: "?c = ((x * 64 + y) * 64 + z) * 64 + w" by simp
  have e1: "?c div 64 = (x * 64 + y) * 64 + z" "?c mod 64 = w" unfolding eq using b(4) by (simp_all only: div_mult_self3 mod_mult_self3 zero_neq_numeral) simp_all
  have "?c div 4096 = ?c div 64 div 64" by (simp add: div_mult2_eq [symmetric])
  also have "\<dots> = x * 64 + y" unfolding e1(1) using b(3) by simp
  finally have e2: "?c div 4096 = x * 64 + y" .
  have "?c div 262144 = ?c div 4096 div 64" by (simp add: div_mult2_eq [symmetric])
  also have "\<dots> = x" unfolding e2 using b(2) by simp
  finally have e3: "?c div 262144 = x" .
  have m: "?c div 64 mod 64 = z" "?c div 4096 mod 64 = y" unfolding e1(1) e2 using b(2,3)
    by (simp_all only: mod_mult_self3) simp_all
  have "65536 \<le> ?c" using lo b by (cases "x = 0") auto
  moreover have "?c < 1114112"
  proof (cases "x = 4")
    case True
    then show ?thesis using hi b by auto
  next
    case False
    then have "x \<le> 3" using b(1) by simp
    then show ?thesis using b by linarith
  qed
  ultimately show ?thesis
    using b e1 e3 m by (auto simp: utf8_encode_char_def x_def [symmetric] y_def [symmetric] z_def [symmetric] w_def [symmetric])
qed

lemma utf8_encode_head:
  assumes "utf8_head bs = Some (c, n)"
  shows "utf8_encode_char c = Some (take n bs)"
proof (cases bs)
  case (Cons a bs')
  with assms show ?thesis
    by (auto simp: enc1 enc2 enc3 enc4 split: if_splits list.splits)
qed (use assms in simp)

lemma utf8_invalid_head:
  assumes "utf8_head bs = None" "bs \<noteq> []" "hd bs < 256"
  shows "utf8_encode_char (56320 + hd bs) = Some [hd bs]"
  using assms by (cases bs) (auto simp: utf8_encode_char_def split: if_splits)

text \<open>Decoding and encoding any byte sequence gives it back.\<close>

lemma utf8_roundtrip: "\<forall>b \<in> set bs. b < 256 \<Longrightarrow> utf8_encode (utf8_decode bs) = Some bs"
proof (induction bs rule: utf8_decode.induct)
  case (1 bs)
  show ?case
  proof (cases "bs = []")
    case False
    show ?thesis
    proof (cases "utf8_head bs")
      case None
      have "\<forall>b \<in> set (tl bs). b < 256" using 1(3) by (cases bs) auto
      then have "utf8_encode (utf8_decode (tl bs)) = Some (tl bs)" using 1(1) [OF False None] by simp
      moreover have "hd bs < 256" using 1(3) False by (cases bs) auto
      ultimately show ?thesis
        using utf8_invalid_head [OF None False] None False by (subst utf8_decode.simps) simp
    next
      case (Some p)
      then obtain c n where p: "utf8_head bs = Some (c, n)" by (cases p) auto
      have "\<forall>b \<in> set (drop n bs). b < 256" using 1(3) by (auto dest: in_set_dropD)
      then have "utf8_encode (utf8_decode (drop n bs)) = Some (drop n bs)" using 1(2) [OF False p refl] by simp
      then show ?thesis using utf8_encode_head [OF p] p False by (subst utf8_decode.simps) simp
    qed
  qed (simp add: utf8_decode.simps)
qed

text \<open>The decoder never yields a high surrogate, so escapes of pairs cannot be confused.\<close>

definition plain_char :: "nat \<Rightarrow> bool" where
  "plain_char c \<longleftrightarrow> c < 1114112 \<and> \<not> (55296 \<le> c \<and> c < 56320)"

lemma utf8_encode_char_plain: "utf8_encode_char c = Some bs \<Longrightarrow> plain_char c"
  by (auto simp: utf8_encode_char_def plain_char_def split: if_splits)

lemma utf8_encode_plain: "utf8_encode cs = Some bs \<Longrightarrow> list_all plain_char cs"
  by (induction cs arbitrary: bs) (auto dest: utf8_encode_char_plain split: option.splits)

end
