(* ===== verification/PyJson.thy ===== *)
theory PyJson
  imports PyUnicode PyData
begin

text \<open>
  \<open>json.dumps\<close> of a text (with \<open>ensure_ascii\<close>) and \<open>json.loads\<close> of a document, as the
  standard library has them, over code points. A number with a fraction or an exponent keeps its
  lexeme. The recursion of the scanner is bounded by the length of the input, which every nested call
  shortens.
\<close>

definition codes :: "string \<Rightarrow> ustr" where
  "codes s = map of_char s"

subsection \<open>Strings\<close>

definition hex_code :: "nat \<Rightarrow> nat" where
  "hex_code n = (if n < 10 then 48 + n else 87 + n)"

definition hex4 :: "nat \<Rightarrow> ustr" where
  "hex4 n = [hex_code (n div 4096 mod 16), hex_code (n div 256 mod 16), hex_code (n div 16 mod 16), hex_code (n mod 16)]"

definition u_escape :: "nat \<Rightarrow> ustr" where
  "u_escape n = [92, 117] @ hex4 n"

definition escape_char :: "nat \<Rightarrow> ustr" where
  "escape_char c =
     (if c = 92 then [92, 92] else if c = 34 then [92, 34] else if c = 8 then [92, 98]
      else if c = 12 then [92, 102] else if c = 10 then [92, 110] else if c = 13 then [92, 114]
      else if c = 9 then [92, 116]
      else if 32 \<le> c \<and> c \<le> 126 then [c]
      else if c < 65536 then u_escape c
      else u_escape (55296 + (c - 65536) div 1024) @ u_escape (56320 + (c - 65536) mod 1024))"

definition dumps_str :: "ustr \<Rightarrow> ustr" where
  "dumps_str cs = [34] @ concat (map escape_char cs) @ [34]"

definition unhex :: "nat \<Rightarrow> nat option" where
  "unhex c =
     (if 48 \<le> c \<and> c \<le> 57 then Some (c - 48)
      else if 97 \<le> c \<and> c \<le> 102 then Some (c - 87)
      else if 65 \<le> c \<and> c \<le> 70 then Some (c - 55) else None)"

fun unhex4 :: "ustr \<Rightarrow> (nat \<times> ustr) option" where
  "unhex4 (a # b # c # d # r) =
     (case (unhex a, unhex b, unhex c, unhex d) of
        (Some w, Some x, Some y, Some z) \<Rightarrow> Some (w * 4096 + x * 256 + y * 16 + z, r)
      | _ \<Rightarrow> None)"
| "unhex4 _ = None"

lemma unhex4_length: "unhex4 r = Some (n, r') \<Longrightarrow> length r = length r' + 4"
  by (cases r rule: unhex4.cases) (auto split: option.splits)

definition simple_escape :: "nat \<Rightarrow> nat option" where
  "simple_escape e = map_of [(34, 34), (92, 92), (47, 47), (98, 8), (102, 12), (110, 10), (114, 13), (116, 9)] e"

text \<open>The part of a string after its opening quote, up to and with the closing one.\<close>

function scan_string :: "ustr \<Rightarrow> (ustr \<times> ustr) option" where
  "scan_string s =
     (case s of
        [] \<Rightarrow> None
      | c # r \<Rightarrow>
          if c = 34 then Some ([], r)
          else if c = 92 then
            (case r of
               [] \<Rightarrow> None
             | e # r1 \<Rightarrow>
                 if e = 117 then
                   (case unhex4 r1 of
                      None \<Rightarrow> None
                    | Some (n, r2) \<Rightarrow>
                        if 55296 \<le> n \<and> n < 56320 \<and> take 2 r2 = [92, 117] then
                          (case unhex4 (drop 2 r2) of
                             None \<Rightarrow> None
                           | Some (m, r3) \<Rightarrow>
                               if 56320 \<le> m \<and> m < 57344
                               then map_option (\<lambda>(x, t). ((65536 + (n - 55296) * 1024 + (m - 56320)) # x, t)) (scan_string r3)
                               else map_option (\<lambda>(x, t). (n # x, t)) (scan_string r2))
                        else map_option (\<lambda>(x, t). (n # x, t)) (scan_string r2))
                 else (case simple_escape e of
                         None \<Rightarrow> None
                       | Some v \<Rightarrow> map_option (\<lambda>(x, t). (v # x, t)) (scan_string r1)))
          else if c < 32 then None
          else map_option (\<lambda>(x, t). (c # x, t)) (scan_string r))"
  by auto
termination
  by (relation "measure length") (auto dest!: unhex4_length)

declare scan_string.simps [simp del]

subsection \<open>Documents\<close>

datatype pyjson =
    PNull | PBool bool | PInt int | PFloat ustr | PStr ustr
  | PList "pyjson list" | PObj "(ustr \<times> pyjson) list"

definition is_digit :: "nat \<Rightarrow> bool" where
  "is_digit c \<longleftrightarrow> 48 \<le> c \<and> c \<le> 57"

definition skip_ws :: "ustr \<Rightarrow> ustr" where
  "skip_ws s = dropWhile (\<lambda>c. c \<in> {32, 9, 10, 13}) s"

definition digits_value :: "ustr \<Rightarrow> int" where
  "digits_value ds = fold (\<lambda>d v. 10 * v + int (d - 48)) ds 0"

text \<open>The integer part: a lone zero or a run of digits without a leading zero.\<close>

definition scan_int :: "ustr \<Rightarrow> (ustr \<times> ustr) option" where
  "scan_int s =
     (case s of
        c # r \<Rightarrow> if c = 48 then Some ([48], r)
                 else if is_digit c then Some (takeWhile is_digit s, dropWhile is_digit s) else None
      | [] \<Rightarrow> None)"

definition scan_frac :: "ustr \<Rightarrow> ustr \<times> ustr" where
  "scan_frac s =
     (case s of
        c # r \<Rightarrow> if c = 46 \<and> takeWhile is_digit r \<noteq> []
                 then (46 # takeWhile is_digit r, dropWhile is_digit r) else ([], s)
      | [] \<Rightarrow> ([], s))"

definition scan_exp :: "ustr \<Rightarrow> ustr \<times> ustr" where
  "scan_exp s =
     (case s of
        c # r \<Rightarrow>
          if c = 101 \<or> c = 69 then
            (let sign = (case r of d # _ \<Rightarrow> if d = 43 \<or> d = 45 then [d] else [] | [] \<Rightarrow> []);
                 r' = drop (length sign) r
             in if takeWhile is_digit r' \<noteq> []
                then (c # sign @ takeWhile is_digit r', dropWhile is_digit r') else ([], s))
          else ([], s)
      | [] \<Rightarrow> ([], s))"

definition scan_number :: "ustr \<Rightarrow> (pyjson \<times> ustr) option" where
  "scan_number s =
     (let neg = (take 1 s = [45]); s1 = (if neg then drop 1 s else s) in
      case scan_int s1 of
        None \<Rightarrow> None
      | Some (ds, r) \<Rightarrow>
          (case scan_frac r of (f, r1) \<Rightarrow>
           case scan_exp r1 of (e, r2) \<Rightarrow>
             Some (if f = [] \<and> e = [] then PInt (if neg then - digits_value ds else digits_value ds)
                   else PFloat ((if neg then [45] else []) @ ds @ f @ e), r2)))"

definition scan_word :: "ustr \<Rightarrow> pyjson \<Rightarrow> ustr \<Rightarrow> (pyjson \<times> ustr) option" where
  "scan_word w v s = (if prefix w s then Some (v, drop (length w) s) else None)"

definition scan_literal :: "ustr \<Rightarrow> (pyjson \<times> ustr) option" where
  "scan_literal s =
     (case scan_word (codes ''null'') PNull s of Some x \<Rightarrow> Some x | None \<Rightarrow>
      case scan_word (codes ''true'') (PBool True) s of Some x \<Rightarrow> Some x | None \<Rightarrow>
      case scan_word (codes ''false'') (PBool False) s of Some x \<Rightarrow> Some x | None \<Rightarrow>
      case scan_number s of Some x \<Rightarrow> Some x | None \<Rightarrow>
      case scan_word (codes ''NaN'') (PFloat (codes ''NaN'')) s of Some x \<Rightarrow> Some x | None \<Rightarrow>
      case scan_word (codes ''Infinity'') (PFloat (codes ''Infinity'')) s of Some x \<Rightarrow> Some x | None \<Rightarrow>
      scan_word (codes ''-Infinity'') (PFloat (codes ''-Infinity'')) s)"

text \<open>Later members of an object override earlier ones with the same key.\<close>

fun obj_set :: "(ustr \<times> pyjson) list \<Rightarrow> ustr \<Rightarrow> pyjson \<Rightarrow> (ustr \<times> pyjson) list" where
  "obj_set [] k v = [(k, v)]"
| "obj_set ((k', v') # d) k v = (if k' = k then (k, v) # d else (k', v') # obj_set d k v)"

definition expect :: "nat \<Rightarrow> ustr \<Rightarrow> ustr option" where
  "expect c s = (case s of [] \<Rightarrow> None | d # r \<Rightarrow> if d = c then Some r else None)"

fun scan_value :: "nat \<Rightarrow> ustr \<Rightarrow> (pyjson \<times> ustr) option"
and scan_members :: "nat \<Rightarrow> (ustr \<times> pyjson) list \<Rightarrow> ustr \<Rightarrow> (pyjson \<times> ustr) option"
and scan_elements :: "nat \<Rightarrow> pyjson list \<Rightarrow> ustr \<Rightarrow> (pyjson \<times> ustr) option" where
  "scan_value 0 s = None"
| "scan_value (Suc n) s =
     (case s of
        [] \<Rightarrow> None
      | c # r \<Rightarrow>
          if c = 34 then map_option (\<lambda>(x, t). (PStr x, t)) (scan_string r)
          else if c = 123 then
            (case expect 125 (skip_ws r) of
               Some t \<Rightarrow> Some (PObj [], t)
             | None \<Rightarrow> scan_members n [] (skip_ws r))
          else if c = 91 then
            (case expect 93 (skip_ws r) of
               Some t \<Rightarrow> Some (PList [], t)
             | None \<Rightarrow> scan_elements n [] (skip_ws r))
          else scan_literal s)"
| "scan_members 0 acc s = None"
| "scan_members (Suc n) acc s =
     (case expect 34 s of
        None \<Rightarrow> None
      | Some r \<Rightarrow>
          (case scan_string r of
             None \<Rightarrow> None
           | Some (k, t) \<Rightarrow>
               (case expect 58 (skip_ws t) of
                  None \<Rightarrow> None
                | Some t1 \<Rightarrow>
                    (case scan_value n (skip_ws t1) of
                       None \<Rightarrow> None
                     | Some (v, t2) \<Rightarrow>
                         (case expect 125 (skip_ws t2) of
                            Some t3 \<Rightarrow> Some (PObj (obj_set acc k v), t3)
                          | None \<Rightarrow>
                              (case expect 44 (skip_ws t2) of
                                 Some t3 \<Rightarrow> scan_members n (obj_set acc k v) (skip_ws t3)
                               | None \<Rightarrow> None))))))"
| "scan_elements 0 acc s = None"
| "scan_elements (Suc n) acc s =
     (case scan_value n s of
        None \<Rightarrow> None
      | Some (v, t) \<Rightarrow>
          (case expect 93 (skip_ws t) of
             Some t1 \<Rightarrow> Some (PList (acc @ [v]), t1)
           | None \<Rightarrow>
               (case expect 44 (skip_ws t) of
                  Some t1 \<Rightarrow> scan_elements n (acc @ [v]) (skip_ws t1)
                | None \<Rightarrow> None)))"

definition loads_doc :: "ustr \<Rightarrow> pyjson option" where
  "loads_doc s =
     (if take 1 s = [65279] then None
      else case scan_value (Suc (length s)) (skip_ws s) of
        Some (v, r) \<Rightarrow> if skip_ws r = [] then Some v else None
      | None \<Rightarrow> None)"

subsection \<open>Round trip of strings\<close>

lemma unhex_hex_code: "n < 16 \<Longrightarrow> unhex (hex_code n) = Some n"
  by (auto simp: unhex_def hex_code_def)

lemma hex_sum: "n = 16 * a + r \<Longrightarrow> a = 16 * b + s \<Longrightarrow> b = 16 * c + t \<Longrightarrow> c * 4096 + t * 256 + s * 16 + r = (n :: nat)"
  by simp

lemma hex_decomp:
  assumes "n < 65536"
  shows "n div 4096 mod 16 * 4096 + n div 256 mod 16 * 256 + n div 16 mod 16 * 16 + n mod 16 = (n :: nat)"
proof -
  have c: "n div 4096 mod 16 = n div 4096" using assms by simp
  have d: "n div 256 = n div 16 div 16" "n div 4096 = n div 16 div 16 div 16" by (simp_all add: div_mult2_eq [symmetric])
  show ?thesis unfolding c unfolding d
    by (rule hex_sum [of _ "n div 16" _ "n div 16 div 16"]) (simp_all only: mult_div_mod_eq)
qed

lemma unhex4_hex4: "n < 65536 \<Longrightarrow> unhex4 (hex4 n @ r) = Some (n, r)"
  using hex_decomp [of n] by (simp add: hex4_def unhex_hex_code)

lemma scan_plain_char:
  "32 \<le> c \<Longrightarrow> c \<noteq> 34 \<Longrightarrow> c \<noteq> 92 \<Longrightarrow> scan_string (c # r) = map_option (\<lambda>(x, t). (c # x, t)) (scan_string r)"
  by (subst scan_string.simps) simp

lemma scan_simple_escape:
  "simple_escape e = Some v \<Longrightarrow> scan_string (92 # e # r) = map_option (\<lambda>(x, t). (v # x, t)) (scan_string r)"
  by (subst scan_string.simps) (auto simp: simple_escape_def split: if_splits)

lemma scan_u_escape:
  assumes "n < 65536" "\<not> (55296 \<le> n \<and> n < 56320)"
  shows "scan_string (u_escape n @ r) = map_option (\<lambda>(x, t). (n # x, t)) (scan_string r)"
  using assms by (subst scan_string.simps) (auto simp: u_escape_def unhex4_hex4)

lemma scan_pair:
  assumes "55296 \<le> n" "n < 56320" "56320 \<le> m" "m < 57344"
  shows "scan_string (u_escape n @ u_escape m @ r) =
    map_option (\<lambda>(x, t). ((65536 + (n - 55296) * 1024 + (m - 56320)) # x, t)) (scan_string r)"
  using assms by (subst scan_string.simps) (simp add: u_escape_def unhex4_hex4)

lemma scan_escape_char:
  assumes "plain_char c"
  shows "scan_string (escape_char c @ r) = map_option (\<lambda>(x, t). (c # x, t)) (scan_string r)"
proof (cases "c < 65536")
  case True
  then show ?thesis
    using assms
    by (auto simp: escape_char_def scan_plain_char scan_simple_escape simple_escape_def scan_u_escape plain_char_def)
next
  case False
  let ?v = "c - 65536"
  have v: "?v < 1048576" using assms by (auto simp: plain_char_def)
  then have "?v div 1024 < 1024" "?v mod 1024 < 1024" by auto
  moreover have "65536 + ?v div 1024 * 1024 + ?v mod 1024 = c" using False by simp
  ultimately show ?thesis
    using False by (simp add: escape_char_def scan_pair)
qed

lemma scan_dumps:
  "list_all plain_char cs \<Longrightarrow> scan_string (concat (map escape_char cs) @ 34 # r) = Some (cs, r)"
proof (induction cs)
  case Nil
  show ?case by (subst scan_string.simps) simp
next
  case (Cons c cs)
  then show ?case by (simp add: scan_escape_char)
qed

end
