(* ===== verification/Redis.thy ===== *)
theory Redis
  imports PyJson
begin

text \<open>
  The documented behaviour of the Redis commands the service and its scripts issue, as operations on
  a key space with expiry times. A reply may be an error; a command issued over a broken link is
  either not executed or executed with its reply lost, and the client library raises
  \<open>RedisError\<close> in both cases. Counters are texts, as in Redis; a list without elements is no key.
  The clock is the server's, in milliseconds.
\<close>

subsection \<open>Decimal text\<close>

definition dec :: "int \<Rightarrow> ustr" where
  "dec n = codes (int_str n)"

text \<open>The integer a text denotes in the canonical form Redis accepts for counters.\<close>

definition text_int :: "ustr \<Rightarrow> int option" where
  "text_int w =
     (let v = (if take 1 w = [45] then - digits_value (drop 1 w) else digits_value w)
      in if w = dec v then Some v else None)"

subsection \<open>Key space\<close>

datatype rvalue = RStr ustr | RList "ustr list" | RZset "(ustr \<times> rat) list"

record rentry =
  rval :: rvalue
  rexpire :: "int option"

record redis =
  store :: "string \<rightharpoonup> rentry"
  clock :: int
  messages :: "(string \<times> ustr) list"
  lua_tostring :: "int \<Rightarrow> ustr"

datatype redis_error = Unreachable | WrongType | NotAnInteger | CounterOverflow | InvalidExpire

type_synonym 'a redis_op = "(redis, redis_error, 'a) op"

definition live :: "redis \<Rightarrow> string \<Rightarrow> rentry option" where
  "live s k =
     (case store s k of
        None \<Rightarrow> None
      | Some e \<Rightarrow> (case rexpire e of
                    None \<Rightarrow> Some e
                  | Some t \<Rightarrow> if clock s < t then Some e else None))"

definition rput :: "string \<Rightarrow> rentry \<Rightarrow> redis \<Rightarrow> redis" where
  "rput k e s = s\<lparr>store := (store s)(k \<mapsto> e)\<rparr>"

definition rdel :: "string \<Rightarrow> redis \<Rightarrow> redis" where
  "rdel k s = s\<lparr>store := (store s)(k := None)\<rparr>"

text \<open>A write that keeps the expiry time of an existing key.\<close>

definition rkeep :: "string \<Rightarrow> rvalue \<Rightarrow> redis \<Rightarrow> redis" where
  "rkeep k v s =
     rput k \<lparr>rval = v, rexpire = (case live s k of None \<Rightarrow> None | Some e \<Rightarrow> rexpire e)\<rparr> s"

subsection \<open>Commands\<close>

definition r_get :: "string \<Rightarrow> ustr option redis_op" where
  "r_get k s =
     (case live s k of
        None \<Rightarrow> (Inr None, s)
      | Some e \<Rightarrow> (case rval e of RStr w \<Rightarrow> (Inr (Some w), s) | _ \<Rightarrow> (Inl WrongType, s)))"

text \<open>\<open>SET k v NX PX ms\<close>, and \<open>SET k v PX ms\<close>.\<close>

definition r_set_nx :: "string \<Rightarrow> ustr \<Rightarrow> int \<Rightarrow> bool redis_op" where
  "r_set_nx k v ms s =
     (if ms \<le> 0 then (Inl InvalidExpire, s)
      else case live s k of
             Some _ \<Rightarrow> (Inr False, s)
           | None \<Rightarrow> (Inr True, rput k \<lparr>rval = RStr v, rexpire = Some (clock s + ms)\<rparr> s))"

definition r_set :: "string \<Rightarrow> ustr \<Rightarrow> int \<Rightarrow> unit redis_op" where
  "r_set k v ms s =
     (if ms \<le> 0 then (Inl InvalidExpire, s)
      else (Inr (), rput k \<lparr>rval = RStr v, rexpire = Some (clock s + ms)\<rparr> s))"

definition r_del :: "string \<Rightarrow> int redis_op" where
  "r_del k s = (Inr (if live s k = None then 0 else 1), rdel k s)"

definition r_exists :: "string \<Rightarrow> int redis_op" where
  "r_exists k s = (Inr (if live s k = None then 0 else 1), s)"

definition r_pexpire :: "string \<Rightarrow> int \<Rightarrow> int redis_op" where
  "r_pexpire k ms s =
     (case live s k of
        None \<Rightarrow> (Inr 0, s)
      | Some e \<Rightarrow> (Inr 1, if ms \<le> 0 then rdel k s else rput k (e\<lparr>rexpire := Some (clock s + ms)\<rparr>) s))"

definition r_expire :: "string \<Rightarrow> int \<Rightarrow> int redis_op" where
  "r_expire k secs = r_pexpire k (secs * 1000)"

definition r_incrby :: "string \<Rightarrow> int \<Rightarrow> int redis_op" where
  "r_incrby k d s =
     (case live s k of
        None \<Rightarrow> (Inr d, rkeep k (RStr (dec d)) s)
      | Some e \<Rightarrow>
          (case rval e of
             RStr w \<Rightarrow>
               (case text_int w of
                  None \<Rightarrow> (Inl NotAnInteger, s)
                | Some v \<Rightarrow>
                    if - (2 ^ 63) \<le> v + d \<and> v + d < 2 ^ 63
                    then (Inr (v + d), rkeep k (RStr (dec (v + d))) s)
                    else (Inl CounterOverflow, s))
           | _ \<Rightarrow> (Inl WrongType, s)))"

abbreviation r_incr :: "string \<Rightarrow> int redis_op" where
  "r_incr k \<equiv> r_incrby k 1"

definition list_at :: "redis \<Rightarrow> string \<Rightarrow> redis_error + ustr list" where
  "list_at s k =
     (case live s k of
        None \<Rightarrow> Inr []
      | Some e \<Rightarrow> (case rval e of RList xs \<Rightarrow> Inr xs | _ \<Rightarrow> Inl WrongType))"

definition r_rpush :: "string \<Rightarrow> ustr \<Rightarrow> int redis_op" where
  "r_rpush k x s =
     (case list_at s k of
        Inl e \<Rightarrow> (Inl e, s)
      | Inr xs \<Rightarrow> (Inr (int (length xs) + 1), rkeep k (RList (xs @ [x])) s))"

definition r_llen :: "string \<Rightarrow> int redis_op" where
  "r_llen k s = (case list_at s k of Inl e \<Rightarrow> (Inl e, s) | Inr xs \<Rightarrow> (Inr (int (length xs)), s))"

definition r_lpop :: "string \<Rightarrow> ustr option redis_op" where
  "r_lpop k s =
     (case list_at s k of
        Inl e \<Rightarrow> (Inl e, s)
      | Inr [] \<Rightarrow> (Inr None, s)
      | Inr (x # xs) \<Rightarrow> (Inr (Some x), if xs = [] then rdel k s else rkeep k (RList xs) s))"

definition r_lrange_all :: "string \<Rightarrow> ustr list redis_op" where
  "r_lrange_all k s = (case list_at s k of Inl e \<Rightarrow> (Inl e, s) | Inr xs \<Rightarrow> (Inr xs, s))"

definition r_publish :: "string \<Rightarrow> ustr \<Rightarrow> unit redis_op" where
  "r_publish c m = op_modify (\<lambda>s. s\<lparr>messages := messages s @ [(c, m)]\<rparr>)"

subsection \<open>Links\<close>

datatype link = Up | Refused | ReplyLost

definition via_link :: "link \<Rightarrow> 'a redis_op \<Rightarrow> 'a redis_op" where
  "via_link l m =
     (case l of
        Up \<Rightarrow> m
      | Refused \<Rightarrow> op_raise Unreachable
      | ReplyLost \<Rightarrow> (\<lambda>s. (Inl Unreachable, snd (m s))))"

text \<open>Time passes on the server.\<close>

definition tick :: "nat \<Rightarrow> redis \<Rightarrow> redis" where
  "tick ms s = s\<lparr>clock := clock s + int ms\<rparr>"

lemmas redis_cmd_defs = r_get_def r_set_nx_def r_set_def r_del_def r_exists_def r_pexpire_def
  r_expire_def r_incrby_def r_rpush_def r_llen_def r_lpop_def r_lrange_all_def r_publish_def list_at_def

subsection \<open>Facts about the key space\<close>

lemma live_rput [simp]:
  "live (rput k e s) k' =
   (if k' = k then (case rexpire e of None \<Rightarrow> Some e | Some t \<Rightarrow> if clock s < t then Some e else None)
    else live s k')"
  by (auto simp: live_def rput_def split: option.splits)

lemma live_rdel [simp]: "live (rdel k s) k' = (if k' = k then None else live s k')"
  by (auto simp: live_def rdel_def split: option.splits)

lemma live_expire: "live s k = Some e \<Longrightarrow> rexpire e = Some t \<Longrightarrow> clock s < t"
  by (auto simp: live_def split: option.splits if_splits)

lemma live_rkeep [simp]:
  "live (rkeep k v s) k' =
   (if k' = k then Some \<lparr>rval = v, rexpire = (case live s k of None \<Rightarrow> None | Some e \<Rightarrow> rexpire e)\<rparr>
    else live s k')"
  by (auto simp: rkeep_def dest: live_expire split: option.splits)

lemma redis_frame [simp]:
  "clock (rput k e s) = clock s" "messages (rput k e s) = messages s" "lua_tostring (rput k e s) = lua_tostring s"
  "clock (rdel k s) = clock s" "messages (rdel k s) = messages s" "lua_tostring (rdel k s) = lua_tostring s"
  "clock (rkeep k v s) = clock s" "messages (rkeep k v s) = messages s" "lua_tostring (rkeep k v s) = lua_tostring s"
  by (simp_all add: rput_def rdel_def rkeep_def)

lemma live_messages [simp]: "live (s\<lparr>messages := m\<rparr>) k = live s k"
  by (auto simp: live_def split: option.splits)

lemma tick_fields [simp]: "clock (tick ms s) = clock s + int ms" "lua_tostring (tick ms s) = lua_tostring s"
  by (simp_all add: tick_def)

lemma live_tick: "live (tick ms s) k =
   (case live s k of None \<Rightarrow> None
    | Some e \<Rightarrow> (case rexpire e of None \<Rightarrow> Some e | Some t \<Rightarrow> if clock s + int ms < t then Some e else None))"
  by (auto simp: live_def tick_def split: option.splits)

subsection \<open>Decimal texts denote their number\<close>

lemma codes_append [simp]: "codes (xs @ ys) = codes xs @ codes ys"
  by (simp add: codes_def)

lemma codes_inj: "codes xs = codes ys \<Longrightarrow> xs = ys"
  unfolding codes_def by (erule list.inj_map_strong [rotated]) simp

lemma digit_cases: "(n :: nat) mod 10 = 0 \<or> n mod 10 = 1 \<or> n mod 10 = 2 \<or> n mod 10 = 3 \<or> n mod 10 = 4 \<or>
    n mod 10 = 5 \<or> n mod 10 = 6 \<or> n mod 10 = 7 \<or> n mod 10 = 8 \<or> n mod 10 = 9"
  by presburger

lemma codes_digit [simp]: "codes [digit n] = [48 + n mod 10]"
  using digit_cases [of n] by (elim disjE) (simp_all add: digit_def codes_def)

lemma codes_Nil [simp]: "codes [] = []"
  by (simp add: codes_def)

lemma digits_value_Nil [simp]: "digits_value [] = 0"
  by (simp add: digits_value_def)

lemma digits_value_snoc [simp]: "digits_value (xs @ [d]) = 10 * digits_value xs + int (d - 48)"
  by (simp add: digits_value_def)

lemma digits_value_dec_pad [simp]: "digits_value (codes (dec_pad k n)) = int n"
proof (induction k n rule: dec_pad.induct)
  case (1 n)
  then show ?case by (subst dec_pad.simps) (auto simp flip: of_nat_mult of_nat_add, presburger+)
next
  case (2 k n)
  then show ?case by (simp, presburger)
qed

lemma is_digit_48 [simp]: "is_digit (48 + n mod 10)"
  by (simp add: is_digit_def)

lemma dec_pad_digits: "list_all is_digit (codes (dec_pad k n))"
proof (induction k n rule: dec_pad.induct)
  case (1 n)
  then show ?case by (subst dec_pad.simps) auto
next
  case (2 k n)
  then show ?case by auto
qed

lemma hd_dec_pad: "0 < n \<Longrightarrow> dec_pad 0 n \<noteq> [] \<and> hd (codes (dec_pad 0 n)) \<noteq> 48"
proof (induction n rule: less_induct)
  case (less n)
  show ?case
  proof (cases "n < 10")
    case True
    then have "dec_pad 0 n = [digit n]" using less.prems by (simp add: dec_pad.simps)
    moreover have "n mod 10 = n" using True by simp
    ultimately show ?thesis using less.prems by (simp only: codes_digit) simp
  next
    case False
    then have "dec_pad 0 (n div 10) \<noteq> [] \<and> hd (codes (dec_pad 0 (n div 10))) \<noteq> 48"
      by (intro less.IH) auto
    moreover have "dec_pad 0 n = dec_pad 0 (n div 10) @ [digit n]" using less.prems by (simp add: dec_pad.simps)
    ultimately show ?thesis by (simp add: codes_def hd_append)
  qed
qed

lemma dec_nonneg: "0 \<le> n \<Longrightarrow> dec n = codes (dec_pad 1 (nat n))"
  by (simp add: dec_def int_str_def nat_str_def)

lemma dec_digits: "0 \<le> n \<Longrightarrow> list_all is_digit (dec n)"
  by (simp only: dec_nonneg dec_pad_digits)

lemma digits_value_dec: "0 \<le> n \<Longrightarrow> digits_value (dec n) = n"
  by (simp only: dec_nonneg digits_value_dec_pad nat_0_le)

lemma dec_cases:
  assumes "0 \<le> n"
  shows "dec n = [48] \<or> (dec n \<noteq> [] \<and> hd (dec n) \<noteq> 48)"
proof -
  define m where "m = nat n"
  have d: "dec n = codes (dec_pad 0 (m div 10)) @ [48 + m mod 10]"
    by (simp only: dec_nonneg [OF assms] One_nat_def dec_pad.simps(2) codes_append codes_digit m_def)
  show ?thesis
  proof (cases "m < 10")
    case True
    then have "dec n = [48 + m]" by (subst d) (simp add: dec_pad.simps)
    then show ?thesis by auto
  next
    case False
    then have "dec_pad 0 (m div 10) \<noteq> [] \<and> hd (codes (dec_pad 0 (m div 10))) \<noteq> 48" by (intro hd_dec_pad) auto
    then show ?thesis by (simp add: d hd_append codes_def)
  qed
qed

lemma text_int_dec [simp]:
  assumes "0 \<le> n"
  shows "text_int (dec n) = Some n"
proof -
  have "take 1 (dec n) \<noteq> [45]" using dec_digits [OF assms] by (cases "dec n") (auto simp: is_digit_def)
  then show ?thesis using assms by (simp add: text_int_def digits_value_dec)
qed

end
