(* ===== verification/AgentTransport.thy ===== *)
theory AgentTransport
  imports Redis Database
begin

text \<open>
  The Redis transport of the agent-run events, \<^verbatim>\<open>src/app/agent_proxy/transport.py\<close>: the ring
  of recent events with its generation, counter and byte size, the live channel, and the lease of the
  one worker that reads a run. The two Lua scripts and the one that renews a lease are written out as
  sequences of commands. A command error inside a script leaves the effects before it.
\<close>

subsection \<open>Keys and settings\<close>

record bus_settings =
  agent_run_event_buffer_max :: int
  agent_run_event_buffer_max_bytes :: int
  agent_run_event_buffer_ttl_seconds :: int
  agent_run_consumer_lease_ttl_seconds :: int

definition bus_key :: "string \<Rightarrow> string \<Rightarrow> string" where
  "bus_key run_id sfx = ''agent:run:'' @ run_id @ '':'' @ sfx"

definition channel :: "string \<Rightarrow> string" where
  "channel run_id = bus_key run_id ''pub''"

subsection \<open>Elements of the ring\<close>

record ring_event =
  ev_epoch :: ustr
  ev_seq :: int
  ev_data :: bytes

definition encode_data :: "bytes \<Rightarrow> ustr" where
  "encode_data raw = dumps_str (utf8_decode raw)"

text \<open>\<open>None\<close> is \<open>UnicodeEncodeError\<close>, raised for a lone surrogate outside the escape range.\<close>

definition decode_data :: "ustr \<Rightarrow> bytes option" where
  "decode_data value = utf8_encode value"

definition ring_element :: "(int \<Rightarrow> ustr) \<Rightarrow> ustr \<Rightarrow> int \<Rightarrow> ustr \<Rightarrow> ustr" where
  \<open>ring_element tostring epoch seq data_json =
     codes ''{"epoch":"'' @ epoch @ codes ''","seq":'' @ tostring seq @ codes '',"data":'' @ data_json @ codes ''}''\<close>

definition payload_get :: "(ustr \<times> pyjson) list \<Rightarrow> string \<Rightarrow> pyjson" where
  "payload_get d k = (case map_of d (codes k) of None \<Rightarrow> PNull | Some v \<Rightarrow> v)"

text \<open>\<open>isinstance(seq, int)\<close> holds of the booleans too.\<close>

definition py_int :: "pyjson \<Rightarrow> int option" where
  "py_int v = (case v of PInt i \<Rightarrow> Some i | PBool b \<Rightarrow> Some (if b then 1 else 0) | _ \<Rightarrow> None)"

definition parse_element :: "ustr \<Rightarrow> exn + ring_event option" where
  "parse_element item =
     (case loads_doc item of
        Some (PObj d) \<Rightarrow>
          (case (payload_get d ''epoch'', py_int (payload_get d ''seq''), payload_get d ''data'') of
             (PStr epoch, Some seq, PStr data) \<Rightarrow>
               (case decode_data data of
                  None \<Rightarrow> Inl (PyError ''UnicodeEncodeError'')
                | Some bs \<Rightarrow> Inr (Some \<lparr>ev_epoch = epoch, ev_seq = seq, ev_data = bs\<rparr>))
           | _ \<Rightarrow> Inr None)
      | _ \<Rightarrow> Inr None)"

subsection \<open>Scripts\<close>

definition ring_length :: "redis \<Rightarrow> string \<Rightarrow> nat" where
  "ring_length s k = (case list_at s k of Inl _ \<Rightarrow> 0 | Inr xs \<Rightarrow> length xs)"

lemma r_llen_state: "r_llen k s = (r, t) \<Longrightarrow> t = s"
  by (auto simp: r_llen_def split: sum.splits)

lemma r_lpop_shrinks: "r_lpop k s = (Inr (Some x), t) \<Longrightarrow> ring_length t k < ring_length s k"
  by (auto simp: r_lpop_def ring_length_def list_at_def split: sum.splits list.splits if_splits option.splits rvalue.splits)

lemma r_incrby_ring_length: "r_incrby k' d s = (r, t) \<Longrightarrow> ring_length t k \<le> ring_length s k"
  by (auto simp: r_incrby_def ring_length_def list_at_def split: sum.splits if_splits option.splits rvalue.splits)

lemma trim_decreases:
  assumes "(x, s1) = r_llen ek s" "(Inr (Some d), s2) = r_lpop ek s1" "(y, s3) = r_incrby bk n s2"
  shows "ring_length s3 ek < ring_length s ek"
  using assms r_llen_state [of ek s x s1] r_lpop_shrinks [of ek s1 d s2] r_incrby_ring_length [of bk n s2 y s3 ek]
  by simp

text \<open>
  The loops that drop elements from the head while a condition on the byte total and the length
  holds; the counter follows every drop.
\<close>

function trim_while :: "string \<Rightarrow> string \<Rightarrow> (int \<Rightarrow> int \<Rightarrow> bool) \<Rightarrow> int \<Rightarrow> redis \<Rightarrow> (redis_error + int) \<times> redis" where
  "trim_while events_key bytes_key cond tot s =
     (case r_llen events_key s of
        (Inl e, s1) \<Rightarrow> (Inl e, s1)
      | (Inr n, s1) \<Rightarrow>
          if cond tot n then
            (case r_lpop events_key s1 of
               (Inl e, s2) \<Rightarrow> (Inl e, s2)
             | (Inr None, s2) \<Rightarrow> (Inr tot, s2)
             | (Inr (Some dropped), s2) \<Rightarrow>
                 (case r_incrby bytes_key (- int (length dropped)) s2 of
                    (Inl e, s3) \<Rightarrow> (Inl e, s3)
                  | (Inr tot', s3) \<Rightarrow> trim_while events_key bytes_key cond tot' s3))
          else (Inr tot, s1))"
  by pat_completeness auto

termination
  by (relation "measure (\<lambda>(ek, bk, cond, tot, s). ring_length s ek)") (auto intro: trim_decreases)

declare trim_while.simps [simp del]

definition publish_script :: "string \<Rightarrow> string \<Rightarrow> string \<Rightarrow> string \<Rightarrow> string \<Rightarrow> ustr \<Rightarrow> ustr \<Rightarrow> int \<Rightarrow> int \<Rightarrow> int \<Rightarrow> int redis_op" where
  "publish_script events_key seq_key epoch_key bytes_key pub_key epoch data_json max_events max_bytes ttl =
     op_bind (r_incr seq_key) (\<lambda>seq.
     op_bind (op_read (\<lambda>s. ring_element (lua_tostring s) epoch seq data_json)) (\<lambda>element.
     op_bind (r_rpush events_key element) (\<lambda>_.
     op_bind (r_incrby bytes_key (int (length element))) (\<lambda>tot.
     op_bind (trim_while events_key bytes_key (\<lambda>_ n. n > max_events) tot) (\<lambda>tot.
     op_bind (trim_while events_key bytes_key (\<lambda>tot n. tot > max_bytes \<and> n > 1) tot) (\<lambda>_.
     op_bind (r_expire events_key ttl) (\<lambda>_.
     op_bind (r_expire seq_key ttl) (\<lambda>_.
     op_bind (r_expire bytes_key ttl) (\<lambda>_.
     op_bind (r_exists epoch_key) (\<lambda>n.
     op_bind (if n = 1 then r_expire epoch_key ttl else op_return 0) (\<lambda>_.
     op_bind (r_publish pub_key element) (\<lambda>_. op_return seq))))))))))))"

definition release_lease_script :: "string \<Rightarrow> ustr \<Rightarrow> int redis_op" where
  "release_lease_script key owner =
     op_bind (r_get key) (\<lambda>current. if current = Some owner then r_del key else op_return 0)"

definition renew_lease_script :: "string \<Rightarrow> ustr \<Rightarrow> int \<Rightarrow> int redis_op" where
  "renew_lease_script key owner px =
     op_bind (r_get key) (\<lambda>current.
       if current = Some owner then op_bind (r_pexpire key px) (\<lambda>_. op_return 1)
       else if current = None then op_bind (r_set key owner px) (\<lambda>_. op_return 2)
       else op_return 0)"

subsection \<open>The event bus\<close>

datatype lease_acquisition = ACQUIRED | HELD_ELSEWHERE | ACQUIRE_UNKNOWN
datatype lease_renewal = RENEWED | REACQUIRED | LOST | RENEW_UNKNOWN

text \<open>
  \<open>ensure_epoch\<close> issues two commands, each over its own link. The \<open>uuid4().hex\<close> is an
  argument.
\<close>

definition ensure_epoch :: "bus_settings \<Rightarrow> link \<Rightarrow> link \<Rightarrow> ustr \<Rightarrow> string \<Rightarrow> redis \<Rightarrow> ustr option \<times> redis" where
  "ensure_epoch cfg l1 l2 fresh run_id s =
     (let key = bus_key run_id ''epoch'' in
      case op_bind (via_link l1 (r_set_nx key fresh (agent_run_event_buffer_ttl_seconds cfg * 1000)))
             (\<lambda>_. via_link l2 (r_get key)) s of
        (Inl _, s') \<Rightarrow> (None, s')
      | (Inr value, s') \<Rightarrow> (value, s'))"

definition current_epoch :: "link \<Rightarrow> string \<Rightarrow> redis \<Rightarrow> ustr option" where
  "current_epoch l run_id s =
     (case fst (via_link l (r_get (bus_key run_id ''epoch'')) s) of Inl _ \<Rightarrow> None | Inr value \<Rightarrow> value)"

definition publish :: "bus_settings \<Rightarrow> link \<Rightarrow> string \<Rightarrow> ustr \<Rightarrow> bytes \<Rightarrow> redis \<Rightarrow> int option \<times> redis" where
  "publish cfg l run_id epoch raw s =
     (case via_link l
             (publish_script (bus_key run_id ''events'') (bus_key run_id ''seq'') (bus_key run_id ''epoch'')
                (bus_key run_id ''bytes'') (channel run_id) epoch (encode_data raw)
                (agent_run_event_buffer_max cfg) (agent_run_event_buffer_max_bytes cfg)
                (agent_run_event_buffer_ttl_seconds cfg)) s of
        (Inl _, s') \<Rightarrow> (None, s')
      | (Inr seq, s') \<Rightarrow> (Some seq, s'))"

text \<open>\<open>int(value)\<close> raises \<open>ValueError\<close> on a text that is no number; the counter key only holds what \<open>INCR\<close> wrote.\<close>

definition current_seq :: "link \<Rightarrow> string \<Rightarrow> redis \<Rightarrow> exn + int" where
  "current_seq l run_id s =
     (case fst (via_link l (r_get (bus_key run_id ''seq'')) s) of
        Inl _ \<Rightarrow> Inr 0
      | Inr None \<Rightarrow> Inr 0
      | Inr (Some w) \<Rightarrow> (case text_int w of Some n \<Rightarrow> Inr n | None \<Rightarrow> Inl (PyError ''ValueError'')))"

fun parse_elements :: "ustr list \<Rightarrow> exn + ring_event list" where
  "parse_elements [] = Inr []"
| "parse_elements (x # xs) =
     (case parse_element x of
        Inl e \<Rightarrow> Inl e
      | Inr None \<Rightarrow> parse_elements xs
      | Inr (Some ev) \<Rightarrow> (case parse_elements xs of Inl e \<Rightarrow> Inl e | Inr evs \<Rightarrow> Inr (ev # evs)))"

definition replay :: "link \<Rightarrow> string \<Rightarrow> redis \<Rightarrow> exn + ring_event list" where
  "replay l run_id s =
     (case fst (via_link l (r_lrange_all (bus_key run_id ''events'')) s) of
        Inl _ \<Rightarrow> Inr []
      | Inr items \<Rightarrow> parse_elements items)"

definition acquire_lease :: "bus_settings \<Rightarrow> link \<Rightarrow> string \<Rightarrow> ustr \<Rightarrow> redis \<Rightarrow> lease_acquisition \<times> redis" where
  "acquire_lease cfg l run_id owner s =
     (case via_link l (r_set_nx (bus_key run_id ''lease'') owner (agent_run_consumer_lease_ttl_seconds cfg * 1000)) s of
        (Inl _, s') \<Rightarrow> (ACQUIRE_UNKNOWN, s')
      | (Inr taken, s') \<Rightarrow> (if taken then ACQUIRED else HELD_ELSEWHERE, s'))"

definition renewal_by_code :: "int \<Rightarrow> lease_renewal" where
  "renewal_by_code n = (if n = 1 then RENEWED else if n = 2 then REACQUIRED else LOST)"

definition renew_lease :: "bus_settings \<Rightarrow> link \<Rightarrow> string \<Rightarrow> ustr \<Rightarrow> redis \<Rightarrow> lease_renewal \<times> redis" where
  "renew_lease cfg l run_id owner s =
     (case via_link l (renew_lease_script (bus_key run_id ''lease'') owner (agent_run_consumer_lease_ttl_seconds cfg * 1000)) s of
        (Inl _, s') \<Rightarrow> (RENEW_UNKNOWN, s')
      | (Inr code, s') \<Rightarrow> (renewal_by_code code, s'))"

definition release_lease :: "link \<Rightarrow> string \<Rightarrow> ustr \<Rightarrow> redis \<Rightarrow> redis" where
  "release_lease l run_id owner s = snd (via_link l (release_lease_script (bus_key run_id ''lease'') owner) s)"

definition lease_alive :: "link \<Rightarrow> string \<Rightarrow> redis \<Rightarrow> bool option" where
  "lease_alive l run_id s =
     (case fst (via_link l (r_exists (bus_key run_id ''lease'')) s) of Inl _ \<Rightarrow> None | Inr held \<Rightarrow> Some (held = 1))"

text \<open>\<open>uptime_in_seconds\<close> of the \<open>INFO\<close> answer, an integer or a text of decimal digits.\<close>

definition uptime_seconds :: "link \<Rightarrow> (int + string) option \<Rightarrow> int option" where
  "uptime_seconds l info =
     (if l \<noteq> Up then None
      else case info of
        None \<Rightarrow> None
      | Some (Inl n) \<Rightarrow> if 0 \<le> n then Some n else None
      | Some (Inr w) \<Rightarrow> if w \<noteq> [] \<and> list_all is_digit (codes w) then Some (digits_value (codes w)) else None)"

end
