(* ===== verification/AgentBroker.thy ===== *)
theory AgentBroker
  imports AgentTransport AgentRuns
begin

text \<open>
  The client stream of a run, \<^verbatim>\<open>src/app/agent_proxy/broker.py\<close>: the reconnect cursor, the
  replay of the ring, the classification of the live channel, the close rules and the hand-over to the
  client. A block in the queue is an event of the run or the synthetic \<open>run.truncated\<close> marker;
  \<open>block_bytes\<close> is what goes over the wire. Between two awaits of the reader the client may have
  taken any number of blocks; what the reader observes at each await (times, messages, answers) is an
  input of the model. Generation ids are ASCII, so encoding one is the identity.
\<close>

subsection \<open>Cursors\<close>

record cursor =
  cur_seq :: int
  cur_epoch :: "ustr option"

definition empty_cursor :: cursor where
  "empty_cursor = \<lparr>cur_seq = 0, cur_epoch = None\<rparr>"

definition cursor_is_empty :: "cursor \<Rightarrow> bool" where
  "cursor_is_empty c \<longleftrightarrow> cur_seq c \<le> 0"

text \<open>\<open>s.rpartition("-")\<close> without the separator.\<close>

definition rpartition :: "ustr \<Rightarrow> ustr \<times> ustr" where
  "rpartition s =
     (if 45 \<in> set s
      then (rev (drop 1 (dropWhile (\<lambda>c. c \<noteq> 45) (rev s))), rev (takeWhile (\<lambda>c. c \<noteq> 45) (rev s)))
      else ([], s))"

text \<open>
  \<open>str.isdigit\<close> on Latin-1 text: the decimal digits and the three superscripts. \<open>int(s)\<close>
  accepts only the decimal digits, and at most 4300 of them.
\<close>

definition isdigit :: "ustr \<Rightarrow> bool" where
  "isdigit s \<longleftrightarrow> s \<noteq> [] \<and> list_all (\<lambda>c. is_digit c \<or> c \<in> {178, 179, 185}) s"

definition int_of_text :: "ustr \<Rightarrow> exn + int" where
  "int_of_text s =
     (if list_all is_digit s \<and> length s \<le> 4300 then Inr (digits_value s) else Inl (PyError ''ValueError''))"

definition after_seq_cursor :: "ustr option \<Rightarrow> exn + cursor" where
  "after_seq_cursor after_seq =
     (case after_seq of
        None \<Rightarrow> Inr empty_cursor
      | Some w \<Rightarrow>
          if \<not> isdigit w then Inl (App (error BadRequestError ''afterSeq must be a non-negative integer''))
          else (case int_of_text w of Inl e \<Rightarrow> Inl e | Inr n \<Rightarrow> Inr \<lparr>cur_seq = n, cur_epoch = None\<rparr>))"

definition header_cursor :: "ustr \<Rightarrow> exn + cursor" where
  "header_cursor h =
     (case rpartition h of (epoch, raw_seq) \<Rightarrow>
        if epoch \<noteq> [] \<and> isdigit raw_seq
        then (case int_of_text raw_seq of Inl e \<Rightarrow> Inl e | Inr n \<Rightarrow> Inr \<lparr>cur_seq = n, cur_epoch = Some epoch\<rparr>)
        else Inr empty_cursor)"

definition parse_cursor :: "ustr option \<Rightarrow> ustr option \<Rightarrow> exn + cursor" where
  "parse_cursor last_event_id after_seq =
     (case last_event_id of
        Some h \<Rightarrow> if h \<noteq> [] then header_cursor h else after_seq_cursor after_seq
      | None \<Rightarrow> after_seq_cursor after_seq)"

subsection \<open>Blocks\<close>

datatype out_block =
    EventBlock ustr int bytes
  | Marker ustr int int

definition block_id :: "ustr \<Rightarrow> int \<Rightarrow> ustr" where
  "block_id epoch seq = epoch @ [45] @ dec seq"

definition sse_block :: "ustr \<Rightarrow> int \<Rightarrow> bytes \<Rightarrow> bytes" where
  "sse_block epoch seq data = codes ''id: '' @ block_id epoch seq @ [10] @ data"

definition EVENT_RUN_TRUNCATED :: string where
  "EVENT_RUN_TRUNCATED = ''run.truncated''"

definition truncation_marker :: "ustr \<Rightarrow> int \<Rightarrow> string \<Rightarrow> int \<Rightarrow> bytes" where
  \<open>truncation_marker epoch seq run_id from_seq =
     sse_block epoch seq
       (codes ''data: {"event": '' @ dumps_str (codes EVENT_RUN_TRUNCATED) @ codes '', "run_id": '' @ dumps_str (codes run_id) @
        codes '', "from_seq": '' @ dec from_seq @ codes '', "reason": '' @ dumps_str (codes ''buffer_trimmed'') @ codes ''}'' @ [10, 10])\<close>

fun block_bytes :: "string \<Rightarrow> out_block \<Rightarrow> bytes" where
  "block_bytes run_id (EventBlock epoch seq data) = sse_block epoch seq data"
| "block_bytes run_id (Marker epoch seq from_seq) = truncation_marker epoch seq run_id from_seq"

fun find_sub :: "'a list \<Rightarrow> 'a list \<Rightarrow> 'a list option" where
  "find_sub p [] = (if p = [] then Some [] else None)"
| "find_sub p (x # xs) = (if prefix p (x # xs) then Some (x # xs) else find_sub p xs)"

definition TERMINAL_EVENTS :: "string list" where
  "TERMINAL_EVENTS = [''run.completed'', ''run.failed'', ''run.paused'']"

text \<open>
  \<open>json.loads\<close> of bytes decodes them as UTF-8. Looking up an unhashable value in a
  \<open>frozenset\<close> raises \<open>TypeError\<close>.
\<close>

definition is_terminal_block :: "bytes \<Rightarrow> exn + bool" where
  "is_terminal_block block =
     (case find_sub (codes ''data: '') block of
        None \<Rightarrow> Inr False
      | Some rest \<Rightarrow>
          (let text = utf8_decode (drop 6 rest) in
           if list_ex (\<lambda>c. 56320 \<le> c \<and> c < 57344) text then Inr False
           else case loads_doc text of
             Some (PObj d) \<Rightarrow>
               (case payload_get d ''event'' of
                  PStr e \<Rightarrow> Inr (e \<in> set (map codes TERMINAL_EVENTS))
                | PList _ \<Rightarrow> Inl (PyError ''TypeError'')
                | PObj _ \<Rightarrow> Inl (PyError ''TypeError'')
                | _ \<Rightarrow> Inr False)
           | _ \<Rightarrow> Inr False))"

subsection \<open>Opening a stream\<close>

record broker_settings =
  agent_run_subscriber_queue_max :: nat
  agent_run_subscriber_drain_seconds :: rat
  agent_run_subscriber_probe_seconds :: rat
  agent_run_downstream_idle_timeout_seconds :: rat
  agent_run_consumer_lease_renew_seconds :: rat

record cursor_verdict =
  filter_seq :: int
  announce_gap :: bool

definition cursor_verdict_of :: "cursor \<Rightarrow> ustr option \<Rightarrow> int \<Rightarrow> cursor_verdict" where
  "cursor_verdict_of c epoch current =
     (if cursor_is_empty c then \<lparr>filter_seq = 0, announce_gap = False\<rparr>
      else if cur_seq c > current then \<lparr>filter_seq = 0, announce_gap = True\<rparr>
      else if epoch = None \<or> (cur_epoch c \<noteq> None \<and> cur_epoch c \<noteq> epoch) then \<lparr>filter_seq = 0, announce_gap = True\<rparr>
      else if cur_epoch c = None then \<lparr>filter_seq = cur_seq c, announce_gap = True\<rparr>
      else \<lparr>filter_seq = cur_seq c, announce_gap = False\<rparr>)"

record broker_replay =
  rp_blocks :: "out_block list"
  rp_first_seq :: int
  rp_min_seq :: int
  rp_max_seq :: int

text \<open>\<open>event.epoch or generation\<close>.\<close>

definition epoch_or :: "ustr \<Rightarrow> ustr \<Rightarrow> ustr" where
  "epoch_or e g = (if e \<noteq> [] then e else g)"

definition replay_blocks :: "ring_event list \<Rightarrow> int \<Rightarrow> ustr \<Rightarrow> bool \<Rightarrow> broker_replay" where
  "replay_blocks ring fs generation gap_announced =
     (let pending = filter (\<lambda>e. ev_seq e > fs) ring in
      case pending of
        [] \<Rightarrow> \<lparr>rp_blocks = [], rp_first_seq = 0, rp_min_seq = 0, rp_max_seq = 0\<rparr>
      | e0 # _ \<Rightarrow>
          \<lparr>rp_blocks =
             (if ev_seq e0 > fs + 1 \<and> \<not> gap_announced
              then [Marker (epoch_or (ev_epoch e0) generation) (max fs 0) (ev_seq e0)] else []) @
             map (\<lambda>e. EventBlock (epoch_or (ev_epoch e) generation) (ev_seq e) (ev_data e)) pending,
           rp_first_seq = ev_seq e0, rp_min_seq = Min (set (map ev_seq pending)), rp_max_seq = Max (set (map ev_seq pending))\<rparr>)"

subsection \<open>Session state\<close>

text \<open>
  The reader's variables, the queue, and all blocks queued so far (\<open>sent\<close>), which the code does
  not keep.
\<close>

record reader =
  generation :: ustr
  delivered :: int
  replay_min_seq :: int
  rd_filter_seq :: int
  pending_gap :: bool
  arrived :: int
  hole_announced :: bool
  last_event_at :: rat
  queue :: "out_block list"
  sent :: "out_block list"

datatype ending = NormalEnd | AbnormalEnd | Raised exn

definition queue_drain :: "nat \<Rightarrow> reader \<Rightarrow> reader" where
  "queue_drain n r = r\<lparr>queue := drop n (queue r)\<rparr>"

definition enqueue :: "out_block \<Rightarrow> reader \<Rightarrow> reader" where
  "enqueue b r = r\<lparr>queue := queue r @ [b], sent := sent r @ [b]\<rparr>"

subsection \<open>Replay discipline\<close>

text \<open>
  The loops poll the queue: an observation is the time read and the number of blocks the client takes
  while the reader sleeps. \<open>None\<close>: the observations end while the reader is still waiting.
\<close>

fun wait_room :: "nat \<Rightarrow> rat \<Rightarrow> (rat \<times> nat) list \<Rightarrow> reader \<Rightarrow> (bool \<times> reader) option" where
  "wait_room cap deadline [] r = (if length (queue r) < cap then Some (True, r) else None)"
| "wait_room cap deadline ((now, taken) # obs) r =
     (if length (queue r) < cap then Some (True, r)
      else if now \<ge> deadline then Some (False, r)
      else wait_room cap deadline obs (queue_drain taken r))"

definition put_due_replay :: "broker_settings \<Rightarrow> rat \<times> (rat \<times> nat) list \<Rightarrow> out_block \<Rightarrow> reader \<Rightarrow> (bool \<times> reader) option" where
  "put_due_replay cfg ob b r =
     (case wait_room (agent_run_subscriber_queue_max cfg) (fst ob + agent_run_subscriber_drain_seconds cfg) (snd ob) r of
        None \<Rightarrow> None
      | Some (False, r') \<Rightarrow> Some (False, r')
      | Some (True, r') \<Rightarrow> Some (True, enqueue b r'))"

fun put_all_replay :: "string \<Rightarrow> broker_settings \<Rightarrow> (rat \<times> (rat \<times> nat) list) list \<Rightarrow> out_block list \<Rightarrow> bool \<Rightarrow> reader \<Rightarrow>
    ((exn + bool \<times> bool) \<times> reader) option" where
  "put_all_replay run_id cfg obs [] term r = Some (Inr (True, term), r)"
| "put_all_replay run_id cfg [] (b # bs) term r = None"
| "put_all_replay run_id cfg (ob # obs) (b # bs) term r =
     (case put_due_replay cfg ob b r of
        None \<Rightarrow> None
      | Some (False, r') \<Rightarrow> Some (Inr (False, term), r')
      | Some (True, r') \<Rightarrow>
          if term then put_all_replay run_id cfg obs bs True r'
          else (case is_terminal_block (block_bytes run_id b) of
                  Inl e \<Rightarrow> Some (Inl e, r')
                | Inr x \<Rightarrow> put_all_replay run_id cfg obs bs x r'))"

fun await_half :: "nat \<Rightarrow> rat \<Rightarrow> rat \<Rightarrow> nat \<Rightarrow> (rat \<times> nat) list \<Rightarrow> reader \<Rightarrow> (bool \<times> reader) option" where
  "await_half half budget deadline queued [] r = (if length (queue r) \<le> half then Some (True, r) else None)"
| "await_half half budget deadline queued ((now, taken) # obs) r =
     (if length (queue r) \<le> half then Some (True, r)
      else if length (queue r) < queued then await_half half budget (now + budget) (length (queue r)) obs (queue_drain taken r)
      else if now \<ge> deadline then Some (False, r)
      else await_half half budget deadline queued obs (queue_drain taken r))"

definition await_live_phase :: "broker_settings \<Rightarrow> rat \<times> (rat \<times> nat) list \<Rightarrow> reader \<Rightarrow> (bool \<times> reader) option" where
  "await_live_phase cfg ob r =
     await_half (agent_run_subscriber_queue_max cfg div 2) (agent_run_subscriber_drain_seconds cfg)
       (fst ob + agent_run_subscriber_drain_seconds cfg) (length (queue r)) (snd ob) r"

subsection \<open>Live discipline\<close>

definition offer_live :: "broker_settings \<Rightarrow> out_block \<Rightarrow> reader \<Rightarrow> reader option" where
  "offer_live cfg b r = (if length (queue r) \<ge> agent_run_subscriber_queue_max cfg then None else Some (enqueue b r))"

text \<open>
  The branches of the classification: the new state, whether the event is delivered, and the marker the
  branch announces.
\<close>

definition classify :: "ring_event \<Rightarrow> reader \<Rightarrow> reader \<times> bool \<times> out_block option" where
  "classify e r =
     (if generation r = [] then
        (r\<lparr>generation := ev_epoch e, pending_gap := False\<rparr>, True,
         if pending_gap r then Some (Marker (ev_epoch e) 0 0) else None)
      else if ev_epoch e \<noteq> generation r then
        (r\<lparr>generation := ev_epoch e, delivered := 0, replay_min_seq := 0\<rparr>, True, Some (Marker (ev_epoch e) 0 (ev_seq e)))
      else if ev_seq e \<le> arrived r then
        (r\<lparr>delivered := 0, replay_min_seq := 0\<rparr>, True, Some (Marker (ev_epoch e) 0 (ev_seq e)))
      else if ev_seq e > delivered r then
        (r, True, if delivered r > 0 \<and> ev_seq e > delivered r + 1 then Some (Marker (ev_epoch e) 0 (ev_seq e)) else None)
      else if ev_seq e < replay_min_seq r then
        (r\<lparr>hole_announced := True\<rparr>, True,
         if hole_announced r then None else Some (Marker (ev_epoch e) 0 (ev_seq e)))
      else (r, False, None))"

definition offer_opt :: "broker_settings \<Rightarrow> out_block option \<Rightarrow> reader \<Rightarrow> reader option" where
  "offer_opt cfg m r = (case m of None \<Rightarrow> Some r | Some b \<Rightarrow> offer_live cfg b r)"

text \<open>The shared delivery: the check for a first delivery past the beginning, then the event.\<close>

definition deliver_event :: "string \<Rightarrow> broker_settings \<Rightarrow> rat \<Rightarrow> ring_event \<Rightarrow> bool \<Rightarrow> reader \<Rightarrow> ending option \<times> reader" where
  "deliver_event run_id cfg now e announced r =
     (case offer_opt cfg (if delivered r = 0 \<and> \<not> announced \<and> ev_seq e > rd_filter_seq r + 1
                          then Some (Marker (ev_epoch e) 0 (ev_seq e)) else None) r of
        None \<Rightarrow> (Some AbnormalEnd, r)
      | Some r1 \<Rightarrow>
          (let r2 = r1\<lparr>delivered := max (delivered r1) (ev_seq e), last_event_at := now\<rparr>;
               b = EventBlock (ev_epoch e) (ev_seq e) (ev_data e)
           in case offer_live cfg b r2 of
                None \<Rightarrow> (Some AbnormalEnd, r2)
              | Some r3 \<Rightarrow>
                  (case is_terminal_block (block_bytes run_id b) of
                     Inl x \<Rightarrow> (Some (Raised x), r3)
                   | Inr True \<Rightarrow> (Some NormalEnd, r3)
                   | Inr False \<Rightarrow> (None, r3))))"

text \<open>One event: how the session ended if it did, whether the event was delivered, and the state.\<close>

definition on_event :: "string \<Rightarrow> broker_settings \<Rightarrow> rat \<Rightarrow> ring_event \<Rightarrow> reader \<Rightarrow> ending option \<times> bool \<times> reader" where
  "on_event run_id cfg now e r =
     (case classify e r of (r1, deliver, m) \<Rightarrow>
      case offer_opt cfg m r1 of
        None \<Rightarrow> (Some AbnormalEnd, False, r1)
      | Some r2 \<Rightarrow>
          (let r3 = r2\<lparr>arrived := ev_seq e\<rparr> in
           if deliver then (case deliver_event run_id cfg now e (m \<noteq> None) r3 of (x, r4) \<Rightarrow> (x, True, r4))
           else (None, False, r3)))"

datatype epoch_read = ReadTimeout | EpochRead "ustr option"

definition regenerate :: "broker_settings \<Rightarrow> epoch_read \<Rightarrow> reader \<Rightarrow> ending option \<times> reader" where
  "regenerate cfg fresh r =
     (case fresh of
        ReadTimeout \<Rightarrow> (Some AbnormalEnd, r)
      | EpochRead None \<Rightarrow> (None, r)
      | EpochRead (Some f) \<Rightarrow>
          if generation r = [] then
            (case offer_opt cfg (if pending_gap r then Some (Marker f 0 0) else None) (r\<lparr>generation := f, pending_gap := False\<rparr>) of
               None \<Rightarrow> (Some AbnormalEnd, r)
             | Some r1 \<Rightarrow> (None, r1))
          else if f \<noteq> generation r then
            (case offer_live cfg (Marker f 0 0) (r\<lparr>generation := f, delivered := 0, arrived := 0, replay_min_seq := 0\<rparr>) of
               None \<Rightarrow> (Some AbnormalEnd, r)
             | Some r1 \<Rightarrow> (None, r1))
          else (None, r))"

datatype channel_read = Message ustr | NoMessage | ChannelBroken

record live_input =
  li_now :: rat
  li_taken :: nat
  li_read :: channel_read
  li_fresh :: epoch_read

definition on_message :: "string \<Rightarrow> broker_settings \<Rightarrow> rat \<Rightarrow> channel_read \<Rightarrow> reader \<Rightarrow> ending option \<times> bool \<times> reader" where
  "on_message run_id cfg now msg r =
     (case msg of
        NoMessage \<Rightarrow> (None, False, r)
      | ChannelBroken \<Rightarrow> (Some NormalEnd, False, r)
      | Message item \<Rightarrow>
          (case parse_element item of
             Inl x \<Rightarrow> (Some (Raised x), False, r)
           | Inr None \<Rightarrow> (None, False, r)
           | Inr (Some e) \<Rightarrow> on_event run_id cfg now e r))"

text \<open>One round of the loop; the generation is read again on a cadence, unless an event was just delivered.\<close>

definition live_round :: "string \<Rightarrow> broker_settings \<Rightarrow> live_input \<Rightarrow> rat \<times> reader \<Rightarrow> ending option \<times> rat \<times> reader" where
  "live_round run_id cfg i s =
     (case s of (last_check_at, r) \<Rightarrow>
      case on_message run_id cfg (li_now i) (li_read i) (queue_drain (li_taken i) r) of
        (Some x, _, r1) \<Rightarrow> (Some x, last_check_at, r1)
      | (None, True, r1) \<Rightarrow> (None, last_check_at, r1)
      | (None, False, r1) \<Rightarrow>
          if li_now i - last_check_at \<ge> agent_run_consumer_lease_renew_seconds cfg
          then (case regenerate cfg (li_fresh i) r1 of (x, r2) \<Rightarrow> (x, li_now i, r2))
          else (None, last_check_at, r1))"

fun classify_live :: "string \<Rightarrow> broker_settings \<Rightarrow> live_input list \<Rightarrow> rat \<times> reader \<Rightarrow> ending option \<times> rat \<times> reader" where
  "classify_live run_id cfg [] s = (None, s)"
| "classify_live run_id cfg (i # inputs) s =
     (case live_round run_id cfg i s of
        (Some x, s') \<Rightarrow> (Some x, s')
      | (None, s') \<Rightarrow> classify_live run_id cfg inputs s')"

subsection \<open>The reader\<close>

text \<open>What the open phase reads, or that it failed or timed out.\<close>

record opened =
  op_epoch :: "ustr option"
  op_current_seq :: int
  op_ring :: "ring_event list"
  op_terminal :: bool
  op_lease :: "bool option"

text \<open>
  The reads of the open phase, each over its own link and on the state of its moment. The counter is
  read only for a cursor that is not empty.
\<close>

definition open_phase :: "bool \<Rightarrow> string \<Rightarrow> cursor \<Rightarrow> link \<times> redis \<Rightarrow> link \<times> redis \<Rightarrow> link \<times> redis \<Rightarrow> bool \<Rightarrow> link \<times> redis \<Rightarrow> exn + opened option" where
  "open_phase subscribed run_id c e q p term l =
     (if \<not> subscribed then Inr None
      else case (if cursor_is_empty c then Inr 0 else current_seq (fst q) run_id (snd q)) of
        Inl x \<Rightarrow> Inl x
      | Inr n \<Rightarrow>
          (case replay (fst p) run_id (snd p) of
             Inl x \<Rightarrow> Inl x
           | Inr ring \<Rightarrow>
               Inr (Some \<lparr>op_epoch = current_epoch (fst e) run_id (snd e), op_current_seq = n, op_ring = ring,
                          op_terminal = term, op_lease = lease_alive (fst l) run_id (snd l)\<rparr>)))"

text \<open>What the reader observes while it works: the polls of each put, of the phase switch, and the live loop.\<close>

record observations =
  ob_marker :: "rat \<times> (rat \<times> nat) list"
  ob_blocks :: "(rat \<times> (rat \<times> nat) list) list"
  ob_switch :: "rat \<times> (rat \<times> nat) list"
  ob_start :: rat
  ob_live :: "live_input list"

definition session_generation :: "opened \<Rightarrow> ustr" where
  "session_generation o' = epoch_or (case op_epoch o' of None \<Rightarrow> [] | Some e \<Rightarrow> e) (if op_ring o' = [] then [] else ev_epoch (last (op_ring o')))"

definition session_verdict :: "cursor \<Rightarrow> opened \<Rightarrow> cursor_verdict" where
  "session_verdict c o' = cursor_verdict_of c (op_epoch o') (op_current_seq o')"

definition session_replay :: "cursor \<Rightarrow> opened \<Rightarrow> broker_replay" where
  "session_replay c o' =
     replay_blocks (op_ring o') (filter_seq (session_verdict c o')) (session_generation o') (announce_gap (session_verdict c o'))"

definition new_reader :: "cursor \<Rightarrow> opened \<Rightarrow> rat \<Rightarrow> reader" where
  "new_reader c o' now =
     \<lparr>generation = session_generation o', delivered = rp_max_seq (session_replay c o'),
      replay_min_seq = rp_min_seq (session_replay c o'), rd_filter_seq = filter_seq (session_verdict c o'),
      pending_gap = announce_gap (session_verdict c o'), arrived = 0, hole_announced = False, last_event_at = now,
      queue = [], sent = []\<rparr>"

definition put_pending_gap :: "broker_settings \<Rightarrow> rat \<times> (rat \<times> nat) list \<Rightarrow> int \<Rightarrow> reader \<Rightarrow> (bool \<times> reader) option" where
  "put_pending_gap cfg ob from_seq r =
     (if pending_gap r \<and> generation r \<noteq> []
      then map_option (\<lambda>(ok, r'). (ok, r'\<lparr>pending_gap := False\<rparr>)) (put_due_replay cfg ob (Marker (generation r) 0 from_seq) r)
      else Some (True, r))"

text \<open>The marker of a refused cursor and the blocks of the ring; whether all were put, and whether one was terminal.\<close>

definition replay_phase :: "string \<Rightarrow> broker_settings \<Rightarrow> cursor \<Rightarrow> opened \<Rightarrow> observations \<Rightarrow> reader \<Rightarrow> ((exn + bool \<times> bool) \<times> reader) option" where
  "replay_phase run_id cfg c o' obs r =
     (case put_pending_gap cfg (ob_marker obs) (rp_first_seq (session_replay c o')) r of
        None \<Rightarrow> None
      | Some (False, r1) \<Rightarrow> Some (Inr (False, False), r1)
      | Some (True, r1) \<Rightarrow> put_all_replay run_id cfg (ob_blocks obs) (rp_blocks (session_replay c o')) False r1)"

definition live_phase :: "string \<Rightarrow> broker_settings \<Rightarrow> observations \<Rightarrow> reader \<Rightarrow> (ending option \<times> reader) option" where
  "live_phase run_id cfg obs r =
     (case await_live_phase cfg (ob_switch obs) r of
        None \<Rightarrow> None
      | Some (False, r1) \<Rightarrow> Some (Some AbnormalEnd, r1)
      | Some (True, r1) \<Rightarrow> (case classify_live run_id cfg (ob_live obs) (ob_start obs, r1) of (x, _, r2) \<Rightarrow> Some (x, r2)))"

text \<open>
  The reader: how it ended (\<open>None\<close> inside: it still reads) and its state. The outer \<open>None\<close>:
  the observations end while it waits for room.
\<close>

definition read_until_end :: "string \<Rightarrow> broker_settings \<Rightarrow> cursor \<Rightarrow> opened \<Rightarrow> observations \<Rightarrow> rat \<Rightarrow> (ending option \<times> reader) option" where
  "read_until_end run_id cfg c o' obs t0 =
     (let r = new_reader c o' t0 in
      if op_ring o' = [] \<and> op_lease o' = Some False \<and> \<not> op_terminal o' then Some (Some NormalEnd, r)
      else case replay_phase run_id cfg c o' obs r of
        None \<Rightarrow> None
      | Some (Inl x, r1) \<Rightarrow> Some (Some (Raised x), r1)
      | Some (Inr (False, _), r1) \<Rightarrow> Some (Some AbnormalEnd, r1)
      | Some (Inr (True, term), r1) \<Rightarrow>
          if op_terminal o' \<or> term then Some (Some NormalEnd, r1) else live_phase run_id cfg obs r1)"

text \<open>A failure or a timeout of the open phase is an abnormal end; an exception ends the task.\<close>

definition read_channel :: "string \<Rightarrow> broker_settings \<Rightarrow> cursor \<Rightarrow> exn + opened option \<Rightarrow> observations \<Rightarrow> rat \<Rightarrow> ending option" where
  "read_channel run_id cfg c op obs t0 =
     (case op of
        Inl x \<Rightarrow> Some (Raised x)
      | Inr None \<Rightarrow> Some AbnormalEnd
      | Inr (Some o') \<Rightarrow> (case read_until_end run_id cfg c o' obs t0 of None \<Rightarrow> None | Some (x, _) \<Rightarrow> x))"

subsection \<open>Close rules\<close>

definition TERMINAL_STATUSES :: "string list" where
  "TERMINAL_STATUSES = [''completed'', ''failed'', ''cancelled'', ''paused'']"

definition run_is_terminal :: "string \<Rightarrow> db \<Rightarrow> bool" where
  "run_is_terminal run_id s = (case map_of (agent_runs s) run_id of None \<Rightarrow> False | Some r \<Rightarrow> run_status r \<in> set TERMINAL_STATUSES)"

definition handover_in_progress :: "broker_settings \<Rightarrow> rat \<Rightarrow> rat \<Rightarrow> out_block list \<Rightarrow> bool" where
  "handover_in_progress cfg now last_delivered_at q \<longleftrightarrow> q \<noteq> [] \<and> now - last_delivered_at < agent_run_subscriber_drain_seconds cfg"

text \<open>
  One tick of the supervisor. The queue and the time of the last hand-over are observed at its three
  points; a probe that times out leaves the stream open. The answer is whether \<open>closing\<close> is set.
\<close>

record supervision =
  sv_now :: "rat \<times> rat \<times> rat"
  sv_handed :: "rat \<times> rat \<times> rat"
  sv_queue :: "out_block list \<times> out_block list \<times> out_block list"
  sv_terminal :: "bool option"
  sv_last_event_at :: rat
  sv_lease :: "bool option option"

definition supervise_tick :: "broker_settings \<Rightarrow> supervision \<Rightarrow> bool" where
  "supervise_tick cfg o' =
     (case (sv_now o', sv_handed o', sv_queue o') of
        ((n1, n2, n3), (h1, h2, h3), (q1, q2, q3)) \<Rightarrow>
          if handover_in_progress cfg n1 h1 q1 then False
          else (case sv_terminal o' of
                  None \<Rightarrow> False
                | Some True \<Rightarrow> \<not> handover_in_progress cfg n2 h2 q2
                | Some False \<Rightarrow>
                    n2 - sv_last_event_at o' \<ge> agent_run_downstream_idle_timeout_seconds cfg \<and>
                    sv_lease o' = Some (Some False) \<and> \<not> handover_in_progress cfg n3 h3 q3))"

end
