(* ===== verification/AgentElement.thy ===== *)
theory AgentElement
  imports AgentTransport
begin

text \<open>
  Ring elements are read back: the scanner of \<^verbatim>\<open>json.loads\<close> on the text the publishing script
  concatenates.
\<close>

text \<open>Characters the script may put between quotes without escaping.\<close>

definition safe_char :: "nat \<Rightarrow> bool" where
  "safe_char c \<longleftrightarrow> 32 \<le> c \<and> c \<le> 126 \<and> c \<noteq> 34 \<and> c \<noteq> 92"

lemma scan_safe: "list_all safe_char cs \<Longrightarrow> scan_string (cs @ 34 # r) = Some (cs, r)"
proof (induction cs)
  case Nil
  show ?case by (subst scan_string.simps) simp
next
  case (Cons c cs)
  then show ?case by (simp add: scan_plain_char safe_char_def)
qed

definition not_ws :: "nat \<Rightarrow> bool" where
  "not_ws c \<longleftrightarrow> c \<notin> {32, 9, 10, 13}"

lemma skip_ws_id [simp]: "not_ws c \<Longrightarrow> skip_ws (c # r) = c # r"
  by (simp add: skip_ws_def not_ws_def)

lemma not_ws_marks [simp]: "not_ws 34" "not_ws 44" "not_ws 58" "not_ws 123" "not_ws 125"
  by (simp_all add: not_ws_def)

lemma expect_Cons [simp]: "expect c (d # r) = (if d = c then Some r else None)"
  by (simp add: expect_def)

lemma expect_Nil [simp]: "expect c [] = None"
  by (simp add: expect_def)

text \<open>One member of an object, followed by another or by the closing brace.\<close>

lemma scan_member_more:
  assumes "list_all safe_char k" "not_ws c" "scan_value n (c # v @ 44 # 34 # t) = Some (x, 44 # 34 # t)"
  shows "scan_members (Suc n) acc (34 # k @ 34 # 58 # c # v @ 44 # 34 # t) = scan_members n (obj_set acc k x) (34 # t)"
  using assms by (simp add: scan_safe)

lemma scan_member_last:
  assumes "list_all safe_char k" "not_ws c" "scan_value n (c # v @ 125 # t) = Some (x, 125 # t)"
  shows "scan_members (Suc n) acc (34 # k @ 34 # 58 # c # v @ 125 # t) = Some (PObj (obj_set acc k x), t)"
  using assms by (simp add: scan_safe)

lemma scan_quoted: "list_all safe_char cs \<Longrightarrow> scan_value (Suc n) (34 # (cs @ [34]) @ r) = Some (PStr cs, r)"
  by (simp add: scan_safe)

lemma scan_dumped:
  "list_all plain_char cs \<Longrightarrow> scan_value (Suc n) (34 # (concat (map escape_char cs) @ [34]) @ r) = Some (PStr cs, r)"
  by (simp add: scan_dumps)

text \<open>A decimal number followed by a comma.\<close>

lemma takeWhile_digits: "list_all is_digit ds \<Longrightarrow> takeWhile is_digit (ds @ 44 # r) = ds \<and> dropWhile is_digit (ds @ 44 # r) = 44 # r"
  by (induction ds) (auto simp: is_digit_def)

lemma scan_int_dec:
  assumes "0 \<le> n"
  shows "scan_int (dec n @ 44 # r) = Some (dec n, 44 # r)"
proof (cases "dec n = [48]")
  case True
  then show ?thesis by (simp add: scan_int_def)
next
  case False
  then obtain c ds where c: "dec n = c # ds" "c \<noteq> 48" using dec_cases [OF assms] by (cases "dec n") auto
  then have "is_digit c" "list_all is_digit ds" using dec_digits [OF assms] by auto
  then show ?thesis using takeWhile_digits [of ds r] c by (simp add: scan_int_def)
qed

lemma scan_number_dec:
  assumes "0 \<le> n"
  shows "scan_number (dec n @ 44 # r) = Some (PInt n, 44 # r)"
proof -
  have "take 1 (dec n @ 44 # r) \<noteq> [45]" using dec_digits [OF assms] by (cases "dec n") (auto simp: is_digit_def)
  then show ?thesis
    using scan_int_dec [OF assms, of r] digits_value_dec [OF assms]
    by (simp add: scan_number_def Let_def scan_frac_def scan_exp_def)
qed

lemma scan_value_dec:
  assumes "0 \<le> n"
  shows "scan_value (Suc m) (dec n @ 44 # r) = Some (PInt n, 44 # r)"
proof -
  obtain c ds where c: "dec n = c # ds" "is_digit c"
    using dec_digits [OF assms] dec_cases [OF assms] by (cases "dec n") auto
  then have "scan_literal (dec n @ 44 # r) = Some (PInt n, 44 # r)"
    using scan_number_dec [OF assms, of r] by (auto simp: scan_literal_def scan_word_def codes_def is_digit_def)
  then show ?thesis using c by (simp add: is_digit_def)
qed

lemma safe_words: "list_all safe_char (codes ''epoch'')" "list_all safe_char (codes ''seq'')" "list_all safe_char (codes ''data'')"
  by (simp_all add: codes_def safe_char_def)

lemma utf8_decode_plain: "\<forall>b \<in> set raw. b < 256 \<Longrightarrow> list_all plain_char (utf8_decode raw)"
  by (rule utf8_encode_plain [OF utf8_roundtrip])

lemma loads_element:
  assumes e: "list_all safe_char e" and n: "0 \<le> n" "f n = dec n"
    and body: "\<And>m. scan_value (Suc m) (34 # body @ [125]) = Some (PStr cs, [125])"
  shows "loads_doc (ring_element f e n (34 # body)) =
    Some (PObj [(codes ''epoch'', PStr e), (codes ''seq'', PInt n), (codes ''data'', PStr cs)])"
proof -
  define m3 where "m3 = 34 # codes ''data'' @ 34 # 58 # 34 # body @ [125]"
  obtain d ds where d: "dec n = d # ds" "is_digit d" using dec_digits [OF n(1)] dec_cases [OF n(1)] by (cases "dec n") auto
  define m2 where "m2 = 34 # codes ''seq'' @ 34 # 58 # dec n @ 44 # m3"
  define m1 where "m1 = 34 # codes ''epoch'' @ 34 # 58 # 34 # (e @ [34]) @ 44 # m2"
  let ?s = "ring_element f e n (34 # body)"
  have s: "?s = 123 # m1" by (simp add: ring_element_def n(2) m1_def m2_def m3_def codes_def)
  have dw: "not_ws d" using d(2) by (auto simp: not_ws_def is_digit_def)
  have "4 \<le> length ?s" by (simp add: s m1_def)
  then have "length ?s = Suc (Suc (Suc (Suc (length ?s - 4))))" by simp
  then obtain k where k: "length ?s = Suc (Suc (Suc (Suc k)))" by metis
  have 3: "scan_members (Suc (Suc k)) acc m3 = Some (PObj (obj_set acc (codes ''data'') (PStr cs)), [])" for acc
    unfolding m3_def by (intro scan_member_last safe_words body) simp
  obtain m3' where m3': "m3 = 34 # m3'" by (simp add: m3_def)
  have 2: "scan_members (Suc (Suc (Suc k))) acc m2 = scan_members (Suc (Suc k)) (obj_set acc (codes ''seq'') (PInt n)) m3" for acc
    unfolding m2_def d m3' append_Cons
    by (intro scan_member_more safe_words dw) (use scan_value_dec [OF n(1), of "Suc k" "34 # m3'"] d in simp)
  obtain m2' where m2': "m2 = 34 # m2'" by (simp add: m2_def)
  have 1: "scan_members (Suc (Suc (Suc (Suc k)))) acc m1 = scan_members (Suc (Suc (Suc k))) (obj_set acc (codes ''epoch'') (PStr e)) m2" for acc
    unfolding m1_def m2' by (intro scan_member_more safe_words scan_quoted e) simp
  have m1: "expect 125 m1 = None" "skip_ws m1 = m1" by (simp_all add: m1_def)
  have "scan_value (Suc (length ?s)) (skip_ws ?s) =
      Some (PObj [(codes ''epoch'', PStr e), (codes ''seq'', PInt n), (codes ''data'', PStr cs)], [])"
    unfolding k unfolding s by (simp add: m1 1 2 3 codes_def del: scan_members.simps)
  then show ?thesis by (simp add: loads_doc_def skip_ws_def [of "[]"] s)
qed

lemma payload_of_element:
  "payload_get [(codes ''epoch'', x), (codes ''seq'', y), (codes ''data'', z)] ''epoch'' = x"
  "payload_get [(codes ''epoch'', x), (codes ''seq'', y), (codes ''data'', z)] ''seq'' = y"
  "payload_get [(codes ''epoch'', x), (codes ''seq'', y), (codes ''data'', z)] ''data'' = z"
  by (simp_all add: payload_get_def codes_def)

text \<open>The element of an event parses to the event.\<close>

lemma parse_ring_element:
  assumes e: "list_all safe_char e" and raw: "\<forall>b \<in> set raw. b < 256" and n: "0 \<le> n" "f n = dec n"
  shows "parse_element (ring_element f e n (encode_data raw)) = Inr (Some \<lparr>ev_epoch = e, ev_seq = n, ev_data = raw\<rparr>)"
proof -
  have "loads_doc (ring_element f e n (34 # (concat (map escape_char (utf8_decode raw)) @ [34]))) =
      Some (PObj [(codes ''epoch'', PStr e), (codes ''seq'', PInt n), (codes ''data'', PStr (utf8_decode raw))])"
    by (intro loads_element e n scan_dumped utf8_decode_plain raw)
  then show ?thesis
    using utf8_roundtrip [OF raw]
    by (simp add: parse_element_def payload_of_element py_int_def decode_data_def encode_data_def dumps_str_def)
qed

text \<open>
  An element whose text holds a lone surrogate is well-formed JSON, but encoding it raises; the replay
  of the ring does not skip it. The publishing script never writes one.
\<close>

lemma lone_surrogate_raises:
  "parse_element (ring_element dec [97] 1 [34, 92, 117, 100, 56, 48, 48, 34]) = Inl (PyError ''UnicodeEncodeError'')"
proof -
  have "scan_string [34, 125] = Some ([], [125])" by (subst scan_string.simps) simp
  then have "scan_string [92, 117, 100, 56, 48, 48, 34, 125] = Some ([55296], [125])"
    by (subst scan_string.simps) (simp add: unhex_def)
  then have "loads_doc (ring_element dec [97] 1 (34 # [92, 117, 100, 56, 48, 48, 34])) =
      Some (PObj [(codes ''epoch'', PStr [97]), (codes ''seq'', PInt 1), (codes ''data'', PStr [55296])])"
    by (intro loads_element) (simp_all add: safe_char_def)
  then show ?thesis
    by (simp add: parse_element_def payload_of_element py_int_def decode_data_def utf8_encode_char_def)
qed

end
