(* ===== verification/AgentBrokerClaims.thy ===== *)
theory AgentBrokerClaims
  imports AgentBroker AgentElement
begin

text \<open>
  What the client stream promises: cursors survive the round trip through a client, a stream without a
  marker has no gap, and what arrives on the channel is delivered.
\<close>

subsection \<open>Cursor round trip\<close>

lemma rpartition_id:
  assumes "45 \<notin> set w"
  shows "rpartition (e @ 45 # w) = (e, w)"
proof -
  have "takeWhile (\<lambda>c. c \<noteq> 45) (rev w @ 45 # rev e) = rev w" "dropWhile (\<lambda>c. c \<noteq> 45) (rev w @ 45 # rev e) = 45 # rev e"
    using assms by (auto simp: takeWhile_append dropWhile_append)
  then show ?thesis by (simp add: rpartition_def)
qed

text \<open>
  The id of a block is a cursor: the value a client sends back as \<open>Last-Event-ID\<close> names
  exactly the generation and the number of the block it came with, whatever hyphens the generation
  contains and whatever else the request carries.
\<close>

theorem cursor_roundtrip:
  assumes "epoch \<noteq> []" "0 \<le> seq" "length (dec seq) \<le> 4300"
  shows "parse_cursor (Some (block_id epoch seq)) after_seq = Inr \<lparr>cur_seq = seq, cur_epoch = Some epoch\<rparr>"
proof -
  note d = dec_digits [OF assms(2)]
  have "45 \<notin> set (dec seq)" using d by (auto simp: list_all_iff is_digit_def)
  then have "rpartition (block_id epoch seq) = (epoch, dec seq)" by (simp add: block_id_def rpartition_id)
  moreover have "isdigit (dec seq)" using d dec_cases [OF assms(2)] by (auto simp: isdigit_def list_all_iff)
  ultimately show ?thesis
    using assms d by (simp add: parse_cursor_def header_cursor_def int_of_text_def digits_value_dec block_id_def)
qed

theorem cursor_roundtrip_witness:
  "parse_cursor (Some (block_id [97, 45, 98] 7)) None = Inr \<lparr>cur_seq = 7, cur_epoch = Some [97, 45, 98]\<rparr>"
proof -
  have "length (dec 7) \<le> 4300"
    by (simp add: dec_def int_str_def nat_str_def codes_def dec_pad.simps)
  then show ?thesis using cursor_roundtrip [of "[97, 45, 98]" 7 None] by simp
qed

text \<open>
  \<open>isdigit\<close> admits superscript digits, which \<open>int\<close> refuses: such a header is not read as the
  empty cursor, and such a parameter is not refused with 400; the request fails.
\<close>

lemma superscript_cursor_raises:
  "parse_cursor (Some [97, 45, 178]) None = Inl (PyError ''ValueError'')"
  "parse_cursor None (Some [178]) = Inl (PyError ''ValueError'')"
  by (simp_all add: parse_cursor_def header_cursor_def after_seq_cursor_def rpartition_def isdigit_def int_of_text_def is_digit_def)

subsection \<open>What is queued\<close>

fun is_marker :: "out_block \<Rightarrow> bool" where
  "is_marker (Marker _ _ _) = True"
| "is_marker (EventBlock _ _ _) = False"

fun block_ids :: "out_block list \<Rightarrow> (ustr \<times> int) list" where
  "block_ids [] = []"
| "block_ids (EventBlock e n d # bs) = (e, n) # block_ids bs"
| "block_ids (Marker _ _ _ # bs) = block_ids bs"

lemma block_ids_append [simp]: "block_ids (xs @ ys) = block_ids xs @ block_ids ys"
  by (induction xs rule: block_ids.induct) auto

definition marked :: "out_block list \<Rightarrow> bool" where
  "marked bs \<longleftrightarrow> list_ex is_marker bs"

lemma marked_simps [simp]: "marked [] = False" "marked (b # bs) = (is_marker b \<or> marked bs)" "marked (xs @ ys) = (marked xs \<or> marked ys)"
  by (auto simp: marked_def)

text \<open>Consecutive numbers of one generation.\<close>

definition run_of_ids :: "ustr \<Rightarrow> int \<Rightarrow> nat \<Rightarrow> (ustr \<times> int) list" where
  "run_of_ids g a m = map (\<lambda>i. (g, a + int i)) [0..<m]"

lemma run_of_ids_Suc: "run_of_ids g a (Suc m) = run_of_ids g a m @ [(g, a + int m)]"
  by (simp add: run_of_ids_def)

lemma run_of_ids_length [simp]: "length (run_of_ids g a m) = m"
  by (simp add: run_of_ids_def)

lemma run_of_ids_0 [simp]: "run_of_ids g a 0 = []"
  by (simp add: run_of_ids_def)

lemma take_run_of_ids: "take k (run_of_ids g a m) = run_of_ids g a (min k m)"
  by (cases "k \<le> m") (simp_all add: run_of_ids_def take_map)

definition gapless :: "int \<Rightarrow> out_block list \<Rightarrow> bool" where
  "gapless fs bs \<longleftrightarrow> (\<exists>g a m. a \<le> fs + 1 \<and> block_ids bs = run_of_ids g a m)"

lemma gapless_Nil [simp]: "gapless fs []"
  unfolding gapless_def by (metis block_ids.simps(1) order_refl run_of_ids_0)

subsection \<open>Puts and drains\<close>

lemma wait_room_core: "wait_room cap dl obs r = Some (b, r') \<Longrightarrow> \<exists>q. r' = r\<lparr>queue := q\<rparr>"
proof (induction cap dl obs r rule: wait_room.induct)
  case (1 cap dl r)
  then show ?case by (auto split: if_splits intro: exI [of _ "queue r"])
next
  case (2 cap dl now taken obs r)
  show ?case
  proof (cases "length (queue r) < cap \<or> now \<ge> dl")
    case True
    with 2 show ?thesis by (auto split: if_splits intro: exI [of _ "queue r"])
  next
    case False
    with 2 obtain q where "r' = (queue_drain taken r)\<lparr>queue := q\<rparr>" by auto
    then show ?thesis by (auto simp: queue_drain_def)
  qed
qed

lemma await_half_core: "await_half half bud dl qd obs r = Some (b, r') \<Longrightarrow> \<exists>q. r' = r\<lparr>queue := q\<rparr>"
proof (induction half bud dl qd obs r rule: await_half.induct)
  case (1 half budget deadline queued r)
  then show ?case by (auto split: if_splits intro: exI [of _ "queue r"])
next
  case (2 half budget deadline queued now taken obs r)
  have d: "\<exists>q. (queue_drain taken r)\<lparr>queue := x\<rparr> = r\<lparr>queue := q\<rparr>" for x by (auto simp: queue_drain_def)
  show ?case
    using 2 d by (auto split: if_splits intro: exI [of _ "queue r"])
qed

lemma put_due_replay_core:
  "put_due_replay cfg ob b r = Some (ok, r') \<Longrightarrow> \<exists>q. r' = r\<lparr>queue := q, sent := sent r @ (if ok then [b] else [])\<rparr>"
  by (auto simp: put_due_replay_def enqueue_def dest!: wait_room_core split: option.splits bool.splits prod.splits)

lemma put_all_replay_core:
  "put_all_replay run cfg obs bs trm r = Some (x, r') \<Longrightarrow>
   \<exists>q k. r' = r\<lparr>queue := q, sent := sent r @ take k bs\<rparr> \<and> (\<forall>y. x = Inr (True, y) \<longrightarrow> k \<ge> length bs)"
proof (induction bs arbitrary: obs trm r)
  case Nil
  then show ?case by (intro exI [of _ "queue r"] exI [of _ 0]) auto
next
  case (Cons b bs)
  then obtain ob obs' where obs: "obs = ob # obs'" by (cases obs) auto
  with Cons.prems obtain ok r1 where p: "put_due_replay cfg ob b r = Some (ok, r1)" by (auto split: option.splits)
  from put_due_replay_core [OF p] obtain q where r1: "r1 = r\<lparr>queue := q, sent := sent r @ (if ok then [b] else [])\<rparr>" by blast
  show ?case
  proof (cases "ok \<and> (trm \<or> (\<exists>v. is_terminal_block (block_bytes run b) = Inr v))")
    case True
    with Cons.prems p obs obtain v where "put_all_replay run cfg obs' bs v r1 = Some (x, r')"
      by (auto split: if_splits sum.splits)
    from Cons.IH [OF this] obtain q' k where "r' = r1\<lparr>queue := q', sent := sent r1 @ take k bs\<rparr>"
      "\<forall>y. x = Inr (True, y) \<longrightarrow> k \<ge> length bs" by blast
    then show ?thesis using True r1 by (intro exI [of _ q'] exI [of _ "Suc k"]) auto
  next
    case False
    with Cons.prems p obs r1 have "r' = r1" "\<forall>y. x \<noteq> Inr (True, y)" by (auto split: if_splits sum.splits bool.splits)
    then show ?thesis using r1 by (intro exI [of _ q] exI [of _ "if ok then 1 else 0"]) auto
  qed
qed

subsection \<open>The replay\<close>

text \<open>
  A ring as the bus leaves it: consecutive numbers from one on or later, one generation, which is also
  the one of the key if the key was read.
\<close>

definition ring_ok :: "ustr \<Rightarrow> int \<Rightarrow> opened \<Rightarrow> bool" where
  "ring_ok g a o' \<longleftrightarrow> g \<noteq> [] \<and> 1 \<le> a \<and> map (\<lambda>e. (ev_epoch e, ev_seq e)) (op_ring o') = run_of_ids g a (length (op_ring o')) \<and>
     op_epoch o' \<in> {None, Some g}"

lemma ring_nth:
  assumes "ring_ok g a o'" "i < length (op_ring o')"
  shows "ev_epoch (op_ring o' ! i) = g" "ev_seq (op_ring o' ! i) = a + int i"
proof -
  have "(ev_epoch (op_ring o' ! i), ev_seq (op_ring o' ! i)) = run_of_ids g a (length (op_ring o')) ! i"
    using assms by (metis (no_types, lifting) nth_map ring_ok_def)
  then show "ev_epoch (op_ring o' ! i) = g" "ev_seq (op_ring o' ! i) = a + int i" using assms(2) by (simp_all add: run_of_ids_def)
qed

lemma ring_generation: "ring_ok g a o' \<Longrightarrow> op_ring o' \<noteq> [] \<Longrightarrow> session_generation o' = g"
  using ring_nth(1) [of g a o' "length (op_ring o') - 1"]
  by (auto simp: session_generation_def ring_ok_def epoch_or_def last_conv_nth)

lemma filter_run:
  assumes "map (\<lambda>e. (ev_epoch e, ev_seq e)) xs = run_of_ids g a (length xs)"
  shows "map (\<lambda>e. (ev_epoch e, ev_seq e)) (filter (\<lambda>e. ev_seq e > fs) xs) =
    run_of_ids g (max a (fs + 1)) (length (filter (\<lambda>e. ev_seq e > fs) xs)) \<and>
    length (filter (\<lambda>e. ev_seq e > fs) xs) = nat (a + int (length xs) - max a (fs + 1))"
  using assms
proof (induction xs rule: rev_induct)
  case (snoc x xs)
  then have xs: "map (\<lambda>e. (ev_epoch e, ev_seq e)) xs = run_of_ids g a (length xs)" and x: "ev_epoch x = g" "ev_seq x = a + int (length xs)"
    by (auto simp: run_of_ids_Suc)
  let ?f = "filter (\<lambda>e. ev_seq e > fs)"
  from snoc.IH [OF xs] have IH: "map (\<lambda>e. (ev_epoch e, ev_seq e)) (?f xs) = run_of_ids g (max a (fs + 1)) (length (?f xs))"
    "length (?f xs) = nat (a + int (length xs) - max a (fs + 1))" by auto
  show ?case
  proof (cases "ev_seq x > fs")
    case True
    then have "int (length (?f xs)) = a + int (length xs) - max a (fs + 1)" using IH(2) x by auto
    then show ?thesis using True IH x by (auto simp: run_of_ids_Suc)
  next
    case False
    then show ?thesis using IH x by auto
  qed
qed simp

lemma block_ids_map: "block_ids (map (\<lambda>e. EventBlock (f e) (ev_seq e) (ev_data e)) xs) = map (\<lambda>e. (f e, ev_seq e)) xs"
  by (induction xs) auto

lemma marked_map [simp]: "\<not> marked (map (\<lambda>e. EventBlock (f e) (ev_seq e) (ev_data e)) xs)"
  by (induction xs) auto

text \<open>What the replay queues, and the baselines it hands to the live phase.\<close>

lemma replay_facts:
  fixes c :: cursor and o' :: opened
  assumes ok: "ring_ok g a o'"
  defines "fs \<equiv> filter_seq (session_verdict c o')" and "rp \<equiv> session_replay c o'"
    and "pend \<equiv> filter (\<lambda>e. ev_seq e > filter_seq (session_verdict c o')) (op_ring o')"
  shows "pend = [] \<Longrightarrow> rp_blocks rp = [] \<and> rp_max_seq rp = 0 \<and> rp_min_seq rp = 0"
    "pend \<noteq> [] \<Longrightarrow> \<exists>ms. rp_blocks rp = ms @ map (\<lambda>e. EventBlock g (ev_seq e) (ev_data e)) pend \<and>
       list_all is_marker ms \<and> (ms = [] \<longrightarrow> announce_gap (session_verdict c o') \<or> a \<le> fs + 1) \<and>
       rp_min_seq rp = max a (fs + 1) \<and> rp_max_seq rp = max a (fs + 1) + int (length pend) - 1"
    "map (\<lambda>e. (ev_epoch e, ev_seq e)) pend = run_of_ids g (max a (fs + 1)) (length pend)"
proof -
  show "pend = [] \<Longrightarrow> rp_blocks rp = [] \<and> rp_max_seq rp = 0 \<and> rp_min_seq rp = 0"
    by (simp add: rp_def session_replay_def replay_blocks_def pend_def)
  have run: "map (\<lambda>e. (ev_epoch e, ev_seq e)) pend = run_of_ids g (max a (fs + 1)) (length pend)"
    using filter_run [of "op_ring o'" g a fs] ok by (simp add: pend_def fs_def ring_ok_def)
  then show "map (\<lambda>e. (ev_epoch e, ev_seq e)) pend = run_of_ids g (max a (fs + 1)) (length pend)" .
  assume ne: "pend \<noteq> []"
  then obtain e0 rest where e0: "pend = e0 # rest" by (cases pend) auto
  let ?s = "max a (fs + 1)" and ?m = "length pend"
  have "map ev_epoch pend = map (\<lambda>i. g) [0..<?m]" using arg_cong [OF run, of "map fst"] by (simp add: run_of_ids_def comp_def)
  then have "ev_epoch ` set pend = (\<lambda>i. g) ` set [0..<?m]" by (metis list.set_map)
  then have ep: "ev_epoch e = g" if "e \<in> set pend" for e using that by auto
  have seqs: "map ev_seq pend = map (\<lambda>i. ?s + int i) [0..<?m]"
    using arg_cong [OF run, of "map snd"] by (simp add: run_of_ids_def comp_def)
  have e0s: "ev_seq e0 = ?s" using arg_cong [OF seqs, of hd] by (simp add: e0 upt_rec)
  have set: "set (map ev_seq pend) = (\<lambda>i. ?s + int i) ` {0..<?m}" unfolding seqs by simp
  have mn: "Min (set (map ev_seq pend)) = ?s"
    unfolding set by (rule Min_eqI) (use ne in \<open>auto intro!: image_eqI [of _ _ 0]\<close>)
  have mx: "Max (set (map ev_seq pend)) = ?s + int ?m - 1"
    unfolding set by (rule Max_eqI) (use ne in \<open>auto simp: of_nat_diff Suc_le_eq intro!: image_eqI [of _ _ "?m - 1"]\<close>)
  have blocks: "map (\<lambda>e. EventBlock (epoch_or (ev_epoch e) (session_generation o')) (ev_seq e) (ev_data e)) pend =
      map (\<lambda>e. EventBlock g (ev_seq e) (ev_data e)) pend"
    using ep ok by (auto simp: epoch_or_def ring_ok_def)
  let ?ms = "if ev_seq e0 > fs + 1 \<and> \<not> announce_gap (session_verdict c o')
    then [Marker (epoch_or (ev_epoch e0) (session_generation o')) (max fs 0) (ev_seq e0)] else []"
  have "rp = \<lparr>rp_blocks = ?ms @ map (\<lambda>e. EventBlock (epoch_or (ev_epoch e) (session_generation o')) (ev_seq e) (ev_data e)) pend,
     rp_first_seq = ev_seq e0, rp_min_seq = Min (set (map ev_seq pend)), rp_max_seq = Max (set (map ev_seq pend))\<rparr>"
    using e0 by (simp add: rp_def session_replay_def replay_blocks_def fs_def pend_def Let_def del: list.map set_map)
  then show "\<exists>ms. rp_blocks rp = ms @ map (\<lambda>e. EventBlock g (ev_seq e) (ev_data e)) pend \<and> list_all is_marker ms \<and>
     (ms = [] \<longrightarrow> announce_gap (session_verdict c o') \<or> a \<le> fs + 1) \<and>
     rp_min_seq rp = max a (fs + 1) \<and> rp_max_seq rp = max a (fs + 1) + int (length pend) - 1"
    unfolding blocks mn mx by (intro exI [of _ ?ms]) (auto simp: e0s)
qed

subsection \<open>The live phase leaves no unannounced gap\<close>

text \<open>Generation ids are not empty and the counter starts at one.\<close>

definition event_ok :: "ring_event \<Rightarrow> bool" where
  "event_ok e \<longleftrightarrow> ev_epoch e \<noteq> [] \<and> 1 \<le> ev_seq e"

fun input_ok :: "live_input \<Rightarrow> bool" where
  "input_ok i = ((case li_read i of
       Message m \<Rightarrow> (case parse_element m of Inr (Some e) \<Rightarrow> event_ok e | _ \<Rightarrow> True) | _ \<Rightarrow> True) \<and>
     li_fresh i \<noteq> EpochRead (Some []))"

definition good_sent :: "int \<Rightarrow> out_block list \<Rightarrow> bool" where
  "good_sent fs bs \<longleftrightarrow> marked bs \<or> gapless fs bs"

text \<open>The reader's variables agree with what has been queued, as long as no marker has.\<close>

definition live_ok :: "int \<Rightarrow> reader \<Rightarrow> bool" where
  "live_ok fs r \<longleftrightarrow> rd_filter_seq r = fs \<and>
     (marked (sent r) \<or>
      \<not> hole_announced r \<and>
      (if delivered r = 0 then block_ids (sent r) = []
       else \<exists>a m. 0 < m \<and> 0 < a \<and> a \<le> fs + 1 \<and> block_ids (sent r) = run_of_ids (generation r) a m \<and>
              delivered r = a + int m - 1 \<and> generation r \<noteq> []))"

lemma live_ok_good: "live_ok fs r \<Longrightarrow> good_sent fs (sent r)"
  unfolding live_ok_def good_sent_def gapless_def by (metis run_of_ids_0 order_refl)

lemma offer_live_Some: "offer_live cfg b r = Some r' \<longleftrightarrow> length (queue r) < agent_run_subscriber_queue_max cfg \<and> r' = enqueue b r"
  by (auto simp: offer_live_def)

lemma live_ok_drain [simp]: "live_ok fs (queue_drain n r) = live_ok fs r"
  by (simp add: live_ok_def queue_drain_def)

lemma live_ok_arrived [simp]: "live_ok fs (r\<lparr>arrived := n\<rparr>) = live_ok fs r"
  by (simp add: live_ok_def)

lemma live_ok_marked: "marked (sent r) \<Longrightarrow> rd_filter_seq r = fs \<Longrightarrow> live_ok fs r"
  by (simp add: live_ok_def)

text \<open>Delivering the next event, or the first one at or below the end of the filter.\<close>

lemma live_ok_deliver:
  assumes "live_ok fs r" "\<not> marked (sent r)" "event_ok e" "delivered r = 0 \<longrightarrow> ev_seq e \<le> fs + 1"
    "delivered r \<noteq> 0 \<longrightarrow> ev_seq e = delivered r + 1 \<and> ev_epoch e = generation r" "generation r' = ev_epoch e"
    "rd_filter_seq r' = fs" "sent r' = sent r @ [EventBlock (ev_epoch e) (ev_seq e) (ev_data e)]"
    "delivered r' = max (delivered r) (ev_seq e)" "hole_announced r' = hole_announced r"
  shows "live_ok fs r'"
proof (cases "delivered r = 0")
  case True
  with assms have "block_ids (sent r') = run_of_ids (generation r') (ev_seq e) 1" "delivered r' = ev_seq e + int 1 - 1"
    by (auto simp: live_ok_def run_of_ids_def event_ok_def)
  with True assms show ?thesis unfolding live_ok_def event_ok_def by (auto intro!: exI [of _ "ev_seq e"] exI [of _ "1 :: nat"])
next
  case False
  with assms(1,2) obtain a m where am: "0 < m" "0 < a" "a \<le> fs + 1" "block_ids (sent r) = run_of_ids (generation r) a m"
    "delivered r = a + int m - 1" by (auto simp: live_ok_def)
  with False assms have "block_ids (sent r') = run_of_ids (generation r') a (Suc m)" "delivered r' = a + int (Suc m) - 1"
    by (auto simp: run_of_ids_Suc)
  with am False assms show ?thesis unfolding live_ok_def event_ok_def by (auto intro!: exI [of _ a] exI [of _ "Suc m"])
qed

definition first_marker :: "ring_event \<Rightarrow> bool \<Rightarrow> reader \<Rightarrow> out_block list" where
  "first_marker e announced r =
     (if delivered r = 0 \<and> \<not> announced \<and> ev_seq e > rd_filter_seq r + 1 then [Marker (ev_epoch e) 0 (ev_seq e)] else [])"

lemma deliver_event_sent:
  assumes "deliver_event run cfg now e announced r = (x, r')"
  shows "rd_filter_seq r' = rd_filter_seq r"
    "\<exists>k. sent r' = sent r @ take k (first_marker e announced r @ [EventBlock (ev_epoch e) (ev_seq e) (ev_data e)])"
    "x \<in> {None, Some NormalEnd} \<Longrightarrow>
       sent r' = sent r @ first_marker e announced r @ [EventBlock (ev_epoch e) (ev_seq e) (ev_data e)] \<and>
       generation r' = generation r \<and> delivered r' = max (delivered r) (ev_seq e) \<and> hole_announced r' = hole_announced r \<and>
       arrived r' = arrived r \<and> replay_min_seq r' = replay_min_seq r"
proof -
  let ?E = "EventBlock (ev_epoch e) (ev_seq e) (ev_data e)" and ?M = "first_marker e announced r"
  have "rd_filter_seq r' = rd_filter_seq r \<and>
     (sent r' = sent r \<or> sent r' = sent r @ ?M \<or> sent r' = sent r @ ?M @ [?E])"
    using assms
    by (auto simp: deliver_event_def offer_opt_def offer_live_def enqueue_def Let_def first_marker_def
        split: if_splits option.splits sum.splits bool.splits)
  moreover have "sent r = sent r @ take 0 (?M @ [?E])" "sent r @ ?M = sent r @ take (length ?M) (?M @ [?E])"
    "sent r @ ?M @ [?E] = sent r @ take (Suc (length ?M)) (?M @ [?E])" by auto
  ultimately show "rd_filter_seq r' = rd_filter_seq r" "\<exists>k. sent r' = sent r @ take k (?M @ [?E])" by metis+
  show "x \<in> {None, Some NormalEnd} \<Longrightarrow> sent r' = sent r @ ?M @ [?E] \<and> generation r' = generation r \<and>
     delivered r' = max (delivered r) (ev_seq e) \<and> hole_announced r' = hole_announced r \<and>
     arrived r' = arrived r \<and> replay_min_seq r' = replay_min_seq r"
    using assms
    by (auto simp: deliver_event_def offer_opt_def offer_live_def enqueue_def Let_def first_marker_def
        split: if_splits option.splits sum.splits bool.splits)
qed

lemma classify_frame:
  assumes "classify e r = (r1, d, m)"
  shows "rd_filter_seq r1 = rd_filter_seq r" "sent r1 = sent r" "queue r1 = queue r" "arrived r1 = arrived r"
    "m \<noteq> None \<Longrightarrow> d \<and> (\<exists>b. m = Some b \<and> is_marker b)"
  using assms by (auto simp: classify_def split: if_splits)

lemma classify_unmarked:
  assumes "classify e r = (r1, d, None)" "live_ok fs r" "\<not> marked (sent r)" "event_ok e"
    "generation r = [] \<longrightarrow> delivered r = 0"
  shows "hole_announced r1 = hole_announced r \<and> delivered r1 = delivered r \<and>
    (d \<longrightarrow> generation r1 = ev_epoch e \<and> (delivered r \<noteq> 0 \<longrightarrow> ev_seq e = delivered r + 1 \<and> ev_epoch e = generation r)) \<and>
    (\<not> d \<longrightarrow> r1 = r)"
proof -
  have pos: "0 < delivered r" if "delivered r \<noteq> 0" using that assms(2,3) by (auto simp: live_ok_def)
  show ?thesis using assms pos by (auto simp: classify_def live_ok_def split: if_splits)
qed

text \<open>The delivery after an unmarked classification keeps the agreement, wherever it stops.\<close>

lemma deliver_live_ok:
  assumes d: "deliver_event run cfg now e False r = (x, r')" and ok: "live_ok fs r0" "\<not> marked (sent r0)" "event_ok e"
    and r: "sent r = sent r0" "delivered r = delivered r0" "rd_filter_seq r = fs" "generation r = ev_epoch e" "hole_announced r = hole_announced r0"
      "delivered r0 \<noteq> 0 \<longrightarrow> ev_seq e = delivered r0 + 1 \<and> ev_epoch e = generation r0"
  shows "good_sent fs (sent r') \<and> (x \<in> {None, Some NormalEnd} \<longrightarrow> live_ok fs r')"
proof (cases "delivered r0 = 0 \<and> ev_seq e > fs + 1")
  case True
  then have M: "first_marker e False r = [Marker (ev_epoch e) 0 (ev_seq e)]" using r by (simp add: first_marker_def)
  obtain k where k: "sent r' = sent r0 @ take k [Marker (ev_epoch e) 0 (ev_seq e), EventBlock (ev_epoch e) (ev_seq e) (ev_data e)]"
    using deliver_event_sent(2) [OF d] r(1) by (auto simp: M)
  have "good_sent fs (sent r')"
    using live_ok_good [OF ok(1)] by (cases k) (auto simp: k good_sent_def)
  moreover have "marked (sent r')" if "x \<in> {None, Some NormalEnd}" using deliver_event_sent(3) [OF d that] by (simp add: M)
  ultimately show ?thesis using deliver_event_sent(1) [OF d] r(3) by (auto intro: live_ok_marked)
next
  case False
  then have M: "first_marker e False r = []" using r by (simp add: first_marker_def)
  define r5 where "r5 = r\<lparr>sent := sent r0 @ [EventBlock (ev_epoch e) (ev_seq e) (ev_data e)], delivered := max (delivered r) (ev_seq e)\<rparr>"
  have r5: "live_ok fs r5" by (rule live_ok_deliver [OF ok]) (use False r in \<open>auto simp: r5_def\<close>)
  obtain k where k: "sent r' = sent r0 @ take k [EventBlock (ev_epoch e) (ev_seq e) (ev_data e)]"
    using deliver_event_sent(2) [OF d] r(1) by (auto simp: M)
  have "good_sent fs (sent r')"
    using live_ok_good [OF ok(1)] live_ok_good [OF r5] by (cases k) (auto simp: k r5_def)
  moreover have "live_ok fs r'" if "x \<in> {None, Some NormalEnd}"
    by (rule live_ok_deliver [OF ok])
      (use False r deliver_event_sent(3) [OF d that] deliver_event_sent(1) [OF d] in \<open>auto simp: M\<close>)
  ultimately show ?thesis by blast
qed

lemma on_event_live_ok:
  assumes step: "on_event run cfg now e r = (x, d, r')" and ok: "live_ok fs r" "event_ok e" "generation r = [] \<longrightarrow> delivered r = 0"
  shows "good_sent fs (sent r') \<and> (x \<in> {None, Some NormalEnd} \<longrightarrow> live_ok fs r')"
proof -
  obtain r1 d1 m where c: "classify e r = (r1, d1, m)" by (metis prod_cases3)
  note f = classify_frame [OF c]
  have fs: "rd_filter_seq r = fs" using ok by (simp add: live_ok_def)
  show ?thesis
  proof (cases "offer_opt cfg m r1")
    case None
    with step c f live_ok_good [OF ok(1)] show ?thesis by (auto simp: on_event_def)
  next
    case (Some r2)
    have r2: "rd_filter_seq r2 = fs" "sent r2 = sent r @ (case m of None \<Rightarrow> [] | Some b \<Rightarrow> [b])"
      using Some f fs by (auto simp: offer_opt_def offer_live_Some enqueue_def split: option.splits)
    have dl: "deliver_event run cfg now e (m \<noteq> None) (r2\<lparr>arrived := ev_seq e\<rparr>) = (x, r')" if d1
      using that step c Some by (auto simp: on_event_def Let_def split: prod.splits)
    have nd: "r' = r2\<lparr>arrived := ev_seq e\<rparr> \<and> x = None" if "\<not> d1" using that step c Some by (auto simp: on_event_def Let_def)
    show ?thesis
    proof (cases "marked (sent r) \<or> m \<noteq> None")
      case True
      have "marked (sent r2)" using True r2(2) f(5) by (auto split: option.splits)
      then have "marked (sent r') \<and> rd_filter_seq r' = fs"
        using nd deliver_event_sent(1,2) [OF dl] r2(1) by (cases d1) auto
      then show ?thesis by (auto simp: good_sent_def intro: live_ok_marked)
    next
      case False
      then have m: "m = None" and um: "\<not> marked (sent r)" by auto
      have r21: "r2 = r1" using Some m by (simp add: offer_opt_def)
      note u = classify_unmarked [OF c [unfolded m] ok(1) um ok(2,3)]
      show ?thesis
      proof (cases d1)
        case True
        show ?thesis
          by (rule deliver_live_ok [OF dl [unfolded m simp_thms, OF True] ok(1) um ok(2)]) (use True u m r21 r2 f in auto)
      next
        case False
        then have "live_ok fs r'" using u nd r21 ok(1) by simp
        then show ?thesis using live_ok_good by blast
      qed
    qed
  qed
qed

text \<open>A refused cursor: the first block is a marker, or none has been queued yet and the marker is due.\<close>

definition opens_marked :: "out_block list \<Rightarrow> bool" where
  "opens_marked bs \<longleftrightarrow> bs = [] \<or> is_marker (hd bs)"

definition gap_ok :: "bool \<Rightarrow> reader \<Rightarrow> bool" where
  "gap_ok ann r \<longleftrightarrow> (pending_gap r \<longrightarrow> sent r = [] \<and> generation r = []) \<and>
     (ann \<longrightarrow> pending_gap r \<or> sent r \<noteq> [] \<and> is_marker (hd (sent r)))"

lemma opens_marked_append: "xs \<noteq> [] \<Longrightarrow> opens_marked (xs @ ys) = opens_marked xs"
  by (simp add: opens_marked_def)

lemma gap_ok_opens: "gap_ok True r \<Longrightarrow> opens_marked (sent r)"
  by (auto simp: gap_ok_def opens_marked_def)

lemma on_event_sent_cases:
  assumes step: "on_event run cfg now e r = (x, d, r')" and c: "classify e r = (r1, d1, m)"
  shows "\<exists>bs. sent r' = sent r @ bs \<and> (m \<noteq> None \<longrightarrow> opens_marked bs \<and> (x \<in> {None, Some NormalEnd} \<longrightarrow> bs \<noteq> []))"
    "x \<in> {None, Some NormalEnd} \<Longrightarrow> pending_gap r' = pending_gap r1 \<and> generation r' = generation r1 \<and> (d1 \<longrightarrow> sent r' \<noteq> [])"
proof -
  note f = classify_frame [OF c]
  have "(\<exists>bs. sent r' = sent r @ bs \<and> (m \<noteq> None \<longrightarrow> opens_marked bs \<and> (x \<in> {None, Some NormalEnd} \<longrightarrow> bs \<noteq> []))) \<and>
    (x \<in> {None, Some NormalEnd} \<longrightarrow> pending_gap r' = pending_gap r1 \<and> generation r' = generation r1 \<and> (d1 \<longrightarrow> sent r' \<noteq> []))"
    using step c f
    by (auto simp: on_event_def deliver_event_def offer_opt_def offer_live_def enqueue_def Let_def opens_marked_def
        split: if_splits option.splits sum.splits bool.splits prod.splits)
  then show "\<exists>bs. sent r' = sent r @ bs \<and> (m \<noteq> None \<longrightarrow> opens_marked bs \<and> (x \<in> {None, Some NormalEnd} \<longrightarrow> bs \<noteq> []))"
    "x \<in> {None, Some NormalEnd} \<Longrightarrow> pending_gap r' = pending_gap r1 \<and> generation r' = generation r1 \<and> (d1 \<longrightarrow> sent r' \<noteq> [])"
    by auto
qed

lemma on_event_gap_ok:
  assumes step: "on_event run cfg now e r = (x, d, r')" and ok: "gap_ok ann r"
  shows "(ann \<longrightarrow> opens_marked (sent r')) \<and> (x \<in> {None, Some NormalEnd} \<longrightarrow> gap_ok ann r')"
proof -
  obtain r1 d1 m where c: "classify e r = (r1, d1, m)" by (metis prod_cases3)
  from on_event_sent_cases(1) [OF step c] obtain bs where bs: "sent r' = sent r @ bs"
    "m \<noteq> None \<longrightarrow> opens_marked bs \<and> (x \<in> {None, Some NormalEnd} \<longrightarrow> bs \<noteq> [])" by blast
  note s = on_event_sent_cases(2) [OF step c]
  show ?thesis
  proof (cases "pending_gap r")
    case True
    then have "sent r = []" "generation r = []" using ok by (auto simp: gap_ok_def)
    then have "m \<noteq> None" "\<not> pending_gap r1" using True c by (auto simp: classify_def)
    then show ?thesis using bs s \<open>sent r = []\<close> by (auto simp: gap_ok_def opens_marked_def)
  next
    case False
    then have "\<not> pending_gap r1" using c by (auto simp: classify_def split: if_splits)
    then show ?thesis using False ok bs s by (auto simp: gap_ok_def opens_marked_def)
  qed
qed

subsection \<open>The whole live phase\<close>

definition live_inv :: "int \<Rightarrow> bool \<Rightarrow> reader \<Rightarrow> bool" where
  "live_inv fs ann r \<longleftrightarrow> live_ok fs r \<and> gap_ok ann r \<and> (generation r = [] \<longrightarrow> delivered r = 0)"

definition sent_ok :: "int \<Rightarrow> bool \<Rightarrow> out_block list \<Rightarrow> bool" where
  "sent_ok fs ann bs \<longleftrightarrow> good_sent fs bs \<and> (ann \<longrightarrow> opens_marked bs)"

lemma live_inv_sent: "live_inv fs ann r \<Longrightarrow> sent_ok fs ann (sent r)"
  by (auto simp: live_inv_def sent_ok_def live_ok_good gap_ok_opens)

lemma live_inv_drain [simp]: "live_inv fs ann (queue_drain n r) = live_inv fs ann r"
  by (simp add: live_inv_def gap_ok_def) (simp add: queue_drain_def)

lemma classify_generation: "classify e r = (r1, d, m) \<Longrightarrow> event_ok e \<Longrightarrow> generation r1 \<noteq> []"
  by (auto simp: classify_def event_ok_def split: if_splits)

lemma on_event_inv:
  assumes "on_event run cfg now e r = (x, d, r')" "live_inv fs ann r" "event_ok e"
  shows "sent_ok fs ann (sent r') \<and> (x \<in> {None, Some NormalEnd} \<longrightarrow> live_inv fs ann r')"
proof -
  obtain r1 d1 m where c: "classify e r = (r1, d1, m)" by (metis prod_cases3)
  have "generation r' \<noteq> []" if "x \<in> {None, Some NormalEnd}"
    using on_event_sent_cases(2) [OF assms(1) c that] classify_generation [OF c assms(3)] by simp
  then show ?thesis
    using on_event_live_ok [OF assms(1)] on_event_gap_ok [OF assms(1)] assms(2,3) by (auto simp: live_inv_def sent_ok_def)
qed

lemma regenerate_inv:
  assumes "regenerate cfg fresh r = (x, r')" "live_inv fs ann r" "fresh \<noteq> EpochRead (Some [])"
  shows "sent_ok fs ann (sent r') \<and> (x = None \<longrightarrow> live_inv fs ann r') \<and> x \<in> {None, Some AbnormalEnd}"
proof -
  have "x = None \<longrightarrow> live_inv fs ann r'" "x \<noteq> None \<longrightarrow> x = Some AbnormalEnd \<and> r' = r"
    using assms
    by (auto simp: regenerate_def offer_opt_def offer_live_def enqueue_def live_inv_def live_ok_def gap_ok_def
        split: epoch_read.splits option.splits if_splits)
  then show ?thesis using live_inv_sent assms(2) by auto
qed

lemma live_round_inv:
  assumes "live_round run cfg i (t, r) = (x, t', r')" "live_inv fs ann r" "input_ok i"
  shows "sent_ok fs ann (sent r') \<and> (x = None \<longrightarrow> live_inv fs ann r')"
proof -
  let ?r0 = "queue_drain (li_taken i) r"
  obtain y d r1 where m: "on_message run cfg (li_now i) (li_read i) ?r0 = (y, d, r1)" by (metis prod_cases3)
  have i0: "live_inv fs ann ?r0" using assms(2) by simp
  have 1: "sent_ok fs ann (sent r1) \<and> (y = None \<longrightarrow> live_inv fs ann r1)"
  proof (cases "\<exists>item e. li_read i = Message item \<and> parse_element item = Inr (Some e)")
    case True
    then obtain item e where e: "li_read i = Message item" "parse_element item = Inr (Some e)" by blast
    then have "event_ok e" using assms(3) by simp
    moreover have "on_event run cfg (li_now i) e ?r0 = (y, d, r1)" using m e by (simp add: on_message_def)
    ultimately show ?thesis using on_event_inv i0 by blast
  next
    case False
    then have "r1 = ?r0" using m by (auto simp: on_message_def split: channel_read.splits sum.splits option.splits)
    then show ?thesis using i0 live_inv_sent by auto
  qed
  show ?thesis
  proof (cases "y = None \<and> \<not> d \<and> li_now i - t \<ge> agent_run_consumer_lease_renew_seconds cfg")
    case True
    then have "regenerate cfg (li_fresh i) r1 = (x, r')" using assms(1) m by (auto simp: live_round_def split: prod.splits)
    then show ?thesis using regenerate_inv 1 True assms(3) by auto
  next
    case False
    then have "x = y \<and> r' = r1" using assms(1) m by (auto simp: live_round_def split: option.splits bool.splits)
    then show ?thesis using 1 by blast
  qed
qed

lemma classify_live_inv:
  "classify_live run cfg inputs (t, r) = (x, t', r') \<Longrightarrow> live_inv fs ann r \<Longrightarrow> list_all input_ok inputs \<Longrightarrow>
   sent_ok fs ann (sent r')"
proof (induction inputs arbitrary: t r)
  case Nil
  then show ?case using live_inv_sent by auto
next
  case (Cons i inputs)
  obtain y t1 r1 where y: "live_round run cfg i (t, r) = (y, t1, r1)" by (metis prod_cases3)
  from live_round_inv [OF y Cons.prems(2)] Cons.prems(3) have 1: "sent_ok fs ann (sent r1)" "y = None \<longrightarrow> live_inv fs ann r1" by auto
  show ?case using Cons y 1 by (cases y) auto
qed

subsection \<open>The whole session\<close>

text \<open>The marker of a refused cursor, and the reader when the live phase starts.\<close>

definition gap_marker :: "cursor \<Rightarrow> opened \<Rightarrow> out_block list" where
  "gap_marker c o' = (if announce_gap (session_verdict c o') \<and> session_generation o' \<noteq> []
     then [Marker (session_generation o') 0 (rp_first_seq (session_replay c o'))] else [])"

definition live_reader :: "cursor \<Rightarrow> opened \<Rightarrow> rat \<Rightarrow> out_block list \<Rightarrow> reader" where
  "live_reader c o' t0 q =
     (new_reader c o' t0)\<lparr>queue := q, sent := gap_marker c o' @ rp_blocks (session_replay c o'),
       pending_gap := announce_gap (session_verdict c o') \<and> session_generation o' = []\<rparr>"

lemma replay_part_ok:
  fixes c :: cursor and o' :: opened
  assumes ok: "ring_ok g a o'"
  defines "fs \<equiv> filter_seq (session_verdict c o')" and "ann \<equiv> announce_gap (session_verdict c o')"
  shows "sent_ok fs ann (take k (gap_marker c o' @ rp_blocks (session_replay c o')))"
proof -
  let ?pend = "filter (\<lambda>e. ev_seq e > fs) (op_ring o')" and ?B = "rp_blocks (session_replay c o')"
  note F = replay_facts [OF ok, of c, folded fs_def ann_def]
  show ?thesis
  proof (cases "?pend = []")
    case True
    then have "?B = []" using F(1) by simp
    then show ?thesis by (cases k) (auto simp: sent_ok_def good_sent_def opens_marked_def gap_marker_def)
  next
    case False
    then have "session_generation o' \<noteq> []"
      using ring_generation [OF ok] ok by (cases "op_ring o' = []") (auto simp: ring_ok_def)
    from F(2) [OF False] obtain ms where ms: "?B = ms @ map (\<lambda>e. EventBlock g (ev_seq e) (ev_data e)) ?pend"
      "list_all is_marker ms" "ms = [] \<longrightarrow> ann \<or> a \<le> fs + 1" by blast
    show ?thesis
    proof (cases "gap_marker c o' @ ms = []")
      case True
      with ms \<open>session_generation o' \<noteq> []\<close> have "\<not> ann" "a \<le> fs + 1" by (auto simp: gap_marker_def ann_def split: if_splits)
      have "map (\<lambda>e. (g, ev_seq e)) ?pend = run_of_ids g (max a (fs + 1)) (length ?pend)"
        using arg_cong [OF F(3), of "map (\<lambda>p. (g, snd p))"] by (simp add: run_of_ids_def comp_def)
      then have "block_ids (take k (map (\<lambda>e. EventBlock g (ev_seq e) (ev_data e)) ?pend)) = run_of_ids g (max a (fs + 1)) (min k (length ?pend))"
        by (simp only: take_map block_ids_map) (metis take_map take_run_of_ids)
      then have "gapless fs (take k ?B)" using True ms(1) \<open>a \<le> fs + 1\<close> unfolding gapless_def by fastforce
      then show ?thesis using True \<open>\<not> ann\<close> by (simp add: sent_ok_def good_sent_def)
    next
      case False
      have "list_all is_marker (gap_marker c o' @ ms)" using ms(2) by (auto simp: gap_marker_def)
      with False obtain b rest where "gap_marker c o' @ ms = b # rest" "is_marker b" by (cases "gap_marker c o' @ ms") auto
      then have "gap_marker c o' @ ?B = b # rest @ map (\<lambda>e. EventBlock g (ev_seq e) (ev_data e)) ?pend" using ms(1) by simp
      then show ?thesis using \<open>is_marker b\<close> by (cases k) (auto simp: sent_ok_def good_sent_def opens_marked_def)
    qed
  qed
qed

lemma live_reader_inv:
  fixes c :: cursor and o' :: opened
  assumes ok: "ring_ok g a o'"
  defines "fs \<equiv> filter_seq (session_verdict c o')" and "ann \<equiv> announce_gap (session_verdict c o')"
  shows "live_inv fs ann (live_reader c o' t0 q)"
proof -
  let ?pend = "filter (\<lambda>e. ev_seq e > fs) (op_ring o')" and ?B = "rp_blocks (session_replay c o')"
  let ?r = "live_reader c o' t0 q"
  note F = replay_facts [OF ok, of c, folded fs_def ann_def]
  have gen: "session_generation o' = g" if "op_ring o' \<noteq> []" using that ring_generation [OF ok] by simp
  have no_gen: "?pend = []" if "session_generation o' = []" using that gen ok by (cases "op_ring o' = []") (auto simp: ring_ok_def)
  have del: "delivered ?r = rp_max_seq (session_replay c o')" "generation ?r = session_generation o'" "rd_filter_seq ?r = fs"
    "sent ?r = gap_marker c o' @ ?B" "\<not> hole_announced ?r" "pending_gap ?r \<longleftrightarrow> ann \<and> session_generation o' = []"
    by (simp_all add: live_reader_def new_reader_def fs_def ann_def)
  have B0: "?B = [] \<and> delivered ?r = 0" if "session_generation o' = []" using F(1) [OF no_gen [OF that]] del(1) by simp
  have "gap_ok ann ?r"
    using B0 by (cases "ann \<and> session_generation o' \<noteq> []") (auto simp: gap_ok_def del gap_marker_def ann_def)
  moreover have "live_ok fs ?r"
  proof (cases "marked (sent ?r)")
    case True
    then show ?thesis using del(3) by (rule live_ok_marked)
  next
    case False
    then have gm: "gap_marker c o' = []" using del(4) by (auto simp: gap_marker_def split: if_splits)
    show ?thesis
    proof (cases "?pend = []")
      case True
      then show ?thesis using F(1) gm del by (simp add: live_ok_def)
    next
      case ne: False
      from F(2) [OF ne] obtain ms where ms: "?B = ms @ map (\<lambda>e. EventBlock g (ev_seq e) (ev_data e)) ?pend"
        "list_all is_marker ms" "ms = [] \<longrightarrow> ann \<or> a \<le> fs + 1" "rp_max_seq (session_replay c o') = max a (fs + 1) + int (length ?pend) - 1"
        by blast
      have "ms = []" using False ms(1,2) del(4) by (cases ms) auto
      moreover have g: "session_generation o' = g" using ne gen by (cases "op_ring o' = []") auto
      ultimately have a: "a \<le> fs + 1" using ms(3) gm ok by (auto simp: gap_marker_def ann_def ring_ok_def split: if_splits)
      have "block_ids (sent ?r) = run_of_ids g (max a (fs + 1)) (length ?pend)"
        using arg_cong [OF F(3), of "map (\<lambda>p. (g, snd p))"] \<open>ms = []\<close> ms(1) gm del(4)
        by (simp add: block_ids_map run_of_ids_def comp_def)
      moreover have ag: "1 \<le> a" "g \<noteq> []" using ok by (auto simp: ring_ok_def)
      moreover have len: "1 \<le> int (length ?pend)" using ne by (cases ?pend) auto
      ultimately have "\<exists>b m. 0 < m \<and> 0 < b \<and> b \<le> fs + 1 \<and> block_ids (sent ?r) = run_of_ids (generation ?r) b m \<and>
          delivered ?r = b + int m - 1 \<and> generation ?r \<noteq> []"
        using del(1,2) g ms(4) a by (intro exI [of _ "max a (fs + 1)"] exI [of _ "length ?pend"]) auto
      moreover have "delivered ?r \<noteq> 0" using del(1) ms(4) ag len by linarith
      ultimately show ?thesis using del(3,5) unfolding live_ok_def by simp
    qed
  qed
  ultimately show ?thesis using B0 del by (simp add: live_inv_def)
qed

lemma put_pending_gap_core:
  assumes "put_pending_gap cfg ob (rp_first_seq (session_replay c o')) (new_reader c o' t0) = Some (b, r1)"
  shows "\<exists>q j. sent r1 = take j (gap_marker c o') \<and>
    (b \<longrightarrow> r1 = (new_reader c o' t0)\<lparr>queue := q, sent := gap_marker c o',
       pending_gap := announce_gap (session_verdict c o') \<and> session_generation o' = []\<rparr>)"
proof (cases "announce_gap (session_verdict c o') \<and> session_generation o' \<noteq> []")
  case True
  let ?r0 = "new_reader c o' t0"
  have r0: "pending_gap ?r0" "generation ?r0 = session_generation o'" "sent ?r0 = []" using True by (simp_all add: new_reader_def)
  from assms r0 True obtain r2 where
    p: "put_due_replay cfg ob (Marker (session_generation o') 0 (rp_first_seq (session_replay c o'))) ?r0 = Some (b, r2)"
    and r1: "r1 = r2\<lparr>pending_gap := False\<rparr>" by (auto simp: put_pending_gap_def)
  from put_due_replay_core [OF p] r0 r1 True show ?thesis
    by (auto simp: gap_marker_def intro!: exI [of _ "if b then 1 else 0"])
next
  case False
  then have "r1 = new_reader c o' t0" using assms by (auto simp: put_pending_gap_def new_reader_def)
  then show ?thesis using False by (intro exI [of _ "[]"] exI [of _ 0]) (auto simp: gap_marker_def new_reader_def)
qed

lemma replay_phase_core:
  assumes "replay_phase run cfg c o' obs (new_reader c o' t0) = Some (z, r2)"
  shows "\<exists>k. sent r2 = take k (gap_marker c o' @ rp_blocks (session_replay c o'))"
    "z = Inr (True, y) \<Longrightarrow> \<exists>q. r2 = live_reader c o' t0 q"
proof -
  let ?M = "gap_marker c o'" and ?B = "rp_blocks (session_replay c o')"
  obtain b r1 where p: "put_pending_gap cfg (ob_marker obs) (rp_first_seq (session_replay c o')) (new_reader c o' t0) = Some (b, r1)"
    using assms by (auto simp: replay_phase_def split: option.splits)
  from put_pending_gap_core [OF p] obtain q j where r1: "sent r1 = take j ?M"
    "b \<longrightarrow> r1 = (new_reader c o' t0)\<lparr>queue := q, sent := ?M, pending_gap := announce_gap (session_verdict c o') \<and> session_generation o' = []\<rparr>"
    by blast
  have "(\<exists>k. sent r2 = take k (?M @ ?B)) \<and> (z = Inr (True, y) \<longrightarrow> (\<exists>q. r2 = live_reader c o' t0 q))"
  proof (cases b)
    case True
    then have "put_all_replay run cfg (ob_blocks obs) ?B False r1 = Some (z, r2)" using assms p by (simp add: replay_phase_def)
    from put_all_replay_core [OF this] obtain q' k where r2: "r2 = r1\<lparr>queue := q', sent := sent r1 @ take k ?B\<rparr>"
      "\<forall>y. z = Inr (True, y) \<longrightarrow> k \<ge> length ?B" by blast
    have "sent r2 = take (length ?M + k) (?M @ ?B)" using r2(1) r1(2) True by simp
    moreover have "\<exists>q. r2 = live_reader c o' t0 q" if "z = Inr (True, y)"
      using that r2 r1(2) True by (auto simp: live_reader_def new_reader_def)
    ultimately show ?thesis by blast
  next
    case False
    then have "z = Inr (False, False)" "r2 = r1" using assms p by (auto simp: replay_phase_def)
    moreover have "take j ?M = take (min j (length ?M)) (?M @ ?B)" by (simp add: min_def)
    ultimately have "z = Inr (False, False)" "sent r2 = take (min j (length ?M)) (?M @ ?B)" using r1(1) by (simp only:)+
    then show ?thesis by blast
  qed
  then show "\<exists>k. sent r2 = take k (?M @ ?B)" "z = Inr (True, y) \<Longrightarrow> \<exists>q. r2 = live_reader c o' t0 q" by auto
qed

lemma await_live_phase_core: "await_live_phase cfg ob (live_reader c o' t0 q) = Some (b, r) \<Longrightarrow> \<exists>q. r = live_reader c o' t0 q"
  by (auto simp: await_live_phase_def live_reader_def new_reader_def dest!: await_half_core)

text \<open>
  Claim C19. No unannounced gap. Whatever arrives on the channel, however slowly the client reads and however
  the session ends: as long as no \<open>run.truncated\<close> marker has been queued, the events queued for the
  client, replayed and live, are consecutive numbers of one generation, starting at most one past the
  part of its cursor that was accepted; and when the cursor was refused or could not be verified the
  first block queued is a marker.
\<close>

theorem unmarked_stream_has_no_gap:
  assumes "ring_ok g a o'" "list_all input_ok (ob_live obs)" "read_until_end run_id cfg c o' obs t0 = Some (x, r)"
  shows "(marked (sent r) \<or> (\<exists>e n m. n \<le> filter_seq (session_verdict c o') + 1 \<and> block_ids (sent r) = run_of_ids e n m)) \<and>
    (announce_gap (session_verdict c o') \<longrightarrow> sent r = [] \<or> is_marker (hd (sent r)))"
proof -
  let ?ok = "sent_ok (filter_seq (session_verdict c o')) (announce_gap (session_verdict c o'))"
  have part: "?ok (take k (gap_marker c o' @ rp_blocks (session_replay c o')))" for k by (rule replay_part_ok [OF assms(1)])
  have live: "?ok (sent r')" if "live_phase run_id cfg obs (live_reader c o' t0 q) = Some (y, r')" for q y r'
  proof -
    from that obtain b r1 where a: "await_live_phase cfg (ob_switch obs) (live_reader c o' t0 q) = Some (b, r1)"
      by (auto simp: live_phase_def split: option.splits)
    then obtain q' where r1: "r1 = live_reader c o' t0 q'" using await_live_phase_core by blast
    note inv = live_reader_inv [OF assms(1), of c t0 q']
    show ?thesis
      using that a live_inv_sent [OF inv] classify_live_inv [OF _ inv assms(2)] r1
      by (cases b) (auto simp: live_phase_def split: prod.splits)
  qed
  have "?ok (sent r)"
  proof (cases "op_ring o' = [] \<and> op_lease o' = Some False \<and> \<not> op_terminal o'")
    case True
    then have "sent r = []" using assms(3) by (auto simp: read_until_end_def new_reader_def)
    then show ?thesis using part [of 0] by simp
  next
    case False
    then obtain z r1 where z: "replay_phase run_id cfg c o' obs (new_reader c o' t0) = Some (z, r1)"
      using assms(3) by (auto simp: read_until_end_def Let_def split: option.splits)
    have r1: "?ok (sent r1)" using replay_phase_core(1) [OF z] part by metis
    show ?thesis
    proof (cases "\<exists>t. z = Inr (True, t) \<and> \<not> (op_terminal o' \<or> t)")
      case True
      then obtain t q where "z = Inr (True, t)" "\<not> (op_terminal o' \<or> t)" "r1 = live_reader c o' t0 q"
        using replay_phase_core(2) [OF z] by blast
      then show ?thesis using live assms(3) z False by (auto simp: read_until_end_def Let_def)
    next
      case no: False
      then have "r = r1" using assms(3) z False by (auto simp: read_until_end_def Let_def split: sum.splits bool.splits if_splits)
      then show ?thesis using r1 by simp
    qed
  qed
  then show ?thesis by (auto simp: sent_ok_def good_sent_def gapless_def opens_marked_def)
qed

subsection \<open>Everything that arrives is delivered\<close>

definition block_of :: "ring_event \<Rightarrow> out_block" where
  "block_of e = EventBlock (ev_epoch e) (ev_seq e) (ev_data e)"

text \<open>The event itself was queued, or the ring's element with the same generation and number was.\<close>

definition covered :: "ring_event list \<Rightarrow> ring_event \<Rightarrow> out_block list \<Rightarrow> bool" where
  "covered ring e bs \<longleftrightarrow> (\<exists>x \<in> insert e (set ring). ev_epoch x = ev_epoch e \<and> ev_seq x = ev_seq e \<and> block_of x \<in> set bs)"

text \<open>The numbers that may be dropped are those of ring elements that were queued.\<close>

definition overlap_ok :: "ring_event list \<Rightarrow> reader \<Rightarrow> bool" where
  "overlap_ok ring r \<longleftrightarrow> (generation r = [] \<longrightarrow> delivered r = 0) \<and> 0 \<le> arrived r \<and>
     (\<forall>n. arrived r < n \<and> n \<le> delivered r \<and> replay_min_seq r \<le> n \<longrightarrow>
        (\<exists>x \<in> set ring. ev_epoch x = generation r \<and> ev_seq x = n \<and> block_of x \<in> set (sent r)))"

lemma covered_mono: "covered ring e bs \<Longrightarrow> set bs \<subseteq> set bs' \<Longrightarrow> covered ring e bs'"
  by (auto simp: covered_def)

lemma overlap_ok_drain [simp]: "overlap_ok ring (queue_drain n r) = overlap_ok ring r"
  by (simp add: overlap_ok_def queue_drain_def)

lemma on_event_covers:
  assumes step: "on_event run cfg now e r = (None, d, r')" and ok: "overlap_ok ring r" "event_ok e"
  shows "covered ring e (sent r') \<and> overlap_ok ring r' \<and> set (sent r) \<subseteq> set (sent r')"
proof -
  obtain r1 d1 m where c: "classify e r = (r1, d1, m)" by (metis prod_cases3)
  note f = classify_frame [OF c]
  from step c obtain r2 where r2: "offer_opt cfg m r1 = Some r2" by (auto simp: on_event_def split: option.splits)
  have eq: "generation r2 = generation r1" "delivered r2 = delivered r1" "replay_min_seq r2 = replay_min_seq r1" "set (sent r) \<subseteq> set (sent r2)"
    using r2 f by (auto simp: offer_opt_def offer_live_Some enqueue_def split: option.splits)
  show ?thesis
  proof (cases d1)
    case True
    then have "deliver_event run cfg now e (m \<noteq> None) (r2\<lparr>arrived := ev_seq e\<rparr>) = (None, r')"
      using step c r2 by (auto simp: on_event_def Let_def split: prod.splits)
    from deliver_event_sent(3) [OF this] have s: "block_of e \<in> set (sent r')" "set (sent r2) \<subseteq> set (sent r')"
      "generation r' = generation r1" "delivered r' = max (delivered r1) (ev_seq e)" "arrived r' = ev_seq e" "replay_min_seq r' = replay_min_seq r1"
      using eq by (auto simp: block_of_def)
    have g: "generation r1 \<noteq> []" by (rule classify_generation [OF c ok(2)])
    have "\<exists>x \<in> set ring. ev_epoch x = generation r' \<and> ev_seq x = n \<and> block_of x \<in> set (sent r')"
      if "arrived r' < n" "n \<le> delivered r'" "replay_min_seq r' \<le> n" for n
    proof -
      have "ev_seq e < n" "n \<le> delivered r1" using that s by auto
      then have "generation r1 = generation r \<and> delivered r1 = delivered r \<and> replay_min_seq r1 = replay_min_seq r \<and> arrived r < n"
        using c ok by (auto simp: classify_def overlap_ok_def event_ok_def split: if_splits)
      then show ?thesis using ok(1) that \<open>n \<le> delivered r1\<close> s(2,3,6) eq(4) unfolding overlap_ok_def by (metis subsetD)
    qed
    then show ?thesis using s g eq(4) ok(2) by (auto simp: overlap_ok_def covered_def event_ok_def)
  next
    case False
    then have r': "r' = r2\<lparr>arrived := ev_seq e\<rparr>" using step c r2 by (auto simp: on_event_def Let_def)
    have drop: "r1 = r" "m = None" "ev_epoch e = generation r" "arrived r < ev_seq e" "ev_seq e \<le> delivered r" "replay_min_seq r \<le> ev_seq e"
      using c False by (auto simp: classify_def split: if_splits)
    have "r2 = r" using r2 drop by (simp add: offer_opt_def)
    then show ?thesis using ok(1) drop(3-6) r' unfolding overlap_ok_def covered_def by (auto intro: order.trans)
  qed
qed

lemma regenerate_overlap:
  assumes "regenerate cfg fresh r = (None, r')" "overlap_ok ring r"
  shows "overlap_ok ring r' \<and> set (sent r) \<subseteq> set (sent r')"
  using assms
  by (auto simp: regenerate_def offer_opt_def offer_live_def enqueue_def overlap_ok_def split: epoch_read.splits option.splits if_splits)

definition arrives :: "live_input \<Rightarrow> ring_event \<Rightarrow> bool" where
  "arrives i e \<longleftrightarrow> (\<exists>item. li_read i = Message item \<and> parse_element item = Inr (Some e))"

lemma live_round_covers:
  assumes step: "live_round run cfg i (t, r) = (None, t', r')" and ok: "overlap_ok ring r" "input_ok i"
  shows "(\<forall>e. arrives i e \<longrightarrow> covered ring e (sent r')) \<and> overlap_ok ring r' \<and> set (sent r) \<subseteq> set (sent r')"
proof -
  let ?r0 = "queue_drain (li_taken i) r"
  have s0: "sent ?r0 = sent r" "overlap_ok ring ?r0" using ok(1) by (simp_all) (simp add: queue_drain_def)
  obtain d r1 where m: "on_message run cfg (li_now i) (li_read i) ?r0 = (None, d, r1)"
    using step by (auto simp: live_round_def split: prod.splits option.splits)
  have 1: "(\<forall>e. arrives i e \<longrightarrow> covered ring e (sent r1)) \<and> overlap_ok ring r1 \<and> set (sent r) \<subseteq> set (sent r1)"
  proof (cases "\<exists>e. arrives i e")
    case True
    then obtain item e where e: "li_read i = Message item" "parse_element item = Inr (Some e)" by (auto simp: arrives_def)
    then have "event_ok e" using ok(2) by simp
    moreover have "on_event run cfg (li_now i) e ?r0 = (None, d, r1)" using m e by (simp add: on_message_def)
    ultimately have "covered ring e (sent r1) \<and> overlap_ok ring r1 \<and> set (sent r) \<subseteq> set (sent r1)"
      using on_event_covers s0 by metis
    moreover have "e' = e" if "arrives i e'" for e' using that e by (auto simp: arrives_def)
    ultimately show ?thesis by blast
  next
    case False
    then have "r1 = ?r0" using m by (auto simp: on_message_def arrives_def split: channel_read.splits sum.splits option.splits)
    then show ?thesis using False s0 by auto
  qed
  have "r' = r1 \<or> regenerate cfg (li_fresh i) r1 = (None, r')"
    using step m by (auto simp: live_round_def split: bool.splits prod.splits if_splits)
  then have "overlap_ok ring r' \<and> set (sent r1) \<subseteq> set (sent r')" using regenerate_overlap 1 by blast
  then show ?thesis using 1 covered_mono by blast
qed

lemma classify_live_covers:
  "classify_live run cfg inputs (t, r) = (None, t', r') \<Longrightarrow> overlap_ok ring r \<Longrightarrow> list_all input_ok inputs \<Longrightarrow>
   (\<forall>i \<in> set inputs. \<forall>e. arrives i e \<longrightarrow> covered ring e (sent r')) \<and> set (sent r) \<subseteq> set (sent r')"
proof (induction inputs arbitrary: t r)
  case (Cons i inputs)
  then obtain t1 r1 where l: "live_round run cfg i (t, r) = (None, t1, r1)" and
    rest: "classify_live run cfg inputs (t1, r1) = (None, t', r')" by (auto split: prod.splits option.splits)
  from live_round_covers [OF l Cons.prems(2)] Cons.prems(3)
  have 1: "\<forall>e. arrives i e \<longrightarrow> covered ring e (sent r1)" "overlap_ok ring r1" "set (sent r) \<subseteq> set (sent r1)" by auto
  with Cons.IH [OF rest] Cons.prems(3) show ?case by (auto intro: covered_mono)
qed simp

lemma live_reader_overlap:
  fixes c :: cursor and o' :: opened
  assumes ok: "ring_ok g a o'"
  shows "overlap_ok (op_ring o') (live_reader c o' t0 q)"
proof -
  let ?fs = "filter_seq (session_verdict c o')" and ?r = "live_reader c o' t0 q"
  let ?pend = "filter (\<lambda>e. ev_seq e > ?fs) (op_ring o')"
  note F = replay_facts [OF ok, of c]
  have r: "arrived ?r = 0" "generation ?r = session_generation o'" "delivered ?r = rp_max_seq (session_replay c o')"
    "replay_min_seq ?r = rp_min_seq (session_replay c o')" "sent ?r = gap_marker c o' @ rp_blocks (session_replay c o')"
    by (simp_all add: live_reader_def new_reader_def)
  show ?thesis
  proof (cases "?pend = []")
    case True
    then show ?thesis using F(1) r by (auto simp: overlap_ok_def)
  next
    case False
    then have ne: "op_ring o' \<noteq> []" by auto
    have g: "session_generation o' = g" "g \<noteq> []" using ring_generation [OF ok ne] ok by (auto simp: ring_ok_def)
    let ?s = "max a (?fs + 1)"
    from F(2) [OF False] obtain ms where ms: "rp_blocks (session_replay c o') = ms @ map (\<lambda>e. EventBlock g (ev_seq e) (ev_data e)) ?pend"
      "rp_min_seq (session_replay c o') = ?s" "rp_max_seq (session_replay c o') = ?s + int (length ?pend) - 1" by blast
    have "\<exists>x \<in> set (op_ring o'). ev_epoch x = g \<and> ev_seq x = n \<and> block_of x \<in> set (sent ?r)" if n: "?s \<le> n" "n \<le> ?s + int (length ?pend) - 1" for n
    proof -
      define i where "i = nat (n - ?s)"
      have i: "i < length ?pend" "?s + int i = n" using n by (auto simp: i_def)
      have "map (\<lambda>e. (ev_epoch e, ev_seq e)) ?pend ! i = run_of_ids g ?s (length ?pend) ! i" by (simp only: F(3))
      then have "(ev_epoch (?pend ! i), ev_seq (?pend ! i)) = run_of_ids g ?s (length ?pend) ! i" by (simp only: nth_map [OF i(1)])
      then have x: "ev_epoch (?pend ! i) = g" "ev_seq (?pend ! i) = n" using i by (simp_all add: run_of_ids_def)
      have mem: "?pend ! i \<in> set ?pend" using i(1) by (rule nth_mem)
      then have "EventBlock g (ev_seq (?pend ! i)) (ev_data (?pend ! i)) \<in> set (map (\<lambda>e. EventBlock g (ev_seq e) (ev_data e)) ?pend)"
        by (simp only: set_map) (rule imageI)
      then have "block_of (?pend ! i) \<in> set (sent ?r)" unfolding r(5) ms(1) block_of_def x(1) set_append by blast
      moreover have "?pend ! i \<in> set (op_ring o')" using mem by (simp only: set_filter) blast
      ultimately show ?thesis using x by blast
    qed
    then show ?thesis using r ms(2,3) g by (auto simp: overlap_ok_def)
  qed
qed

text \<open>
  Nothing that arrives is lost. While a session is open, every event that has arrived on its
  channel has been queued for the client: either the event itself, or the ring's element with the same
  generation and number. Only such copies are dropped without a word.
\<close>

theorem arrivals_are_delivered:
  assumes "ring_ok g a o'" "list_all input_ok (ob_live obs)" "read_until_end run_id cfg c o' obs t0 = Some (None, r)"
    and "i \<in> set (ob_live obs)" "arrives i e"
  shows "\<exists>x \<in> insert e (set (op_ring o')). ev_epoch x = ev_epoch e \<and> ev_seq x = ev_seq e \<and>
    EventBlock (ev_epoch x) (ev_seq x) (ev_data x) \<in> set (sent r)"
proof -
  obtain z r1 where z: "replay_phase run_id cfg c o' obs (new_reader c o' t0) = Some (z, r1)"
    using assms(3) by (auto simp: read_until_end_def Let_def split: option.splits if_splits)
  then obtain t where "z = Inr (True, t)" and live: "live_phase run_id cfg obs r1 = Some (None, r)"
    using assms(3) by (auto simp: read_until_end_def Let_def split: sum.splits bool.splits if_splits)
  then obtain q where q: "r1 = live_reader c o' t0 q" using replay_phase_core(2) [OF z] by blast
  from live obtain r2 t' where a: "await_live_phase cfg (ob_switch obs) r1 = Some (True, r2)"
    and l: "classify_live run_id cfg (ob_live obs) (ob_start obs, r2) = (None, t', r)"
    by (auto simp: live_phase_def split: option.splits bool.splits prod.splits)
  obtain q' where "r2 = live_reader c o' t0 q'" using await_live_phase_core a q by blast
  then have "overlap_ok (op_ring o') r2" using live_reader_overlap [OF assms(1)] by simp
  from classify_live_covers [OF l this assms(2)] assms(4,5) show ?thesis by (auto simp: covered_def block_of_def)
qed

subsection \<open>Instances\<close>

definition demo_broker :: broker_settings where
  "demo_broker = \<lparr>agent_run_subscriber_queue_max = 10, agent_run_subscriber_drain_seconds = 120, agent_run_subscriber_probe_seconds = 30,
     agent_run_downstream_idle_timeout_seconds = 60, agent_run_consumer_lease_renew_seconds = 10\<rparr>"

definition demo_opened :: opened where
  "demo_opened = \<lparr>op_epoch = Some [97], op_current_seq = 2,
     op_ring = [\<lparr>ev_epoch = [97], ev_seq = 1, ev_data = [104]\<rparr>, \<lparr>ev_epoch = [97], ev_seq = 2, ev_data = [105]\<rparr>],
     op_terminal = False, op_lease = Some True\<rparr>"

definition demo_input :: live_input where
  "demo_input = \<lparr>li_now = 1, li_taken = 0, li_read = Message (ring_element dec [97] 3 (encode_data [106])), li_fresh = EpochRead None\<rparr>"

definition demo_observations :: observations where
  "demo_observations = \<lparr>ob_marker = (0, []), ob_blocks = [(0, []), (0, [])], ob_switch = (0, []), ob_start = 0, ob_live = [demo_input]\<rparr>"

lemma dec_digit: "0 \<le> n \<Longrightarrow> n < 10 \<Longrightarrow> dec n = [nat (48 + n)]"
proof -
  assume "0 \<le> n" "n < 10"
  then have "nat n div 10 = 0" "nat n mod 10 = nat n" by auto
  then have "dec n = codes (dec_pad 0 0) @ [48 + nat n]"
    using dec_nonneg [OF \<open>0 \<le> n\<close>] by (simp only: One_nat_def dec_pad.simps(2) codes_append codes_digit)
  then show ?thesis using \<open>0 \<le> n\<close> by (simp add: dec_pad.simps nat_add_distrib)
qed

lemma demo_session_facts:
  "ring_ok [97] 1 demo_opened" "list_all input_ok (ob_live demo_observations)"
  "arrives demo_input \<lparr>ev_epoch = [97], ev_seq = 3, ev_data = [106]\<rparr>"
  "\<exists>r. read_until_end ''r'' demo_broker empty_cursor demo_opened demo_observations 0 = Some (None, r)"
proof -
  have p: "parse_element (ring_element dec [97] 3 (encode_data [106])) = Inr (Some \<lparr>ev_epoch = [97], ev_seq = 3, ev_data = [106]\<rparr>)"
    by (rule parse_ring_element) (simp_all add: safe_char_def)
  show "ring_ok [97] 1 demo_opened" by (simp add: ring_ok_def demo_opened_def run_of_ids_def upt_rec)
  show "arrives demo_input \<lparr>ev_epoch = [97], ev_seq = 3, ev_data = [106]\<rparr>" by (simp add: arrives_def demo_input_def p)
  show "list_all input_ok (ob_live demo_observations)" by (simp add: demo_observations_def demo_input_def p event_ok_def)
  have tb: "is_terminal_block (sse_block [97] n [x]) = Inr False" if "n \<in> {1, 2, 3}" "x \<in> {104, 105, 106}" for n x
    using that by (auto simp: is_terminal_block_def sse_block_def block_id_def dec_digit codes_def)
  have rp: "session_replay empty_cursor demo_opened = \<lparr>rp_blocks = [EventBlock [97] 1 [104], EventBlock [97] 2 [105]], rp_first_seq = 1, rp_min_seq = 1, rp_max_seq = 2\<rparr>"
    "session_verdict empty_cursor demo_opened = \<lparr>filter_seq = 0, announce_gap = False\<rparr>" "session_generation demo_opened = [97]"
    by (simp_all add: session_replay_def session_verdict_def session_generation_def cursor_verdict_of_def cursor_is_empty_def empty_cursor_def
        demo_opened_def replay_blocks_def epoch_or_def)
  show "\<exists>r. read_until_end ''r'' demo_broker empty_cursor demo_opened demo_observations 0 = Some (None, r)"
    by (simp add: read_until_end_def replay_phase_def put_pending_gap_def new_reader_def rp put_due_replay_def tb enqueue_def
        demo_broker_def demo_observations_def live_phase_def await_live_phase_def live_round_def demo_input_def on_message_def p on_event_def
        queue_drain_def classify_def offer_opt_def offer_live_def deliver_event_def Let_def)
      (simp add: demo_opened_def)
qed

theorem unmarked_stream_has_no_gap_witness:
  "\<exists>r. read_until_end ''r'' demo_broker empty_cursor demo_opened demo_observations 0 = Some (None, r) \<and>
    (marked (sent r) \<or> (\<exists>e n m. n \<le> filter_seq (session_verdict empty_cursor demo_opened) + 1 \<and> block_ids (sent r) = run_of_ids e n m))"
  using demo_session_facts(4) unmarked_stream_has_no_gap [OF demo_session_facts(1,2)] by blast

theorem arrivals_are_delivered_witness:
  "\<exists>r. read_until_end ''r'' demo_broker empty_cursor demo_opened demo_observations 0 = Some (None, r) \<and> EventBlock [97] 3 [106] \<in> set (sent r)"
proof -
  obtain r where r: "read_until_end ''r'' demo_broker empty_cursor demo_opened demo_observations 0 = Some (None, r)"
    using demo_session_facts(4) by blast
  have "demo_input \<in> set (ob_live demo_observations)" by (simp add: demo_observations_def)
  from arrivals_are_delivered [OF demo_session_facts(1,2) r this demo_session_facts(3)] show ?thesis
    using r by (auto simp: demo_opened_def)
qed

text \<open>
  A counter that restarts in the same generation before anything has arrived on the channel is not
  noticed: its first events look like copies of the replayed ones and are dropped, although their bytes
  were never delivered.
\<close>

lemma early_reset_is_dropped:
  "\<exists>r. on_event ''r'' demo_broker 1 \<lparr>ev_epoch = [97], ev_seq = 1, ev_data = [120]\<rparr> (live_reader empty_cursor demo_opened 0 []) = (None, False, r) \<and>
     EventBlock [97] 1 [120] \<notin> set (sent r) \<and> \<not> marked (sent r)"
  by (simp add: on_event_def live_reader_def new_reader_def classify_def offer_opt_def session_replay_def session_verdict_def session_generation_def
      cursor_verdict_of_def cursor_is_empty_def empty_cursor_def demo_opened_def replay_blocks_def epoch_or_def gap_marker_def)

text \<open>A relayed event whose \<open>event\<close> field is a list ends the reader with \<open>TypeError\<close>.\<close>

lemma unhashable_event_raises:
  \<open>loads_doc (utf8_decode (drop 6 b)) = Some (PObj [(codes ''event'', PList [])]) \<Longrightarrow>
   find_sub (codes ''data: '') blk = Some b \<Longrightarrow> \<not> list_ex (\<lambda>c. 56320 \<le> c \<and> c < 57344) (utf8_decode (drop 6 b)) \<Longrightarrow>
   is_terminal_block blk = Inl (PyError ''TypeError'')\<close>
  by (simp add: is_terminal_block_def payload_get_def Let_def)

end
