(* ===== verification/AgentStream.thy ===== *)
theory AgentStream
  imports AgentBroker
begin

text \<open>
  The hand-over of a client stream, \<open>AgentRunBroker.stream\<close> with \<open>_read_channel\<close> and
  \<open>_supervise\<close> of \<^verbatim>\<open>src/app/agent_proxy/broker.py\<close>: three tasks that share a queue, the
  flag of a normal end and the signal of an abnormal one. A step is what one task does between two of
  its awaits; the steps of the tasks interleave freely.
\<close>

datatype queue_item = Block out_block | EndOfStream

datatype reader_phase = Reading | ReaderDone | ReaderFailed

datatype outcome = HandedOver | Abandoned | DrainExpired

text \<open>\<open>put_blocks\<close> records what was ever queued and \<open>handed\<close> what the client got; the code keeps neither.\<close>

record stream =
  items :: "queue_item list"
  normal_end :: bool
  closing :: bool
  phase :: reader_phase
  supervisor_failed :: bool
  draining :: bool
  waiting :: bool
  handed :: "out_block list"
  put_blocks :: "out_block list"
  outcome :: "outcome option"

definition new_stream :: stream where
  "new_stream = \<lparr>items = [], normal_end = False, closing = False, phase = Reading, supervisor_failed = False,
     draining = False, waiting = False, handed = [], put_blocks = [], outcome = None\<rparr>"

definition put_block :: "out_block \<Rightarrow> stream \<Rightarrow> stream" where
  "put_block b s = s\<lparr>items := items s @ [Block b], put_blocks := put_blocks s @ [b]\<rparr>"

text \<open>
  The end of \<open>_read_channel\<close>: the flag, then the sentinel, which the queue of one slot more than
  the ceiling takes or refuses with \<open>QueueFull\<close>; or the abnormal signal.
\<close>

definition finish_reader :: "nat \<Rightarrow> bool \<Rightarrow> stream \<Rightarrow> stream" where
  "finish_reader ceil ended_normally s =
     (if ended_normally then
        (if length (items s) < ceil + 1
         then s\<lparr>normal_end := True, items := items s @ [EndOfStream], phase := ReaderDone\<rparr>
         else s\<lparr>normal_end := True, phase := ReaderFailed\<rparr>)
      else s\<lparr>closing := True, phase := ReaderDone\<rparr>)"

text \<open>An item leaves the queue: the sentinel ends the stream, a block goes to the client.\<close>

definition take_item :: "stream \<Rightarrow> stream" where
  "take_item s =
     (case items s of
        [] \<Rightarrow> s
      | EndOfStream # q \<Rightarrow> s\<lparr>items := q, outcome := Some HandedOver\<rparr>
      | Block b # q \<Rightarrow> s\<lparr>items := q, handed := handed s @ [b]\<rparr>)"

text \<open>
  One round of the delivery loop up to its await: the flag starts the drain; without it any sign of an
  abnormal end abandons the queue; then an item is taken, or the drain's clock may have run out, or the
  writer waits.
\<close>

definition writer_turn :: "bool \<Rightarrow> stream \<Rightarrow> stream" where
  "writer_turn expired s =
     (let s1 = (if normal_end s then s\<lparr>draining := True, waiting := False\<rparr> else s\<lparr>waiting := False\<rparr>) in
      if \<not> draining s1 \<and> (closing s1 \<or> phase s1 \<noteq> Reading \<or> supervisor_failed s1) then s1\<lparr>outcome := Some Abandoned\<rparr>
      else if items s1 \<noteq> [] then take_item s1
      else if draining s1 \<and> expired then s1\<lparr>outcome := Some DrainExpired\<rparr>
      else s1\<lparr>waiting := True\<rparr>)"

inductive stream_step :: "nat \<Rightarrow> stream \<Rightarrow> stream \<Rightarrow> bool" for ceil :: nat where
  reader_puts: "outcome s = None \<Longrightarrow> phase s = Reading \<Longrightarrow> length (items s) < ceil \<Longrightarrow> stream_step ceil s (put_block b s)"
| reader_ends: "outcome s = None \<Longrightarrow> phase s = Reading \<Longrightarrow> stream_step ceil s (finish_reader ceil ended s)"
| reader_raises: "outcome s = None \<Longrightarrow> phase s = Reading \<Longrightarrow> stream_step ceil s (s\<lparr>phase := ReaderFailed\<rparr>)"
| supervisor_closes: "outcome s = None \<Longrightarrow> stream_step ceil s (s\<lparr>closing := True\<rparr>)"
| supervisor_raises: "outcome s = None \<Longrightarrow> stream_step ceil s (s\<lparr>supervisor_failed := True\<rparr>)"
| writer_turns: "outcome s = None \<Longrightarrow> stream_step ceil s (writer_turn expired s)"
| writer_wakes: "outcome s = None \<Longrightarrow> waiting s \<Longrightarrow> items s \<noteq> [] \<Longrightarrow> stream_step ceil s (take_item (s\<lparr>waiting := False\<rparr>))"

inductive_cases stream_stepE: "stream_step ceil s t"

subsection \<open>The invariant\<close>

fun blocks_of :: "queue_item list \<Rightarrow> out_block list" where
  "blocks_of [] = []"
| "blocks_of (Block b # q) = b # blocks_of q"
| "blocks_of (EndOfStream # q) = blocks_of q"

lemma blocks_of_append [simp]: "blocks_of (p @ q) = blocks_of p @ blocks_of q"
  by (induction p rule: blocks_of.induct) auto

lemma blocks_of_map [simp]: "blocks_of (map Block bs) = bs"
  by (induction bs) auto

text \<open>The queue holds at most \<open>ceil\<close> blocks, followed by the sentinel exactly after a normal end.\<close>

definition stream_inv :: "nat \<Rightarrow> stream \<Rightarrow> bool" where
  "stream_inv ceil s \<longleftrightarrow>
     (\<exists>bs. items s = map Block bs @ (if normal_end s \<and> outcome s \<noteq> Some HandedOver then [EndOfStream] else []) \<and> length bs \<le> ceil \<and>
        put_blocks s = handed s @ bs \<and> (outcome s = Some HandedOver \<longrightarrow> bs = [])) \<and>
     (normal_end s \<longrightarrow> phase s = ReaderDone \<and> outcome s \<noteq> Some Abandoned) \<and>
     (draining s \<longrightarrow> normal_end s) \<and> outcome s \<noteq> Some DrainExpired \<and> (outcome s = Some HandedOver \<longrightarrow> normal_end s)"

lemma stream_inv_new: "stream_inv ceil new_stream"
  by (simp add: stream_inv_def new_stream_def)

lemma take_item_inv:
  assumes "stream_inv ceil s" "outcome s = None" "items s \<noteq> []"
  shows "stream_inv ceil (take_item s)"
proof -
  obtain bs where bs: "items s = map Block bs @ (if normal_end s then [EndOfStream] else [])" "length bs \<le> ceil" "put_blocks s = handed s @ bs"
    using assms by (auto simp: stream_inv_def)
  show ?thesis
  proof (cases bs)
    case Nil
    then show ?thesis using assms bs by (auto simp: take_item_def stream_inv_def split: if_splits)
  next
    case (Cons b bs')
    then have "items s = Block b # map Block bs' @ (if normal_end s then [EndOfStream] else [])" using bs(1) by simp
    then show ?thesis using assms bs Cons by (auto simp: take_item_def stream_inv_def intro!: exI [of _ bs'])
  qed
qed

lemma stream_inv_fields [simp]:
  "stream_inv ceil (s\<lparr>waiting := w\<rparr>) = stream_inv ceil s" "stream_inv ceil (s\<lparr>closing := c\<rparr>) = stream_inv ceil s"
  "stream_inv ceil (s\<lparr>supervisor_failed := f\<rparr>) = stream_inv ceil s"
  by (simp_all add: stream_inv_def)

lemma writer_turn_inv:
  assumes "stream_inv ceil s" "outcome s = None"
  shows "stream_inv ceil (writer_turn expired s)"
proof -
  let ?s1 = "if normal_end s then s\<lparr>draining := True, waiting := False\<rparr> else s\<lparr>waiting := False\<rparr>"
  have 1: "stream_inv ceil ?s1" "outcome ?s1 = None" "normal_end ?s1 = normal_end s" "items ?s1 = items s"
    using assms by (auto simp: stream_inv_def)
  have ne: "items s \<noteq> []" if "normal_end s" using assms that by (auto simp: stream_inv_def)
  have dr: "draining ?s1 \<longleftrightarrow> normal_end s" using assms by (auto simp: stream_inv_def)
  show ?thesis
  proof (cases "items s = []")
    case True
    then have "\<not> normal_end s" using ne by blast
    then show ?thesis using True 1 dr assms by (auto simp: writer_turn_def Let_def stream_inv_def)
  next
    case False
    then show ?thesis using take_item_inv [OF 1(1,2)] 1 dr assms by (auto simp: writer_turn_def Let_def stream_inv_def)
  qed
qed

lemma finish_reader_inv:
  assumes "stream_inv ceil s" "outcome s = None" "phase s = Reading"
  shows "stream_inv ceil (finish_reader ceil ended s)"
proof -
  have n: "\<not> normal_end s" using assms by (auto simp: stream_inv_def)
  then obtain bs where bs: "items s = map Block bs" "length bs \<le> ceil" "put_blocks s = handed s @ bs"
    using assms by (auto simp: stream_inv_def)
  then show ?thesis using assms n by (auto simp: finish_reader_def stream_inv_def intro!: exI [of _ bs])
qed

lemma put_block_inv:
  assumes "stream_inv ceil s" "outcome s = None" "phase s = Reading" "length (items s) < ceil"
  shows "stream_inv ceil (put_block b s)"
proof -
  have n: "\<not> normal_end s" using assms by (auto simp: stream_inv_def)
  then obtain bs where "items s = map Block bs" "put_blocks s = handed s @ bs" using assms by (auto simp: stream_inv_def)
  then show ?thesis using assms n by (auto simp: put_block_def stream_inv_def intro!: exI [of _ "bs @ [b]"])
qed

lemma stream_step_inv: "stream_step ceil s t \<Longrightarrow> stream_inv ceil s \<Longrightarrow> stream_inv ceil t"
proof (induction rule: stream_step.induct)
  case (reader_raises s)
  then show ?case by (auto simp: stream_inv_def)
next
  case (writer_wakes s)
  then show ?case by (intro take_item_inv) auto
qed (simp_all add: put_block_inv finish_reader_inv writer_turn_inv)

interpretation streams: invariant_system "\<lambda>s. s = new_stream" "stream_step ceil" "stream_inv ceil" for ceil
  by unfold_locales (auto simp: stream_inv_new intro: stream_step_inv)

text \<open>
  Claim C20. A normal end hands over everything. In every reachable state of the three tasks, in any
  interleaving: the client has received a prefix of what was queued, in order; when the stream ends
  because of the sentinel it has received all of it, the terminal event included; a normal end is never
  abandoned, whatever the supervisor signals, its sentinel always finds room, and the clock of the drain
  never cuts it short; and the queue holds at most one item more than the configured ceiling.
\<close>

theorem normal_end_hands_over_everything:
  assumes "reach (\<lambda>s. s = new_stream) (stream_step ceil) s"
  shows "prefix (handed s) (put_blocks s) \<and> (outcome s = Some HandedOver \<longrightarrow> handed s = put_blocks s) \<and>
    (normal_end s \<longrightarrow> phase s = ReaderDone \<and> outcome s \<in> {None, Some HandedOver}) \<and> outcome s \<noteq> Some DrainExpired \<and>
    length (items s) \<le> ceil + 1"
proof -
  have inv: "stream_inv ceil s" by (rule streams.reachable_inv [OF assms])
  have "x = HandedOver \<or> x = Abandoned \<or> x = DrainExpired" for x by (cases x) auto
  then have "outcome s \<in> {None, Some HandedOver, Some Abandoned, Some DrainExpired}" by (cases "outcome s") auto
  then show ?thesis using inv by (auto simp: stream_inv_def)
qed

subsection \<open>Progress\<close>

text \<open>A history with at least \<open>n\<close> rounds of the writer.\<close>

inductive stream_run :: "nat \<Rightarrow> nat \<Rightarrow> stream \<Rightarrow> stream \<Rightarrow> bool" for ceil :: nat where
  run_none: "stream_run ceil 0 s s"
| run_any: "stream_run ceil n s t \<Longrightarrow> stream_step ceil t u \<Longrightarrow> stream_run ceil n s u"
| run_turn: "stream_run ceil n s t \<Longrightarrow> outcome t = None \<Longrightarrow> stream_run ceil (Suc n) s (writer_turn expired t)"

lemma take_item_length: "length (items (take_item s)) = length (items s) - 1"
  by (auto simp: take_item_def split: list.split queue_item.split)

lemma take_item_fields [simp]: "normal_end (take_item s) = normal_end s" "put_blocks (take_item s) = put_blocks s" "phase (take_item s) = phase s"
  by (auto simp: take_item_def split: list.split queue_item.split)

lemma writer_turn_normal:
  assumes "stream_inv ceil s" "normal_end s" "outcome s = None"
  shows "normal_end (writer_turn e s) \<and> put_blocks (writer_turn e s) = put_blocks s \<and> Suc (length (items (writer_turn e s))) = length (items s)"
proof -
  have "items s \<noteq> []" using assms by (auto simp: stream_inv_def)
  then show ?thesis using assms by (simp add: writer_turn_def Let_def take_item_length)
qed

lemma step_normal:
  assumes "stream_step ceil s t" "stream_inv ceil s" "normal_end s"
  shows "normal_end t \<and> put_blocks t = put_blocks s \<and> length (items t) \<le> length (items s)"
  using assms
proof (induction rule: stream_step.induct)
  case (writer_turns s e)
  then show ?case using writer_turn_normal [of ceil s e] by simp
qed (auto simp: stream_inv_def take_item_length)

lemma stream_run_inv:
  "stream_run ceil n s t \<Longrightarrow> stream_inv ceil s \<Longrightarrow> normal_end s \<Longrightarrow>
   stream_inv ceil t \<and> normal_end t \<and> put_blocks t = put_blocks s \<and> length (items t) + n \<le> length (items s)"
proof (induction rule: stream_run.induct)
  case (run_any n s t u)
  then show ?case using step_normal [OF run_any.hyps(2)] stream_step_inv [OF run_any.hyps(2)] by auto
next
  case (run_turn n s t e)
  then show ?case using writer_turn_normal [of ceil t e] writer_turn_inv [of ceil t e] by auto
qed simp

text \<open>
  A normal end completes. From any reachable state in which the reader has ended normally, as soon
  as the writer has come round as often as there are items in the queue, whatever the other tasks do
  meanwhile, the stream has ended and the client has everything that was queued.
\<close>

theorem normal_end_completes:
  assumes "reach (\<lambda>s. s = new_stream) (stream_step ceil) s" "normal_end s" "stream_run ceil n s t" "length (items s) \<le> n"
  shows "outcome t = Some HandedOver \<and> handed t = put_blocks s"
proof -
  have inv: "stream_inv ceil s" by (rule streams.reachable_inv [OF assms(1)])
  from stream_run_inv [OF assms(3) inv assms(2)]
  have t: "stream_inv ceil t" "normal_end t" "put_blocks t = put_blocks s" and len: "length (items t) + n \<le> length (items s)" by auto
  have t4: "items t = []" using len assms(4) by (cases "items t") auto
  have "outcome t = Some HandedOver"
  proof (cases "outcome t")
    case None
    then show ?thesis using t t4 by (auto simp: stream_inv_def)
  next
    case (Some x)
    then show ?thesis using t by (cases x) (auto simp: stream_inv_def)
  qed
  then show ?thesis using t by (auto simp: stream_inv_def)
qed

text \<open>A reader that queues one block and ends; the writer hands it over.\<close>

definition demo_ended :: stream where
  "demo_ended = finish_reader 2 True (put_block (EventBlock [97] 1 [104]) new_stream)"

lemma demo_ended_reach: "reach (\<lambda>s. s = new_stream) (stream_step 2) demo_ended"
proof -
  have 0: "reach (\<lambda>s. s = new_stream) (stream_step 2) new_stream" by (rule reach_init) simp
  have 1: "stream_step 2 new_stream (put_block (EventBlock [97] 1 [104]) new_stream)"
    by (rule reader_puts) (simp_all add: new_stream_def)
  have 2: "stream_step 2 (put_block (EventBlock [97] 1 [104]) new_stream) demo_ended"
    unfolding demo_ended_def by (rule reader_ends) (simp_all add: new_stream_def put_block_def)
  show ?thesis by (rule reach_step [OF reach_step [OF 0 1] 2])
qed

theorem normal_end_hands_over_everything_witness:
  "reach (\<lambda>s. s = new_stream) (stream_step 2) demo_ended \<and> normal_end demo_ended \<and> outcome demo_ended \<in> {None, Some HandedOver}"
  using demo_ended_reach normal_end_hands_over_everything [OF demo_ended_reach]
  by (simp add: demo_ended_def finish_reader_def put_block_def new_stream_def)

theorem normal_end_completes_witness:
  "outcome (writer_turn False (writer_turn False demo_ended)) = Some HandedOver \<and>
   handed (writer_turn False (writer_turn False demo_ended)) = [EventBlock [97] 1 [104]]"
proof -
  have e: "normal_end demo_ended" "length (items demo_ended) \<le> 2" "outcome demo_ended = None" "put_blocks demo_ended = [EventBlock [97] 1 [104]]"
    "outcome (writer_turn False demo_ended) = None"
    by (simp_all add: demo_ended_def finish_reader_def put_block_def new_stream_def writer_turn_def take_item_def)
  have "stream_run 2 (Suc (Suc 0)) demo_ended (writer_turn False (writer_turn False demo_ended))"
    by (intro run_turn run_none e)
  from normal_end_completes [OF demo_ended_reach e(1) this] e show ?thesis by simp
qed

end
