(* ===== verification/HermesRuntime.thy ===== *)
theory HermesRuntime
  imports AgentRuns BillingCommon
begin

text \<open>
  The per-user Hermes instances: the registry over the table \<open>hermes_instances\<close>
  (\<^verbatim>\<open>hermes_runtime/registry.py\<close>), the container backend
  (\<^verbatim>\<open>hermes_runtime/docker_backend.py\<close>) and the lifecycle manager
  (\<^verbatim>\<open>hermes_runtime/manager.py\<close>).

  The manager commits between its phases, so its state is a session: the rows it sees, the rows that
  are committed, and the containers. What other transactions do while a phase waits without a lock is an
  argument, a function on the committed rows and the containers. The Docker daemon is modelled by its
  documented rules: names are unique, an unknown identifier is not found, any call may fail. Sealing and
  opening the key of an instance are arguments, since the cipher is a library.
\<close>

subsection \<open>Registry\<close>

definition instance_of :: "uuid \<Rightarrow> db \<Rightarrow> hermes_instance option" where
  "instance_of uid s = map_of (hermes_instances s) uid"

definition update_instance :: "uuid \<Rightarrow> (hermes_instance \<Rightarrow> bool) \<Rightarrow> (hermes_instance \<Rightarrow> hermes_instance) \<Rightarrow> nat dbop" where
  "update_instance uid P f = (\<lambda>s.
     case instance_of uid s of
       Some h \<Rightarrow> if P h then (Inr 1, s\<lparr>hermes_instances := AList.update uid (f h) (hermes_instances s)\<rparr>) else (Inr 0, s)
     | None \<Rightarrow> (Inr 0, s))"

definition registry_get :: "uuid \<Rightarrow> hermes_instance option dbop" where
  "registry_get uid = op_read (instance_of uid)"

definition create_provisioning :: "int \<Rightarrow> uuid \<Rightarrow> string \<times> string \<times> string \<Rightarrow> hermes_instance option dbop" where
  "create_provisioning now uid sealed = (\<lambda>s.
     if instance_of uid s \<noteq> None then (Inr None, s)
     else if users s uid = None then (Inl DbError, s)
     else let h = \<lparr>hi_container_id = None, hi_endpoint = None, hi_sealed = sealed, hi_status = ''provisioning'', hi_port = None,
                   hi_last_active_at = now, hi_provisioning_started_at = Some now, hi_created_at = now\<rparr>
          in (Inr (Some h), s\<lparr>hermes_instances := (uid, h) # hermes_instances s\<rparr>))"

definition mark_provisioning :: "int \<Rightarrow> uuid \<Rightarrow> int \<Rightarrow> nat dbop" where
  "mark_provisioning now uid started = update_instance uid (\<lambda>_. True)
     (\<lambda>h. h\<lparr>hi_status := ''provisioning'', hi_provisioning_started_at := Some started, hi_last_active_at := now\<rparr>)"

definition mark_stopped_if_provisioning :: "uuid \<Rightarrow> int \<Rightarrow> nat dbop" where
  "mark_stopped_if_provisioning uid started = update_instance uid
     (\<lambda>h. hi_status h = ''provisioning'' \<and> hi_provisioning_started_at h = Some started)
     (\<lambda>h. h\<lparr>hi_status := ''stopped''\<rparr>)"

definition mark_running :: "int \<Rightarrow> uuid \<Rightarrow> string \<Rightarrow> string \<Rightarrow> int option \<Rightarrow> nat dbop" where
  "mark_running now uid container_id endpoint port = update_instance uid (\<lambda>_. True)
     (\<lambda>h. h\<lparr>hi_container_id := Some container_id, hi_endpoint := Some endpoint, hi_port := port,
            hi_status := ''running'', hi_last_active_at := now\<rparr>)"

definition registry_mark_stopped :: "uuid \<Rightarrow> nat dbop" where
  "registry_mark_stopped uid = update_instance uid (\<lambda>_. True) (\<lambda>h. h\<lparr>hi_status := ''stopped''\<rparr>)"

definition touch_active :: "int \<Rightarrow> uuid \<Rightarrow> nat dbop" where
  "touch_active now uid = update_instance uid (\<lambda>_. True) (\<lambda>h. h\<lparr>hi_last_active_at := now\<rparr>)"

definition list_idle_running :: "int \<Rightarrow> int \<Rightarrow> nat \<Rightarrow> (uuid \<times> hermes_instance) list dbop" where
  "list_idle_running now threshold_seconds limit = op_read (\<lambda>s.
     take limit (sort_key (\<lambda>(_, h). hi_last_active_at h)
       (filter (\<lambda>(_, h). hi_status h = ''running'' \<and> hi_last_active_at h < now - threshold_seconds * 1000000)
          (hermes_instances s))))"

definition registry_delete :: "uuid \<Rightarrow> unit dbop" where
  "registry_delete uid = op_modify (\<lambda>s. s\<lparr>hermes_instances := AList.delete uid (hermes_instances s)\<rparr>)"

subsection \<open>Containers\<close>

record dcontainer =
  dc_name :: string
  dc_env :: "(string \<times> string) list"
  dc_running :: bool

record docker =
  dk_containers :: "(string \<times> dcontainer) list"
  dk_volumes :: "string \<rightharpoonup> string"

record container_ref =
  cr_container_id :: string
  cr_name :: string
  cr_endpoint :: string

type_synonym 'a docker_op = "(docker, exn, 'a) op"

definition upstream :: "string \<Rightarrow> exn" where
  "upstream msg = App (error UpstreamError msg)"

definition name_taken :: "string \<Rightarrow> docker \<Rightarrow> bool" where
  "name_taken name d \<longleftrightarrow> name \<in> dc_name ` snd ` set (dk_containers d)"

definition existing_config_valid :: "string option \<Rightarrow> bool" where
  "existing_config_valid content =
     (case content of
        None \<Rightarrow> False
      | Some c \<Rightarrow> strip c \<noteq> [] \<and>
          list_all (\<lambda>marker. contains_sub marker c) [''platform_toolsets:'', ''api_server:'', ''model:'', ''default:'', ''provider:''])"

definition container_endpoint :: "string \<Rightarrow> string" where
  "container_endpoint name = ''http://'' @ name @ '':8642''"

text \<open>
  \<open>_provision_sync\<close>: \<open>file_fault\<close> is an error of the file system. What the daemon does with
  \<open>containers.run(detach=True)\<close> is a \<open>docker_run\<close>: the client cannot be made (an exception raised outside the
  \<open>try\<close>), the creation is refused, the container is created and its start fails, or it is created and started.
  A start that fails leaves the created container behind under its name: nothing removes it.
\<close>

datatype docker_run = NoClient | RunRefused | RunCreated string | RunStarted string

record provision_spec =
  ps_name :: string
  ps_env :: "(string \<times> string) list"
  ps_volume :: string
  ps_config_yaml :: string

definition backend_provision :: "bool \<Rightarrow> docker_run \<Rightarrow> provision_spec \<Rightarrow> container_ref docker_op" where
  "backend_provision file_fault run spec = (\<lambda>d.
     if file_fault then (Inl (PyError ''OSError''), d)
     else let name = ps_name spec;
              d1 = (if existing_config_valid (dk_volumes d (ps_volume spec)) then d
                    else d\<lparr>dk_volumes := (dk_volumes d)(ps_volume spec \<mapsto> ps_config_yaml spec)\<rparr>);
              failed = Inl (upstream ''failed to provision hermes runtime'');
              created = (\<lambda>cid b. d1\<lparr>dk_containers := (cid, \<lparr>dc_name = name, dc_env = ps_env spec, dc_running = b\<rparr>) # dk_containers d1\<rparr>)
     in case run of
          NoClient \<Rightarrow> (Inl (PyError ''DockerException''), d1)
        | RunRefused \<Rightarrow> (failed, d1)
        | RunCreated cid \<Rightarrow> (failed, if name_taken name d1 then d1 else created cid False)
        | RunStarted cid \<Rightarrow>
            if name_taken name d1 then (failed, d1)
            else (Inr \<lparr>cr_container_id = cid, cr_name = name, cr_endpoint = container_endpoint name\<rparr>, created cid True))"

definition set_container_running :: "bool \<Rightarrow> string \<Rightarrow> docker \<Rightarrow> docker" where
  "set_container_running b cid d =
     d\<lparr>dk_containers := map (\<lambda>(k, c). if k = cid then (k, c\<lparr>dc_running := b\<rparr>) else (k, c)) (dk_containers d)\<rparr>"

definition backend_start :: "bool \<Rightarrow> container_ref \<Rightarrow> unit docker_op" where
  "backend_start ok ref = (\<lambda>d.
     if ok \<and> cr_container_id ref \<in> fst ` set (dk_containers d)
     then (Inr (), set_container_running True (cr_container_id ref) d)
     else (Inl (upstream ''failed to start hermes runtime''), d))"

text \<open>A container that is gone counts as stopped and as removed.\<close>

definition backend_stop :: "bool \<Rightarrow> container_ref \<Rightarrow> unit docker_op" where
  "backend_stop ok ref = (\<lambda>d.
     if ok \<and> cr_container_id ref \<noteq> [] then (Inr (), set_container_running False (cr_container_id ref) d)
     else (Inl (upstream ''failed to stop hermes runtime''), d))"

definition backend_remove :: "bool \<Rightarrow> container_ref \<Rightarrow> unit docker_op" where
  "backend_remove ok ref = (\<lambda>d.
     if ok \<and> cr_container_id ref \<noteq> []
     then (Inr (), d\<lparr>dk_containers := filter (\<lambda>(k, _). k \<noteq> cr_container_id ref) (dk_containers d)\<rparr>)
     else (Inl (upstream ''failed to remove hermes runtime''), d))"

subsection \<open>Sessions\<close>

record hermes_session =
  hs_db :: db
  hs_committed :: db
  hs_docker :: docker

type_synonym 'a hop = "(hermes_session, exn, 'a) op"

definition in_db :: "'a dbop \<Rightarrow> 'a hop" where
  "in_db m = (\<lambda>s. case m (hs_db s) of (r, d) \<Rightarrow> (r, s\<lparr>hs_db := d\<rparr>))"

definition in_docker :: "'a docker_op \<Rightarrow> 'a hop" where
  "in_docker m = (\<lambda>s. case m (hs_docker s) of (r, k) \<Rightarrow> (r, s\<lparr>hs_docker := k\<rparr>))"

definition h_commit :: "unit hop" where
  "h_commit = op_modify (\<lambda>s. s\<lparr>hs_committed := hs_db s\<rparr>)"

definition h_rollback :: "unit hop" where
  "h_rollback = op_modify (\<lambda>s. s\<lparr>hs_db := hs_committed s\<rparr>)"

text \<open>What others do while this session holds no lock and has nothing uncommitted.\<close>

definition others_run :: "(db \<times> docker \<Rightarrow> db \<times> docker) \<Rightarrow> unit hop" where
  "others_run f = op_modify (\<lambda>s. case f (hs_committed s, hs_docker s) of (d, k) \<Rightarrow> \<lparr>hs_db = d, hs_committed = d, hs_docker = k\<rparr>)"

text \<open>The request scope around a call: an exception rolls back, a return commits.\<close>

definition request :: "'a hop \<Rightarrow> 'a hop" where
  "request m = (\<lambda>s. case m s of
     (Inl e, t) \<Rightarrow> (Inl e, t\<lparr>hs_db := hs_committed t\<rparr>)
   | (Inr x, t) \<Rightarrow> (Inr x, t\<lparr>hs_committed := hs_db t\<rparr>))"

end
