(* ===== verification/HermesConfig.thy ===== *)
theory HermesConfig
  imports HermesRuntime
begin

text \<open>
  The configuration an instance boots with: the provider contract of
  \<^verbatim>\<open>config.py\<close> and the rendering of \<^verbatim>\<open>config.yaml\<close>
  (\<^verbatim>\<open>hermes_runtime/config_yaml.py\<close>), with the guards that keep a bad value out of the file.
\<close>

subsection \<open>Providers\<close>

definition HERMES_PROVIDER_ALLOWLIST :: "string list" where
  "HERMES_PROVIDER_ALLOWLIST =
     [''auto'', ''openrouter'', ''nous'', ''nous-api'', ''anthropic'', ''openai-codex'', ''copilot'', ''gemini'', ''zai'',
      ''kimi-coding'', ''minimax'', ''minimax-cn'', ''huggingface'', ''nvidia'', ''xiaomi'', ''arcee'', ''ollama-cloud'',
      ''kilocode'', ''azure-foundry'', ''lmstudio'', ''custom'']"

definition HERMES_PROVIDER_FORBIDDEN :: "string list" where
  "HERMES_PROVIDER_FORBIDDEN = [''auto'']"

definition HERMES_PROVIDER_KEY_ENV :: "(string \<times> string) list" where
  "HERMES_PROVIDER_KEY_ENV =
     [(''anthropic'', ''ANTHROPIC_API_KEY''), (''openrouter'', ''OPENROUTER_API_KEY''), (''gemini'', ''GOOGLE_API_KEY''),
      (''nous-api'', ''NOUS_API_KEY''), (''nous'', ''NOUS_API_KEY''), (''zai'', ''GLM_API_KEY''),
      (''kimi-coding'', ''KIMI_API_KEY''), (''huggingface'', ''HF_TOKEN''), (''nvidia'', ''NVIDIA_API_KEY''),
      (''lmstudio'', ''LM_API_KEY'')]"

definition HERMES_PROVIDERS_CONFIG_API_KEY :: "string list" where
  "HERMES_PROVIDERS_CONFIG_API_KEY = [''custom'']"

definition HERMES_INSTANCE_LLM_KEY_ENV :: string where
  "HERMES_INSTANCE_LLM_KEY_ENV = ''HERMES_INSTANCE_LLM_KEY''"

definition HERMES_PROVIDERS_REQUIRING_BASE_URL :: "string list" where
  "HERMES_PROVIDERS_REQUIRING_BASE_URL = [''custom'', ''azure-foundry'']"

definition upper_char :: "char \<Rightarrow> char" where
  "upper_char c = (let n = of_char c :: nat in if 97 \<le> n \<and> n \<le> 122 then char_of (n - 32) else c)"

definition hermes_provider_key_env :: "string \<Rightarrow> string" where
  "hermes_provider_key_env provider =
     (case map_of HERMES_PROVIDER_KEY_ENV provider of
        Some name \<Rightarrow> name
      | None \<Rightarrow> map upper_char provider @ ''_API_KEY'')"

record hermes_settings =
  hermes_image :: string
  hermes_llm_provider :: string
  hermes_llm_api_key :: string
  hermes_model :: string
  hermes_llm_base_url :: string
  hermes_default_toolset_raw :: string
  hermes_volume_root :: string
  hermes_uid :: int
  hermes_gid :: int
  hermes_provisioning_stale_seconds :: int
  hermes_provision_ready_timeout_seconds :: int
  hermes_provision_ready_interval_seconds :: int
  hermes_idle_timeout_seconds :: int
  agent_run_snapshot_ttl_days :: int
  agent_run_consumer_enabled :: bool

subsection \<open>Text\<close>

text \<open>\<open>s.split(sep)\<close> for a single character.\<close>

fun split_char :: "char \<Rightarrow> string \<Rightarrow> string list" where
  "split_char sep [] = [[]]"
| "split_char sep (c # s) =
     (if c = sep then [] # split_char sep s
      else case split_char sep s of [] \<Rightarrow> [[c]] | w # ws \<Rightarrow> (c # w) # ws)"

definition alnum :: "char \<Rightarrow> bool" where
  "alnum c = (let n = of_char c :: nat in 48 \<le> n \<and> n \<le> 57 \<or> 65 \<le> n \<and> n \<le> 90 \<or> 97 \<le> n \<and> n \<le> 122)"

text \<open>
  \<open>re.match(r"^[...]+$", s)\<close>: the dollar also matches before a newline at the end.
\<close>

definition re_full :: "(char \<Rightarrow> bool) \<Rightarrow> string \<Rightarrow> bool" where
  "re_full P s =
     (s \<noteq> [] \<and> list_all P s \<or> length s \<ge> 2 \<and> last s = CHR 0x0A \<and> list_all P (butlast s))"

definition toolset_char :: "char \<Rightarrow> bool" where
  "toolset_char c \<longleftrightarrow> alnum c \<or> c \<in> set ''_-''"

definition model_char :: "char \<Rightarrow> bool" where
  "model_char c \<longleftrightarrow> alnum c \<or> c \<in> set ''._/-''"

definition url_char :: "char \<Rightarrow> bool" where
  "url_char c \<longleftrightarrow> alnum c \<or> c \<in> set ''._:/-''"

definition base_url_matches :: "string \<Rightarrow> bool" where
  "base_url_matches s \<longleftrightarrow>
     prefix ''http://'' s \<and> re_full url_char (drop 7 s) \<or> prefix ''https://'' s \<and> re_full url_char (drop 8 s)"

text \<open>The default toolset: stripped, without blanks and without repetitions, in order.\<close>

fun keep_first :: "'a list \<Rightarrow> 'a list \<Rightarrow> 'a list" where
  "keep_first seen [] = seen"
| "keep_first seen (x # xs) = keep_first (if x \<in> set seen then seen else seen @ [x]) xs"

definition safe_toolset :: "string list" where
  "safe_toolset = [''web'', ''file'', ''vision'', ''skills'', ''todo'']"

definition hermes_default_toolset :: "hermes_settings \<Rightarrow> string list" where
  "hermes_default_toolset cfg =
     (let entries = keep_first [] (filter (\<lambda>e. e \<noteq> []) (map strip (split_char (CHR '','') (hermes_default_toolset_raw cfg))))
      in if entries = [] then safe_toolset else entries)"

subsection \<open>Rendering\<close>

fun join_with :: "string \<Rightarrow> string list \<Rightarrow> string" where
  "join_with sep [] = []"
| "join_with sep [l] = l"
| "join_with sep (l # m # ls) = l @ sep @ join_with sep (m # ls)"

definition quoted :: "string \<Rightarrow> string" where
  "quoted s = CHR 0x22 # s @ [CHR 0x22]"

definition config_lines :: "string list \<Rightarrow> string \<Rightarrow> string \<Rightarrow> string \<Rightarrow> string list" where
  "config_lines safe provider model base_url =
     [''# Generated by control plane (ADR-046/ADR-055). Restricts toolset + pins the LLM model.'',
      ''platform_toolsets:'', ''  api_server:''] @
     map (\<lambda>name. ''    - '' @ name) safe @
     [''approvals:'', ''  mode: deny'', ''model:'',
      ''  default: '' @ quoted (provider @ ''/'' @ model),
      ''  provider: '' @ quoted provider] @
     (if base_url = [] then [] else [''  base_url: '' @ quoted base_url]) @
     (if provider \<in> set HERMES_PROVIDERS_CONFIG_API_KEY
      then [''  api_key: '' @ quoted (''${'' @ HERMES_INSTANCE_LLM_KEY_ENV @ ''}'')] else []) @
     [[]]"

definition not_configured :: "string \<Rightarrow> exn" where
  "not_configured what = upstream (''hermes runtime is not configured ('' @ what @ '')'')"

text \<open>The messages of the code quote the offending value; only the name of the setting is kept here.\<close>

definition render_instance_config :: "string list \<Rightarrow> string \<Rightarrow> string \<Rightarrow> string \<Rightarrow> string \<Rightarrow> exn + string" where
  "render_instance_config toolset provider0 model0 base_url0 api_key =
     (let named = filter (re_full toolset_char) toolset;
          safe = (if named = [] then safe_toolset else named);
          provider = strip provider0; model = strip model0; base_url = strip base_url0
      in if provider \<notin> set HERMES_PROVIDER_ALLOWLIST then Inl (not_configured ''HERMES_LLM_PROVIDER'')
         else if model = [] \<or> \<not> re_full model_char model then Inl (not_configured ''HERMES_MODEL'')
         else if base_url \<noteq> [] \<and> \<not> base_url_matches base_url then Inl (not_configured ''HERMES_LLM_BASE_URL'')
         else if provider \<in> set HERMES_PROVIDERS_CONFIG_API_KEY \<and> strip api_key = []
         then Inl (not_configured ''HERMES_LLM_API_KEY'')
         else Inr (join_with [CHR 0x0A] (config_lines safe provider model base_url)))"

definition require_provision_config :: "hermes_settings \<Rightarrow> exn + unit" where
  "require_provision_config cfg =
     (let provider = strip (hermes_llm_provider cfg) in
      if strip (hermes_image cfg) = [] then Inl (not_configured ''HERMES_IMAGE'')
      else if strip (hermes_llm_api_key cfg) = [] then Inl (not_configured ''HERMES_LLM_API_KEY'')
      else if provider \<in> set HERMES_PROVIDER_FORBIDDEN \<or> provider \<notin> set HERMES_PROVIDER_ALLOWLIST
      then Inl (not_configured ''HERMES_LLM_PROVIDER'')
      else if strip (hermes_model cfg) = [] then Inl (not_configured ''HERMES_MODEL'')
      else if provider \<in> set HERMES_PROVIDERS_REQUIRING_BASE_URL \<and> strip (hermes_llm_base_url cfg) = []
      then Inl (not_configured ''HERMES_LLM_BASE_URL'')
      else Inr ())"

definition instance_config :: "hermes_settings \<Rightarrow> exn + string" where
  "instance_config cfg =
     render_instance_config (hermes_default_toolset cfg) (strip (hermes_llm_provider cfg)) (strip (hermes_model cfg))
       (strip (hermes_llm_base_url cfg)) (hermes_llm_api_key cfg)"

text \<open>The container's environment: the key of the provider travels under one name only.\<close>

definition container_env :: "(int \<Rightarrow> string) \<Rightarrow> hermes_settings \<Rightarrow> string \<Rightarrow> (string \<times> string) list" where
  "container_env str_int cfg api_key =
     (let provider = strip (hermes_llm_provider cfg);
          base = [(''API_SERVER_ENABLED'', ''true''), (''API_SERVER_KEY'', api_key), (''API_SERVER_HOST'', ''0.0.0.0''),
                  (''API_SERVER_PORT'', ''8642''), (''HERMES_UID'', str_int (hermes_uid cfg)), (''HERMES_GID'', str_int (hermes_gid cfg))]
      in if provider \<in> set HERMES_PROVIDERS_CONFIG_API_KEY
         then AList.update HERMES_INSTANCE_LLM_KEY_ENV (hermes_llm_api_key cfg) base
         else AList.update (hermes_provider_key_env provider) (hermes_llm_api_key cfg) base)"

end
