(* ===== verification/HermesManager.thy ===== *)
theory HermesManager
  imports HermesConfig
begin

text \<open>
  The lifecycle of an instance (\<^verbatim>\<open>hermes_runtime/manager.py\<close>): provisioning, waking,
  hibernation and removal, each split by the commits the code makes. The clock of a readiness poll is
  \<open>time.monotonic()\<close> in seconds; rows carry microseconds.
\<close>

subsection \<open>What a call meets\<close>

record keyring =
  kr_seal :: "string \<Rightarrow> string \<times> string \<times> string"
  kr_open :: "string \<times> string \<times> string \<Rightarrow> exn + string"

record instance_endpoint =
  ie_base_url :: string
  ie_api_key :: string

text \<open>
  The outcomes of one call: the clocks, the wait for the row lock, the generated key, the answers of the
  daemon, the health probes with their durations, and what other transactions do before the container is
  up, while the poll runs, and at each look at the row of a concurrent attempt.
\<close>

record hermes_call =
  hc_clock :: rat
  hc_poll_clock :: rat
  hc_now :: int
  hc_done :: int
  hc_db_fault :: bool
  hc_lock_wait :: rat
  hc_key :: string
  hc_file_fault :: bool
  hc_run :: docker_run
  hc_start :: bool
  hc_stop :: bool
  hc_remove :: bool
  hc_probe :: "nat \<Rightarrow> bool \<times> rat"
  hc_before :: "db \<times> docker \<Rightarrow> db \<times> docker"
  hc_during :: "db \<times> docker \<Rightarrow> db \<times> docker"
  hc_look :: "nat \<Rightarrow> (db \<times> docker \<Rightarrow> db \<times> docker) \<times> rat"

definition container_name :: "uuid \<Rightarrow> string" where
  "container_name uid = ''hermes-user-'' @ uuid_str uid"

definition container_ref_from_row :: "uuid \<Rightarrow> hermes_instance \<Rightarrow> container_ref" where
  "container_ref_from_row uid h =
     \<lparr>cr_container_id = (case hi_container_id h of None \<Rightarrow> [] | Some c \<Rightarrow> c), cr_name = container_name uid,
      cr_endpoint = (case hi_endpoint h of Some e \<Rightarrow> if e = [] then container_endpoint (container_name uid) else e
                                          | None \<Rightarrow> container_endpoint (container_name uid))\<rparr>"

definition endpoint_from_row :: "keyring \<Rightarrow> uuid \<Rightarrow> hermes_instance \<Rightarrow> exn + instance_endpoint" where
  "endpoint_from_row kr uid h =
     (case kr_open kr (hi_sealed h) of
        Inl e \<Rightarrow> Inl e
      | Inr k \<Rightarrow> Inr \<lparr>ie_base_url = cr_endpoint (container_ref_from_row uid h), ie_api_key = k\<rparr>)"

definition op_of :: "exn + 'a \<Rightarrow> 'a hop" where
  "op_of r = (case r of Inl e \<Rightarrow> op_raise e | Inr x \<Rightarrow> op_return x)"

definition volume_path :: "hermes_settings \<Rightarrow> uuid \<Rightarrow> string" where
  "volume_path cfg uid = rev (dropWhile (\<lambda>c. c = CHR ''/'') (rev (hermes_volume_root cfg))) @ ''/'' @ uuid_str uid"

definition ready_timeout :: exn where
  "ready_timeout = App (error UpstreamTimeoutError ''hermes instance did not become ready in time'')"

subsection \<open>Deadlines\<close>

definition is_stale_provisioning :: "hermes_settings \<Rightarrow> int \<Rightarrow> hermes_instance \<Rightarrow> bool" where
  "is_stale_provisioning cfg now h \<longleftrightarrow>
     hermes_provisioning_stale_seconds cfg > 0 \<and>
     now - (case hi_provisioning_started_at h of Some t \<Rightarrow> t | None \<Rightarrow> hi_created_at h)
       > hermes_provisioning_stale_seconds cfg * 1000000"

definition lock_timeout_ms :: "rat option \<Rightarrow> rat \<Rightarrow> int option" where
  "lock_timeout_ms deadline now = map_option (\<lambda>d. max \<lfloor>(d - now) * 1000\<rfloor> 1) deadline"

text \<open>Postgres: no timeout, and a timeout of zero, wait for ever.\<close>

definition lock_expires :: "int option \<Rightarrow> rat \<Rightarrow> bool" where
  "lock_expires timeout wait = (case timeout of None \<Rightarrow> False | Some ms \<Rightarrow> ms > 0 \<and> wait * 1000 > of_int ms)"

definition poll_deadline :: "hermes_settings \<Rightarrow> rat option \<Rightarrow> rat \<Rightarrow> rat" where
  "poll_deadline cfg deadline now =
     (let own = now + of_int (hermes_provision_ready_timeout_seconds cfg)
      in case deadline of None \<Rightarrow> own | Some d \<Rightarrow> min own d)"

text \<open>
  The loop of both readiness waits: look, stop when there is an answer, give up when the next look
  would come after the deadline, sleep. A look takes time; the monotonic clock never goes back. The
  result has the answer, if there was one, and the number of looks.
\<close>

function poll_until :: "rat \<Rightarrow> int \<Rightarrow> (nat \<Rightarrow> 'a option \<times> rat) \<Rightarrow> nat \<Rightarrow> rat \<Rightarrow> 'a option \<times> nat" where
  "poll_until stop_at pause look k now =
     (let now1 = now + max (snd (look k)) 0; interval = of_int (max pause 1) in
      if fst (look k) \<noteq> None then (fst (look k), Suc k)
      else if now1 + interval > stop_at then (None, Suc k)
      else poll_until stop_at pause look (Suc k) (now1 + interval))"
  by pat_completeness auto
termination
proof (relation "measure (\<lambda>(stop_at, pause, look, k, now). nat (\<lfloor>stop_at - now\<rfloor> + 1))", goal_cases)
  case (2 stop_at pause look k now now1 interval)
  then have le: "now1 + interval \<le> stop_at" and "now \<le> now1" and one: "1 \<le> interval" by (auto simp: of_int_max)
  then have "\<lfloor>stop_at - (now1 + interval)\<rfloor> + 1 \<le> \<lfloor>stop_at - now\<rfloor>" by (simp add: le_floor_iff floor_le_iff) linarith
  moreover have "now \<le> stop_at" using le one \<open>now \<le> now1\<close> by linarith
  ultimately show ?case using le by simp
qed simp

declare poll_until.simps [simp del]

definition wait_for_ready :: "hermes_settings \<Rightarrow> rat option \<Rightarrow> hermes_call \<Rightarrow> bool \<times> nat" where
  "wait_for_ready cfg deadline x =
     (case poll_until (poll_deadline cfg deadline (hc_poll_clock x)) (hermes_provision_ready_interval_seconds cfg)
             (\<lambda>k. (if fst (hc_probe x k) then Some () else None, snd (hc_probe x k))) 0 (hc_poll_clock x) of
        (answer, looks) \<Rightarrow> (answer \<noteq> None, looks))"

text \<open>The states the waiter for a concurrent attempt sees, one after the other.\<close>

fun seen_at :: "hermes_call \<Rightarrow> db \<times> docker \<Rightarrow> nat \<Rightarrow> db \<times> docker" where
  "seen_at x w 0 = fst (hc_look x 0) w"
| "seen_at x w (Suc k) = fst (hc_look x (Suc k)) (seen_at x w k)"

definition look_at_row :: "keyring \<Rightarrow> uuid \<Rightarrow> db \<Rightarrow> (exn + instance_endpoint) option" where
  "look_at_row kr uid s =
     (case instance_of uid s of
        None \<Rightarrow> Some (Inl (upstream ''hermes instance failed to become ready''))
      | Some h \<Rightarrow> if hi_status h = ''running'' then Some (endpoint_from_row kr uid h) else None)"

definition await_concurrent_ready :: "hermes_settings \<Rightarrow> keyring \<Rightarrow> uuid \<Rightarrow> rat option \<Rightarrow> hermes_call \<Rightarrow> instance_endpoint hop" where
  "await_concurrent_ready cfg kr uid deadline x = (\<lambda>s.
     let w = (hs_committed s, hs_docker s) in
     case poll_until (poll_deadline cfg deadline (hc_poll_clock x)) (hermes_provision_ready_interval_seconds cfg)
            (\<lambda>k. (look_at_row kr uid (fst (seen_at x w k)), snd (hc_look x k))) 0 (hc_poll_clock x) of
       (answer, looks) \<Rightarrow>
         (case seen_at x w (looks - 1) of (d, k) \<Rightarrow>
            (case answer of None \<Rightarrow> Inl ready_timeout | Some r \<Rightarrow> r, \<lparr>hs_db = d, hs_committed = d, hs_docker = k\<rparr>)))"

subsection \<open>Provisioning\<close>

definition provision_spec_of :: "hermes_settings \<Rightarrow> uuid \<Rightarrow> string \<Rightarrow> string \<Rightarrow> provision_spec" where
  "provision_spec_of cfg uid api_key config_yaml =
     \<lparr>ps_name = container_name uid, ps_env = container_env int_str cfg api_key, ps_volume = volume_path cfg uid,
      ps_config_yaml = config_yaml\<rparr>"

definition best_effort :: "unit hop \<Rightarrow> unit hop" where
  "best_effort m = op_catch m (\<lambda>e. if exn_is UpstreamError e then op_return () else op_raise e)"

definition cleanup_failed_provision :: "uuid \<Rightarrow> container_ref \<Rightarrow> hermes_call \<Rightarrow> unit hop" where
  "cleanup_failed_provision uid ref x =
     op_bind (best_effort (in_docker (backend_remove (hc_remove x) ref))) (\<lambda>_.
     op_bind (in_db (registry_delete uid)) (\<lambda>_. h_commit))"

definition provision_locked :: "hermes_settings \<Rightarrow> keyring \<Rightarrow> uuid \<Rightarrow> rat option \<Rightarrow> hermes_call \<Rightarrow> instance_endpoint hop" where
  "provision_locked cfg kr uid deadline x =
     op_bind (op_of (require_provision_config cfg)) (\<lambda>_.
     op_bind (in_db (create_provisioning (hc_now x) uid (kr_seal kr (hc_key x)))) (\<lambda>inserted.
     case inserted of
       None \<Rightarrow> op_bind h_rollback (\<lambda>_. await_concurrent_ready cfg kr uid deadline x)
     | Some _ \<Rightarrow>
         op_bind h_commit (\<lambda>_.
         op_bind (others_run (hc_before x)) (\<lambda>_.
         op_bind (op_of (instance_config cfg)) (\<lambda>config_yaml.
         op_bind (in_docker (backend_provision (hc_file_fault x) (hc_run x)
                    (provision_spec_of cfg uid (hc_key x) config_yaml))) (\<lambda>ref.
         op_bind (others_run (hc_during x)) (\<lambda>_.
         if fst (wait_for_ready cfg deadline x) then
           op_bind (in_db (mark_running (hc_done x) uid (cr_container_id ref) (cr_endpoint ref) None)) (\<lambda>_.
           op_bind h_commit (\<lambda>_.
           op_return \<lparr>ie_base_url = cr_endpoint ref, ie_api_key = hc_key x\<rparr>))
         else op_bind (cleanup_failed_provision uid ref x) (\<lambda>_. op_raise ready_timeout))))))))"

subsection \<open>Waking\<close>

definition wake_timed_out :: "uuid \<Rightarrow> container_ref \<Rightarrow> hermes_call \<Rightarrow> unit hop" where
  "wake_timed_out uid ref x =
     op_bind (in_db (mark_stopped_if_provisioning uid (hc_now x))) (\<lambda>rows.
     if rows = 1 then op_bind (best_effort (in_docker (backend_stop (hc_stop x) ref))) (\<lambda>_. h_commit)
     else h_rollback)"

definition wake_locked :: "hermes_settings \<Rightarrow> keyring \<Rightarrow> uuid \<Rightarrow> hermes_instance \<Rightarrow> rat option \<Rightarrow> hermes_call \<Rightarrow> instance_endpoint hop" where
  "wake_locked cfg kr uid h deadline x =
     (let ref = container_ref_from_row uid h in
      op_bind (op_of (kr_open kr (hi_sealed h))) (\<lambda>api_key.
      op_bind (in_docker (backend_start (hc_start x) ref)) (\<lambda>_.
      op_bind (in_db (mark_provisioning (hc_now x) uid (hc_now x))) (\<lambda>_.
      op_bind h_commit (\<lambda>_.
      op_bind (others_run (hc_during x)) (\<lambda>_.
      if fst (wait_for_ready cfg deadline x) then
        op_bind (in_db (mark_running (hc_done x) uid (cr_container_id ref) (cr_endpoint ref) (hi_port h))) (\<lambda>_.
        op_bind h_commit (\<lambda>_.
        op_return \<lparr>ie_base_url = cr_endpoint ref, ie_api_key = api_key\<rparr>))
      else op_bind (wake_timed_out uid ref x) (\<lambda>_. op_raise ready_timeout)))))))"

subsection \<open>Entry points\<close>

definition remove_instance :: "uuid \<Rightarrow> hermes_instance \<Rightarrow> hermes_call \<Rightarrow> unit hop" where
  "remove_instance uid h x =
     op_bind (if cr_container_id (container_ref_from_row uid h) \<noteq> []
              then in_docker (backend_remove (hc_remove x) (container_ref_from_row uid h)) else op_return ()) (\<lambda>_.
     in_db (registry_delete uid))"

definition ensure_running :: "hermes_settings \<Rightarrow> keyring \<Rightarrow> uuid \<Rightarrow> rat option \<Rightarrow> hermes_call \<Rightarrow> instance_endpoint hop" where
  "ensure_running cfg kr uid deadline x =
     (if hc_db_fault x then op_raise DbError
      else if lock_expires (lock_timeout_ms deadline (hc_clock x)) (hc_lock_wait x)
      then op_bind h_rollback (\<lambda>_. op_raise (App (error UpstreamTimeoutError ''hermes instance is busy with another request'')))
      else op_bind (in_db (registry_get uid)) (\<lambda>row.
      case row of
        None \<Rightarrow> provision_locked cfg kr uid deadline x
      | Some h \<Rightarrow>
          if hi_status h = ''provisioning'' \<and> is_stale_provisioning cfg (hc_now x) h
          then op_bind (remove_instance uid h x) (\<lambda>_. provision_locked cfg kr uid deadline x)
          else if hi_status h = ''provisioning''
          then op_bind h_rollback (\<lambda>_. await_concurrent_ready cfg kr uid deadline x)
          else if hi_status h = ''stopped'' then wake_locked cfg kr uid h deadline x
          else op_bind (in_db (touch_active (hc_now x) uid)) (\<lambda>_.
               op_bind (in_db (registry_get uid)) (\<lambda>row'.
               case row' of
                 None \<Rightarrow> op_raise (upstream ''hermes instance state inconsistent'')
               | Some h' \<Rightarrow>
                   op_bind (op_of (endpoint_from_row kr uid h')) (\<lambda>e.
                   op_bind h_commit (\<lambda>_. op_return e))))))"

definition provision :: "hermes_settings \<Rightarrow> keyring \<Rightarrow> uuid \<Rightarrow> rat option \<Rightarrow> hermes_call \<Rightarrow> instance_endpoint hop" where
  "provision cfg kr uid deadline x =
     op_bind (in_db (registry_get uid)) (\<lambda>row.
     case row of
       Some h \<Rightarrow> op_of (endpoint_from_row kr uid h)
     | None \<Rightarrow> provision_locked cfg kr uid deadline x)"

definition manager_touch_active :: "int \<Rightarrow> uuid \<Rightarrow> unit hop" where
  "manager_touch_active now uid = op_bind (in_db (touch_active now uid)) (\<lambda>_. h_commit)"

definition deprovision :: "uuid \<Rightarrow> hermes_call \<Rightarrow> unit hop" where
  "deprovision uid x =
     op_bind (in_db (registry_get uid)) (\<lambda>row.
     case row of None \<Rightarrow> op_return () | Some h \<Rightarrow> remove_instance uid h x)"

definition health :: "keyring \<Rightarrow> (string \<Rightarrow> string \<Rightarrow> bool) \<Rightarrow> uuid \<Rightarrow> bool hop" where
  "health kr probe uid =
     op_bind (in_db (registry_get uid)) (\<lambda>row.
     case row of
       None \<Rightarrow> op_return False
     | Some h \<Rightarrow>
         (case hi_endpoint h of
            None \<Rightarrow> op_return False
          | Some e \<Rightarrow>
              if e = [] then op_return False
              else op_bind (op_of (kr_open kr (hi_sealed h))) (\<lambda>k. op_return (probe e k))))"

subsection \<open>Hibernation of idle instances\<close>

definition REAPER_BATCH_LIMIT :: nat where "REAPER_BATCH_LIMIT = 100"

text \<open>One instance of the batch: a stop that fails leaves the row as it is.\<close>

definition stop_one :: "(uuid \<Rightarrow> bool) \<Rightarrow> uuid \<times> hermes_instance \<Rightarrow> bool hop" where
  "stop_one stop_ok entry =
     (case entry of (uid, h) \<Rightarrow>
      op_catch
        (op_bind (in_docker (backend_stop (stop_ok uid) (container_ref_from_row uid h))) (\<lambda>_. op_return True))
        (\<lambda>e. if exn_is UpstreamError e then op_return False else op_raise e))"

fun stop_batch :: "(uuid \<Rightarrow> bool) \<Rightarrow> (uuid \<times> hermes_instance) list \<Rightarrow> nat hop" where
  "stop_batch stop_ok [] = op_return 0"
| "stop_batch stop_ok (entry # rest) =
     op_bind (stop_one stop_ok entry) (\<lambda>stopped.
     op_bind (if stopped then op_bind (in_db (registry_mark_stopped (fst entry))) (\<lambda>_. op_return ()) else op_return ()) (\<lambda>_.
     op_bind (stop_batch stop_ok rest) (\<lambda>n. op_return (if stopped then Suc n else n))))"

definition stop_idle :: "int \<Rightarrow> int \<Rightarrow> (uuid \<Rightarrow> bool) \<Rightarrow> nat hop" where
  "stop_idle now threshold_seconds stop_ok =
     op_bind (in_db (list_idle_running now threshold_seconds REAPER_BATCH_LIMIT)) (stop_batch stop_ok)"

end
