(* ===== verification/AgentConsumer.thy ===== *)
theory AgentConsumer
  imports AgentTransport AgentProcess HermesManager
begin

text \<open>
  The background consumer of a run (\<^verbatim>\<open>agent_proxy/consumer.py\<close>): the beacon of the working task, the
  rule that calls it stalled, the working task and its supervisor as steps on shared state, the
  end of both, the registry of consumers and the sweep of abandoned runs; and the tick of the reaper
  (\<^verbatim>\<open>hermes_runtime/reaper.py\<close>). Every database operation runs in a session of its own, which may
  be refused; every Redis command goes over a link that may fail.
\<close>

subsection \<open>Beacon\<close>

datatype beacon_state = Connecting | AwaitingUpstream | Processing

record beacon =
  bc_state :: beacon_state
  bc_since :: rat
  bc_bytes_read :: nat
  bc_last_published_seq :: int
  bc_transitions :: nat

definition new_beacon :: "rat \<Rightarrow> beacon" where
  "new_beacon now = \<lparr>bc_state = Connecting, bc_since = now, bc_bytes_read = 0, bc_last_published_seq = 0, bc_transitions = 0\<rparr>"

definition set_state :: "rat \<Rightarrow> beacon_state \<Rightarrow> beacon \<Rightarrow> beacon" where
  "set_state now st b =
     (if bc_state b = st then b
      else b\<lparr>bc_state := st, bc_since := now, bc_transitions := Suc (bc_transitions b)\<rparr>)"

definition note_bytes :: "rat \<Rightarrow> nat \<Rightarrow> beacon \<Rightarrow> beacon" where
  "note_bytes now n b =
     (let b1 = (if n > 0 \<and> bc_bytes_read b = 0 then set_state now AwaitingUpstream b else b)
      in b1\<lparr>bc_bytes_read := bc_bytes_read b1 + n\<rparr>)"

definition saw_first_byte :: "beacon \<Rightarrow> bool" where
  "saw_first_byte b \<longleftrightarrow> bc_bytes_read b > 0"

record progress_window =
  pw_bytes_read :: nat
  pw_published_seq :: int
  pw_transitions :: nat
  pw_at :: rat

definition window_of :: "rat \<Rightarrow> beacon \<Rightarrow> progress_window" where
  "window_of now b =
     \<lparr>pw_bytes_read = bc_bytes_read b, pw_published_seq = bc_last_published_seq b, pw_transitions = bc_transitions b, pw_at = now\<rparr>"

definition window_advanced :: "progress_window \<Rightarrow> beacon \<Rightarrow> bool" where
  "window_advanced w b \<longleftrightarrow> bc_bytes_read b > pw_bytes_read w \<or> bc_last_published_seq b > pw_published_seq w"

record consumer_settings =
  agent_run_first_byte_stall_seconds :: rat
  agent_run_processing_stall_seconds :: rat
  agent_run_max_duration_seconds :: rat
  agent_run_orphan_redis_grace_seconds :: int
  agent_run_orphan_timeout_seconds :: int
  agent_run_orphan_max_per_tick :: nat

definition SPIN_TRANSITIONS :: nat where "SPIN_TRANSITIONS = 4"

definition is_stalled :: "consumer_settings \<Rightarrow> rat \<Rightarrow> beacon \<Rightarrow> progress_window \<Rightarrow> bool" where
  "is_stalled cfg now b w =
     (if bc_state b \<in> {Processing, Connecting}
      then now - bc_since b \<ge>
             (if bc_state b = Connecting \<and> \<not> saw_first_byte b then agent_run_first_byte_stall_seconds cfg
              else agent_run_processing_stall_seconds cfg)
      else \<not> window_advanced w b \<and> int (bc_transitions b) - int (pw_transitions w) \<ge> int SPIN_TRANSITIONS \<and>
           now - pw_at w \<ge> agent_run_processing_stall_seconds cfg)"

subsection \<open>State of one consumer\<close>

definition EVENT_CONSUMER_FAILED :: string where "EVENT_CONSUMER_FAILED = ''agent_run_consumer_failed''"
definition EVENT_CONSUMER_DISCONNECTED :: string where "EVENT_CONSUMER_DISCONNECTED = ''agent_run_consumer_disconnected''"
definition EVENT_CONSUMER_MAX_DURATION :: string where "EVENT_CONSUMER_MAX_DURATION = ''agent_run_consumer_max_duration''"
definition EVENT_CONSUMER_STALLED :: string where "EVENT_CONSUMER_STALLED = ''agent_run_consumer_stalled''"
definition EVENT_CONSUMER_SHUTDOWN :: string where "EVENT_CONSUMER_SHUTDOWN = ''agent_run_consumer_shutdown''"

record consumer_outcome =
  co_audit_event :: "string option"
  co_terminal_seen :: bool
  co_events_processed :: nat

text \<open>How a task stands: \<open>SubscriptionLost\<close> is \<open>ConsumerSubscriptionError\<close>.\<close>

datatype failure = SubscriptionLost | Failed exn

datatype 'a task = Running | Returned 'a | Died failure | Cancelled

record handshake =
  hk_done :: bool
  hk_established :: bool

definition mark_established :: "handshake \<Rightarrow> handshake" where
  "mark_established h = h\<lparr>hk_established := True, hk_done := True\<rparr>"

definition mark_failed :: "handshake \<Rightarrow> handshake" where
  "mark_failed h = h\<lparr>hk_done := True\<rparr>"

text \<open>\<open>wait\<close>: the answer when the event is set before the timeout, otherwise False.\<close>

definition handshake_wait :: "bool \<Rightarrow> handshake \<Rightarrow> bool" where
  "handshake_wait timed_out h = (\<not> timed_out \<and> hk_established h)"

record consumer =
  cs_db :: db
  cs_redis :: redis
  cs_epoch :: ustr
  cs_owner :: ustr
  cs_beacon :: beacon
  cs_processing :: "run_processing option"
  cs_handshake :: handshake
  cs_processed :: nat
  cs_terminal_seen :: bool
  cs_window :: progress_window
  cs_started_at :: rat
  cs_worker :: "consumer_outcome task"
  cs_supervisor :: "string option task"

definition service_call :: "bool \<Rightarrow> 'a dbop \<Rightarrow> 'a dbop" where
  "service_call up m = (if up then session_scope m else op_raise DbError)"

subsection \<open>Service operations of the consumer\<close>

definition prepare_consumer_snapshot :: "int \<Rightarrow> uuid \<Rightarrow> string \<Rightarrow> unit dbop" where
  "prepare_consumer_snapshot now uid run_id = ensure_row now run_id uid"

definition consumer_heartbeat :: "int \<Rightarrow> uuid \<Rightarrow> string \<Rightarrow> bool dbop" where
  "consumer_heartbeat now uid run_id =
     op_bind (touch_consumer_heartbeat now run_id) (\<lambda>stamped.
     op_bind (touch_active now uid) (\<lambda>_. op_return (stamped > 0)))"

definition record_consumer_event :: "uuid \<Rightarrow> string \<Rightarrow> string \<Rightarrow> unit dbop" where
  "record_consumer_event uid run_id event_type =
     audit_record \<lparr>ev_user = uid, ev_type = event_type, ev_payload = [(''runId'', JStr run_id)], ev_session = None\<rparr>"

subsection \<open>The synthetic block\<close>

text \<open>\<open>json.dumps\<close> with its default separators; the text of a float is an argument.\<close>

fun join_codes :: "ustr list \<Rightarrow> ustr" where
  "join_codes [] = []"
| "join_codes [x] = x"
| "join_codes (x # y # xs) = x @ codes '', '' @ join_codes (y # xs)"

fun json_dumps :: "(rat \<Rightarrow> string) \<Rightarrow> json \<Rightarrow> ustr" where
  "json_dumps rp JNull = codes ''null''"
| "json_dumps rp (JBool b) = codes (if b then ''true'' else ''false'')"
| "json_dumps rp (JInt i) = codes (int_str i)"
| "json_dumps rp (JFloat q) = codes (rp q)"
| "json_dumps rp (JStr s) = dumps_str (codes s)"
| "json_dumps rp (JList vs) = codes ''['' @ join_codes (map (json_dumps rp) vs) @ codes '']''"
| "json_dumps rp (JObj d) =
     codes ''{'' @ join_codes (map (\<lambda>(k, v). dumps_str (codes k) @ codes '': '' @ json_dumps rp v) d) @ codes ''}''"

definition paused_block :: "(rat \<Rightarrow> string) \<Rightarrow> dict \<Rightarrow> bytes" where
  "paused_block rp payload = codes ''data: '' @ json_dumps rp (JObj payload) @ [10, 10]"

subsection \<open>Working task\<close>

text \<open>
  What the working task meets: bytes on the socket, a block with the outcome of its handling, the end of
  the stream, and its loss.
\<close>

record block_input =
  bi_now :: rat
  bi_link :: link
  bi_db_up :: bool
  bi_clock :: event_clock
  bi_stop :: "exn + dict"
  bi_event :: sse_event
  bi_raw :: bytes
  bi_paused_link :: link
  bi_done :: rat

datatype upstream_item =
    Headers int
  | Bytes rat nat
  | Block block_input
  | StreamEnd
  | StreamLost

definition start_worker :: "settings \<Rightarrow> uuid \<Rightarrow> string \<Rightarrow> bool \<Rightarrow> rat \<Rightarrow> consumer \<Rightarrow> consumer" where
  "start_worker cfg uid run_id up now c =
     (case service_call up (new_run_processing cfg uid run_id) (cs_db c) of
        (Inl e, d) \<Rightarrow> c\<lparr>cs_db := d, cs_worker := Died (Failed e)\<rparr>
      | (Inr r, d) \<Rightarrow>
          c\<lparr>cs_db := d, cs_processing := Some r, cs_processed := 0, cs_terminal_seen := False,
            cs_beacon := set_state now Connecting (cs_beacon c)\<rparr>)"

definition worker_publish :: "bus_settings \<Rightarrow> string \<Rightarrow> link \<Rightarrow> bytes \<Rightarrow> consumer \<Rightarrow> consumer" where
  "worker_publish bus run_id l raw c =
     (case publish bus l run_id (cs_epoch c) raw (cs_redis c) of (seq, rd) \<Rightarrow>
        (case seq of
           None \<Rightarrow> c\<lparr>cs_redis := rd\<rparr>
         | Some n \<Rightarrow> c\<lparr>cs_redis := rd, cs_beacon := (cs_beacon c)\<lparr>bc_last_published_seq := n\<rparr>\<rparr>))"

definition beacon_to :: "rat \<Rightarrow> beacon_state \<Rightarrow> consumer \<Rightarrow> consumer" where
  "beacon_to now st c = c\<lparr>cs_beacon := set_state now st (cs_beacon c)\<rparr>"

text \<open>The handling of one block after its publication.\<close>

definition worker_handle :: "(rat \<Rightarrow> string) \<Rightarrow> settings \<Rightarrow> bus_settings \<Rightarrow> string \<Rightarrow> block_input \<Rightarrow> consumer \<Rightarrow> consumer" where
  "worker_handle rp cfg bus run_id i c =
     (case cs_processing c of
        None \<Rightarrow> c
      | Some r \<Rightarrow>
          if \<not> bi_db_up i then c\<lparr>cs_worker := Died (Failed DbError)\<rparr>
          else case process_event cfg (bi_clock i) (bi_stop i) (bi_event i) (r, cs_db c) of
            (Inl e, (r', d)) \<Rightarrow> c\<lparr>cs_processing := Some r', cs_db := d, cs_worker := Died (Failed e)\<rparr>
          | (Inr paused, (r', d)) \<Rightarrow>
              let c1 = c\<lparr>cs_processing := Some r', cs_db := d, cs_processed := Suc (cs_processed c)\<rparr> in
              (case paused of
                 Some payload \<Rightarrow>
                   (let c2 = worker_publish bus run_id (bi_paused_link i) (paused_block rp payload) c1
                    in c2\<lparr>cs_worker := Returned \<lparr>co_audit_event = None, co_terminal_seen = True, co_events_processed = cs_processed c1\<rparr>\<rparr>)
               | None \<Rightarrow>
                   beacon_to (bi_done i) AwaitingUpstream
                     (c1\<lparr>cs_terminal_seen := (cs_terminal_seen c1 \<or> is_terminal_event (bi_event i))\<rparr>)))"

definition worker_ends :: "consumer \<Rightarrow> consumer" where
  "worker_ends c =
     c\<lparr>cs_worker := Returned
        \<lparr>co_audit_event = (if cs_terminal_seen c then None else Some EVENT_CONSUMER_DISCONNECTED),
         co_terminal_seen = cs_terminal_seen c, co_events_processed = cs_processed c\<rparr>\<rparr>"

fun worker_item :: "(rat \<Rightarrow> string) \<Rightarrow> settings \<Rightarrow> bus_settings \<Rightarrow> string \<Rightarrow> upstream_item \<Rightarrow> consumer \<Rightarrow> consumer" where
  "worker_item rp cfg bus run_id (Headers status) c =
     (if 200 \<le> status \<and> status < 300 then c\<lparr>cs_handshake := mark_established (cs_handshake c)\<rparr>
      else c\<lparr>cs_worker := Died SubscriptionLost\<rparr>)"
| "worker_item rp cfg bus run_id (Bytes now n) c = c\<lparr>cs_beacon := note_bytes now n (cs_beacon c)\<rparr>"
| "worker_item rp cfg bus run_id (Block i) c =
     worker_handle rp cfg bus run_id i (worker_publish bus run_id (bi_link i) (bi_raw i) (beacon_to (bi_now i) Processing c))"
| "worker_item rp cfg bus run_id StreamEnd c = worker_ends c"
| "worker_item rp cfg bus run_id StreamLost c = c\<lparr>cs_worker := Died SubscriptionLost\<rparr>"

subsection \<open>Supervisor\<close>

record tick_input =
  ti_now :: rat
  ti_db_now :: int
  ti_renew_link :: link
  ti_epoch_links :: "link \<times> link"
  ti_fresh_epoch :: ustr
  ti_db_up :: bool

definition supervisor_cancels :: "string \<Rightarrow> consumer \<Rightarrow> consumer" where
  "supervisor_cancels verdict c = c\<lparr>cs_worker := Cancelled, cs_supervisor := Returned (Some verdict)\<rparr>"

definition tick_heartbeat :: "uuid \<Rightarrow> string \<Rightarrow> tick_input \<Rightarrow> consumer \<Rightarrow> consumer" where
  "tick_heartbeat uid run_id i c =
     (case service_call (ti_db_up i) (consumer_heartbeat (ti_db_now i) uid run_id) (cs_db c) of
        (Inr _, d) \<Rightarrow> c\<lparr>cs_db := d\<rparr>
      | (Inl DbError, d) \<Rightarrow> c\<lparr>cs_db := d\<rparr>
      | (Inl e, d) \<Rightarrow> c\<lparr>cs_db := d, cs_supervisor := Died (Failed e)\<rparr>)"

text \<open>A supervisor that dies takes the worker with it: the task group cancels the sibling.\<close>

definition supervisor_tick :: "consumer_settings \<Rightarrow> bus_settings \<Rightarrow> uuid \<Rightarrow> string \<Rightarrow> tick_input \<Rightarrow> consumer \<Rightarrow> consumer" where
  "supervisor_tick cfg bus uid run_id i c =
     (if cs_worker c \<noteq> Running then c\<lparr>cs_supervisor := Returned None\<rparr>
      else if ti_now i - cs_started_at c \<ge> agent_run_max_duration_seconds cfg
      then supervisor_cancels EVENT_CONSUMER_MAX_DURATION c
      else if is_stalled cfg (ti_now i) (cs_beacon c) (cs_window c)
      then supervisor_cancels EVENT_CONSUMER_STALLED c
      else
        let c1 = (if window_advanced (cs_window c) (cs_beacon c) then c\<lparr>cs_window := window_of (ti_now i) (cs_beacon c)\<rparr> else c)
        in case renew_lease bus (ti_renew_link i) run_id (cs_owner c1) (cs_redis c1) of
             (LOST, rd) \<Rightarrow> supervisor_cancels EVENT_CONSUMER_SHUTDOWN (c1\<lparr>cs_redis := rd\<rparr>)
           | (_, rd) \<Rightarrow>
               (case ensure_epoch bus (fst (ti_epoch_links i)) (snd (ti_epoch_links i)) (ti_fresh_epoch i) run_id rd of
                  (fresh, rd2) \<Rightarrow>
                    tick_heartbeat uid run_id i
                      (c1\<lparr>cs_redis := rd2, cs_epoch := (case fresh of None \<Rightarrow> cs_epoch c1 | Some e \<Rightarrow> e)\<rparr>)))"

subsection \<open>Interleaving\<close>

text \<open>
  The two tasks run on one loop. A block is only yielded after bytes were counted. Time is carried by the
  inputs; the external cancellation is the shutdown of the process.
\<close>

inductive consumer_step ::
  "(rat \<Rightarrow> string) \<Rightarrow> settings \<Rightarrow> consumer_settings \<Rightarrow> bus_settings \<Rightarrow> uuid \<Rightarrow> string \<Rightarrow> consumer \<Rightarrow> consumer \<Rightarrow> bool"
  for rp cfg ccfg bus uid run_id where
  step_item: "cs_worker c = Running \<Longrightarrow> (case item of Block _ \<Rightarrow> saw_first_byte (cs_beacon c) | _ \<Rightarrow> True) \<Longrightarrow>
     consumer_step rp cfg ccfg bus uid run_id c (worker_item rp cfg bus run_id item c)"
| step_tick: "cs_supervisor c = Running \<Longrightarrow>
     consumer_step rp cfg ccfg bus uid run_id c (supervisor_tick ccfg bus uid run_id i c)"
| step_shutdown: "cs_worker c = Running \<Longrightarrow>
     consumer_step rp cfg ccfg bus uid run_id c (c\<lparr>cs_worker := Cancelled, cs_supervisor := Cancelled\<rparr>)"

inductive_cases consumer_stepE: "consumer_step rp cfg ccfg bus uid run_id c c'"

subsection \<open>The end of a consumer\<close>

text \<open>
  What the task group reports, from how the two tasks ended: the recorded reason, and the exception that goes
  on. A subscription or database error is handled, a cancellation too; anything else is recorded and raised.
\<close>

definition died_with :: "'a task \<Rightarrow> failure list" where
  "died_with t = (case t of Died f \<Rightarrow> [f] | _ \<Rightarrow> [])"

definition handled :: "failure \<Rightarrow> bool" where
  "handled f \<longleftrightarrow> f = SubscriptionLost \<or> f = Failed DbError"

definition group_verdict :: "consumer_outcome task \<Rightarrow> string option task \<Rightarrow> string option \<times> bool" where
  "group_verdict w s =
     (let fs = died_with w @ died_with s; raised = list_ex (\<lambda>f. \<not> handled f) fs in
      if fs \<noteq> [] then (Some EVENT_CONSUMER_FAILED, raised)
      else case (s, w) of
        (Returned v, Returned out) \<Rightarrow> ((case v of Some e \<Rightarrow> Some e | None \<Rightarrow> co_audit_event out), False)
      | (Returned (Some e), _) \<Rightarrow> (Some e, False)
      | (_, _) \<Rightarrow> (Some EVENT_CONSUMER_SHUTDOWN, False))"

text \<open>
  \<open>_finalize\<close>: the flush may be refused by the database or cut by its time limit; the lease is dropped in any
  case.
\<close>

record finish_input =
  fi_flush_ok :: bool
  fi_clock :: event_clock
  fi_link :: link
  fi_audit_up :: bool

definition final_flush :: "settings \<Rightarrow> finish_input \<Rightarrow> consumer \<Rightarrow> consumer" where
  "final_flush cfg i c =
     (case cs_processing c of
        None \<Rightarrow> c
      | Some r \<Rightarrow>
          if fi_flush_ok i
          then (case flush_run_snapshot cfg (fi_clock i) (r, cs_db c) of (_, (r', d)) \<Rightarrow> c\<lparr>cs_processing := Some r', cs_db := d\<rparr>)
          else c)"

definition finalize :: "settings \<Rightarrow> uuid \<Rightarrow> string \<Rightarrow> finish_input \<Rightarrow> string option \<Rightarrow> consumer \<Rightarrow> consumer" where
  "finalize cfg uid run_id i audit_event c =
     (let c1 = final_flush cfg i (c\<lparr>cs_handshake := mark_failed (cs_handshake c)\<rparr>);
          c2 = c1\<lparr>cs_redis := release_lease (fi_link i) run_id (cs_owner c1) (cs_redis c1)\<rparr>
      in case audit_event of
           None \<Rightarrow> c2
         | Some e \<Rightarrow> c2\<lparr>cs_db := snd (service_call (fi_audit_up i) (record_consumer_event uid run_id e) (cs_db c2))\<rparr>)"

text \<open>
  \<open>run_consumer\<close>: the lease, the generation, the snapshot row, the tasks (\<open>tasks\<close> stands for their
  interleaved run), the end. The result tells whether a consumer ran and whether an exception goes on.
\<close>

record start_input =
  si_now :: rat
  si_db_now :: int
  si_owner :: ustr
  si_acquire_link :: link
  si_epoch_links :: "link \<times> link"
  si_new_epoch :: ustr
  si_own_epoch :: ustr
  si_snapshot_up :: bool
  si_worker_up :: bool

definition new_consumer :: "start_input \<Rightarrow> ustr \<Rightarrow> db \<Rightarrow> redis \<Rightarrow> handshake \<Rightarrow> consumer" where
  "new_consumer i epoch d rd h =
     \<lparr>cs_db = d, cs_redis = rd, cs_epoch = epoch, cs_owner = si_owner i, cs_beacon = new_beacon (si_now i), cs_processing = None,
      cs_handshake = h, cs_processed = 0, cs_terminal_seen = False, cs_window = window_of (si_now i) (new_beacon (si_now i)),
      cs_started_at = si_now i, cs_worker = Running, cs_supervisor = Running\<rparr>"

definition run_consumer ::
  "settings \<Rightarrow> bus_settings \<Rightarrow> uuid \<Rightarrow> string \<Rightarrow> start_input \<Rightarrow> (consumer \<Rightarrow> consumer) \<Rightarrow> finish_input \<Rightarrow>
   db \<Rightarrow> redis \<Rightarrow> handshake \<Rightarrow> (consumer + db \<times> redis \<times> handshake) \<times> bool" where
  "run_consumer cfg bus uid run_id i tasks fin d rd h =
     (case acquire_lease bus (si_acquire_link i) run_id (si_owner i) rd of
        (HELD_ELSEWHERE, rd1) \<Rightarrow> (Inr (d, rd1, mark_failed h), False)
      | (_, rd1) \<Rightarrow>
          (case ensure_epoch bus (fst (si_epoch_links i)) (snd (si_epoch_links i)) (si_new_epoch i) run_id rd1 of
             (epoch, rd2) \<Rightarrow>
               let c0 = new_consumer i (case epoch of None \<Rightarrow> si_own_epoch i | Some e \<Rightarrow> e) d rd2 h in
               (case service_call (si_snapshot_up i) (prepare_consumer_snapshot (si_db_now i) uid run_id) d of
                  (Inl e, d1) \<Rightarrow>
                    (Inl (finalize cfg uid run_id fin (Some EVENT_CONSUMER_FAILED) (c0\<lparr>cs_db := d1\<rparr>)), e \<noteq> DbError)
                | (Inr _, d1) \<Rightarrow>
                    (let c1 = tasks (start_worker cfg uid run_id (si_worker_up i) (si_now i) (c0\<lparr>cs_db := d1\<rparr>))
                     in case group_verdict (cs_worker c1) (cs_supervisor c1) of
                          (audit, raised) \<Rightarrow> (Inl (finalize cfg uid run_id fin audit c1), raised)))))"

subsection \<open>Registry\<close>

text \<open>The tasks by run, each with whether it is done; identifiers stand for the task objects.\<close>

record registry =
  rg_tasks :: "(string \<times> nat) list"
  rg_done :: "nat list"
  rg_next :: nat

definition task_done :: "registry \<Rightarrow> nat \<Rightarrow> bool" where
  "task_done g t \<longleftrightarrow> t \<in> set (rg_done g)"

definition registry_start :: "string \<Rightarrow> registry \<Rightarrow> nat \<times> registry" where
  "registry_start run_id g =
     (case map_of (rg_tasks g) run_id of
        Some t \<Rightarrow> if task_done g t then (rg_next g, g\<lparr>rg_tasks := AList.update run_id (rg_next g) (rg_tasks g), rg_next := Suc (rg_next g)\<rparr>)
                  else (t, g)
      | None \<Rightarrow> (rg_next g, g\<lparr>rg_tasks := AList.update run_id (rg_next g) (rg_tasks g), rg_next := Suc (rg_next g)\<rparr>))"

definition registry_forget :: "string \<Rightarrow> nat \<Rightarrow> registry \<Rightarrow> registry" where
  "registry_forget run_id t g =
     (if map_of (rg_tasks g) run_id = Some t then g\<lparr>rg_tasks := AList.delete run_id (rg_tasks g)\<rparr> else g)"

definition task_ends :: "nat \<Rightarrow> registry \<Rightarrow> registry" where
  "task_ends t g = g\<lparr>rg_done := t # rg_done g\<rparr>"

definition registry_active :: "registry \<Rightarrow> nat" where
  "registry_active g = length (filter (\<lambda>(_, t). \<not> task_done g t) (rg_tasks g))"

text \<open>\<open>drain\<close>: the tasks it cancels; \<open>finished\<close> are those that end within the budget.\<close>

definition registry_drain :: "nat list \<Rightarrow> registry \<Rightarrow> nat \<times> registry" where
  "registry_drain finished g =
     (let live = filter (\<lambda>t. \<not> task_done g t) (map snd (rg_tasks g))
      in (length live, g\<lparr>rg_done := filter (\<lambda>t. t \<in> set live) finished @ rg_done g\<rparr>))"

definition start_and_wait :: "string \<Rightarrow> bool \<Rightarrow> handshake \<Rightarrow> registry \<Rightarrow> bool \<times> registry" where
  "start_and_wait run_id timed_out after_start g =
     (case registry_start run_id g of (_, g') \<Rightarrow> (handshake_wait timed_out after_start, g'))"

subsection \<open>Sweep of abandoned runs\<close>

text \<open>
  One candidate: its lease as it is read at that moment, and whether the database takes the finalization. An
  error other than of the database leaves the loop.
\<close>

record sweep_probe =
  sp_link :: link
  sp_redis :: redis
  sp_db_up :: bool
  sp_now :: int

fun sweep_candidates ::
  "settings \<Rightarrow> (sweep_probe \<times> orphan_candidate) list \<Rightarrow> nat dbop" where
  "sweep_candidates cfg [] = op_return 0"
| "sweep_candidates cfg ((p, oc) # rest) =
     (if lease_alive (sp_link p) (oc_run_id oc) (sp_redis p) \<noteq> Some False then sweep_candidates cfg rest
      else
        op_bind
          (op_catch
            (op_bind (service_call (sp_db_up p)
               (finalize_orphan_run cfg (sp_now p) (oc_user oc) (oc_run_id oc) (oc_input_tokens oc) (oc_output_tokens oc)
                  (oc_snapshot_present oc) (of_int (oc_age oc) / 1000000))) (\<lambda>_. op_return (1 :: nat)))
            (\<lambda>e. if e = DbError then op_return 0 else op_raise e)) (\<lambda>n.
        op_bind (sweep_candidates cfg rest) (\<lambda>m. op_return (n + m))))"

definition sweep_orphan_runs ::
  "settings \<Rightarrow> consumer_settings \<Rightarrow> link \<Rightarrow> (int + string) option \<Rightarrow> bool \<Rightarrow> int \<Rightarrow> (nat \<Rightarrow> sweep_probe) \<Rightarrow> nat dbop" where
  "sweep_orphan_runs cfg ccfg l info list_up now probe =
     (case uptime_seconds l info of
        None \<Rightarrow> op_return 0
      | Some up \<Rightarrow>
          if up < agent_run_orphan_redis_grace_seconds ccfg then op_return 0
          else op_bind (service_call list_up
                  (list_orphan_candidates now (agent_run_orphan_timeout_seconds ccfg) (agent_run_orphan_max_per_tick ccfg))) (\<lambda>cs.
               sweep_candidates cfg (zip (map probe [0..<length cs]) cs)))"

subsection \<open>The tick of the reaper\<close>

text \<open>Hibernation and the retention sweep share one transaction; the orphan sweep follows.\<close>

definition reaper_housekeeping :: "hermes_settings \<Rightarrow> int \<Rightarrow> (uuid \<Rightarrow> bool) \<Rightarrow> nat hop" where
  "reaper_housekeeping hcfg now stop_ok =
     request (op_bind (stop_idle now (hermes_idle_timeout_seconds hcfg) stop_ok) (\<lambda>_.
              in_db (sweep_expired now (agent_run_snapshot_ttl_days hcfg))))"

definition run_one_tick ::
  "settings \<Rightarrow> hermes_settings \<Rightarrow> consumer_settings \<Rightarrow> int \<Rightarrow> (uuid \<Rightarrow> bool) \<Rightarrow> link \<Rightarrow> (int + string) option \<Rightarrow> bool \<Rightarrow>
   (nat \<Rightarrow> sweep_probe) \<Rightarrow> unit hop" where
  "run_one_tick cfg hcfg ccfg now stop_ok l info list_up probe =
     op_bind (reaper_housekeeping hcfg now stop_ok) (\<lambda>_.
     if agent_run_consumer_enabled hcfg
     then op_bind (in_db (sweep_orphan_runs cfg ccfg l info list_up now probe)) (\<lambda>_. h_commit)
     else op_return ())"

end
