(* ===== verification/AgentTransportFacts.thy ===== *)
theory AgentTransportFacts
  imports AgentTransport
begin

text \<open>
  Facts about the transport: the keys of different runs and purposes are different, which keys every
  operation may touch, and what the trimming loops do to the ring and its byte counter.
\<close>

named_theorems frame_rules \<open>which keys an operation may touch\<close>

subsection \<open>Keys\<close>

lemma bus_key_eq:
  assumes "CHR '':'' \<notin> set x" "CHR '':'' \<notin> set y"
  shows "bus_key r x = bus_key r' y \<longleftrightarrow> r = r' \<and> x = y"
proof
  assume "bus_key r x = bus_key r' y"
  then have "rev (r @ CHR '':'' # x) = rev (r' @ CHR '':'' # y)" by (simp add: bus_key_def)
  then have e: "rev x @ CHR '':'' # rev r = rev y @ CHR '':'' # rev r'" by simp
  have "takeWhile (\<lambda>c. c \<noteq> CHR '':'') (rev x @ CHR '':'' # rev r) = rev x"
    "takeWhile (\<lambda>c. c \<noteq> CHR '':'') (rev y @ CHR '':'' # rev r') = rev y"
    using assms by (auto simp: takeWhile_append)
  with e have "x = y" by simp
  with e show "r = r' \<and> x = y" by simp
qed simp

lemma bus_keys_distinct [simp]:
  "bus_key r ''events'' \<noteq> bus_key r' ''seq''" "bus_key r ''events'' \<noteq> bus_key r' ''epoch''"
  "bus_key r ''events'' \<noteq> bus_key r' ''bytes''" "bus_key r ''events'' \<noteq> bus_key r' ''lease''"
  "bus_key r ''seq'' \<noteq> bus_key r' ''events''" "bus_key r ''seq'' \<noteq> bus_key r' ''epoch''"
  "bus_key r ''seq'' \<noteq> bus_key r' ''bytes''" "bus_key r ''seq'' \<noteq> bus_key r' ''lease''"
  "bus_key r ''epoch'' \<noteq> bus_key r' ''events''" "bus_key r ''epoch'' \<noteq> bus_key r' ''seq''"
  "bus_key r ''epoch'' \<noteq> bus_key r' ''bytes''" "bus_key r ''epoch'' \<noteq> bus_key r' ''lease''"
  "bus_key r ''bytes'' \<noteq> bus_key r' ''events''" "bus_key r ''bytes'' \<noteq> bus_key r' ''seq''"
  "bus_key r ''bytes'' \<noteq> bus_key r' ''epoch''" "bus_key r ''bytes'' \<noteq> bus_key r' ''lease''"
  "bus_key r ''lease'' \<noteq> bus_key r' ''events''" "bus_key r ''lease'' \<noteq> bus_key r' ''seq''"
  "bus_key r ''lease'' \<noteq> bus_key r' ''epoch''" "bus_key r ''lease'' \<noteq> bus_key r' ''bytes''"
  by (simp_all add: bus_key_eq)

lemma bus_key_same [simp]:
  "bus_key r ''events'' = bus_key r' ''events'' \<longleftrightarrow> r = r'" "bus_key r ''seq'' = bus_key r' ''seq'' \<longleftrightarrow> r = r'"
  "bus_key r ''bytes'' = bus_key r' ''bytes'' \<longleftrightarrow> r = r'" "bus_key r ''lease'' = bus_key r' ''lease'' \<longleftrightarrow> r = r'"
  "bus_key r ''epoch'' = bus_key r' ''epoch'' \<longleftrightarrow> r = r'"
  by (simp_all add: bus_key_eq)

subsection \<open>Frames\<close>

text \<open>Outside \<open>K\<close> the keys are as before; the clock and the number printer never change.\<close>

definition frame :: "string set \<Rightarrow> redis \<Rightarrow> redis \<Rightarrow> bool" where
  "frame K s t \<longleftrightarrow> (\<forall>k. k \<notin> K \<longrightarrow> live t k = live s k) \<and> clock t = clock s \<and> lua_tostring t = lua_tostring s"

definition touches :: "string set \<Rightarrow> 'a redis_op \<Rightarrow> bool" where
  "touches K m \<longleftrightarrow> (\<forall>s. frame K s (snd (m s)))"

lemma frame_refl [simp, intro]: "frame K s s"
  by (simp add: frame_def)

lemma frame_trans [trans]: "frame K s t \<Longrightarrow> frame K t u \<Longrightarrow> frame K s u"
  by (simp add: frame_def)

lemma frame_rput [simp]: "k \<in> K \<Longrightarrow> frame K s (rput k e s)"
  by (auto simp: frame_def)

lemma frame_rdel [simp]: "k \<in> K \<Longrightarrow> frame K s (rdel k s)"
  by (auto simp: frame_def)

lemma frame_rkeep [simp]: "k \<in> K \<Longrightarrow> frame K s (rkeep k v s)"
  by (auto simp: frame_def)

lemma frame_messages [simp]: "frame K s (s\<lparr>messages := m\<rparr>)"
  by (simp add: frame_def)

lemma touchesD: "touches K m \<Longrightarrow> frame K s (snd (m s))"
  by (simp add: touches_def)

lemma touches_cmds [frame_rules]:
  "touches K (r_get k)" "touches K (r_exists k)" "touches K (r_llen k)" "touches K (r_lrange_all k)"
  "k \<in> K \<Longrightarrow> touches K (r_set_nx k v ms)" "k \<in> K \<Longrightarrow> touches K (r_set k v ms)"
  "k \<in> K \<Longrightarrow> touches K (r_del k)" "k \<in> K \<Longrightarrow> touches K (r_pexpire k ms)" "k \<in> K \<Longrightarrow> touches K (r_expire k ms)"
  "k \<in> K \<Longrightarrow> touches K (r_incrby k d)" "k \<in> K \<Longrightarrow> touches K (r_rpush k x)" "k \<in> K \<Longrightarrow> touches K (r_lpop k)"
  "touches K (r_publish c x)" "touches K (op_return y)" "touches K (op_read f)" "touches K (op_raise e)"
  by (auto simp: touches_def redis_cmd_defs split: option.split sum.split list.split rvalue.split)

lemma touches_bind [frame_rules]:
  "touches K m \<Longrightarrow> (\<And>x. touches K (f x)) \<Longrightarrow> touches K (op_bind m f)"
  unfolding touches_def op_bind_def
  by (auto split: prod.split sum.split) (metis frame_trans snd_conv)+

lemma touches_if [frame_rules]:
  "touches K m \<Longrightarrow> touches K n \<Longrightarrow> touches K (if b then m else n)"
  by simp

lemma touches_link [frame_rules]: "touches K m \<Longrightarrow> touches K (via_link l m)"
  by (auto simp: touches_def via_link_def split: link.split)

lemma trim_while_frame: "ek \<in> K \<Longrightarrow> bk \<in> K \<Longrightarrow> frame K s (snd (trim_while ek bk cond tot s))"
proof (induction ek bk cond tot s rule: trim_while.induct)
  case (1 ek bk cond tot s)
  have step: "frame K s s3" if "r_lpop ek s = (x, s2)" "r_incrby bk d s2 = (y, s3)" for x s2 d y s3
    using touchesD [of K "r_lpop ek" s] touchesD [of K "r_incrby bk d" s2] 1(2,3) that
    by (auto simp: touches_cmds intro: frame_trans)
  have pop: "frame K s s2" if "r_lpop ek s = (x, s2)" for x s2
    using touchesD [of K "r_lpop ek" s] 1(2) that by (simp add: touches_cmds)
  have IH: "frame K s3 (snd (trim_while ek bk cond b s3))"
    if "r_llen ek s = (Inr n, s)" "cond tot n" "r_lpop ek s = (Inr (Some x), s2)" "r_incrby bk (- int (length x)) s2 = (Inr b, s3)"
    for n x s2 b s3
    using that by (intro 1(1) [OF that(1) [symmetric] refl that(2) that(3) [symmetric] refl refl that(4) [symmetric] refl] 1(2,3))
  obtain l where l: "r_llen ek s = (l, s)" using r_llen_state by (metis surj_pair)
  show ?case
    by (subst trim_while.simps)
      (auto simp: l split: prod.split sum.split option.split intro: frame_trans [OF step IH] pop step)
qed

lemma touches_trim [frame_rules]: "ek \<in> K \<Longrightarrow> bk \<in> K \<Longrightarrow> touches K (trim_while ek bk cond tot)"
  by (simp add: touches_def trim_while_frame)

subsection \<open>The trimming loops\<close>

definition bytes_of :: "ustr list \<Rightarrow> int" where
  "bytes_of xs = sum_list (map (\<lambda>x. int (length x)) xs)"

lemma bytes_of_simps [simp]: "bytes_of [] = 0" "bytes_of (x # xs) = int (length x) + bytes_of xs"
  "bytes_of (xs @ ys) = bytes_of xs + bytes_of ys"
  by (simp_all add: bytes_of_def)

lemma bytes_of_nonneg [simp]: "0 \<le> bytes_of xs"
  by (induction xs) auto

fun trim_list :: "(int \<Rightarrow> int \<Rightarrow> bool) \<Rightarrow> ustr list \<Rightarrow> ustr list" where
  "trim_list cond [] = []"
| "trim_list cond (x # xs) =
     (if cond (bytes_of (x # xs)) (int (length (x # xs))) then trim_list cond xs else x # xs)"

lemma trim_list_drop: "\<exists>k \<le> length xs. trim_list cond xs = drop k xs"
proof (induction xs)
  case (Cons x xs)
  then obtain k where "k \<le> length xs" "trim_list cond xs = drop k xs" by auto
  then have "\<exists>k \<le> Suc (length xs). trim_list cond xs = drop k (x # xs)" by (intro exI [of _ "Suc k"]) simp
  then show ?case by (auto intro: exI [of _ 0])
qed simp

lemma trim_list_nonempty:
  assumes "\<And>t n. cond t n \<Longrightarrow> 1 < n" and "xs \<noteq> []"
  shows "trim_list cond xs \<noteq> []"
  using assms(2)
proof (induction xs)
  case (Cons x xs)
  then show ?case using assms(1) [of "bytes_of (x # xs)" "int (length (x # xs))"] by auto
qed simp

lemma trim_list_stops: "trim_list cond xs = ys \<Longrightarrow> ys \<noteq> [] \<Longrightarrow> \<not> cond (bytes_of ys) (int (length ys))"
  by (induction xs) (auto split: if_splits)

definition holds_ring :: "string \<Rightarrow> string \<Rightarrow> int option \<Rightarrow> int option \<Rightarrow> ustr list \<Rightarrow> redis \<Rightarrow> bool" where
  "holds_ring ek bk te tb xs s \<longleftrightarrow>
     live s ek = Some \<lparr>rval = RList xs, rexpire = te\<rparr> \<and>
     live s bk = Some \<lparr>rval = RStr (dec (bytes_of xs)), rexpire = tb\<rparr>"

lemma trim_while_ring:
  assumes "holds_ring ek bk te tb xs s" "xs \<noteq> []" "ek \<noteq> bk" "bytes_of xs < 2 ^ 63"
    and cond: "\<And>t n. cond t n \<Longrightarrow> 1 < n"
  shows "\<exists>s'. trim_while ek bk cond (bytes_of xs) s = (Inr (bytes_of (trim_list cond xs)), s') \<and>
    holds_ring ek bk te tb (trim_list cond xs) s'"
  using assms(1,2,4)
proof (induction xs arbitrary: s)
  case (Cons x xs)
  note h = Cons.prems(1) [unfolded holds_ring_def]
  have len: "r_llen ek s = (Inr (int (length (x # xs))), s)" using h by (simp add: r_llen_def list_at_def)
  show ?case
  proof (cases "cond (bytes_of (x # xs)) (int (length (x # xs)))")
    case True
    then have ne: "xs \<noteq> []" using cond by fastforce
    define s2 where "s2 = rkeep ek (RList xs) s"
    define s3 where "s3 = rkeep bk (RStr (dec (bytes_of xs))) s2"
    have pop: "r_lpop ek s = (Inr (Some x), s2)" using h ne by (simp add: r_lpop_def list_at_def s2_def)
    have bytes: "live s2 bk = Some \<lparr>rval = RStr (dec (bytes_of (x # xs))), rexpire = tb\<rparr>" using h assms(3) by (simp add: s2_def)
    have range: "- (2 ^ 63) \<le> bytes_of (x # xs) + - int (length x)" "bytes_of (x # xs) + - int (length x) < 2 ^ 63"
      using Cons.prems(3) by (auto intro: order_trans [OF _ bytes_of_nonneg])
    have tot: "bytes_of (x # xs) + - int (length x) = bytes_of xs" by simp
    have dec: "r_incrby bk (- int (length x)) s2 = (Inr (bytes_of xs), s3)"
      unfolding r_incrby_def bytes option.case rentry.simps rvalue.case text_int_dec [OF bytes_of_nonneg]
      using range unfolding tot s3_def by simp
    have "holds_ring ek bk te tb xs s3" using h assms(3) by (auto simp: holds_ring_def s2_def s3_def)
    then obtain s' where "trim_while ek bk cond (bytes_of xs) s3 = (Inr (bytes_of (trim_list cond xs)), s')"
      "holds_ring ek bk te tb (trim_list cond xs) s'" using Cons.IH [OF _ ne] Cons.prems(3) by auto
    with True show ?thesis by (subst trim_while.simps) (simp add: len pop dec del: bytes_of_simps)
  next
    case False
    with Cons.prems show ?thesis by (subst trim_while.simps) (simp add: len del: bytes_of_simps)
  qed
qed simp

end
