(* ===== verification/AgentRing.thy ===== *)
theory AgentRing
  imports AgentTransportFacts
begin

text \<open>
  The bounded ring refines an unbounded log of the published events that is forgotten when nothing was
  published for the time to live; what a reader gets back are the bytes that were published; a lease is
  exclusive until it expires.
\<close>

subsection \<open>The abstract log\<close>

type_synonym event_log = "(ustr \<times> bytes) list"

record log_state =
  log_events :: event_log
  log_deadline :: int
  log_now :: int

definition log_elements :: "(int \<Rightarrow> ustr) \<Rightarrow> event_log \<Rightarrow> ustr list" where
  "log_elements f lg = map (\<lambda>(i, e, raw). ring_element f e (int i + 1) (encode_data raw)) (enumerate 0 lg)"

lemma log_elements_length [simp]: "length (log_elements f lg) = length lg"
  by (simp add: log_elements_def)

lemma log_elements_Nil [simp]: "log_elements f [] = []"
  by (simp add: log_elements_def)

lemma log_elements_snoc:
  "log_elements f (lg @ [(e, raw)]) = log_elements f lg @ [ring_element f e (int (length lg) + 1) (encode_data raw)]"
  by (simp add: log_elements_def enumerate_append_eq)

subsection \<open>What the keys of a run hold\<close>

definition counter_at :: "redis \<Rightarrow> string \<Rightarrow> int \<Rightarrow> bool" where
  "counter_at s k v \<longleftrightarrow> 0 \<le> v \<and>
     (live s k = None \<and> v = 0 \<or> (\<exists>T. live s k = Some \<lparr>rval = RStr (dec v), rexpire = T\<rparr>))"

lemma r_incrby_counter:
  assumes "counter_at s k v" "0 \<le> v + d" "v + d < 2 ^ 63"
  shows "r_incrby k d s = (Inr (v + d), rkeep k (RStr (dec (v + d))) s)"
  using assms by (auto simp: counter_at_def r_incrby_def)

lemma r_rpush_list: "list_at s k = Inr xs \<Longrightarrow> r_rpush k x s = (Inr (int (length xs) + 1), rkeep k (RList (xs @ [x])) s)"
  by (simp add: r_rpush_def)

lemma r_expire_live:
  "live s k = Some e \<Longrightarrow> 0 < ttl \<Longrightarrow> r_expire k ttl s = (Inr 1, rput k (e\<lparr>rexpire := Some (clock s + ttl * 1000)\<rparr>) s)"
  by (simp add: r_expire_def r_pexpire_def)

definition ring_bounded :: "bus_settings \<Rightarrow> ustr list \<Rightarrow> bool" where
  "ring_bounded cfg ring \<longleftrightarrow> int (length ring) \<le> agent_run_event_buffer_max cfg \<and>
     (bytes_of ring \<le> agent_run_event_buffer_max_bytes cfg \<or> length ring = 1)"

definition ring_repr :: "bus_settings \<Rightarrow> string \<Rightarrow> nat \<Rightarrow> event_log \<Rightarrow> int \<Rightarrow> redis \<Rightarrow> bool" where
  "ring_repr cfg r k lg T s \<longleftrightarrow>
     k \<le> length lg \<and>
     (if lg = []
      then live s (bus_key r ''events'') = None \<and> live s (bus_key r ''seq'') = None \<and> live s (bus_key r ''bytes'') = None
      else k < length lg \<and> clock s < T \<and>
        holds_ring (bus_key r ''events'') (bus_key r ''bytes'') (Some T) (Some T) (drop k (log_elements (lua_tostring s) lg)) s \<and>
        live s (bus_key r ''seq'') = Some \<lparr>rval = RStr (dec (int (length lg))), rexpire = Some T\<rparr> \<and>
        ring_bounded cfg (drop k (log_elements (lua_tostring s) lg)))"

lemma ring_repr_counters:
  assumes "ring_repr cfg r k lg T s"
  shows "counter_at s (bus_key r ''seq'') (int (length lg))"
    "list_at s (bus_key r ''events'') = Inr (drop k (log_elements (lua_tostring s) lg))"
    "counter_at s (bus_key r ''bytes'') (bytes_of (drop k (log_elements (lua_tostring s) lg)))"
  using assms by (auto simp: ring_repr_def counter_at_def list_at_def holds_ring_def split: if_splits)

lemma ring_repr_frame:
  assumes "ring_repr cfg r k lg T s" "frame K s t"
    and "bus_key r ''events'' \<notin> K" "bus_key r ''seq'' \<notin> K" "bus_key r ''bytes'' \<notin> K"
  shows "ring_repr cfg r k lg T t"
  using assms by (auto simp: ring_repr_def holds_ring_def frame_def split: if_splits)

text \<open>Deployment settings and sizes for which no counter overflows.\<close>

definition bus_ok :: "bus_settings \<Rightarrow> bool" where
  "bus_ok cfg \<longleftrightarrow> 1 \<le> agent_run_event_buffer_max cfg \<and> agent_run_event_buffer_max_bytes cfg < 2 ^ 40 \<and>
     0 < agent_run_event_buffer_ttl_seconds cfg"

definition log_ok :: "(int \<Rightarrow> ustr) \<Rightarrow> event_log \<Rightarrow> bool" where
  "log_ok f lg \<longleftrightarrow> length lg < 10 ^ 14 \<and> list_all (\<lambda>x. length x < 2 ^ 40) (log_elements f lg)"

lemma log_ok_snocD: "log_ok f (lg @ [x]) \<Longrightarrow> log_ok f lg"
  by (cases x) (simp add: log_ok_def log_elements_snoc)

lemma ring_bytes_small:
  assumes "bus_ok cfg" "log_ok f lg" "lg = [] \<or> ring_bounded cfg (drop k (log_elements f lg))"
  shows "bytes_of (drop k (log_elements f lg)) < 2 ^ 41"
proof -
  let ?ring = "drop k (log_elements f lg)"
  have one: "bytes_of ?ring < 2 ^ 41" if "length ?ring = 1"
  proof -
    from that obtain x where x: "?ring = [x]" by (auto simp: length_Suc_conv simp del: length_drop)
    then have "x \<in> set (log_elements f lg)" by (metis list.set_intros(1) in_set_dropD)
    then have "length x < 2 ^ 40" using assms(2) by (auto simp: log_ok_def list_all_iff)
    then show ?thesis by (simp add: x)
  qed
  show ?thesis
    using assms(1,3) one by (auto simp: bus_ok_def ring_bounded_def)
qed

subsection \<open>One publish\<close>

lemma live_frame: "frame K s t \<Longrightarrow> k \<notin> K \<Longrightarrow> live t k = live s k"
  by (simp add: frame_def)

text \<open>The counter, the new element and the byte total, before anything is dropped.\<close>

lemma publish_head:
  fixes r :: string
  defines "ek \<equiv> bus_key r ''events''" and "sk \<equiv> bus_key r ''seq''" and "bk \<equiv> bus_key r ''bytes''"
  assumes rep: "ring_repr cfg r k lg T s" and cfg: "bus_ok cfg" and lg: "log_ok (lua_tostring s) (lg @ [(e, raw)])"
  shows "\<exists>s1 s2 s3 te tb ts. r_incr sk s = (Inr (int (length lg) + 1), s1) \<and>
     lua_tostring s1 = lua_tostring s \<and>
     r_rpush ek (last (log_elements (lua_tostring s) (lg @ [(e, raw)]))) s1 =
       (Inr (int (length (drop k (log_elements (lua_tostring s) lg))) + 1), s2) \<and>
     r_incrby bk (int (length (last (log_elements (lua_tostring s) (lg @ [(e, raw)]))))) s2 =
       (Inr (bytes_of (drop k (log_elements (lua_tostring s) lg) @ [last (log_elements (lua_tostring s) (lg @ [(e, raw)]))])), s3) \<and>
     holds_ring ek bk te tb (drop k (log_elements (lua_tostring s) lg) @ [last (log_elements (lua_tostring s) (lg @ [(e, raw)]))]) s3 \<and>
     live s3 sk = Some \<lparr>rval = RStr (dec (int (length lg) + 1)), rexpire = ts\<rparr> \<and> frame {ek, sk, bk} s s3"
proof -
  let ?ring = "drop k (log_elements (lua_tostring s) lg)"
  let ?el = "last (log_elements (lua_tostring s) (lg @ [(e, raw)]))"
  note c = ring_repr_counters [OF rep]
  have small: "bytes_of ?ring < 2 ^ 41"
    using rep by (intro ring_bytes_small [OF cfg log_ok_snocD [OF lg]]) (auto simp: ring_repr_def split: if_splits)
  have el: "length ?el < 2 ^ 40" using lg by (simp add: log_ok_def log_elements_snoc)
  have n: "int (length lg) + 1 < 2 ^ 63" using lg by (simp add: log_ok_def)
  define s1 where "s1 = rkeep sk (RStr (dec (int (length lg) + 1))) s"
  define s2 where "s2 = rkeep ek (RList (?ring @ [?el])) s1"
  define s3 where "s3 = rkeep bk (RStr (dec (bytes_of (?ring @ [?el])))) s2"
  have 1: "r_incr sk s = (Inr (int (length lg) + 1), s1)"
    unfolding s1_def sk_def using c(1) n by (intro r_incrby_counter) auto
  have "list_at s1 ek = Inr ?ring" using c(2) by (simp add: list_at_def s1_def ek_def sk_def)
  then have 2: "r_rpush ek ?el s1 = (Inr (int (length ?ring) + 1), s2)" by (simp add: r_rpush_list s2_def)
  have bt: "counter_at s2 bk (bytes_of ?ring)"
    using c(3) by (simp add: counter_at_def s2_def s1_def ek_def sk_def bk_def)
  have "bytes_of ?ring + int (length ?el) < 2 ^ 63" using small el by simp
  then have 3: "r_incrby bk (int (length ?el)) s2 = (Inr (bytes_of (?ring @ [?el])), s3)"
    unfolding s3_def using r_incrby_counter [OF bt, of "int (length ?el)"] by simp
  have f: "frame {ek, sk, bk} s s3"
    unfolding s1_def s2_def s3_def by (intro frame_trans [OF frame_trans [OF frame_rkeep frame_rkeep] frame_rkeep]) auto
  have h: "\<exists>te tb. holds_ring ek bk te tb (?ring @ [?el]) s3"
    by (simp add: holds_ring_def s3_def s2_def ek_def bk_def)
  have "\<exists>ts. live s3 sk = Some \<lparr>rval = RStr (dec (int (length lg) + 1)), rexpire = ts\<rparr>"
    by (simp add: s3_def s2_def s1_def ek_def sk_def bk_def)
  then show ?thesis using 1 2 3 f h by (auto simp: s1_def)
qed

text \<open>The two loops leave a bounded suffix.\<close>

lemma publish_trim:
  assumes h: "holds_ring ek bk te tb ring s" and ne: "ring \<noteq> []" "ek \<noteq> bk" and small: "bytes_of ring < 2 ^ 63"
    and cfg: "bus_ok cfg"
  shows "\<exists>t1 t2 tot j. j < length ring \<and>
     trim_while ek bk (\<lambda>_ n. n > agent_run_event_buffer_max cfg) (bytes_of ring) s = (Inr tot, t1) \<and>
     trim_while ek bk (\<lambda>tot n. tot > agent_run_event_buffer_max_bytes cfg \<and> n > 1) tot t1 = (Inr (bytes_of (drop j ring)), t2) \<and>
     holds_ring ek bk te tb (drop j ring) t2 \<and> ring_bounded cfg (drop j ring)"
proof -
  let ?c1 = "\<lambda>(_ :: int) n. n > agent_run_event_buffer_max cfg"
  let ?c2 = "\<lambda>tot n. tot > agent_run_event_buffer_max_bytes cfg \<and> n > (1 :: int)"
  have c1: "\<And>t n. ?c1 t n \<Longrightarrow> 1 < n" using cfg by (auto simp: bus_ok_def)
  define ring1 where "ring1 = trim_list ?c1 ring"
  define ring2 where "ring2 = trim_list ?c2 ring1"
  have ne1: "ring1 \<noteq> []" unfolding ring1_def by (rule trim_list_nonempty [OF c1 ne(1)])
  have ne2: "ring2 \<noteq> []" unfolding ring2_def by (rule trim_list_nonempty [OF _ ne1]) simp
  obtain i where i: "ring1 = drop i ring" using trim_list_drop ring1_def by blast
  obtain j where j: "ring2 = drop j ring1" using trim_list_drop ring2_def by blast
  obtain t1 where t1: "trim_while ek bk ?c1 (bytes_of ring) s = (Inr (bytes_of ring1), t1)" "holds_ring ek bk te tb ring1 t1"
    using trim_while_ring [OF h ne small, of ?c1] c1 by (auto simp: ring1_def)
  have "bytes_of (take i ring) + bytes_of ring1 = bytes_of ring" by (simp add: i flip: bytes_of_simps(3))
  then have "bytes_of ring1 < 2 ^ 63" using small bytes_of_nonneg [of "take i ring"] by linarith
  then obtain t2 where t2: "trim_while ek bk ?c2 (bytes_of ring1) t1 = (Inr (bytes_of ring2), t2)" "holds_ring ek bk te tb ring2 t2"
    using trim_while_ring [OF t1(2) ne1 ne(2), of ?c2] by (auto simp: ring2_def)
  have "\<not> ?c1 (bytes_of ring1) (int (length ring1))" using trim_list_stops ring1_def ne1 by metis
  moreover have "\<not> ?c2 (bytes_of ring2) (int (length ring2))" using trim_list_stops ring2_def ne2 by metis
  moreover have "length ring2 \<le> length ring1" by (simp add: j)
  moreover have "1 \<le> length ring2" using ne2 by (simp add: Suc_le_eq)
  ultimately have b: "ring_bounded cfg ring2" unfolding ring_bounded_def by linarith
  have d: "ring2 = drop (i + j) ring" by (simp add: i j add.commute)
  with ne2 have "i + j < length ring" by simp
  with t1 t2 b show ?thesis unfolding d by blast
qed

lemma publish_tail:
  assumes h: "holds_ring ek bk te tb ring s" and sq: "live s sk = Some \<lparr>rval = RStr w, rexpire = ts\<rparr>"
    and d: "distinct [ek, sk, bk, pk]" and ttl: "0 < ttl"
  shows "\<exists>t. op_bind (r_expire ek ttl) (\<lambda>_. op_bind (r_expire sk ttl) (\<lambda>_. op_bind (r_expire bk ttl) (\<lambda>_.
        op_bind (r_exists pk) (\<lambda>n. op_bind (if n = 1 then r_expire pk ttl else op_return 0) (\<lambda>_.
        op_bind (r_publish ck x) (\<lambda>_. op_return y)))))) s = (Inr y, t) \<and>
     holds_ring ek bk (Some (clock s + ttl * 1000)) (Some (clock s + ttl * 1000)) ring t \<and>
     live t sk = Some \<lparr>rval = RStr w, rexpire = Some (clock s + ttl * 1000)\<rparr> \<and> frame {ek, sk, bk, pk} s t"
  (is "\<exists>t. ?m s = (Inr y, t) \<and> ?P t")
proof -
  have "touches {ek, sk, bk, pk} ?m" by (intro frame_rules) simp_all
  from touchesD [OF this] have f: "frame {ek, sk, bk, pk} s (snd (?m s))" .
  have "fst (?m s) = Inr y \<and> ?P (snd (?m s))"
    using h sq d ttl f
    by (auto simp: holds_ring_def op_bind_def r_expire_live r_exists_def r_publish_def r_expire_def r_pexpire_def split: option.splits)
  then show ?thesis by (metis prod.collapse)
qed

lemma publish_ring:
  assumes rep: "ring_repr cfg r k lg T s" and cfg: "bus_ok cfg" and lg: "log_ok (lua_tostring s) (lg @ [(e, raw)])"
    and l: "l \<noteq> Refused"
  shows "\<exists>k'. ring_repr cfg r k' (lg @ [(e, raw)]) (clock s + agent_run_event_buffer_ttl_seconds cfg * 1000) (snd (publish cfg l r e raw s)) \<and>
     (l = Up \<longrightarrow> fst (publish cfg l r e raw s) = Some (int (length lg) + 1))"
proof -
  let ?ek = "bus_key r ''events''" and ?sk = "bus_key r ''seq''" and ?bk = "bus_key r ''bytes''" and ?pk = "bus_key r ''epoch''"
  let ?f = "lua_tostring s" and ?ttl = "agent_run_event_buffer_ttl_seconds cfg"
  let ?E = "log_elements ?f (lg @ [(e, raw)])"
  let ?el = "last ?E"
  have k: "k \<le> length lg" using rep by (simp add: ring_repr_def)
  have el: "?el = ring_element ?f e (int (length lg) + 1) (encode_data raw)" by (simp add: log_elements_snoc)
  have E: "drop k (log_elements ?f lg) @ [?el] = drop k ?E" using k by (simp add: log_elements_snoc)
  obtain s1 s2 s3 te tb ts where head: "r_incr ?sk s = (Inr (int (length lg) + 1), s1)" "lua_tostring s1 = ?f"
     "r_rpush ?ek ?el s1 = (Inr (int (length (drop k (log_elements ?f lg))) + 1), s2)"
     "r_incrby ?bk (int (length ?el)) s2 = (Inr (bytes_of (drop k ?E)), s3)"
     "holds_ring ?ek ?bk te tb (drop k ?E) s3"
     "live s3 ?sk = Some \<lparr>rval = RStr (dec (int (length lg) + 1)), rexpire = ts\<rparr>" and f3: "frame {?ek, ?sk, ?bk} s s3"
    using publish_head [OF rep cfg lg] unfolding E by auto
  have ne: "drop k ?E \<noteq> []" using k by simp
  have small: "bytes_of (drop k ?E) < 2 ^ 63"
  proof -
    have "bytes_of (drop k (log_elements ?f lg)) < 2 ^ 41"
      using rep by (intro ring_bytes_small [OF cfg log_ok_snocD [OF lg]]) (auto simp: ring_repr_def split: if_splits)
    moreover have "length ?el < 2 ^ 40" using lg by (simp add: log_ok_def log_elements_snoc)
    ultimately show ?thesis by (simp flip: E)
  qed
  obtain t1 t2 tot j where j: "j < length (drop k ?E)" and
     tr1: "trim_while ?ek ?bk (\<lambda>_ n. n > agent_run_event_buffer_max cfg) (bytes_of (drop k ?E)) s3 = (Inr tot, t1)" and
     tr2: "trim_while ?ek ?bk (\<lambda>tot n. tot > agent_run_event_buffer_max_bytes cfg \<and> n > 1) tot t1 = (Inr (bytes_of (drop j (drop k ?E))), t2)" and
     h2: "holds_ring ?ek ?bk te tb (drop j (drop k ?E)) t2" and b: "ring_bounded cfg (drop j (drop k ?E))"
    using publish_trim [OF head(5) ne _ small cfg] by auto
  have fr: "frame {?ek, ?bk} u v" if "trim_while ?ek ?bk c n u = (x, v)" for c n u x v
    using trim_while_frame [of ?ek "{?ek, ?bk}" ?bk u c n] that by simp
  have f2: "frame {?ek, ?bk} s3 t2" by (rule frame_trans [OF fr [OF tr1] fr [OF tr2]])
  have sq: "live t2 ?sk = Some \<lparr>rval = RStr (dec (int (length lg) + 1)), rexpire = ts\<rparr>"
    using live_frame [OF f2, of ?sk] head(6) by simp
  have now: "clock t2 = clock s" "lua_tostring t2 = ?f" using f2 f3 by (simp_all add: frame_def)
  have d: "distinct [?ek, ?sk, ?bk, ?pk]" and ttl: "0 < ?ttl" using cfg by (simp_all add: bus_ok_def)
  obtain t where tl: "op_bind (r_expire ?ek ?ttl) (\<lambda>_. op_bind (r_expire ?sk ?ttl) (\<lambda>_. op_bind (r_expire ?bk ?ttl) (\<lambda>_.
        op_bind (r_exists ?pk) (\<lambda>n. op_bind (if n = 1 then r_expire ?pk ?ttl else op_return 0) (\<lambda>_.
        op_bind (r_publish (channel r) ?el) (\<lambda>_. op_return (int (length lg) + 1))))))) t2 = (Inr (int (length lg) + 1), t)"
     and ht: "holds_ring ?ek ?bk (Some (clock s + ?ttl * 1000)) (Some (clock s + ?ttl * 1000)) (drop j (drop k ?E)) t"
       "live t ?sk = Some \<lparr>rval = RStr (dec (int (length lg) + 1)), rexpire = Some (clock s + ?ttl * 1000)\<rparr>"
     and ft: "frame {?ek, ?sk, ?bk, ?pk} t2 t"
    using publish_tail [OF h2 sq d ttl, of "channel r" ?el "int (length lg) + 1", unfolded now] by blast
  have script: "publish_script ?ek ?sk ?pk ?bk (channel r) e (encode_data raw) (agent_run_event_buffer_max cfg)
     (agent_run_event_buffer_max_bytes cfg) ?ttl s = (Inr (int (length lg) + 1), t)"
    unfolding publish_script_def op_bind_InrI [of "r_incr ?sk", OF head(1)] op_bind_read head(2) el [symmetric]
      op_bind_InrI [of "r_rpush ?ek ?el", OF head(3)] op_bind_InrI [of "r_incrby ?bk (int (length ?el))", OF head(4)]
      op_bind_InrI [of "trim_while ?ek ?bk _ _", OF tr1] op_bind_InrI [of "trim_while ?ek ?bk _ _", OF tr2] by (rule tl)
  have "clock t = clock s" "lua_tostring t = ?f" using ft now by (simp_all add: frame_def)
  then have "ring_repr cfg r (k + j) (lg @ [(e, raw)]) (clock s + ?ttl * 1000) t"
    using ht b j k cfg by (auto simp: ring_repr_def bus_ok_def add.commute)
  moreover have "snd (publish cfg l r e raw s) = t" "l = Up \<longrightarrow> fst (publish cfg l r e raw s) = Some (int (length lg) + 1)"
    using l by (auto simp: publish_def via_link_def script split: link.split)
  ultimately show ?thesis by auto
qed

subsection \<open>Histories of the bus\<close>

datatype bus_cmd =
    PublishCmd link string ustr bytes
  | EnsureEpochCmd link link ustr string
  | AcquireCmd link string ustr
  | RenewCmd link string ustr
  | ReleaseCmd link string ustr
  | Wait nat

fun exec_bus :: "bus_settings \<Rightarrow> bus_cmd \<Rightarrow> redis \<Rightarrow> redis" where
  "exec_bus cfg (PublishCmd l r e raw) s = snd (publish cfg l r e raw s)"
| "exec_bus cfg (EnsureEpochCmd l1 l2 fresh r) s = snd (ensure_epoch cfg l1 l2 fresh r s)"
| "exec_bus cfg (AcquireCmd l r w) s = snd (acquire_lease cfg l r w s)"
| "exec_bus cfg (RenewCmd l r w) s = snd (renew_lease cfg l r w s)"
| "exec_bus cfg (ReleaseCmd l r w) s = release_lease l r w s"
| "exec_bus cfg (Wait ms) s = tick ms s"

text \<open>
  The same history seen by the abstract log of one run: a publish whose command was executed appends,
  and the log is forgotten when its time to live passes without one.
\<close>

fun exec_log :: "bus_settings \<Rightarrow> string \<Rightarrow> bus_cmd \<Rightarrow> log_state \<Rightarrow> log_state" where
  "exec_log cfg r (PublishCmd l r' e raw) a =
     (if r' = r \<and> l \<noteq> Refused
      then a\<lparr>log_events := log_events a @ [(e, raw)],
             log_deadline := log_now a + agent_run_event_buffer_ttl_seconds cfg * 1000\<rparr>
      else a)"
| "exec_log cfg r (Wait ms) a =
     a\<lparr>log_now := log_now a + int ms,
       log_events := (if log_now a + int ms < log_deadline a then log_events a else [])\<rparr>"
| "exec_log cfg r _ a = a"

lemma publish_frame:
  "frame {bus_key r ''events'', bus_key r ''seq'', bus_key r ''bytes'', bus_key r ''epoch''} s (snd (publish cfg l r e raw s))"
proof -
  let ?m = "via_link l (publish_script (bus_key r ''events'') (bus_key r ''seq'') (bus_key r ''epoch'') (bus_key r ''bytes'')
    (channel r) e (encode_data raw) (agent_run_event_buffer_max cfg) (agent_run_event_buffer_max_bytes cfg)
    (agent_run_event_buffer_ttl_seconds cfg))"
  have "touches {bus_key r ''events'', bus_key r ''seq'', bus_key r ''bytes'', bus_key r ''epoch''} ?m"
    unfolding publish_script_def by (intro frame_rules) simp_all
  moreover have "snd (publish cfg l r e raw s) = snd (?m s)" by (auto simp: publish_def split: prod.split sum.split)
  ultimately show ?thesis by (simp add: touches_def)
qed

lemma ensure_epoch_frame: "frame {bus_key r ''epoch''} s (snd (ensure_epoch cfg l1 l2 fresh r s))"
proof -
  let ?m = "op_bind (via_link l1 (r_set_nx (bus_key r ''epoch'') fresh (agent_run_event_buffer_ttl_seconds cfg * 1000)))
    (\<lambda>_. via_link l2 (r_get (bus_key r ''epoch'')))"
  have "touches {bus_key r ''epoch''} ?m" by (intro frame_rules) simp_all
  moreover have "snd (ensure_epoch cfg l1 l2 fresh r s) = snd (?m s)" by (auto simp: ensure_epoch_def Let_def split: prod.split sum.split)
  ultimately show ?thesis by (simp add: touches_def)
qed

lemma lease_frames:
  "frame {bus_key r ''lease''} s (snd (acquire_lease cfg l r w s))"
  "frame {bus_key r ''lease''} s (snd (renew_lease cfg l r w s))"
  "frame {bus_key r ''lease''} s (release_lease l r w s)"
proof -
  let ?k = "bus_key r ''lease''" and ?px = "agent_run_consumer_lease_ttl_seconds cfg * 1000"
  have t: "touches {?k} (via_link l (r_set_nx ?k w ?px))" "touches {?k} (via_link l (renew_lease_script ?k w ?px))"
    "touches {?k} (via_link l (release_lease_script ?k w))"
    unfolding renew_lease_script_def release_lease_script_def by (intro frame_rules; simp)+
  have "snd (acquire_lease cfg l r w s) = snd (via_link l (r_set_nx ?k w ?px) s)"
    "snd (renew_lease cfg l r w s) = snd (via_link l (renew_lease_script ?k w ?px) s)"
    by (auto simp: acquire_lease_def renew_lease_def split: prod.split sum.split)
  with t show "frame {?k} s (snd (acquire_lease cfg l r w s))" "frame {?k} s (snd (renew_lease cfg l r w s))"
    "frame {?k} s (release_lease l r w s)"
    by (simp_all add: touches_def release_lease_def)
qed

lemma ring_repr_tick:
  assumes "ring_repr cfg r k lg T s"
  shows "\<exists>k'. ring_repr cfg r k' (if clock s + int ms < T then lg else []) T (tick ms s)"
proof (cases "lg = [] \<or> T \<le> clock s + int ms")
  case True
  with assms have "ring_repr cfg r 0 [] T (tick ms s)"
    by (auto simp: ring_repr_def live_tick holds_ring_def split: if_splits)
  with True show ?thesis by auto
next
  case False
  with assms have "ring_repr cfg r k lg T (tick ms s)"
    by (auto simp: ring_repr_def live_tick holds_ring_def)
  with False show ?thesis by auto
qed

end
