(* ===== verification/AgentRingClaims.thy ===== *)
theory AgentRingClaims
  imports AgentRing AgentElement
begin

text \<open>
  The promises of the event bus over any history of calls by any number of workers, over links that
  fail before or after the command, with time passing: the ring refines the abstract log, a reader gets
  the published bytes, and leases exclude.
\<close>

subsection \<open>Sizes\<close>

lemma dec_pad_0_length: "n < 10 ^ k \<Longrightarrow> length (dec_pad 0 n) \<le> k"
proof (induction k arbitrary: n)
  case (Suc k)
  then have "n div 10 < 10 ^ k" by (auto simp: less_mult_imp_div_less)
  with Suc.IH show ?case by (subst dec_pad.simps) auto
qed (simp add: dec_pad.simps)

lemma dec_length: "0 \<le> n \<Longrightarrow> n < 10 ^ 14 \<Longrightarrow> length (dec n) \<le> 15"
proof -
  assume n: "0 \<le> n" "n < 10 ^ 14"
  have "length (dec_pad 0 (nat n div 10)) \<le> 14" using n by (intro dec_pad_0_length) (simp add: nat_less_iff)
  then show ?thesis using dec_nonneg [OF n(1)] by (simp add: codes_def)
qed

text \<open>How the server's Lua prints the integer replies of a script: \<open>%.14g\<close>.\<close>

definition prints_integers :: "(int \<Rightarrow> ustr) \<Rightarrow> bool" where
  "prints_integers f \<longleftrightarrow> (\<forall>n. 0 \<le> n \<and> n < 10 ^ 14 \<longrightarrow> f n = dec n)"

definition small_event :: "ustr \<times> bytes \<Rightarrow> bool" where
  "small_event x \<longleftrightarrow> length (fst x) + length (encode_data (snd x)) < 2 ^ 39"

fun small_cmd :: "bus_cmd \<Rightarrow> bool" where
  "small_cmd (PublishCmd l r e raw) = small_event (e, raw)"
| "small_cmd _ = True"

lemma log_okI:
  assumes "prints_integers f" "list_all small_event lg" "length lg < 10 ^ 14 - 1"
  shows "log_ok f lg"
  using assms(2,3)
proof (induction lg rule: rev_induct)
  case (snoc x lg)
  obtain e raw where x: "x = (e, raw)" by (cases x)
  have "f (int (length lg) + 1) = dec (int (length lg) + 1)" using assms(1) snoc.prems by (simp add: prints_integers_def)
  moreover have "length (dec (int (length lg) + 1)) \<le> 15" using snoc.prems by (intro dec_length) auto
  ultimately have "length (ring_element f e (int (length lg) + 1) (encode_data raw)) < 2 ^ 40"
    using snoc.prems by (simp add: ring_element_def codes_def small_event_def x)
  with snoc show ?case by (simp add: log_ok_def log_elements_snoc x)
qed (simp add: log_ok_def)

subsection \<open>The simulation\<close>

definition ring_sim :: "bus_settings \<Rightarrow> string \<Rightarrow> nat \<Rightarrow> redis \<Rightarrow> log_state \<Rightarrow> bool" where
  "ring_sim cfg r n s a \<longleftrightarrow>
     (\<exists>k. ring_repr cfg r k (log_events a) (log_deadline a) s) \<and> clock s = log_now a \<and>
     prints_integers (lua_tostring s) \<and> length (log_events a) \<le> n \<and> list_all small_event (log_events a)"

lemma ring_sim_frame:
  assumes "ring_sim cfg r n s a" "frame K s t" "bus_key r ''events'' \<notin> K" "bus_key r ''seq'' \<notin> K" "bus_key r ''bytes'' \<notin> K"
  shows "ring_sim cfg r (Suc n) t a"
  using assms by (auto simp: ring_sim_def frame_def intro: ring_repr_frame [OF _ assms(2-5)])

lemma ring_sim_step:
  assumes sim: "ring_sim cfg r n s a" and c: "small_cmd c" and n: "n < 10 ^ 14 - 2" and cfg: "bus_ok cfg"
  shows "ring_sim cfg r (Suc n) (exec_bus cfg c s) (exec_log cfg r c a)"
proof (cases c)
  case (PublishCmd l r' e raw)
  show ?thesis
  proof (cases "r' = r \<and> l \<noteq> Refused")
    case True
    from sim obtain k where k: "ring_repr cfg r k (log_events a) (log_deadline a) s" by (auto simp: ring_sim_def)
    have ok: "log_ok (lua_tostring s) (log_events a @ [(e, raw)])"
      using sim c n by (intro log_okI) (auto simp: ring_sim_def PublishCmd)
    obtain k' where "ring_repr cfg r k' (log_events a @ [(e, raw)])
        (clock s + agent_run_event_buffer_ttl_seconds cfg * 1000) (snd (publish cfg l r e raw s))"
      using publish_ring [OF k cfg ok] True by blast
    then show ?thesis
      using sim c True publish_frame [of r s cfg l e raw] by (auto simp: ring_sim_def PublishCmd frame_def)
  next
    case False
    have "frame (if l = Refused then {} else {bus_key r' ''events'', bus_key r' ''seq'', bus_key r' ''bytes'', bus_key r' ''epoch''})
        s (snd (publish cfg l r' e raw s))"
      using publish_frame [of r' s cfg l e raw] by (auto simp: publish_def via_link_def)
    from ring_sim_frame [OF sim this] False show ?thesis by (auto simp: PublishCmd split: if_splits)
  qed
next
  case (Wait ms)
  from sim obtain k where k: "ring_repr cfg r k (log_events a) (log_deadline a) s" by (auto simp: ring_sim_def)
  then show ?thesis
    using ring_repr_tick [OF k, of ms] sim by (auto simp: ring_sim_def Wait)
qed (use ring_sim_frame [OF sim ensure_epoch_frame] ring_sim_frame [OF sim lease_frames(1)]
       ring_sim_frame [OF sim lease_frames(2)] ring_sim_frame [OF sim lease_frames(3)] in auto)

text \<open>The interface between the bus and its readers, instantiated for the deployment's settings when they are sane.\<close>

interpretation ring: simulation "exec_bus cfg" "exec_log cfg r" "\<lambda>n s a. ring_sim cfg r n s a \<and> bus_ok cfg" small_cmd "10 ^ 14 - 2"
  for cfg r
  by unfold_locales (auto intro: ring_sim_step)

definition fresh_log :: "redis \<Rightarrow> log_state" where
  "fresh_log s = \<lparr>log_events = [], log_deadline = clock s, log_now = clock s\<rparr>"

lemma ring_sim_fresh:
  assumes "bus_ok cfg" "prints_integers (lua_tostring s)" "store s = Map.empty" "list_all small_cmd cs" "length cs \<le> 10 ^ 14 - 2"
  shows "ring_sim cfg r (length cs) (fold (exec_bus cfg) cs s) (fold (exec_log cfg r) cs (fresh_log s))"
proof -
  have "ring_sim cfg r 0 s (fresh_log s) \<and> bus_ok cfg"
    using assms by (auto simp: ring_sim_def fresh_log_def ring_repr_def live_def)
  from ring.sim_run [OF this assms(4)] assms(5) show ?thesis by simp
qed

subsection \<open>The ring refines the log\<close>

definition history :: "bus_settings \<Rightarrow> bus_cmd list \<Rightarrow> redis \<Rightarrow> redis" where
  "history cfg cs s = fold (exec_bus cfg) cs s"

definition published :: "bus_settings \<Rightarrow> string \<Rightarrow> bus_cmd list \<Rightarrow> redis \<Rightarrow> event_log" where
  "published cfg r cs s = log_events (fold (exec_log cfg r) cs (fresh_log s))"

lemma history_ring:
  assumes "bus_ok cfg" "prints_integers (lua_tostring s)" "store s = Map.empty" "list_all small_cmd cs" "length cs \<le> 10 ^ 14 - 2"
  shows "\<exists>k T. ring_repr cfg r k (published cfg r cs s) T (history cfg cs s)"
    "prints_integers (lua_tostring (history cfg cs s))" "length (published cfg r cs s) \<le> length cs"
  using ring_sim_fresh [OF assms, of r] by (auto simp: ring_sim_def history_def published_def)

text \<open>
  Claim C16. The ring refines an unbounded log. Take any history of bus calls by any workers on any runs, over
  links that refuse commands or lose replies, with any waits between them. For every run, the list in
  Redis is a suffix of the log of the events whose publish was executed since the log was last
  forgotten, in order and numbered from one without gaps; the counter is the length of that log; the
  byte counter is the size of the list; the list is within the event ceiling, and within the byte
  ceiling unless it holds only the newest event, which is never dropped.
\<close>

theorem ring_refines_event_log:
  fixes cfg :: bus_settings and r :: string and cs :: "bus_cmd list" and s :: redis
  assumes "bus_ok cfg" "prints_integers (lua_tostring s)" "store s = Map.empty" "list_all small_cmd cs" "length cs \<le> 10 ^ 14 - 2"
  defines "lg \<equiv> published cfg r cs s" and "s' \<equiv> history cfg cs s"
  shows "\<exists>k \<le> length lg. \<exists>ring. ring = drop k (log_elements (lua_tostring s') lg) \<and>
     fst (r_lrange_all (bus_key r ''events'') s') = Inr ring \<and>
     current_seq Up r s' = Inr (int (length lg)) \<and>
     (lg \<noteq> [] \<longrightarrow> fst (r_get (bus_key r ''bytes'') s') = Inr (Some (dec (bytes_of ring))) \<and> ring \<noteq> [] \<and>
        int (length ring) \<le> agent_run_event_buffer_max cfg \<and>
        (bytes_of ring \<le> agent_run_event_buffer_max_bytes cfg \<or> length ring = 1))"
proof -
  obtain k T where k: "ring_repr cfg r k lg T s'" using history_ring(1) [OF assms(1-5)] unfolding lg_def s'_def by blast
  have "current_seq Up r s' = Inr (int (length lg))"
    using k by (auto simp: current_seq_def via_link_def r_get_def ring_repr_def split: if_splits)
  moreover have "fst (r_lrange_all (bus_key r ''events'') s') = Inr (drop k (log_elements (lua_tostring s') lg))"
    using ring_repr_counters(2) [OF k] by (simp add: r_lrange_all_def)
  ultimately show ?thesis
    using k by (intro exI [of _ k] conjI exI [of _ "drop k (log_elements (lua_tostring s') lg)"])
      (auto simp: ring_repr_def holds_ring_def ring_bounded_def r_get_def split: if_splits)
qed

subsection \<open>Readers get the published bytes\<close>

fun sound_cmd :: "bus_cmd \<Rightarrow> bool" where
  "sound_cmd (PublishCmd l r e raw) \<longleftrightarrow> list_all safe_char e \<and> list_all (\<lambda>b. b < 256) raw"
| "sound_cmd _ = True"

definition numbered :: "event_log \<Rightarrow> ring_event list" where
  "numbered lg = map (\<lambda>(i, e, raw). \<lparr>ev_epoch = e, ev_seq = int i + 1, ev_data = raw\<rparr>) (enumerate 0 lg)"

lemma published_sound:
  "list_all sound_cmd cs \<Longrightarrow> list_all (\<lambda>(e, raw). list_all safe_char e \<and> list_all (\<lambda>b. b < 256) raw) (log_events a) \<Longrightarrow>
   list_all (\<lambda>(e, raw). list_all safe_char e \<and> list_all (\<lambda>b. b < 256) raw) (log_events (fold (exec_log cfg r) cs a))"
proof (induction cs arbitrary: a)
  case (Cons c cs)
  have "list_all (\<lambda>(e, raw). list_all safe_char e \<and> list_all (\<lambda>b. b < 256) raw) (log_events (exec_log cfg r c a))"
    using Cons.prems by (cases c) auto
  with Cons show ?case by simp
qed simp

lemma parse_elements_map:
  "(\<And>x. x \<in> set xs \<Longrightarrow> parse_element (f x) = Inr (Some (g x))) \<Longrightarrow> parse_elements (map f xs) = Inr (map g xs)"
  by (induction xs) auto

lemma parse_log_elements:
  assumes "prints_integers f" "length lg < 10 ^ 14"
    "list_all (\<lambda>(e, raw). list_all safe_char e \<and> list_all (\<lambda>b. b < 256) raw) lg"
  shows "parse_elements (drop k (log_elements f lg)) = Inr (drop k (numbered lg))"
  unfolding log_elements_def numbered_def drop_map
proof (rule parse_elements_map)
  fix x assume "x \<in> set (drop k (enumerate 0 lg))"
  then have "x \<in> set (enumerate 0 lg)" by (rule in_set_dropD)
  moreover obtain i e raw where x: "x = (i, e, raw)" by (rule prod_cases3)
  ultimately have i: "i < length lg" "lg ! i = (e, raw)" by (simp_all add: in_set_enumerate_eq)
  then have "(e, raw) \<in> set lg" by (metis nth_mem)
  then have "list_all safe_char e" "list_all (\<lambda>b. b < 256) raw" using assms(3) by (auto simp: list_all_iff)
  moreover have "f (int i + 1) = dec (int i + 1)" using assms(1,2) i by (simp add: prints_integers_def)
  ultimately show "parse_element (case x of (i, e, raw) \<Rightarrow> ring_element f e (int i + 1) (encode_data raw)) =
      Inr (Some (case x of (i, e, raw) \<Rightarrow> \<lparr>ev_epoch = e, ev_seq = int i + 1, ev_data = raw\<rparr>))"
    by (simp add: x parse_ring_element list_all_iff)
qed

text \<open>
  Claim C17. Publishing and reading back is the identity on bytes. After any such history with generation
  ids of plain characters, a replay over a working link returns the newest events of the run's log with
  their generation, their number and exactly the bytes that were published, whether or not those bytes
  are valid UTF-8; it is not empty when the log is not, and it never raises.
\<close>

theorem replay_returns_the_published_bytes:
  assumes "bus_ok cfg" "prints_integers (lua_tostring s)" "store s = Map.empty" "list_all small_cmd cs" "length cs \<le> 10 ^ 14 - 2"
    and "list_all sound_cmd cs"
  shows "\<exists>k. replay Up r (history cfg cs s) = Inr (drop k (numbered (published cfg r cs s))) \<and>
     (published cfg r cs s = [] \<or> k < length (published cfg r cs s))"
proof -
  obtain k T where k: "ring_repr cfg r k (published cfg r cs s) T (history cfg cs s)" using history_ring(1) [OF assms(1-5)] by blast
  have "list_all (\<lambda>(e, raw). list_all safe_char e \<and> list_all (\<lambda>b. b < 256) raw) (published cfg r cs s)"
    unfolding published_def by (rule published_sound [OF assms(6)]) (simp add: fresh_log_def)
  moreover have "length (published cfg r cs s) < 10 ^ 14"
    using history_ring(3) [OF assms(1-5), of r] assms(5) by simp
  ultimately have "parse_elements (drop k (log_elements (lua_tostring (history cfg cs s)) (published cfg r cs s))) =
      Inr (drop k (numbered (published cfg r cs s)))"
    using history_ring(2) [OF assms(1-5)] by (intro parse_log_elements)
  then have "replay Up r (history cfg cs s) = Inr (drop k (numbered (published cfg r cs s)))"
    using ring_repr_counters(2) [OF k] by (simp add: replay_def via_link_def r_lrange_all_def)
  moreover have "published cfg r cs s = [] \<or> k < length (published cfg r cs s)"
    using k by (auto simp: ring_repr_def split: if_splits)
  ultimately show ?thesis by blast
qed

text \<open>A server, settings and a history of three publishes with a ring of two.\<close>

definition demo_bus :: bus_settings where
  "demo_bus = \<lparr>agent_run_event_buffer_max = 2, agent_run_event_buffer_max_bytes = 8000000,
     agent_run_event_buffer_ttl_seconds = 3600, agent_run_consumer_lease_ttl_seconds = 30\<rparr>"

definition demo_redis :: redis where
  "demo_redis = \<lparr>store = Map.empty, clock = 0, messages = [], lua_tostring = dec\<rparr>"

definition demo_history :: "bus_cmd list" where
  "demo_history = [PublishCmd Up ''r'' [97] [104, 105], Wait 1000, PublishCmd Up ''q'' [97] [255],
     PublishCmd ReplyLost ''r'' [97] [255, 10]]"

lemma demo_bus_facts:
  "bus_ok demo_bus" "prints_integers (lua_tostring demo_redis)" "store demo_redis = Map.empty"
  "list_all small_cmd demo_history" "length demo_history \<le> 10 ^ 14 - 2" "list_all sound_cmd demo_history"
proof -
  have "length (encode_data x) \<le> 14 " if "x \<in> {[104, 105], [255], [255, 10]}" for x
    using that by (auto simp: encode_data_def dumps_str_def utf8_decode.simps escape_char_def u_escape_def hex4_def)
  then show "list_all small_cmd demo_history" by (force simp: demo_history_def small_event_def)
qed (simp_all add: bus_ok_def demo_bus_def demo_redis_def prints_integers_def demo_history_def safe_char_def)

theorem ring_refines_event_log_witness:
  "published demo_bus ''r'' demo_history demo_redis = [([97], [104, 105]), ([97], [255, 10])] \<and>
   (\<exists>k \<le> 2. fst (r_lrange_all (bus_key ''r'' ''events'') (history demo_bus demo_history demo_redis)) =
      Inr (drop k (log_elements (lua_tostring (history demo_bus demo_history demo_redis)) [([97], [104, 105]), ([97], [255, 10])])))"
proof -
  have p: "published demo_bus ''r'' demo_history demo_redis = [([97], [104, 105]), ([97], [255, 10])]"
    by (simp add: published_def demo_history_def fresh_log_def demo_bus_def demo_redis_def)
  have two: "length [([97], [104, 105]), ([97], [255, 10]) :: ustr \<times> bytes] = 2" by simp
  show ?thesis
    using ring_refines_event_log [OF demo_bus_facts(1-5), of "''r''"] unfolding p two by (intro conjI refl) blast
qed

theorem replay_returns_the_published_bytes_witness:
  "\<exists>k. replay Up ''r'' (history demo_bus demo_history demo_redis) =
      Inr (drop k [\<lparr>ev_epoch = [97], ev_seq = 1, ev_data = [104, 105]\<rparr>, \<lparr>ev_epoch = [97], ev_seq = 2, ev_data = [255, 10]\<rparr>]) \<and> k < 2"
proof -
  have p: "published demo_bus ''r'' demo_history demo_redis = [([97], [104, 105]), ([97], [255, 10])]"
    by (simp add: published_def demo_history_def fresh_log_def demo_bus_def demo_redis_def)
  show ?thesis using replay_returns_the_published_bytes [OF demo_bus_facts, of "''r''"] unfolding p by (simp add: numbered_def numeral_2_eq_2)
qed

subsection \<open>Leases exclude\<close>

fun waits :: "bus_cmd list \<Rightarrow> nat" where
  "waits [] = 0"
| "waits (Wait ms # cs) = ms + waits cs"
| "waits (_ # cs) = waits cs"

text \<open>Commands that do not act on the lease of run \<open>r\<close> in the name of \<open>w\<close>.\<close>

fun by_others :: "string \<Rightarrow> ustr \<Rightarrow> bus_cmd \<Rightarrow> bool" where
  "by_others r w (AcquireCmd l r' v) \<longleftrightarrow> r' \<noteq> r \<or> v \<noteq> w"
| "by_others r w (RenewCmd l r' v) \<longleftrightarrow> r' \<noteq> r \<or> v \<noteq> w"
| "by_others r w (ReleaseCmd l r' v) \<longleftrightarrow> r' \<noteq> r \<or> v \<noteq> w"
| "by_others r w _ = True"

definition leased :: "redis \<Rightarrow> string \<Rightarrow> ustr \<Rightarrow> int \<Rightarrow> bool" where
  "leased s r w T \<longleftrightarrow> live s (bus_key r ''lease'') = Some \<lparr>rval = RStr w, rexpire = Some T\<rparr>"

lemma leased_frame: "leased s r w T \<Longrightarrow> frame K s t \<Longrightarrow> bus_key r ''lease'' \<notin> K \<Longrightarrow> leased t r w T"
  by (simp add: leased_def frame_def)

text \<open>What other workers get, and that their calls change nothing.\<close>

lemma others_refused:
  assumes "leased s r w T" "v \<noteq> w"
  shows "acquire_lease cfg l r v s \<in> {(HELD_ELSEWHERE, s), (ACQUIRE_UNKNOWN, s)}"
    "renew_lease cfg l r v s \<in> {(LOST, s), (RENEW_UNKNOWN, s)}" "release_lease l r v s = s"
  using assms
  by (auto simp: leased_def acquire_lease_def renew_lease_def release_lease_def via_link_def r_set_nx_def
      renew_lease_script_def release_lease_script_def renewal_by_code_def op_bind_def r_get_def split: link.split)

lemma leased_step:
  assumes "leased s r w T" "by_others r w c" "clock s + int (waits [c]) < T"
  shows "leased (exec_bus cfg c s) r w T \<and> clock (exec_bus cfg c s) = clock s + int (waits [c])"
proof -
  have own: "leased t r w T \<and> clock t = clock s" if "frame {bus_key r' ''lease''} s t" "r' \<noteq> r" for t r'
    using that leased_frame [OF assms(1) that(1)] by (simp add: frame_def)
  show ?thesis
  proof (cases c)
    case (PublishCmd l r' e raw)
    then show ?thesis using publish_frame [of r' s cfg l e raw] leased_frame [OF assms(1) publish_frame] by (simp add: frame_def)
  next
    case (EnsureEpochCmd l1 l2 f r')
    then show ?thesis
      using ensure_epoch_frame [of r' s cfg l1 l2 f] leased_frame [OF assms(1) ensure_epoch_frame] by (simp add: frame_def)
  next
    case (AcquireCmd l r' v)
    then show ?thesis
      using assms others_refused(1) [OF assms(1), of v cfg l] own [OF lease_frames(1), of r' cfg l v] by (cases "r' = r") auto
  next
    case (RenewCmd l r' v)
    then show ?thesis
      using assms others_refused(2) [OF assms(1), of v cfg l] own [OF lease_frames(2), of r' cfg l v] by (cases "r' = r") auto
  next
    case (ReleaseCmd l r' v)
    then show ?thesis
      using assms others_refused(3) [OF assms(1), of v l] own [OF lease_frames(3), of r' l v] by (cases "r' = r") auto
  next
    case (Wait ms)
    then show ?thesis using assms by (simp add: leased_def live_tick)
  qed
qed

lemma waits_Cons: "waits (c # cs) = waits [c] + waits cs"
  by (cases c) auto

lemma leased_history:
  "leased s r w T \<Longrightarrow> list_all (by_others r w) cs \<Longrightarrow> clock s + int (waits cs) < T \<Longrightarrow> leased (history cfg cs s) r w T"
proof (induction cs arbitrary: s)
  case (Cons c cs)
  have w: "waits (c # cs) = waits [c] + waits cs" by (rule waits_Cons)
  from Cons.prems have "leased (exec_bus cfg c s) r w T \<and> clock (exec_bus cfg c s) = clock s + int (waits [c])"
    by (intro leased_step) (auto simp: w)
  with Cons show ?case by (simp add: history_def w)
qed (simp add: history_def)

text \<open>
  Claim C18. A lease excludes every other worker until it expires. While the lease of a worker has time left,
  whatever the other workers and runs do and however their links fail, the lease is still that worker's:
  an attempt of another worker to take it is answered \<open>HELD_ELSEWHERE\<close>, an attempt to renew it
  \<open>LOST\<close>, or the server did not answer; none of these calls, nor a release by another worker,
  changes anything; a probe of the lease reports it alive; and the worker itself can renew it.
\<close>

theorem lease_is_exclusive:
  assumes "leased s r w T" "list_all (by_others r w) cs" "clock s + int (waits cs) < T" "v \<noteq> w"
  shows "acquire_lease cfg l r v (history cfg cs s) \<in> {(HELD_ELSEWHERE, history cfg cs s), (ACQUIRE_UNKNOWN, history cfg cs s)} \<and>
     renew_lease cfg l r v (history cfg cs s) \<in> {(LOST, history cfg cs s), (RENEW_UNKNOWN, history cfg cs s)} \<and>
     release_lease l r v (history cfg cs s) = history cfg cs s \<and>
     lease_alive Up r (history cfg cs s) = Some True \<and> fst (renew_lease cfg Up r w (history cfg cs s)) = RENEWED"
proof -
  have l: "leased (history cfg cs s) r w T" using leased_history assms(1-3) .
  then have "lease_alive Up r (history cfg cs s) = Some True" "fst (renew_lease cfg Up r w (history cfg cs s)) = RENEWED"
    by (simp_all add: leased_def lease_alive_def via_link_def r_exists_def renew_lease_def renew_lease_script_def op_bind_def
        r_get_def r_pexpire_def renewal_by_code_def)
  then show ?thesis using others_refused [OF l assms(4)] by blast
qed

theorem lease_is_exclusive_witness:
  "fst (acquire_lease demo_bus Up ''r'' [119] demo_redis) = ACQUIRED \<and>
   leased (snd (acquire_lease demo_bus Up ''r'' [119] demo_redis)) ''r'' [119] 30000 \<and>
   renew_lease demo_bus Up ''r'' [118]
     (history demo_bus [Wait 20000, AcquireCmd Up ''r'' [118], PublishCmd Up ''r'' [97] [104]]
        (snd (acquire_lease demo_bus Up ''r'' [119] demo_redis))) \<in>
   {(LOST, history demo_bus [Wait 20000, AcquireCmd Up ''r'' [118], PublishCmd Up ''r'' [97] [104]]
        (snd (acquire_lease demo_bus Up ''r'' [119] demo_redis))),
    (RENEW_UNKNOWN, history demo_bus [Wait 20000, AcquireCmd Up ''r'' [118], PublishCmd Up ''r'' [97] [104]]
        (snd (acquire_lease demo_bus Up ''r'' [119] demo_redis)))}"
proof -
  have a: "fst (acquire_lease demo_bus Up ''r'' [119] demo_redis) = ACQUIRED"
    "leased (snd (acquire_lease demo_bus Up ''r'' [119] demo_redis)) ''r'' [119] 30000"
    "clock (snd (acquire_lease demo_bus Up ''r'' [119] demo_redis)) = 0"
    by (simp_all add: acquire_lease_def via_link_def r_set_nx_def leased_def demo_bus_def demo_redis_def live_def rput_def)
  show ?thesis
    using a lease_is_exclusive [OF a(2), of "[Wait 20000, AcquireCmd Up ''r'' [118], PublishCmd Up ''r'' [97] [104]]" "[118]" demo_bus Up]
    by simp
qed

end
