(* ===== verification/AgentConsumerClaims.thy ===== *)
theory AgentConsumerClaims
  imports AgentConsumer AgentProcessClaims AgentRingClaims
begin

text \<open>
  The consumer of a run: the supervisor judges the working task by the progress of the stream, a consumer that ends
  lets go of its lease and its waiter and settles nothing, at most one consumer of a process drives a run, and the
  sweep finalizes only runs that nobody drives.
\<close>

subsection \<open>Judging the working task\<close>

definition fresh_consumer :: "consumer \<Rightarrow> bool" where
  "fresh_consumer c \<longleftrightarrow>
     cs_beacon c = new_beacon (cs_started_at c) \<and> cs_window c = window_of (cs_started_at c) (cs_beacon c) \<and>
     cs_supervisor c = Running"

definition beacon_inv :: "consumer \<Rightarrow> bool" where
  "beacon_inv c \<longleftrightarrow>
     (if saw_first_byte (cs_beacon c) then bc_state (cs_beacon c) \<noteq> Connecting
      else bc_state (cs_beacon c) = Connecting \<and> bc_since (cs_beacon c) = cs_started_at c)"

lemma start_worker_fresh: "fresh_consumer (start_worker cfg uid run_id up now (new_consumer i e d rd h))"
  by (auto simp: fresh_consumer_def start_worker_def new_consumer_def new_beacon_def set_state_def window_of_def
      split: prod.splits sum.splits)

lemma worker_publish_fields [simp]:
  "bc_state (cs_beacon (worker_publish bus k l raw c)) = bc_state (cs_beacon c)"
  "bc_since (cs_beacon (worker_publish bus k l raw c)) = bc_since (cs_beacon c)"
  "bc_bytes_read (cs_beacon (worker_publish bus k l raw c)) = bc_bytes_read (cs_beacon c)"
  "cs_started_at (worker_publish bus k l raw c) = cs_started_at c"
  by (simp_all add: worker_publish_def split: prod.split option.split)

lemma worker_handle_inv:
  "saw_first_byte (cs_beacon c) \<Longrightarrow> bc_state (cs_beacon c) \<noteq> Connecting \<Longrightarrow>
   beacon_inv (worker_handle rp cfg bus k i c)"
  by (auto simp: worker_handle_def beacon_inv_def saw_first_byte_def beacon_to_def set_state_def Let_def
      split: option.split prod.split sum.split)

lemma worker_item_inv:
  assumes "beacon_inv c" "case item of Block _ \<Rightarrow> saw_first_byte (cs_beacon c) | _ \<Rightarrow> True"
  shows "beacon_inv (worker_item rp cfg bus k item c)"
proof (cases item)
  case (Block i)
  then show ?thesis using assms
    by (auto intro!: worker_handle_inv simp: saw_first_byte_def beacon_to_def set_state_def)
next
  case (Bytes now n)
  then show ?thesis using assms(1)
    by (auto simp: beacon_inv_def note_bytes_def set_state_def saw_first_byte_def Let_def)
qed (use assms(1) in \<open>auto simp: beacon_inv_def worker_ends_def\<close>)

lemma tick_heartbeat_fields [simp]:
  "cs_beacon (tick_heartbeat uid k i c) = cs_beacon c" "cs_started_at (tick_heartbeat uid k i c) = cs_started_at c"
  "cs_worker (tick_heartbeat uid k i c) = cs_worker c"
  by (auto simp: tick_heartbeat_def split: prod.split sum.split exn.split)

lemma supervisor_tick_inv: "beacon_inv c \<Longrightarrow> beacon_inv (supervisor_tick ccfg bus uid k i c)"
  by (auto simp: supervisor_tick_def supervisor_cancels_def beacon_inv_def Let_def
      split: prod.split lease_renewal.split)

interpretation consumers: invariant_system fresh_consumer "consumer_step rp cfg ccfg bus uid k" beacon_inv
proof
  fix c
  show "fresh_consumer c \<Longrightarrow> beacon_inv c"
    by (auto simp: fresh_consumer_def beacon_inv_def new_beacon_def saw_first_byte_def)
next
  fix c c'
  assume "beacon_inv c" "consumer_step rp cfg ccfg bus uid k c c'"
  then show "beacon_inv c'"
    by (auto elim!: consumer_stepE intro: worker_item_inv supervisor_tick_inv) (simp add: beacon_inv_def)
qed

lemma tick_heartbeat_supervisor:
  "cs_supervisor (tick_heartbeat uid k i c) = cs_supervisor c \<or> (\<exists>f. cs_supervisor (tick_heartbeat uid k i c) = Died f)"
  by (auto simp: tick_heartbeat_def split: prod.split sum.split exn.split)

lemma tick_not_stalled:
  assumes "cs_worker c = Running" "ti_now i - cs_started_at c < agent_run_max_duration_seconds ccfg"
    and "\<not> is_stalled ccfg (ti_now i) (cs_beacon c) (cs_window c)"
  obtains (lost) "fst (renew_lease bus (ti_renew_link i) k (cs_owner c) (cs_redis c)) = LOST"
      "cs_supervisor (supervisor_tick ccfg bus uid k i c) = Returned (Some EVENT_CONSUMER_SHUTDOWN)"
  | (kept) c1 where "supervisor_tick ccfg bus uid k i c = tick_heartbeat uid k i c1" "cs_worker c1 = Running" "cs_supervisor c1 = cs_supervisor c"
proof -
  let ?c1 = "if window_advanced (cs_window c) (cs_beacon c) then c\<lparr>cs_window := window_of (ti_now i) (cs_beacon c)\<rparr> else c"
  obtain v rd where v: "renew_lease bus (ti_renew_link i) k (cs_owner c) (cs_redis c) = (v, rd)" by fastforce
  then have v1: "renew_lease bus (ti_renew_link i) k (cs_owner ?c1) (cs_redis ?c1) = (v, rd)" by simp
  obtain fresh rd2 where e: "ensure_epoch bus (fst (ti_epoch_links i)) (snd (ti_epoch_links i)) (ti_fresh_epoch i) k rd = (fresh, rd2)" by fastforce
  note step = supervisor_tick_def [of ccfg bus uid k i c] Let_def v1 e
  show thesis
  proof (cases "v = LOST")
    case True
    then show thesis using assms v by (intro lost) (simp_all add: step supervisor_cancels_def)
  next
    case False
    have "supervisor_tick ccfg bus uid k i c =
        tick_heartbeat uid k i (?c1\<lparr>cs_redis := rd2, cs_epoch := (case fresh of None \<Rightarrow> cs_epoch ?c1 | Some e \<Rightarrow> e)\<rparr>)"
      using assms False by (cases v) (simp_all add: step)
    then show thesis by (rule kept) (use assms in \<open>simp_all\<close>)
  qed
qed

text \<open>
  Claim C24. In every interleaving of the two tasks, a subscription that never delivered a byte is stopped by the first
  tick at or after the first-byte threshold, and by no earlier one for being stalled. Once bytes flow, a task that waits for
  upstream is not stopped, however long it is silent, unless its loop has turned twice without any progress of the
  stream, the run is over its maximal duration, or another worker holds the lease.
\<close>

theorem supervisor_judges_by_progress:
  fixes c :: consumer and i :: tick_input and bus :: bus_settings and uid :: uuid and k :: string and ccfg :: consumer_settings
  defines "c' \<equiv> supervisor_tick ccfg bus uid k i c"
  assumes "reach fresh_consumer (consumer_step rp cfg ccfg bus uid k) c" "cs_worker c = Running" "cs_supervisor c = Running"
    and "ti_now i - cs_started_at c < agent_run_max_duration_seconds ccfg"
  shows "(\<not> saw_first_byte (cs_beacon c) \<longrightarrow>
           (ti_now i - cs_started_at c \<ge> agent_run_first_byte_stall_seconds ccfg
            \<longleftrightarrow> cs_worker c' = Cancelled \<and> cs_supervisor c' = Returned (Some EVENT_CONSUMER_STALLED))) \<and>
         (saw_first_byte (cs_beacon c) \<and> bc_state (cs_beacon c) = AwaitingUpstream \<and>
          (window_advanced (cs_window c) (cs_beacon c) \<or> bc_transitions (cs_beacon c) < pw_transitions (cs_window c) + SPIN_TRANSITIONS) \<and>
          fst (renew_lease bus (ti_renew_link i) k (cs_owner c) (cs_redis c)) \<noteq> LOST
            \<longrightarrow> cs_worker c' = Running)"
proof -
  have inv: "beacon_inv c" by (rule consumers.reachable_inv [OF assms(2)])
  have ne: "EVENT_CONSUMER_SHUTDOWN \<noteq> EVENT_CONSUMER_STALLED"
    by (simp add: EVENT_CONSUMER_SHUTDOWN_def EVENT_CONSUMER_STALLED_def)
  show ?thesis
  proof (cases "is_stalled ccfg (ti_now i) (cs_beacon c) (cs_window c)")
    case True
    then have "cs_worker c' = Cancelled" "cs_supervisor c' = Returned (Some EVENT_CONSUMER_STALLED)"
      using assms by (simp_all add: c'_def supervisor_tick_def supervisor_cancels_def)
    then show ?thesis using True inv by (auto simp: is_stalled_def beacon_inv_def)
  next
    case False
    from assms(3,5) False show ?thesis
    proof (cases rule: tick_not_stalled [where bus = bus and uid = uid and k = k])
      case lost
      then show ?thesis using False inv ne by (auto simp: c'_def is_stalled_def beacon_inv_def)
    next
      case (kept c1)
      then show ?thesis using False inv assms(4) tick_heartbeat_supervisor [of uid k i c1]
        by (auto simp: c'_def is_stalled_def beacon_inv_def)
    qed
  qed
qed

subsection \<open>The end of a consumer\<close>

lemma release_lease_frees:
  assumes "via_link l (release_lease_script key owner) s = (r, t)" "l \<noteq> Refused"
  shows "fst (r_get key t) \<noteq> Inr (Some owner)"
  using assms
  by (auto simp: via_link_def release_lease_script_def op_bind_def r_get_def r_del_def live_rdel
      split: link.splits option.splits rvalue.splits if_splits)

lemma final_flush_frame:
  "cs_redis (final_flush cfg i c) = cs_redis c \<and> cs_owner (final_flush cfg i c) = cs_owner c \<and>
   cs_handshake (final_flush cfg i c) = cs_handshake c \<and>
   (\<exists>ss. cs_db (final_flush cfg i c) = (cs_db c)\<lparr>agent_snapshots := ss\<rparr>)"
proof (cases "cs_processing c")
  case None
  then show ?thesis by (simp add: final_flush_def) (intro exI [of _ "agent_snapshots (cs_db c)"], simp)
next
  case (Some r)
  obtain r' ss where f: "flush_run_snapshot cfg (fi_clock i) (r, cs_db c) = (Inr (), (r', (cs_db c)\<lparr>agent_snapshots := ss\<rparr>))"
    unfolding flush_run_snapshot_def by (rule flush_snapshot_frame)
  have "\<exists>ss. cs_db c = (cs_db c)\<lparr>agent_snapshots := ss\<rparr>" by (intro exI [of _ "agent_snapshots (cs_db c)"]) simp
  then show ?thesis using Some f by (auto simp: final_flush_def)
qed

definition stop_record :: "uuid \<Rightarrow> string \<Rightarrow> db \<Rightarrow> string \<Rightarrow> audit_row" where
  "stop_record uid run_id s e =
     audit_row_of (request_id s) \<lparr>ev_user = uid, ev_type = e, ev_payload = [(''runId'', JStr run_id)], ev_session = None\<rparr>"

text \<open>
  However a consumer ends, and whether or not its last flush works, the waiter of its subscription is
  released, its lease is gone as soon as Redis takes the command, and it settles nothing itself: no run, no ledger row and no
  wallet changes; the only record is why it stopped, when the end was not a normal one.
\<close>

theorem ended_consumer_lets_go:
  fixes c :: consumer and cfg :: settings and uid :: uuid and run_id :: string and i :: finish_input and audit :: "string option"
  defines "c' \<equiv> finalize cfg uid run_id i audit c"
  shows "hk_done (cs_handshake c') \<and> hk_established (cs_handshake c') = hk_established (cs_handshake c) \<and>
    (fi_link i \<noteq> Refused \<longrightarrow> fst (r_get (bus_key run_id ''lease'') (cs_redis c')) \<noteq> Inr (Some (cs_owner c))) \<and>
    agent_runs (cs_db c') = agent_runs (cs_db c) \<and> ledger (cs_db c') = ledger (cs_db c) \<and> wallets (cs_db c') = wallets (cs_db c) \<and>
    audit_logs (cs_db c') = audit_logs (cs_db c) @
      (case audit of Some e \<Rightarrow> if fi_audit_up i then [stop_record uid run_id (cs_db c) e] else [] | None \<Rightarrow> [])"
proof -
  let ?c0 = "c\<lparr>cs_handshake := mark_failed (cs_handshake c)\<rparr>"
  define c1 where "c1 = final_flush cfg i ?c0"
  obtain ss where c1: "cs_redis c1 = cs_redis c" "cs_owner c1 = cs_owner c" "cs_handshake c1 = mark_failed (cs_handshake c)"
    "cs_db c1 = (cs_db c)\<lparr>agent_snapshots := ss\<rparr>"
    using final_flush_frame [of cfg i ?c0] by (auto simp: c1_def)
  define rd where "rd = release_lease (fi_link i) run_id (cs_owner c) (cs_redis c)"
  have c': "cs_handshake c' = cs_handshake c1" "cs_redis c' = rd"
    "cs_db c' = (case audit of None \<Rightarrow> cs_db c1
                 | Some e \<Rightarrow> snd (service_call (fi_audit_up i) (record_consumer_event uid run_id e) (cs_db c1)))"
    by (simp_all add: c'_def finalize_def Let_def c1_def [symmetric] c1(1,2) rd_def split: option.split)
  have "fi_link i \<noteq> Refused \<Longrightarrow> fst (r_get (bus_key run_id ''lease'') rd) \<noteq> Inr (Some (cs_owner c))"
    using release_lease_frees [of "fi_link i" "bus_key run_id ''lease''" "cs_owner c" "cs_redis c"]
    by (simp add: rd_def release_lease_def) (metis prod.collapse)
  moreover have "snd (service_call (fi_audit_up i) (record_consumer_event uid run_id e) (cs_db c1)) =
      (if fi_audit_up i then (cs_db c1)\<lparr>audit_logs := audit_logs (cs_db c1) @ [stop_record uid run_id (cs_db c) e]\<rparr> else cs_db c1)" for e
    by (simp add: service_call_def session_scope_def record_consumer_event_def audit_record_apply stop_record_def c1(4))
  ultimately show ?thesis using c1 c' by (auto simp: mark_failed_def split: option.split)
qed

text \<open>The reason a normal end leaves out: the task group has nothing to record.\<close>

lemma normal_end_records_nothing:
  "fst (group_verdict w s) = None \<longleftrightarrow> (\<exists>out. w = Returned out \<and> co_audit_event out = None \<and> s = Returned None)"
  by (cases w; cases s) (auto simp: group_verdict_def died_with_def Let_def split: option.splits)

subsection \<open>Registry\<close>

text \<open>A second start of a run whose task is alive starts nothing and returns that task.\<close>

lemma registry_start_is_idempotent:
  assumes "registry_start run_id g = (t, g')" "\<not> task_done g' t"
  shows "registry_start run_id g' = (t, g')"
  using assms
  by (auto simp: registry_start_def task_done_def update_conv' split: option.splits if_splits)

lemma forget_keeps_the_successor:
  "map_of (rg_tasks g) run_id = Some t \<Longrightarrow> t \<noteq> t' \<Longrightarrow> registry_forget run_id t' g = g"
  by (simp add: registry_forget_def)

subsection \<open>Sweep\<close>

lemma orphan_debit_runs: "agent_runs (snd (orphan_debit cfg u k i j owed s)) = agent_runs s"
proof -
  obtain out t where c: "consume cfg u owed k (orphan_meta k) None s = (out, t)" by fastforce
  have "agent_runs t = agent_runs s" using consume_frame [of cfg u owed k "orphan_meta k" None s] c by simp
  then show ?thesis
    by (cases out) (auto simp: orphan_debit_def op_catch_def op_bind_def c record_insufficient_def)
qed

lemma finalize_orphan_run_other:
  assumes "k \<noteq> k'"
  shows "run_of k (snd (service_call up (finalize_orphan_run cfg now u k' i j sp age) s)) = run_of k s"
proof (cases "usage_to_credits i j (credits_per_1k_input cfg) (credits_per_1k_output cfg)")
  case (Inl e)
  then show ?thesis by (simp add: service_call_def session_scope_def finalize_orphan_run_def)
next
  case (Inr observed)
  obtain b s1 where d: "orphan_debit cfg u k' i j (max (observed - charged_for_run u k' s) 0) s = (b, s1)" by fastforce
  have runs: "run_of k s1 = run_of k s"
    using orphan_debit_runs [of cfg u k' i j "max (observed - charged_for_run u k' s) 0" s] d by (simp add: run_of_def)
  have m: "run_of k (snd (mark_status now k' st s1)) = run_of k s1" for st
    using assms by (simp add: mark_status_def update_run_def split: option.split)
  show ?thesis
  proof (cases b)
    case (Inl e)
    then show ?thesis using d by (simp add: service_call_def session_scope_def finalize_orphan_run_eval [OF Inr])
  next
    case (Inr billed)
    then show ?thesis using d m runs
      by (simp add: service_call_def session_scope_def finalize_orphan_run_eval [OF \<open>usage_to_credits _ _ _ _ = Inr observed\<close>] Let_def)
         (simp add: run_of_def)
  qed
qed

lemma sweep_candidates_spares:
  assumes "\<And>p oc. (p, oc) \<in> set es \<Longrightarrow> oc_run_id oc = k \<Longrightarrow> lease_alive (sp_link p) k (sp_redis p) \<noteq> Some False"
  shows "run_of k (snd (sweep_candidates cfg es s)) = run_of k s"
  using assms
proof (induction es arbitrary: s)
  case (Cons e es)
  obtain p oc where e: "e = (p, oc)" by fastforce
  have IH: "run_of k (snd (sweep_candidates cfg es s')) = run_of k s'" for s'
    by (rule Cons.IH) (use Cons.prems in auto)
  show ?case
  proof (cases "lease_alive (sp_link p) (oc_run_id oc) (sp_redis p) = Some False")
    case False
    then show ?thesis using IH by (simp add: e)
  next
    case True
    then have "oc_run_id oc \<noteq> k" using Cons.prems [of p oc] e by auto
    note other = finalize_orphan_run_other [OF this [symmetric], where cfg = cfg and up = "sp_db_up p" and now = "sp_now p" and
        u = "oc_user oc" and i = "oc_input_tokens oc" and j = "oc_output_tokens oc" and sp = "oc_snapshot_present oc" and
        age = "of_int (oc_age oc) / 1000000" and s = s]
    have IH': "sweep_candidates cfg es s' = (x, t') \<Longrightarrow> run_of k t' = run_of k s'" for s' x t' using IH [of s'] by simp
    show ?thesis using True other
      by (auto simp: e op_bind_def op_catch_def split: prod.split sum.split dest!: IH')
  qed
qed simp

lemma sweep_candidates_nothing:
  assumes "\<And>p oc. (p, oc) \<in> set es \<Longrightarrow> lease_alive (sp_link p) (oc_run_id oc) (sp_redis p) \<noteq> Some False"
  shows "sweep_candidates cfg es s = (Inr 0, s)"
  using assms by (induction es) (auto split: prod.splits)

definition abandoned :: "consumer_settings \<Rightarrow> link \<Rightarrow> (int + string) option \<Rightarrow> int \<Rightarrow> (nat \<Rightarrow> sweep_probe) \<Rightarrow> db \<Rightarrow> string \<Rightarrow> bool" where
  "abandoned ccfg l info now probe s k \<longleftrightarrow>
     (\<exists>up. uptime_seconds l info = Some up \<and> agent_run_orphan_redis_grace_seconds ccfg \<le> up) \<and>
     (\<exists>r. (k, r) \<in> set (agent_runs s) \<and> active_status (run_status r) \<and>
          last_seen s k r < now - agent_run_orphan_timeout_seconds ccfg * 1000000) \<and>
     (\<exists>n. lease_alive (sp_link (probe n)) k (sp_redis (probe n)) = Some False)"

lemma candidate_abandoned:
  assumes "list_orphan_candidates now timeout limit s = (Inr cs, t)" "oc \<in> set cs"
  shows "t = s \<and> (\<exists>r. (oc_run_id oc, r) \<in> set (agent_runs s) \<and> active_status (run_status r) \<and>
           last_seen s (oc_run_id oc) r < now - timeout * 1000000)"
  using assms by (auto simp: list_orphan_candidates_def dest!: in_set_takeD) blast+

text \<open>
  Claim C25. A tick of the orphan sweep changes a run only if Redis answered that it has been up longer than the grace, the run is
  active, its last sign of life is older than the timeout, and Redis answered that nobody holds its lease. An unreadable
  uptime or an unreadable lease finalizes nothing, and when no run qualifies the database is left as it was.
\<close>

theorem sweep_finalizes_only_the_abandoned:
  assumes "sweep_orphan_runs cfg ccfg l info list_up now probe s = (res, t)"
  shows "(\<not> abandoned ccfg l info now probe s k \<longrightarrow> run_of k t = run_of k s) \<and>
         ((\<forall>k. \<not> abandoned ccfg l info now probe s k) \<longrightarrow> t = s)"
proof (cases "\<exists>up. uptime_seconds l info = Some up \<and> agent_run_orphan_redis_grace_seconds ccfg \<le> up")
  case False
  then have "t = s" using assms by (auto simp: sweep_orphan_runs_def split: option.splits if_splits)
  then show ?thesis by simp
next
  case True
  let ?list = "list_orphan_candidates now (agent_run_orphan_timeout_seconds ccfg) (agent_run_orphan_max_per_tick ccfg)"
  obtain cs where cs: "?list s = (Inr cs, s)" by (simp add: list_orphan_candidates_def)
  let ?es = "zip (map probe [0..<length cs]) cs"
  have "t = s \<or> sweep_candidates cfg ?es s = (res, t)"
    using assms True cs by (auto simp: sweep_orphan_runs_def service_call_def session_scope_def op_bind_def split: option.splits if_splits)
  moreover have lease: "lease_alive (sp_link p) (oc_run_id oc) (sp_redis p) \<noteq> Some False"
    if "(p, oc) \<in> set ?es" "\<not> abandoned ccfg l info now probe s (oc_run_id oc)" for p oc
  proof -
    have "p \<in> range probe" "oc \<in> set cs" using set_zip_leftD [OF that(1)] set_zip_rightD [OF that(1)] by auto
    then show ?thesis using that(2) True candidate_abandoned [OF cs] by (auto simp: abandoned_def)
  qed
  moreover have "\<not> abandoned ccfg l info now probe s k \<Longrightarrow> run_of k (snd (sweep_candidates cfg ?es s)) = run_of k s"
    by (rule sweep_candidates_spares) (use lease in blast)
  moreover have "(\<forall>k. \<not> abandoned ccfg l info now probe s k) \<Longrightarrow> sweep_candidates cfg ?es s = (Inr 0, s)"
    by (rule sweep_candidates_nothing) (use lease in blast)
  ultimately show ?thesis by (metis snd_conv)
qed

subsection \<open>Concrete consumers\<close>

definition demo_consumer_settings :: consumer_settings where
  "demo_consumer_settings =
     \<lparr>agent_run_first_byte_stall_seconds = 180, agent_run_processing_stall_seconds = 120, agent_run_max_duration_seconds = 7200,
      agent_run_orphan_redis_grace_seconds = 60, agent_run_orphan_timeout_seconds = 900, agent_run_orphan_max_per_tick = 50\<rparr>"

definition demo_consumer :: consumer where
  "demo_consumer = new_consumer
     \<lparr>si_now = 0, si_db_now = 0, si_owner = [1], si_acquire_link = Up, si_epoch_links = (Up, Up), si_new_epoch = [2], si_own_epoch = [3],
      si_snapshot_up = True, si_worker_up = True\<rparr> [2] empty_db demo_redis \<lparr>hk_done = False, hk_established = False\<rparr>"

definition demo_tick :: tick_input where
  "demo_tick = \<lparr>ti_now = 200, ti_db_now = 200, ti_renew_link = Up, ti_epoch_links = (Up, Up), ti_fresh_epoch = [4], ti_db_up = True\<rparr>"

theorem supervisor_judges_by_progress_witness:
  "cs_supervisor (supervisor_tick demo_consumer_settings demo_bus 1 ''r'' demo_tick demo_consumer) = Returned (Some EVENT_CONSUMER_STALLED)"
proof -
  have "fresh_consumer demo_consumer" "cs_worker demo_consumer = Running" "cs_supervisor demo_consumer = Running"
    by (simp_all add: fresh_consumer_def demo_consumer_def new_consumer_def)
  then show ?thesis
    using supervisor_judges_by_progress [where c = demo_consumer and i = demo_tick and ccfg = demo_consumer_settings and bus = demo_bus
        and uid = 1 and k = "''r''" and rp = "\<lambda>_. []" and cfg = demo_cfg, OF reach_init]
    by (simp add: demo_tick_def demo_consumer_settings_def demo_consumer_def new_consumer_def new_beacon_def saw_first_byte_def)
qed

definition demo_finish :: finish_input where
  "demo_finish = \<lparr>fi_flush_ok = False, fi_clock = demo_clock, fi_link = Up, fi_audit_up = True\<rparr>"

theorem ended_consumer_lets_go_witness:
  "hk_done (cs_handshake (finalize demo_cfg 1 ''r'' demo_finish None demo_consumer)) \<and>
   fst (r_get (bus_key ''r'' ''lease'') (cs_redis (finalize demo_cfg 1 ''r'' demo_finish None demo_consumer))) \<noteq> Inr (Some [1])"
  using ended_consumer_lets_go [of demo_cfg 1 "''r''" demo_finish None demo_consumer]
  by (simp add: demo_consumer_def new_consumer_def demo_finish_def)

theorem sweep_finalizes_only_the_abandoned_witness:
  "snd (sweep_orphan_runs demo_cfg demo_consumer_settings Up (Some (Inl 30)) True 0
      (\<lambda>_. \<lparr>sp_link = Up, sp_redis = demo_redis, sp_db_up = True, sp_now = 0\<rparr>) demo_runs) = demo_runs"
proof -
  have "\<not> abandoned demo_consumer_settings Up (Some (Inl 30)) 0 probe demo_runs k" for probe k
    by (simp add: abandoned_def uptime_seconds_def demo_consumer_settings_def)
  then show ?thesis
    using sweep_finalizes_only_the_abandoned [of demo_cfg demo_consumer_settings Up "Some (Inl 30)" True 0
        "\<lambda>_. \<lparr>sp_link = Up, sp_redis = demo_redis, sp_db_up = True, sp_now = 0\<rparr>" demo_runs] by (metis prod.collapse)
qed

end
