(* ===== verification/HermesClaims.thy ===== *)
theory HermesClaims
  imports HermesManager
begin

text \<open>
  What the lifecycle of an instance promises: what a cold start leaves in every outcome, a wake
  that timed out does not touch an instance another attempt has brought up, the readiness waits end, and
  the residue of a crash between the start of a container and its registration.
\<close>

subsection \<open>Evaluation of the session operations\<close>

lemma bind_in_db:
  "op_bind (in_db m) f s = (case m (hs_db s) of (Inl e, d) \<Rightarrow> (Inl e, s\<lparr>hs_db := d\<rparr>) | (Inr y, d) \<Rightarrow> f y (s\<lparr>hs_db := d\<rparr>))"
  by (simp add: op_bind_def in_db_def split: prod.splits sum.splits)

lemma bind_in_docker:
  "op_bind (in_docker m) f s =
     (case m (hs_docker s) of (Inl e, k) \<Rightarrow> (Inl e, s\<lparr>hs_docker := k\<rparr>) | (Inr y, k) \<Rightarrow> f y (s\<lparr>hs_docker := k\<rparr>))"
  by (simp add: op_bind_def in_docker_def split: prod.splits sum.splits)

lemma bind_commit: "op_bind h_commit f s = f () (s\<lparr>hs_committed := hs_db s\<rparr>)"
  by (simp add: h_commit_def op_bind_modify)

lemma bind_rollback: "op_bind h_rollback f s = f () (s\<lparr>hs_db := hs_committed s\<rparr>)"
  by (simp add: h_rollback_def op_bind_modify)

lemma bind_others:
  "op_bind (others_run g) f s =
     f () \<lparr>hs_db = fst (g (hs_committed s, hs_docker s)), hs_committed = fst (g (hs_committed s, hs_docker s)),
           hs_docker = snd (g (hs_committed s, hs_docker s))\<rparr>"
  by (simp add: others_run_def op_bind_modify split: prod.split)

lemma bind_op_of: "op_bind (op_of r) f = (case r of Inl e \<Rightarrow> op_raise e | Inr x \<Rightarrow> f x)"
  by (cases r) (simp_all add: op_of_def)

lemmas session_eval = bind_in_db bind_in_docker bind_commit bind_rollback bind_others bind_op_of

lemma instance_of_update [simp]:
  "instance_of u (s\<lparr>hermes_instances := AList.update uid h (hermes_instances s)\<rparr>) = (if u = uid then Some h else instance_of u s)"
  by (simp add: instance_of_def update_conv')

lemma instance_of_insert [simp]:
  "instance_of u (s\<lparr>hermes_instances := (uid, h) # hermes_instances s\<rparr>) = (if u = uid then Some h else instance_of u s)"
  by (simp add: instance_of_def)

lemma instance_of_delete [simp]:
  "instance_of u (s\<lparr>hermes_instances := AList.delete uid (hermes_instances s)\<rparr>) = (if u = uid then None else instance_of u s)"
  by (simp add: instance_of_def delete_conv')

lemma update_instance_eval:
  "instance_of uid s = Some h \<Longrightarrow> update_instance uid P f s =
     (if P h then (Inr 1, s\<lparr>hermes_instances := AList.update uid (f h) (hermes_instances s)\<rparr>) else (Inr 0, s))"
  by (simp add: update_instance_def)

subsection \<open>The readiness waits end\<close>

lemma poll_until_looks:
  assumes "0 \<le> b" "stop_at - now \<le> b"
  shows "k < snd (poll_until stop_at pause look k now) \<and>
         of_int (max pause 1) * of_nat (snd (poll_until stop_at pause look k now) - Suc k) \<le> b"
  using assms
proof (induction stop_at pause look k now arbitrary: b rule: poll_until.induct)
  case (1 stop_at pause look k now)
  define i :: rat where "i = of_int (max pause 1)"
  define now1 where "now1 = now + max (snd (look k)) 0"
  note s = poll_until.simps [of stop_at pause look k now, folded now1_def i_def, unfolded Let_def]
  have i1: "1 \<le> i" by (simp add: i_def of_int_max)
  show ?case
  proof (cases "fst (look k) \<noteq> None \<or> now1 + i > stop_at")
    case True
    then show ?thesis using 1(2) by (auto simp: s)
  next
    case False
    define n where "n = snd (poll_until stop_at pause look (Suc k) (now1 + i))"
    have "stop_at - (now1 + i) \<le> b - i" using 1(3) by (simp add: now1_def max_def split: if_splits)
    moreover have "0 \<le> b - i" using False 1(3) by (simp add: now1_def max_def split: if_splits)
    ultimately have n: "Suc k < n" "i * of_nat (n - Suc (Suc k)) \<le> b - i"
      using 1(1) [of now1 i "b - i"] False by (auto simp: now1_def i_def n_def)
    moreover have "n - Suc k = Suc (n - Suc (Suc k))" using n(1) by simp
    ultimately have "i * of_nat (n - Suc k) \<le> b" by (simp only: of_nat_Suc distrib_left)
    then show ?thesis using False n(1) by (simp add: s i_def [symmetric] n_def [symmetric])
  qed
qed

text \<open>
  The wait for an instance always returns, whatever the probes answer and however long they take,
  after at least one probe, and the pauses between its probes fit in the configured readiness budget; the
  deadline of the caller only shortens it.
\<close>

theorem readiness_wait_is_bounded:
  "1 \<le> snd (wait_for_ready cfg deadline x) \<and>
   max (hermes_provision_ready_interval_seconds cfg) 1 * int (snd (wait_for_ready cfg deadline x) - 1)
     \<le> max (hermes_provision_ready_timeout_seconds cfg) 0"
proof -
  let ?T = "hermes_provision_ready_timeout_seconds cfg" and ?I = "hermes_provision_ready_interval_seconds cfg"
  let ?look = "\<lambda>k. (if fst (hc_probe x k) then Some () else None, snd (hc_probe x k))"
  let ?p = "poll_until (poll_deadline cfg deadline (hc_poll_clock x)) ?I ?look 0 (hc_poll_clock x)"
  have "poll_deadline cfg deadline (hc_poll_clock x) - hc_poll_clock x \<le> of_int (max ?T 0)"
    by (auto simp: poll_deadline_def Let_def of_int_max split: option.splits)
  then have "0 < snd ?p \<and> of_int (max ?I 1) * of_nat (snd ?p - Suc 0) \<le> (of_int (max ?T 0) :: rat)"
    using poll_until_looks [of "of_int (max ?T 0)"] by simp
  moreover have "snd (wait_for_ready cfg deadline x) = snd ?p" by (simp add: wait_for_ready_def split: prod.split)
  moreover have "of_int (max ?I 1) * of_nat (snd ?p - Suc 0) = (of_int (max ?I 1 * int (snd ?p - 1)) :: rat)" by simp
  ultimately show ?thesis by (simp only: of_int_le_iff) simp
qed

subsection \<open>Other transactions\<close>

text \<open>The containers under the name of a user, and activity of others that leaves them and the row alone.\<close>

definition own_containers :: "uuid \<Rightarrow> docker \<Rightarrow> (string \<times> dcontainer) list" where
  "own_containers uid k = filter (\<lambda>(_, c). dc_name c = container_name uid) (dk_containers k)"

definition spares :: "uuid \<Rightarrow> (db \<times> docker \<Rightarrow> db \<times> docker) \<Rightarrow> bool" where
  "spares uid f \<longleftrightarrow> (\<forall>d k. instance_of uid (fst (f (d, k))) = instance_of uid d \<and> own_containers uid (snd (f (d, k))) = own_containers uid k)"

lemma spares_id [simp]: "spares uid (\<lambda>w. w)"
  by (simp add: spares_def)

lemma sparesD:
  assumes "spares uid f"
  shows "instance_of uid (fst (f (d, k))) = instance_of uid d" "own_containers uid (snd (f (d, k))) = own_containers uid k"
  using assms by (simp_all add: spares_def)

lemma name_taken_own: "name_taken (container_name uid) k \<longleftrightarrow> own_containers uid k \<noteq> []"
  by (force simp: name_taken_def own_containers_def filter_empty_conv)

lemma own_containers_volumes [simp]: "own_containers uid (k\<lparr>dk_volumes := v\<rparr>) = own_containers uid k"
  by (simp add: own_containers_def)

lemma own_containers_remove:
  "own_containers uid (k\<lparr>dk_containers := filter (\<lambda>(i, _). i \<noteq> cid) (dk_containers k)\<rparr>) = filter (\<lambda>(i, _). i \<noteq> cid) (own_containers uid k)"
  by (simp add: own_containers_def conj_commute)

text \<open>The containers a first attempt to provision leaves under the name of its user.\<close>

definition left_by_run :: "uuid \<Rightarrow> (string \<times> string) list \<Rightarrow> docker_run \<Rightarrow> (string \<times> dcontainer) list" where
  "left_by_run uid env run =
     (case run of
        RunCreated cid \<Rightarrow> [(cid, \<lparr>dc_name = container_name uid, dc_env = env, dc_running = False\<rparr>)]
      | RunStarted cid \<Rightarrow> [(cid, \<lparr>dc_name = container_name uid, dc_env = env, dc_running = True\<rparr>)]
      | _ \<Rightarrow> [])"

lemma backend_provision_taken:
  assumes "ps_name spec = container_name uid" "own_containers uid k \<noteq> []"
  shows "\<exists>e k'. backend_provision ff run spec k = (Inl e, k') \<and> own_containers uid k' = own_containers uid k"
proof -
  have n: "name_taken (container_name uid) (k\<lparr>dk_volumes := v\<rparr>)" "name_taken (container_name uid) k" for v
    using assms(2) by (simp_all add: name_taken_own)
  show ?thesis using assms(1) by (cases run) (auto simp: backend_provision_def Let_def n)
qed

lemma backend_provision_free:
  assumes "ps_name spec = container_name uid" "own_containers uid k = []"
  shows "\<exists>k'. snd (backend_provision ff run spec k) = k' \<and>
           own_containers uid k' = (if ff then [] else left_by_run uid (ps_env spec) run)"
    and "\<not> ff \<Longrightarrow> fst (backend_provision ff (RunStarted cid) spec k) =
           Inr \<lparr>cr_container_id = cid, cr_name = container_name uid, cr_endpoint = container_endpoint (container_name uid)\<rparr>"
    and "ff \<or> (\<forall>cid. run \<noteq> RunStarted cid) \<Longrightarrow> \<exists>e. fst (backend_provision ff run spec k) = Inl e"
proof -
  have n: "\<not> name_taken (container_name uid) (k\<lparr>dk_volumes := v\<rparr>)" "\<not> name_taken (container_name uid) k" for v
    using assms(2) by (simp_all add: name_taken_own)
  have own: "own_containers uid (k\<lparr>dk_volumes := v, dk_containers := (cid, c) # dk_containers k\<rparr>) = [(cid, c)]"
    "own_containers uid (k\<lparr>dk_containers := (cid, c) # dk_containers k\<rparr>) = [(cid, c)]"
    if "dc_name c = container_name uid" for v cid c
    using assms(2) that by (simp_all add: own_containers_def)
  show "\<exists>k'. snd (backend_provision ff run spec k) = k' \<and> own_containers uid k' = (if ff then [] else left_by_run uid (ps_env spec) run)"
    using assms by (cases run) (auto simp: backend_provision_def Let_def n own left_by_run_def)
  show "\<not> ff \<Longrightarrow> fst (backend_provision ff (RunStarted cid) spec k) =
           Inr \<lparr>cr_container_id = cid, cr_name = container_name uid, cr_endpoint = container_endpoint (container_name uid)\<rparr>"
    using assms by (simp add: backend_provision_def Let_def n)
  show "ff \<or> (\<forall>cid. run \<noteq> RunStarted cid) \<Longrightarrow> \<exists>e. fst (backend_provision ff run spec k) = Inl e"
    by (cases run) (auto simp: backend_provision_def Let_def)
qed

subsection \<open>Cold start\<close>

definition lock_granted :: "rat option \<Rightarrow> hermes_call \<Rightarrow> bool" where
  "lock_granted deadline x \<longleftrightarrow> \<not> hc_db_fault x \<and> \<not> lock_expires (lock_timeout_ms deadline (hc_clock x)) (hc_lock_wait x)"

definition new_row :: "keyring \<Rightarrow> hermes_call \<Rightarrow> hermes_instance" where
  "new_row kr x = \<lparr>hi_container_id = None, hi_endpoint = None, hi_sealed = kr_seal kr (hc_key x), hi_status = ''provisioning'',
                   hi_port = None, hi_last_active_at = hc_now x, hi_provisioning_started_at = Some (hc_now x), hi_created_at = hc_now x\<rparr>"

lemma create_provisioning_eval:
  "instance_of uid s = None \<Longrightarrow> users s uid \<noteq> None \<Longrightarrow>
   create_provisioning (hc_now x) uid (kr_seal kr (hc_key x)) s =
     (Inr (Some (new_row kr x)), s\<lparr>hermes_instances := (uid, new_row kr x) # hermes_instances s\<rparr>)"
  by (auto simp: create_provisioning_def new_row_def Let_def)

lemma ensure_running_missing:
  "lock_granted deadline x \<Longrightarrow> instance_of uid (hs_db s) = None \<Longrightarrow>
   ensure_running cfg kr uid deadline x s = provision_locked cfg kr uid deadline x s"
  by (simp add: ensure_running_def lock_granted_def session_eval registry_get_def)

text \<open>
  The part of a cold start after its row is committed, for a settings text that renders: either the daemon
  brings no container up, and the error leaves the row as it was committed, or the readiness wait decides.
\<close>

lemma provision_locked_starts:
  assumes fresh: "instance_of uid (hs_db s) = None" "users (hs_db s) uid \<noteq> None" "own_containers uid (hs_docker s) = []"
    and config: "require_provision_config cfg = Inr ()" "instance_config cfg = Inr yaml"
    and daemon: "hc_run x = RunStarted cid" "\<not> hc_file_fault x"
    and others: "spares uid (hc_before x)" "spares uid (hc_during x)"
  shows "\<exists>d k. instance_of uid d = Some (new_row kr x) \<and>
    own_containers uid k = left_by_run uid (container_env int_str cfg (hc_key x)) (RunStarted cid) \<and>
    provision_locked cfg kr uid deadline x s =
      (if fst (wait_for_ready cfg deadline x) then
         op_bind (in_db (mark_running (hc_done x) uid cid (container_endpoint (container_name uid)) None)) (\<lambda>_.
         op_bind h_commit (\<lambda>_. op_return \<lparr>ie_base_url = container_endpoint (container_name uid), ie_api_key = hc_key x\<rparr>))
           \<lparr>hs_db = d, hs_committed = d, hs_docker = k\<rparr>
       else op_bind (cleanup_failed_provision uid
                \<lparr>cr_container_id = cid, cr_name = container_name uid, cr_endpoint = container_endpoint (container_name uid)\<rparr> x)
              (\<lambda>_. op_raise ready_timeout) \<lparr>hs_db = d, hs_committed = d, hs_docker = k\<rparr>)"
proof -
  let ?spec = "provision_spec_of cfg uid (hc_key x) yaml"
  let ?ref = "\<lparr>cr_container_id = cid, cr_name = container_name uid, cr_endpoint = container_endpoint (container_name uid)\<rparr>"
  define d0 where "d0 = hs_db s\<lparr>hermes_instances := (uid, new_row kr x) # hermes_instances (hs_db s)\<rparr>"
  define w1 where "w1 = hc_before x (d0, hs_docker s)"
  have w1: "instance_of uid (fst w1) = Some (new_row kr x)" "own_containers uid (snd w1) = []"
    using sparesD [OF others(1), of d0 "hs_docker s"] fresh(3) by (simp_all add: w1_def d0_def)
  have spec: "ps_name ?spec = container_name uid" "ps_env ?spec = container_env int_str cfg (hc_key x)"
    by (simp_all add: provision_spec_of_def)
  obtain k2 where k2: "backend_provision False (RunStarted cid) ?spec (snd w1) = (Inr ?ref, k2)"
    "own_containers uid k2 = left_by_run uid (container_env int_str cfg (hc_key x)) (RunStarted cid)"
    using backend_provision_free(1) [OF spec(1) w1(2), of False "RunStarted cid"]
      backend_provision_free(2) [OF spec(1) w1(2), of False cid] spec(2)
    by (cases "backend_provision False (RunStarted cid) ?spec (snd w1)") auto
  define w3 where "w3 = hc_during x (fst w1, k2)"
  have "instance_of uid (fst w3) = Some (new_row kr x)" "own_containers uid (snd w3) = own_containers uid k2"
    using sparesD [OF others(2), of "fst w1" k2] w1(1) by (simp_all add: w3_def)
  moreover have "provision_locked cfg kr uid deadline x s =
      (if fst (wait_for_ready cfg deadline x) then
         op_bind (in_db (mark_running (hc_done x) uid cid (container_endpoint (container_name uid)) None)) (\<lambda>_.
         op_bind h_commit (\<lambda>_. op_return \<lparr>ie_base_url = container_endpoint (container_name uid), ie_api_key = hc_key x\<rparr>))
           \<lparr>hs_db = fst w3, hs_committed = fst w3, hs_docker = snd w3\<rparr>
       else op_bind (cleanup_failed_provision uid ?ref x) (\<lambda>_. op_raise ready_timeout)
           \<lparr>hs_db = fst w3, hs_committed = fst w3, hs_docker = snd w3\<rparr>)"
    using daemon(2)
    by (simp add: provision_locked_def session_eval config create_provisioning_eval [OF fresh(1,2)] daemon(1) k2(1)
          d0_def [symmetric] w1_def [symmetric] w3_def [symmetric])
  ultimately show ?thesis using k2(2) by metis
qed

lemma provision_locked_aborts:
  assumes fresh: "instance_of uid (hs_db s) = None" "users (hs_db s) uid \<noteq> None" "own_containers uid (hs_docker s) = []"
    and config: "require_provision_config cfg = Inr ()"
    and daemon: "(\<exists>e. instance_config cfg = Inl e) \<or> hc_file_fault x \<or> (\<forall>cid. hc_run x \<noteq> RunStarted cid)"
    and others: "spares uid (hc_before x)"
  shows "\<exists>e t. provision_locked cfg kr uid deadline x s = (Inl e, t) \<and> instance_of uid (hs_committed t) = Some (new_row kr x) \<and>
    own_containers uid (hs_docker t) =
      (if (\<exists>e. instance_config cfg = Inl e) \<or> hc_file_fault x then [] else left_by_run uid (container_env int_str cfg (hc_key x)) (hc_run x))"
proof -
  define d0 where "d0 = hs_db s\<lparr>hermes_instances := (uid, new_row kr x) # hermes_instances (hs_db s)\<rparr>"
  define w1 where "w1 = hc_before x (d0, hs_docker s)"
  have w1: "instance_of uid (fst w1) = Some (new_row kr x)" "own_containers uid (snd w1) = []"
    using sparesD [OF others, of d0 "hs_docker s"] fresh(3) by (simp_all add: w1_def d0_def)
  note eval = provision_locked_def session_eval config create_provisioning_eval [OF fresh(1,2)] d0_def [symmetric] w1_def [symmetric]
  show ?thesis
  proof (cases "instance_config cfg")
    case (Inl e)
    then show ?thesis using w1 by (simp add: eval)
  next
    case (Inr yaml)
    let ?spec = "provision_spec_of cfg uid (hc_key x) yaml"
    have spec: "ps_name ?spec = container_name uid" "ps_env ?spec = container_env int_str cfg (hc_key x)"
      by (simp_all add: provision_spec_of_def)
    obtain e k where "backend_provision (hc_file_fault x) (hc_run x) ?spec (snd w1) = (Inl e, k)"
      "own_containers uid k = (if hc_file_fault x then [] else left_by_run uid (container_env int_str cfg (hc_key x)) (hc_run x))"
      using backend_provision_free(1,3) [OF spec(1) w1(2), of "hc_file_fault x" "hc_run x"] daemon Inr spec(2)
      by (cases "backend_provision (hc_file_fault x) (hc_run x) ?spec (snd w1)") auto
    then show ?thesis using w1 Inr by (simp add: eval)
  qed
qed

text \<open>
  Claim C21. The outcomes of a cold start, for a user with neither a row nor a container whom nobody else touches, once the
  lock is granted. With incomplete settings the call raises and changes nothing. When the settings text cannot be
  rendered, the files cannot be written or the daemon starts no container, it raises and the committed row stays
  behind as provisioning without a container identifier; a container stays only when the daemon created one and
  failed to start it, and that one does not run. When the container starts and a probe answers, the call returns its
  address and the key its environment carries, and it is registered under that address with that key sealed. When no
  probe answers, the call raises the timeout and leaves no row; it leaves no container either if the removal, whose
  failure is ignored, succeeds, and the running container if it fails.
\<close>

theorem cold_start_outcomes:
  fixes x :: hermes_call and uid :: uuid and cfg :: hermes_settings
  defines "container \<equiv> \<lambda>running. \<lparr>dc_name = container_name uid, dc_env = container_env int_str cfg (hc_key x), dc_running = running\<rparr>"
  assumes granted: "lock_granted deadline x"
    and fresh: "instance_of uid (hs_db s) = None" "users (hs_db s) uid \<noteq> None" "own_containers uid (hs_docker s) = []"
    and others: "spares uid (hc_before x)" "spares uid (hc_during x)"
  shows "\<exists>r t. ensure_running cfg kr uid deadline x s = (r, t) \<and>
    (case (require_provision_config cfg, instance_config cfg, hc_run x) of
       (Inl e, _, _) \<Rightarrow> r = Inl e \<and> t = s
     | (Inr _, Inr _, RunStarted cid) \<Rightarrow>
         if hc_file_fault x then
           (\<exists>e h. r = Inl e \<and> instance_of uid (hs_committed t) = Some h \<and> hi_status h = ''provisioning'' \<and> hi_container_id h = None) \<and>
           own_containers uid (hs_docker t) = []
         else if fst (wait_for_ready cfg deadline x) then
           r = Inr \<lparr>ie_base_url = container_endpoint (container_name uid), ie_api_key = hc_key x\<rparr> \<and>
           (\<exists>h. instance_of uid (hs_committed t) = Some h \<and> hi_status h = ''running'' \<and> hi_container_id h = Some cid \<and>
                hi_endpoint h = Some (container_endpoint (container_name uid)) \<and> hi_sealed h = kr_seal kr (hc_key x)) \<and>
           own_containers uid (hs_docker t) = [(cid, container True)]
         else
           r = Inl ready_timeout \<and> instance_of uid (hs_committed t) = None \<and>
           own_containers uid (hs_docker t) = (if hc_remove x \<and> cid \<noteq> [] then [] else [(cid, container True)])
     | (Inr _, rendered, run) \<Rightarrow>
         (\<exists>e h. r = Inl e \<and> instance_of uid (hs_committed t) = Some h \<and> hi_status h = ''provisioning'' \<and> hi_container_id h = None) \<and>
         own_containers uid (hs_docker t) =
           (case (rendered, run) of (Inr _, RunCreated cid) \<Rightarrow> if hc_file_fault x then [] else [(cid, container False)] | _ \<Rightarrow> []))"
proof (cases "require_provision_config cfg")
  case (Inl e)
  then show ?thesis
    using ensure_running_missing [OF granted fresh(1), of cfg kr] by (simp add: provision_locked_def bind_op_of)
next
  case config: (Inr u)
  then have ok: "require_provision_config cfg = Inr ()" by simp
  show ?thesis
  proof (cases "(\<exists>e. instance_config cfg = Inl e) \<or> hc_file_fault x \<or> (\<forall>cid. hc_run x \<noteq> RunStarted cid)")
    case True
    then obtain e t where t: "ensure_running cfg kr uid deadline x s = (Inl e, t)" "instance_of uid (hs_committed t) = Some (new_row kr x)"
      "own_containers uid (hs_docker t) =
        (if (\<exists>e. instance_config cfg = Inl e) \<or> hc_file_fault x then [] else left_by_run uid (container_env int_str cfg (hc_key x)) (hc_run x))"
      using provision_locked_aborts [OF fresh ok True others(1), of kr deadline]
        ensure_running_missing [OF granted fresh(1), of cfg kr] by metis
    have "hi_status (new_row kr x) = ''provisioning'' \<and> hi_container_id (new_row kr x) = None" by (simp add: new_row_def)
    then show ?thesis
      using True t ok
      by (cases "instance_config cfg"; cases "hc_run x") (simp_all add: left_by_run_def container_def)
  next
    case False
    then obtain yaml cid where run: "instance_config cfg = Inr yaml" "hc_run x = RunStarted cid" "\<not> hc_file_fault x"
      by (metis sum.exhaust_sel)
    obtain d k where d: "instance_of uid d = Some (new_row kr x)"
      "own_containers uid k = left_by_run uid (container_env int_str cfg (hc_key x)) (RunStarted cid)"
      "provision_locked cfg kr uid deadline x s =
      (if fst (wait_for_ready cfg deadline x) then
         op_bind (in_db (mark_running (hc_done x) uid cid (container_endpoint (container_name uid)) None)) (\<lambda>_.
         op_bind h_commit (\<lambda>_. op_return \<lparr>ie_base_url = container_endpoint (container_name uid), ie_api_key = hc_key x\<rparr>))
           \<lparr>hs_db = d, hs_committed = d, hs_docker = k\<rparr>
       else op_bind (cleanup_failed_provision uid
                \<lparr>cr_container_id = cid, cr_name = container_name uid, cr_endpoint = container_endpoint (container_name uid)\<rparr> x)
              (\<lambda>_. op_raise ready_timeout) \<lparr>hs_db = d, hs_committed = d, hs_docker = k\<rparr>)"
      using provision_locked_starts [OF fresh ok run others, of kr deadline] by blast
    then show ?thesis
      using ensure_running_missing [OF granted fresh(1), of cfg kr] run ok
      by (simp add: session_eval mark_running_def update_instance_eval [OF d(1)] cleanup_failed_provision_def best_effort_def
            op_catch_def in_docker_def backend_remove_def op_bind_def registry_delete_def h_commit_def in_db_def
            own_containers_remove new_row_def left_by_run_def container_def upstream_def)
  qed
qed

subsection \<open>Waking\<close>

definition woken_row :: "hermes_call \<Rightarrow> hermes_instance \<Rightarrow> hermes_instance" where
  "woken_row x h = h\<lparr>hi_status := ''provisioning'', hi_provisioning_started_at := Some (hc_now x), hi_last_active_at := hc_now x\<rparr>"

lemma bind_best_effort_stop:
  "op_bind (best_effort (in_docker (backend_stop ok ref))) f s =
     f () (s\<lparr>hs_docker := (if ok \<and> cr_container_id ref \<noteq> [] then set_container_running False (cr_container_id ref) (hs_docker s) else hs_docker s)\<rparr>)"
  by (simp add: op_bind_def best_effort_def op_catch_def in_docker_def backend_stop_def upstream_def)

lemma wake_timed_out_eval:
  "wake_timed_out uid ref x \<lparr>hs_db = d, hs_committed = d, hs_docker = k\<rparr> =
    (Inr (),
     case instance_of uid d of
       Some g \<Rightarrow>
         if hi_status g = ''provisioning'' \<and> hi_provisioning_started_at g = Some (hc_now x)
         then let d' = d\<lparr>hermes_instances := AList.update uid (g\<lparr>hi_status := ''stopped''\<rparr>) (hermes_instances d)\<rparr>
              in \<lparr>hs_db = d', hs_committed = d',
                  hs_docker = (if hc_stop x \<and> cr_container_id ref \<noteq> [] then set_container_running False (cr_container_id ref) k else k)\<rparr>
         else \<lparr>hs_db = d, hs_committed = d, hs_docker = k\<rparr>
     | None \<Rightarrow> \<lparr>hs_db = d, hs_committed = d, hs_docker = k\<rparr>)"
  by (auto simp: wake_timed_out_def bind_in_db mark_stopped_if_provisioning_def update_instance_def bind_best_effort_stop
        h_commit_def h_rollback_def Let_def split: option.split)

text \<open>
  A wake whose instance never answers ends in the timeout, whatever other transactions did
  meanwhile. When the row still belongs to this attempt it is put back to hibernation and its container is
  stopped; when another attempt has taken the row, neither the row nor any container is touched.
\<close>

theorem late_wake_spares_the_new_attempt:
  fixes x :: hermes_call and uid :: uuid and h :: hermes_instance
  defines "ref \<equiv> container_ref_from_row uid h"
  assumes granted: "lock_granted deadline x"
    and stopped: "instance_of uid (hs_db s) = Some h" "hi_status h = ''stopped''" "kr_open kr (hi_sealed h) = Inr key"
    and daemon: "hc_start x" "cr_container_id ref \<in> fst ` set (dk_containers (hs_docker s))"
    and silent: "\<not> fst (wait_for_ready cfg deadline x)"
    and meanwhile: "hc_during x (hs_db s\<lparr>hermes_instances := AList.update uid (woken_row x h) (hermes_instances (hs_db s))\<rparr>,
                       set_container_running True (cr_container_id ref) (hs_docker s)) = (d, k)"
  shows "ensure_running cfg kr uid deadline x s =
    (Inl ready_timeout,
     case instance_of uid d of
       Some g \<Rightarrow>
         if hi_status g = ''provisioning'' \<and> hi_provisioning_started_at g = Some (hc_now x)
         then let d' = d\<lparr>hermes_instances := AList.update uid (g\<lparr>hi_status := ''stopped''\<rparr>) (hermes_instances d)\<rparr>
              in \<lparr>hs_db = d', hs_committed = d',
                  hs_docker = (if hc_stop x \<and> cr_container_id ref \<noteq> [] then set_container_running False (cr_container_id ref) k else k)\<rparr>
         else \<lparr>hs_db = d, hs_committed = d, hs_docker = k\<rparr>
     | None \<Rightarrow> \<lparr>hs_db = d, hs_committed = d, hs_docker = k\<rparr>)"
proof -
  have "ensure_running cfg kr uid deadline x s = wake_locked cfg kr uid h deadline x s"
    using granted stopped(1,2) by (simp add: ensure_running_def lock_granted_def session_eval registry_get_def)
  also have "\<dots> = op_bind (wake_timed_out uid ref x) (\<lambda>_. op_raise ready_timeout) \<lparr>hs_db = d, hs_committed = d, hs_docker = k\<rparr>"
    using daemon silent stopped meanwhile
    by (simp add: wake_locked_def Let_def session_eval ref_def [symmetric] backend_start_def mark_provisioning_def
          update_instance_eval [OF stopped(1)] woken_row_def)
  finally show ?thesis by (simp add: op_bind_InrI [of "wake_timed_out uid ref x", OF wake_timed_out_eval])
qed

subsection \<open>The residue of a crash\<close>

definition call_spares :: "uuid \<Rightarrow> hermes_call \<Rightarrow> bool" where
  "call_spares uid x \<longleftrightarrow> spares uid (hc_before x) \<and> spares uid (hc_during x) \<and> (\<forall>n. spares uid (fst (hc_look x n)))"

definition residue_row :: "uuid \<Rightarrow> db \<Rightarrow> bool" where
  "residue_row uid d = (case instance_of uid d of None \<Rightarrow> True | Some h \<Rightarrow> hi_status h = ''provisioning'' \<and> hi_container_id h = None)"

definition crash_residue :: "uuid \<Rightarrow> hermes_session \<Rightarrow> bool" where
  "crash_residue uid s \<longleftrightarrow> hs_db s = hs_committed s \<and> own_containers uid (hs_docker s) \<noteq> [] \<and> residue_row uid (hs_committed s)"

lemma seen_at_spares:
  assumes "\<And>n. spares uid (fst (hc_look x n))"
  shows "instance_of uid (fst (seen_at x w n)) = instance_of uid (fst w) \<and> own_containers uid (snd (seen_at x w n)) = own_containers uid (snd w)"
proof (induction n)
  case 0
  show ?case using sparesD [OF assms [of 0], of "fst w" "snd w"] by simp
next
  case (Suc n)
  then show ?case using sparesD [OF assms [of "Suc n"], of "fst (seen_at x w n)" "snd (seen_at x w n)"] by simp
qed

lemma poll_until_answer: "fst (poll_until stop_at pause look k now) = Some r \<Longrightarrow> \<exists>n. fst (look n) = Some r"
  by (induction stop_at pause look k now rule: poll_until.induct)
    (subst (asm) (2) poll_until.simps, auto simp: Let_def split: if_splits)

lemma await_residue:
  assumes "\<And>n. spares uid (fst (hc_look x n))" "own_containers uid (hs_docker s) \<noteq> []" "residue_row uid (hs_committed s)"
  shows "\<exists>e t. await_concurrent_ready cfg kr uid deadline x s = (Inl e, t) \<and> crash_residue uid t"
proof -
  let ?w = "(hs_committed s, hs_docker s)"
  let ?look = "\<lambda>k. (look_at_row kr uid (fst (seen_at x ?w k)), snd (hc_look x k))"
  obtain answer looks where p: "poll_until (poll_deadline cfg deadline (hc_poll_clock x)) (hermes_provision_ready_interval_seconds cfg)
      ?look 0 (hc_poll_clock x) = (answer, looks)" by fastforce
  have "look_at_row kr uid (fst (seen_at x ?w n)) = Some r \<Longrightarrow> \<exists>e. r = Inl e" for n r
    using assms(3) seen_at_spares [OF assms(1), of ?w n]
    by (auto simp: look_at_row_def residue_row_def split: option.splits if_splits)
  moreover have "answer = Some r \<Longrightarrow> \<exists>n. look_at_row kr uid (fst (seen_at x ?w n)) = Some r" for r
    using poll_until_answer [of "poll_deadline cfg deadline (hc_poll_clock x)" "hermes_provision_ready_interval_seconds cfg" ?look 0 "hc_poll_clock x" r] p
    by simp
  ultimately have "answer = Some r \<Longrightarrow> \<exists>e. r = Inl e" for r by blast
  then have "\<exists>e. (case answer of None \<Rightarrow> Inl ready_timeout | Some r \<Rightarrow> r) = Inl e" by (cases answer) auto
  moreover have "crash_residue uid \<lparr>hs_db = fst (seen_at x ?w n), hs_committed = fst (seen_at x ?w n), hs_docker = snd (seen_at x ?w n)\<rparr>" for n
    using seen_at_spares [OF assms(1), of ?w n] assms(2,3) by (simp add: crash_residue_def residue_row_def)
  ultimately show ?thesis by (auto simp: await_concurrent_ready_def Let_def p case_prod_beta)
qed

lemma provision_residue:
  assumes x: "call_spares uid x" and own: "own_containers uid (hs_docker s) \<noteq> []"
    and row: "instance_of uid (hs_db s) = None" "residue_row uid (hs_committed s)"
  shows "\<exists>e t. provision_locked cfg kr uid deadline x s = (Inl e, t) \<and> own_containers uid (hs_docker t) \<noteq> [] \<and> residue_row uid (hs_committed t)"
proof (cases "users (hs_db s) uid = None \<or> require_provision_config cfg \<noteq> Inr ()")
  case True
  then show ?thesis using own row
    by (auto simp: provision_locked_def session_eval create_provisioning_def split: sum.split)
next
  case False
  define d0 where "d0 = hs_db s\<lparr>hermes_instances := (uid, new_row kr x) # hermes_instances (hs_db s)\<rparr>"
  define w1 where "w1 = hc_before x (d0, hs_docker s)"
  have w1: "instance_of uid (fst w1) = Some (new_row kr x)" "own_containers uid (snd w1) \<noteq> []"
    using sparesD [of uid "hc_before x" d0 "hs_docker s"] x own by (simp_all add: w1_def d0_def call_spares_def)
  have r: "residue_row uid (fst w1)" using w1(1) by (simp add: residue_row_def new_row_def)
  have "\<exists>e k'. backend_provision (hc_file_fault x) (hc_run x) (provision_spec_of cfg uid (hc_key x) yaml) (snd w1) = (Inl e, k') \<and>
          own_containers uid k' \<noteq> []" for yaml
    using backend_provision_taken [of "provision_spec_of cfg uid (hc_key x) yaml" uid "snd w1"] w1(2)
    by (fastforce simp: provision_spec_of_def)
  then obtain e k' where "\<And>yaml. backend_provision (hc_file_fault x) (hc_run x) (provision_spec_of cfg uid (hc_key x) yaml) (snd w1) = (Inl (e yaml), k' yaml)"
    "\<And>yaml. own_containers uid (k' yaml) \<noteq> []" by metis
  then show ?thesis using False w1 r row(1)
    by (cases "instance_config cfg")
       (auto simp: provision_locked_def session_eval create_provisioning_eval d0_def [symmetric] w1_def [symmetric])
qed

lemma ensure_running_residue:
  assumes "crash_residue uid s" "call_spares uid x"
  shows "\<exists>e t. request (ensure_running cfg kr uid deadline x) s = (Inl e, t) \<and> crash_residue uid t"
proof -
  have s: "hs_db s = hs_committed s" "own_containers uid (hs_docker s) \<noteq> []" "residue_row uid (hs_committed s)"
    using assms(1) by (simp_all add: crash_residue_def)
  have "\<exists>e t. ensure_running cfg kr uid deadline x s = (Inl e, t) \<and> own_containers uid (hs_docker t) \<noteq> [] \<and> residue_row uid (hs_committed t)"
  proof (cases "lock_granted deadline x")
    case False
    then show ?thesis using s by (auto simp: ensure_running_def lock_granted_def session_eval)
  next
    case granted: True
    show ?thesis
    proof (cases "instance_of uid (hs_db s)")
      case None
      then show ?thesis using ensure_running_missing [OF granted None] provision_residue [OF assms(2) s(2) None s(3)] by simp
    next
      case (Some h)
      then have h: "hi_status h = ''provisioning''" "hi_container_id h = None" using s by (auto simp: residue_row_def)
      let ?s' = "s\<lparr>hs_db := hs_db s\<lparr>hermes_instances := AList.delete uid (hermes_instances (hs_db s))\<rparr>\<rparr>"
      have "\<exists>e t. provision_locked cfg kr uid deadline x ?s' = (Inl e, t) \<and> own_containers uid (hs_docker t) \<noteq> [] \<and> residue_row uid (hs_committed t)"
        using provision_residue [of uid x ?s'] assms(2) s by simp
      moreover have "\<exists>e t. await_concurrent_ready cfg kr uid deadline x (s\<lparr>hs_db := hs_committed s\<rparr>) = (Inl e, t) \<and> crash_residue uid t"
        using await_residue [of uid x "s\<lparr>hs_db := hs_committed s\<rparr>"] assms(2) s by (simp add: call_spares_def)
      ultimately show ?thesis using granted Some h s(1)
        by (auto simp: ensure_running_def lock_granted_def session_eval registry_get_def remove_instance_def op_bind_assoc
              container_ref_from_row_def registry_delete_def crash_residue_def)
    qed
  qed
  then show ?thesis by (auto simp: request_def crash_residue_def)
qed

text \<open>
  Claim C22. A crash after the container was started and before it was registered leaves a row without a
  container identifier beside a container that holds the name, and so does a container that was created and failed to start. No later call heals it: the replay of a stale
  row removes containers by identifier only, and the daemon refuses the taken name, so every call of every
  sequence raises, as long as nobody removes the container by hand.
\<close>

theorem crash_residue_is_permanent:
  assumes "crash_residue uid s" "list_all (\<lambda>(deadline, x). call_spares uid x) calls" "n < length calls"
  shows "\<exists>e. fst (request (ensure_running cfg kr uid (fst (calls ! n)) (snd (calls ! n)))
             (fold (\<lambda>(deadline, x) s. snd (request (ensure_running cfg kr uid deadline x) s)) (take n calls) s)) = Inl e"
proof -
  have keeps: "crash_residue uid (fold (\<lambda>(deadline, x) s. snd (request (ensure_running cfg kr uid deadline x) s)) cs s)"
    if "list_all (\<lambda>(deadline, x). call_spares uid x) cs" for cs
    using assms(1) that
  proof (induction cs arbitrary: s)
    case (Cons c cs)
    obtain dl x where c: "c = (dl, x)" by fastforce
    then obtain e t where "request (ensure_running cfg kr uid dl x) s = (Inl e, t)" "crash_residue uid t"
      using ensure_running_residue [of uid s x] Cons.prems by fastforce
    then show ?case using Cons c by simp
  qed simp
  have "crash_residue uid (fold (\<lambda>(deadline, x) s. snd (request (ensure_running cfg kr uid deadline x) s)) (take n calls) s)"
    by (rule keeps) (use assms(2) in \<open>auto simp: list_all_iff dest: in_set_takeD\<close>)
  moreover have "call_spares uid (snd (calls ! n))" using assms(2,3) by (auto simp: list_all_length case_prod_beta)
  ultimately show ?thesis using ensure_running_residue [of uid _ "snd (calls ! n)" cfg kr "fst (calls ! n)"] by (metis fst_conv)
qed

subsection \<open>Concrete calls\<close>

definition demo_hermes :: hermes_settings where
  "demo_hermes =
     \<lparr>hermes_image = ''hermes'', hermes_llm_provider = ''anthropic'', hermes_llm_api_key = ''k'', hermes_model = ''m'',
      hermes_llm_base_url = [], hermes_default_toolset_raw = [], hermes_volume_root = ''/v'', hermes_uid = 1, hermes_gid = 1,
      hermes_provisioning_stale_seconds = 300, hermes_provision_ready_timeout_seconds = 90,
      hermes_provision_ready_interval_seconds = 2, hermes_idle_timeout_seconds = 1800, agent_run_snapshot_ttl_days = 30,
      agent_run_consumer_enabled = True\<rparr>"

definition demo_keyring :: keyring where
  "demo_keyring = \<lparr>kr_seal = (\<lambda>k. (k, [], [])), kr_open = (\<lambda>c. Inr (fst c))\<rparr>"

definition demo_call :: "bool \<Rightarrow> hermes_call" where
  "demo_call up =
     \<lparr>hc_clock = 0, hc_poll_clock = 1, hc_now = 10, hc_done = 20, hc_db_fault = False, hc_lock_wait = 0, hc_key = ''secret'',
      hc_file_fault = False, hc_run = RunStarted ''c1'', hc_start = True, hc_stop = True, hc_remove = True,
      hc_probe = (\<lambda>_. (up, 0)), hc_before = (\<lambda>w. w), hc_during = (\<lambda>w. w), hc_look = (\<lambda>_. ((\<lambda>w. w), 0))\<rparr>"

definition demo_session :: "(uuid \<times> hermes_instance) list \<Rightarrow> (string \<times> dcontainer) list \<Rightarrow> hermes_session" where
  "demo_session rows cs =
     (let d = empty_db\<lparr>users := [1 \<mapsto> \<lparr>trial_used = False\<rparr>], hermes_instances := rows\<rparr>
      in \<lparr>hs_db = d, hs_committed = d, hs_docker = \<lparr>dk_containers = cs, dk_volumes = Map.empty\<rparr>\<rparr>)"

definition demo_stopped :: hermes_instance where
  "demo_stopped =
     \<lparr>hi_container_id = Some ''c1'', hi_endpoint = Some ''http://h'', hi_sealed = (''secret'', [], []), hi_status = ''stopped'',
      hi_port = None, hi_last_active_at = 1, hi_provisioning_started_at = Some 1, hi_created_at = 1\<rparr>"

definition demo_container :: "uuid \<Rightarrow> bool \<Rightarrow> string \<times> dcontainer" where
  "demo_container uid b = (''c1'', \<lparr>dc_name = container_name uid, dc_env = [], dc_running = b\<rparr>)"

lemma demo_config:
  "require_provision_config demo_hermes = Inr ()"
  "instance_config demo_hermes = Inr (join_with [CHR 0x0A] (config_lines safe_toolset ''anthropic'' ''m'' []))"
  by code_simp+

lemma demo_ready: "fst (wait_for_ready demo_hermes (Some 1) (demo_call up)) = up"
  by (simp add: wait_for_ready_def poll_deadline_def poll_until.simps demo_call_def demo_hermes_def)

lemma demo_granted: "lock_granted (Some 1) (demo_call up)"
  by (simp add: lock_granted_def lock_expires_def lock_timeout_ms_def demo_call_def)

lemma demo_call_simps:
  "hc_run (demo_call up) = RunStarted ''c1''" "\<not> hc_file_fault (demo_call up)" "hc_remove (demo_call up)" "hc_stop (demo_call up)"
  "hc_start (demo_call up)" "hc_key (demo_call up) = ''secret''" "hc_now (demo_call up) = 10"
  "hc_before (demo_call up) = (\<lambda>w. w)" "hc_during (demo_call up) = (\<lambda>w. w)" "hc_look (demo_call up) = (\<lambda>_. ((\<lambda>w. w), 0))"
  by (simp_all add: demo_call_def)

lemma demo_session_simps:
  "instance_of u (hs_db (demo_session rows cs)) = map_of rows u" "instance_of u (hs_committed (demo_session rows cs)) = map_of rows u"
  "users (hs_committed (demo_session rows cs)) (Suc 0) = Some \<lparr>trial_used = False\<rparr>"
  "hs_db (demo_session rows cs) = hs_committed (demo_session rows cs)"
  "dk_containers (hs_docker (demo_session rows cs)) = cs"
  "own_containers u (hs_docker (demo_session rows cs)) = filter (\<lambda>(_, c). dc_name c = container_name u) cs"
  by (simp_all add: demo_session_def Let_def instance_of_def own_containers_def)

theorem cold_start_outcomes_witness:
  "(\<exists>t. ensure_running demo_hermes demo_keyring 1 (Some 1) (demo_call True) (demo_session [] []) =
     (Inr \<lparr>ie_base_url = container_endpoint (container_name 1), ie_api_key = ''secret''\<rparr>, t) \<and>
     (\<exists>h. instance_of 1 (hs_committed t) = Some h \<and> hi_status h = ''running'' \<and> hi_container_id h = Some ''c1'')) \<and>
   (\<exists>e t. ensure_running demo_hermes demo_keyring 1 (Some 1) ((demo_call True)\<lparr>hc_run := RunCreated ''c1''\<rparr>) (demo_session [] []) =
     (Inl e, t) \<and> map fst (own_containers 1 (hs_docker t)) = [''c1''])"
proof (intro conjI)
  show "\<exists>t. ensure_running demo_hermes demo_keyring 1 (Some 1) (demo_call True) (demo_session [] []) =
     (Inr \<lparr>ie_base_url = container_endpoint (container_name 1), ie_api_key = ''secret''\<rparr>, t) \<and>
     (\<exists>h. instance_of 1 (hs_committed t) = Some h \<and> hi_status h = ''running'' \<and> hi_container_id h = Some ''c1'')"
    using cold_start_outcomes [OF demo_granted [of True], of 1 "demo_session [] []" demo_hermes demo_keyring]
    by (auto simp: demo_session_simps demo_call_simps demo_ready demo_config)
  have "lock_granted (Some 1) ((demo_call True)\<lparr>hc_run := RunCreated ''c1''\<rparr>)" using demo_granted [of True] by (simp add: lock_granted_def)
  from cold_start_outcomes [OF this, of 1 "demo_session [] []" demo_hermes demo_keyring]
  show "\<exists>e t. ensure_running demo_hermes demo_keyring 1 (Some 1) ((demo_call True)\<lparr>hc_run := RunCreated ''c1''\<rparr>) (demo_session [] []) =
     (Inl e, t) \<and> map fst (own_containers 1 (hs_docker t)) = [''c1'']"
    by (auto simp: demo_session_simps demo_call_simps demo_config)
qed

theorem late_wake_spares_the_new_attempt_witness:
  "fst (ensure_running demo_hermes demo_keyring 1 (Some 1) (demo_call False) (demo_session [(1, demo_stopped)] [demo_container 1 False])) =
   Inl ready_timeout"
  using late_wake_spares_the_new_attempt [OF demo_granted [of False], of 1 "demo_session [(1, demo_stopped)] [demo_container 1 False]"
      demo_stopped demo_keyring "''secret''" demo_hermes]
  by (simp add: demo_session_simps demo_call_simps demo_ready demo_stopped_def demo_keyring_def demo_container_def container_ref_from_row_def)

theorem crash_residue_is_permanent_witness:
  "\<exists>e. fst (request (ensure_running demo_hermes demo_keyring 1 None (demo_call True)) (demo_session [] [demo_container 1 True])) = Inl e"
  using crash_residue_is_permanent [of 1 "demo_session [] [demo_container 1 True]" "[(None, demo_call True)]" 0 demo_hermes demo_keyring]
  by (simp add: crash_residue_def residue_row_def demo_session_simps demo_container_def call_spares_def demo_call_simps)

subsection \<open>Hibernation\<close>

lemma stop_batch_rows:
  assumes "stop_batch ok es s = (r, t)"
  shows "instance_of u (hs_db t) =
    (if \<exists>h. (u, h) \<in> set es \<and> ok u \<and> cr_container_id (container_ref_from_row u h) \<noteq> []
     then map_option (\<lambda>h. h\<lparr>hi_status := ''stopped''\<rparr>) (instance_of u (hs_db s)) else instance_of u (hs_db s))"
  using assms
proof (induction es arbitrary: s r)
  case (Cons e es)
  obtain v h where e: "e = (v, h)" by fastforce
  let ?go = "ok v \<and> cr_container_id (container_ref_from_row v h) \<noteq> []"
  let ?k = "if ?go then set_container_running False (cr_container_id (container_ref_from_row v h)) (hs_docker s) else hs_docker s"
  define s1 where "s1 = s\<lparr>hs_docker := ?k\<rparr>"
  have one: "stop_one ok e s = (Inr ?go, s1)"
    by (simp add: e stop_one_def op_catch_def in_docker_def backend_stop_def op_bind_def upstream_def s1_def)
  define s2 where "s2 = (if ?go then s1\<lparr>hs_db := snd (registry_mark_stopped v (hs_db s1))\<rparr> else s1)"
  have "stop_batch ok (e # es) s =
      op_bind (if ?go then op_bind (in_db (registry_mark_stopped v)) (\<lambda>_. op_return ()) else op_return ()) (\<lambda>_.
      op_bind (stop_batch ok es) (\<lambda>n. op_return (if ?go then Suc n else n))) s1"
    by (simp only: stop_batch.simps op_bind_InrI [of "stop_one ok e", OF one]) (simp add: e)
  then have two: "stop_batch ok (e # es) s = op_bind (stop_batch ok es) (\<lambda>n. op_return (if ?go then Suc n else n)) s2"
    by (simp add: op_bind_assoc bind_in_db registry_mark_stopped_def update_instance_def s2_def split: option.splits)
  obtain r' where r': "stop_batch ok es s2 = (r', t)"
    using Cons.prems two by (auto simp: op_bind_def split: prod.splits sum.splits)
  have "instance_of u (hs_db s2) = (if u = v \<and> ?go then map_option (\<lambda>h. h\<lparr>hi_status := ''stopped''\<rparr>) (instance_of u (hs_db s)) else instance_of u (hs_db s))"
    by (auto simp: s2_def s1_def registry_mark_stopped_def update_instance_def split: option.splits)
  then show ?case using Cons.IH [OF r'] by (auto simp: e option.map_comp comp_def)
qed simp

lemma stop_idle_spares_the_active:
  assumes "stop_idle now threshold ok s = (r, t)" "instance_of u (hs_db s) = Some h"
    and "distinct (map fst (hermes_instances (hs_db s)))"
    and "hi_status h \<noteq> ''running'' \<or> now - threshold * 1000000 \<le> hi_last_active_at h"
  shows "instance_of u (hs_db t) = Some h"
proof -
  define es where "es = take REAPER_BATCH_LIMIT (sort_key (\<lambda>(_, h). hi_last_active_at h)
       (filter (\<lambda>(_, h). hi_status h = ''running'' \<and> hi_last_active_at h < now - threshold * 1000000) (hermes_instances (hs_db s))))"
  have "(u, g) \<in> set es \<Longrightarrow> False" for g
    using assms(2,4) map_of_is_SomeI [OF assms(3), of u g]
    by (fastforce simp: es_def instance_of_def dest!: in_set_takeD)
  moreover have "stop_batch ok es s = (r, t)"
    using assms(1) by (simp add: stop_idle_def bind_in_db list_idle_running_def es_def [symmetric])
  ultimately show ?thesis using stop_batch_rows [of ok es s r t u] assms(2) by auto
qed

end
