(* ===== verification/HermesConfigClaims.thy ===== *)
theory HermesConfigClaims
  imports HermesConfig
begin

text \<open>
  The rendered \<^verbatim>\<open>config.yaml\<close>: its lines are the intended ones, so no setting can add a line or
  leave its quotes, the file is recognised as valid on reuse, and the key of the provider is not in it.
\<close>

subsection \<open>Lines\<close>

lemma split_char_plain: "sep \<notin> set s \<Longrightarrow> split_char sep s = [s]"
  by (induction s) auto

lemma split_char_append: "sep \<notin> set l \<Longrightarrow> split_char sep (l @ sep # s) = l # split_char sep s"
  by (induction l) auto

lemma split_join: "ls \<noteq> [] \<Longrightarrow> \<forall>l \<in> set ls. sep \<notin> set l \<Longrightarrow> split_char sep (join_with [sep] ls) = ls"
  by (induction "[sep]" ls rule: join_with.induct) (auto simp: split_char_plain split_char_append)

lemma join_with_sublist: "l \<in> set ls \<Longrightarrow> sublist l (join_with sep ls)"
proof (induction sep ls rule: join_with.induct)
  case (3 sep l' m ls)
  then show ?case
    by (metis join_with.simps(3) set_ConsD sublist_append_leftI sublist_append_rightI sublist_order.order.trans)
qed auto

lemma strip_last: "strip s \<noteq> [] \<Longrightarrow> \<not> is_space (last (strip s))"
proof -
  assume ne: "strip s \<noteq> []"
  then have "last (strip s) = hd (dropWhile is_space (rev (dropWhile is_space s)))"
    by (simp add: strip_def strip_chars_def last_rev)
  moreover have "dropWhile is_space (rev (dropWhile is_space s)) \<noteq> []" using ne by (simp add: strip_def strip_chars_def)
  ultimately show ?thesis using hd_dropWhile by metis
qed

lemma strip_idem [simp]: "strip (strip s) = strip s"
proof (cases "strip s = []")
  case False
  have "\<not> is_space (hd (strip s))"
  proof -
    define u where "u = dropWhile is_space s"
    have "u \<noteq> []"
    proof
      assume "u = []"
      then have "strip s = []" unfolding strip_def strip_chars_def u_def by (simp only: rev.simps dropWhile.simps)
      then show False using False by simp
    qed
    moreover have "strip s = rev (dropWhile is_space (rev u))" by (simp add: strip_def strip_chars_def u_def)
    moreover obtain w where "u = rev (dropWhile is_space (rev u)) @ w"
      by (metis rev_append rev_rev_ident takeWhile_dropWhile_id)
    ultimately have "hd (strip s) = hd u" using False by (metis hd_append2)
    then show ?thesis using \<open>u \<noteq> []\<close> hd_dropWhile unfolding u_def by metis
  qed
  moreover have "dropWhile P w = w" if "w \<noteq> []" "\<not> P (hd w)" for P and w :: string
    using that by (cases w) auto
  ultimately show ?thesis using False strip_last [OF False]
    by (simp add: strip_def [of "strip s"] strip_chars_def hd_rev)
next
  case True
  moreover have "strip [] = []" by (simp add: strip_def strip_chars_def)
  ultimately show ?thesis by simp
qed

lemma re_full_strip: "re_full P (strip s) \<Longrightarrow> list_all P (strip s)"
proof -
  have "last (strip s) = CHR 0x0A \<Longrightarrow> strip s = []"
    using strip_last [of s] by (auto simp: is_space_def)
  then show "re_full P (strip s) \<Longrightarrow> list_all P (strip s)" by (auto simp: re_full_def)
qed

lemma re_full_strip_iff: "re_full P (strip s) \<longleftrightarrow> strip s \<noteq> [] \<and> list_all P (strip s)"
  using re_full_strip [of P s] by (auto simp: re_full_def)

lemma plain_chars:
  assumes "toolset_char c \<or> model_char c \<or> url_char c"
  shows "c \<noteq> CHR 0x0A" "c \<noteq> CHR 0x22"
  using assms by (auto simp: toolset_char_def model_char_def url_char_def alnum_def)

subsection \<open>The rendered file\<close>

lemma provider_chars: "p \<in> set HERMES_PROVIDER_ALLOWLIST \<Longrightarrow> list_all model_char p"
proof -
  have "list_all (list_all model_char) HERMES_PROVIDER_ALLOWLIST" by code_simp
  then show "p \<in> set HERMES_PROVIDER_ALLOWLIST \<Longrightarrow> list_all model_char p" by (simp add: list_all_iff)
qed

lemma remdups_snoc: "remdups (xs @ [x]) = remdups (filter (\<lambda>y. y \<noteq> x) xs) @ [x]"
  by (induction xs) auto

lemma keep_first_remdups: "keep_first seen xs = seen @ rev (remdups (rev (filter (\<lambda>x. x \<notin> set seen) xs)))"
proof (induction seen xs rule: keep_first.induct)
  case (2 seen x xs)
  have "filter (\<lambda>y. y \<noteq> x \<and> y \<notin> set seen) xs = filter (\<lambda>y. y \<noteq> x) (filter (\<lambda>y. y \<notin> set seen) xs)" by (simp add: conj_commute)
  then show ?case using 2 by (simp add: remdups_snoc rev_filter [symmetric] conj_commute)
qed simp

lemma keep_first_set: "set (keep_first seen xs) = set seen \<union> set xs"
  by (induction seen xs rule: keep_first.induct) auto

lemma default_toolset_stripped: "t \<in> set (hermes_default_toolset cfg) \<Longrightarrow> strip t = t"
proof -
  have "list_all (\<lambda>t. strip t = t) safe_toolset" by code_simp
  then show "t \<in> set (hermes_default_toolset cfg) \<Longrightarrow> strip t = t"
    by (auto simp: hermes_default_toolset_def Let_def keep_first_set list_all_iff split: if_splits)
qed

text \<open>
  The tools an operator asks for: the well-formed names of the setting, each once, in the order they first occur.
\<close>

definition asked_tools :: "hermes_settings \<Rightarrow> string list" where
  "asked_tools cfg =
     rev (remdups (rev (filter (\<lambda>e. e \<noteq> [] \<and> list_all toolset_char e) (map strip (split_char (CHR '','') (hermes_default_toolset_raw cfg))))))"

lemma asked_tools_render:
  "(let named = filter (re_full toolset_char) (hermes_default_toolset cfg) in if named = [] then safe_toolset else named) =
   (if asked_tools cfg = [] then safe_toolset else asked_tools cfg)"
proof -
  define es where "es = map strip (split_char (CHR '','') (hermes_default_toolset_raw cfg))"
  have st: "e \<in> set es \<Longrightarrow> strip e = e" for e by (auto simp: es_def)
  have f: "filter (\<lambda>e. e \<noteq> [] \<and> list_all toolset_char e) es = filter (re_full toolset_char) (filter (\<lambda>e. e \<noteq> []) es)"
    unfolding filter_filter using re_full_strip_iff [of toolset_char] st by (intro filter_cong) metis+
  have kf: "keep_first [] (filter (\<lambda>e. e \<noteq> []) es) = rev (remdups (rev (filter (\<lambda>e. e \<noteq> []) es)))"
    by (simp add: keep_first_remdups)
  have a: "asked_tools cfg = filter (re_full toolset_char) (keep_first [] (filter (\<lambda>e. e \<noteq> []) es))"
    by (simp add: asked_tools_def es_def [symmetric] f kf del: filter_filter)
       (simp only: rev_filter remdups_filter)
  have safe: "filter (re_full toolset_char) safe_toolset = safe_toolset" by code_simp
  show ?thesis
    by (simp add: a hermes_default_toolset_def es_def [symmetric] Let_def safe)
qed

lemma config_lines_plain:
  assumes "\<forall>t \<in> set safe. list_all toolset_char t" "list_all model_char provider" "list_all model_char model" "list_all url_char base_url"
  shows "\<forall>l \<in> set (config_lines safe provider model base_url). CHR 0x0A \<notin> set l"
proof -
  have "CHR 0x0A \<notin> set s" if "list_all toolset_char s \<or> list_all model_char s \<or> list_all url_char s" for s
    using that plain_chars(1) by (auto simp: list_all_iff)
  then show ?thesis using assms
    by (auto simp: config_lines_def quoted_def HERMES_INSTANCE_LLM_KEY_ENV_def)
qed

definition config_ok :: "string list \<Rightarrow> string \<Rightarrow> string \<Rightarrow> string \<Rightarrow> bool" where
  "config_ok safe provider model base_url \<longleftrightarrow>
     safe \<noteq> [] \<and> list_all (list_all toolset_char) safe \<and> provider \<in> set HERMES_PROVIDER_ALLOWLIST \<and>
     model \<noteq> [] \<and> list_all model_char model \<and> list_all url_char base_url"

lemma base_url_chars: "base_url_matches (strip u) \<Longrightarrow> list_all url_char (strip u)"
proof -
  assume m: "base_url_matches (strip u)"
  have "list_all url_char (drop n (strip u))" if "re_full url_char (drop n (strip u))" for n
  proof -
    have "drop n (strip u) \<noteq> [] \<Longrightarrow> last (drop n (strip u)) = last (strip u)" by (simp add: last_drop)
    moreover have "strip u \<noteq> [] \<Longrightarrow> last (strip u) \<noteq> CHR 0x0A" using strip_last [of u] by (auto simp: is_space_def)
    ultimately show ?thesis using that by (cases "strip u = []") (auto simp: re_full_def)
  qed
  moreover have "list_all url_char ''http://''" "list_all url_char ''https://''" by code_simp+
  moreover have "prefix p s \<Longrightarrow> list_all P p \<Longrightarrow> list_all P (drop (length p) s) \<Longrightarrow> list_all P s" for P and p s :: string
    by (auto simp: prefix_def)
  from this [of "''http://''" "strip u" url_char] this [of "''https://''" "strip u" url_char]
  show ?thesis using m calculation(1) [of 7] calculation(1) [of 8] calculation(2,3)
    by (simp add: base_url_matches_def eval_nat_numeral) blast
qed

lemma rendered_lines:
  assumes "instance_config cfg = Inr c"
  obtains safe where
    "safe = (if asked_tools cfg = [] then safe_toolset else asked_tools cfg)"
    "config_ok safe (strip (hermes_llm_provider cfg)) (strip (hermes_model cfg)) (strip (hermes_llm_base_url cfg))"
    "c = join_with [CHR 0x0A] (config_lines safe (strip (hermes_llm_provider cfg)) (strip (hermes_model cfg)) (strip (hermes_llm_base_url cfg)))"
    "\<And>k. strip k \<noteq> [] \<Longrightarrow> instance_config (cfg\<lparr>hermes_llm_api_key := k\<rparr>) = Inr c"
proof -
  let ?p = "strip (hermes_llm_provider cfg)" and ?m = "strip (hermes_model cfg)" and ?u = "strip (hermes_llm_base_url cfg)"
  define named where "named = filter (re_full toolset_char) (hermes_default_toolset cfg)"
  define safe where "safe = (if named = [] then safe_toolset else named)"
  have st: "hermes_default_toolset (cfg\<lparr>hermes_llm_api_key := k\<rparr>) = hermes_default_toolset cfg" for k
    by (simp add: hermes_default_toolset_def)
  have g: "?p \<in> set HERMES_PROVIDER_ALLOWLIST" "?m \<noteq> []" "re_full model_char ?m" "?u = [] \<or> base_url_matches ?u"
    "c = join_with [CHR 0x0A] (config_lines safe ?p ?m ?u)"
    using assms by (auto simp: instance_config_def render_instance_config_def Let_def named_def safe_def split: if_splits)
  have "list_all toolset_char t" if "t \<in> set named" for t
    using that default_toolset_stripped [of t cfg] re_full_strip [of toolset_char t] by (simp add: named_def)
  moreover have "list_all (list_all toolset_char) safe_toolset" "safe_toolset \<noteq> []" by code_simp+
  ultimately have "config_ok safe ?p ?m ?u"
    using g re_full_strip [OF g(3)] base_url_chars [of "hermes_llm_base_url cfg"]
    by (auto simp: config_ok_def safe_def list_all_iff)
  moreover have "instance_config (cfg\<lparr>hermes_llm_api_key := k\<rparr>) = Inr c" if "strip k \<noteq> []" for k
    using g that by (simp add: instance_config_def render_instance_config_def Let_def st named_def [symmetric] safe_def [symmetric])
  moreover have "safe = (if asked_tools cfg = [] then safe_toolset else asked_tools cfg)"
    using asked_tools_render [of cfg] unfolding safe_def named_def Let_def .
  ultimately show thesis using that g(5) by blast
qed

lemma rendered_valid: "existing_config_valid (Some (join_with [CHR 0x0A] (config_lines safe p m u)))"
proof -
  let ?c = "join_with [CHR 0x0A] (config_lines safe p m u)"
  have l: "l \<in> set (config_lines safe p m u) \<Longrightarrow> sublist w l \<Longrightarrow> contains_sub w ?c" for l w
    using join_with_sublist [of l "config_lines safe p m u" "[CHR 0x0A]"]
    by (metis contains_sub_iff_sublist sublist_order.order.trans)
  have ws: "contains_sub ''platform_toolsets:'' ?c" "contains_sub ''api_server:'' ?c" "contains_sub ''model:'' ?c"
    by (rule l [of "''platform_toolsets:''"], simp add: config_lines_def, simp)
       (rule l [of "''  api_server:''"], simp add: config_lines_def, simp add: contains_sub_iff_sublist [symmetric],
        rule l [of "''model:''"], simp add: config_lines_def, simp)
  have "contains_sub ''default:'' ?c"
    by (rule l [of "''  default: '' @ quoted (p @ ''/'' @ m)"], simp add: config_lines_def, simp add: contains_sub_iff_sublist [symmetric])
  moreover have "contains_sub ''provider:'' ?c"
    by (rule l [of "''  provider: '' @ quoted p"], simp add: config_lines_def, simp add: contains_sub_iff_sublist [symmetric])
  moreover have "strip ?c \<noteq> []"
  proof -
    obtain r where "?c = CHR ''#'' # r" by (simp add: config_lines_def)
    moreover have "\<not> is_space (CHR ''#'')" by code_simp
    ultimately show ?thesis
      by (auto simp: strip_def strip_chars_def dropWhile_eq_Nil_conv)
  qed
  ultimately show ?thesis using ws by (simp add: existing_config_valid_def)
qed

text \<open>
  Claim C23. A rendered configuration has exactly the lines written out below, with the settings in their places: the
  tools of \<open>HERMES_DEFAULT_TOOLSET\<close> that are well-formed names, each once and in order, or the five safe ones
  when there are none; approvals denied; the stripped provider and model; the stripped base URL when there is one; and
  for the custom provider a reference to an environment variable in the place of its key. The provider is one of
  the allowed ones, and no value holds a line break or a quote, so none can end its line or its quotes and add a tool,
  an approval mode or a model section. The file is recognised as valid when the volume is reused, and is the same for
  every key of the provider that is not blank.
\<close>

theorem config_admits_no_injection:
  assumes "instance_config cfg = Inr c"
  shows "let entries = map strip (split_char (CHR '','') (hermes_default_toolset_raw cfg));
             named = rev (remdups (rev (filter (\<lambda>e. e \<noteq> [] \<and> list_all toolset_char e) entries)));
             tools = (if named = [] then [''web'', ''file'', ''vision'', ''skills'', ''todo''] else named);
             provider = strip (hermes_llm_provider cfg); model = strip (hermes_model cfg); base_url = strip (hermes_llm_base_url cfg);
             q = [CHR 0x22]
         in split_char (CHR 0x0A) c =
              [''# Generated by control plane (ADR-046/ADR-055). Restricts toolset + pins the LLM model.'',
               ''platform_toolsets:'', ''  api_server:''] @
              map (\<lambda>t. ''    - '' @ t) tools @
              [''approvals:'', ''  mode: deny'', ''model:'',
               ''  default: '' @ q @ provider @ ''/'' @ model @ q, ''  provider: '' @ q @ provider @ q] @
              (if base_url = [] then [] else [''  base_url: '' @ q @ base_url @ q]) @
              (if provider = ''custom'' then [''  api_key: '' @ q @ ''${HERMES_INSTANCE_LLM_KEY}'' @ q] else []) @ [[]] \<and>
            provider \<in> set HERMES_PROVIDER_ALLOWLIST \<and> model \<noteq> [] \<and>
            (\<forall>v \<in> set (provider # model # base_url # tools). CHR 0x0A \<notin> set v \<and> CHR 0x22 \<notin> set v) \<and>
            existing_config_valid (Some c) \<and>
            (\<forall>k. strip k \<noteq> [] \<longrightarrow> instance_config (cfg\<lparr>hermes_llm_api_key := k\<rparr>) = Inr c)"
proof -
  let ?p = "strip (hermes_llm_provider cfg)" and ?m = "strip (hermes_model cfg)" and ?u = "strip (hermes_llm_base_url cfg)"
  obtain safe where safe: "safe = (if asked_tools cfg = [] then safe_toolset else asked_tools cfg)"
    "config_ok safe ?p ?m ?u" "c = join_with [CHR 0x0A] (config_lines safe ?p ?m ?u)"
    "\<And>k. strip k \<noteq> [] \<Longrightarrow> instance_config (cfg\<lparr>hermes_llm_api_key := k\<rparr>) = Inr c"
    using rendered_lines [OF assms] by metis
  have chars: "list_all model_char ?p" "list_all model_char ?m" "list_all url_char ?u" "\<forall>t \<in> set safe. list_all toolset_char t"
    using safe(2) provider_chars [of ?p] by (simp_all add: config_ok_def list_all_iff)
  have plain: "list_all toolset_char v \<or> list_all model_char v \<or> list_all url_char v \<Longrightarrow> CHR 0x0A \<notin> set v \<and> CHR 0x22 \<notin> set v" for v
    using plain_chars by (auto simp: list_all_iff)
  have "split_char (CHR 0x0A) c = config_lines safe ?p ?m ?u"
    unfolding safe(3) using config_lines_plain [OF chars(4,1-3)] by (intro split_join) (simp_all add: config_lines_def)
  moreover have "\<forall>v \<in> set (?p # ?m # ?u # safe). CHR 0x0A \<notin> set v \<and> CHR 0x22 \<notin> set v"
    using chars plain by auto
  moreover have "existing_config_valid (Some c)" unfolding safe(3) by (rule rendered_valid)
  ultimately show ?thesis using safe(2,4)
    unfolding Let_def asked_tools_def [symmetric] safe_toolset_def [symmetric] safe(1) [symmetric]
    by (simp add: config_lines_def quoted_def config_ok_def HERMES_PROVIDERS_CONFIG_API_KEY_def HERMES_INSTANCE_LLM_KEY_ENV_def)
qed

definition demo_custom :: hermes_settings where
  "demo_custom =
     \<lparr>hermes_image = ''hermes'', hermes_llm_provider = '' custom'', hermes_llm_api_key = ''k'', hermes_model = ''m'',
      hermes_llm_base_url = ''http://h '', hermes_default_toolset_raw = ''web, x:y,file,web'', hermes_volume_root = ''/v'',
      hermes_uid = 1, hermes_gid = 1, hermes_provisioning_stale_seconds = 300, hermes_provision_ready_timeout_seconds = 90,
      hermes_provision_ready_interval_seconds = 2, hermes_idle_timeout_seconds = 1800, agent_run_snapshot_ttl_days = 30,
      agent_run_consumer_enabled = True\<rparr>"

theorem config_admits_no_injection_witness:
  "\<exists>c. instance_config demo_custom = Inr c \<and> existing_config_valid (Some c) \<and>
     take 6 (drop 3 (split_char (CHR 0x0A) c)) =
       [''    - web'', ''    - file'', ''approvals:'', ''  mode: deny'', ''model:'', ''  default: '' @ [CHR 0x22] @ ''custom/m'' @ [CHR 0x22]]"
proof -
  have c: "instance_config demo_custom = Inr (join_with [CHR 0x0A] (config_lines [''web'', ''file''] ''custom'' ''m'' ''http://h''))"
    by code_simp
  have v: "rev (remdups (rev (filter (\<lambda>e. e \<noteq> [] \<and> list_all toolset_char e)
       (map strip (split_char (CHR '','') (hermes_default_toolset_raw demo_custom)))))) = [''web'', ''file'']"
    "strip (hermes_llm_provider demo_custom) = ''custom''" "strip (hermes_model demo_custom) = ''m''"
    by code_simp+
  from config_admits_no_injection [OF c] show ?thesis unfolding Let_def v using c by simp
qed

end
