(* ===== verification/PyBase64.thy ===== *)
theory PyBase64
  imports Redis BillingCommon
begin

text \<open>
  The parts of Python's standard library the website component relies on: \<^verbatim>\<open>base64\<close> (the scanner
  \<^verbatim>\<open>binascii.a2b_base64\<close> of CPython 3.12 in its strict and its lenient mode, the encoder, the
  URL-safe alphabet) and \<^verbatim>\<open>int\<close> on ASCII text. A byte string is a list of 8-bit characters.
\<close>

subsection \<open>Alphabet\<close>

definition b64_alphabet :: string where
  "b64_alphabet = ''ABCDEFGHIJKLMNOPQRSTUVWXYZabcdefghijklmnopqrstuvwxyz0123456789+/''"

definition b64_char :: "nat \<Rightarrow> char" where
  "b64_char n = b64_alphabet ! (n mod 64)"

definition b64_value :: "char \<Rightarrow> nat option" where
  "b64_value c = map_of (zip b64_alphabet [0..<64]) c"

lemma b64_value_char [simp]: "b64_value (b64_char n) = Some (n mod 64)"
proof -
  have "\<forall>k \<in> set [0..<64]. b64_value (b64_alphabet ! k) = Some k" by code_simp
  then show ?thesis by (simp add: b64_char_def)
qed

lemma b64_char_no_pad [simp]: "b64_char n \<noteq> CHR ''=''"
proof -
  have "\<forall>k \<in> set [0..<64]. b64_alphabet ! k \<noteq> CHR ''=''" by code_simp
  then show ?thesis by (simp add: b64_char_def)
qed

subsection \<open>Encoding and decoding\<close>

fun b2a_base64 :: "string \<Rightarrow> string" where
  "b2a_base64 [] = []"
| "b2a_base64 [a] =
     (let x = of_char a :: nat in [b64_char (x div 4), b64_char (x mod 4 * 16), CHR ''='', CHR ''=''])"
| "b2a_base64 [a, b] =
     (let x = of_char a :: nat; y = of_char b :: nat
      in [b64_char (x div 4), b64_char (x mod 4 * 16 + y div 16), b64_char (y mod 16 * 4), CHR ''=''])"
| "b2a_base64 (a # b # c # s) =
     (let x = of_char a :: nat; y = of_char b :: nat; z = of_char c :: nat
      in b64_char (x div 4) # b64_char (x mod 4 * 16 + y div 16) # b64_char (y mod 16 * 4 + z div 64) #
         b64_char (z mod 64) # b2a_base64 s)"

text \<open>
  The scanner: position in the quad, bits left over, number of padding characters, and whether
  padding has started. Lenient mode skips what is not in the alphabet and stops at a complete padding.
\<close>

fun a2b_scan :: "bool \<Rightarrow> string \<Rightarrow> nat \<Rightarrow> nat \<Rightarrow> nat \<Rightarrow> bool \<Rightarrow> string option" where
  "a2b_scan strict [] q l p st = (if q = 0 then Some [] else None)"
| "a2b_scan strict (c # s) q l p st =
     (if c = CHR ''=''
      then if 2 \<le> q \<and> 4 \<le> q + Suc p then (if strict \<and> s \<noteq> [] then None else Some [])
           else a2b_scan strict s q l (if 2 \<le> q then Suc p else p) True
      else case b64_value c of
             None \<Rightarrow> if strict then None else a2b_scan strict s q l p st
           | Some v \<Rightarrow>
               if strict \<and> st then None
               else if q = 0 then a2b_scan strict s 1 v 0 st
               else if q = 1 then map_option (Cons (char_of (l * 4 + v div 16))) (a2b_scan strict s 2 (v mod 16) 0 st)
               else if q = 2 then map_option (Cons (char_of (l * 16 + v div 4))) (a2b_scan strict s 3 (v mod 4) 0 st)
               else map_option (Cons (char_of (l * 64 + v))) (a2b_scan strict s 0 0 0 st))"

definition is_ascii :: "string \<Rightarrow> bool" where
  "is_ascii s = list_all (\<lambda>c. (of_char c :: nat) < 128) s"

text \<open>\<open>base64.b64decode(s, validate=strict)\<close>; \<open>None\<close> is the \<open>ValueError\<close>.\<close>

definition b64decode :: "bool \<Rightarrow> string \<Rightarrow> string option" where
  "b64decode strict s =
     (if \<not> is_ascii s then None
      else if strict \<and> s \<noteq> [] \<and> hd s = CHR ''='' then None
      else a2b_scan strict s 0 0 0 False)"

definition urlsafe_b64encode :: "string \<Rightarrow> string" where
  "urlsafe_b64encode s = map (\<lambda>c. if c = CHR ''+'' then CHR ''-'' else if c = CHR ''/'' then CHR ''_'' else c) (b2a_base64 s)"

definition urlsafe_b64decode :: "string \<Rightarrow> string option" where
  "urlsafe_b64decode s =
     b64decode False (map (\<lambda>c. if c = CHR ''-'' then CHR ''+'' else if c = CHR ''_'' then CHR ''/'' else c) s)"

lemma digit_arith:
  fixes r t k :: nat
  assumes "t < k"
  shows "(r * k + t) div k = r" "(r * k + t) mod k = t" "r < m \<Longrightarrow> r * k + t < m * k"
proof -
  show "(r * k + t) div k = r" "(r * k + t) mod k = t" using assms by simp_all
  show "r * k + t < m * k" if "r < m"
  proof -
    have "r * k + t < Suc r * k" using assms by simp
    also have "\<dots> \<le> m * k" using that by (intro mult_le_mono1) simp
    finally show ?thesis .
  qed
qed

lemma byte_arith:
  fixes x y :: nat
  assumes "x < 256" "y < 256"
  shows "x div 4 * 4 + (x mod 4 * 16 + y div 16) div 16 = x" "(x mod 4 * 16 + y div 16) mod 16 = y div 16"
    "x mod 16 * 4 div 4 = x mod 16" "x div 4 mod 64 = x div 4" "(x mod 4 * 16 + y div 16) mod 64 = x mod 4 * 16 + y div 16"
    "(x mod 16 * 4 + y div 64) mod 64 = x mod 16 * 4 + y div 64" "x div 16 * 16 + (x mod 16 * 4 + y div 64) div 4 = x"
    "(x mod 16 * 4 + y div 64) mod 4 = y div 64" "x div 64 * 64 + x mod 64 = x"
proof -
  have d: "y div 16 < 16" "y div 64 < 4" "x div 4 < 64" using assms by auto
  show "x div 4 * 4 + (x mod 4 * 16 + y div 16) div 16 = x" "(x mod 4 * 16 + y div 16) mod 16 = y div 16"
    using digit_arith(1,2) [OF d(1), of "x mod 4"] by simp_all
  show "x div 16 * 16 + (x mod 16 * 4 + y div 64) div 4 = x" "(x mod 16 * 4 + y div 64) mod 4 = y div 64"
    using digit_arith(1,2) [OF d(2), of "x mod 16"] by simp_all
  show "(x mod 4 * 16 + y div 16) mod 64 = x mod 4 * 16 + y div 16"
    using digit_arith(3) [OF d(1), of "x mod 4" 4] by simp
  show "(x mod 16 * 4 + y div 64) mod 64 = x mod 16 * 4 + y div 64"
    using digit_arith(3) [OF d(2), of "x mod 16" 16] by simp
  show "x mod 16 * 4 div 4 = x mod 16" "x div 4 mod 64 = x div 4" "x div 64 * 64 + x mod 64 = x"
    using d(3) by simp_all
qed

lemma char_lt [simp]: "(of_char c :: nat) < 256"
  by simp

lemma b2a_scan: "a2b_scan strict (b2a_base64 bs) 0 0 0 False = Some bs"
proof (induction bs rule: b2a_base64.induct)
  case (2 a)
  have "(of_char a :: nat) < 256" by simp
  from byte_arith(1,4,5) [OF this, of 0] show ?case by (simp add: Let_def)
next
  case (3 a b)
  have x: "(of_char a :: nat) < 256" and y: "(of_char b :: nat) < 256" by simp_all
  from byte_arith(1,2,4,5) [OF x y] byte_arith(6,7) [OF y, of 0] show ?case by (simp add: Let_def)
next
  case (4 a b c s)
  have x: "(of_char a :: nat) < 256" and y: "(of_char b :: nat) < 256" and z: "(of_char c :: nat) < 256" by simp_all
  from byte_arith(1,2,4,5) [OF x y] byte_arith(6,7,8) [OF y z] byte_arith(9) [OF z, of 0] show ?case
    using 4 by (simp add: Let_def)
qed simp

lemma b2a_ascii: "is_ascii (b2a_base64 bs)"
proof -
  have "\<forall>k \<in> set [0..<64]. (of_char (b64_alphabet ! k) :: nat) < 128" by code_simp
  then have "(of_char (b64_char n) :: nat) < 128" for n by (simp add: b64_char_def)
  then show ?thesis by (induction bs rule: b2a_base64.induct) (auto simp: is_ascii_def Let_def)
qed

lemma b2a_head: "b2a_base64 bs \<noteq> [] \<Longrightarrow> hd (b2a_base64 bs) \<noteq> CHR ''=''"
  by (cases bs rule: b2a_base64.cases) (auto simp: Let_def)

lemma b64_roundtrip: "b64decode strict (b2a_base64 bs) = Some bs"
  using b2a_head [of bs] by (auto simp: b64decode_def b2a_scan b2a_ascii)

lemma four_dvd: "(4::nat) dvd Suc (Suc (Suc (Suc 0)))"
proof -
  have "Suc (Suc (Suc (Suc 0))) = 4" by simp
  then show ?thesis by (metis dvd_refl)
qed

text \<open>The shape of an encoding: characters of the alphabet, then at most two padding characters.\<close>

lemma b2a_shape:
  "\<exists>ns p. b2a_base64 bs = map b64_char ns @ replicate p (CHR ''='') \<and> p \<le> 2 \<and> 4 dvd (length ns + p)"
proof (induction bs rule: b2a_base64.induct)
  case (2 a)
  let ?x = "of_char a :: nat"
  show ?case using four_dvd
    by (intro exI [of _ "[?x div 4, ?x mod 4 * 16]"] exI [of _ "Suc (Suc 0)"]) (simp add: Let_def)
next
  case (3 a b)
  let ?x = "of_char a :: nat" and ?y = "of_char b :: nat"
  show ?case using four_dvd
    by (intro exI [of _ "[?x div 4, ?x mod 4 * 16 + ?y div 16, ?y mod 16 * 4]"] exI [of _ "Suc 0"]) (simp add: Let_def)
next
  case (4 a b c s)
  then obtain ns p where ih: "b2a_base64 s = map b64_char ns @ replicate p (CHR ''='')" "p \<le> 2" "4 dvd (length ns + p)"
    by blast
  let ?x = "of_char a :: nat" and ?y = "of_char b :: nat" and ?z = "of_char c :: nat"
  have "Suc (Suc (Suc (Suc (length ns + p)))) = 4 + (length ns + p)" by simp
  then have "4 dvd Suc (Suc (Suc (Suc (length ns + p))))" using ih(3) by (metis dvd_add_triv_left_iff)
  then show ?case using ih
    by (intro exI [of _ "[?x div 4, ?x mod 4 * 16 + ?y div 16, ?y mod 16 * 4 + ?z div 64, ?z mod 64] @ ns"] exI [of _ p])
      (simp add: Let_def add.assoc)
qed (auto intro: exI [of _ "[]"])

subsection \<open>Integers\<close>

text \<open>
  \<open>int(text)\<close>: surrounding white space, a sign, and decimal digits with single underscores between
  them, at most 4300 digits.
\<close>

fun int_digits :: "string \<Rightarrow> bool \<Rightarrow> string option" where
  "int_digits [] prev = (if prev then Some [] else None)"
| "int_digits (c # s) prev =
     (if is_digit (of_char c) then map_option (Cons c) (int_digits s True)
      else if c = CHR ''_'' \<and> prev then int_digits s False else None)"

definition py_int :: "string \<Rightarrow> int option" where
  "py_int text =
     (let s = strip text;
          neg = (s \<noteq> [] \<and> hd s = CHR ''-'');
          body = (if s \<noteq> [] \<and> hd s \<in> {CHR ''-'', CHR ''+''} then tl s else s)
      in case int_digits body False of
           None \<Rightarrow> None
         | Some ds \<Rightarrow> if length ds > 4300 then None
                     else Some (if neg then - digits_value (codes ds) else digits_value (codes ds)))"

lemma int_digits_plain: "list_all is_digit (codes ds) \<Longrightarrow> ds \<noteq> [] \<or> prev \<Longrightarrow> int_digits ds prev = Some ds"
  by (induction ds prev rule: int_digits.induct) (auto simp: codes_def)

lemma dec_pad_length: "n < 10 ^ k \<Longrightarrow> 0 < k \<Longrightarrow> length (dec_pad 0 n) \<le> k \<and> length (dec_pad 1 n) \<le> k"
proof (induction k arbitrary: n)
  case (Suc k)
  show ?case
  proof (cases "k = 0")
    case True
    with Suc.prems have "n div 10 = 0" by simp
    with True show ?thesis by (subst dec_pad.simps(1)) (simp add: dec_pad.simps)
  next
    case False
    have "n div 10 < 10 ^ k" using Suc.prems(1) by (simp add: less_mult_imp_div_less mult.commute)
    with Suc.IH False have ih: "length (dec_pad 0 (n div 10)) \<le> k" by blast
    then show ?thesis by (subst dec_pad.simps(1)) simp
  qed
qed simp

lemma strip_digits:
  assumes "list_all is_digit (codes ds)"
  shows "strip ds = ds"
proof -
  have "\<not> is_space c" if "c \<in> set ds" for c
    using assms that by (auto simp: list_all_iff codes_def is_digit_def is_space_def Let_def)
  then have "dropWhile is_space xs = xs" if "set xs = set ds" for xs
    using that by (cases xs) auto
  then show ?thesis by (simp add: strip_def strip_chars_def)
qed

lemma py_int_nat_str:
  assumes "length (nat_str n) \<le> 4300"
  shows "py_int (nat_str n) = Some (int n)"
proof -
  let ?d = "dec_pad (Suc 0) n"
  have dig: "list_all is_digit (codes ?d)" by (rule dec_pad_digits)
  have ne: "?d \<noteq> []" by simp
  have "hd ?d \<in> set ?d" using ne by (rule hd_in_set)
  with dig have "is_digit (of_char (hd ?d))" by (simp only: codes_def list_all_iff set_map ball_simps)
  then have "hd ?d \<notin> {CHR ''-'', CHR ''+''}" by (auto simp: is_digit_def)
  moreover have "length ?d \<le> 4300" using assms by (simp only: nat_str_def One_nat_def)
  ultimately show ?thesis
    using int_digits_plain [OF dig, of False] ne digits_value_dec_pad [of "Suc 0" n]
    by (simp add: py_int_def nat_str_def strip_digits [OF dig] Let_def del: dec_pad.simps)
qed

lemma nat_str_short: "n < 10 ^ 18 \<Longrightarrow> length (nat_str n) \<le> 4300"
  using dec_pad_length [of n 18] by (simp add: nat_str_def del: dec_pad.simps)

end
