(* ===== verification/Website.thy ===== *)
theory Website
  imports CloudPayments PyBase64 "HOL-Library.Char_ord" "HOL-Library.List_Lexorder"
begin

text \<open>
  The website builder: the path guard (\<^verbatim>\<open>website/paths.py\<close>), the signed preview tokens
  (\<^verbatim>\<open>website/signed_url.py\<close>), the project store with its limits
  (\<^verbatim>\<open>website/service.py\<close>) and the \<^verbatim>\<open>site.*\<close> tools the chat runs on the server
  (\<^verbatim>\<open>website/tools.py\<close>). Text is held as its UTF-8 bytes, so \<open>encode("utf-8")\<close> is the
  identity and \<open>decode("utf-8")\<close> a test. HMAC-SHA256 is an argument; listings are ordered by byte
  value.
\<close>

subsection \<open>Path guard\<close>

text \<open>\<open>s.split(sep)\<close> for a one-character separator.\<close>

definition split_on :: "char \<Rightarrow> string \<Rightarrow> string list" where
  "split_on sep s = foldr (\<lambda>c acc. if c = sep then [] # acc else (c # hd acc) # tl acc) s [[]]"

definition join_slash :: "string list \<Rightarrow> string" where
  "join_slash ss = (case ss of [] \<Rightarrow> [] | x # xs \<Rightarrow> x @ concat (map (\<lambda>y. CHR ''/'' # y) xs))"

text \<open>\<open>Inl\<close> is the \<open>InvalidPathError\<close>.\<close>

fun collect_segments :: "string list \<Rightarrow> string + string list" where
  "collect_segments [] = Inr []"
| "collect_segments (seg # rest) =
     (if seg = [] \<or> seg = ''.'' then collect_segments rest
      else if seg = ''..'' then Inl ''path must not contain '..' traversal''
      else case collect_segments rest of Inl e \<Rightarrow> Inl e | Inr segs \<Rightarrow> Inr (seg # segs))"

definition normalize_site_path :: "string \<Rightarrow> string + string" where
  "normalize_site_path raw =
     (if raw = [] then Inl ''path must not be empty''
      else if CHR 0x00 \<in> set raw then Inl ''path must not contain NUL''
      else if CHR 0x5C \<in> set raw then Inl ''path must not contain backslash''
      else if startswith raw ''/'' then Inl ''path must be relative, not absolute''
      else case collect_segments (split_on (CHR ''/'') raw) of
             Inl e \<Rightarrow> Inl e
           | Inr segs \<Rightarrow> if segs = [] then Inl ''path resolves to empty'' else Inr (join_slash segs))"

subsection \<open>Preview tokens\<close>

record site_settings =
  preview_url_secret :: string
  preview_url_ttl_seconds :: int
  preview_max_file_bytes :: int
  preview_max_project_bytes :: int
  preview_max_files :: int
  service_domain :: string

type_synonym hmac = "string \<Rightarrow> string \<Rightarrow> string"

definition b64url_encode :: "string \<Rightarrow> string" where
  "b64url_encode data = rev (dropWhile (\<lambda>c. c = CHR ''='') (rev (urlsafe_b64encode data)))"

definition b64url_decode :: "string \<Rightarrow> string option" where
  "b64url_decode v = urlsafe_b64decode (v @ replicate (nat ((- int (length v)) mod 4)) (CHR ''=''))"

definition canonical :: "uuid \<Rightarrow> uuid \<Rightarrow> int \<Rightarrow> string" where
  "canonical project_id owner expiry = uuid_str project_id @ ''|'' @ uuid_str owner @ ''|'' @ int_str expiry"

text \<open>\<open>None\<close> is the \<open>PreviewSecretMissingError\<close>.\<close>

definition sign_preview :: "hmac \<Rightarrow> site_settings \<Rightarrow> uuid \<Rightarrow> uuid \<Rightarrow> int \<Rightarrow> string option" where
  "sign_preview mac cfg project_id owner expiry =
     (if preview_url_secret cfg = [] then None else Some (mac (preview_url_secret cfg) (canonical project_id owner expiry)))"

definition build_token :: "hmac \<Rightarrow> site_settings \<Rightarrow> uuid \<Rightarrow> uuid \<Rightarrow> int \<Rightarrow> (string \<times> int) option" where
  "build_token mac cfg project_id owner now =
     (let expiry = now + preview_url_ttl_seconds cfg
      in map_option (\<lambda>m. (b64url_encode (int_str expiry) @ ''.'' @ b64url_encode m, expiry)) (sign_preview mac cfg project_id owner expiry))"

definition verify_token :: "hmac \<Rightarrow> site_settings \<Rightarrow> uuid \<Rightarrow> uuid \<Rightarrow> string \<Rightarrow> int \<Rightarrow> exn + bool" where
  "verify_token mac cfg project_id owner token now =
     (case split_on (CHR ''.'') token of
        [exp_part, mac_part] \<Rightarrow>
          (case b64url_decode exp_part of
             None \<Rightarrow> Inr False
           | Some raw \<Rightarrow>
               if \<not> is_ascii raw then Inr False
               else (case py_int raw of
                       None \<Rightarrow> Inr False
                     | Some expiry \<Rightarrow>
                         (case b64url_decode mac_part of
                            None \<Rightarrow> Inr False
                          | Some presented \<Rightarrow>
                              (case sign_preview mac cfg project_id owner expiry of
                                 None \<Rightarrow> Inl (PyError ''PreviewSecretMissingError'')
                               | Some expected \<Rightarrow> Inr (presented = expected \<and> now \<le> expiry)))))
      | _ \<Rightarrow> Inr False)"

subsection \<open>Project store\<close>

text \<open>A \<open>SiteFileError\<close> with its code and text, or any other exception.\<close>

datatype site_exn = SiteFileError string string | SiteOther exn

type_synonym 'a siteop = "(db, site_exn, 'a) op"

record write_result =
  wr_path :: string
  wr_bytes_written :: int
  wr_file_count :: int
  wr_project_bytes :: int

definition PREVIEW_CONTENT_TYPE_ALLOWLIST :: "string list" where
  "PREVIEW_CONTENT_TYPE_ALLOWLIST =
     [''text/html'', ''text/css'', ''text/javascript'', ''application/json'', ''image/png'', ''image/jpeg'',
      ''image/svg+xml'', ''image/gif'', ''image/webp'', ''font/woff2'', ''text/plain'']"

definition get_existing_project :: "uuid \<Rightarrow> string \<Rightarrow> db \<Rightarrow> site_project option" where
  "get_existing_project uid ext s = find (\<lambda>p. pj_user p = uid \<and> pj_external p = ext) (site_projects s)"

definition get_project_by_id :: "uuid \<Rightarrow> db \<Rightarrow> site_project option" where
  "get_project_by_id pid s = find (\<lambda>p. pj_id p = pid) (site_projects s)"

definition resolve_project :: "uuid \<Rightarrow> string \<Rightarrow> site_project siteop" where
  "resolve_project uid ext = (\<lambda>s.
     case get_existing_project uid ext s of
       Some p \<Rightarrow> (Inr p, s)
     | None \<Rightarrow>
         if users s uid = None then (Inl (SiteOther DbError), s)
         else let p = \<lparr>pj_id = next_id s, pj_user = uid, pj_external = ext\<rparr>
              in (Inr p, s\<lparr>site_projects := site_projects s @ [p], next_id := next_id s + 1\<rparr>))"

definition files_of :: "uuid \<Rightarrow> db \<Rightarrow> site_file list" where
  "files_of pid s = filter (\<lambda>f. sf_project f = pid) (site_files s)"

definition project_stats :: "uuid \<Rightarrow> db \<Rightarrow> int \<times> int" where
  "project_stats pid s = (int (length (files_of pid s)), sum_list (map sf_size (files_of pid s)))"

definition file_at :: "uuid \<Rightarrow> string \<Rightarrow> db \<Rightarrow> site_file option" where
  "file_at pid path s = find (\<lambda>f. sf_path f = path) (files_of pid s)"

definition put_file :: "uuid \<Rightarrow> string \<Rightarrow> string \<Rightarrow> string \<Rightarrow> db \<Rightarrow> db" where
  "put_file pid path content content_type s =
     (let new = \<lparr>sf_project = pid, sf_path = path, sf_content = content, sf_content_type = content_type,
                 sf_size = int (length content)\<rparr>
      in if file_at pid path s = None then s\<lparr>site_files := site_files s @ [new]\<rparr>
         else s\<lparr>site_files := map (\<lambda>f. if sf_project f = pid \<and> sf_path f = path then new else f) (site_files s)\<rparr>)"

definition site_write_file :: "site_settings \<Rightarrow> site_project \<Rightarrow> string \<Rightarrow> string \<Rightarrow> string \<Rightarrow> write_result siteop" where
  "site_write_file cfg project path content content_type =
     (if content_type \<notin> set PREVIEW_CONTENT_TYPE_ALLOWLIST
      then op_raise (SiteFileError ''invalid_content_type'' (''content_type not allowed: '' @ content_type))
      else case normalize_site_path path of
        Inl e \<Rightarrow> op_raise (SiteFileError ''invalid_path'' e)
      | Inr normalized \<Rightarrow>
          let size = int (length content); pid = pj_id project in
          if size > preview_max_file_bytes cfg
          then op_raise (SiteFileError ''file_too_large'' ''file exceeds the per-file size limit'')
          else
            op_bind (op_read (\<lambda>s. (file_at pid normalized s, project_stats pid s))) (\<lambda>(existing, count, bytes).
            let prior = (case existing of Some f \<Rightarrow> sf_size f | None \<Rightarrow> 0);
                projected_bytes = bytes - prior + size;
                projected_count = count + (if existing = None then 1 else 0)
            in if projected_bytes > preview_max_project_bytes cfg
               then op_raise (SiteFileError ''project_too_large'' ''project exceeds the total size limit'')
               else if projected_count > preview_max_files cfg
               then op_raise (SiteFileError ''too_many_files'' ''project exceeds the maximum number of files'')
               else op_bind (op_modify (put_file pid normalized content content_type)) (\<lambda>_.
                    op_read (\<lambda>s. \<lparr>wr_path = normalized, wr_bytes_written = size,
                                  wr_file_count = fst (project_stats pid s), wr_project_bytes = snd (project_stats pid s)\<rparr>))))"

definition site_list_files :: "site_project \<Rightarrow> db \<Rightarrow> site_file list" where
  "site_list_files project s = sort_key sf_path (files_of (pj_id project) s)"

definition site_read_file :: "uuid \<Rightarrow> string \<Rightarrow> db \<Rightarrow> site_file option" where
  "site_read_file pid path s =
     (case normalize_site_path path of Inl _ \<Rightarrow> None | Inr normalized \<Rightarrow> file_at pid normalized s)"

definition site_delete_file :: "site_project \<Rightarrow> string \<Rightarrow> (bool \<times> int \<times> int) siteop" where
  "site_delete_file project path =
     (case normalize_site_path path of
        Inl e \<Rightarrow> op_raise (SiteFileError ''invalid_path'' e)
      | Inr normalized \<Rightarrow>
          op_bind (op_read (file_at (pj_id project) normalized)) (\<lambda>row.
          op_bind (if row = None then op_return ()
                   else op_modify (\<lambda>s. s\<lparr>site_files :=
                          filter (\<lambda>f. \<not> (sf_project f = pj_id project \<and> sf_path f = normalized)) (site_files s)\<rparr>)) (\<lambda>_.
          op_read (\<lambda>s. (row \<noteq> None, project_stats (pj_id project) s)))))"

end
