(* ===== verification/ChatTools.thy ===== *)
theory ChatTools
  imports Website
begin

text \<open>
  The tools a conversation may call (\<^verbatim>\<open>chat/tools.py\<close>): their names and classes, the static name
  map of the provider boundary, the validation of arguments and the definitions offered to the model.
  Pydantic is a library: what it does with the declared fields of a model, the text of its error, and
  the JSON schema of a model are the argument \<open>pydantic\<close>; the path check the code adds to a model is
  here.
\<close>

subsection \<open>Names and classes\<close>

definition TOOL_FILES_READ :: string where "TOOL_FILES_READ = ''files.read''"
definition TOOL_FILES_WRITE :: string where "TOOL_FILES_WRITE = ''files.write''"
definition TOOL_FILES_LIST :: string where "TOOL_FILES_LIST = ''files.list''"
definition TOOL_FILES_MKDIR :: string where "TOOL_FILES_MKDIR = ''files.mkdir''"
definition TOOL_CALENDAR_READ :: string where "TOOL_CALENDAR_READ = ''calendar.read''"
definition TOOL_CALENDAR_CREATE :: string where "TOOL_CALENDAR_CREATE = ''calendar.create_events''"
definition TOOL_REMINDERS_READ :: string where "TOOL_REMINDERS_READ = ''reminders.read''"
definition TOOL_REMINDERS_CREATE :: string where "TOOL_REMINDERS_CREATE = ''reminders.create''"
definition TOOL_SITE_WRITE_FILE :: string where "TOOL_SITE_WRITE_FILE = ''site.write_file''"
definition TOOL_SITE_PREVIEW :: string where "TOOL_SITE_PREVIEW = ''site.preview''"
definition TOOL_SITE_LIST :: string where "TOOL_SITE_LIST = ''site.list''"
definition TOOL_SITE_READ :: string where "TOOL_SITE_READ = ''site.read''"
definition TOOL_SITE_DELETE :: string where "TOOL_SITE_DELETE = ''site.delete''"
definition TOOL_TIME_NOW :: string where "TOOL_TIME_NOW = ''time.now''"

lemmas tool_name_defs = TOOL_FILES_READ_def TOOL_FILES_WRITE_def TOOL_FILES_LIST_def TOOL_FILES_MKDIR_def
  TOOL_CALENDAR_READ_def TOOL_CALENDAR_CREATE_def TOOL_REMINDERS_READ_def TOOL_REMINDERS_CREATE_def
  TOOL_SITE_WRITE_FILE_def TOOL_SITE_PREVIEW_def TOOL_SITE_LIST_def TOOL_SITE_READ_def TOOL_SITE_DELETE_def
  TOOL_TIME_NOW_def

definition SERVER_SIDE_TOOLS :: "string list" where
  "SERVER_SIDE_TOOLS = [TOOL_SITE_WRITE_FILE, TOOL_SITE_PREVIEW, TOOL_SITE_LIST, TOOL_SITE_READ, TOOL_SITE_DELETE]"

definition GLOBAL_SERVER_SIDE_TOOLS :: "string list" where
  "GLOBAL_SERVER_SIDE_TOOLS = [TOOL_TIME_NOW]"

definition ALL_TOOL_NAMES :: "string list" where
  "ALL_TOOL_NAMES =
     [TOOL_FILES_READ, TOOL_FILES_WRITE, TOOL_FILES_LIST, TOOL_FILES_MKDIR, TOOL_CALENDAR_READ, TOOL_CALENDAR_CREATE,
      TOOL_REMINDERS_READ, TOOL_REMINDERS_CREATE] @ SERVER_SIDE_TOOLS @ GLOBAL_SERVER_SIDE_TOOLS"

definition MUTATING_TOOLS :: "string list" where
  "MUTATING_TOOLS = [TOOL_FILES_WRITE, TOOL_FILES_MKDIR, TOOL_CALENDAR_CREATE, TOOL_REMINDERS_CREATE,
     TOOL_SITE_WRITE_FILE, TOOL_SITE_DELETE]"

text \<open>The client-side calls are the ones the device has to answer.\<close>

definition is_client_tool :: "string \<Rightarrow> bool" where
  "is_client_tool name \<longleftrightarrow> name \<notin> set SERVER_SIDE_TOOLS \<and> name \<notin> set GLOBAL_SERVER_SIDE_TOOLS"

subsection \<open>Name map\<close>

definition DOMAIN_TO_ANTHROPIC :: "(string \<times> string) list" where
  "DOMAIN_TO_ANTHROPIC =
     [(TOOL_FILES_READ, ''files_read''), (TOOL_FILES_WRITE, ''files_write''), (TOOL_FILES_LIST, ''files_list''),
      (TOOL_FILES_MKDIR, ''files_mkdir''), (TOOL_CALENDAR_READ, ''calendar_read''),
      (TOOL_CALENDAR_CREATE, ''calendar_create_events''), (TOOL_REMINDERS_READ, ''reminders_read''),
      (TOOL_REMINDERS_CREATE, ''reminders_create''), (TOOL_SITE_WRITE_FILE, ''site_write_file''),
      (TOOL_SITE_PREVIEW, ''site_preview''), (TOOL_SITE_LIST, ''site_list''), (TOOL_SITE_READ, ''site_read''),
      (TOOL_SITE_DELETE, ''site_delete''), (TOOL_TIME_NOW, ''time_now'')]"

definition ANTHROPIC_TO_DOMAIN :: "(string \<times> string) list" where
  "ANTHROPIC_TO_DOMAIN = map (\<lambda>(d, a). (a, d)) DOMAIN_TO_ANTHROPIC"

text \<open>\<open>None\<close> is the \<open>UnknownToolNameError\<close>.\<close>

definition to_anthropic_tool_name :: "string \<Rightarrow> string option" where
  "to_anthropic_tool_name domain_name = map_of DOMAIN_TO_ANTHROPIC domain_name"

definition to_domain_tool_name :: "string \<Rightarrow> string option" where
  "to_domain_tool_name anthropic_name = map_of ANTHROPIC_TO_DOMAIN anthropic_name"

subsection \<open>Arguments\<close>

record pydantic =
  pd_validate :: "string \<Rightarrow> dict \<Rightarrow> string + dict"
  pd_error :: "string \<Rightarrow> string \<Rightarrow> string"
  pd_schema :: "string \<Rightarrow> dict"

text \<open>The models, by their class names, in the order of \<open>_ARGS_BY_TOOL\<close>.\<close>

definition ARGS_BY_TOOL :: "(string \<times> string) list" where
  "ARGS_BY_TOOL =
     [(TOOL_FILES_READ, ''FilesReadArgs''), (TOOL_FILES_WRITE, ''FilesWriteArgs''), (TOOL_FILES_LIST, ''FilesListArgs''),
      (TOOL_FILES_MKDIR, ''FilesMkdirArgs''), (TOOL_CALENDAR_READ, ''CalendarReadArgs''),
      (TOOL_CALENDAR_CREATE, ''CalendarCreateArgs''), (TOOL_REMINDERS_READ, ''RemindersReadArgs''),
      (TOOL_REMINDERS_CREATE, ''RemindersCreateArgs''), (TOOL_SITE_WRITE_FILE, ''SiteWriteFileArgs''),
      (TOOL_SITE_PREVIEW, ''SitePreviewArgs''), (TOOL_SITE_LIST, ''SiteListArgs''), (TOOL_SITE_READ, ''SiteReadArgs''),
      (TOOL_SITE_DELETE, ''SiteDeleteArgs''), (TOOL_TIME_NOW, ''TimeNowArgs'')]"

text \<open>The models derived from \<open>_PathModel\<close>.\<close>

definition PATH_MODELS :: "string list" where
  "PATH_MODELS = [''FilesReadArgs'', ''FilesWriteArgs'', ''FilesListArgs'', ''FilesMkdirArgs'', ''SiteWriteFileArgs'',
     ''SiteReadArgs'', ''SiteDeleteArgs'']"

definition validate_safe_path :: "string \<Rightarrow> string + string" where
  "validate_safe_path value =
     (if ''..'' \<in> set (split_on (CHR ''/'') (map (\<lambda>c. if c = CHR 0x5C then CHR ''/'' else c) value))
      then Inl ''path must not contain '..' traversal'' else Inr value)"

definition validate_tool_args :: "pydantic \<Rightarrow> string \<Rightarrow> dict \<Rightarrow> string + dict" where
  "validate_tool_args pd tool_name args =
     (case map_of ARGS_BY_TOOL tool_name of
        None \<Rightarrow> Inl (''unknown tool: '' @ tool_name)
      | Some model \<Rightarrow>
          (case pd_validate pd model args of
             Inl e \<Rightarrow> Inl e
           | Inr d \<Rightarrow>
               if model \<in> set PATH_MODELS
               then (case dict_get d ''path'' of
                       JStr p \<Rightarrow> (case validate_safe_path p of Inl e \<Rightarrow> Inl (pd_error pd model e) | Inr _ \<Rightarrow> Inr d)
                     | _ \<Rightarrow> Inr d)
               else Inr d))"

subsection \<open>Definitions offered to the model\<close>

definition em_dash :: string where
  "em_dash = [CHR 0xE2, CHR 0x80, CHR 0x94]"

definition TOOL_DESCRIPTIONS :: "(string \<times> string) list" where
  "TOOL_DESCRIPTIONS =
     [(TOOL_FILES_READ, ''Read a file from the user's device.''),
      (TOOL_FILES_WRITE, ''Write a file on the user's device.''),
      (TOOL_FILES_LIST, ''List files/directories on the user's device.''),
      (TOOL_FILES_MKDIR, ''Create a directory on the user's device.''),
      (TOOL_CALENDAR_READ,
       ''Read calendar events within a time range. 'start' and 'end' are ISO8601 datetime '' @
       ''strings in local time without timezone offset, e.g. '2026-06-11T09:00:00'. For a '' @
       ''whole day use start at 00:00:00 and end at the next day 00:00:00 (end-exclusive). '' @
       ''Use the time.now tool if you do not know the current date.''),
      (TOOL_CALENDAR_CREATE,
       ''Create calendar events. Each event's 'start' and 'end' are ISO8601 datetime strings '' @
       ''in local time without timezone offset, e.g. '2026-06-11T09:00:00'.''),
      (TOOL_REMINDERS_READ, ''Read reminders.''),
      (TOOL_REMINDERS_CREATE, ''Create reminders.''),
      (TOOL_SITE_WRITE_FILE,
       ''Write or overwrite a file in the website project. Path is relative to the project '' @
       ''root. Use encoding 'utf8' for text (HTML/CSS/JS) and 'base64' for binary assets '' @
       ''(images/fonts). The project is the current chat session's project (no project id '' @
       ''needed).''),
      (TOOL_SITE_PREVIEW,
       ''Get a temporary signed preview URL for the current website project. Optional 'entry' '' @
       ''selects the start file (default index.html). The returned `url` is an ABSOLUTE URL that '' @
       ''opens directly in a browser (signed token, no authentication). Use it exactly as '' @
       ''returned '' @ em_dash @ '' do NOT change, shorten, or add a host/domain to it.''),
      (TOOL_SITE_LIST, ''List the files of the current website project.''),
      (TOOL_SITE_READ, ''Read a file from the current website project by relative path.''),
      (TOOL_SITE_DELETE, ''Delete a file from the current website project by relative path.''),
      (TOOL_TIME_NOW,
       ''Get the current date and time. Always returns UTC (ISO8601, unix timestamp, weekday). '' @
       ''Pass an optional IANA timezone 'tz' (e.g. 'Europe/Moscow') to also get the local time. '' @
       ''Call this whenever the request depends on the current date, time, or day of the week '' @ em_dash @ '' '' @
       ''do not guess.'')]"

definition tool_description :: "string \<Rightarrow> string" where
  "tool_description name = (case map_of TOOL_DESCRIPTIONS name of Some d \<Rightarrow> d | None \<Rightarrow> [])"

definition tool_input_schema :: "pydantic \<Rightarrow> string \<Rightarrow> dict" where
  "tool_input_schema pd model = filter (\<lambda>(k, _). k \<noteq> ''title'') (pd_schema pd model)"

definition tool_catalog :: "pydantic \<Rightarrow> dict list" where
  "tool_catalog pd = map (\<lambda>(name, model).
     [(''name'', JStr name), (''description'', JStr (tool_description name)),
      (''mutating'', JBool (name \<in> set MUTATING_TOOLS)),
      (''execution'', JStr (if name \<in> set SERVER_SIDE_TOOLS \<or> name \<in> set GLOBAL_SERVER_SIDE_TOOLS then ''server'' else ''client'')),
      (''inputSchema'', JObj (tool_input_schema pd model))]) ARGS_BY_TOOL"

definition offered_tools :: "bool \<Rightarrow> (string \<times> string) list" where
  "offered_tools include_server_side =
     filter (\<lambda>(name, _). include_server_side \<or> name \<notin> set SERVER_SIDE_TOOLS) ARGS_BY_TOOL"

definition neutral_tool_definitions :: "pydantic \<Rightarrow> bool \<Rightarrow> dict list" where
  "neutral_tool_definitions pd include_server_side = map (\<lambda>(name, model).
     [(''name'', JStr name), (''description'', JStr (tool_description name)),
      (''input_schema'', JObj (tool_input_schema pd model))]) (offered_tools include_server_side)"

text \<open>A name outside the static map would raise; the offered names are all in it.\<close>

definition anthropic_tool_definitions :: "pydantic \<Rightarrow> bool \<Rightarrow> dict list option" where
  "anthropic_tool_definitions pd include_server_side = those (map (\<lambda>(name, model).
     map_option (\<lambda>a.
       [(''name'', JStr a), (''description'', JStr (tool_description name)),
        (''input_schema'', JObj (tool_input_schema pd model))]) (to_anthropic_tool_name name)) (offered_tools include_server_side))"

definition openai_tool_function :: "(json \<Rightarrow> string) \<Rightarrow> dict \<Rightarrow> dict option" where
  "openai_tool_function rep neutral_def =
     (if map_of neutral_def ''function'' \<noteq> None then Some neutral_def
      else
        let name = (case map_of neutral_def ''name'' of Some v \<Rightarrow> py_str rep v | None \<Rightarrow> []) in
        case (if CHR ''.'' \<in> set name then to_anthropic_tool_name name else Some name) of
          None \<Rightarrow> None
        | Some fn_name \<Rightarrow>
            (case (map_of neutral_def ''description'', map_of neutral_def ''input_schema'') of
               (Some d, Some p) \<Rightarrow>
                 Some [(''type'', JStr ''function''),
                       (''function'', JObj [(''name'', JStr fn_name), (''description'', d), (''parameters'', p)])]
             | _ \<Rightarrow> None))"

definition openai_tool_definitions :: "(json \<Rightarrow> string) \<Rightarrow> pydantic \<Rightarrow> bool \<Rightarrow> dict list option" where
  "openai_tool_definitions rep pd include_server_side =
     those (map (openai_tool_function rep) (neutral_tool_definitions pd include_server_side))"

end
