(* ===== verification/SiteTools.thy ===== *)
theory SiteTools
  imports ChatTools PyUnicode
begin

text \<open>
  The tools the server executes itself: the \<^verbatim>\<open>site.*\<close> handlers (\<^verbatim>\<open>website/tools.py\<close>), which
  take owner and project from the session, never from the arguments, and \<^verbatim>\<open>time.now\<close>
  (\<^verbatim>\<open>chat/global_tools.py\<close>). The time zone database is an argument, a function from a name to the
  UTC offset in minutes at an instant.
\<close>

subsection \<open>Results\<close>

record tool_execution =
  te_result :: "dict option"
  te_is_error :: bool
  te_error_code :: "string option"
  te_error_message :: "string option"

definition te_ok :: "dict \<Rightarrow> tool_execution" where
  "te_ok result = \<lparr>te_result = Some result, te_is_error = False, te_error_code = None, te_error_message = None\<rparr>"

definition te_error :: "string \<Rightarrow> string \<Rightarrow> tool_execution" where
  "te_error code message = \<lparr>te_result = None, te_is_error = True, te_error_code = Some code, te_error_message = Some message\<rparr>"

definition to_tool_result_payload :: "tool_execution \<Rightarrow> dict" where
  "to_tool_result_payload x =
     (if te_is_error x
      then [(''error'', JObj [(''code'', opt_str (te_error_code x)), (''message'', opt_str (te_error_message x))])]
      else [(''result'', case te_result x of None \<Rightarrow> JNull | Some d \<Rightarrow> JObj d)])"

subsection \<open>Site tools\<close>

definition EVENT_TOOL_MUTATION :: string where
  "EVENT_TOOL_MUTATION = ''tool_mutation''"

record site_env =
  se_cfg :: site_settings
  se_hmac :: hmac
  se_now :: int
  se_repr :: "json \<Rightarrow> string"

definition utf8_ok :: "string \<Rightarrow> bool" where
  "utf8_ok s = list_all (\<lambda>c. \<not> (56320 \<le> c \<and> c \<le> 57343)) (utf8_decode (codes s))"

definition decode_content :: "string \<Rightarrow> string \<Rightarrow> string option" where
  "decode_content content encoding = (if encoding = ''utf8'' then Some content else b64decode True content)"

text \<open>\<open>str(args[k])\<close>.\<close>

definition arg_str :: "site_env \<Rightarrow> dict \<Rightarrow> string \<Rightarrow> string siteop" where
  "arg_str env args k =
     (case map_of args k of
        None \<Rightarrow> op_raise (SiteOther (PyError ''KeyError''))
      | Some v \<Rightarrow> op_return (py_str (se_repr env) v))"

definition site_audit :: "uuid \<Rightarrow> uuid \<Rightarrow> dict \<Rightarrow> unit siteop" where
  "site_audit uid sid payload = (\<lambda>s.
     (Inr (), snd (audit_record \<lparr>ev_user = uid, ev_type = EVENT_TOOL_MUTATION, ev_payload = payload, ev_session = Some sid\<rparr> s)))"

definition tool_write_file :: "site_env \<Rightarrow> dict \<Rightarrow> uuid \<Rightarrow> string \<Rightarrow> uuid \<Rightarrow> tool_execution siteop" where
  "tool_write_file env args uid ext sid =
     op_bind (arg_str env args ''content'') (\<lambda>raw.
     op_bind (arg_str env args ''encoding'') (\<lambda>encoding.
     case decode_content raw encoding of
       None \<Rightarrow> op_return (te_error ''invalid_encoding'' ''content is not valid base64'')
     | Some content \<Rightarrow>
         op_bind (resolve_project uid ext) (\<lambda>project.
         op_bind (arg_str env args ''path'') (\<lambda>path.
         op_bind (arg_str env args ''contentType'') (\<lambda>content_type.
         op_bind (site_write_file (se_cfg env) project path content content_type) (\<lambda>r.
         op_bind (site_audit uid sid
           [(''toolName'', JStr TOOL_SITE_WRITE_FILE), (''projectId'', JStr (uuid_str (pj_id project))),
            (''path'', JStr (wr_path r)), (''bytesWritten'', JInt (wr_bytes_written r))]) (\<lambda>_.
         op_return (te_ok
           [(''path'', JStr (wr_path r)), (''bytesWritten'', JInt (wr_bytes_written r)),
            (''fileCount'', JInt (wr_file_count r)), (''projectBytes'', JInt (wr_project_bytes r))]))))))))"

definition normalized_service_domain :: "site_settings \<Rightarrow> string" where
  "normalized_service_domain cfg =
     (let v = strip (service_domain cfg);
          w = (if startswith (lower v) ''https://'' then drop 8 v
               else if startswith (lower v) ''http://'' then drop 7 v else v)
      in strip_chars (\<lambda>c. c = CHR ''/'') w)"

definition preview_url :: "site_settings \<Rightarrow> uuid \<Rightarrow> string \<Rightarrow> string \<Rightarrow> string" where
  "preview_url cfg pid token entry =
     (let rel = ''/v1/preview/'' @ uuid_str pid @ ''/'' @ token @ ''/'' @ entry; d = normalized_service_domain cfg
      in if d \<noteq> [] then ''https://'' @ d @ rel else rel)"

definition tool_preview :: "site_env \<Rightarrow> dict \<Rightarrow> uuid \<Rightarrow> string \<Rightarrow> tool_execution siteop" where
  "tool_preview env args uid ext =
     op_bind (op_read (get_existing_project uid ext)) (\<lambda>found.
     case found of
       None \<Rightarrow> op_return (te_error ''project_not_found'' ''no project to preview'')
     | Some project \<Rightarrow>
         let entry = (if truthy (dict_get args ''entry'') then py_str (se_repr env) (dict_get args ''entry'') else ''index.html'')
         in case build_token (se_hmac env) (se_cfg env) (pj_id project) uid (se_now env) of
              None \<Rightarrow> op_return (te_error ''preview_unavailable'' ''PREVIEW_URL_SECRET is not configured'')
            | Some (token, expires_at) \<Rightarrow>
                op_return (te_ok
                  [(''url'', JStr (preview_url (se_cfg env) (pj_id project) token entry)),
                   (''expiresAt'', JStr (isoformat (utc (expires_at * 1000000))))]))"

definition tool_list :: "uuid \<Rightarrow> string \<Rightarrow> tool_execution siteop" where
  "tool_list uid ext =
     op_bind (op_read (get_existing_project uid ext)) (\<lambda>found.
     case found of
       None \<Rightarrow> op_return (te_ok [(''files'', JList []), (''fileCount'', JInt 0), (''projectBytes'', JInt 0)])
     | Some project \<Rightarrow> op_read (\<lambda>s. te_ok
         [(''files'', JList (map (\<lambda>f. JObj [(''path'', JStr (sf_path f)), (''contentType'', JStr (sf_content_type f)),
                                            (''size'', JInt (sf_size f))]) (site_list_files project s))),
          (''fileCount'', JInt (fst (project_stats (pj_id project) s))),
          (''projectBytes'', JInt (snd (project_stats (pj_id project) s)))]))"

definition rendered_content :: "site_file \<Rightarrow> string \<times> string" where
  "rendered_content f =
     (if (startswith (sf_content_type f) ''text/'' \<or> sf_content_type f = ''application/json'') \<and> utf8_ok (sf_content f)
      then (sf_content f, ''utf8'') else (b2a_base64 (sf_content f), ''base64''))"

definition tool_read :: "site_env \<Rightarrow> dict \<Rightarrow> uuid \<Rightarrow> string \<Rightarrow> tool_execution siteop" where
  "tool_read env args uid ext =
     op_bind (op_read (get_existing_project uid ext)) (\<lambda>found.
     case found of
       None \<Rightarrow> op_return (te_error ''file_not_found'' ''file not found'')
     | Some project \<Rightarrow>
         op_bind (arg_str env args ''path'') (\<lambda>path.
         op_read (\<lambda>s. case site_read_file (pj_id project) path s of
           None \<Rightarrow> te_error ''file_not_found'' ''file not found''
         | Some f \<Rightarrow> te_ok
             [(''path'', JStr (sf_path f)), (''content'', JStr (fst (rendered_content f))),
              (''encoding'', JStr (snd (rendered_content f))), (''contentType'', JStr (sf_content_type f)),
              (''size'', JInt (sf_size f))])))"

definition tool_delete :: "site_env \<Rightarrow> dict \<Rightarrow> uuid \<Rightarrow> string \<Rightarrow> uuid \<Rightarrow> tool_execution siteop" where
  "tool_delete env args uid ext sid =
     op_bind (op_read (get_existing_project uid ext)) (\<lambda>found.
     op_bind (arg_str env args ''path'') (\<lambda>path.
     case found of
       None \<Rightarrow> op_return (te_ok [(''path'', JStr path), (''deleted'', JBool False), (''fileCount'', JInt 0), (''projectBytes'', JInt 0)])
     | Some project \<Rightarrow>
         op_bind (site_delete_file project path) (\<lambda>(deleted, count, bytes).
         op_bind (site_audit uid sid
           [(''toolName'', JStr TOOL_SITE_DELETE), (''projectId'', JStr (uuid_str (pj_id project))),
            (''path'', JStr path), (''deleted'', JBool deleted)]) (\<lambda>_.
         op_return (te_ok [(''path'', JStr path), (''deleted'', JBool deleted), (''fileCount'', JInt count), (''projectBytes'', JInt bytes)])))))"

definition site_dispatch :: "site_env \<Rightarrow> string \<Rightarrow> dict \<Rightarrow> uuid \<Rightarrow> string \<Rightarrow> uuid \<Rightarrow> tool_execution siteop" where
  "site_dispatch env tool_name args uid ext sid =
     (if tool_name = TOOL_SITE_WRITE_FILE then tool_write_file env args uid ext sid
      else if tool_name = TOOL_SITE_PREVIEW then tool_preview env args uid ext
      else if tool_name = TOOL_SITE_LIST then tool_list uid ext
      else if tool_name = TOOL_SITE_READ then tool_read env args uid ext
      else if tool_name = TOOL_SITE_DELETE then tool_delete env args uid ext sid
      else op_return (te_error ''unknown_tool'' (''unknown server-side tool: '' @ tool_name)))"

text \<open>\<open>execute\<close>: a \<open>SiteFileError\<close> becomes an error result, what was done before it stays.\<close>

definition site_execute :: "site_env \<Rightarrow> string \<Rightarrow> dict \<Rightarrow> uuid \<Rightarrow> string \<Rightarrow> uuid \<Rightarrow> tool_execution dbop" where
  "site_execute env tool_name args uid ext sid = (\<lambda>s.
     case site_dispatch env tool_name args uid ext sid s of
       (Inr x, t) \<Rightarrow> (Inr x, t)
     | (Inl (SiteFileError code msg), t) \<Rightarrow> (Inr (te_error code msg), t)
     | (Inl (SiteOther e), t) \<Rightarrow> (Inl e, t))"

subsection \<open>Current time\<close>

definition WEEKDAYS :: "string list" where
  "WEEKDAYS = [''Monday'', ''Tuesday'', ''Wednesday'', ''Thursday'', ''Friday'', ''Saturday'', ''Sunday'']"

definition TIME_NOW_TZ_MAX_LENGTH :: nat where
  "TIME_NOW_TZ_MAX_LENGTH = 64"

text \<open>1970-01-01 was a Thursday.\<close>

definition weekday_of :: "int \<Rightarrow> string" where
  "weekday_of instant = WEEKDAYS ! nat ((instant div 86400000000 + 3) mod 7)"

text \<open>
  \<open>zones name\<close> is \<open>None\<close> when \<open>ZoneInfo(name)\<close> raises one of the caught errors, otherwise the
  offset in minutes at the instant. The clock gives an aware or a naive value.
\<close>

definition time_now :: "(json \<Rightarrow> string) \<Rightarrow> (string \<Rightarrow> (int \<Rightarrow> int) option) \<Rightarrow> datetime \<Rightarrow> dict \<Rightarrow> tool_execution" where
  "time_now rep zones clk args =
     (let now = dt_instant clk;
          result = [(''utc'', JStr (isoformat (utc now))), (''unix'', JInt (if now < 0 then - ((- now) div 1000000) else now div 1000000)), (''weekday'', JStr (weekday_of now))]
      in case dict_get args ''tz'' of
           JNull \<Rightarrow> te_ok result
         | v \<Rightarrow>
             let tz = py_str rep v in
             if length tz > TIME_NOW_TZ_MAX_LENGTH
             then te_error ''invalid_timezone''
                    (''timezone name exceeds the '' @ nat_str TIME_NOW_TZ_MAX_LENGTH @ ''-character limit'')
             else (case zones tz of
                     None \<Rightarrow> te_error ''invalid_timezone'' (''unknown or unavailable timezone: '' @ tz)
                   | Some off \<Rightarrow> te_ok (dict_set (dict_set result ''timezone'' (JStr tz)) ''local''
                       (JStr (isoformat \<lparr>dt_wall = now + off now * 60000000, dt_offset = Some (off now)\<rparr>)))))"

definition global_execute :: "(json \<Rightarrow> string) \<Rightarrow> (string \<Rightarrow> (int \<Rightarrow> int) option) \<Rightarrow> datetime \<Rightarrow> string \<Rightarrow> dict \<Rightarrow> tool_execution" where
  "global_execute rep zones clk tool_name args =
     (if tool_name = TOOL_TIME_NOW then time_now rep zones clk args
      else te_error ''unknown_tool'' (''unknown global server-side tool: '' @ tool_name))"

end
