(* ===== verification/WebsiteFacts.thy ===== *)
theory WebsiteFacts
  imports SiteTools
begin

text \<open>
  Facts about the website component: the guard yields canonical paths, a preview token opens exactly
  the project and owner it was signed for, and the store keeps its limits.
\<close>

subsection \<open>Segments\<close>

lemma split_on_ne [simp]: "split_on sep s \<noteq> []"
  by (induction s) (auto simp: split_on_def)

lemma split_on_Cons [simp]:
  "split_on sep (c # s) = (if c = sep then [] # split_on sep s else (c # hd (split_on sep s)) # tl (split_on sep s))"
  by (simp add: split_on_def)

lemma split_on_Nil [simp]: "split_on sep [] = [[]]"
  by (simp add: split_on_def)

lemma split_on_plain: "sep \<notin> set x \<Longrightarrow> split_on sep x = [x]"
  by (induction x) auto

lemma split_on_append: "sep \<notin> set x \<Longrightarrow> split_on sep (x @ sep # s) = x # split_on sep s"
  by (induction x) auto

lemma split_on_no_sep: "seg \<in> set (split_on sep s) \<Longrightarrow> sep \<notin> set seg \<and> set seg \<subseteq> set s"
proof (induction s arbitrary: seg)
  case (Cons c s)
  obtain x xs where sp: "split_on sep s = x # xs" by (cases "split_on sep s") auto
  show ?case
  proof (cases "seg \<in> set (split_on sep s)")
    case True
    with Cons.IH [of seg] show ?thesis by auto
  next
    case False
    with Cons.prems sp have "seg = [] \<or> seg = c # x \<and> c \<noteq> sep" by (simp split: if_splits)
    with Cons.IH [of x] sp show ?thesis by auto
  qed
qed simp

lemma join_slash_Cons: "join_slash (x # y # ys) = x @ CHR ''/'' # join_slash (y # ys)"
  by (simp add: join_slash_def)

lemma split_join_slash:
  "segs \<noteq> [] \<Longrightarrow> list_all (\<lambda>x. CHR ''/'' \<notin> set x) segs \<Longrightarrow> split_on (CHR ''/'') (join_slash segs) = segs"
proof (induction segs rule: induct_list012)
  case (2 x)
  then show ?case by (simp add: join_slash_def split_on_plain)
next
  case (3 x y zs)
  then show ?case by (simp add: join_slash_Cons split_on_append)
qed simp

lemma set_join_slash: "set (join_slash segs) \<subseteq> insert (CHR ''/'') (\<Union> (set ` set segs))"
  by (auto simp: join_slash_def split: list.splits)

definition good_segment :: "string \<Rightarrow> bool" where
  "good_segment x \<longleftrightarrow> x \<noteq> [] \<and> x \<noteq> ''.'' \<and> x \<noteq> ''..''"

lemma collect_segments_good: "collect_segments ss = Inr segs \<Longrightarrow> list_all good_segment segs \<and> set segs \<subseteq> set ss"
  by (induction ss arbitrary: segs) (auto simp: good_segment_def split: if_splits sum.splits)

lemma collect_segments_id: "list_all good_segment segs \<Longrightarrow> collect_segments segs = Inr segs"
  by (induction segs) (auto simp: good_segment_def)

text \<open>What the guard lets through, and that it leaves it alone.\<close>

lemma normalize_site_path_Inr:
  assumes "normalize_site_path raw = Inr p"
  obtains segs where "p = join_slash segs" "segs \<noteq> []" "list_all good_segment segs" "split_on (CHR ''/'') p = segs"
    "CHR 0x00 \<notin> set p" "CHR 0x5C \<notin> set p" "hd p \<noteq> CHR ''/''" "p \<noteq> []"
proof -
  from assms obtain segs where c: "collect_segments (split_on (CHR ''/'') raw) = Inr segs" and ne: "segs \<noteq> []"
    and p: "p = join_slash segs" and chars: "CHR 0x00 \<notin> set raw" "CHR 0x5C \<notin> set raw"
    by (auto simp: normalize_site_path_def split: if_splits sum.splits)
  from collect_segments_good [OF c] have good: "list_all good_segment segs" and sub: "set segs \<subseteq> set (split_on (CHR ''/'') raw)" by auto
  have seg: "CHR ''/'' \<notin> set x \<and> set x \<subseteq> set raw" if "x \<in> set segs" for x
    using split_on_no_sep that sub by blast
  then have "split_on (CHR ''/'') p = segs" unfolding p using ne by (intro split_join_slash) (auto simp: list_all_iff)
  moreover have "CHR 0x00 \<notin> set p" "CHR 0x5C \<notin> set p"
    using set_join_slash [of segs] seg chars unfolding p by auto
  moreover
  obtain x xs where segs: "segs = x # xs" using ne by (cases segs) auto
  then have "x \<noteq> []" "CHR ''/'' \<notin> set x" using good seg by (auto simp: good_segment_def)
  then obtain c y where x: "x = c # y" "c \<noteq> CHR ''/''" by (cases x) auto
  have "hd p \<noteq> CHR ''/''" "p \<noteq> []" using x(2) unfolding p segs x(1) by (simp_all add: join_slash_def)
  ultimately show thesis using that p ne good by blast
qed

lemma normalize_site_path_idem:
  assumes "normalize_site_path raw = Inr p"
  shows "normalize_site_path p = Inr p"
  using assms
proof (rule normalize_site_path_Inr)
  fix segs
  assume h: "p = join_slash segs" "segs \<noteq> []" "list_all good_segment segs" "split_on (CHR ''/'') p = segs"
    "CHR 0x00 \<notin> set p" "CHR 0x5C \<notin> set p" "hd p \<noteq> CHR ''/''" "p \<noteq> []"
  from h(7,8) have "\<not> prefix ''/'' p" by (auto simp: prefix_def)
  with h show ?thesis by (simp add: normalize_site_path_def collect_segments_id)
qed

subsection \<open>Preview tokens\<close>

lemma dropWhile_replicate_append: "(xs = [] \<or> hd xs \<noteq> c) \<Longrightarrow> dropWhile (\<lambda>x. x = c) (replicate n c @ xs) = xs"
  by (induction n) (auto simp: dropWhile_eq_self_iff)

lemma url_chars:
  "b64_char n \<noteq> CHR ''-''" "b64_char n \<noteq> CHR ''_''" "b64_char n \<noteq> CHR ''.''"
proof -
  have "\<forall>k \<in> set [0..<64]. b64_alphabet ! k \<notin> {CHR ''-'', CHR ''_'', CHR ''.''}" by code_simp
  then show "b64_char n \<noteq> CHR ''-''" "b64_char n \<noteq> CHR ''_''" "b64_char n \<noteq> CHR ''.''"
    by (simp_all add: b64_char_def)
qed

definition url_char :: "char \<Rightarrow> char" where
  "url_char c = (if c = CHR ''+'' then CHR ''-'' else if c = CHR ''/'' then CHR ''_'' else c)"

lemma url_char_back: "c \<noteq> CHR ''-'' \<Longrightarrow> c \<noteq> CHR ''_'' \<Longrightarrow>
  (if url_char c = CHR ''-'' then CHR ''+'' else if url_char c = CHR ''_'' then CHR ''/'' else url_char c) = c"
  by (auto simp: url_char_def)

lemma b64url_shape:
  "\<exists>ns p. b2a_base64 bs = map b64_char ns @ replicate p (CHR ''='') \<and> p = nat ((- int (length ns)) mod 4) \<and>
     b64url_encode bs = map (\<lambda>n. url_char (b64_char n)) ns"
proof -
  obtain ns p where sh: "b2a_base64 bs = map b64_char ns @ replicate p (CHR ''='')" "p \<le> 2" "4 dvd (length ns + p)"
    using b2a_shape by blast
  have "(- int (length ns)) mod 4 = int p"
  proof -
    from sh(3) obtain k where "length ns + p = 4 * k" by (elim dvdE)
    then have "- int (length ns) = int p + 4 * (- int k)" by linarith
    then have "(- int (length ns)) mod 4 = int p mod 4" by (metis mod_mult_self2)
    with sh(2) show ?thesis by simp
  qed
  moreover have "b64url_encode bs = map (\<lambda>n. url_char (b64_char n)) ns"
  proof -
    let ?u = "map (\<lambda>n. url_char (b64_char n)) ns"
    have "c \<noteq> CHR ''=''" if "c \<in> set ?u" for c using that by (auto simp: url_char_def) (metis b64_char_no_pad)
    then have "rev ?u = [] \<or> hd (rev ?u) \<noteq> CHR ''=''" by (metis hd_in_set set_rev)
    from dropWhile_replicate_append [OF this] have "dropWhile (\<lambda>c. c = CHR ''='') (replicate p (CHR ''='') @ rev ?u) = rev ?u" .
    moreover have "urlsafe_b64encode bs = ?u @ replicate p (CHR ''='')"
      unfolding urlsafe_b64encode_def sh(1) url_char_def [symmetric] by (simp add: url_char_def)
    ultimately show ?thesis by (simp add: b64url_encode_def)
  qed
  ultimately show ?thesis using sh(1) by (intro exI [of _ ns] exI [of _ p]) simp
qed

lemma b64url_roundtrip: "b64url_decode (b64url_encode bs) = Some bs"
proof -
  obtain ns p where sh: "b2a_base64 bs = map b64_char ns @ replicate p (CHR ''='')" "p = nat ((- int (length ns)) mod 4)"
    "b64url_encode bs = map (\<lambda>n. url_char (b64_char n)) ns" using b64url_shape by blast
  have bk: "map (\<lambda>c. if c = CHR ''-'' then CHR ''+'' else if c = CHR ''_'' then CHR ''/'' else c)
      (map (\<lambda>n. url_char (b64_char n)) ns @ replicate p (CHR ''='')) = b2a_base64 bs"
    unfolding sh(1) using url_chars by (simp add: url_char_back)
  have "b64url_encode bs @ replicate (nat ((- int (length (b64url_encode bs))) mod 4)) (CHR ''='') =
      map (\<lambda>n. url_char (b64_char n)) ns @ replicate p (CHR ''='')"
    unfolding sh(2,3) by (simp only: length_map)
  then show ?thesis unfolding b64url_decode_def urlsafe_b64decode_def by (simp only: bk b64_roundtrip)
qed

lemma b64url_no_dot: "CHR ''.'' \<notin> set (b64url_encode bs)"
proof -
  obtain ns where "b64url_encode bs = map (\<lambda>n. url_char (b64_char n)) ns" using b64url_shape by blast
  then show ?thesis using url_chars(3) by (auto simp: url_char_def split: if_splits) metis
qed

lemma int_str_ascii: "is_ascii (int_str n)"
proof -
  have "list_all is_digit (codes (dec_pad k m))" for k m by (rule dec_pad_digits)
  then have "is_ascii (dec_pad k m)" for k m
    by (auto simp: is_ascii_def list_all_iff codes_def is_digit_def) fastforce
  then show ?thesis by (simp add: int_str_def nat_str_def is_ascii_def del: dec_pad.simps)
qed

lemma canonical_inj:
  assumes "p < 2 ^ 128" "p' < 2 ^ 128" "u < 2 ^ 128" "u' < 2 ^ 128" "canonical p u e = canonical p' u' e"
  shows "p = p' \<and> u = u'"
  using assms by (simp add: canonical_def uuid_str_inj)

text \<open>Verifying a token that \<open>build_token\<close> made.\<close>

lemma verify_built:
  assumes "build_token mac cfg p u t = Some (token, expiry)" "0 \<le> expiry" "expiry < 10 ^ 18"
  shows "verify_token mac cfg p' u' token now =
    Inr (mac (preview_url_secret cfg) (canonical p u expiry) = mac (preview_url_secret cfg) (canonical p' u' expiry) \<and> now \<le> expiry)"
proof -
  from assms(1) have sec: "preview_url_secret cfg \<noteq> []"
    and tok: "token = b64url_encode (int_str expiry) @ CHR ''.'' # b64url_encode (mac (preview_url_secret cfg) (canonical p u expiry))"
    by (auto simp: build_token_def sign_preview_def Let_def split: if_splits)
  have "split_on (CHR ''.'') token =
      [b64url_encode (int_str expiry), b64url_encode (mac (preview_url_secret cfg) (canonical p u expiry))]"
    unfolding tok by (simp add: split_on_append split_on_plain b64url_no_dot)
  moreover have "py_int (int_str expiry) = Some expiry"
    using assms(2,3) py_int_nat_str [OF nat_str_short, of "nat expiry"] by (simp add: int_str_def nat_less_iff)
  ultimately show ?thesis using sec
    by (simp add: verify_token_def b64url_roundtrip int_str_ascii sign_preview_def)
qed

subsection \<open>Limits of the store\<close>

definition file_key :: "site_file \<Rightarrow> uuid \<times> string" where
  "file_key f = (sf_project f, sf_path f)"

definition file_ok :: "site_settings \<Rightarrow> site_file \<Rightarrow> bool" where
  "file_ok cfg f \<longleftrightarrow> sf_size f = int (length (sf_content f)) \<and> sf_size f \<le> preview_max_file_bytes cfg \<and>
     normalize_site_path (sf_path f) = Inr (sf_path f) \<and> sf_content_type f \<in> set PREVIEW_CONTENT_TYPE_ALLOWLIST"

definition site_ok :: "site_settings \<Rightarrow> db \<Rightarrow> bool" where
  "site_ok cfg s \<longleftrightarrow> list_all (file_ok cfg) (site_files s) \<and> distinct (map file_key (site_files s)) \<and>
     (\<forall>pid. fst (project_stats pid s) \<le> preview_max_files cfg \<and> snd (project_stats pid s) \<le> preview_max_project_bytes cfg)"

lemma file_at_Some:
  "file_at pid path s = Some f \<Longrightarrow> f \<in> set (site_files s) \<and> file_key f = (pid, path)"
  by (auto simp: file_at_def files_of_def file_key_def dest: find_SomeD)

lemma file_at_None: "file_at pid path s = None \<longleftrightarrow> (pid, path) \<notin> file_key ` set (site_files s)"
  by (auto simp: file_at_def files_of_def file_key_def find_None_iff image_iff)

lemma sum_list_replace:
  assumes "distinct (map k xs)" "x \<in> set xs"
  shows "sum_list (map f (map (\<lambda>y. if k y = k x then z else y) xs)) = sum_list (map f xs) - f x + (f z :: int)"
  using assms
proof (induction xs)
  case (Cons y ys)
  show ?case
  proof (cases "y = x")
    case True
    then have "map (\<lambda>y. if k y = k x then z else y) ys = ys"
      using Cons.prems(1) by (intro map_idI) (auto simp: image_iff)
    then show ?thesis using True by simp
  next
    case False
    then have "x \<in> set ys" using Cons.prems(2) by simp
    then have "k y \<noteq> k x" using Cons.prems(1) by (auto simp: image_iff)
    then show ?thesis using Cons \<open>x \<in> set ys\<close> by simp
  qed
qed simp

lemma files_of_put:
  "files_of q (put_file pid path content ct s) =
     (if q \<noteq> pid then files_of q s
      else let new = \<lparr>sf_project = pid, sf_path = path, sf_content = content, sf_content_type = ct, sf_size = int (length content)\<rparr>
           in if file_at pid path s = None then files_of q s @ [new]
              else map (\<lambda>f. if file_key f = (pid, path) then new else f) (files_of q s))"
proof -
  have "filter (\<lambda>f. sf_project f = q) (map (\<lambda>f. if sf_project f = pid \<and> sf_path f = path then n else f) xs) =
      (if q \<noteq> pid then filter (\<lambda>f. sf_project f = q) xs
       else map (\<lambda>f. if file_key f = (pid, path) then n else f) (filter (\<lambda>f. sf_project f = q) xs))"
    if "sf_project n = pid" for n xs
    using that by (induction xs) (auto simp: file_key_def)
  note this [of "\<lparr>sf_project = pid, sf_path = path, sf_content = content, sf_content_type = ct, sf_size = int (length content)\<rparr>" "site_files s"]
  then show ?thesis by (cases "q = pid") (simp_all add: put_file_def files_of_def Let_def)
qed

lemma put_file_keys:
  "map file_key (site_files (put_file pid path content ct s)) =
     (if file_at pid path s = None then map file_key (site_files s) @ [(pid, path)] else map file_key (site_files s))"
  by (auto simp: put_file_def Let_def file_key_def)

lemma stats_put:
  assumes "distinct (map file_key (site_files s))"
  shows "project_stats pid (put_file pid path content ct s) =
    (fst (project_stats pid s) + (if file_at pid path s = None then 1 else 0),
     snd (project_stats pid s) - (case file_at pid path s of Some f \<Rightarrow> sf_size f | None \<Rightarrow> 0) + int (length content))"
proof (cases "file_at pid path s")
  case None
  then show ?thesis by (simp add: project_stats_def files_of_put Let_def)
next
  case (Some f)
  then have f: "f \<in> set (files_of pid s)" "file_key f = (pid, path)"
    using file_at_Some [OF Some] by (auto simp: files_of_def file_key_def)
  have d: "distinct (map file_key (files_of pid s))" using assms by (simp add: files_of_def distinct_map_filter)
  show ?thesis using sum_list_replace [OF d f(1), of sf_size] Some
    by (simp add: project_stats_def files_of_put Let_def f(2))
qed

lemma stats_put_other: "q \<noteq> pid \<Longrightarrow> project_stats q (put_file pid path content ct s) = project_stats q s"
  by (simp add: project_stats_def files_of_put)

lemma put_file_ok:
  assumes ok: "site_ok cfg s" and path: "normalize_site_path path = Inr path" and ct: "ct \<in> set PREVIEW_CONTENT_TYPE_ALLOWLIST"
    and size: "int (length content) \<le> preview_max_file_bytes cfg"
    and count: "fst (project_stats pid s) + (if file_at pid path s = None then 1 else 0) \<le> preview_max_files cfg"
    and bytes: "snd (project_stats pid s) - (case file_at pid path s of Some f \<Rightarrow> sf_size f | None \<Rightarrow> 0) + int (length content)
      \<le> preview_max_project_bytes cfg"
  shows "site_ok cfg (put_file pid path content ct s)"
proof -
  have d: "distinct (map file_key (site_files s))" and all: "list_all (file_ok cfg) (site_files s)"
    using ok by (simp_all add: site_ok_def)
  have "distinct (map file_key (site_files (put_file pid path content ct s)))"
    using d by (auto simp: put_file_keys file_at_None)
  moreover have "list_all (file_ok cfg) (site_files (put_file pid path content ct s))"
    using all path ct size by (auto simp: put_file_def Let_def list_all_iff file_ok_def)
  moreover have "fst (project_stats q (put_file pid path content ct s)) \<le> preview_max_files cfg \<and>
      snd (project_stats q (put_file pid path content ct s)) \<le> preview_max_project_bytes cfg" for q
    using ok count bytes by (cases "q = pid") (auto simp: site_ok_def stats_put [OF d] stats_put_other)
  ultimately show ?thesis by (simp add: site_ok_def)
qed

lemma stats_cong: "site_files t = site_files s \<Longrightarrow> project_stats pid t = project_stats pid s"
  by (simp add: project_stats_def files_of_def)

lemma site_ok_cong: "site_files t = site_files s \<Longrightarrow> site_ok cfg t = site_ok cfg s"
  unfolding site_ok_def using stats_cong by metis

lemma site_ok_upd [simp]:
  "site_ok cfg (s\<lparr>audit_logs := x\<rparr>) = site_ok cfg s"
  "site_ok cfg (s\<lparr>site_projects := ps, next_id := n\<rparr>) = site_ok cfg s"
  by (rule site_ok_cong; simp)+

lemma sum_list_filter_le:
  assumes "\<And>x. x \<in> set xs \<Longrightarrow> 0 \<le> (f x :: int)"
  shows "sum_list (map f (filter P xs)) \<le> sum_list (map f xs)"
  using assms by (induction xs) force+

lemma filter_files_ok:
  assumes "site_ok cfg s"
  shows "site_ok cfg (s\<lparr>site_files := filter P (site_files s)\<rparr>)"
proof -
  let ?t = "s\<lparr>site_files := filter P (site_files s)\<rparr>"
  have all: "list_all (file_ok cfg) (site_files s)" using assms by (simp add: site_ok_def)
  have fo: "files_of q ?t = filter P (files_of q s)" for q by (simp add: files_of_def conj_commute)
  have "sum_list (map sf_size (files_of q ?t)) \<le> sum_list (map sf_size (files_of q s))" for q
    unfolding fo using all by (intro sum_list_filter_le) (auto simp: files_of_def list_all_iff file_ok_def)
  moreover have "length (files_of q ?t) \<le> length (files_of q s)" for q by (simp add: fo)
  ultimately have "fst (project_stats q ?t) \<le> fst (project_stats q s) \<and> snd (project_stats q ?t) \<le> snd (project_stats q s)" for q
    by (simp add: project_stats_def)
  with assms all show ?thesis
    by (auto simp: site_ok_def list_all_iff distinct_map_filter intro: order_trans)
qed

lemma site_write_file_ok: "op_preserves (site_ok cfg) (site_write_file cfg project path content ct)"
proof (rule op_preservesI)
  fix s assume ok: "site_ok cfg s"
  show "site_ok cfg (snd (site_write_file cfg project path content ct s))"
  proof (cases "normalize_site_path path")
    case (Inl e)
    with ok show ?thesis by (simp add: site_write_file_def)
  next
    case (Inr p)
    show ?thesis using ok put_file_ok [OF ok normalize_site_path_idem [OF Inr], of ct content "pj_id project"]
      by (simp add: site_write_file_def Inr op_bind_read op_bind_modify Let_def split: prod.split)
  qed
qed

lemma site_delete_file_ok: "op_preserves (site_ok cfg) (site_delete_file project path)"
  unfolding site_delete_file_def
  by (auto intro!: op_preserves_bind op_preserves_modify filter_files_ok split: sum.split)

lemma resolve_project_ok: "op_preserves (site_ok cfg) (resolve_project uid ext)"
  by (rule op_preservesI) (auto simp: resolve_project_def Let_def split: option.split)

lemma arg_str_preserves [op_rules]: "op_preserves I (arg_str env args k)"
  by (auto simp: arg_str_def split: option.split)

lemma site_audit_ok: "op_preserves (site_ok cfg) (site_audit uid sid payload)"
  by (rule op_preservesI) (simp add: site_audit_def)

lemma site_dispatch_ok: "op_preserves (site_ok (se_cfg env)) (site_dispatch env tool args uid ext sid)"
  unfolding site_dispatch_def tool_write_file_def tool_preview_def tool_list_def tool_read_def tool_delete_def
  by (auto intro!: op_preserves_bind arg_str_preserves resolve_project_ok site_write_file_ok site_delete_file_ok site_audit_ok
      simp: Let_def split: option.split prod.split)

lemma site_execute_ok: "op_preserves (site_ok (se_cfg env)) (site_execute env tool args uid ext sid)"
proof (rule op_preservesI)
  fix s assume "site_ok (se_cfg env) s"
  from op_preservesD [OF site_dispatch_ok this, of tool args uid ext sid]
  show "site_ok (se_cfg env) (snd (site_execute env tool args uid ext sid s))"
    by (auto simp: site_execute_def split: prod.splits sum.splits site_exn.splits)
qed

end
