(* ===== verification/WebsiteClaims.thy ===== *)
theory WebsiteClaims
  imports WebsiteFacts WalletClaims
begin

text \<open>
  What the website builder promises: a call of a \<^verbatim>\<open>site.*\<close> tool stays within the project of its
  session and within the limits of the store, and a preview token opens exactly the project it was
  signed for.
\<close>

subsection \<open>Isolation\<close>

definition projects_ok :: "db \<Rightarrow> bool" where
  "projects_ok s \<longleftrightarrow> distinct (map pj_id (site_projects s)) \<and> (\<forall>p \<in> set (site_projects s). pj_id p < next_id s)"

definition holds_files :: "site_project \<Rightarrow> site_file list \<Rightarrow> db \<Rightarrow> bool" where
  "holds_files q fs s \<longleftrightarrow> projects_ok s \<and> q \<in> set (site_projects s) \<and> files_of (pj_id q) s = fs"

lemma holds_files_audit [simp]: "holds_files q fs (s\<lparr>audit_logs := x\<rparr>) = holds_files q fs s"
  by (simp add: holds_files_def projects_ok_def files_of_def)

lemma existing_project_differs:
  assumes "holds_files q fs s" "(pj_user q, pj_external q) \<noteq> (uid, ext)" "get_existing_project uid ext s = Some p"
  shows "pj_id p \<noteq> pj_id q"
proof -
  from find_SomeD [OF assms(3) [unfolded get_existing_project_def]]
  have "p \<in> set (site_projects s)" "pj_user p = uid" "pj_external p = ext" by auto
  with assms(1,2) show ?thesis by (auto simp: holds_files_def projects_ok_def distinct_map dest: inj_onD)
qed

lemma read_project_ensures:
  assumes "(pj_user q, pj_external q) \<noteq> (uid, ext)"
  shows "op_ensures (holds_files q fs) (op_read (get_existing_project uid ext)) (\<lambda>r. \<forall>p. r = Some p \<longrightarrow> pj_id p \<noteq> pj_id q)"
  by (rule op_ensuresI) (auto dest: existing_project_differs [OF _ assms])

lemma resolve_project_ensures:
  assumes "(pj_user q, pj_external q) \<noteq> (uid, ext)"
  shows "op_ensures (holds_files q fs) (resolve_project uid ext) (\<lambda>p. pj_id p \<noteq> pj_id q)"
proof (rule op_ensuresI)
  show "op_preserves (holds_files q fs) (resolve_project uid ext)"
  proof (rule op_preservesI)
    fix s assume h: "holds_files q fs s"
    show "holds_files q fs (snd (resolve_project uid ext s))"
    proof (cases "get_existing_project uid ext s = None \<and> users s uid \<noteq> None")
      case True
      with h show ?thesis
        by (auto simp: resolve_project_def holds_files_def projects_ok_def files_of_def Let_def)
    qed (use h in \<open>auto simp: resolve_project_def split: option.split\<close>)
  qed
  fix s x t
  assume "holds_files q fs s" "resolve_project uid ext s = (Inr x, t)"
  then show "pj_id x \<noteq> pj_id q"
    using existing_project_differs [OF _ assms]
    by (auto simp: resolve_project_def holds_files_def projects_ok_def Let_def split: option.splits if_splits)
qed

lemma holds_files_put: "pid \<noteq> pj_id q \<Longrightarrow> holds_files q fs (put_file pid path content ct s) = holds_files q fs s"
  by (simp add: holds_files_def files_of_put) (simp add: put_file_def projects_ok_def Let_def)

lemma write_file_isolated:
  assumes "pj_id p \<noteq> pj_id q"
  shows "op_preserves (holds_files q fs) (site_write_file cfg p path content ct)"
  unfolding site_write_file_def
  by (auto intro!: op_preserves_bind op_preserves_modify simp: holds_files_put [OF assms] Let_def split: sum.split prod.split)

lemma delete_file_isolated:
  assumes "pj_id p \<noteq> pj_id q"
  shows "op_preserves (holds_files q fs) (site_delete_file p path)"
proof -
  have "holds_files q fs (s\<lparr>site_files := filter (\<lambda>f. \<not> (sf_project f = pj_id p \<and> sf_path f = n)) (site_files s)\<rparr>)"
    if "holds_files q fs s" for s n
  proof -
    have "filter (\<lambda>f. sf_project f = pj_id q) (filter (\<lambda>f. \<not> (sf_project f = pj_id p \<and> sf_path f = n)) (site_files s)) =
        filter (\<lambda>f. sf_project f = pj_id q) (site_files s)"
      using assms by (auto simp: intro!: filter_cong)
    with that show ?thesis by (simp add: holds_files_def projects_ok_def files_of_def)
  qed
  then show ?thesis unfolding site_delete_file_def
    by (auto intro!: op_preserves_bind op_preserves_modify split: sum.split)
qed

lemma site_audit_isolated: "op_preserves (holds_files q fs) (site_audit uid sid payload)"
  by (rule op_preservesI) (simp add: site_audit_def)

lemma dispatch_isolated:
  assumes "(pj_user q, pj_external q) \<noteq> (uid, ext)"
  shows "op_preserves (holds_files q fs) (site_dispatch env tool args uid ext sid)"
  unfolding site_dispatch_def tool_write_file_def tool_preview_def tool_list_def tool_read_def tool_delete_def
  by (auto intro!: op_preserves_bind_ensures [OF resolve_project_ensures [OF assms]]
      op_preserves_bind_ensures [OF read_project_ensures [OF assms]] op_preserves_bind [OF arg_str_preserves]
      op_preserves_bind [OF write_file_isolated] op_preserves_bind [OF delete_file_isolated]
      op_preserves_bind [OF site_audit_isolated] simp: Let_def split: option.split prod.split)

lemma execute_isolated:
  assumes "(pj_user q, pj_external q) \<noteq> (uid, ext)" "holds_files q fs s"
  shows "holds_files q fs (snd (site_execute env tool args uid ext sid s))"
  using op_preservesD [OF dispatch_isolated [OF assms(1)] assms(2), of env tool args sid]
  by (auto simp: site_execute_def split: prod.splits sum.splits site_exn.splits)

record site_cmd =
  sc_env :: site_env
  sc_tool :: string
  sc_args :: dict
  sc_user :: uuid
  sc_ext :: string
  sc_session :: uuid

definition exec_site :: "site_settings \<Rightarrow> site_cmd \<Rightarrow> db \<Rightarrow> db" where
  "exec_site cfg c s =
     snd (site_execute ((sc_env c)\<lparr>se_cfg := cfg\<rparr>) (sc_tool c) (sc_args c) (sc_user c) (sc_ext c) (sc_session c) s)"

interpretation site_limits: command_system "exec_site cfg" "site_ok cfg" for cfg
proof
  fix s c assume "site_ok cfg s"
  then show "site_ok cfg (exec_site cfg c s)"
    using op_preservesD [OF site_execute_ok [of "(sc_env c)\<lparr>se_cfg := cfg\<rparr>"]] by (simp add: exec_site_def)
qed

lemma fold_isolated:
  "holds_files q fs s \<Longrightarrow> list_all (\<lambda>c. (sc_user c, sc_ext c) \<noteq> (pj_user q, pj_external q)) cmds \<Longrightarrow>
   holds_files q fs (fold (exec_site cfg) cmds s)"
proof (induction cmds arbitrary: s)
  case (Cons c cmds)
  have "holds_files q fs (exec_site cfg c s)"
    unfolding exec_site_def using Cons.prems by (intro execute_isolated) auto
  with Cons show ?case by simp
qed simp

subsection \<open>Claims\<close>

definition demo_site :: site_settings where
  "demo_site = \<lparr>preview_url_secret = ''s3cret'', preview_url_ttl_seconds = 900, preview_max_file_bytes = 64,
     preview_max_project_bytes = 100, preview_max_files = 2, service_domain = ''https://host.example/''\<rparr>"

definition demo_site_env :: site_env where
  "demo_site_env = \<lparr>se_cfg = demo_site, se_hmac = (\<lambda>k m. k @ m), se_now = 1000, se_repr = (\<lambda>_. [])\<rparr>"

definition demo_site_db :: db where
  "demo_site_db = demo_db\<lparr>site_projects := [\<lparr>pj_id = 0, pj_user = 2, pj_external = ''shop''\<rparr>]\<rparr>"

definition demo_write :: site_cmd where
  "demo_write = \<lparr>sc_env = demo_site_env, sc_tool = ''site.write_file'',
     sc_args = [(''path'', JStr ''a//./index.html''), (''content'', JStr ''hi''), (''encoding'', JStr ''utf8''), (''contentType'', JStr ''text/html'')],
     sc_user = 1, sc_ext = ''shop'', sc_session = 7\<rparr>"

text \<open>
  Claim C30. Whatever sequence of site tools the models of all conversations call, the store stays within its
  limits: every file is within the size limit, has a canonical relative path and an allowed content
  type, no project holds two files of the same path, more files or more bytes than allowed. And a
  project whose owner and external name differ from those of the calling sessions keeps exactly its
  files: neither paths nor arguments reach another project.
\<close>

theorem site_tools_keep_to_their_project:
  assumes "site_ok cfg s" and "projects_ok s" and "q \<in> set (site_projects s)"
  shows "site_ok cfg (fold (exec_site cfg) cmds s) \<and>
    (list_all (\<lambda>c. (sc_user c, sc_ext c) \<noteq> (pj_user q, pj_external q)) cmds \<longrightarrow>
       files_of (pj_id q) (fold (exec_site cfg) cmds s) = files_of (pj_id q) s)"
  using site_limits.run_inv [OF assms(1)] fold_isolated [of q "files_of (pj_id q) s" s cmds cfg] assms(2,3)
  by (simp add: holds_files_def)

lemma demo_site_ok: "site_ok demo_site demo_site_db" "projects_ok demo_site_db"
  by (simp_all add: site_ok_def projects_ok_def demo_site_db_def demo_db_def empty_db_def demo_site_def project_stats_def files_of_def)

lemma demo_write_done: "map file_key (site_files (exec_site demo_site demo_write demo_site_db)) = [(1, ''a/index.html'')]"
proof -
  have "normalize_site_path ''a//./index.html'' = Inr ''a/index.html''" by code_simp
  then show ?thesis
    by (simp add: exec_site_def demo_write_def site_execute_def site_dispatch_def tool_name_defs tool_write_file_def op_bind_def
        arg_str_def decode_content_def resolve_project_def get_existing_project_def demo_site_db_def demo_db_def empty_db_def Let_def
        demo_site_env_def demo_site_def site_write_file_def PREVIEW_CONTENT_TYPE_ALLOWLIST_def project_stats_def files_of_def
        file_at_def put_file_def site_audit_def file_key_def)
qed

theorem site_tools_keep_to_their_project_witness:
  "site_ok demo_site (fold (exec_site demo_site) [demo_write] demo_site_db) \<and>
   files_of 0 (fold (exec_site demo_site) [demo_write] demo_site_db) = files_of 0 demo_site_db \<and>
   map file_key (site_files (exec_site demo_site demo_write demo_site_db)) = [(1, ''a/index.html'')]"
  using site_tools_keep_to_their_project [OF demo_site_ok, of "\<lparr>pj_id = 0, pj_user = 2, pj_external = ''shop''\<rparr>" "[demo_write]"]
    demo_write_done by (simp add: demo_site_db_def demo_write_def)

text \<open>
  Claim C31. A preview token opens exactly the project and owner it was issued for, until it expires:
  verification of a token built for project \<open>p\<close> of owner \<open>u\<close> accepts the pair
  \<open>(p', u')\<close> at \<open>now\<close> if and only if it is that pair and the expiry has not passed. The only
  assumption on the message authentication code is that it does not collide on the two signed texts.
\<close>

theorem preview_token_opens_its_project:
  assumes "build_token mac cfg p u t = Some (token, expiry)" and "0 \<le> expiry" and "expiry < 10 ^ 18"
    and "p < 2 ^ 128" "p' < 2 ^ 128" "u < 2 ^ 128" "u' < 2 ^ 128"
    and "canonical p u expiry \<noteq> canonical p' u' expiry \<Longrightarrow>
      mac (preview_url_secret cfg) (canonical p u expiry) \<noteq> mac (preview_url_secret cfg) (canonical p' u' expiry)"
  shows "verify_token mac cfg p' u' token now = Inr (p' = p \<and> u' = u \<and> now \<le> expiry)"
  using verify_built [OF assms(1-3), of p' u' now] canonical_inj [OF assms(4-7), of expiry] assms(8) by auto

theorem preview_token_opens_its_project_witness:
  "\<exists>token. build_token (\<lambda>k m. k @ m) demo_site 5 1 100 = Some (token, 1000) \<and>
     verify_token (\<lambda>k m. k @ m) demo_site 5 1 token 1000 = Inr True \<and>
     verify_token (\<lambda>k m. k @ m) demo_site 6 1 token 1000 = Inr False"
proof -
  obtain token where t: "build_token (\<lambda>k m. k @ m) demo_site 5 1 100 = Some (token, 1000)"
    by (simp add: build_token_def sign_preview_def demo_site_def)
  show ?thesis
    using preview_token_opens_its_project [OF t, of 5 1 1000] preview_token_opens_its_project [OF t, of 6 1 1000] t by simp
qed

end
