(* ===== verification/Attachments.thy ===== *)
theory Attachments
  imports SiteTools
begin

text \<open>
  Inline attachments (\<^verbatim>\<open>chat/attachments.py\<close>) and the validation of knowledge files
  (\<^verbatim>\<open>workspaces/text_extract.py\<close>): the allowlist, the size limits before decoding, the
  consistency checks and the blocks for the provider. The PDF library is an argument: what it finds in a
  document. \<open>json.loads\<close> is the scanner of the event transport.
\<close>

subsection \<open>Text in characters\<close>

definition text_len :: "string \<Rightarrow> nat" where
  "text_len s = length (utf8_decode (codes s))"

definition text_take :: "nat \<Rightarrow> string \<Rightarrow> string" where
  "text_take n s = (case utf8_encode (take n (utf8_decode (codes s))) of Some bs \<Rightarrow> map char_of bs | None \<Rightarrow> s)"

subsection \<open>Allowlist, sizes and checks\<close>

record attachment =
  at_type :: string
  at_media_type :: string
  at_filename :: "string option"
  at_data :: string

record attachment_settings =
  attachment_max_count :: int
  attachment_max_bytes_image :: int
  attachment_max_bytes_document :: int
  attachment_total_bytes :: int
  attachment_pdf_max_pages :: int

text \<open>What the PDF library finds: an unreadable file, or whether it is encrypted and the text of its pages.\<close>

datatype pdf = PdfUnreadable | PdfDoc bool "string list"

record prepared_attachments =
  pa_content_blocks :: "dict list"
  pa_placeholders :: "dict list"

definition ATTACHMENT_ALLOWLIST :: "(string \<times> string list) list" where
  "ATTACHMENT_ALLOWLIST =
     [(''image'', [''image/jpeg'', ''image/png'', ''image/gif'', ''image/webp'']),
      (''document'', [''application/pdf'']),
      (''text'', [''text/plain'', ''text/markdown'', ''text/csv'', ''application/json''])]"

definition MAGIC_PREFIXES :: "(string \<times> string list) list" where
  "MAGIC_PREFIXES =
     [(''image/jpeg'', [[CHR 0xFF, CHR 0xD8, CHR 0xFF]]),
      (''image/png'', [CHR 0x89 # ''PNG'' @ [CHR 0x0D, CHR 0x0A, CHR 0x1A, CHR 0x0A]]),
      (''image/gif'', [''GIF87a'', ''GIF89a'']),
      (''application/pdf'', [''%PDF-''])]"

definition max_bytes_for :: "string \<Rightarrow> attachment_settings \<Rightarrow> int" where
  "max_bytes_for ty cfg = (if ty = ''document'' then attachment_max_bytes_document cfg else attachment_max_bytes_image cfg)"

definition decoded_len_from_base64 :: "string \<Rightarrow> int" where
  "decoded_len_from_base64 data =
     (let stripped = strip data; n = length stripped
      in if n = 0 then 0
         else int (n div 4 * 3) - int (length (filter (\<lambda>c. c = CHR ''='') (drop (n - 2) stripped))))"

definition invalid :: "string \<Rightarrow> exn" where
  "invalid msg = App (error ValidationFailedError msg)"

definition decode_base64 :: "string \<Rightarrow> exn + string" where
  "decode_base64 data = (case b64decode True data of None \<Rightarrow> Inl (invalid ''attachment data is not valid base64'') | Some d \<Rightarrow> Inr d)"

definition check_magic_bytes :: "string \<Rightarrow> string \<Rightarrow> exn option" where
  "check_magic_bytes media_type decoded =
     (let mismatch = Some (invalid ''attachment content does not match declared mediaType'') in
      if media_type = ''image/webp''
      then if take 4 decoded = ''RIFF'' \<and> take 4 (drop 8 decoded) = ''WEBP'' then None else mismatch
      else case map_of MAGIC_PREFIXES media_type of
             None \<Rightarrow> None
           | Some ps \<Rightarrow> if list_ex (\<lambda>p. startswith decoded p) ps then None else mismatch)"

definition decode_text :: "string \<Rightarrow> string \<Rightarrow> exn + string" where
  "decode_text media_type decoded =
     (if \<not> utf8_ok decoded then Inl (invalid ''text attachment is not valid UTF-8'')
      else if media_type = ''application/json'' \<and> loads_doc (utf8_decode (codes decoded)) = None
      then Inl (invalid ''attachment content does not match declared mediaType'')
      else Inr decoded)"

definition check_pdf_pages :: "(string \<Rightarrow> pdf) \<Rightarrow> attachment_settings \<Rightarrow> string \<Rightarrow> exn option" where
  "check_pdf_pages reader cfg decoded =
     (case reader decoded of
        PdfUnreadable \<Rightarrow> Some (invalid ''PDF could not be parsed'')
      | PdfDoc encrypted pages \<Rightarrow>
          if encrypted then Some (invalid ''password-protected PDF is not accepted'')
          else if int (length pages) > attachment_pdf_max_pages cfg
          then Some (invalid ''PDF exceeds the maximum allowed number of pages'') else None)"

subsection \<open>Blocks\<close>

definition sent_once_text :: string where
  "sent_once_text =
      [CHR 0xD0, CHR 0xBE, CHR 0xD1, CHR 0x82, CHR 0xD0, CHR 0xBF, CHR 0xD1, CHR 0x80, CHR 0xD0, CHR 0xB0, CHR 0xD0,
      CHR 0xB2, CHR 0xD0, CHR 0xBB, CHR 0xD0, CHR 0xB5, CHR 0xD0, CHR 0xBD, CHR 0xD0, CHR 0xBE] @ '' '' @ [CHR 0xD0,
      CHR 0xB2] @ '' '' @ [CHR 0xD0, CHR 0xBF, CHR 0xD0, CHR 0xB5, CHR 0xD1, CHR 0x80, CHR 0xD0, CHR 0xB2, CHR 0xD0,
      CHR 0xBE, CHR 0xD0, CHR 0xBC] @ '' '' @ [CHR 0xD0, CHR 0xBE, CHR 0xD0, CHR 0xB1, CHR 0xD1, CHR 0x80, CHR 0xD0,
      CHR 0xB0, CHR 0xD1, CHR 0x89, CHR 0xD0, CHR 0xB5, CHR 0xD0, CHR 0xBD, CHR 0xD0, CHR 0xB8, CHR 0xD0, CHR 0xB8] @
      '' '' @ [CHR 0xD0, CHR 0xBA] @ '' '' @ [CHR 0xD0, CHR 0xBC, CHR 0xD0, CHR 0xBE, CHR 0xD0, CHR 0xB4, CHR 0xD0,
      CHR 0xB5, CHR 0xD0, CHR 0xBB, CHR 0xD0, CHR 0xB8]"

definition filename_or :: "attachment \<Rightarrow> string" where
  "filename_or att = (case at_filename att of Some f \<Rightarrow> if f = [] then ''file'' else f | None \<Rightarrow> ''file'')"

definition placeholder :: "attachment \<Rightarrow> nat \<Rightarrow> dict" where
  "placeholder att decoded_size =
     [(''type'', JStr ''text''),
      (''text'', JStr (''[attachment: '' @ at_media_type att @ '' '' @ [CHR 0x22] @ filename_or att @ [CHR 0x22] @ '', '' @ nat_str decoded_size @ ''B '' @
                       em_dash @ '' '' @ sent_once_text @ '']''))]"

definition text_block :: "attachment \<Rightarrow> string option \<Rightarrow> dict" where
  "text_block att txt =
     [(''type'', JStr ''text''),
      (''text'', JStr (filename_or att @ [CHR 0x0A] @ ''```'' @ [CHR 0x0A] @ (case txt of Some t \<Rightarrow> t | None \<Rightarrow> []) @ [CHR 0x0A] @ ''```''))]"

definition data_uri :: "string \<Rightarrow> string \<Rightarrow> string" where
  "data_uri media_type data = ''data:'' @ media_type @ '';base64,'' @ data"

definition anthropic_content_block :: "attachment \<Rightarrow> string option \<Rightarrow> dict" where
  "anthropic_content_block att txt =
     (if at_type att = ''image''
      then [(''type'', JStr ''image''),
            (''source'', JObj [(''type'', JStr ''base64''), (''media_type'', JStr (at_media_type att)), (''data'', JStr (at_data att))])]
      else if at_type att = ''document''
      then [(''type'', JStr ''document''),
            (''source'', JObj [(''type'', JStr ''base64''), (''media_type'', JStr ''application/pdf''), (''data'', JStr (at_data att))])]
      else text_block att txt)"

definition openai_content_block :: "attachment \<Rightarrow> string option \<Rightarrow> dict" where
  "openai_content_block att txt =
     (if at_type att = ''image''
      then [(''type'', JStr ''image_url''), (''image_url'', JObj [(''url'', JStr (data_uri (at_media_type att) (at_data att)))])]
      else if at_type att = ''document''
      then [(''type'', JStr ''file''),
            (''file'', JObj [(''filename'', JStr (filename_or att)), (''file_data'', JStr (data_uri (at_media_type att) (at_data att)))])]
      else text_block att txt)"

definition attachment_content_block :: "string \<Rightarrow> attachment \<Rightarrow> string option \<Rightarrow> dict" where
  "attachment_content_block provider att txt =
     (if provider = ''openai'' then openai_content_block att txt else anthropic_content_block att txt)"

subsection \<open>Preparation\<close>

text \<open>The checks of one decoded attachment; \<open>Inr\<close> is its text when it has one.\<close>

definition check_decoded :: "(string \<Rightarrow> pdf) \<Rightarrow> attachment_settings \<Rightarrow> string \<Rightarrow> string \<Rightarrow> string \<Rightarrow> exn + string option" where
  "check_decoded reader cfg ty media_type decoded =
     (if ty = ''image''
      then (case check_magic_bytes media_type decoded of Some e \<Rightarrow> Inl e | None \<Rightarrow> Inr None)
      else if ty = ''document''
      then (case check_magic_bytes media_type decoded of
              Some e \<Rightarrow> Inl e
            | None \<Rightarrow> (case check_pdf_pages reader cfg decoded of Some e \<Rightarrow> Inl e | None \<Rightarrow> Inr None))
      else (case decode_text media_type decoded of Inl e \<Rightarrow> Inl e | Inr t \<Rightarrow> Inr (Some t)))"

fun prepare_from :: "(string \<Rightarrow> pdf) \<Rightarrow> attachment_settings \<Rightarrow> string \<Rightarrow> int \<Rightarrow> attachment list \<Rightarrow> exn + prepared_attachments" where
  "prepare_from reader cfg provider tot [] = Inr \<lparr>pa_content_blocks = [], pa_placeholders = []\<rparr>"
| "prepare_from reader cfg provider tot (att # rest) =
     (if (case map_of ATTACHMENT_ALLOWLIST (at_type att) of None \<Rightarrow> True | Some ok \<Rightarrow> at_media_type att \<notin> set ok)
      then Inl (invalid (''unsupported_media_type: '' @ at_media_type att))
      else
        let approx = decoded_len_from_base64 (at_data att) in
        if approx > max_bytes_for (at_type att) cfg then Inl (invalid ''attachment exceeds the maximum size'')
        else if tot + approx > attachment_total_bytes cfg then Inl (invalid ''attachments exceed the total size limit'')
        else case decode_base64 (at_data att) of
          Inl e \<Rightarrow> Inl e
        | Inr decoded \<Rightarrow>
            (case check_decoded reader cfg (at_type att) (at_media_type att) decoded of
               Inl e \<Rightarrow> Inl e
             | Inr txt \<Rightarrow>
                 (case prepare_from reader cfg provider (tot + approx) rest of
                    Inl e \<Rightarrow> Inl e
                  | Inr p \<Rightarrow> Inr \<lparr>pa_content_blocks = attachment_content_block provider att txt # pa_content_blocks p,
                                  pa_placeholders = placeholder att (length decoded) # pa_placeholders p\<rparr>)))"

definition prepare_attachments :: "(string \<Rightarrow> pdf) \<Rightarrow> attachment_settings \<Rightarrow> string \<Rightarrow> attachment list \<Rightarrow> exn + prepared_attachments" where
  "prepare_attachments reader cfg provider atts =
     (if int (length atts) > attachment_max_count cfg then Inl (invalid ''too many attachments'')
      else prepare_from reader cfg provider 0 atts)"

subsection \<open>Knowledge files\<close>

record extracted_file =
  ex_content :: string
  ex_text :: "string option"
  ex_size :: nat

text \<open>The texts of the pages that have any, separated by blank lines.\<close>

fun join_pages :: "string list \<Rightarrow> string" where
  "join_pages [] = []"
| "join_pages [p] = p"
| "join_pages (p # q # ps) = p @ [CHR 0x0A, CHR 0x0A] @ join_pages (q # ps)"

definition extract_pdf_text :: "(string \<Rightarrow> pdf) \<Rightarrow> string \<Rightarrow> exn + string" where
  "extract_pdf_text reader decoded =
     (case reader decoded of
        PdfUnreadable \<Rightarrow> Inl (invalid ''PDF could not be parsed'')
      | PdfDoc _ pages \<Rightarrow> Inr (strip (join_pages (filter (\<lambda>p. p \<noteq> []) pages))))"

definition too_large :: exn where
  "too_large = App (error PayloadTooLargeError ''file exceeds the maximum allowed size'')"

definition validate_and_extract :: "(string \<Rightarrow> pdf) \<Rightarrow> attachment_settings \<Rightarrow> int \<Rightarrow> attachment \<Rightarrow> exn + extracted_file" where
  "validate_and_extract reader cfg max_bytes req =
     (if (case map_of ATTACHMENT_ALLOWLIST (at_type req) of None \<Rightarrow> True | Some ok \<Rightarrow> at_media_type req \<notin> set ok)
      then Inl (invalid (''unsupported_media_type: '' @ at_media_type req))
      else if decoded_len_from_base64 (at_data req) > max_bytes then Inl too_large
      else case decode_base64 (at_data req) of
        Inl e \<Rightarrow> Inl e
      | Inr decoded \<Rightarrow>
          if int (length decoded) > max_bytes then Inl too_large
          else case check_decoded reader cfg (at_type req) (at_media_type req) decoded of
            Inl e \<Rightarrow> Inl e
          | Inr txt \<Rightarrow>
              (case (if at_type req = ''document'' then map_sum id Some (extract_pdf_text reader decoded) else Inr txt) of
                 Inl e \<Rightarrow> Inl e
               | Inr t \<Rightarrow> Inr \<lparr>ex_content = decoded, ex_text = t, ex_size = length decoded\<rparr>))"

end
