(* ===== verification/Workspaces.thy ===== *)
theory Workspaces
  imports Attachments
begin

text \<open>
  Workspaces (\<^verbatim>\<open>workspaces/repository.py\<close>, \<^verbatim>\<open>workspaces/service.py\<close>): projects of a user with
  instructions and knowledge files, and the context they give to the first turn of a conversation. The
  current time is an argument. Every query is scoped to the owner.
\<close>

record workspace_settings =
  workspace_file_max_count :: int
  workspace_file_max_bytes :: int
  workspace_files_total_bytes :: int
  workspace_context_max_chars :: int

subsection \<open>Repository\<close>

definition get_workspace :: "uuid \<Rightarrow> uuid \<Rightarrow> db \<Rightarrow> workspace option" where
  "get_workspace wid uid s =
     (case map_of (workspaces s) wid of Some w \<Rightarrow> if ws_user w = uid then Some w else None | None \<Rightarrow> None)"

definition create_workspace :: "int \<Rightarrow> uuid \<Rightarrow> string \<Rightarrow> string option \<Rightarrow> string option \<Rightarrow> uuid dbop" where
  "create_workspace now uid name descr instr = (\<lambda>s.
     if users s uid = None then (Inl DbError, s)
     else (Inr (next_id s),
           s\<lparr>workspaces := (next_id s, \<lparr>ws_user = uid, ws_name = name, ws_description = descr, ws_instructions = instr,
                                         ws_created_at = now, ws_updated_at = now\<rparr>) # workspaces s,
             next_id := next_id s + 1\<rparr>))"

definition get_instructions :: "uuid \<Rightarrow> uuid \<Rightarrow> db \<Rightarrow> string option" where
  "get_instructions wid uid s = (case get_workspace wid uid s of None \<Rightarrow> None | Some w \<Rightarrow> ws_instructions w)"

definition update_workspace :: "int \<Rightarrow> uuid \<Rightarrow> workspace \<Rightarrow> string option \<Rightarrow> string option option \<Rightarrow> string option option \<Rightarrow> workspace dbop" where
  "update_workspace now wid w name descr instr =
     (let w' = w\<lparr>ws_name := (case name of Some n \<Rightarrow> n | None \<Rightarrow> ws_name w),
                 ws_description := (case descr of Some d \<Rightarrow> d | None \<Rightarrow> ws_description w),
                 ws_instructions := (case instr of Some i \<Rightarrow> i | None \<Rightarrow> ws_instructions w), ws_updated_at := now\<rparr>
      in op_bind (op_modify (\<lambda>s. s\<lparr>workspaces := AList.update wid w' (workspaces s)\<rparr>)) (\<lambda>_. op_return w'))"

text \<open>The foreign keys: knowledge files go with the workspace, its conversations stay without one.\<close>

definition delete_workspace :: "uuid \<Rightarrow> uuid \<Rightarrow> bool dbop" where
  "delete_workspace wid uid = (\<lambda>s.
     if get_workspace wid uid s = None then (Inr False, s)
     else (Inr True,
           s\<lparr>workspaces := AList.delete wid (workspaces s),
             workspace_files := filter (\<lambda>f. wf_workspace f \<noteq> wid) (workspace_files s),
             chat_sessions := (\<lambda>x. map_option (\<lambda>c. if ses_workspace c = Some wid then c\<lparr>ses_workspace := None\<rparr> else c) (chat_sessions s x))\<rparr>))"

text \<open>Oldest first; identifiers grow with the insertions of equal time.\<close>

definition ws_list_files :: "uuid \<Rightarrow> db \<Rightarrow> workspace_file list" where
  "ws_list_files wid s = sort_key (\<lambda>f. wf_created_at f) (sort_key (\<lambda>f. wf_id f) (filter (\<lambda>f. wf_workspace f = wid) (workspace_files s)))"

definition ws_file_count :: "uuid \<Rightarrow> db \<Rightarrow> int" where
  "ws_file_count wid s = int (length (filter (\<lambda>f. wf_workspace f = wid) (workspace_files s)))"

definition ws_total_bytes :: "uuid \<Rightarrow> db \<Rightarrow> int" where
  "ws_total_bytes wid s = sum_list (map wf_size (filter (\<lambda>f. wf_workspace f = wid) (workspace_files s)))"

definition ws_add_file :: "int \<Rightarrow> uuid \<Rightarrow> string \<Rightarrow> string \<Rightarrow> string \<Rightarrow> int \<Rightarrow> string option \<Rightarrow> workspace_file dbop" where
  "ws_add_file now wid filename content media_type nbytes txt = (\<lambda>s.
     if map_of (workspaces s) wid = None \<or> nbytes < 0 then (Inl DbError, s)
     else let f = \<lparr>wf_id = next_id s, wf_workspace = wid, wf_filename = filename, wf_content = content, wf_media_type = media_type,
                   wf_size = nbytes, wf_extracted_text = txt, wf_created_at = now\<rparr>
          in (Inr f, s\<lparr>workspace_files := workspace_files s @ [f], next_id := next_id s + 1\<rparr>))"

definition ws_delete_file :: "uuid \<Rightarrow> uuid \<Rightarrow> bool dbop" where
  "ws_delete_file wid fid = (\<lambda>s.
     (Inr (list_ex (\<lambda>f. wf_id f = fid \<and> wf_workspace f = wid) (workspace_files s)),
      s\<lparr>workspace_files := filter (\<lambda>f. \<not> (wf_id f = fid \<and> wf_workspace f = wid)) (workspace_files s)\<rparr>))"

subsection \<open>Service\<close>

record workspace_file_view =
  wv_file_id :: uuid
  wv_filename :: string
  wv_media_type :: string
  wv_size :: int
  wv_has_extracted_text :: bool
  wv_created_at :: int

definition file_view :: "workspace_file \<Rightarrow> workspace_file_view" where
  "file_view f = \<lparr>wv_file_id = wf_id f, wv_filename = wf_filename f, wv_media_type = wf_media_type f, wv_size = wf_size f,
     wv_has_extracted_text = (case wf_extracted_text f of Some t \<Rightarrow> t \<noteq> [] | None \<Rightarrow> False), wv_created_at = wf_created_at f\<rparr>"

definition ws_create :: "int \<Rightarrow> uuid \<Rightarrow> string \<Rightarrow> string option \<Rightarrow> string option \<Rightarrow> uuid dbop" where
  "ws_create now uid name descr instr = create_workspace now uid (strip name) descr instr"

definition require_workspace :: "uuid \<Rightarrow> uuid \<Rightarrow> workspace dbop" where
  "require_workspace wid uid =
     op_bind (op_read (get_workspace wid uid)) (\<lambda>w. case w of None \<Rightarrow> raise_app NotFoundError ''workspace not found'' | Some x \<Rightarrow> op_return x)"

definition ws_get_detail :: "uuid \<Rightarrow> uuid \<Rightarrow> (workspace \<times> workspace_file_view list) dbop" where
  "ws_get_detail wid uid =
     op_bind (require_workspace wid uid) (\<lambda>w. op_read (\<lambda>s. (w, map file_view (ws_list_files wid s))))"

definition ws_update :: "int \<Rightarrow> uuid \<Rightarrow> uuid \<Rightarrow> string option \<Rightarrow> string option option \<Rightarrow> string option option \<Rightarrow> (workspace \<times> workspace_file_view list) dbop" where
  "ws_update now wid uid name descr instr =
     op_bind (require_workspace wid uid) (\<lambda>w.
     op_bind (update_workspace now wid w (map_option strip name) descr instr) (\<lambda>w'.
     op_read (\<lambda>s. (w', map file_view (ws_list_files wid s)))))"

definition ws_delete :: "uuid \<Rightarrow> uuid \<Rightarrow> unit dbop" where
  "ws_delete wid uid =
     op_bind (delete_workspace wid uid) (\<lambda>deleted. if deleted then op_return () else raise_app NotFoundError ''workspace not found'')"

definition upload_file :: "(string \<Rightarrow> pdf) \<Rightarrow> attachment_settings \<Rightarrow> workspace_settings \<Rightarrow> int \<Rightarrow> uuid \<Rightarrow> uuid \<Rightarrow> attachment \<Rightarrow> workspace_file_view dbop" where
  "upload_file reader acfg wcfg now wid uid req =
     op_bind (require_workspace wid uid) (\<lambda>_.
     op_bind (op_read (ws_file_count wid)) (\<lambda>count.
     if count \<ge> workspace_file_max_count wcfg then raise_app ValidationFailedError ''workspace file count limit exceeded''
     else case validate_and_extract reader acfg (workspace_file_max_bytes wcfg) req of
       Inl e \<Rightarrow> op_raise e
     | Inr x \<Rightarrow>
         op_bind (op_read (ws_total_bytes wid)) (\<lambda>current.
         if current + int (ex_size x) > workspace_files_total_bytes wcfg
         then raise_app ValidationFailedError ''workspace total size limit exceeded''
         else op_bind (ws_add_file now wid (case at_filename req of Some f \<Rightarrow> f | None \<Rightarrow> []) (ex_content x) (at_media_type req)
                         (int (ex_size x)) (ex_text x)) (\<lambda>row.
              op_return (file_view row)))))"

definition ws_files :: "uuid \<Rightarrow> uuid \<Rightarrow> workspace_file_view list dbop" where
  "ws_files wid uid = op_bind (require_workspace wid uid) (\<lambda>_. op_read (\<lambda>s. map file_view (ws_list_files wid s)))"

definition ws_remove_file :: "uuid \<Rightarrow> uuid \<Rightarrow> uuid \<Rightarrow> unit dbop" where
  "ws_remove_file wid uid fid =
     op_bind (require_workspace wid uid) (\<lambda>_.
     op_bind (ws_delete_file wid fid) (\<lambda>deleted. if deleted then op_return () else raise_app NotFoundError ''file not found''))"

definition owns_workspace :: "uuid \<Rightarrow> uuid \<Rightarrow> db \<Rightarrow> bool" where
  "owns_workspace wid uid s \<longleftrightarrow> get_workspace wid uid s \<noteq> None"

definition nonempty :: "string option \<Rightarrow> string option" where
  "nonempty x = (case x of Some t \<Rightarrow> if t = [] then None else Some t | None \<Rightarrow> None)"

definition instructions_for_session :: "uuid \<Rightarrow> uuid \<Rightarrow> db \<Rightarrow> string option" where
  "instructions_for_session wid uid s = nonempty (get_instructions wid uid s)"

subsection \<open>Context of the first turn\<close>

definition project_file_text :: string where
  "project_file_text = [CHR 0xD0, CHR 0xA4, CHR 0xD0, CHR 0xB0, CHR 0xD0, CHR 0xB9, CHR 0xD0, CHR 0xBB] @ '' '' @ [CHR 0xD0, CHR 0xBF,
      CHR 0xD1, CHR 0x80, CHR 0xD0, CHR 0xBE, CHR 0xD0, CHR 0xB5, CHR 0xD0, CHR 0xBA, CHR 0xD1, CHR 0x82, CHR 0xD0,
      CHR 0xB0] @ '': ''"

definition WS_IMAGE_TYPES :: "string list" where
  "WS_IMAGE_TYPES = [''image/jpeg'', ''image/png'', ''image/gif'', ''image/webp'']"

definition image_block :: "string \<Rightarrow> workspace_file \<Rightarrow> dict" where
  "image_block provider f =
     (let data = b2a_base64 (wf_content f) in
      if provider = ''openai''
      then [(''type'', JStr ''image_url''), (''image_url'', JObj [(''url'', JStr (data_uri (wf_media_type f) data))])]
      else [(''type'', JStr ''image''),
            (''source'', JObj [(''type'', JStr ''base64''), (''media_type'', JStr (wf_media_type f)), (''data'', JStr data)])])"

fun file_blocks :: "int \<Rightarrow> string \<Rightarrow> int \<Rightarrow> workspace_file list \<Rightarrow> dict list" where
  "file_blocks max_chars provider used [] = []"
| "file_blocks max_chars provider used (f # fs) =
     (if wf_media_type f \<in> set WS_IMAGE_TYPES then image_block provider f # file_blocks max_chars provider used fs
      else case nonempty (wf_extracted_text f) of
             None \<Rightarrow> file_blocks max_chars provider used fs
           | Some t \<Rightarrow>
               if used \<ge> max_chars then file_blocks max_chars provider used fs
               else let snippet = text_take (nat (max_chars - used)) t
                    in [(''type'', JStr ''text''),
                        (''text'', JStr (''['' @ project_file_text @ wf_filename f @ '']'' @ [CHR 0x0A] @ snippet))] #
                       file_blocks max_chars provider (used + int (text_len snippet)) fs)"

definition build_file_attachments :: "workspace_settings \<Rightarrow> string \<Rightarrow> workspace_file list \<Rightarrow> prepared_attachments option" where
  "build_file_attachments cfg provider files =
     (let blocks = file_blocks (workspace_context_max_chars cfg) provider 0 files
      in if blocks = [] then None else Some \<lparr>pa_content_blocks = blocks, pa_placeholders = []\<rparr>)"

definition context_for_session :: "workspace_settings \<Rightarrow> string \<Rightarrow> uuid \<Rightarrow> uuid \<Rightarrow> db \<Rightarrow> (string option \<times> prepared_attachments option) option" where
  "context_for_session cfg provider wid uid s =
     (case get_workspace wid uid s of
        None \<Rightarrow> None
      | Some w \<Rightarrow> Some (nonempty (ws_instructions w), build_file_attachments cfg provider (ws_list_files wid s)))"

end
