(* ===== verification/ChatContext.thy ===== *)
theory ChatContext
  imports Workspaces
begin

text \<open>
  The texts a turn is made of (\<^verbatim>\<open>chat/orchestrator.py\<close>, first part; \<open>derive_title\<close> of
  \<^verbatim>\<open>chat/repository.py\<close>; \<open>strip_context_block\<close> of \<^verbatim>\<open>chats/repository.py\<close>): system prompts,
  the conversation settings block in front of a message and its removal from what the user sees, titles
  and summaries. White space and case are those of ASCII; lengths count characters.
\<close>

subsection \<open>Words\<close>

text \<open>\<open>s.split()\<close> and \<open>" ".join(xs)\<close>.\<close>

function words_of :: "string \<Rightarrow> string list" where
  "words_of s =
     (let t = dropWhile is_space s in
      if t = [] then [] else takeWhile (\<lambda>c. \<not> is_space c) t # words_of (dropWhile (\<lambda>c. \<not> is_space c) t))"
  by pat_completeness auto
termination
proof (relation "measure length", goal_cases)
  case (2 s t)
  then obtain c u where t: "t = c # u" by (cases t) blast+
  have "\<not> is_space (hd (dropWhile is_space s))" using 2 hd_dropWhile by metis
  then have "\<not> is_space c" unfolding 2(1) [symmetric] t by simp
  then have "length (dropWhile (\<lambda>c. \<not> is_space c) t) < length t"
    unfolding t by (simp add: less_Suc_eq_le length_dropWhile_le)
  also have "\<dots> \<le> length s" using 2 by (simp add: length_dropWhile_le)
  finally show ?case by simp
qed simp

declare words_of.simps [simp del]

fun join_with :: "string \<Rightarrow> string list \<Rightarrow> string" where
  "join_with sep [] = []"
| "join_with sep [x] = x"
| "join_with sep (x # y # ys) = x @ sep @ join_with sep (y # ys)"

subsection \<open>Prompts\<close>

definition TIME_NOW_INSTRUCTION :: string where
  "TIME_NOW_INSTRUCTION =
     ''You do not have built-in knowledge of the current date or time. If the user's request '' @
     ''depends on the current date, time, or day of the week, call the time.now tool to get it; '' @
     ''do not guess.''"

definition SYSTEM_PROMPT_CHAT :: string where
  "SYSTEM_PROMPT_CHAT =
     ''You are a helpful assistant integrated into an iOS app. You can call tools that the '' @
     ''user's device executes locally (files, calendar, reminders). Use tools when needed and '' @
     ''respond concisely. '' @ TIME_NOW_INSTRUCTION"

definition SYSTEM_PROMPT_CODE :: string where
  "SYSTEM_PROMPT_CODE =
     ''You are a coding assistant integrated into an iOS app. Favor precise, technical answers: '' @
     ''produce correct, idiomatic code with brief explanations. You can call tools that the '' @
     ''user's device executes locally (files, calendar, reminders) and server-side site tools. '' @
     ''Use tools when needed and respond concisely. '' @ TIME_NOW_INSTRUCTION"

definition system_prompt_for :: "string \<Rightarrow> string" where
  "system_prompt_for assistant_mode = (if assistant_mode = ''code'' then SYSTEM_PROMPT_CODE else SYSTEM_PROMPT_CHAT)"

definition blank_line :: string where
  "blank_line = [CHR 0x0A, CHR 0x0A]"

definition system_prompt_with_workspace :: "string \<Rightarrow> string option \<Rightarrow> string" where
  "system_prompt_with_workspace assistant_mode instr =
     (let base = system_prompt_for assistant_mode in
      case instr of
        Some i \<Rightarrow> if strip i \<noteq> [] then base @ blank_line @ strip i else base
      | None \<Rightarrow> base)"

subsection \<open>Conversation settings\<close>

definition CONTEXT_FREE_STRING_MAX :: "(string \<times> nat) list" where
  "CONTEXT_FREE_STRING_MAX = [(''codeLanguage'', 40), (''tone'', 40), (''locale'', 35)]"

definition CONTEXT_ENUMS :: "(string \<times> string list) list" where
  "CONTEXT_ENUMS = [(''responseStyle'', [''concise'', ''balanced'', ''detailed'']), (''verbosity'', [''low'', ''medium'', ''high''])]"

definition CONTEXT_LOCALE_CHARS :: string where
  "CONTEXT_LOCALE_CHARS = ''abcdefghijklmnopqrstuvwxyzABCDEFGHIJKLMNOPQRSTUVWXYZ0123456789_-''"

definition CONTEXT_KEY_ORDER :: "string list" where
  "CONTEXT_KEY_ORDER = [''codeLanguage'', ''responseStyle'', ''verbosity'', ''tone'', ''locale'']"

definition sanitize_context_value :: "string \<Rightarrow> string" where
  "sanitize_context_value v =
     join_with '' '' (words_of (map (\<lambda>c. if c \<in> {CHR 0x0A, CHR 0x0D, CHR '';'', CHR ''=''} then CHR '' '' else c) v))"

definition validated_context_value :: "string \<Rightarrow> json \<Rightarrow> string option" where
  "validated_context_value key raw =
     (case raw of
        JStr r \<Rightarrow>
          let v = strip r in
          if v = [] then None
          else (case map_of CONTEXT_ENUMS key of
                  Some allowed_values \<Rightarrow> if lower v \<in> set allowed_values then Some (lower v) else None
                | None \<Rightarrow>
                    if key = ''locale''
                    then if text_len v > 35 then None
                         else if list_ex (\<lambda>c. c \<notin> set CONTEXT_LOCALE_CHARS) v then None else Some v
                    else (case map_of CONTEXT_FREE_STRING_MAX key of
                            Some m \<Rightarrow> if text_len v > m then None else nonempty (Some (sanitize_context_value v))
                          | None \<Rightarrow> None))
      | _ \<Rightarrow> None)"

definition context_parts :: "dict \<Rightarrow> string list" where
  "context_parts context = concat (map (\<lambda>key.
     case map_of context key of
       None \<Rightarrow> []
     | Some raw \<Rightarrow> (case validated_context_value key raw of None \<Rightarrow> [] | Some v \<Rightarrow> [key @ ''='' @ v])) CONTEXT_KEY_ORDER)"

definition CONTEXT_PREFIX :: string where
  "CONTEXT_PREFIX = ''[Conversation settings for this message: ''"

definition render_context_block :: "dict option \<Rightarrow> string option" where
  "render_context_block context =
     (case context of
        None \<Rightarrow> None
      | Some d \<Rightarrow> if context_parts d = [] then None else Some (CONTEXT_PREFIX @ join_with ''; '' (context_parts d) @ '']''))"

definition compose_turn0_text :: "string option \<Rightarrow> string \<Rightarrow> string" where
  "compose_turn0_text block msg =
     (if strip msg = [] then (case block of Some b \<Rightarrow> b | None \<Rightarrow> [])
      else case block of Some b \<Rightarrow> b @ blank_line @ msg | None \<Rightarrow> msg)"

text \<open>
  The pattern \<^verbatim>\<open>^\[Conversation settings for this message: [^\]]*\](?:\n\n|\Z)\<close>, removed once.
\<close>

definition strip_context_block :: "string \<Rightarrow> string" where
  "strip_context_block t =
     (if \<not> prefix CONTEXT_PREFIX t then t
      else case dropWhile (\<lambda>c. c \<noteq> CHR '']'') (drop (length CONTEXT_PREFIX) t) of
             [] \<Rightarrow> t
           | _ # rest \<Rightarrow> if prefix blank_line rest then drop 2 rest else if rest = [] then [] else t)"

subsection \<open>Attachments, titles and summaries\<close>

definition merge_attachments :: "prepared_attachments option \<Rightarrow> prepared_attachments option \<Rightarrow> prepared_attachments option" where
  "merge_attachments chat ws =
     (if chat = None \<and> ws = None then None
      else Some \<lparr>pa_content_blocks = (case ws of Some w \<Rightarrow> pa_content_blocks w | None \<Rightarrow> []) @
                                     (case chat of Some c \<Rightarrow> pa_content_blocks c | None \<Rightarrow> []),
                 pa_placeholders = (case chat of Some c \<Rightarrow> pa_placeholders c | None \<Rightarrow> [])\<rparr>)"

definition active_provider :: "string \<Rightarrow> string" where
  "active_provider llm_provider = lower (strip llm_provider)"

definition SUMMARY_MAX_CHARS :: nat where
  "SUMMARY_MAX_CHARS = 120"

definition server_tool_summary :: "tool_execution \<Rightarrow> string" where
  "server_tool_summary x =
     (if te_is_error x
      then text_take SUMMARY_MAX_CHARS (case nonempty (te_error_code x) of Some c \<Rightarrow> c | None \<Rightarrow> ''errored'')
      else ''ok'')"

definition derive_title :: "string \<Rightarrow> string option" where
  "derive_title message =
     (let normalized = join_with '' '' (words_of message) in if normalized = [] then None else Some (text_take 60 normalized))"

end
