(* ===== verification/Preferences.thy ===== *)
theory Preferences
  imports Database
begin

text \<open>
  The preferences of a user (\<^verbatim>\<open>preferences/service.py\<close>): defaults without a row, and an upsert that
  touches only the fields that were given. The enumeration column refuses a value outside it.
\<close>

definition ASSISTANT_MODES :: "string list" where
  "ASSISTANT_MODES = [''chat'', ''code'']"

definition DEFAULT_ASSISTANT_MODE :: string where
  "DEFAULT_ASSISTANT_MODE = ''chat''"

definition pref_defaults :: user_preferences where
  "pref_defaults = \<lparr>pref_assistant_mode = DEFAULT_ASSISTANT_MODE, pref_notifications = False, pref_code_defaults = []\<rparr>"

definition pref_get :: "uuid \<Rightarrow> user_preferences dbop" where
  "pref_get uid = op_read (\<lambda>s. case preferences s uid of None \<Rightarrow> pref_defaults | Some p \<Rightarrow> p)"

definition pref_merge :: "user_preferences \<Rightarrow> string option \<Rightarrow> bool option \<Rightarrow> dict option \<Rightarrow> user_preferences" where
  "pref_merge p am ne cd =
     \<lparr>pref_assistant_mode = (case am of Some x \<Rightarrow> x | None \<Rightarrow> pref_assistant_mode p),
      pref_notifications = (case ne of Some x \<Rightarrow> x | None \<Rightarrow> pref_notifications p),
      pref_code_defaults = (case cd of Some x \<Rightarrow> x | None \<Rightarrow> pref_code_defaults p)\<rparr>"

definition pref_patch :: "uuid \<Rightarrow> string option \<Rightarrow> bool option \<Rightarrow> dict option \<Rightarrow> user_preferences dbop" where
  "pref_patch uid am ne cd = (\<lambda>s.
     let p = pref_merge (case preferences s uid of None \<Rightarrow> pref_defaults | Some p \<Rightarrow> p) am ne cd in
     if pref_assistant_mode p \<notin> set ASSISTANT_MODES \<or> preferences s uid = None \<and> users s uid = None then (Inl DbError, s)
     else (Inr p, s\<lparr>preferences := (preferences s)(uid \<mapsto> p)\<rparr>))"

definition get_default_assistant_mode :: "uuid \<Rightarrow> string dbop" where
  "get_default_assistant_mode uid = op_read (\<lambda>s.
     case preferences s uid of None \<Rightarrow> DEFAULT_ASSISTANT_MODE | Some p \<Rightarrow> pref_assistant_mode p)"

text \<open>What is read back after a patch, and that an empty patch changes no answer.\<close>

lemma pref_patch_get:
  assumes "pref_patch uid am ne cd s = (Inr p, t)"
  shows "fst (pref_get uid t) = Inr p \<and> (uid' \<noteq> uid \<longrightarrow> fst (pref_get uid' t) = (fst (pref_get uid' s) :: exn + user_preferences))"
  using assms by (auto simp: pref_patch_def pref_get_def Let_def split: if_splits)

lemma pref_merge_none [simp]: "pref_merge p None None None = p"
  by (simp add: pref_merge_def)

lemma pref_patch_modes:
  "\<forall>u p. preferences s u = Some p \<longrightarrow> pref_assistant_mode p \<in> set ASSISTANT_MODES \<Longrightarrow>
   fst (get_default_assistant_mode uid (snd (pref_patch uid' am ne cd s))) \<in> (Inr ` set ASSISTANT_MODES :: (exn + string) set)"
  by (auto simp: pref_patch_def get_default_assistant_mode_def Let_def DEFAULT_ASSISTANT_MODE_def ASSISTANT_MODES_def split: option.split)

end
