(* ===== verification/Byok.thy ===== *)
theory Byok
  imports PyBase64 Policy
begin

text \<open>
  The user's own provider key: envelope encryption with a wrapped data key
  (\<^verbatim>\<open>byok/kms.py\<close>), and the operations of \<^verbatim>\<open>byok/service.py\<close>. AES-GCM is a library: the
  record \<open>aead\<close> holds its two functions, and the only law used is that decryption inverts encryption.
  Random keys and nonces, and the provider's verdict on a key, are arguments.
\<close>

subsection \<open>Envelope encryption\<close>

record aead =
  ae_encrypt :: "string \<Rightarrow> string \<Rightarrow> string \<Rightarrow> string"
  ae_decrypt :: "string \<Rightarrow> string \<Rightarrow> string \<Rightarrow> string option"

definition LOCAL_NONCE_LEN :: nat where
  "LOCAL_NONCE_LEN = 12"

definition local_encrypt_dek :: "aead \<Rightarrow> string \<Rightarrow> string \<Rightarrow> string \<Rightarrow> string" where
  "local_encrypt_dek a master nonce dek = nonce @ ae_encrypt a master nonce dek"

definition local_decrypt_dek :: "aead \<Rightarrow> string \<Rightarrow> string \<Rightarrow> string option" where
  "local_decrypt_dek a master blob =
     ae_decrypt a master (take LOCAL_NONCE_LEN blob) (drop LOCAL_NONCE_LEN blob)"

text \<open>\<open>get_kms_client\<close> and the constructor of \<open>LocalKmsClient\<close>: the configured master key.\<close>

definition kms_master_key :: "string \<Rightarrow> string + string" where
  "kms_master_key configured =
     (if configured = [] then Inl ''RuntimeError''
      else case b64decode False configured of
             None \<Rightarrow> Inl ''binascii.Error''
           | Some k \<Rightarrow> if length k \<noteq> 32 then Inl ''ValueError'' else Inr k)"

subsection \<open>Service\<close>

definition EVENT_BYOK_CHANGE :: string where
  "EVENT_BYOK_CHANGE = ''byok_change''"

record byok_settings =
  bs_llm_provider :: string
  bs_byok_default_model :: string
  bs_openai_byok_default_model :: string

record byok_result =
  br_enabled :: bool
  br_key_status :: string
  br_active_model :: "string option"

datatype key_validation = KV_valid | KV_invalid | KV_offline

definition key_validation_value :: "key_validation \<Rightarrow> string" where
  "key_validation_value v = (case v of KV_valid \<Rightarrow> ''valid'' | KV_invalid \<Rightarrow> ''invalid'' | KV_offline \<Rightarrow> ''offline'')"

definition active_model_for :: "byok_settings \<Rightarrow> string \<Rightarrow> string option" where
  "active_model_for cfg status =
     (if status \<noteq> ''valid'' then None
      else if lower (strip (bs_llm_provider cfg)) = ''openai'' then Some (bs_openai_byok_default_model cfg)
      else Some (bs_byok_default_model cfg))"

definition byok_audit :: "uuid \<Rightarrow> dict \<Rightarrow> unit dbop" where
  "byok_audit uid payload = audit_record \<lparr>ev_user = uid, ev_type = EVENT_BYOK_CHANGE, ev_payload = payload, ev_session = None\<rparr>"

definition put_key :: "uuid \<Rightarrow> byok_key \<Rightarrow> unit dbop" where
  "put_key uid k = (\<lambda>s.
     if byok_keys s uid = None \<and> users s uid = None then (Inl DbError, s)
     else (Inr (), s\<lparr>byok_keys := (byok_keys s)(uid \<mapsto> k)\<rparr>))"

definition set_key :: "byok_settings \<Rightarrow> aead \<Rightarrow> string \<Rightarrow> uuid \<Rightarrow> string \<Rightarrow> key_validation \<Rightarrow> string \<Rightarrow> string \<Rightarrow> string \<Rightarrow> byok_result dbop" where
  "set_key cfg a master uid api_key validation dek nonce kms_nonce =
     (let status = key_validation_value validation;
          sealed = (ae_encrypt a dek nonce api_key, local_encrypt_dek a master kms_nonce dek, nonce)
      in op_bind (op_read (\<lambda>s. byok_keys s uid)) (\<lambda>existing.
         let enabled = (case existing of None \<Rightarrow> False | Some k \<Rightarrow> key_enabled k \<and> status = ''valid'')
         in op_bind (put_key uid \<lparr>key_sealed = sealed, key_status = status, key_enabled = enabled\<rparr>) (\<lambda>_.
            op_bind (byok_audit uid [(''action'', JStr ''set''), (''keyStatus'', JStr status), (''byokEnabled'', JBool enabled)]) (\<lambda>_.
            op_return \<lparr>br_enabled = enabled, br_key_status = status, br_active_model = active_model_for cfg status\<rparr>))))"

definition byok_toggle :: "byok_settings \<Rightarrow> uuid \<Rightarrow> bool \<Rightarrow> byok_result dbop" where
  "byok_toggle cfg uid enabled =
     op_bind (op_read (\<lambda>s. byok_keys s uid)) (\<lambda>row.
     case row of
       None \<Rightarrow> op_return \<lparr>br_enabled = False, br_key_status = ''missing'', br_active_model = None\<rparr>
     | Some k \<Rightarrow>
         if enabled \<and> key_status k \<noteq> ''valid''
         then op_bind (byok_audit uid [(''action'', JStr ''toggle_rejected''), (''requested'', JBool enabled), (''keyStatus'', JStr (key_status k))]) (\<lambda>_.
              op_return \<lparr>br_enabled = False, br_key_status = key_status k, br_active_model = active_model_for cfg (key_status k)\<rparr>)
         else op_bind (put_key uid (k\<lparr>key_enabled := enabled\<rparr>)) (\<lambda>_.
              op_bind (byok_audit uid [(''action'', JStr ''toggle''), (''byokEnabled'', JBool enabled), (''keyStatus'', JStr (key_status k))]) (\<lambda>_.
              op_return \<lparr>br_enabled = enabled, br_key_status = key_status k, br_active_model = active_model_for cfg (key_status k)\<rparr>)))"

definition delete_key :: "uuid \<Rightarrow> byok_result dbop" where
  "delete_key uid =
     op_bind (op_modify (\<lambda>s. s\<lparr>byok_keys := (byok_keys s)(uid := None)\<rparr>)) (\<lambda>_.
     op_bind (byok_audit uid [(''action'', JStr ''delete''), (''byokEnabled'', JBool False), (''keyStatus'', JStr ''missing'')]) (\<lambda>_.
     op_return \<lparr>br_enabled = False, br_key_status = ''missing'', br_active_model = None\<rparr>))"

definition byok_get_status :: "byok_settings \<Rightarrow> uuid \<Rightarrow> byok_result dbop" where
  "byok_get_status cfg uid = op_read (\<lambda>s.
     case byok_keys s uid of
       None \<Rightarrow> \<lparr>br_enabled = False, br_key_status = ''missing'', br_active_model = None\<rparr>
     | Some k \<Rightarrow> \<lparr>br_enabled = key_enabled k, br_key_status = key_status k, br_active_model = active_model_for cfg (key_status k)\<rparr>)"

text \<open>A ciphertext that does not authenticate raises \<open>InvalidTag\<close>.\<close>

definition get_plaintext_key :: "aead \<Rightarrow> string \<Rightarrow> uuid \<Rightarrow> string option dbop" where
  "get_plaintext_key a master uid =
     op_bind (op_read (\<lambda>s. byok_keys s uid)) (\<lambda>row.
     case row of
       None \<Rightarrow> op_return None
     | Some k \<Rightarrow>
         (case key_sealed k of
            (enc_key, enc_dek, nonce) \<Rightarrow>
              (case local_decrypt_dek a master enc_dek of
                 None \<Rightarrow> op_raise (PyError ''InvalidTag'')
               | Some dek \<Rightarrow>
                   (case ae_decrypt a dek nonce enc_key of
                      None \<Rightarrow> op_raise (PyError ''InvalidTag'')
                    | Some p \<Rightarrow> op_return (Some p)))))"

definition mark_runtime :: "string \<Rightarrow> string \<Rightarrow> uuid \<Rightarrow> unit dbop" where
  "mark_runtime action status uid =
     op_bind (op_read (\<lambda>s. byok_keys s uid)) (\<lambda>row.
     case row of
       None \<Rightarrow> op_return ()
     | Some k \<Rightarrow>
         op_bind (put_key uid (k\<lparr>key_status := status, key_enabled := False\<rparr>)) (\<lambda>_.
         byok_audit uid [(''action'', JStr action), (''keyStatus'', JStr status)]))"

definition mark_invalid :: "uuid \<Rightarrow> unit dbop" where
  "mark_invalid = mark_runtime ''runtime_invalidate'' ''invalid''"

definition mark_expired :: "uuid \<Rightarrow> unit dbop" where
  "mark_expired = mark_runtime ''runtime_expire'' ''expired''"

subsection \<open>Facts\<close>

text \<open>A key is enabled only while its last known status is valid.\<close>

definition byok_ok :: "db \<Rightarrow> bool" where
  "byok_ok s \<longleftrightarrow> (\<forall>u k. byok_keys s u = Some k \<longrightarrow> key_enabled k \<longrightarrow> key_status k = ''valid'')"

lemma byok_ok_audit [simp]: "byok_ok (s\<lparr>audit_logs := x\<rparr>) = byok_ok s"
  by (simp add: byok_ok_def)

lemma byok_audit_ok: "op_preserves byok_ok (byok_audit uid p)"
  by (rule op_preservesI) (simp add: byok_audit_def)

lemma put_key_ok: "(key_enabled k \<Longrightarrow> key_status k = ''valid'') \<Longrightarrow> op_preserves byok_ok (put_key uid k)"
  by (rule op_preservesI) (auto simp: put_key_def byok_ok_def)

lemmas byok_op_rules = op_preserves_bind byok_audit_ok put_key_ok op_preserves_modify

lemma set_key_ok: "op_preserves byok_ok (set_key cfg a master uid api_key v dek nonce kn)"
  unfolding set_key_def Let_def
  by (intro byok_op_rules op_preserves_read op_preserves_return) (auto split: option.splits)

lemma toggle_ok: "op_preserves byok_ok (byok_toggle cfg uid b)"
  unfolding byok_toggle_def
  by (intro byok_op_rules op_preserves_read op_preserves_return op_preserves_if op_preserves_option) auto

lemma delete_key_ok: "op_preserves byok_ok (delete_key uid)"
  unfolding delete_key_def by (intro byok_op_rules op_preserves_return) (auto simp: byok_ok_def split: if_splits)

lemma mark_runtime_ok: "op_preserves byok_ok (mark_runtime action status uid)"
  unfolding mark_runtime_def by (intro byok_op_rules op_preserves_read op_preserves_return op_preserves_option) auto

datatype byok_cmd =
    SetKey string key_validation string string string
  | Toggle bool
  | DeleteKey
  | MarkInvalid
  | MarkExpired

fun exec_byok :: "byok_settings \<Rightarrow> aead \<Rightarrow> string \<Rightarrow> uuid \<times> byok_cmd \<Rightarrow> db \<Rightarrow> db" where
  "exec_byok cfg a m (u, SetKey k v dek n kn) s = snd (set_key cfg a m u k v dek n kn s)"
| "exec_byok cfg a m (u, Toggle b) s = snd (byok_toggle cfg u b s)"
| "exec_byok cfg a m (u, DeleteKey) s = snd (delete_key u s)"
| "exec_byok cfg a m (u, MarkInvalid) s = snd (mark_invalid u s)"
| "exec_byok cfg a m (u, MarkExpired) s = snd (mark_expired u s)"

interpretation byok_history: command_system "exec_byok cfg a m" byok_ok for cfg a m
proof
  fix s and c :: "uuid \<times> byok_cmd" assume ok: "byok_ok s"
  obtain u b where c: "c = (u, b)" by (cases c)
  show "byok_ok (exec_byok cfg a m c s)"
    unfolding c by (cases b) (auto simp: mark_invalid_def mark_expired_def
        intro: op_preservesD [OF set_key_ok ok] op_preservesD [OF toggle_ok ok] op_preservesD [OF delete_key_ok ok]
          op_preservesD [OF mark_runtime_ok ok])
qed

text \<open>A stored key is read back: the envelope opens with the master key it was sealed under.\<close>

lemma stored_key_roundtrip:
  assumes law: "\<And>k n p. ae_decrypt a k n (ae_encrypt a k n p) = Some p"
    and len: "length kn = LOCAL_NONCE_LEN" and user: "users s uid \<noteq> None"
  shows "\<exists>r t. set_key cfg a master uid api_key v dek nonce kn s = (Inr r, t) \<and>
    get_plaintext_key a master uid t = (Inr (Some api_key), t)"
proof -
  have "local_decrypt_dek a master (local_encrypt_dek a master kn dek) = Some dek"
    using len law by (simp add: local_decrypt_dek_def local_encrypt_dek_def)
  then show ?thesis
    using user law
    by (simp add: set_key_def Let_def op_bind_read put_key_def op_bind_def byok_audit_def get_plaintext_key_def)
qed

text \<open>Only an enabled key with status valid passes the gate, so the gate and the store agree.\<close>

lemma gate_needs_valid_key:
  assumes "byok_ok s" "load_policy_state now uid s = (Inr state, t)" "allow (evaluate state ModeByok)"
  shows "\<exists>k. byok_keys s uid = Some k \<and> key_enabled k \<and> key_status k = ''valid''"
proof (cases "byok_keys s uid")
  case None
  with assms show ?thesis by (auto simp: load_policy_state_def policy_defs split: if_splits)
next
  case (Some k)
  then obtain b where b: "byok_state_of (key_status k) = Some b" and st: "byok_enabled state = key_enabled k"
    using assms(2) by (auto simp: load_policy_state_def Let_def split: option.splits)
  have "byok_enabled state" using assms(3) by (auto simp: policy_defs split: if_splits)
  with st assms(1) Some show ?thesis by (auto simp: byok_ok_def)
qed

text \<open>Every stored envelope opens under the master key.\<close>

definition opens :: "aead \<Rightarrow> string \<Rightarrow> byok_key \<Rightarrow> bool" where
  "opens a m k \<longleftrightarrow> (case key_sealed k of (enc, wrapped, nonce) \<Rightarrow>
     \<exists>dek p. local_decrypt_dek a m wrapped = Some dek \<and> ae_decrypt a dek nonce enc = Some p)"

definition all_open :: "aead \<Rightarrow> string \<Rightarrow> db \<Rightarrow> bool" where
  "all_open a m s \<longleftrightarrow> (\<forall>u k. byok_keys s u = Some k \<longrightarrow> opens a m k)"

lemma all_open_reads: "all_open a m s \<Longrightarrow> byok_keys s u = Some k \<Longrightarrow> \<exists>p. get_plaintext_key a m u s = (Inr (Some p), s)"
  by (force simp: all_open_def opens_def get_plaintext_key_def op_bind_read split: prod.splits)

lemma all_open_audit: "op_preserves (all_open a m) (byok_audit uid p)"
  by (rule op_preservesI) (simp add: byok_audit_def all_open_def)

lemma all_open_put: "opens a m k \<Longrightarrow> op_preserves (all_open a m) (put_key uid k)"
  by (rule op_preservesI) (auto simp: put_key_def all_open_def)

lemma opens_keep: "opens a m (k\<lparr>key_status := st\<rparr>) = opens a m k" "opens a m (k\<lparr>key_enabled := b\<rparr>) = opens a m k"
  by (simp_all add: opens_def)

lemma read_key_ensures: "op_ensures (all_open a m) (op_read (\<lambda>s. byok_keys s u)) (\<lambda>r. \<forall>k. r = Some k \<longrightarrow> opens a m k)"
  by (rule op_ensuresI) (auto simp: all_open_def)

lemma mark_runtime_open: "op_preserves (all_open a m) (mark_runtime x y u)"
  unfolding mark_runtime_def
  by (rule op_preserves_bind_ensures [OF read_key_ensures])
    (auto intro!: op_preserves_bind all_open_audit all_open_put simp: opens_keep split: option.split)

definition fresh_nonces :: "byok_cmd \<Rightarrow> bool" where
  "fresh_nonces c = (case c of SetKey k v dek n kn \<Rightarrow> length kn = LOCAL_NONCE_LEN | _ \<Rightarrow> True)"

lemma exec_byok_all_open:
  assumes law: "\<And>k n p. ae_decrypt a k n (ae_encrypt a k n p) = Some p" and "fresh_nonces b" and ok: "all_open a m s"
  shows "all_open a m (exec_byok cfg a m (u, b) s)"
proof (cases b)
  case (SetKey k v dek n kn)
  have "opens a m \<lparr>key_sealed = (ae_encrypt a dek n k, local_encrypt_dek a m kn dek, n), key_status = st, key_enabled = e\<rparr>" for st e
    using assms(2) law by (simp add: SetKey fresh_nonces_def opens_def local_decrypt_dek_def local_encrypt_dek_def)
  then have "op_preserves (all_open a m) (set_key cfg a m u k v dek n kn)"
    unfolding set_key_def Let_def
    by (intro op_preserves_bind all_open_audit all_open_put op_preserves_read op_preserves_return)
  with ok show ?thesis by (simp add: SetKey op_preservesD)
next
  case (Toggle e)
  have "op_preserves (all_open a m) (byok_toggle cfg u e)"
    unfolding byok_toggle_def
    by (rule op_preserves_bind_ensures [OF read_key_ensures])
      (auto intro!: op_preserves_bind all_open_audit all_open_put simp: opens_keep split: option.split)
  with ok show ?thesis by (simp add: Toggle op_preservesD)
next
  case DeleteKey
  have "op_preserves (all_open a m) (delete_key u)"
    unfolding delete_key_def
    by (intro op_preserves_bind all_open_audit op_preserves_return op_preserves_modify) (auto simp: all_open_def split: if_splits)
  with ok show ?thesis by (simp add: DeleteKey op_preservesD)
next
  case MarkInvalid
  with ok show ?thesis by (simp add: MarkInvalid mark_invalid_def op_preservesD [OF mark_runtime_open])
next
  case MarkExpired
  with ok show ?thesis by (simp add: MarkExpired mark_expired_def op_preservesD [OF mark_runtime_open])
qed

lemma history_all_open:
  assumes law: "\<And>k n p. ae_decrypt a k n (ae_encrypt a k n p) = Some p"
  shows "list_all (\<lambda>(_, b). fresh_nonces b) cmds \<Longrightarrow> all_open a m s \<Longrightarrow> all_open a m (fold (exec_byok cfg a m) cmds s)"
proof (induction cmds arbitrary: s)
  case (Cons c cmds)
  obtain u b where c: "c = (u, b)" by (cases c)
  with Cons.prems have "all_open a m (exec_byok cfg a m c s)"
    unfolding c by (intro exec_byok_all_open law) auto
  with Cons c show ?case by simp
qed simp

text \<open>
  Claim C32. Whatever sequence of set, toggle, delete and run-time invalidation of keys has happened since
  there were none: when the access gate admits a request in own-key mode, the user's key is enabled, its
  last known status is valid, and the envelope opens, so the key is available to the model call. The
  only law assumed of the cipher is that decryption inverts encryption; the nonces of the key wrap have
  their fixed length.
\<close>

theorem admitted_byok_key_is_usable:
  assumes "\<And>k n p. ae_decrypt a k n (ae_encrypt a k n p) = Some p" and "byok_keys s0 = Map.empty"
    and "list_all (\<lambda>(_, b). fresh_nonces b) cmds" and "s = fold (exec_byok cfg a master) cmds s0"
    and "load_policy_state now uid s = (Inr state, s)" and "allow (evaluate state ModeByok)"
  shows "\<exists>k p. byok_keys s uid = Some k \<and> key_enabled k \<and> key_status k = ''valid'' \<and>
    get_plaintext_key a master uid s = (Inr (Some p), s)"
proof -
  have "byok_ok s" unfolding assms(4) by (rule byok_history.run_inv) (simp add: byok_ok_def assms(2))
  from gate_needs_valid_key [OF this assms(5,6)] obtain k
    where k: "byok_keys s uid = Some k" "key_enabled k" "key_status k = ''valid''" by blast
  have "all_open a master s"
    unfolding assms(4) by (rule history_all_open [OF assms(1,3)]) (simp add: all_open_def assms(2))
  from all_open_reads [OF this k(1)] k show ?thesis by blast
qed

definition demo_aead :: aead where
  "demo_aead = \<lparr>ae_encrypt = (\<lambda>k n p. p), ae_decrypt = (\<lambda>k n c. Some c)\<rparr>"

definition demo_byok_cfg :: byok_settings where
  "demo_byok_cfg = \<lparr>bs_llm_provider = ''anthropic'', bs_byok_default_model = ''m1'', bs_openai_byok_default_model = ''m2''\<rparr>"

definition demo_byok_start :: db where
  "demo_byok_start = empty_db\<lparr>users := [1 \<mapsto> \<lparr>trial_used = False\<rparr>],
     subscriptions := [1 \<mapsto> \<lparr>sub_status = ''active'', sub_plan = None, sub_expires_at = None\<rparr>]\<rparr>"

definition demo_byok_cmds :: "(uuid \<times> byok_cmd) list" where
  "demo_byok_cmds = [(1, SetKey ''sk'' KV_valid ''dek'' ''n'' ''123456789012''), (1, Toggle True)]"

definition demo_byok_db :: db where
  "demo_byok_db = fold (exec_byok demo_byok_cfg demo_aead ''m'') demo_byok_cmds demo_byok_start"

lemma demo_byok_key:
  "byok_keys demo_byok_db 1 = Some \<lparr>key_sealed = (''sk'', ''123456789012dek'', ''n''), key_status = ''valid'', key_enabled = True\<rparr>"
  "subscriptions demo_byok_db 1 = Some \<lparr>sub_status = ''active'', sub_plan = None, sub_expires_at = None\<rparr>"
  by (simp_all add: demo_byok_db_def demo_byok_cmds_def demo_byok_start_def empty_db_def set_key_def byok_toggle_def put_key_def
      byok_audit_def op_bind_def Let_def demo_aead_def local_encrypt_dek_def key_validation_value_def)

theorem admitted_byok_key_is_usable_witness:
  "\<exists>k p. byok_keys demo_byok_db 1 = Some k \<and> key_enabled k \<and> key_status k = ''valid'' \<and>
    get_plaintext_key demo_aead ''m'' 1 demo_byok_db = (Inr (Some p), demo_byok_db)"
proof -
  obtain state where st: "load_policy_state 0 1 demo_byok_db = (Inr state, demo_byok_db)" "allow (evaluate state ModeByok)"
    using demo_byok_key by (simp add: load_policy_state_def Let_def byok_state_of_def effective_subscription_status_def policy_defs)
  show ?thesis
    by (rule admitted_byok_key_is_usable [OF _ _ _ demo_byok_db_def st])
      (simp_all add: demo_aead_def demo_byok_start_def empty_db_def demo_byok_cmds_def fresh_nonces_def LOCAL_NONCE_LEN_def)
qed

end
