(* ===== verification/ChatStore.thy ===== *)
theory ChatStore
  imports ChatContext Preferences Byok
begin

text \<open>
  The rows of a conversation and the statements over them (\<^verbatim>\<open>chat/repository.py\<close>). Steps are kept
  in the order of \<open>seq\<close>. A request works on a session: the rows it sees, the rows that are
  committed, and, for the statements of the claims, the requests it has sent to the model. Between a
  commit and the answer of the model other requests run; what they commit is an argument.
\<close>

subsection \<open>The session of a request\<close>

record neutral_message =
  nm_role :: string
  nm_content_blocks :: json
  nm_tool_call_id :: json
  nm_provider_tool_use_id :: json
  nm_tool_name :: json
  nm_result :: json
  nm_error :: json

record llm_request =
  lr_system_prompt :: string
  lr_messages :: "neutral_message list"
  lr_tools :: "dict list"
  lr_attachments :: "prepared_attachments option"
  lr_api_key :: "string option"
  lr_model :: "string option"

record chat_tx =
  ct_db :: db
  ct_committed :: db
  ct_requests :: "llm_request list"

type_synonym 'a cop = "(chat_tx, exn, 'a) op"

definition c_db :: "'a dbop \<Rightarrow> 'a cop" where
  "c_db m = (\<lambda>x. case m (ct_db x) of (r, d) \<Rightarrow> (r, x\<lparr>ct_db := d\<rparr>))"

definition c_commit :: "unit cop" where
  "c_commit = op_modify (\<lambda>x. x\<lparr>ct_committed := ct_db x\<rparr>)"

definition c_rollback :: "unit cop" where
  "c_rollback = op_modify (\<lambda>x. x\<lparr>ct_db := ct_committed x\<rparr>)"

definition c_others :: "(db \<Rightarrow> db) \<Rightarrow> unit cop" where
  "c_others f = op_modify (\<lambda>x. x\<lparr>ct_db := f (ct_committed x), ct_committed := f (ct_committed x)\<rparr>)"

definition c_sent :: "llm_request \<Rightarrow> unit cop" where
  "c_sent r = op_modify (\<lambda>x. x\<lparr>ct_requests := ct_requests x @ [r]\<rparr>)"

text \<open>The scope of the request: commit when it returns, roll back when it raises.\<close>

definition c_request :: "'a cop \<Rightarrow> 'a cop" where
  "c_request m = (\<lambda>x. case m x of
     (Inl e, y) \<Rightarrow> (Inl e, y\<lparr>ct_db := ct_committed y\<rparr>)
   | (Inr r, y) \<Rightarrow> (Inr r, y\<lparr>ct_committed := ct_db y\<rparr>))"

text \<open>\<open>uuid.uuid4()\<close>: an identifier that is not in use.\<close>

definition uuid4 :: "uuid dbop" where
  "uuid4 = (\<lambda>s. (Inr (next_id s), s\<lparr>next_id := next_id s + 1\<rparr>))"

subsection \<open>Trial\<close>

definition mark_trial_used :: "uuid \<Rightarrow> bool dbop" where
  "mark_trial_used uid = (\<lambda>s.
     case users s uid of
       Some u \<Rightarrow> if trial_used u then (Inr False, s) else (Inr True, s\<lparr>users := (users s)(uid \<mapsto> u\<lparr>trial_used := True\<rparr>)\<rparr>)
     | None \<Rightarrow> (Inr False, s))"

definition claim_trial :: "uuid \<Rightarrow> bool cop" where
  "claim_trial uid = op_bind (c_db (mark_trial_used uid)) (\<lambda>claimed. op_bind c_commit (\<lambda>_. op_return claimed))"

definition unmark_trial :: "uuid \<Rightarrow> bool dbop" where
  "unmark_trial uid = (\<lambda>s.
     case users s uid of
       Some u \<Rightarrow> if trial_used u then (Inr True, s\<lparr>users := (users s)(uid \<mapsto> u\<lparr>trial_used := False\<rparr>)\<rparr>) else (Inr False, s)
     | None \<Rightarrow> (Inr False, s))"

definition reconcile_trial :: "uuid \<Rightarrow> bool cop" where
  "reconcile_trial uid = op_bind (c_db (unmark_trial uid)) (\<lambda>restored. op_bind c_commit (\<lambda>_. op_return restored))"

subsection \<open>Sessions\<close>

record session_context =
  sx_id :: uuid
  sx_session :: chat_session
  sx_is_new :: bool

definition get_session :: "uuid \<Rightarrow> uuid \<Rightarrow> db \<Rightarrow> chat_session option" where
  "get_session sid uid s =
     (case chat_sessions s sid of Some c \<Rightarrow> if ses_user c = uid then Some c else None | None \<Rightarrow> None)"

definition is_expired :: "int \<Rightarrow> int \<Rightarrow> chat_session \<Rightarrow> bool" where
  "is_expired ttl now c \<longleftrightarrow> now - ses_updated_at c > ttl * 1000000"

definition create_session :: "int \<Rightarrow> chat_session \<Rightarrow> session_context dbop" where
  "create_session now c = (\<lambda>s.
     if users s (ses_user c) = None \<or> ses_mode c \<notin> {''credits'', ''byok''} \<or> ses_assistant_mode c \<notin> set ASSISTANT_MODES \<or>
        (case ses_workspace c of Some w \<Rightarrow> map_of (workspaces s) w = None | None \<Rightarrow> False)
     then (Inl DbError, s)
     else (Inr \<lparr>sx_id = next_id s, sx_session = c, sx_is_new = True\<rparr>,
           s\<lparr>chat_sessions := (chat_sessions s)(next_id s \<mapsto> c), next_id := next_id s + 1\<rparr>))"

definition get_or_create_session :: "int \<Rightarrow> int \<Rightarrow> uuid option \<Rightarrow> chat_session \<Rightarrow> session_context dbop" where
  "get_or_create_session ttl now session_id new_session = (\<lambda>s.
     case (case session_id of None \<Rightarrow> None | Some sid \<Rightarrow> map_option (Pair sid) (get_session sid (ses_user new_session) s)) of
       Some (sid, c) \<Rightarrow>
         if \<not> is_expired ttl now c then (Inr \<lparr>sx_id = sid, sx_session = c, sx_is_new = False\<rparr>, s) else create_session now new_session s
     | None \<Rightarrow> create_session now new_session s)"

definition touch_session :: "int \<Rightarrow> uuid \<Rightarrow> unit dbop" where
  "touch_session now sid = op_modify (\<lambda>s.
     case chat_sessions s sid of
       None \<Rightarrow> s
     | Some c \<Rightarrow> s\<lparr>chat_sessions := (chat_sessions s)(sid \<mapsto> c\<lparr>ses_updated_at := now\<rparr>)\<rparr>)"

subsection \<open>Steps\<close>

definition add_step :: "uuid \<Rightarrow> uuid \<Rightarrow> string \<Rightarrow> dict \<Rightarrow> dict option \<Rightarrow> uuid dbop" where
  "add_step sid turn role payload usage = (\<lambda>s.
     if chat_sessions s sid = None \<or> role \<notin> {''user'', ''assistant'', ''tool''} then (Inl DbError, s)
     else (Inr (next_id s),
           s\<lparr>chat_steps := chat_steps s @
               [\<lparr>st_id = next_id s, st_session = sid, st_turn = turn, st_role = role, st_payload = payload, st_usage = usage\<rparr>],
             next_id := next_id s + 1\<rparr>))"

definition list_steps :: "uuid \<Rightarrow> db \<Rightarrow> chat_step list" where
  "list_steps sid s = filter (\<lambda>st. st_session st = sid) (chat_steps s)"

definition turn_steps :: "uuid \<Rightarrow> uuid \<Rightarrow> string \<Rightarrow> db \<Rightarrow> chat_step list" where
  "turn_steps sid turn role s = filter (\<lambda>st. st_turn st = turn \<and> st_role st = role) (list_steps sid s)"

text \<open>The anchor is the first user step of the turn; it goes with everything after it.\<close>

definition truncate_from_message_step :: "uuid \<Rightarrow> uuid \<Rightarrow> nat option dbop" where
  "truncate_from_message_step sid turn = (\<lambda>s.
     let tail = dropWhile (\<lambda>st. \<not> (st_turn st = turn \<and> st_role st = ''user'')) (list_steps sid s) in
     if tail = [] then (Inr None, s)
     else (Inr (Some (length tail)),
           s\<lparr>tool_calls := filter (\<lambda>tc. \<not> (tc_session tc = sid \<and> tc_turn tc \<in> st_turn ` set tail)) (tool_calls s),
             chat_steps := filter (\<lambda>st. \<not> (st_session st = sid \<and> st \<in> set tail)) (chat_steps s)\<rparr>))"

definition assistant_tool_step_id :: "uuid \<Rightarrow> uuid \<Rightarrow> db \<Rightarrow> uuid option" where
  "assistant_tool_step_id sid turn s =
     (case rev (turn_steps sid turn ''assistant'' s) of [] \<Rightarrow> None | st # _ \<Rightarrow> Some (st_id st))"

definition next_step_after :: "uuid \<Rightarrow> uuid \<Rightarrow> uuid \<Rightarrow> db \<Rightarrow> chat_step option" where
  "next_step_after sid turn tc s =
     (case dropWhile (\<lambda>st. \<not> (st_turn st = turn \<and> st_role st = ''tool'' \<and> dict_get (st_payload st) ''toolCallId'' = JStr (uuid_str tc)))
             (list_steps sid s) of
        _ # later \<Rightarrow> find (\<lambda>st. st_turn st = turn \<and> st_role st = ''assistant'') later
      | [] \<Rightarrow> (case rev (turn_steps sid turn ''assistant'' s) of [] \<Rightarrow> None | st # _ \<Rightarrow> Some st))"

subsection \<open>Tool calls\<close>

definition create_tool_call :: "uuid \<Rightarrow> uuid \<Rightarrow> string \<Rightarrow> dict \<Rightarrow> uuid \<Rightarrow> string \<Rightarrow> unit dbop" where
  "create_tool_call sid turn name args tcid provider_id = (\<lambda>s.
     if chat_sessions s sid = None then (Inl DbError, s)
     else (Inr (), s\<lparr>tool_calls := tool_calls s @
             [\<lparr>tc_id = tcid, tc_session = sid, tc_turn = turn, tc_name = name, tc_provider_id = provider_id, tc_args = args,
               tc_status = ''pending'', tc_result = None\<rparr>]\<rparr>))"

definition get_tool_call :: "uuid \<Rightarrow> db \<Rightarrow> tool_call option" where
  "get_tool_call tcid s = find (\<lambda>tc. tc_id tc = tcid) (tool_calls s)"

definition list_tool_calls_for_step :: "uuid \<Rightarrow> uuid \<Rightarrow> db \<Rightarrow> tool_call list" where
  "list_tool_calls_for_step sid turn s = filter (\<lambda>tc. tc_session tc = sid \<and> tc_turn tc = turn) (tool_calls s)"

definition tool_done :: "tool_call \<Rightarrow> bool" where
  "tool_done tc \<longleftrightarrow> tc_status tc \<in> {''completed'', ''errored''}"

definition complete_tool_call :: "uuid \<Rightarrow> string \<Rightarrow> dict option \<Rightarrow> bool dbop" where
  "complete_tool_call tcid status result = (\<lambda>s.
     let hit = (\<lambda>tc. tc_id tc = tcid \<and> tc_status tc = ''pending'') in
     if list_ex hit (tool_calls s)
     then (Inr True, s\<lparr>tool_calls := map (\<lambda>tc. if hit tc then tc\<lparr>tc_status := status, tc_result := result\<rparr> else tc) (tool_calls s)\<rparr>)
     else (Inr False, s))"

end
