(* ===== verification/ChatOrchestrator.thy ===== *)
theory ChatOrchestrator
  imports ChatStore WalletFacts AgentService
begin

text \<open>
  The chat orchestrator (\<^verbatim>\<open>chat/orchestrator.py\<close>): a message runs through the access gate, the loop
  of model calls and server-side tools, the debit of one credit with the final answer, and the claim and
  restoration of the free trial; a batch of tool results continues a turn once all its client-side
  calls are answered. The answers of the model, and what other requests commit while it works, are
  arguments, one per call.
\<close>

subsection \<open>Settings, surroundings and the model\<close>

record chat_settings =
  max_server_tool_rounds :: int
  session_soft_ttl_seconds :: int
  llm_provider :: string
  allowed_models :: "string list"
  chat_wallet :: settings
  chat_attachments :: attachment_settings
  chat_workspaces :: workspace_settings
  chat_site :: site_settings

record llm_usage =
  us_input_tokens :: int
  us_output_tokens :: int
  us_model :: string
  us_cache_read_tokens :: int
  us_cache_write_tokens :: int

record tool_use =
  tu_id :: string
  tu_name :: string
  tu_input :: dict

record llm_result =
  res_stop_reason :: "string option"
  res_content_blocks :: "dict list"
  res_usage :: llm_usage
  res_text :: string
  res_tool_uses :: "tool_use list"

text \<open>An answer, a rejected key (\<open>AnthropicAuthError\<close> or \<open>OpenAIAuthError\<close>), or another exception.\<close>

datatype llm_outcome = LlmAnswer llm_result | LlmAuthError string | LlmRaises exn

record llm_call =
  lc_others :: "db \<Rightarrow> db"
  lc_outcome :: llm_outcome
  lc_now :: int

record chat_env =
  ce_now :: int
  ce_llm :: "nat \<Rightarrow> llm_call"
  ce_pydantic :: pydantic
  ce_repr :: "json \<Rightarrow> string"
  ce_hmac :: hmac
  ce_zones :: "string \<Rightarrow> (int \<Rightarrow> int) option"
  ce_aead :: aead
  ce_master :: string
  ce_pdf :: "string \<Rightarrow> pdf"

definition usage_dict :: "llm_usage \<Rightarrow> dict" where
  "usage_dict u =
     [(''inputTokens'', JInt (us_input_tokens u)), (''outputTokens'', JInt (us_output_tokens u)), (''model'', JStr (us_model u)),
      (''cacheReadTokens'', JInt (us_cache_read_tokens u)), (''cacheWriteTokens'', JInt (us_cache_write_tokens u))]"

definition STOP_REASON_TOOL_USE :: string where "STOP_REASON_TOOL_USE = ''tool_use''"
definition STOP_REASON_MAX_TOKENS :: string where "STOP_REASON_MAX_TOKENS = ''max_tokens''"

definition EVENT_POLICY_DECISION :: string where "EVENT_POLICY_DECISION = ''policy_decision''"
definition EVENT_CHAT_STEP :: string where "EVENT_CHAT_STEP = ''chat_step''"
definition EVENT_TOOL_CALL_INITIATED :: string where "EVENT_TOOL_CALL_INITIATED = ''tool_call_initiated''"
definition EVENT_TOOL_CALL_COMPLETED :: string where "EVENT_TOOL_CALL_COMPLETED = ''tool_call_completed''"

subsection \<open>Results\<close>

record tool_call_out =
  to_id :: string
  to_name :: string
  to_args :: dict

record server_tool_out =
  so_tool_call_id :: uuid
  so_tool_name :: string
  so_status :: string
  so_summary :: string

record tool_result_in =
  ti_tool_call_id :: uuid
  ti_result :: "dict option"
  ti_error :: "dict option"

record chat_run_out =
  co_status :: string
  co_session_id :: uuid
  co_assistant_message :: "string option"
  co_tool_calls :: "tool_call_out list option"
  co_tool_call :: "tool_call_out option"
  co_block_reason :: "string option"
  co_usage :: "dict option"
  co_message_step_id :: "uuid option"
  co_step_id :: "uuid option"
  co_server_tools :: "server_tool_out list"

record billing_plan =
  debit_credits :: bool
  mark_trial :: bool

definition billing_plan_of :: "mode \<Rightarrow> policy_state \<Rightarrow> billing_plan" where
  "billing_plan_of m st =
     (if m = ModeByok then \<lparr>debit_credits = False, mark_trial = False\<rparr>
      else if subscription_status st = SubActive then \<lparr>debit_credits = True, mark_trial = False\<rparr>
      else if subscription_status st = SubNone \<and> \<not> ps_trial_used st then \<lparr>debit_credits = False, mark_trial = True\<rparr>
      else \<lparr>debit_credits = False, mark_trial = False\<rparr>)"

definition mode_of_text :: "string \<Rightarrow> mode option" where
  "mode_of_text t = (if t = ''credits'' then Some ModeCredits else if t = ''byok'' then Some ModeByok else None)"

definition mode_text :: "mode \<Rightarrow> string" where
  "mode_text m = (case m of ModeCredits \<Rightarrow> ''credits'' | ModeByok \<Rightarrow> ''byok'')"

definition chat_blocked :: "uuid \<Rightarrow> block_reason option \<Rightarrow> chat_run_out" where
  "chat_blocked sid reason =
     \<lparr>co_status = ''blocked'', co_session_id = sid, co_assistant_message = None, co_tool_calls = None, co_tool_call = None,
      co_block_reason = Some (block_reason_value (case reason of Some r \<Rightarrow> r | None \<Rightarrow> BR_policy_denied)), co_usage = None,
      co_message_step_id = None, co_step_id = None, co_server_tools = []\<rparr>"

subsection \<open>Gate, key and history\<close>

definition chat_audit :: "uuid \<Rightarrow> uuid \<Rightarrow> string \<Rightarrow> dict \<Rightarrow> unit dbop" where
  "chat_audit uid sid ty payload = audit_record \<lparr>ev_user = uid, ev_type = ty, ev_payload = payload, ev_session = Some sid\<rparr>"

definition evaluate_access :: "int \<Rightarrow> uuid \<Rightarrow> mode \<Rightarrow> uuid \<Rightarrow> (decision \<times> policy_state) dbop" where
  "evaluate_access now uid m sid =
     op_bind (load_policy_state now uid) (\<lambda>st.
     let d = evaluate st m in
     op_bind (chat_audit uid sid EVENT_POLICY_DECISION
       [(''mode'', JStr (mode_text m)), (''decision'', JStr (if allow d then ''allow'' else ''blocked'')),
        (''blockReason'', opt_str (map_option block_reason_value (block_reason d)))]) (\<lambda>_.
     op_return (d, st)))"

definition resolve_api_key :: "chat_env \<Rightarrow> uuid \<Rightarrow> mode \<Rightarrow> string option dbop" where
  "resolve_api_key env uid m =
     (if m = ModeByok
      then op_bind (get_plaintext_key (ce_aead env) (ce_master env) uid) (\<lambda>k.
           case k of None \<Rightarrow> raise_app ValidationFailedError ''byok key unavailable'' | Some x \<Rightarrow> op_return (Some x))
      else op_return None)"

definition will_create_session :: "chat_settings \<Rightarrow> int \<Rightarrow> uuid \<Rightarrow> uuid option \<Rightarrow> db \<Rightarrow> bool" where
  "will_create_session cfg now uid session_id s =
     (case session_id of
        None \<Rightarrow> True
      | Some sid \<Rightarrow> (case get_session sid uid s of None \<Rightarrow> True | Some c \<Rightarrow> is_expired (session_soft_ttl_seconds cfg) now c))"

text \<open>\<open>payload["content"]\<close> and \<open>payload["providerToolUseId"]\<close> raise when the key is missing.\<close>

definition message_of_step :: "chat_step \<Rightarrow> exn + neutral_message list" where
  "message_of_step st =
     (let p = st_payload st;
          m = \<lparr>nm_role = st_role st, nm_content_blocks = JList [], nm_tool_call_id = JNull, nm_provider_tool_use_id = JNull,
               nm_tool_name = JNull, nm_result = JNull, nm_error = JNull\<rparr> in
      if st_role st = ''user'' \<or> st_role st = ''assistant''
      then (case map_of p ''content'' of None \<Rightarrow> Inl (PyError ''KeyError'') | Some c \<Rightarrow> Inr [m\<lparr>nm_content_blocks := c\<rparr>])
      else if st_role st = ''tool''
      then (case map_of p ''providerToolUseId'' of
              None \<Rightarrow> Inl (PyError ''KeyError'')
            | Some i \<Rightarrow> Inr [m\<lparr>nm_tool_call_id := dict_get p ''toolCallId'', nm_provider_tool_use_id := i,
                               nm_tool_name := dict_get p ''toolName'', nm_result := dict_get p ''result'', nm_error := dict_get p ''error''\<rparr>])
      else Inr [])"

fun messages_of :: "chat_step list \<Rightarrow> exn + neutral_message list" where
  "messages_of [] = Inr []"
| "messages_of (st # sts) =
     (case message_of_step st of
        Inl e \<Rightarrow> Inl e
      | Inr ms \<Rightarrow> (case messages_of sts of Inl e \<Rightarrow> Inl e | Inr rest \<Rightarrow> Inr (ms @ rest)))"

definition build_messages :: "uuid \<Rightarrow> neutral_message list dbop" where
  "build_messages sid = (\<lambda>s. (messages_of (list_steps sid s), s))"

subsection \<open>Tools\<close>

definition opt_obj :: "dict option \<Rightarrow> json" where
  "opt_obj d = (case d of None \<Rightarrow> JNull | Some x \<Rightarrow> JObj x)"

definition tool_step_payload :: "uuid \<Rightarrow> string \<Rightarrow> string \<Rightarrow> json \<Rightarrow> json \<Rightarrow> dict" where
  "tool_step_payload tcid provider_id name result err =
     [(''toolCallId'', JStr (uuid_str tcid)), (''providerToolUseId'', JStr provider_id), (''toolName'', JStr name),
      (''result'', result), (''error'', err)]"

definition tool_audit_payload :: "uuid \<Rightarrow> string \<Rightarrow> string \<Rightarrow> dict" where
  "tool_audit_payload tcid name status =
     [(''toolCallId'', JStr (uuid_str tcid)), (''toolName'', JStr name), (''status'', JStr status)]"

text \<open>The common part of the two server-side executions, once the tool has run.\<close>

definition record_execution :: "uuid \<Rightarrow> uuid \<Rightarrow> uuid \<Rightarrow> uuid \<Rightarrow> string \<Rightarrow> string \<Rightarrow> tool_execution \<Rightarrow> server_tool_out dbop" where
  "record_execution uid sid turn tcid name provider_id x =
     (let payload = to_tool_result_payload x; status = (if te_is_error x then ''errored'' else ''completed'') in
      op_bind (complete_tool_call tcid status (Some payload)) (\<lambda>_.
      op_bind (add_step sid turn ''tool'' (tool_step_payload tcid provider_id name (dict_get payload ''result'') (dict_get payload ''error'')) None) (\<lambda>_.
      op_bind (chat_audit uid sid EVENT_TOOL_CALL_COMPLETED (tool_audit_payload tcid name status)) (\<lambda>_.
      op_return \<lparr>so_tool_call_id = tcid, so_tool_name = name, so_status = status, so_summary = server_tool_summary x\<rparr>))))"

definition execute_server_side_tool :: "chat_settings \<Rightarrow> chat_env \<Rightarrow> int \<Rightarrow> uuid \<Rightarrow> uuid \<Rightarrow> uuid \<Rightarrow> uuid \<Rightarrow> string \<Rightarrow> dict \<Rightarrow> string \<Rightarrow> string \<Rightarrow> server_tool_out dbop" where
  "execute_server_side_tool cfg env now uid sid turn tcid name args provider_id ext =
     op_bind (site_execute \<lparr>se_cfg = chat_site cfg, se_hmac = ce_hmac env, se_now = now div 1000000, se_repr = ce_repr env\<rparr>
                name args uid ext sid) (\<lambda>x.
     record_execution uid sid turn tcid name provider_id x)"

definition execute_global_server_side_tool :: "chat_env \<Rightarrow> int \<Rightarrow> uuid \<Rightarrow> uuid \<Rightarrow> uuid \<Rightarrow> uuid \<Rightarrow> string \<Rightarrow> dict \<Rightarrow> string \<Rightarrow> server_tool_out dbop" where
  "execute_global_server_side_tool env now uid sid turn tcid name args provider_id =
     record_execution uid sid turn tcid name provider_id (global_execute (ce_repr env) (ce_zones env) (utc now) name args)"

definition external_project_id :: "uuid \<Rightarrow> string dbop" where
  "external_project_id sid =
     op_bind (op_read (\<lambda>s. chat_sessions s sid)) (\<lambda>c.
     case c of
       None \<Rightarrow> raise_app NotFoundError ''session not found''
     | Some x \<Rightarrow> (case ses_project_id x of
                    None \<Rightarrow> raise_app UpstreamError ''site.* resolution attempted for a project-less session''
                  | Some p \<Rightarrow> op_return p))"

text \<open>
  One tool use of an answer: the call row, its audit record, and the execution when the server is to run
  it. The result has the client-side call to hand over, or the server-side execution.
\<close>

definition handle_block :: "chat_settings \<Rightarrow> chat_env \<Rightarrow> int \<Rightarrow> uuid \<Rightarrow> uuid \<Rightarrow> uuid \<Rightarrow> string option \<Rightarrow> tool_use \<Rightarrow> (tool_call_out + server_tool_out) dbop" where
  "handle_block cfg env now uid sid turn project b =
     (let name = tu_name b in
      if name \<in> set SERVER_SIDE_TOOLS \<and> project = None
      then raise_app UpstreamError ''server-side site.* tool requested for a project-less session''
      else case validate_tool_args (ce_pydantic env) name (tu_input b) of
        Inl e \<Rightarrow> raise_app ValidationFailedError e
      | Inr args \<Rightarrow>
          op_bind uuid4 (\<lambda>tcid.
          op_bind (create_tool_call sid turn name args tcid (tu_id b)) (\<lambda>_.
          op_bind (chat_audit uid sid EVENT_TOOL_CALL_INITIATED [(''toolCallId'', JStr (uuid_str tcid)), (''toolName'', JStr name)]) (\<lambda>_.
          if name \<in> set GLOBAL_SERVER_SIDE_TOOLS
          then op_bind (execute_global_server_side_tool env now uid sid turn tcid name args (tu_id b)) (\<lambda>x. op_return (Inr x))
          else if name \<in> set SERVER_SIDE_TOOLS
          then op_bind (execute_server_side_tool cfg env now uid sid turn tcid name args (tu_id b) (case project of Some p \<Rightarrow> p | None \<Rightarrow> [])) (\<lambda>x.
               op_return (Inr x))
          else op_return (Inl \<lparr>to_id = uuid_str tcid, to_name = name, to_args = args\<rparr>)))))"

fun handle_blocks :: "chat_settings \<Rightarrow> chat_env \<Rightarrow> int \<Rightarrow> uuid \<Rightarrow> uuid \<Rightarrow> uuid \<Rightarrow> string option \<Rightarrow> tool_use list \<Rightarrow>
    (tool_call_out list \<times> server_tool_out list) dbop" where
  "handle_blocks cfg env now uid sid turn project [] = op_return ([], [])"
| "handle_blocks cfg env now uid sid turn project (b # bs) =
     op_bind (handle_block cfg env now uid sid turn project b) (\<lambda>r.
     op_bind (handle_blocks cfg env now uid sid turn project bs) (\<lambda>(client, server).
     op_return (case r of Inl c \<Rightarrow> (c # client, server) | Inr x \<Rightarrow> (client, x # server))))"

definition content_payload :: "dict list \<Rightarrow> dict" where
  "content_payload blocks = [(''content'', JList (map JObj blocks))]"

definition opt_text :: "string \<Rightarrow> string option" where
  "opt_text t = (if t = [] then None else Some t)"

text \<open>The outcome of a tool-use answer: what to hand to the client, if anything, and what the server executed.\<close>

definition handle_tool_use :: "chat_settings \<Rightarrow> chat_env \<Rightarrow> int \<Rightarrow> uuid \<Rightarrow> uuid \<Rightarrow> uuid \<Rightarrow> bool \<Rightarrow> server_tool_out list \<Rightarrow> llm_result \<Rightarrow>
    (chat_run_out option \<times> server_tool_out list) dbop" where
  "handle_tool_use cfg env now uid sid turn has_project executed result =
     op_bind (add_step sid turn ''assistant'' (content_payload (res_content_blocks result)) (Some (usage_dict (res_usage result)))) (\<lambda>step.
     op_bind (if has_project then op_bind (external_project_id sid) (\<lambda>p. op_return (Some p)) else op_return None) (\<lambda>project.
     op_bind (handle_blocks cfg env now uid sid turn project (res_tool_uses result)) (\<lambda>(client, server).
     op_return
       (if client \<noteq> []
        then Some \<lparr>co_status = ''tool_call'', co_session_id = sid, co_assistant_message = opt_text (res_text result),
                   co_tool_calls = Some client, co_tool_call = Some (hd client), co_block_reason = None,
                   co_usage = Some (usage_dict (res_usage result)), co_message_step_id = Some turn, co_step_id = Some step,
                   co_server_tools = executed @ server\<rparr>
        else None, executed @ server))))"

subsection \<open>Final answers\<close>

definition chat_debit :: "chat_settings \<Rightarrow> uuid \<Rightarrow> uuid \<Rightarrow> uuid \<Rightarrow> dict \<Rightarrow> unit dbop" where
  "chat_debit cfg uid sid turn usage =
     op_bind (consume (chat_wallet cfg) uid 1 (uuid_str turn) [(''usage'', JObj usage), (''model'', dict_get usage ''model'')] (Some sid)) (\<lambda>_.
     op_return ())"

definition finalize_assistant :: "chat_settings \<Rightarrow> int \<Rightarrow> uuid \<Rightarrow> uuid \<Rightarrow> uuid \<Rightarrow> billing_plan \<Rightarrow> server_tool_out list \<Rightarrow> llm_result \<Rightarrow> chat_run_out cop" where
  "finalize_assistant cfg now uid sid turn billing executed result =
     (let usage = usage_dict (res_usage result) in
      op_bind (c_db (add_step sid turn ''assistant'' (content_payload (res_content_blocks result)) (Some usage))) (\<lambda>step.
      op_bind (c_db (chat_audit uid sid EVENT_CHAT_STEP
        [(''sessionId'', JStr (uuid_str sid)), (''role'', JStr ''assistant''), (''model'', dict_get usage ''model''), (''usage'', JObj usage)])) (\<lambda>_.
      op_bind (if debit_credits billing
               then op_catch (op_bind (c_db (chat_debit cfg uid sid turn usage)) (\<lambda>_. op_return True))
                      (\<lambda>e. if exn_is InsufficientCreditsError e then op_return False else op_raise e)
               else op_return True) (\<lambda>paid.
      if \<not> paid then op_bind c_rollback (\<lambda>_. op_return (chat_blocked sid (Some BR_credits_empty)))
      else
        op_bind (c_db (touch_session now sid)) (\<lambda>_.
        op_bind c_commit (\<lambda>_.
        op_return \<lparr>co_status = ''assistant_message'', co_session_id = sid, co_assistant_message = Some (res_text result),
                   co_tool_calls = None, co_tool_call = None, co_block_reason = None, co_usage = Some usage,
                   co_message_step_id = Some turn, co_step_id = Some step, co_server_tools = executed\<rparr>))))))"

definition handle_max_tokens :: "uuid \<Rightarrow> uuid \<Rightarrow> uuid \<Rightarrow> server_tool_out list \<Rightarrow> llm_result \<Rightarrow> chat_run_out cop" where
  "handle_max_tokens uid sid turn executed result =
     (let usage = usage_dict (res_usage result) in
      op_bind (c_db (add_step sid turn ''assistant'' (content_payload (res_content_blocks result)) (Some usage))) (\<lambda>step.
      op_bind (c_db (chat_audit uid sid EVENT_CHAT_STEP
        [(''sessionId'', JStr (uuid_str sid)), (''role'', JStr ''assistant''), (''blockReason'', JStr (block_reason_value BR_max_tokens)),
         (''model'', dict_get usage ''model''), (''usage'', JObj usage)])) (\<lambda>_.
      op_bind c_commit (\<lambda>_.
      op_return \<lparr>co_status = ''blocked'', co_session_id = sid, co_assistant_message = opt_text (res_text result), co_tool_calls = None,
                 co_tool_call = None, co_block_reason = Some (block_reason_value BR_max_tokens), co_usage = Some usage,
                 co_message_step_id = Some turn, co_step_id = Some step, co_server_tools = executed\<rparr>))))"

subsection \<open>The loop\<close>

record gen_params =
  gp_user :: uuid
  gp_session :: uuid
  gp_turn :: uuid
  gp_mode :: mode
  gp_billing :: billing_plan
  gp_api_key :: "string option"
  gp_system_prompt :: string
  gp_has_project :: bool
  gp_model :: "string option"

text \<open>The steps before the model is called: read the history, commit, send.\<close>

definition send_round :: "chat_env \<Rightarrow> gen_params \<Rightarrow> prepared_attachments option \<Rightarrow> nat \<Rightarrow> llm_outcome cop" where
  "send_round env p atts k =
     op_bind (c_db (build_messages (gp_session p))) (\<lambda>messages.
     op_bind c_commit (\<lambda>_.
     op_bind (c_sent \<lparr>lr_system_prompt = gp_system_prompt p, lr_messages = messages,
                      lr_tools = neutral_tool_definitions (ce_pydantic env) (gp_has_project p), lr_attachments = atts,
                      lr_api_key = gp_api_key p, lr_model = gp_model p\<rparr>) (\<lambda>_.
     op_bind (c_others (lc_others (ce_llm env k))) (\<lambda>_.
     op_return (lc_outcome (ce_llm env k))))))"

fun generate_rounds :: "chat_settings \<Rightarrow> chat_env \<Rightarrow> gen_params \<Rightarrow> nat \<Rightarrow> nat \<Rightarrow> prepared_attachments option \<Rightarrow> server_tool_out list \<Rightarrow> chat_run_out cop" where
  "generate_rounds cfg env p 0 k atts executed =
     op_bind (c_db (chat_audit (gp_user p) (gp_session p) EVENT_CHAT_STEP
       [(''sessionId'', JStr (uuid_str (gp_session p))), (''error'', JStr ''max_server_tool_rounds_exceeded''),
        (''maxRounds'', JInt (max_server_tool_rounds cfg))])) (\<lambda>_.
     op_bind c_commit (\<lambda>_.
     raise_app UpstreamError ''server-side tool loop exceeded maximum rounds''))"
| "generate_rounds cfg env p (Suc n) k atts executed =
     op_bind (send_round env p atts k) (\<lambda>outcome.
     let now = lc_now (ce_llm env k) in
     case outcome of
       LlmRaises e \<Rightarrow> op_raise e
     | LlmAuthError cls \<Rightarrow>
         if gp_mode p = ModeByok
         then op_bind (c_db (mark_expired (gp_user p))) (\<lambda>_.
              op_bind c_commit (\<lambda>_.
              op_return (chat_blocked (gp_session p) (Some BR_byok_invalid))))
         else op_raise (PyError cls)
     | LlmAnswer r \<Rightarrow>
         if res_stop_reason r = Some STOP_REASON_MAX_TOKENS then handle_max_tokens (gp_user p) (gp_session p) (gp_turn p) executed r
         else if res_stop_reason r = Some STOP_REASON_TOOL_USE \<and> res_tool_uses r \<noteq> []
         then op_bind (c_db (handle_tool_use cfg env now (gp_user p) (gp_session p) (gp_turn p) (gp_has_project p) executed r)) (\<lambda>(client_out, executed').
              op_bind c_commit (\<lambda>_.
              case client_out of
                Some out \<Rightarrow> op_return out
              | None \<Rightarrow> generate_rounds cfg env p n (Suc k) None executed'))
         else finalize_assistant cfg now (gp_user p) (gp_session p) (gp_turn p) (gp_billing p) executed r)"

definition generate_loop :: "chat_settings \<Rightarrow> chat_env \<Rightarrow> gen_params \<Rightarrow> prepared_attachments option \<Rightarrow> chat_run_out cop" where
  "generate_loop cfg env p atts = generate_rounds cfg env p (nat (max_server_tool_rounds cfg + 1)) 0 atts []"

definition generate_with_trial_reconcile :: "chat_settings \<Rightarrow> chat_env \<Rightarrow> bool \<Rightarrow> gen_params \<Rightarrow> prepared_attachments option \<Rightarrow> chat_run_out cop" where
  "generate_with_trial_reconcile cfg env claimed p atts =
     (if \<not> claimed then generate_loop cfg env p atts
      else op_bind
        (op_catch (generate_loop cfg env p atts)
          (\<lambda>e. op_bind c_rollback (\<lambda>_. op_bind (reconcile_trial (gp_user p)) (\<lambda>_. op_raise e)))) (\<lambda>out.
        if co_status out \<notin> {''assistant_message'', ''tool_call''}
        then op_bind (reconcile_trial (gp_user p)) (\<lambda>_. op_return out)
        else op_return out))"

subsection \<open>A message\<close>

record run_request =
  rq_user :: uuid
  rq_project_id :: "string option"
  rq_session_id :: "uuid option"
  rq_message :: string
  rq_mode :: string
  rq_assistant_mode :: "string option"
  rq_attachments :: "attachment list"
  rq_model :: "string option"
  rq_workspace :: "uuid option"
  rq_context :: "dict option"
  rq_edit_message_step_id :: "uuid option"

definition c_lift :: "exn + 'a \<Rightarrow> 'a cop" where
  "c_lift r = (case r of Inl e \<Rightarrow> op_raise e | Inr x \<Rightarrow> op_return x)"

definition session_mode :: "chat_session \<Rightarrow> mode cop" where
  "session_mode c = (case mode_of_text (ses_mode c) of None \<Rightarrow> op_raise (PyError ''ValueError'') | Some m \<Rightarrow> op_return m)"

text \<open>The checks that apply to a new session only, the assistant mode, and the session.\<close>

definition resolve_session :: "chat_settings \<Rightarrow> int \<Rightarrow> run_request \<Rightarrow> session_context dbop" where
  "resolve_session cfg now rq =
     (let model = map_option strip (rq_model rq) in
      op_bind (op_read (will_create_session cfg now (rq_user rq) (rq_session_id rq))) (\<lambda>will_create.
      op_bind (case model of
                 Some m \<Rightarrow> if will_create \<and> m \<notin> set (allowed_models cfg)
                           then raise_app ValidationFailedError (''model '' @ [CHR 0x27] @ m @ [CHR 0x27] @ '' is not available on this instance'')
                           else op_return ()
               | None \<Rightarrow> op_return ()) (\<lambda>_.
      op_bind (op_read (\<lambda>s. case rq_workspace rq of Some w \<Rightarrow> owns_workspace w (rq_user rq) s | None \<Rightarrow> True)) (\<lambda>owned.
      if will_create \<and> \<not> owned then raise_app WorkspaceNotFoundError ''workspace not found''
      else
        op_bind (case rq_assistant_mode rq of Some a \<Rightarrow> op_return a | None \<Rightarrow> get_default_assistant_mode (rq_user rq)) (\<lambda>amode.
        get_or_create_session (session_soft_ttl_seconds cfg) now (rq_session_id rq)
          \<lparr>ses_user = rq_user rq, ses_project_id = rq_project_id rq, ses_mode = rq_mode rq, ses_model = model,
           ses_title = derive_title (rq_message rq), ses_assistant_mode = amode,
           ses_workspace = (if will_create then rq_workspace rq else None), ses_pinned = False,
           ses_created_at = now, ses_updated_at = now\<rparr>)))))"

definition edit_history :: "session_context \<Rightarrow> uuid option \<Rightarrow> unit dbop" where
  "edit_history ctx edit =
     (case edit of
        None \<Rightarrow> op_return ()
      | Some turn \<Rightarrow>
          if sx_is_new ctx then raise_app MessageNotFoundError ''message_not_found''
          else op_bind (truncate_from_message_step (sx_id ctx) turn) (\<lambda>deleted.
               if deleted = None then raise_app MessageNotFoundError ''message_not_found'' else op_return ()))"

definition prompt_and_files :: "chat_settings \<Rightarrow> session_context \<Rightarrow> uuid \<Rightarrow> db \<Rightarrow> string \<times> prepared_attachments option" where
  "prompt_and_files cfg ctx uid s =
     (let c = sx_session ctx; amode = ses_assistant_mode c in
      case ses_workspace c of
        None \<Rightarrow> (system_prompt_for amode, None)
      | Some w \<Rightarrow>
          if sx_is_new ctx
          then (case context_for_session (chat_workspaces cfg) (active_provider (llm_provider cfg)) w uid s of
                  None \<Rightarrow> (system_prompt_for amode, None)
                | Some (instr, files) \<Rightarrow> (system_prompt_with_workspace amode instr, files))
          else (system_prompt_with_workspace amode (instructions_for_session w uid s), None))"

definition user_content :: "string \<Rightarrow> prepared_attachments option \<Rightarrow> dict list" where
  "user_content message_text prepared =
     (if message_text \<noteq> [] then [[(''type'', JStr ''text''), (''text'', JStr message_text)]] else []) @
     (case prepared of Some p \<Rightarrow> pa_placeholders p | None \<Rightarrow> [])"

definition chat_run :: "chat_settings \<Rightarrow> chat_env \<Rightarrow> run_request \<Rightarrow> chat_run_out cop" where
  "chat_run cfg env rq =
     (let now = ce_now env; uid = rq_user rq in
      op_bind (c_db uuid4) (\<lambda>turn.
      op_bind (c_db (resolve_session cfg now rq)) (\<lambda>ctx.
      let sid = sx_id ctx; sess = sx_session ctx in
      op_bind (session_mode sess) (\<lambda>m.
      op_bind (c_db (edit_history ctx (rq_edit_message_step_id rq))) (\<lambda>_.
      op_bind (c_db (op_read (prompt_and_files cfg ctx uid))) (\<lambda>(system_prompt, project_files).
      op_bind (c_lift (if rq_attachments rq = [] then Inr None
                       else map_sum id Some (prepare_attachments (ce_pdf env) (chat_attachments cfg) (active_provider (llm_provider cfg))
                                               (rq_attachments rq)))) (\<lambda>prepared.
      op_bind (c_db (add_step sid turn ''user''
                 (content_payload (user_content (compose_turn0_text (render_context_block (rq_context rq)) (rq_message rq)) prepared)) None)) (\<lambda>_.
      op_bind (c_db (evaluate_access now uid m sid)) (\<lambda>(decision, state).
      if \<not> allow decision then op_return (chat_blocked sid (block_reason decision))
      else
        let billing = billing_plan_of m state in
        op_bind (if mark_trial billing then claim_trial uid else op_return True) (\<lambda>claimed.
        if \<not> claimed then op_return (chat_blocked sid (Some BR_trial_used))
        else
          op_bind (c_db (resolve_api_key env uid m)) (\<lambda>api_key.
          generate_with_trial_reconcile cfg env (mark_trial billing)
            \<lparr>gp_user = uid, gp_session = sid, gp_turn = turn, gp_mode = m, gp_billing = billing, gp_api_key = api_key,
             gp_system_prompt = system_prompt, gp_has_project = (ses_project_id sess \<noteq> None), gp_model = nonempty (ses_model sess)\<rparr>
            (merge_attachments prepared project_files))))))))))))"

subsection \<open>A batch of tool results\<close>

text \<open>The rows of the batch as they are read, all of one turn of the session.\<close>

fun resolve_results :: "uuid \<Rightarrow> uuid option \<Rightarrow> tool_result_in list \<Rightarrow> (tool_result_in \<times> tool_call) list dbop" where
  "resolve_results sid turn [] = op_return []"
| "resolve_results sid turn (item # items) =
     op_bind (op_read (get_tool_call (ti_tool_call_id item))) (\<lambda>found.
     case found of
       None \<Rightarrow> raise_app NotFoundError ''tool call not found for session''
     | Some tc \<Rightarrow>
         if tc_session tc \<noteq> sid then raise_app NotFoundError ''tool call not found for session''
         else if turn \<noteq> None \<and> turn \<noteq> Some (tc_turn tc)
         then raise_app ValidationFailedError ''all results must belong to the same turn''
         else op_bind (resolve_results sid (Some (tc_turn tc)) items) (\<lambda>rest. op_return ((item, tc) # rest)))"

definition apply_tool_result :: "uuid \<Rightarrow> uuid \<Rightarrow> uuid \<Rightarrow> tool_call \<Rightarrow> dict option \<Rightarrow> dict option \<Rightarrow> unit dbop" where
  "apply_tool_result uid sid turn tc result err =
     (let status = (if err \<noteq> None then ''errored'' else ''completed'') in
      op_bind (complete_tool_call (tc_id tc) status (if result \<noteq> None then result else err)) (\<lambda>transitioned.
      if \<not> transitioned then op_return ()
      else
        op_bind (add_step sid turn ''tool''
          (tool_step_payload (tc_id tc) (tc_provider_id tc) (tc_name tc) (opt_obj result) (opt_obj err)) None) (\<lambda>_.
        op_bind (if tc_name tc \<in> set MUTATING_TOOLS
                 then chat_audit uid sid EVENT_TOOL_MUTATION (tool_audit_payload (tc_id tc) (tc_name tc) status)
                 else op_return ()) (\<lambda>_.
        chat_audit uid sid EVENT_TOOL_CALL_COMPLETED (tool_audit_payload (tc_id tc) (tc_name tc) status)))))"

fun apply_results :: "uuid \<Rightarrow> uuid \<Rightarrow> uuid \<Rightarrow> (tool_result_in \<times> tool_call) list \<Rightarrow> unit dbop" where
  "apply_results uid sid turn [] = op_return ()"
| "apply_results uid sid turn ((item, tc) # rest) =
     op_bind (if tool_done tc then op_return () else apply_tool_result uid sid turn tc (ti_result item) (ti_error item)) (\<lambda>_.
     apply_results uid sid turn rest)"

definition client_calls :: "tool_call list \<Rightarrow> tool_call list" where
  "client_calls calls = filter (\<lambda>tc. tc_name tc \<notin> set SERVER_SIDE_TOOLS \<and> tc_name tc \<notin> set GLOBAL_SERVER_SIDE_TOOLS) calls"

definition pending_calls :: "uuid \<Rightarrow> uuid \<Rightarrow> db \<Rightarrow> tool_call list" where
  "pending_calls sid turn s = filter (\<lambda>tc. \<not> tool_done tc) (client_calls (list_tool_calls_for_step sid turn s))"

text \<open>
  The rows of the batch are the same objects that the barrier query refreshes, so this is asked of their
  present status.
\<close>

definition all_already_done_before :: "(tool_result_in \<times> tool_call) list \<Rightarrow> db \<Rightarrow> bool" where
  "all_already_done_before resolved s =
     list_all (\<lambda>(_, tc). case get_tool_call (tc_id tc) s of Some row \<Rightarrow> tool_done row | None \<Rightarrow> tool_done tc) resolved"

text \<open>\<open>block.get\<close> raises on a block that is not an object, and \<open>text += \<dots>\<close> on a text that is not a string.\<close>

fun saved_text :: "json list \<Rightarrow> exn + string" where
  "saved_text [] = Inr []"
| "saved_text (JObj b # bs) =
     (case (if dict_get b ''type'' = JStr ''text''
            then (case map_of b ''text'' of None \<Rightarrow> Inr [] | Some (JStr t) \<Rightarrow> Inr t | Some _ \<Rightarrow> Inl (PyError ''TypeError''))
            else Inr []) of
        Inl e \<Rightarrow> Inl e
      | Inr t \<Rightarrow> map_sum id (\<lambda>rest. t @ rest) (saved_text bs))"
| "saved_text (_ # bs) = Inl (PyError ''AttributeError'')"

definition render_saved_step :: "uuid \<Rightarrow> uuid \<Rightarrow> chat_step \<Rightarrow> exn + chat_run_out" where
  "render_saved_step sid turn st =
     (case (case map_of (st_payload st) ''content'' of None \<Rightarrow> Inr [] | Some (JList bs) \<Rightarrow> saved_text bs | Some _ \<Rightarrow> Inl (PyError ''AttributeError'')) of
        Inl e \<Rightarrow> Inl e
      | Inr t \<Rightarrow>
          Inr \<lparr>co_status = ''assistant_message'', co_session_id = sid, co_assistant_message = Some t, co_tool_calls = None,
               co_tool_call = None, co_block_reason = None, co_usage = st_usage st, co_message_step_id = Some turn,
               co_step_id = Some (st_id st), co_server_tools = []\<rparr>)"

definition awaiting :: "uuid \<Rightarrow> uuid \<Rightarrow> tool_call list \<Rightarrow> uuid option \<Rightarrow> chat_run_out" where
  "awaiting sid turn pending step =
     (let remaining = map (\<lambda>tc. \<lparr>to_id = uuid_str (tc_id tc), to_name = tc_name tc, to_args = tc_args tc\<rparr>) pending in
      \<lparr>co_status = ''tool_call'', co_session_id = sid, co_assistant_message = None, co_tool_calls = Some remaining,
       co_tool_call = Some (hd remaining), co_block_reason = None, co_usage = None, co_message_step_id = Some turn,
       co_step_id = step, co_server_tools = []\<rparr>)"

text \<open>The continuation once the barrier is closed and no saved step answers.\<close>

definition continue_turn :: "chat_settings \<Rightarrow> chat_env \<Rightarrow> uuid \<Rightarrow> uuid \<Rightarrow> chat_session \<Rightarrow> uuid \<Rightarrow> chat_run_out cop" where
  "continue_turn cfg env uid sid sess turn =
     op_bind (session_mode sess) (\<lambda>m.
     op_bind (c_db (evaluate_access (ce_now env) uid m sid)) (\<lambda>(decision, state).
     op_bind (c_db (op_read (assistant_tool_step_id sid turn))) (\<lambda>step.
     let inflight = (m = ModeCredits \<and> subscription_status state = SubNone \<and> ps_trial_used state \<and> step \<noteq> None) in
     if \<not> allow decision \<and> \<not> (block_reason decision = Some BR_trial_used \<and> inflight)
     then op_return (chat_blocked sid (block_reason decision))
     else
       op_bind (c_db (resolve_api_key env uid m)) (\<lambda>api_key.
       op_bind (c_db (op_read (\<lambda>s. case ses_workspace sess of
           None \<Rightarrow> system_prompt_for (ses_assistant_mode sess)
         | Some w \<Rightarrow> system_prompt_with_workspace (ses_assistant_mode sess) (instructions_for_session w uid s)))) (\<lambda>system_prompt.
       generate_with_trial_reconcile cfg env inflight
         \<lparr>gp_user = uid, gp_session = sid, gp_turn = turn, gp_mode = m, gp_billing = billing_plan_of m state, gp_api_key = api_key,
          gp_system_prompt = system_prompt, gp_has_project = (ses_project_id sess \<noteq> None), gp_model = nonempty (ses_model sess)\<rparr>
         None)))))"

definition chat_tool_result :: "chat_settings \<Rightarrow> chat_env \<Rightarrow> uuid \<Rightarrow> uuid \<Rightarrow> tool_result_in list \<Rightarrow> chat_run_out cop" where
  "chat_tool_result cfg env uid sid results =
     (if results = [] then raise_app ValidationFailedError ''results must be non-empty''
      else
        op_bind (c_db (op_read (get_session sid uid))) (\<lambda>found.
        case found of
          None \<Rightarrow> raise_app NotFoundError ''session not found''
        | Some sess \<Rightarrow>
            op_bind (c_db (resolve_results sid None results)) (\<lambda>resolved.
            let first = snd (hd resolved); turn = tc_turn first in
            op_bind (c_db (apply_results uid sid turn resolved)) (\<lambda>_.
            op_bind (c_db (op_read (pending_calls sid turn))) (\<lambda>pending.
            if pending \<noteq> []
            then op_bind c_commit (\<lambda>_.
                 op_bind (c_db (op_read (assistant_tool_step_id sid turn))) (\<lambda>step.
                 op_return (awaiting sid turn pending step)))
            else
              op_bind (c_db (op_read (next_step_after sid turn (tc_id first)))) (\<lambda>saved.
              op_bind (c_db (op_read (all_already_done_before resolved))) (\<lambda>replayed.
              case saved of
                Some st \<Rightarrow> if replayed then c_lift (render_saved_step sid turn st) else continue_turn cfg env uid sid sess turn
              | None \<Rightarrow> continue_turn cfg env uid sid sess turn)))))))"

end
