(* ===== verification/ChatFacts.thy ===== *)
theory ChatFacts
  imports ChatOrchestrator WebsiteFacts
begin

text \<open>
  Facts about the chat orchestrator. An invariant of the tables that the statements on rows keep is kept
  by whole requests: by what they commit, also when they fail, and by what the session sees while they
  have not failed. The contract is a locale; it is interpreted here for the absence of a debit and
  for the state of the trial, and in \<open>ChatTurns\<close> for the tool calls and their results.
\<close>

subsection \<open>Rules for operations that keep an invariant when they return\<close>

named_theorems ok_rules

lemma ok_return [ok_rules, simp]: "op_preserves_ok I (op_return x)"
  by (simp add: op_preserves_ok_def)

lemma ok_raise [ok_rules, simp]: "op_preserves_ok I (op_raise e)"
  by (simp add: op_preserves_ok_def)

lemma ok_read [ok_rules, simp]: "op_preserves_ok I (op_read f)"
  by (simp add: op_preserves_ok_def)

lemma ok_bind [ok_rules]:
  "op_preserves_ok I m \<Longrightarrow> (\<And>x. op_preserves_ok I (f x)) \<Longrightarrow> op_preserves_ok I (op_bind m f)"
  unfolding op_preserves_ok_def op_bind_Inr_iff by blast

lemma ok_if [ok_rules]:
  "(b \<Longrightarrow> op_preserves_ok I m) \<Longrightarrow> (\<not> b \<Longrightarrow> op_preserves_ok I n) \<Longrightarrow> op_preserves_ok I (if b then m else n)"
  by simp

lemma ok_option [ok_rules]:
  "(x = None \<Longrightarrow> op_preserves_ok I m) \<Longrightarrow> (\<And>y. x = Some y \<Longrightarrow> op_preserves_ok I (f y)) \<Longrightarrow>
   op_preserves_ok I (case x of None \<Rightarrow> m | Some y \<Rightarrow> f y)"
  by (cases x) auto

lemma ok_prod [ok_rules]:
  "(\<And>a b. x = (a, b) \<Longrightarrow> op_preserves_ok I (f a b)) \<Longrightarrow> op_preserves_ok I (case x of (a, b) \<Rightarrow> f a b)"
  by (cases x) auto

text \<open>The same for a session: what is committed always, what is seen when the operation returns.\<close>

definition c_keeps :: "(db \<Rightarrow> bool) \<Rightarrow> 'a cop \<Rightarrow> bool" where
  "c_keeps I m \<longleftrightarrow> (\<forall>x r y. I (ct_committed x) \<longrightarrow> I (ct_db x) \<longrightarrow> m x = (r, y) \<longrightarrow> I (ct_committed y) \<and> (\<forall>v. r = Inr v \<longrightarrow> I (ct_db y)))"

named_theorems keep_rules

lemma c_keepsI:
  "(\<And>x r y. I (ct_committed x) \<Longrightarrow> I (ct_db x) \<Longrightarrow> m x = (r, y) \<Longrightarrow> I (ct_committed y) \<and> (\<forall>v. r = Inr v \<longrightarrow> I (ct_db y))) \<Longrightarrow> c_keeps I m"
  unfolding c_keeps_def by blast

lemma c_keepsD:
  "c_keeps I m \<Longrightarrow> m x = (r, y) \<Longrightarrow> I (ct_committed x) \<Longrightarrow> I (ct_db x) \<Longrightarrow> I (ct_committed y) \<and> (\<forall>v. r = Inr v \<longrightarrow> I (ct_db y))"
  unfolding c_keeps_def by blast

lemma keeps_return [keep_rules, simp]: "c_keeps I (op_return v)"
  by (simp add: c_keeps_def)

lemma keeps_raise [keep_rules, simp]: "c_keeps I (op_raise e)"
  by (simp add: c_keeps_def)

lemma keeps_commit [keep_rules, simp]: "c_keeps I c_commit"
  by (auto simp: c_keeps_def c_commit_def)

lemma keeps_rollback [keep_rules, simp]: "c_keeps I c_rollback"
  by (auto simp: c_keeps_def c_rollback_def)

lemma keeps_sent [keep_rules, simp]: "c_keeps I (c_sent q)"
  by (auto simp: c_keeps_def c_sent_def)

lemma keeps_others: "(\<And>d. I d \<Longrightarrow> I (f d)) \<Longrightarrow> c_keeps I (c_others f)"
  by (auto simp: c_keeps_def c_others_def)

lemma keeps_db: "op_preserves_ok I m \<Longrightarrow> c_keeps I (c_db m)"
  unfolding c_keeps_def op_preserves_ok_def c_db_def by (auto split: prod.splits)

lemma keeps_db_read [keep_rules, simp]: "c_keeps I (c_db (op_read f))"
  by (simp add: keeps_db)

lemma keeps_lift [keep_rules, simp]: "c_keeps I (c_lift r)"
  by (simp add: c_lift_def split: sum.split)

lemma keeps_bind [keep_rules]:
  assumes "c_keeps I m" "\<And>v. c_keeps I (f v)"
  shows "c_keeps I (op_bind m f)"
proof (rule c_keepsI)
  fix x r y
  assume I: "I (ct_committed x)" "I (ct_db x)" and run: "op_bind m f x = (r, y)"
  obtain q z where m: "m x = (q, z)" by (cases "m x")
  with assms(1) I have z: "I (ct_committed z)" "\<And>v. q = Inr v \<Longrightarrow> I (ct_db z)" unfolding c_keeps_def by blast+
  show "I (ct_committed y) \<and> (\<forall>v. r = Inr v \<longrightarrow> I (ct_db y))"
  proof (cases q)
    case (Inl e)
    with run m z show ?thesis by (auto simp: op_bind_def)
  next
    case (Inr v)
    with run m have "f v z = (r, y)" by (simp add: op_bind_def)
    with assms(2) [of v] z Inr show ?thesis unfolding c_keeps_def by blast
  qed
qed

lemma keeps_if [keep_rules]:
  "(b \<Longrightarrow> c_keeps I m) \<Longrightarrow> (\<not> b \<Longrightarrow> c_keeps I n) \<Longrightarrow> c_keeps I (if b then m else n)"
  by simp

lemma keeps_option [keep_rules]:
  "(x = None \<Longrightarrow> c_keeps I m) \<Longrightarrow> (\<And>y. x = Some y \<Longrightarrow> c_keeps I (f y)) \<Longrightarrow> c_keeps I (case x of None \<Rightarrow> m | Some y \<Rightarrow> f y)"
  by (cases x) auto

lemma keeps_prod [keep_rules]:
  "(\<And>a b. x = (a, b) \<Longrightarrow> c_keeps I (f a b)) \<Longrightarrow> c_keeps I (case x of (a, b) \<Rightarrow> f a b)"
  by (cases x) auto

text \<open>A handler that first goes back to the committed rows, and one for an operation that keeps the invariant when it fails too.\<close>

lemma keeps_catch_rollback:
  assumes "c_keeps I m" "\<And>e. c_keeps I (h e)"
  shows "c_keeps I (op_catch m (\<lambda>e. op_bind c_rollback (\<lambda>_. h e)))"
proof (rule c_keepsI)
  fix x r y
  assume I: "I (ct_committed x)" "I (ct_db x)" and run: "op_catch m (\<lambda>e. op_bind c_rollback (\<lambda>_. h e)) x = (r, y)"
  obtain q z where m: "m x = (q, z)" by (cases "m x")
  with assms(1) I have z: "I (ct_committed z)" "\<And>v. q = Inr v \<Longrightarrow> I (ct_db z)" unfolding c_keeps_def by blast+
  show "I (ct_committed y) \<and> (\<forall>v. r = Inr v \<longrightarrow> I (ct_db y))"
  proof (cases q)
    case (Inl e)
    with run m have "h e (z\<lparr>ct_db := ct_committed z\<rparr>) = (r, y)" by (simp add: op_catch_def c_rollback_def op_bind_modify)
    from c_keepsD [OF assms(2) this] z show ?thesis by simp
  next
    case (Inr v)
    with run m z show ?thesis by (auto simp: op_catch_def)
  qed
qed

lemma keeps_catch_db:
  assumes "op_preserves I m" "\<And>e. c_keeps I (h e)"
  shows "c_keeps I (op_catch (op_bind (c_db m) (\<lambda>v. op_return (f v))) h)"
proof (rule c_keepsI)
  fix x r y
  assume I: "I (ct_committed x)" "I (ct_db x)" and run: "op_catch (op_bind (c_db m) (\<lambda>v. op_return (f v))) h x = (r, y)"
  obtain q d where m: "m (ct_db x) = (q, d)" by (cases "m (ct_db x)")
  with assms(1) I have d: "I d" by (metis op_preservesD snd_conv)
  show "I (ct_committed y) \<and> (\<forall>v. r = Inr v \<longrightarrow> I (ct_db y))"
  proof (cases q)
    case (Inl e)
    with run m have "h e (x\<lparr>ct_db := d\<rparr>) = (r, y)" by (simp add: op_catch_def op_bind_def c_db_def)
    from c_keepsD [OF assms(2) this] d I show ?thesis by simp
  next
    case (Inr v)
    with run m I d show ?thesis by (auto simp: op_catch_def op_bind_def c_db_def)
  qed
qed

subsection \<open>What the statements on rows leave alone\<close>

definition core_le :: "db \<Rightarrow> db \<Rightarrow> bool" where
  "core_le s t \<longleftrightarrow> users t = users s \<and> wallets t = wallets s \<and> ledger t = ledger s \<and> subscriptions t = subscriptions s \<and>
     next_id s \<le> next_id t"

definition rows_le :: "db \<Rightarrow> db \<Rightarrow> bool" where
  "rows_le s t \<longleftrightarrow> core_le s t \<and> chat_steps t = chat_steps s \<and> tool_calls t = tool_calls s \<and> chat_sessions t = chat_sessions s"

lemma core_le_refl [simp]: "core_le s s"
  by (simp add: core_le_def)

lemma rows_le_refl [simp]: "rows_le s s"
  by (simp add: rows_le_def)

lemma core_le_trans: "core_le s t \<Longrightarrow> core_le t u \<Longrightarrow> core_le s u"
  by (auto simp: core_le_def)

lemma core_le_upd [simp]:
  "core_le s (t\<lparr>audit_logs := a\<rparr>) = core_le s t" "core_le s (t\<lparr>chat_steps := b\<rparr>) = core_le s t"
  "core_le s (t\<lparr>tool_calls := c\<rparr>) = core_le s t" "core_le s (t\<lparr>chat_sessions := e\<rparr>) = core_le s t"
  "core_le s (t\<lparr>site_files := f\<rparr>) = core_le s t" "core_le s (t\<lparr>site_projects := g\<rparr>) = core_le s t"
  "core_le s (t\<lparr>byok_keys := h\<rparr>) = core_le s t"
  by (simp_all add: core_le_def)

lemma core_le_next [simp]: "core_le s t \<Longrightarrow> next_id t \<le> n \<Longrightarrow> core_le s (t\<lparr>next_id := n\<rparr>)"
  by (simp add: core_le_def)

lemma rows_le_upd [simp]:
  "rows_le s (t\<lparr>audit_logs := a\<rparr>) = rows_le s t" "rows_le s (t\<lparr>site_files := f\<rparr>) = rows_le s t"
  "rows_le s (t\<lparr>site_projects := g\<rparr>) = rows_le s t" "rows_le s (t\<lparr>byok_keys := h\<rparr>) = rows_le s t"
  by (simp_all add: rows_le_def)

lemma rows_le_next [simp]: "rows_le s t \<Longrightarrow> next_id t \<le> n \<Longrightarrow> rows_le s (t\<lparr>next_id := n\<rparr>)"
  by (simp add: rows_le_def)

lemma site_steps_rows:
  "op_preserves (rows_le s) (resolve_project uid ext)" "op_preserves (rows_le s) (site_audit uid sid payload)"
  "op_preserves (rows_le s) (site_delete_file project path)" "op_preserves (rows_le s) (site_write_file cfg project path content ct)"
proof -
  show "op_preserves (rows_le s) (resolve_project uid ext)"
    by (rule op_preservesI) (auto simp: resolve_project_def Let_def split: option.split)
  show "op_preserves (rows_le s) (site_audit uid sid payload)"
    by (rule op_preservesI) (simp add: site_audit_def)
  show "op_preserves (rows_le s) (site_delete_file project path)"
    unfolding site_delete_file_def by (auto intro!: op_preserves_bind op_preserves_modify split: sum.split)
  show "op_preserves (rows_le s) (site_write_file cfg project path content ct)"
    unfolding site_write_file_def
    by (auto intro!: op_preserves_bind op_preserves_modify simp: Let_def put_file_def split: sum.split prod.split)
qed

lemma site_execute_rows: "op_preserves (rows_le s0) (site_execute env tool args uid ext sid)"
proof (rule op_preservesI)
  fix s assume r: "rows_le s0 s"
  have "op_preserves (rows_le s0) (site_dispatch env tool args uid ext sid)"
    unfolding site_dispatch_def tool_write_file_def tool_preview_def tool_list_def tool_read_def tool_delete_def
    by (auto intro!: op_preserves_bind arg_str_preserves site_steps_rows simp: Let_def split: option.split prod.split)
  from op_preservesD [OF this r] show "rows_le s0 (snd (site_execute env tool args uid ext sid s))"
    by (auto simp: site_execute_def split: prod.splits sum.splits site_exn.splits)
qed

lemma site_execute_core: "op_preserves (core_le s0) (site_execute env tool args uid ext sid)"
proof (rule op_preservesI)
  fix s assume "core_le s0 s"
  with op_preservesD [OF site_execute_rows, of s s env tool args uid ext sid] show "core_le s0 (snd (site_execute env tool args uid ext sid s))"
    by (auto simp: rows_le_def intro: core_le_trans)
qed

named_theorems core_rules

lemma core_small [core_rules]:
  "op_preserves (core_le s) uuid4" "op_preserves (core_le s) (add_step sid turn role payload usage)"
  "op_preserves (core_le s) (chat_audit uid sid ty p)" "op_preserves (core_le s) (create_session now c)"
  "op_preserves (core_le s) (touch_session now sid)" "op_preserves (core_le s) (truncate_from_message_step sid turn)"
  "op_preserves (core_le s) (create_tool_call sid turn name args tcid pid)"
  "op_preserves (core_le s) (complete_tool_call tcid status result)"
  by (rule op_preservesI; simp add: uuid4_def add_step_def chat_audit_def create_session_def touch_session_def
      truncate_from_message_step_def create_tool_call_def complete_tool_call_def Let_def split: option.split)+

lemma core_session [core_rules]: "op_preserves (core_le s) (get_or_create_session ttl now sid c)"
proof (rule op_preservesI)
  fix t assume t: "core_le s t"
  from op_preservesD [OF core_small(4) t] t show "core_le s (snd (get_or_create_session ttl now sid c t))"
    by (auto simp: get_or_create_session_def split: option.split)
qed

lemma core_mark_expired [core_rules]: "op_preserves (core_le s) (mark_expired uid)"
  by (rule op_preservesI) (auto simp: mark_expired_def mark_runtime_def put_key_def byok_audit_def op_bind_def split: option.split)

lemma core_record_execution [core_rules]: "op_preserves (core_le s) (record_execution uid sid turn tcid name pid x)"
  unfolding record_execution_def Let_def by (intro op_rules core_rules)

lemma core_handle_block [core_rules]: "op_preserves (core_le s) (handle_block cfg env now uid sid turn project b)"
  unfolding handle_block_def execute_server_side_tool_def execute_global_server_side_tool_def Let_def
  by (auto intro!: op_rules core_rules site_execute_core split: sum.split)

lemma core_apply_tool_result [core_rules]: "op_preserves (core_le s) (apply_tool_result uid sid turn tc result err)"
  unfolding apply_tool_result_def Let_def by (intro op_rules core_rules)

lemma evaluate_access_eval:
  "evaluate_access now uid m sid s = (r, t) \<Longrightarrow>
   (\<exists>rows. t = s\<lparr>audit_logs := rows\<rparr>) \<and>
   (\<forall>d st. r = Inr (d, st) \<longrightarrow> load_policy_state now uid s = (Inr st, s) \<and> d = evaluate st m)"
proof -
  assume run: "evaluate_access now uid m sid s = (r, t)"
  obtain q where q: "load_policy_state now uid s = (q, s)"
    using load_policy_state_pure [of now uid s] by (metis prod.collapse)
  have same: "\<exists>rows. s = s\<lparr>audit_logs := rows\<rparr>" by (rule exI [of _ "audit_logs s"]) simp
  show ?thesis using run q same
    by (cases q) (auto simp: evaluate_access_def op_bind_def chat_audit_def Let_def)
qed

lemma resolve_api_key_pure: "snd (resolve_api_key env uid m s) = s"
  by (auto simp: resolve_api_key_def get_plaintext_key_def op_bind_def split: option.splits prod.splits sum.splits)

subsection \<open>Contract of the statements on rows\<close>

definition call_key :: "tool_call \<Rightarrow> uuid \<times> uuid \<times> uuid" where
  "call_key c = (tc_id c, tc_session c, tc_turn c)"

definition refers :: "uuid \<Rightarrow> uuid \<Rightarrow> tool_call \<Rightarrow> db \<Rightarrow> bool" where
  "refers sid turn tc d \<longleftrightarrow> (tc_id tc, sid, turn) \<in> set (map call_key (tool_calls d))"

lemma complete_keys: "map call_key (tool_calls (snd (complete_tool_call tcid status result s))) = map call_key (tool_calls s)"
  by (auto simp: complete_tool_call_def call_key_def Let_def)

lemma refers_small:
  "op_preserves (refers sid' turn' tc') (add_step sid turn role payload usage)"
  "op_preserves (refers sid' turn' tc') (chat_audit uid sid ty p)"
  "op_preserves (refers sid' turn' tc') (complete_tool_call tcid status result)"
  by (rule op_preservesI, simp add: add_step_def chat_audit_def refers_def complete_keys del: set_map)+

lemma apply_tool_result_refers: "op_preserves (refers sid' turn' tc') (apply_tool_result uid sid turn tc result err)"
  unfolding apply_tool_result_def Let_def by (intro op_rules refers_small)

lemma apply_results_refers: "op_preserves (refers sid' turn' tc') (apply_results uid sid turn rs)"
proof (induction rs)
  case (Cons q qs)
  obtain item tc where q: "q = (item, tc)" by (cases q)
  show ?case unfolding q apply_results.simps by (intro op_rules apply_tool_result_refers Cons.IH)
qed (simp only: apply_results.simps op_preserves_return)

locale chat_rows =
  fixes I :: "db \<Rightarrow> bool"
  assumes uuid4_ok: "op_preserves_ok I uuid4"
    and step_ok: "op_preserves_ok I (add_step sid turn ''assistant'' payload usage)"
    and audit_ok: "op_preserves_ok I (chat_audit uid sid ty p)"
    and session_ok: "op_preserves_ok I (get_or_create_session ttl now sid0 c)"
    and truncate_ok: "op_preserves_ok I (truncate_from_message_step sid turn)"
    and touch_ok: "op_preserves_ok I (touch_session now sid)"
    and block_ok: "op_preserves_ok I (handle_block cfg env now uid sid turn project b)"
    and apply_ok: "op_preserves_ok (\<lambda>d. I d \<and> refers sid turn tc d) (apply_tool_result uid sid turn tc result err)"
    and expired_ok: "op_preserves_ok I (mark_expired uid)"
begin

lemmas row_rules = uuid4_ok step_ok audit_ok session_ok truncate_ok touch_ok block_ok expired_ok

lemma blocks_ok: "op_preserves_ok I (handle_blocks cfg env now uid sid turn project bs)"
proof (induction bs)
  case (Cons b bs)
  then show ?case unfolding handle_blocks.simps by (intro ok_rules block_ok)
qed (simp only: handle_blocks.simps ok_return)

lemma tool_use_ok: "op_preserves_ok I (handle_tool_use cfg env now uid sid turn has_project executed result)"
  unfolding handle_tool_use_def external_project_id_def by (intro ok_rules step_ok blocks_ok)

lemma evaluate_ok: "op_preserves_ok I (evaluate_access now uid m sid)"
  unfolding evaluate_access_def Let_def
  by (intro ok_rules audit_ok op_preserves_okI) (metis load_policy_state_pure snd_conv)

lemma api_key_ok: "op_preserves_ok I (resolve_api_key env uid m)"
  by (rule op_preserves_okI) (metis resolve_api_key_pure snd_conv)

lemma messages_ok: "op_preserves_ok I (build_messages sid)"
  by (rule op_preserves_okI) (simp add: build_messages_def)

lemma apply_results_ok:
  "op_preserves_ok (\<lambda>d. I d \<and> (\<forall>(item, tc) \<in> set rs. refers sid turn tc d)) (apply_results uid sid turn rs)"
proof (induction rs)
  case (Cons p rs)
  obtain item tc where p: "p = (item, tc)" by (cases p)
  let ?m = "if tool_done tc then op_return () else apply_tool_result uid sid turn tc (ti_result item) (ti_error item)"
  have m_ok: "op_preserves_ok (\<lambda>d. I d \<and> refers sid turn tc d) ?m" by (intro ok_rules apply_ok)
  have m_refers: "op_preserves (refers sid turn tc') ?m" for tc' by (intro op_rules apply_tool_result_refers)
  show ?case
  proof (rule op_preserves_okI)
    fix s v t
    assume I: "I s \<and> (\<forall>(item, tc) \<in> set (p # rs). refers sid turn tc s)" and run: "apply_results uid sid turn (p # rs) s = (Inr v, t)"
    from run obtain u s1 where m: "?m s = (Inr u, s1)" and rest: "apply_results uid sid turn rs s1 = (Inr v, t)"
      unfolding p apply_results.simps op_bind_Inr_iff by blast
    from I p have Is: "I s \<and> refers sid turn tc s" by simp
    have "I s1 \<and> refers sid turn tc s1" using m_ok Is m unfolding op_preserves_ok_def by blast
    moreover have keep: "refers sid turn tc' s1" if "refers sid turn tc' s" for tc'
      using op_preservesD [OF m_refers that] by (simp only: m snd_conv)
    ultimately have s1: "I s1 \<and> (\<forall>(item, tc) \<in> set rs. refers sid turn tc s1)" "refers sid turn tc s1" using I by auto
    from Cons.IH s1(1) rest have "I t \<and> (\<forall>(item, tc) \<in> set rs. refers sid turn tc t)" unfolding op_preserves_ok_def by blast
    moreover from op_preservesD [OF apply_results_refers s1(2), of uid sid turn rs] have "refers sid turn tc t" by (simp only: rest snd_conv)
    ultimately show "I t \<and> (\<forall>(item, tc) \<in> set (p # rs). refers sid turn tc t)" using p by auto
  qed
qed (simp only: apply_results.simps ok_return)

end

definition others_keep :: "chat_env \<Rightarrow> (db \<Rightarrow> bool) \<Rightarrow> bool" where
  "others_keep env I \<longleftrightarrow> (\<forall>k d. I d \<longrightarrow> I (lc_others (ce_llm env k) d))"

text \<open>A generation either ends without a final answer, or in the final step.\<close>

definition ends_open :: "(db \<Rightarrow> bool) \<Rightarrow> exn + chat_run_out \<Rightarrow> chat_tx \<Rightarrow> bool" where
  "ends_open I r y \<longleftrightarrow> I (ct_committed y) \<and> (\<forall>v. r = Inr v \<longrightarrow> I (ct_db y) \<and> co_status v \<noteq> ''assistant_message'')"

definition ends_final :: "chat_settings \<Rightarrow> gen_params \<Rightarrow> (db \<Rightarrow> bool) \<Rightarrow> exn + chat_run_out \<Rightarrow> chat_tx \<Rightarrow> bool" where
  "ends_final cfg p I r y \<longleftrightarrow> (\<exists>z now executed res. I (ct_committed z) \<and> I (ct_db z) \<and>
     finalize_assistant cfg now (gp_user p) (gp_session p) (gp_turn p) (gp_billing p) executed res z = (r, y))"

lemma chat_blocked_status [simp]: "co_status (chat_blocked sid reason) = ''blocked''"
  by (simp add: chat_blocked_def)

lemma max_tokens_status: "handle_max_tokens uid sid turn executed res x = (Inr v, y) \<Longrightarrow> co_status v = ''blocked''"
  by (auto simp: handle_max_tokens_def Let_def op_bind_Inr_iff)

lemma tool_use_status:
  "handle_tool_use cfg env now uid sid turn hp executed res d = (Inr (Some out, ex'), d') \<Longrightarrow> co_status out = ''tool_call''"
  by (auto simp: handle_tool_use_def op_bind_Inr_iff split: prod.splits if_splits)

context chat_rows begin

lemma send_keeps: "others_keep env I \<Longrightarrow> c_keeps I (send_round env p atts k)"
  unfolding send_round_def others_keep_def by (intro keep_rules keeps_db messages_ok keeps_others) blast

lemma max_tokens_keeps: "c_keeps I (handle_max_tokens uid sid turn executed res)"
  unfolding handle_max_tokens_def Let_def by (intro keep_rules keeps_db step_ok audit_ok)

lemma tool_round_keeps: "c_keeps I (op_bind (c_db (handle_tool_use cfg env now uid sid turn hp executed res)) (\<lambda>v. op_bind c_commit (\<lambda>_. op_return v)))"
  by (intro keep_rules keeps_db tool_use_ok)

lemma expire_keeps: "c_keeps I (op_bind (c_db (mark_expired uid)) (\<lambda>_. op_bind c_commit (\<lambda>_. op_return v)))"
  by (intro keep_rules keeps_db expired_ok)

lemma exhausted_keeps: "c_keeps I (generate_rounds cfg env p 0 k atts executed)"
  unfolding generate_rounds.simps by (intro keep_rules keeps_db audit_ok)

lemma exhausted_raises: "generate_rounds cfg env p 0 k atts executed x \<noteq> (Inr v, y)"
  by (auto simp: op_bind_Inr_iff)

lemma rounds_final:
  assumes "others_keep env I"
  shows "I (ct_committed x) \<Longrightarrow> I (ct_db x) \<Longrightarrow> generate_rounds cfg env p n k atts executed x = (r, y) \<Longrightarrow>
    ends_open I r y \<or> ends_final cfg p I r y"
proof (induction n arbitrary: k atts executed x)
  case 0
  from c_keepsD [OF exhausted_keeps 0(3) 0(1,2)] exhausted_raises 0(3) show ?case unfolding ends_open_def by blast
next
  case (Suc n)
  obtain q z where send: "send_round env p atts k x = (q, z)" by (cases "send_round env p atts k x")
  note z = c_keepsD [OF send_keeps [OF assms] send Suc.prems(1,2)]
  show ?case
  proof (cases q)
    case (Inl e)
    with Suc.prems(3) send z show ?thesis by (auto simp: op_bind_def ends_open_def)
  next
    case (Inr outcome)
    with z have zI: "I (ct_committed z)" "I (ct_db z)" by auto
    note run = Suc.prems(3) [unfolded generate_rounds.simps op_bind_InrI [of "send_round env p atts k" x outcome z, OF send [unfolded Inr]] Let_def]
    show ?thesis
    proof (cases outcome)
      case (LlmRaises e)
      with run zI show ?thesis by (auto simp: ends_open_def)
    next
      case (LlmAuthError cls)
      show ?thesis
      proof (cases "gp_mode p = ModeByok")
        case True
        with run LlmAuthError have h: "op_bind (c_db (mark_expired (gp_user p))) (\<lambda>_. op_bind c_commit (\<lambda>_.
          op_return (chat_blocked (gp_session p) (Some BR_byok_invalid)))) z = (r, y)" by simp
        then have "co_status v \<noteq> ''assistant_message''" if "r = Inr v" for v using that by (auto simp: op_bind_Inr_iff)
        with c_keepsD [OF expire_keeps h zI] show ?thesis by (auto simp: ends_open_def)
      next
        case False
        with run LlmAuthError zI show ?thesis by (auto simp: ends_open_def)
      qed
    next
      case (LlmAnswer res)
      note run = run [unfolded LlmAnswer llm_outcome.case]
      consider (limit) "res_stop_reason res = Some STOP_REASON_MAX_TOKENS"
        | (tools) "res_stop_reason res \<noteq> Some STOP_REASON_MAX_TOKENS" "res_stop_reason res = Some STOP_REASON_TOOL_USE \<and> res_tool_uses res \<noteq> []"
        | (final) "res_stop_reason res \<noteq> Some STOP_REASON_MAX_TOKENS" "\<not> (res_stop_reason res = Some STOP_REASON_TOOL_USE \<and> res_tool_uses res \<noteq> [])"
        by blast
      then show ?thesis
      proof cases
        case limit
        with run have h: "handle_max_tokens (gp_user p) (gp_session p) (gp_turn p) executed res z = (r, y)" by simp
        from c_keepsD [OF max_tokens_keeps h zI] max_tokens_status h show ?thesis by (auto simp: ends_open_def)
      next
        case tools
        let ?m = "op_bind (c_db (handle_tool_use cfg env (lc_now (ce_llm env k)) (gp_user p) (gp_session p) (gp_turn p) (gp_has_project p) executed res))
          (\<lambda>v. op_bind c_commit (\<lambda>_. op_return v))"
        from run tools have run': "op_bind ?m (\<lambda>(client_out, ex'). case client_out of Some out \<Rightarrow> op_return out
            | None \<Rightarrow> generate_rounds cfg env p n (Suc k) None ex') z = (r, y)"
          by (simp add: op_bind_assoc case_prod_beta')
        obtain q w where m: "?m z = (q, w)" by (cases "?m z")
        note w = c_keepsD [OF tool_round_keeps m zI]
        show ?thesis
        proof (cases q)
          case (Inl e)
          with run' m w show ?thesis by (auto simp: op_bind_def [of ?m] ends_open_def)
        next
          case (Inr v)
          obtain client_out ex' where v: "v = (client_out, ex')" by (cases v)
          from run' m Inr v have cont: "(case client_out of Some out \<Rightarrow> op_return out
              | None \<Rightarrow> generate_rounds cfg env p n (Suc k) None ex') w = (r, y)"
            by (simp add: op_bind_def [of ?m])
          from w Inr have wI: "I (ct_committed w)" "I (ct_db w)" by auto
          show ?thesis
          proof (cases client_out)
            case None
            with Suc.IH [OF wI] cont show ?thesis by simp
          next
            case (Some out)
            from m Inr v Some have "co_status out = ''tool_call''"
              by (auto simp: op_bind_Inr_iff c_db_def split: prod.splits dest: tool_use_status)
            with Some cont wI show ?thesis by (auto simp: ends_open_def)
          qed
        qed
      next
        case final
        with run zI show ?thesis unfolding ends_final_def by auto
      qed
    qed
  qed
qed

end

subsection \<open>Requests\<close>

definition c_start :: "db \<Rightarrow> chat_tx" where
  "c_start d = \<lparr>ct_db = d, ct_committed = d, ct_requests = []\<rparr>"

lemma c_start_sel [simp]: "ct_db (c_start d) = d" "ct_committed (c_start d) = d" "ct_requests (c_start d) = []"
  by (simp_all add: c_start_def)

text \<open>The statements before the generation.\<close>

context chat_rows begin

lemma resolve_session_ok: "op_preserves_ok I (resolve_session cfg now rq)"
  unfolding resolve_session_def get_default_assistant_mode_def Let_def by (intro ok_rules session_ok)

lemma edit_ok: "op_preserves_ok I (edit_history ctx edit)"
  unfolding edit_history_def by (intro ok_rules truncate_ok)

lemma session_mode_keeps [simp]: "c_keeps I (session_mode c)"
  unfolding session_mode_def by (intro keep_rules)

lemma resolve_results_ok: "op_preserves_ok J (resolve_results sid turn items)"
proof (induction items arbitrary: turn)
  case (Cons item items)
  then show ?case unfolding resolve_results.simps by (intro ok_rules)
qed (simp only: resolve_results.simps ok_return)

end

lemma keeps_lift_bind: "(\<And>v. r = Inr v \<Longrightarrow> c_keeps I (f v)) \<Longrightarrow> c_keeps I (op_bind (c_lift r) f)"
  by (cases r) (simp_all add: c_lift_def)

text \<open>With the debit and the trial, every generation keeps the invariant; with the steps of users, every request.\<close>

locale chat_requests = chat_rows +
  assumes debit_ok: "op_preserves I (chat_debit cfg uid sid turn usage)"
    and mark_ok: "op_preserves_ok I (mark_trial_used uid)"
    and unmark_ok: "op_preserves_ok I (unmark_trial uid)"
begin

lemma finalize_keeps: "c_keeps I (finalize_assistant cfg now uid sid turn billing executed res)"
  unfolding finalize_assistant_def Let_def
  by (intro keep_rules keeps_db step_ok audit_ok touch_ok keeps_catch_db debit_ok)

lemma rounds_keeps: "others_keep env I \<Longrightarrow> c_keeps I (generate_rounds cfg env p n k atts executed)"
proof (rule c_keepsI)
  fix x r y
  assume "others_keep env I" "I (ct_committed x)" "I (ct_db x)" "generate_rounds cfg env p n k atts executed x = (r, y)"
  from rounds_final [OF this] consider "ends_open I r y" | "ends_final cfg p I r y" by blast
  then show "I (ct_committed y) \<and> (\<forall>v. r = Inr v \<longrightarrow> I (ct_db y))"
  proof cases
    case 2
    then show ?thesis unfolding ends_final_def using c_keepsD [OF finalize_keeps] by blast
  qed (auto simp: ends_open_def)
qed

lemma reconcile_keeps: "c_keeps I (reconcile_trial uid)"
  unfolding reconcile_trial_def by (intro keep_rules keeps_db unmark_ok)

lemma claim_keeps: "c_keeps I (claim_trial uid)"
  unfolding claim_trial_def by (intro keep_rules keeps_db mark_ok)

lemma generate_keeps: "others_keep env I \<Longrightarrow> c_keeps I (generate_with_trial_reconcile cfg env claimed p atts)"
  unfolding generate_with_trial_reconcile_def generate_loop_def
  by (intro keep_rules keeps_catch_rollback rounds_keeps reconcile_keeps)

text \<open>A message, given that the step of the user keeps the invariant with the content prepared for it.\<close>

lemma run_keeps_with:
  assumes "others_keep env I"
    and user: "\<And>sid turn prepared. (if rq_attachments rq = [] then Inr None
        else map_sum id Some (prepare_attachments (ce_pdf env) (chat_attachments cfg) (active_provider (llm_provider cfg)) (rq_attachments rq))) = Inr prepared \<Longrightarrow>
      op_preserves_ok I (add_step sid turn ''user''
        (content_payload (user_content (compose_turn0_text (render_context_block (rq_context rq)) (rq_message rq)) prepared)) None)"
  shows "c_keeps I (chat_run cfg env rq)"
  unfolding chat_run_def Let_def
  by (intro keeps_lift_bind keep_rules keeps_db uuid4_ok resolve_session_ok session_mode_keeps edit_ok user evaluate_ok api_key_ok
      claim_keeps generate_keeps assms(1)) (simp_all add: assms(1))

lemma continue_keeps: "others_keep env I \<Longrightarrow> c_keeps I (continue_turn cfg env uid sid sess turn)"
  unfolding continue_turn_def Let_def
  by (intro keep_rules keeps_db session_mode_keeps evaluate_ok api_key_ok generate_keeps) simp_all

end

subsection \<open>A batch of results\<close>

lemma resolve_results_Some:
  "resolve_results sid (Some u) items s = (Inr rs, t) \<Longrightarrow>
   t = s \<and> map fst rs = items \<and> (\<forall>(item, tc) \<in> set rs. get_tool_call (ti_tool_call_id item) s = Some tc \<and> tc_session tc = sid \<and> tc_turn tc = u)"
proof (induction items arbitrary: rs)
  case (Cons item items)
  then show ?case by (auto simp: op_bind_Inr_iff split: option.splits if_splits)
qed auto

lemma resolve_results_turn:
  assumes "resolve_results sid None items s = (Inr rs, t)" "items \<noteq> []"
  shows "t = s \<and> map fst rs = items \<and>
    (\<forall>(item, tc) \<in> set rs. get_tool_call (ti_tool_call_id item) s = Some tc \<and> tc_session tc = sid \<and> tc_turn tc = tc_turn (snd (hd rs)))"
proof (cases items)
  case (Cons item rest)
  with assms show ?thesis
    by (auto simp: op_bind_Inr_iff split: option.splits if_splits dest!: resolve_results_Some)
qed (use assms in simp)

lemma get_tool_call_refers: "get_tool_call i s = Some tc \<Longrightarrow> refers (tc_session tc) (tc_turn tc) tc s \<and> tc_id tc = i"
  unfolding get_tool_call_def refers_def call_key_def by (auto dest: find_SomeD)

text \<open>Reading the rows of the batch and applying it, as one operation.\<close>

definition take_results :: "uuid \<Rightarrow> uuid \<Rightarrow> tool_result_in list \<Rightarrow> (tool_result_in \<times> tool_call) list dbop" where
  "take_results uid sid results =
     op_bind (resolve_results sid None results) (\<lambda>resolved.
     op_bind (apply_results uid sid (tc_turn (snd (hd resolved))) resolved) (\<lambda>_. op_return resolved))"

lemma c_db_bind: "c_db (op_bind m f) = op_bind (c_db m) (\<lambda>v. c_db (f v))"
  by (auto simp: c_db_def op_bind_def fun_eq_iff split: prod.splits sum.splits)

lemma c_db_return [simp]: "c_db (op_return v) = op_return v"
  by (simp add: c_db_def fun_eq_iff)

definition after_results :: "chat_settings \<Rightarrow> chat_env \<Rightarrow> uuid \<Rightarrow> uuid \<Rightarrow> chat_session \<Rightarrow> (tool_result_in \<times> tool_call) list \<Rightarrow> chat_run_out cop" where
  "after_results cfg env uid sid sess resolved =
     (let first = snd (hd resolved); turn = tc_turn first in
      op_bind (c_db (op_read (pending_calls sid turn))) (\<lambda>pending.
      if pending \<noteq> []
      then op_bind c_commit (\<lambda>_.
           op_bind (c_db (op_read (assistant_tool_step_id sid turn))) (\<lambda>step.
           op_return (awaiting sid turn pending step)))
      else
        op_bind (c_db (op_read (next_step_after sid turn (tc_id first)))) (\<lambda>saved.
        op_bind (c_db (op_read (all_already_done_before resolved))) (\<lambda>replayed.
        case saved of
          Some st \<Rightarrow> if replayed then c_lift (render_saved_step sid turn st) else continue_turn cfg env uid sid sess turn
        | None \<Rightarrow> continue_turn cfg env uid sid sess turn))))"

lemma chat_tool_result_parts:
  "chat_tool_result cfg env uid sid results =
     (if results = [] then raise_app ValidationFailedError ''results must be non-empty''
      else
        op_bind (c_db (op_read (get_session sid uid))) (\<lambda>found.
        case found of
          None \<Rightarrow> raise_app NotFoundError ''session not found''
        | Some sess \<Rightarrow> op_bind (c_db (take_results uid sid results)) (after_results cfg env uid sid sess)))"
  by (simp add: chat_tool_result_def take_results_def after_results_def c_db_bind op_bind_assoc Let_def fun_eq_iff cong: option.case_cong)

context chat_rows begin

lemma take_results_ok:
  assumes "results \<noteq> []"
  shows "op_preserves_ok I (take_results uid sid results)"
proof (rule op_preserves_okI)
  fix s rs t
  assume I: "I s" and run: "take_results uid sid results s = (Inr rs, t)"
  from run obtain s1 where r: "resolve_results sid None results s = (Inr rs, s1)"
    and a: "apply_results uid sid (tc_turn (snd (hd rs))) rs s1 = (Inr (), t)"
    by (auto simp: take_results_def op_bind_Inr_iff)
  note res = resolve_results_turn [OF r assms]
  have "refers sid (tc_turn (snd (hd rs))) tc s" if "(item, tc) \<in> set rs" for item tc
    using res that get_tool_call_refers [of "ti_tool_call_id item" s tc] by auto
  with res have "s1 = s" "\<forall>(item, tc) \<in> set rs. refers sid (tc_turn (snd (hd rs))) tc s" by auto
  with apply_results_ok [of rs sid "tc_turn (snd (hd rs))" uid] I a show "I t" unfolding op_preserves_ok_def by blast
qed

end

context chat_requests begin

lemma after_results_keeps: "others_keep env I \<Longrightarrow> c_keeps I (after_results cfg env uid sid sess resolved)"
  unfolding after_results_def Let_def by (intro keep_rules continue_keeps)

lemma tool_result_keeps: "others_keep env I \<Longrightarrow> c_keeps I (chat_tool_result cfg env uid sid results)"
  unfolding chat_tool_result_parts by (intro keep_rules keeps_db take_results_ok after_results_keeps)

text \<open>What a request leaves committed.\<close>

lemma request_keeps:
  assumes "c_keeps I m" "I d"
  shows "I (ct_committed (snd (c_request m (c_start d))))"
proof -
  obtain r y where m: "m (c_start d) = (r, y)" by (cases "m (c_start d)")
  from c_keepsD [OF assms(1) m] assms(2) m show ?thesis by (cases r) (auto simp: c_request_def)
qed

end

locale chat_messages = chat_requests +
  assumes user_ok: "op_preserves_ok I (add_step sid turn ''user'' payload usage)"
begin

lemma run_keeps: "others_keep env I \<Longrightarrow> c_keeps I (chat_run cfg env rq)"
  by (rule run_keeps_with, assumption) (rule user_ok)

end

subsection \<open>Invariants of the untouched tables\<close>

definition core_stable :: "(db \<Rightarrow> bool) \<Rightarrow> bool" where
  "core_stable I \<longleftrightarrow> (\<forall>s t. core_le s t \<longrightarrow> I s \<longrightarrow> I t)"

lemma stable_op:
  assumes "core_stable I" "\<And>s. op_preserves (core_le s) m"
  shows "op_preserves I m"
proof (rule op_preservesI)
  fix s assume "I s"
  with assms(1) op_preservesD [OF assms(2) core_le_refl [of s]] show "I (snd (m s))" unfolding core_stable_def by blast
qed

lemma stable_apply:
  assumes "core_stable I"
  shows "op_preserves (\<lambda>d. I d \<and> refers sid turn tc d) (apply_tool_result uid sid turn tc result err)"
proof (rule op_preservesI)
  fix s assume s: "I s \<and> refers sid turn tc s"
  from op_preservesD [OF stable_op [OF assms core_apply_tool_result] conjunct1 [OF s]]
    op_preservesD [OF apply_tool_result_refers conjunct2 [OF s]]
  show "I (snd (apply_tool_result uid sid turn tc result err s)) \<and> refers sid turn tc (snd (apply_tool_result uid sid turn tc result err s))"
    by blast
qed

lemma chat_rows_stable: "core_stable I \<Longrightarrow> chat_rows I"
  by unfold_locales (rule op_preserves_imp_ok, (rule stable_op, assumption, rule core_rules | rule stable_apply, assumption))+

definition uncharged :: "uuid \<Rightarrow> string \<Rightarrow> db \<Rightarrow> bool" where
  "uncharged uid key d \<longleftrightarrow> existing_tx uid key d = None"

definition trial_flag :: "uuid \<Rightarrow> bool \<Rightarrow> db \<Rightarrow> bool" where
  "trial_flag uid b d \<longleftrightarrow> map_option trial_used (users d uid) = Some b"

interpretation unpaid: chat_rows "uncharged uid key" for uid key
  by (rule chat_rows_stable) (simp add: core_stable_def uncharged_def core_le_def existing_tx_def)

interpretation trial: chat_rows "trial_flag uid b" for uid b
  by (rule chat_rows_stable) (simp add: core_stable_def trial_flag_def core_le_def)

end
