(* ===== verification/ChatBilling.thy ===== *)
theory ChatBilling
  imports ChatFacts
begin

text \<open>
  Who pays for a message: the debit of a turn is committed with its final answer and only then, and the
  trial claimed for a turn stays used only when the turn went on.
\<close>

subsection \<open>Operations on the uncommitted rows\<close>

definition c_local :: "(db \<Rightarrow> bool) \<Rightarrow> 'a cop \<Rightarrow> bool" where
  "c_local J m \<longleftrightarrow> (\<forall>x r y. J (ct_db x) \<longrightarrow> m x = (r, y) \<longrightarrow>
     J (ct_db y) \<and> ct_committed y = ct_committed x \<and> ct_requests y = ct_requests x)"

named_theorems local_rules

lemma c_localD: "c_local J m \<Longrightarrow> m x = (r, y) \<Longrightarrow> J (ct_db x) \<Longrightarrow>
    J (ct_db y) \<and> ct_committed y = ct_committed x \<and> ct_requests y = ct_requests x"
  unfolding c_local_def by blast

lemma local_return [local_rules, simp]: "c_local J (op_return v)"
  by (simp add: c_local_def)

lemma local_raise [local_rules, simp]: "c_local J (op_raise e)"
  by (simp add: c_local_def)

lemma local_lift [local_rules, simp]: "c_local J (c_lift r)"
  by (simp add: c_lift_def split: sum.split)

lemma local_db: "op_preserves J m \<Longrightarrow> c_local J (c_db m)"
  unfolding c_local_def op_preserves_def c_db_def by (auto split: prod.splits)

lemma local_bind [local_rules]:
  assumes "c_local J m" "\<And>v. c_local J (f v)"
  shows "c_local J (op_bind m f)"
  unfolding c_local_def
proof (intro allI impI)
  fix x r y
  assume J: "J (ct_db x)" and run: "op_bind m f x = (r, y)"
  obtain q z where m: "m x = (q, z)" by (cases "m x")
  note z = c_localD [OF assms(1) m J]
  show "J (ct_db y) \<and> ct_committed y = ct_committed x \<and> ct_requests y = ct_requests x"
  proof (cases q)
    case (Inl e)
    with run m z show ?thesis by (simp add: op_bind_def)
  next
    case (Inr v)
    with run m have "f v z = (r, y)" by (simp add: op_bind_def)
    from c_localD [OF assms(2) this] z show ?thesis by simp
  qed
qed

lemma local_option [local_rules]:
  "(x = None \<Longrightarrow> c_local J m) \<Longrightarrow> (\<And>y. x = Some y \<Longrightarrow> c_local J (f y)) \<Longrightarrow> c_local J (case x of None \<Rightarrow> m | Some y \<Rightarrow> f y)"
  by (cases x) auto

lemma local_prod [local_rules]:
  "(\<And>a b. x = (a, b) \<Longrightarrow> c_local J (f a b)) \<Longrightarrow> c_local J (case x of (a, b) \<Rightarrow> f a b)"
  by (cases x) auto

subsection \<open>The two halves of a message\<close>

definition run_prefix :: "chat_settings \<Rightarrow> chat_env \<Rightarrow> run_request \<Rightarrow>
    (uuid \<times> session_context \<times> mode \<times> string \<times> prepared_attachments option \<times> decision \<times> policy_state) cop" where
  "run_prefix cfg env rq =
     (let now = ce_now env; uid = rq_user rq in
      op_bind (c_db uuid4) (\<lambda>turn.
      op_bind (c_db (resolve_session cfg now rq)) (\<lambda>ctx.
      op_bind (session_mode (sx_session ctx)) (\<lambda>m.
      op_bind (c_db (edit_history ctx (rq_edit_message_step_id rq))) (\<lambda>_.
      op_bind (c_db (op_read (prompt_and_files cfg ctx uid))) (\<lambda>(system_prompt, project_files).
      op_bind (c_lift (if rq_attachments rq = [] then Inr None
                       else map_sum id Some (prepare_attachments (ce_pdf env) (chat_attachments cfg) (active_provider (llm_provider cfg))
                                               (rq_attachments rq)))) (\<lambda>prepared.
      op_bind (c_db (add_step (sx_id ctx) turn ''user''
                 (content_payload (user_content (compose_turn0_text (render_context_block (rq_context rq)) (rq_message rq)) prepared)) None)) (\<lambda>_.
      op_bind (c_db (evaluate_access now uid m (sx_id ctx))) (\<lambda>(decision, state).
      op_return (turn, ctx, m, system_prompt, merge_attachments prepared project_files, decision, state))))))))))"

definition run_params :: "run_request \<Rightarrow> uuid \<Rightarrow> session_context \<Rightarrow> mode \<Rightarrow> string \<Rightarrow> policy_state \<Rightarrow> string option \<Rightarrow> gen_params" where
  "run_params rq turn ctx m system_prompt state k =
     \<lparr>gp_user = rq_user rq, gp_session = sx_id ctx, gp_turn = turn, gp_mode = m, gp_billing = billing_plan_of m state, gp_api_key = k,
      gp_system_prompt = system_prompt, gp_has_project = (ses_project_id (sx_session ctx) \<noteq> None), gp_model = nonempty (ses_model (sx_session ctx))\<rparr>"

definition run_admitted :: "chat_settings \<Rightarrow> chat_env \<Rightarrow> run_request \<Rightarrow> uuid \<Rightarrow> session_context \<Rightarrow> mode \<Rightarrow> string \<Rightarrow>
    prepared_attachments option \<Rightarrow> policy_state \<Rightarrow> chat_run_out cop" where
  "run_admitted cfg env rq turn ctx m system_prompt atts state =
     op_bind (if mark_trial (billing_plan_of m state) then claim_trial (rq_user rq) else op_return True) (\<lambda>claimed.
     if \<not> claimed then op_return (chat_blocked (sx_id ctx) (Some BR_trial_used))
     else
       op_bind (c_db (resolve_api_key env (rq_user rq) m)) (\<lambda>api_key.
       generate_with_trial_reconcile cfg env (mark_trial (billing_plan_of m state)) (run_params rq turn ctx m system_prompt state api_key) atts))"

lemma chat_run_parts:
  "chat_run cfg env rq = op_bind (run_prefix cfg env rq) (\<lambda>(turn, ctx, m, system_prompt, atts, decision, state).
     if \<not> allow decision then op_return (chat_blocked (sx_id ctx) (block_reason decision))
     else run_admitted cfg env rq turn ctx m system_prompt atts state)"
  by (simp add: chat_run_def run_prefix_def run_admitted_def run_params_def op_bind_assoc Let_def case_prod_beta' cong: if_cong)

lemma core_prefix:
  "op_preserves (core_le d) (resolve_session cfg now rq)" "op_preserves (core_le d) (edit_history ctx edit)"
  "op_preserves (core_le d) (evaluate_access now uid m sid)"
proof -
  show "op_preserves (core_le d) (resolve_session cfg now rq)"
    unfolding resolve_session_def get_default_assistant_mode_def Let_def by (intro op_rules core_rules)
  show "op_preserves (core_le d) (edit_history ctx edit)"
    unfolding edit_history_def by (intro op_rules core_rules)
  show "op_preserves (core_le d) (evaluate_access now uid m sid)"
    unfolding evaluate_access_def Let_def by (intro op_rules core_rules op_preservesI) simp
qed

lemma prefix_local: "c_local (core_le d) (run_prefix cfg env rq)"
  unfolding run_prefix_def Let_def session_mode_def by (intro local_rules local_db core_rules core_prefix op_preserves_read)

text \<open>The mode of the conversation: the one it was opened with.\<close>

definition opened_mode :: "chat_settings \<Rightarrow> int \<Rightarrow> run_request \<Rightarrow> db \<Rightarrow> string" where
  "opened_mode cfg now rq d =
     (case (case rq_session_id rq of None \<Rightarrow> None | Some sid \<Rightarrow> get_session sid (rq_user rq) d) of
        Some c \<Rightarrow> if is_expired (session_soft_ttl_seconds cfg) now c then rq_mode rq else ses_mode c
      | None \<Rightarrow> rq_mode rq)"

lemma get_or_create_mode:
  "get_or_create_session (session_soft_ttl_seconds cfg) now (rq_session_id rq) c s = (Inr ctx, t) \<Longrightarrow> ses_user c = rq_user rq \<Longrightarrow>
   ses_mode c = rq_mode rq \<Longrightarrow> ses_mode (sx_session ctx) = opened_mode cfg now rq s"
  by (cases "rq_session_id rq"; cases "get_session (the (rq_session_id rq)) (rq_user rq) s")
    (auto simp: opened_mode_def get_or_create_session_def create_session_def split: if_splits)

definition new_session :: "chat_settings \<Rightarrow> int \<Rightarrow> run_request \<Rightarrow> db \<Rightarrow> chat_session" where
  "new_session cfg now rq s =
     \<lparr>ses_user = rq_user rq, ses_project_id = rq_project_id rq, ses_mode = rq_mode rq, ses_model = map_option strip (rq_model rq),
      ses_title = derive_title (rq_message rq),
      ses_assistant_mode = (case rq_assistant_mode rq of Some a \<Rightarrow> a
        | None \<Rightarrow> (case preferences s (rq_user rq) of None \<Rightarrow> DEFAULT_ASSISTANT_MODE | Some p \<Rightarrow> pref_assistant_mode p)),
      ses_workspace = (if will_create_session cfg now (rq_user rq) (rq_session_id rq) s then rq_workspace rq else None), ses_pinned = False,
      ses_created_at = now, ses_updated_at = now\<rparr>"

lemma resolve_session_eval:
  "(\<exists>e. resolve_session cfg now rq s = (Inl e, s)) \<or>
   resolve_session cfg now rq s =
     get_or_create_session (session_soft_ttl_seconds cfg) now (rq_session_id rq) (new_session cfg now rq s) s"
  by (cases "rq_model rq"; cases "rq_assistant_mode rq"; cases "rq_workspace rq")
    (simp_all add: resolve_session_def new_session_def get_default_assistant_mode_def op_bind_read Let_def)

lemma resolve_session_mode:
  assumes "resolve_session cfg now rq s = (Inr ctx, t)"
  shows "ses_mode (sx_session ctx) = opened_mode cfg now rq s"
proof -
  have "get_or_create_session (session_soft_ttl_seconds cfg) now (rq_session_id rq) (new_session cfg now rq s) s = (Inr ctx, t)"
    using assms resolve_session_eval [of cfg now rq s] by auto
  then show ?thesis by (rule get_or_create_mode) (simp_all add: new_session_def)
qed

definition subscription_of :: "int \<Rightarrow> uuid \<Rightarrow> db \<Rightarrow> subscription_status" where
  "subscription_of now uid d =
     effective_subscription_status now (map_option sub_status (subscriptions d uid))
       (case subscriptions d uid of None \<Rightarrow> None | Some x \<Rightarrow> sub_expires_at x)"

definition has_used_trial :: "uuid \<Rightarrow> db \<Rightarrow> bool" where
  "has_used_trial uid d \<longleftrightarrow> (case users d uid of None \<Rightarrow> False | Some u \<Rightarrow> trial_used u)"

lemma policy_state_core:
  assumes "load_policy_state now uid s = (Inr st, t)" "core_le d s"
  shows "subscription_status st = subscription_of now uid d \<and> ps_trial_used st = has_used_trial uid d"
proof -
  from assms(2) have eq: "users s = users d" "subscriptions s = subscriptions d" by (simp_all add: core_le_def)
  from assms(1) have "ps_trial_used st = has_used_trial uid s"
    by (auto simp: load_policy_state_def has_used_trial_def Let_def split: option.splits)
  moreover from load_policy_state_status [OF assms(1)] have "subscription_status st = subscription_of now uid s"
    by (simp add: subscription_of_def)
  ultimately show ?thesis by (simp add: subscription_of_def has_used_trial_def eq)
qed

lemma run_prefix_Inr:
  assumes "run_prefix cfg env rq x = (Inr (turn, ctx, m, sp, atts, decision, state), y)"
  shows "turn = next_id (ct_db x) \<and> mode_of_text (opened_mode cfg (ce_now env) rq (ct_db x)) = Some m \<and> decision = evaluate state m \<and>
    subscription_status state = subscription_of (ce_now env) (rq_user rq) (ct_db x) \<and>
    ps_trial_used state = has_used_trial (rq_user rq) (ct_db x)"
proof -
  let ?now = "ce_now env" and ?d = "ct_db x"
  from assms [unfolded run_prefix_def Let_def] obtain x1 x2 x3 x4 x5 x6 x7 files prepared u v where
    1: "c_db uuid4 x = (Inr turn, x1)" and 2: "c_db (resolve_session cfg ?now rq) x1 = (Inr ctx, x2)" and
    3: "session_mode (sx_session ctx) x2 = (Inr m, x3)" and 4: "c_db (edit_history ctx (rq_edit_message_step_id rq)) x3 = (Inr u, x4)" and
    5: "c_db (op_read (prompt_and_files cfg ctx (rq_user rq))) x4 = (Inr (sp, files), x5)" and
    6: "c_db (add_step (sx_id ctx) turn ''user'' (content_payload (user_content (compose_turn0_text (render_context_block (rq_context rq)) (rq_message rq)) prepared)) None) x6 = (Inr v, x7)" and
    7: "c_lift (if rq_attachments rq = [] then Inr None else map_sum id Some (prepare_attachments (ce_pdf env) (chat_attachments cfg)
          (active_provider (llm_provider cfg)) (rq_attachments rq))) x5 = (Inr prepared, x6)" and
    8: "c_db (evaluate_access ?now (rq_user rq) m (sx_id ctx)) x7 = (Inr (decision, state), y)"
    unfolding op_bind_Inr_iff case_prod_beta' by auto
  have "core_le ?d (ct_db x1)"
    using c_localD [OF local_db [OF core_small(1)] 1, of ?d] by simp
  then have "core_le ?d (ct_db x2)" using c_localD [OF local_db [OF core_prefix(1)] 2] by blast
  moreover have x3: "x3 = x2" "mode_of_text (ses_mode (sx_session ctx)) = Some m"
    using 3 by (auto simp: session_mode_def split: option.splits)
  ultimately have "core_le ?d (ct_db x4)" using c_localD [OF local_db [OF core_prefix(2)] 4] by blast
  moreover have "x6 = x5" using 7 by (auto simp: c_lift_def split: sum.splits)
  moreover have "ct_db x5 = ct_db x4" using 5 by (auto simp: c_db_def)
  ultimately have x7: "core_le ?d (ct_db x7)" using c_localD [OF local_db [OF core_small(2)] 6] by simp
  obtain t where ev: "evaluate_access ?now (rq_user rq) m (sx_id ctx) (ct_db x7) = (Inr (decision, state), t)"
    using 8 by (auto simp: c_db_def split: prod.splits)
  from evaluate_access_eval [OF this] have "load_policy_state ?now (rq_user rq) (ct_db x7) = (Inr state, ct_db x7)" "decision = evaluate state m" by blast+
  with policy_state_core [OF _ x7] have "decision = evaluate state m" "subscription_status state = subscription_of ?now (rq_user rq) ?d"
    "ps_trial_used state = has_used_trial (rq_user rq) ?d" by blast+
  moreover have x1: "turn = next_id ?d" "ct_db x1 = ?d\<lparr>next_id := Suc (next_id ?d)\<rparr>" using 1 by (auto simp: c_db_def uuid4_def)
  moreover have "opened_mode cfg ?now rq (ct_db x1) = opened_mode cfg ?now rq ?d" unfolding x1
    by (cases "rq_session_id rq") (simp_all add: opened_mode_def get_session_def)
  moreover have "ses_mode (sx_session ctx) = opened_mode cfg ?now rq (ct_db x1)"
    using 2 resolve_session_mode by (auto simp: c_db_def split: prod.splits)
  ultimately show ?thesis using x3 by simp
qed

subsection \<open>The debit\<close>

definition charged :: "uuid \<Rightarrow> string \<Rightarrow> db \<Rightarrow> bool" where
  "charged uid key d \<longleftrightarrow> (\<exists>t. existing_tx uid key d = Some t \<and> tx_type t = Debit \<and> tx_amount t = 1)"

definition answer_stored :: "uuid \<Rightarrow> chat_run_out \<Rightarrow> db \<Rightarrow> bool" where
  "answer_stored turn v d \<longleftrightarrow> co_message_step_id v = Some turn \<and>
     (\<exists>st \<in> set (chat_steps d). co_step_id v = Some (st_id st) \<and> st_session st = co_session_id v \<and> st_turn st = turn \<and> st_role st = ''assistant'')"

definition settled :: "bool \<Rightarrow> uuid \<Rightarrow> uuid \<Rightarrow> exn + chat_run_out \<Rightarrow> chat_tx \<Rightarrow> bool" where
  "settled debit uid turn r y \<longleftrightarrow>
     (if \<exists>v. r = Inr v \<and> co_status v = ''assistant_message''
      then ct_db y = ct_committed y \<and> answer_stored turn (projr r) (ct_committed y) \<and>
           (if debit then charged uid (uuid_str turn) (ct_committed y) else uncharged uid (uuid_str turn) (ct_committed y))
      else uncharged uid (uuid_str turn) (ct_committed y) \<and> (\<forall>v. r = Inr v \<longrightarrow> uncharged uid (uuid_str turn) (ct_db y)))"

lemma chat_debit_charges:
  assumes "chat_debit cfg uid sid turn usage d = (Inr u, t)" "uncharged uid (uuid_str turn) d"
  shows "charged uid (uuid_str turn) t \<and> chat_steps t = chat_steps d"
proof -
  let ?meta = "[(''usage'', JObj usage), (''model'', dict_get usage ''model'')]" and ?k = "uuid_str turn"
  from assms(1) obtain r where "consume (chat_wallet cfg) uid 1 ?k ?meta (Some sid) d = (Inr r, t)"
    by (auto simp: chat_debit_def op_bind_Inr_iff)
  from consume_success [OF this] have "consume_route (chat_wallet cfg) uid 1 ?k ?meta (Some sid) (ensured uid d) = (Inr r, t)" by blast
  then have plain: "consume_plain uid 1 ?k ?meta (Some sid) (ensured uid d) = (Inr r, t)"
    by (simp add: consume_route_def agent_reconcile_applies_def dict_get_def)
  obtain w where w: "wallets (ensured uid d) uid = Some w" using ensured_wallet by blast
  have fresh: "existing_tx uid ?k (ensured uid d) = None" using assms(2) by (simp add: uncharged_def)
  show ?thesis
  proof (cases "1 \<le> balance w")
    case True
    from plain consume_plain_fresh [OF _ fresh w True, of ?meta "Some sid"] obtain row where
      "t = post_debit uid w 1 0 ?k ?meta row (ensured uid d)" by auto
    moreover have "existing_tx uid ?k (post_debit uid w 1 0 ?k ?meta row (ensured uid d)) =
        Some \<lparr>tx_id = next_id (ensured uid d), tx_user = uid, tx_type = Debit, tx_amount = 1, tx_meta = ?meta, tx_key = ?k\<rparr>"
      using fresh by (simp add: post_debit_def existing_tx_def find_append)
    ultimately have "charged uid ?k t" by (simp add: charged_def)
    moreover have "chat_steps (ensured uid d) = chat_steps d" by (simp add: ensured_def split: option.split)
    ultimately show ?thesis using \<open>t = _\<close> by (simp add: post_debit_def)
  next
    case False
    with plain consume_plain_insufficient [OF _ fresh w, of 1 ?meta "Some sid"] show ?thesis by simp
  qed
qed

lemma touch_frame: "touch_session now sid s = (r, t) \<Longrightarrow> ledger t = ledger s \<and> chat_steps t = chat_steps s"
  by (auto simp: touch_session_def split: option.splits)

lemma settled_open: "ends_open (uncharged uid (uuid_str turn)) r y \<Longrightarrow> settled b uid turn r y"
  unfolding ends_open_def settled_def by auto

definition pay :: "chat_settings \<Rightarrow> uuid \<Rightarrow> uuid \<Rightarrow> uuid \<Rightarrow> billing_plan \<Rightarrow> dict \<Rightarrow> bool cop" where
  "pay cfg uid sid turn billing usage =
     (if debit_credits billing
      then op_catch (op_bind (c_db (chat_debit cfg uid sid turn usage)) (\<lambda>_. op_return True))
             (\<lambda>e. if exn_is InsufficientCreditsError e then op_return False else op_raise e)
      else op_return True)"

lemma pay_result:
  assumes run: "pay cfg uid sid turn billing usage x = (r, y)" and un: "uncharged uid (uuid_str turn) (ct_db x)"
  shows "ct_committed y = ct_committed x \<and>
    (r = Inr True \<longrightarrow> chat_steps (ct_db y) = chat_steps (ct_db x) \<and>
       (if debit_credits billing then charged uid (uuid_str turn) (ct_db y) else uncharged uid (uuid_str turn) (ct_db y)))"
proof (cases "debit_credits billing")
  case True
  obtain q d where deb: "chat_debit cfg uid sid turn usage (ct_db x) = (q, d)" by (meson surj_pair)
  then have c: "c_db (chat_debit cfg uid sid turn usage) x = (q, x\<lparr>ct_db := d\<rparr>)" by (simp add: c_db_def)
  show ?thesis
  proof (cases q)
    case (Inl e)
    with run True c show ?thesis by (auto simp: pay_def op_catch_def op_bind_def split: if_splits)
  next
    case (Inr v)
    with run True c have "r = Inr True" "y = x\<lparr>ct_db := d\<rparr>" by (auto simp: pay_def op_catch_def op_bind_def)
    with chat_debit_charges [OF deb [unfolded Inr] un] True show ?thesis by simp
  qed
qed (use run un in \<open>auto simp: pay_def\<close>)

lemma finalize_parts:
  "finalize_assistant cfg now uid sid turn billing executed res =
     (let usage = usage_dict (res_usage res) in
      op_bind (c_db (add_step sid turn ''assistant'' (content_payload (res_content_blocks res)) (Some usage))) (\<lambda>step.
      op_bind (c_db (chat_audit uid sid EVENT_CHAT_STEP
        [(''sessionId'', JStr (uuid_str sid)), (''role'', JStr ''assistant''), (''model'', dict_get usage ''model''), (''usage'', JObj usage)])) (\<lambda>_.
      op_bind (pay cfg uid sid turn billing usage) (\<lambda>paid.
      if \<not> paid then op_bind c_rollback (\<lambda>_. op_return (chat_blocked sid (Some BR_credits_empty)))
      else
        op_bind (c_db (touch_session now sid)) (\<lambda>_.
        op_bind c_commit (\<lambda>_.
        op_return \<lparr>co_status = ''assistant_message'', co_session_id = sid, co_assistant_message = Some (res_text res),
                   co_tool_calls = None, co_tool_call = None, co_block_reason = None, co_usage = Some usage,
                   co_message_step_id = Some turn, co_step_id = Some step, co_server_tools = executed\<rparr>))))))"
  by (simp add: finalize_assistant_def pay_def)

lemma uncharged_ledger: "ledger t = ledger s \<Longrightarrow> uncharged uid key t = uncharged uid key s"
  and charged_ledger: "ledger t = ledger s \<Longrightarrow> charged uid key t = charged uid key s"
  by (simp_all add: uncharged_def charged_def existing_tx_def)

lemma finalize_settled:
  assumes un: "uncharged uid (uuid_str turn) (ct_committed z)" "uncharged uid (uuid_str turn) (ct_db z)"
    and run: "finalize_assistant cfg now uid sid turn billing executed res z = (r, y)"
  shows "settled (debit_credits billing) uid turn r y"
proof -
  let ?u = "usage_dict (res_usage res)"
  obtain q d1 where add: "add_step sid turn ''assistant'' (content_payload (res_content_blocks res)) (Some ?u) (ct_db z) = (q, d1)"
    by (meson surj_pair)
  show ?thesis
  proof (cases q)
    case (Inl e)
    with run add have "r = Inl e" "ct_committed y = ct_committed z"
      by (auto simp: finalize_assistant_def Let_def op_bind_def c_db_def)
    with un show ?thesis by (simp add: settled_def)
  next
    case (Inr step)
    with add have d1: "ledger d1 = ledger (ct_db z)"
      "\<exists>st \<in> set (chat_steps d1). st_id st = step \<and> st_session st = sid \<and> st_turn st = turn \<and> st_role st = ''assistant''"
      by (auto simp: add_step_def split: if_splits)
    define x where "x = z\<lparr>ct_db := snd (chat_audit uid sid EVENT_CHAT_STEP
        [(''sessionId'', JStr (uuid_str sid)), (''role'', JStr ''assistant''), (''model'', dict_get ?u ''model''), (''usage'', JObj ?u)] d1)\<rparr>"
    then have x: "ct_committed x = ct_committed z" "ledger (ct_db x) = ledger d1" "chat_steps (ct_db x) = chat_steps d1"
      by (simp_all add: chat_audit_def)
    then have unx: "uncharged uid (uuid_str turn) (ct_db x)" using un(2) d1(1) uncharged_ledger by metis
    obtain paid w where pay: "pay cfg uid sid turn billing ?u x = (paid, w)" by (meson surj_pair)
    note w = pay_result [OF pay unx]
    from run add Inr pay x_def have rest: "op_bind (\<lambda>_. (paid, w)) (\<lambda>paid.
      if \<not> paid then op_bind c_rollback (\<lambda>_. op_return (chat_blocked sid (Some BR_credits_empty)))
      else
        op_bind (c_db (touch_session now sid)) (\<lambda>_.
        op_bind c_commit (\<lambda>_.
        op_return \<lparr>co_status = ''assistant_message'', co_session_id = sid, co_assistant_message = Some (res_text res),
                   co_tool_calls = None, co_tool_call = None, co_block_reason = None, co_usage = Some ?u,
                   co_message_step_id = Some turn, co_step_id = Some step, co_server_tools = executed\<rparr>))) x = (r, y)"
      by (simp add: finalize_parts Let_def op_bind_def c_db_def chat_audit_def)
    consider (raised) e where "paid = Inl e" | (no) "paid = Inr False" | (yes) "paid = Inr True"
      by (cases paid) (metis, metis (full_types))
    then show ?thesis
    proof cases
      case raised
      with rest w x un show ?thesis by (auto simp: op_bind_def settled_def)
    next
      case no
      with rest w x un show ?thesis by (auto simp: op_bind_def settled_def c_rollback_def)
    next
      case yes
      obtain q d where touch: "touch_session now sid (ct_db w) = (q, d)" by (meson surj_pair)
      then have "q = Inr ()" by (auto simp: touch_session_def)
      note d = touch_frame [OF touch]
      from rest yes touch \<open>q = Inr ()\<close> have y: "y = w\<lparr>ct_db := d, ct_committed := d\<rparr>" "co_status (projr r) = ''assistant_message''"
        "co_session_id (projr r) = sid" "co_message_step_id (projr r) = Some turn" "co_step_id (projr r) = Some step" "r = Inr (projr r)"
        by (auto simp: op_bind_def c_db_def c_commit_def)
      have "\<exists>v. r = Inr v \<and> co_status v = ''assistant_message''" using y by blast
      moreover have "answer_stored turn (projr r) d"
        using y d w yes x d1(2) by (auto simp: answer_stored_def)
      moreover have "if debit_credits billing then charged uid (uuid_str turn) d else uncharged uid (uuid_str turn) d"
        using w yes d charged_ledger uncharged_ledger by metis
      ultimately show ?thesis unfolding settled_def using y(1) by simp
    qed
  qed
qed

subsection \<open>Claiming and restoring the trial\<close>

lemma reconcile_eval:
  "reconcile_trial uid x = (Inr (trial_flag uid True (ct_db x)),
     x\<lparr>ct_db := snd (unmark_trial uid (ct_db x)), ct_committed := snd (unmark_trial uid (ct_db x))\<rparr>)"
  by (auto simp: reconcile_trial_def unmark_trial_def c_db_def c_commit_def op_bind_def trial_flag_def split: option.split)

lemma claim_eval:
  "claim_trial uid x = (Inr (trial_flag uid False (ct_db x)),
     x\<lparr>ct_db := snd (mark_trial_used uid (ct_db x)), ct_committed := snd (mark_trial_used uid (ct_db x))\<rparr>)"
  by (auto simp: claim_trial_def mark_trial_used_def c_db_def c_commit_def op_bind_def trial_flag_def split: option.split)

lemma mark_frame [simp]:
  "ledger (snd (unmark_trial uid d)) = ledger d" "ledger (snd (mark_trial_used uid d)) = ledger d"
  by (simp_all add: unmark_trial_def mark_trial_used_def split: option.split)

lemma mark_uncharged [simp]:
  "uncharged u key (snd (unmark_trial uid d)) = uncharged u key d" "uncharged u key (snd (mark_trial_used uid d)) = uncharged u key d"
  by (simp_all add: uncharged_def existing_tx_def)

lemma mark_flag:
  "trial_flag uid b d \<Longrightarrow> trial_flag uid False (snd (unmark_trial uid d))"
  "trial_flag uid b d \<Longrightarrow> trial_flag uid True (snd (mark_trial_used uid d))"
  by (auto simp: unmark_trial_def mark_trial_used_def trial_flag_def)

text \<open>A generation with a claimed trial: as without, and the trial is restored when the turn did not go on.\<close>

lemma generate_claimed_cases:
  assumes "generate_with_trial_reconcile cfg env True p atts x = (r, y)" "generate_loop cfg env p atts x = (q, w)"
  shows "(\<exists>e. q = Inl e \<and> r = Inl e \<and> y = w\<lparr>ct_db := snd (unmark_trial (gp_user p) (ct_committed w)),
              ct_committed := snd (unmark_trial (gp_user p) (ct_committed w))\<rparr>) \<or>
    (\<exists>v. q = Inr v \<and> r = Inr v \<and> co_status v \<in> {''assistant_message'', ''tool_call''} \<and> y = w) \<or>
    (\<exists>v. q = Inr v \<and> r = Inr v \<and> co_status v \<notin> {''assistant_message'', ''tool_call''} \<and>
       y = w\<lparr>ct_db := snd (unmark_trial (gp_user p) (ct_db w)), ct_committed := snd (unmark_trial (gp_user p) (ct_db w))\<rparr>)"
  using assms
  by (cases q) (auto simp: generate_with_trial_reconcile_def op_bind_def op_catch_def c_rollback_def reconcile_eval split: if_splits)

lemma generate_settled:
  assumes others: "others_keep env (uncharged (gp_user p) (uuid_str (gp_turn p)))"
    and un: "uncharged (gp_user p) (uuid_str (gp_turn p)) (ct_committed x)" "uncharged (gp_user p) (uuid_str (gp_turn p)) (ct_db x)"
    and run: "generate_with_trial_reconcile cfg env claimed p atts x = (r, y)"
  shows "settled (debit_credits (gp_billing p)) (gp_user p) (gp_turn p) r y"
proof -
  obtain q w where loop: "generate_loop cfg env p atts x = (q, w)" by (meson surj_pair)
  from unpaid.rounds_final [OF others un loop [unfolded generate_loop_def]]
  have w: "settled (debit_credits (gp_billing p)) (gp_user p) (gp_turn p) q w"
    unfolding ends_final_def using settled_open finalize_settled by blast
  show ?thesis
  proof (cases claimed)
    case True
    with run have "generate_with_trial_reconcile cfg env True p atts x = (r, y)" by simp
    from generate_claimed_cases [OF this loop] w show ?thesis
      by (auto simp: settled_def)
  next
    case False
    with run loop w show ?thesis by (simp add: generate_with_trial_reconcile_def)
  qed
qed

subsection \<open>A whole message\<close>

definition pays_credits :: "chat_settings \<Rightarrow> int \<Rightarrow> run_request \<Rightarrow> db \<Rightarrow> bool" where
  "pays_credits cfg now rq d \<longleftrightarrow> mode_of_text (opened_mode cfg now rq d) = Some ModeCredits \<and> subscription_of now (rq_user rq) d = SubActive"

lemma chat_run_cases:
  assumes "chat_run cfg env rq (c_start d) = (r, y)"
  obtains (stopped) "ct_committed y = d" "ct_requests y = []" "core_le d (ct_db y)" "\<And>v. r = Inr v \<Longrightarrow> co_status v = ''blocked''"
      "\<And>v. r = Inr v \<Longrightarrow> \<exists>m st. mode_of_text (opened_mode cfg (ce_now env) rq d) = Some m \<and> \<not> allow (evaluate st m) \<and>
         subscription_status st = subscription_of (ce_now env) (rq_user rq) d \<and> ps_trial_used st = has_used_trial (rq_user rq) d"
    | (admitted) x ctx m sp atts state where "ct_committed x = d" "ct_requests x = []" "core_le d (ct_db x)"
      "run_admitted cfg env rq (next_id d) ctx m sp atts state x = (r, y)"
      "mode_of_text (opened_mode cfg (ce_now env) rq d) = Some m"
      "subscription_status state = subscription_of (ce_now env) (rq_user rq) d" "ps_trial_used state = has_used_trial (rq_user rq) d"
proof -
  obtain q x where pre: "run_prefix cfg env rq (c_start d) = (q, x)" by (meson surj_pair)
  from c_localD [OF prefix_local pre, of d] have x: "core_le d (ct_db x)" "ct_committed x = d" "ct_requests x = []" by simp_all
  show thesis
  proof (cases q)
    case (Inl e)
    with assms pre x stopped show thesis by (auto simp: chat_run_parts op_bind_def)
  next
    case (Inr v)
    obtain turn ctx m sp atts decision state where v: "v = (turn, ctx, m, sp, atts, decision, state)" by (cases v) auto
    note h = run_prefix_Inr [OF pre [unfolded Inr v], simplified]
    from assms pre Inr v have rest: "(if \<not> allow decision then op_return (chat_blocked (sx_id ctx) (block_reason decision))
        else run_admitted cfg env rq turn ctx m sp atts state) x = (r, y)" by (simp add: chat_run_parts op_bind_def)
    show thesis
    proof (cases "allow decision")
      case True
      with rest have "run_admitted cfg env rq turn ctx m sp atts state x = (r, y)" by simp
      with admitted [OF x(2,3,1)] h show thesis by blast
    next
      case False
      with rest have "y = x" "r = Inr (chat_blocked (sx_id ctx) (block_reason decision))" by auto
      with stopped x h False show thesis by auto
    qed
  qed
qed

definition claimed_state :: "uuid \<Rightarrow> bool \<Rightarrow> chat_tx \<Rightarrow> chat_tx" where
  "claimed_state uid b x =
     (if b then x\<lparr>ct_db := snd (mark_trial_used uid (ct_db x)), ct_committed := snd (mark_trial_used uid (ct_db x))\<rparr> else x)"

lemma run_admitted_cases:
  assumes "run_admitted cfg env rq turn ctx m sp atts state x = (r, y)"
  defines "b \<equiv> mark_trial (billing_plan_of m state)"
  defines "x' \<equiv> claimed_state (rq_user rq) b x"
  obtains (lost) "b" "\<not> trial_flag (rq_user rq) False (ct_db x)" "r = Inr (chat_blocked (sx_id ctx) (Some BR_trial_used))" "y = x'"
    | (keyless) e where "resolve_api_key env (rq_user rq) m (ct_db x') = (Inl e, ct_db x')" "r = Inl e" "y = x'"
    | (runs) k where "generate_with_trial_reconcile cfg env b (run_params rq turn ctx m sp state k) atts x' = (r, y)"
        "b \<longrightarrow> trial_flag (rq_user rq) False (ct_db x)"
proof -
  let ?k = "resolve_api_key env (rq_user rq) m"
  have claim: "(if b then claim_trial (rq_user rq) else op_return True) x = (Inr (b \<longrightarrow> trial_flag (rq_user rq) False (ct_db x)), x')"
    by (simp add: x'_def claimed_state_def claim_eval)
  have key: "c_db ?k x' = (fst (?k (ct_db x')), x')"
    using resolve_api_key_pure [of env "rq_user rq" m "ct_db x'"] by (simp add: c_db_def prod.case_eq_if)
  have pure: "?k (ct_db x') = (fst (?k (ct_db x')), ct_db x')"
    using resolve_api_key_pure [of env "rq_user rq" m "ct_db x'"] by (metis prod.collapse)
  show thesis
  proof (cases "b \<longrightarrow> trial_flag (rq_user rq) False (ct_db x)")
    case False
    with assms(1) claim lost show thesis unfolding run_admitted_def b_def [symmetric] by (simp add: op_bind_def)
  next
    case True
    with assms(1) claim have rest: "op_bind (c_db ?k) (\<lambda>k. generate_with_trial_reconcile cfg env b (run_params rq turn ctx m sp state k) atts) x' = (r, y)"
      unfolding run_admitted_def b_def [symmetric] by (simp add: op_bind_def [of "if b then _ else _"])
    show thesis
    proof (cases "fst (?k (ct_db x'))")
      case (Inl e)
      with key have "c_db ?k x' = (Inl e, x')" by simp
      from rest [unfolded op_bind_InlI [of "c_db ?k", OF this]] have "r = Inl e" "y = x'" by simp_all
      moreover from pure Inl have "?k (ct_db x') = (Inl e, ct_db x')" by metis
      ultimately show thesis using keyless by blast
    next
      case (Inr k)
      with key have "c_db ?k x' = (Inr k, x')" by simp
      from rest [unfolded op_bind_InrI [of "c_db ?k", OF this]] runs True show thesis by blast
    qed
  qed
qed

lemma run_settled:
  assumes others: "others_keep env (uncharged (rq_user rq) (uuid_str (next_id d)))"
    and un: "uncharged (rq_user rq) (uuid_str (next_id d)) d"
    and run: "chat_run cfg env rq (c_start d) = (r, y)"
  shows "settled (pays_credits cfg (ce_now env) rq d) (rq_user rq) (next_id d) r y"
  using run
proof (cases rule: chat_run_cases)
  case stopped
  have "uncharged (rq_user rq) (uuid_str (next_id d)) (ct_db y)"
    using un stopped(3) uncharged_ledger [of "ct_db y" d] by (simp add: core_le_def)
  with stopped un show ?thesis by (auto simp: settled_def)
next
  case (admitted x ctx m sp atts state)
  let ?U = "uncharged (rq_user rq) (uuid_str (next_id d))" and ?x = "claimed_state (rq_user rq) (mark_trial (billing_plan_of m state)) x"
  have debit: "debit_credits (billing_plan_of m state) = pays_credits cfg (ce_now env) rq d"
    using admitted by (cases m) (auto simp: billing_plan_of_def pays_credits_def)
  have "?U (ct_db x)" using un admitted uncharged_ledger [of "ct_db x" d] by (simp add: core_le_def)
  then have U: "?U (ct_committed ?x)" "?U (ct_db ?x)" using un admitted(1) by (simp_all add: claimed_state_def)
  from admitted(4) show ?thesis
  proof (cases rule: run_admitted_cases)
    case lost
    with U show ?thesis by (auto simp: settled_def)
  next
    case (keyless e)
    with U show ?thesis by (auto simp: settled_def)
  next
    case (runs k)
    from generate_settled [OF _ _ _ runs(1)] others U debit show ?thesis by (simp add: run_params_def)
  qed
qed

subsection \<open>What becomes of the trial\<close>

lemma chat_debit_users: "users (snd (chat_debit cfg uid sid turn usage d)) = users d"
proof -
  have "users (snd (consume (chat_wallet cfg) uid 1 key meta s d)) = users d" for key meta s
  proof -
    have ens: "users (ensured uid d) = users d" by (simp add: ensured_def split: option.split)
    obtain w where "wallets (ensured uid d) uid = Some w" using ensured_wallet by blast
    from consume_route_effect [OF _ this, of 1 key meta "chat_wallet cfg" s]
    have "users (snd (consume_route (chat_wallet cfg) uid 1 key meta s (ensured uid d))) = users d"
      by (auto simp: debit_effect_def post_debit_def ens)
    then show ?thesis by (simp add: consume_eval split: option.split)
  qed
  then show ?thesis by (auto simp: chat_debit_def op_bind_def split: prod.split sum.split) (metis snd_conv)+
qed

lemma finalize_trial: "c_keeps (trial_flag u b) (finalize_assistant cfg now uid sid turn billing executed res)"
proof -
  have "op_preserves (trial_flag u b) (chat_debit cfg uid sid turn usage)" for usage
    by (rule op_preservesI) (simp add: trial_flag_def chat_debit_users)
  then show ?thesis unfolding finalize_assistant_def Let_def
    by (intro keep_rules keeps_db trial.step_ok trial.audit_ok trial.touch_ok keeps_catch_db)
qed

lemma loop_trial: "others_keep env (trial_flag u b) \<Longrightarrow> c_keeps (trial_flag u b) (generate_loop cfg env p atts)"
proof (rule c_keepsI)
  fix x r y
  assume "others_keep env (trial_flag u b)" "trial_flag u b (ct_committed x)" "trial_flag u b (ct_db x)" "generate_loop cfg env p atts x = (r, y)"
  from trial.rounds_final [OF this(1-3) this(4) [unfolded generate_loop_def]]
  consider "ends_open (trial_flag u b) r y" | "ends_final cfg p (trial_flag u b) r y" by blast
  then show "trial_flag u b (ct_committed y) \<and> (\<forall>v. r = Inr v \<longrightarrow> trial_flag u b (ct_db y))"
  proof cases
    case 2
    then show ?thesis unfolding ends_final_def using c_keepsD [OF finalize_trial] by blast
  qed (auto simp: ends_open_def)
qed

definition went_on :: "exn + chat_run_out \<Rightarrow> bool" where
  "went_on r \<longleftrightarrow> (\<exists>v. r = Inr v \<and> co_status v \<in> {''assistant_message'', ''tool_call''})"

lemma generate_trial:
  assumes others: "others_keep env (trial_flag (gp_user p) True)"
    and flag: "trial_flag (gp_user p) True (ct_committed x)" "trial_flag (gp_user p) True (ct_db x)"
    and run: "generate_with_trial_reconcile cfg env True p atts x = (r, y)"
  shows "trial_flag (gp_user p) (went_on r) (ct_committed y) \<and> (\<forall>v. r = Inr v \<longrightarrow> trial_flag (gp_user p) (went_on r) (ct_db y))"
proof -
  obtain q w where loop: "generate_loop cfg env p atts x = (q, w)" by (meson surj_pair)
  note w = c_keepsD [OF loop_trial [OF others] loop flag]
  from generate_claimed_cases [OF run loop] w mark_flag(1) show ?thesis
    unfolding went_on_def by auto
qed

lemma allowed_trial: "subscription_status st = SubNone \<Longrightarrow> \<not> ps_trial_used st \<Longrightarrow> allow (evaluate st ModeCredits)"
  by (simp add: policy_defs)

lemma run_trial:
  assumes others: "others_keep env (trial_flag (rq_user rq) True)"
    and free: "trial_flag (rq_user rq) False d" "subscription_of (ce_now env) (rq_user rq) d = SubNone"
      "mode_of_text (opened_mode cfg (ce_now env) rq d) = Some ModeCredits"
    and run: "chat_run cfg env rq (c_start d) = (r, y)"
  shows "trial_flag (rq_user rq) (went_on r) (ct_committed y) \<and> (\<forall>v. r = Inr v \<longrightarrow> trial_flag (rq_user rq) (went_on r) (ct_db y))"
proof -
  have unused: "\<not> has_used_trial (rq_user rq) d" using free(1) by (auto simp: trial_flag_def has_used_trial_def)
  from run show ?thesis
  proof (cases rule: chat_run_cases)
    case stopped
    have "r \<noteq> Inr v" for v using stopped(5) [of v] allowed_trial unused free by fastforce
    with stopped(1) free(1) show ?thesis by (simp add: went_on_def)
  next
    case (admitted x ctx m sp atts state)
    with free unused have m: "m = ModeCredits" "mark_trial (billing_plan_of m state)" by (simp_all add: billing_plan_of_def)
    have x: "trial_flag (rq_user rq) False (ct_db x)" using free(1) admitted(3) by (simp add: trial_flag_def core_le_def)
    let ?x = "claimed_state (rq_user rq) True x"
    have flag: "trial_flag (rq_user rq) True (ct_committed ?x)" "trial_flag (rq_user rq) True (ct_db ?x)"
      using mark_flag(2) [OF x] by (simp_all add: claimed_state_def)
    from admitted(4) show ?thesis
    proof (cases rule: run_admitted_cases)
      case lost
      with x show ?thesis by simp
    next
      case (keyless e)
      with m show ?thesis by (simp add: resolve_api_key_def)
    next
      case (runs k)
      with m have "generate_with_trial_reconcile cfg env True (run_params rq (next_id d) ctx m sp state k) atts ?x = (r, y)" by simp
      from generate_trial [OF _ _ _ this] others flag show ?thesis by (simp add: run_params_def)
    qed
  qed
qed

subsection \<open>How often the model is called\<close>

definition c_sends :: "nat \<Rightarrow> 'a cop \<Rightarrow> bool" where
  "c_sends n m \<longleftrightarrow> (\<forall>x r y. m x = (r, y) \<longrightarrow> (\<exists>new. ct_requests y = ct_requests x @ new \<and> length new \<le> n))"

named_theorems send_rules

lemma c_sendsD: "c_sends n m \<Longrightarrow> m x = (r, y) \<Longrightarrow> \<exists>new. ct_requests y = ct_requests x @ new \<and> length new \<le> n"
  unfolding c_sends_def by blast

lemma quiet_small [send_rules, simp]:
  "c_sends n (op_return v)" "c_sends n (op_raise e)" "c_sends n c_commit" "c_sends n c_rollback" "c_sends n (c_others f)" "c_sends n (c_lift q)"
  by (auto simp: c_sends_def c_commit_def c_rollback_def c_others_def c_lift_def split: sum.splits)

lemma quiet_db [send_rules, simp]: "c_sends n (c_db m)"
  by (auto simp: c_sends_def c_db_def split: prod.splits)

lemma sends_sent: "c_sends (Suc n) (c_sent q)"
  by (auto simp: c_sends_def c_sent_def)

lemma sends_bind:
  assumes "c_sends a m" "\<And>v. c_sends b (f v)"
  shows "c_sends (a + b) (op_bind m f)"
  unfolding c_sends_def
proof (intro allI impI)
  fix x r y
  assume run: "op_bind m f x = (r, y)"
  obtain q z where m: "m x = (q, z)" by (cases "m x")
  from c_sendsD [OF assms(1) m] obtain n1 where n1: "ct_requests z = ct_requests x @ n1" "length n1 \<le> a" by blast
  show "\<exists>new. ct_requests y = ct_requests x @ new \<and> length new \<le> a + b"
  proof (cases q)
    case (Inl e)
    with run m n1 show ?thesis by (auto simp: op_bind_def)
  next
    case (Inr v)
    with run m have "f v z = (r, y)" by (simp add: op_bind_def)
    from c_sendsD [OF assms(2) this] n1 show ?thesis by fastforce
  qed
qed

lemma quiet_bind [send_rules]: "c_sends 0 m \<Longrightarrow> (\<And>v. c_sends n (f v)) \<Longrightarrow> c_sends n (op_bind m f)"
  using sends_bind [of 0 m n f] by simp

lemma sends_catch: "c_sends n m \<Longrightarrow> (\<And>e. c_sends 0 (h e)) \<Longrightarrow> c_sends n (op_catch m h)"
  unfolding c_sends_def op_catch_def by (auto split: prod.splits sum.splits)

lemma sends_if [send_rules]: "(b \<Longrightarrow> c_sends n m) \<Longrightarrow> (\<not> b \<Longrightarrow> c_sends n m') \<Longrightarrow> c_sends n (if b then m else m')"
  by simp

lemma sends_option [send_rules]:
  "(x = None \<Longrightarrow> c_sends n m) \<Longrightarrow> (\<And>y. x = Some y \<Longrightarrow> c_sends n (f y)) \<Longrightarrow> c_sends n (case x of None \<Rightarrow> m | Some y \<Rightarrow> f y)"
  by (cases x) auto

lemma sends_prod [send_rules]: "(\<And>a b. x = (a, b) \<Longrightarrow> c_sends n (f a b)) \<Longrightarrow> c_sends n (case x of (a, b) \<Rightarrow> f a b)"
  by (cases x) auto

lemma sends_finalize [send_rules]: "c_sends n (finalize_assistant cfg now uid sid turn billing executed res)"
  unfolding finalize_assistant_def Let_def by (intro send_rules sends_catch)

lemma sends_max_tokens [send_rules]: "c_sends n (handle_max_tokens uid sid turn executed res)"
  unfolding handle_max_tokens_def Let_def by (intro send_rules)

lemma sends_round: "c_sends 1 (send_round env p atts k)"
proof -
  have "c_sends (1 + 0) (op_bind (c_sent q) (\<lambda>_. op_bind (c_others f) (\<lambda>_. op_return v)))" for q f and v :: llm_outcome
    by (intro sends_bind send_rules sends_sent [of 0, folded One_nat_def])
  then show ?thesis unfolding send_round_def
    by (intro quiet_bind [OF quiet_db] quiet_bind [OF quiet_small(3)]) simp
qed

definition rest_of_round :: "chat_settings \<Rightarrow> chat_env \<Rightarrow> gen_params \<Rightarrow> nat \<Rightarrow> nat \<Rightarrow> server_tool_out list \<Rightarrow> llm_outcome \<Rightarrow> chat_run_out cop" where
  "rest_of_round cfg env p n k executed outcome =
     (case outcome of
       LlmRaises e \<Rightarrow> op_raise e
     | LlmAuthError cls \<Rightarrow>
         if gp_mode p = ModeByok
         then op_bind (c_db (mark_expired (gp_user p))) (\<lambda>_.
              op_bind c_commit (\<lambda>_.
              op_return (chat_blocked (gp_session p) (Some BR_byok_invalid))))
         else op_raise (PyError cls)
     | LlmAnswer r \<Rightarrow>
         if res_stop_reason r = Some STOP_REASON_MAX_TOKENS then handle_max_tokens (gp_user p) (gp_session p) (gp_turn p) executed r
         else if res_stop_reason r = Some STOP_REASON_TOOL_USE \<and> res_tool_uses r \<noteq> []
         then op_bind (c_db (handle_tool_use cfg env (lc_now (ce_llm env k)) (gp_user p) (gp_session p) (gp_turn p) (gp_has_project p) executed r)) (\<lambda>(client_out, executed').
              op_bind c_commit (\<lambda>_.
              case client_out of
                Some out \<Rightarrow> op_return out
              | None \<Rightarrow> generate_rounds cfg env p n (Suc k) None executed'))
         else finalize_assistant cfg (lc_now (ce_llm env k)) (gp_user p) (gp_session p) (gp_turn p) (gp_billing p) executed r)"

lemma generate_rounds_Suc:
  "generate_rounds cfg env p (Suc n) k atts executed = op_bind (send_round env p atts k) (rest_of_round cfg env p n k executed)"
  by (simp add: rest_of_round_def [abs_def] Let_def)

lemma sends_rest_of:
  assumes "\<And>k atts executed. c_sends n (generate_rounds cfg env p n k atts executed)"
  shows "c_sends n (rest_of_round cfg env p n k executed outcome)"
  unfolding rest_of_round_def by (cases outcome) (simp_all only: llm_outcome.case, (intro send_rules assms)+)

lemma sends_rounds: "c_sends n (generate_rounds cfg env p n k atts executed)"
proof (induction n arbitrary: k atts executed)
  case 0
  show ?case unfolding generate_rounds.simps by (intro send_rules)
next
  case (Suc n)
  have "c_sends (1 + n) (generate_rounds cfg env p (Suc n) k atts executed)"
    unfolding generate_rounds_Suc by (rule sends_bind [OF sends_round sends_rest_of [OF Suc.IH]])
  then show ?case by simp
qed

lemmas sends_rest = sends_rest_of [OF sends_rounds]

lemma sends_generate: "c_sends (nat (max_server_tool_rounds cfg + 1)) (generate_with_trial_reconcile cfg env claimed p atts)"
proof -
  have quiet: "c_sends 0 (reconcile_trial uid)" for uid unfolding reconcile_trial_def by (intro send_rules)
  have loop: "c_sends (nat (max_server_tool_rounds cfg + 1)) (generate_loop cfg env p atts)"
    unfolding generate_loop_def by (rule sends_rounds)
  have "c_sends (nat (max_server_tool_rounds cfg + 1) + 0)
     (op_bind (op_catch (generate_loop cfg env p atts) (\<lambda>e. op_bind c_rollback (\<lambda>_. op_bind (reconcile_trial (gp_user p)) (\<lambda>_. op_raise e)))) (\<lambda>out.
        if co_status out \<notin> {''assistant_message'', ''tool_call''}
        then op_bind (reconcile_trial (gp_user p)) (\<lambda>_. op_return out)
        else op_return out))"
    by (intro sends_bind sends_catch loop send_rules quiet)
  with loop show ?thesis unfolding generate_with_trial_reconcile_def by simp
qed

lemma sends_run: "c_sends (nat (max_server_tool_rounds cfg + 1)) (chat_run cfg env rq)"
proof -
  have "c_sends 0 (run_prefix cfg env rq)" unfolding run_prefix_def Let_def session_mode_def by (intro send_rules)
  moreover have "c_sends 0 (claim_trial uid)" for uid unfolding claim_trial_def by (intro send_rules)
  ultimately show ?thesis unfolding chat_run_parts run_admitted_def by (intro send_rules sends_generate)
qed

lemma sends_tool_result: "c_sends (nat (max_server_tool_rounds cfg + 1)) (chat_tool_result cfg env uid sid results)"
  unfolding chat_tool_result_parts after_results_def continue_turn_def session_mode_def Let_def by (intro send_rules sends_generate)

end
