(* ===== verification/ChatTurns.thy ===== *)
theory ChatTurns
  imports ChatBilling
begin

text \<open>
  Tool calls and their results. Every committed tool call has exactly one tool-result step once it is
  done and none before; calls of the server are done. Requests keep this, so a turn is continued with a
  result for each of its calls. Identifiers are distinct as texts for the first \<open>2 ^ 128\<close> of them.
\<close>

subsection \<open>The invariant\<close>

definition reports :: "uuid \<Rightarrow> chat_step \<Rightarrow> bool" where
  "reports i st \<longleftrightarrow> st_role st = ''tool'' \<and> dict_get (st_payload st) ''toolCallId'' = JStr (uuid_str i)"

definition tool_step_of :: "tool_call \<Rightarrow> chat_step \<Rightarrow> bool" where
  "tool_step_of tc st \<longleftrightarrow> reports (tc_id tc) st \<and> st_session st = tc_session tc \<and> st_turn st = tc_turn tc"

definition server_run :: "string \<Rightarrow> bool" where
  "server_run name \<longleftrightarrow> name \<in> set SERVER_SIDE_TOOLS \<or> name \<in> set GLOBAL_SERVER_SIDE_TOOLS"

definition call_ok :: "db \<Rightarrow> tool_call \<Rightarrow> bool" where
  "call_ok d tc \<longleftrightarrow> tc_id tc < next_id d \<and> tc_status tc \<in> {''pending'', ''completed'', ''errored''} \<and>
     (server_run (tc_name tc) \<longrightarrow> tool_done tc) \<and> (\<forall>st \<in> set (chat_steps d). reports (tc_id tc) st \<longrightarrow> tool_step_of tc st) \<and>
     length (filter (tool_step_of tc) (chat_steps d)) = (if tool_done tc then 1 else 0)"

definition answered :: "db \<Rightarrow> bool" where
  "answered d \<longleftrightarrow> distinct (map tc_id (tool_calls d)) \<and> list_all (call_ok d) (tool_calls d) \<and>
     (\<forall>st \<in> set (chat_steps d). st_role st = ''tool'' \<longrightarrow> (\<exists>i < next_id d. reports i st))"

definition calls_ok :: "db \<Rightarrow> bool" where
  "calls_ok d \<longleftrightarrow> (next_id d \<le> 2 ^ 128 \<longrightarrow> answered d)"

lemma answered_cong:
  assumes "tool_calls t = tool_calls s" "chat_steps t = chat_steps s" "next_id s \<le> next_id t" "answered s"
  shows "answered t"
proof -
  have "call_ok t c" if "call_ok s c" for c using that assms(2,3) by (simp add: call_ok_def)
  moreover have "\<exists>i < next_id t. P i" if "\<exists>i < next_id s. P i" for P using that assms(3) by (meson order_less_le_trans)
  ultimately show ?thesis using assms(4) by (simp add: answered_def list_all_iff assms(1,2))
qed

lemma answered_rows: "rows_le s t \<Longrightarrow> answered s \<Longrightarrow> answered t"
  unfolding rows_le_def core_le_def by (metis answered_cong)

lemma calls_ok_op:
  assumes "\<And>s. op_preserves (core_le s) m"
    and "\<And>s x t. answered s \<Longrightarrow> m s = (Inr x, t) \<Longrightarrow> next_id t \<le> 2 ^ 128 \<Longrightarrow> answered t"
  shows "op_preserves_ok calls_ok m"
proof (rule op_preserves_okI)
  fix s x t
  assume "calls_ok s" and run: "m s = (Inr x, t)"
  moreover have "core_le s t" using op_preservesD [OF assms(1) core_le_refl [of s]] run by simp
  then have "next_id s \<le> next_id t" by (simp add: core_le_def)
  ultimately show "calls_ok t" using assms(2) unfolding calls_ok_def by force
qed

lemma answered_add_step:
  assumes "answered s" "role \<noteq> ''tool''" "add_step sid turn role payload usage s = (Inr x, t)"
  shows "answered t"
proof -
  define st where "st = \<lparr>st_id = next_id s, st_session = sid, st_turn = turn, st_role = role, st_payload = payload, st_usage = usage\<rparr>"
  from assms(3) have t: "t = s\<lparr>chat_steps := chat_steps s @ [st], next_id := Suc (next_id s)\<rparr>"
    unfolding st_def by (auto simp: add_step_def split: if_splits)
  have "st_role st = role" by (simp add: st_def)
  with assms(2) have "\<not> tool_step_of tc st" "\<not> reports i st" "st_role st \<noteq> ''tool''" for tc i by (auto simp: tool_step_of_def reports_def)
  with assms(1) show ?thesis unfolding t answered_def list_all_iff call_ok_def by (auto simp: less_Suc_eq)
qed

lemma filter_filter_same: "(\<And>x. x \<in> set xs \<Longrightarrow> P x \<Longrightarrow> Q x) \<Longrightarrow> filter P (filter Q xs) = filter P xs"
  by (induction xs) auto

lemma answered_truncate:
  assumes "answered s" "truncate_from_message_step sid turn s = (Inr x, t)"
  shows "answered t"
proof (cases "tool_calls t = tool_calls s \<and> chat_steps t = chat_steps s \<and> next_id t = next_id s")
  case True
  with assms(1) answered_cong show ?thesis by simp
next
  case False
  define tail where "tail = dropWhile (\<lambda>st. \<not> (st_turn st = turn \<and> st_role st = ''user'')) (list_steps sid s)"
  with assms(2) False have t: "t = s\<lparr>tool_calls := filter (\<lambda>tc. \<not> (tc_session tc = sid \<and> tc_turn tc \<in> st_turn ` set tail)) (tool_calls s),
      chat_steps := filter (\<lambda>st. \<not> (st_session st = sid \<and> st \<in> set tail)) (chat_steps s)\<rparr>"
    by (auto simp: truncate_from_message_step_def Let_def split: if_splits)
  have same: "filter (tool_step_of tc) (chat_steps t) = filter (tool_step_of tc) (chat_steps s)"
    if "\<not> (tc_session tc = sid \<and> tc_turn tc \<in> st_turn ` set tail)" for tc
  proof -
    have "chat_steps t = filter (\<lambda>st. \<not> (st_session st = sid \<and> st \<in> set tail)) (chat_steps s)" by (simp add: t)
    then show ?thesis using that by (simp only:) (rule filter_filter_same, auto simp: tool_step_of_def image_iff)
  qed
  have "distinct (map tc_id (tool_calls t))" using assms(1) by (simp add: t answered_def distinct_map_filter)
  moreover have "list_all (call_ok t) (tool_calls t)"
    using assms(1) same unfolding answered_def list_all_iff call_ok_def by (auto simp: t)
  ultimately show ?thesis using assms(1) unfolding answered_def by (auto simp: t)
qed

subsection \<open>New calls and their completion\<close>

lemma reports_unique: "reports i st \<Longrightarrow> reports j st \<Longrightarrow> i < 2 ^ 128 \<Longrightarrow> j < 2 ^ 128 \<Longrightarrow> i = j"
  using uuid_str_inj by (simp add: reports_def)

lemma answered_new_call:
  assumes d: "answered d" and t: "tool_calls t = tool_calls d @ [tc]" "chat_steps t = chat_steps d @ sts" "next_id d < next_id t" "next_id t \<le> 2 ^ 128"
    and tc: "tc_id tc = next_id d" "tc_status tc \<in> {''pending'', ''completed'', ''errored''}"
    and sts: "if tool_done tc then \<exists>st. sts = [st] \<and> tool_step_of tc st else sts = [] \<and> \<not> server_run (tc_name tc)"
  shows "answered t"
proof -
  have small: "tc_id c < next_id d" if "c \<in> set (tool_calls d)" for c using d that by (simp add: answered_def list_all_iff call_ok_def)
  have ids: "reports (next_id d) st" if "st \<in> set sts" for st
    using sts that tc(1) by (auto simp: tool_step_of_def split: if_splits)
  have old: "\<not> reports (tc_id c) st" if "c \<in> set (tool_calls d)" "st \<in> set sts" for c st
    using reports_unique [OF _ ids [OF that(2)], of "tc_id c"] small [OF that(1)] t(3,4) by fastforce
  then have old_steps: "filter (tool_step_of c) sts = []" if "c \<in> set (tool_calls d)" for c
    using that by (auto simp: filter_empty_conv tool_step_of_def)
  have new: "\<not> reports (tc_id tc) st" if st: "st \<in> set (chat_steps d)" for st
  proof
    assume s: "reports (tc_id tc) st"
    with d st obtain i where "i < next_id d" "reports i st" by (auto simp: answered_def reports_def)
    with reports_unique [OF s, of i] tc(1) t(3,4) show False by simp
  qed
  then have new_steps: "filter (tool_step_of tc) (chat_steps d) = []" by (auto simp: filter_empty_conv tool_step_of_def)
  have "call_ok t c" if "c \<in> set (tool_calls d)" for c
    using d that old [OF that] old_steps [OF that] t(2,3) by (auto simp: answered_def list_all_iff call_ok_def)
  moreover have "call_ok t tc"
    using tc t sts new new_steps by (auto simp: call_ok_def split: if_splits)
  moreover have "distinct (map tc_id (tool_calls t))" using d small tc(1) by (auto simp: t(1) answered_def dest!: small)
  moreover have "\<exists>i < next_id t. reports i st"
    if "st \<in> set (chat_steps t)" "st_role st = ''tool''" for st
  proof (cases "st \<in> set sts")
    case True
    with ids t(3) show ?thesis by blast
  next
    case False
    with that t(2) have "st \<in> set (chat_steps d)" by simp
    with d that(2) t(3) show ?thesis unfolding answered_def by (meson order_less_trans)
  qed
  ultimately show ?thesis by (simp add: answered_def list_all_iff t(1))
qed

lemma answered_complete:
  assumes d: "answered d" and row: "row \<in> set (tool_calls d)" "tc_status row = ''pending''"
    and t: "tool_calls t = map (\<lambda>tc. if tc_id tc = tc_id row \<and> tc_status tc = ''pending'' then tc\<lparr>tc_status := status, tc_result := result\<rparr> else tc) (tool_calls d)"
      "chat_steps t = chat_steps d @ [st]" "next_id d \<le> next_id t" "next_id t \<le> 2 ^ 128"
    and st: "tool_step_of row st" "status \<in> {''completed'', ''errored''}"
  shows "answered t"
proof -
  let ?f = "\<lambda>tc. if tc_id tc = tc_id row \<and> tc_status tc = ''pending'' then tc\<lparr>tc_status := status, tc_result := result\<rparr> else tc"
  have same: "tool_step_of (?f c) = tool_step_of c" for c by (auto simp: tool_step_of_def fun_eq_iff)
  have ids: "tc_id c < 2 ^ 128" if "c \<in> set (tool_calls d)" for c using d that t(3,4) by (fastforce simp: answered_def list_all_iff call_ok_def)
  have only: "c = row" if "c \<in> set (tool_calls d)" "tc_id c = tc_id row" for c
    using d that row(1) by (auto simp: answered_def distinct_map dest: inj_onD)
  have other: "\<not> reports (tc_id c) st" if "c \<in> set (tool_calls d)" "c \<noteq> row" for c
    using reports_unique [of "tc_id c" st "tc_id row"] st(1) ids that row(1) only by (auto simp: tool_step_of_def)
  have "call_ok t (?f c)" if c: "c \<in> set (tool_calls d)" for c
  proof (cases "c = row")
    case True
    from d row have "call_ok d row" by (simp add: answered_def list_all_iff)
    moreover have "\<not> tool_done row" using row(2) by (simp add: tool_done_def)
    ultimately show ?thesis using True st t(2,3) row(2) by (auto simp: call_ok_def tool_done_def same tool_step_of_def cong: filter_cong)
  next
    case False
    then have "?f c = c" using only c by auto
    moreover from d c have "call_ok d c" by (simp add: answered_def list_all_iff)
    ultimately show ?thesis using other [OF c False] t(2,3) by (auto simp: call_ok_def tool_step_of_def)
  qed
  then have "list_all (call_ok t) (tool_calls t)" unfolding t(1) list.pred_map by (auto simp only: list_all_iff o_apply)
  moreover have "map tc_id (tool_calls t) = map tc_id (tool_calls d)" by (auto simp: t(1))
  moreover have "\<exists>i < next_id t. reports i s"
    if "s \<in> set (chat_steps t)" "st_role s = ''tool''" for s
  proof (cases "s = st")
    case True
    moreover from d row have "tc_id row < next_id d" by (simp add: answered_def list_all_iff call_ok_def)
    ultimately show ?thesis using st(1) t(3) by (auto simp: tool_step_of_def intro!: exI [of _ "tc_id row"])
  next
    case False
    with that t(2) have "s \<in> set (chat_steps d)" by simp
    with d that(2) t(3) show ?thesis unfolding answered_def by (meson order_less_le_trans)
  qed
  ultimately show ?thesis using d unfolding answered_def by simp
qed

subsection \<open>Operations\<close>

definition effect_of_execution :: "uuid \<Rightarrow> uuid \<Rightarrow> tool_call list \<Rightarrow> tool_call \<Rightarrow> db \<Rightarrow> db \<Rightarrow> bool" where
  "effect_of_execution sid turn calls tc s t \<longleftrightarrow> next_id s < next_id t \<and>
     (\<exists>status result st. status \<in> {''completed'', ''errored''} \<and> tool_calls t = calls @ [tc\<lparr>tc_status := status, tc_result := result\<rparr>] \<and>
        chat_steps t = chat_steps s @ [st] \<and> tool_step_of tc st)"

lemma record_execution_effect:
  assumes run: "record_execution uid sid turn tcid name pid x s = (Inr v, t)"
    and calls: "tool_calls s = calls @ [tc]" "tcid \<notin> tc_id ` set calls"
    and tc: "tc_id tc = tcid" "tc_status tc = ''pending''" "tc_session tc = sid" "tc_turn tc = turn"
  shows "effect_of_execution sid turn calls tc s t"
proof -
  let ?p = "to_tool_result_payload x" and ?st = "if te_is_error x then ''errored'' else ''completed''"
  have upd: "map (\<lambda>tc. if tc_id tc = tcid \<and> tc_status tc = ''pending'' then tc\<lparr>tc_status := ?st, tc_result := Some ?p\<rparr> else tc) (tool_calls s) =
      calls @ [tc\<lparr>tc_status := ?st, tc_result := Some ?p\<rparr>]"
    using calls(2) tc by (auto simp: calls(1) image_iff intro!: map_idI)
  have hit: "list_ex (\<lambda>tc. tc_id tc = tcid \<and> tc_status tc = ''pending'') (tool_calls s)" using tc by (simp add: calls(1))
  from run obtain i u s1 s2 where
    c: "complete_tool_call tcid ?st (Some ?p) s = (Inr i, s1)" and
    a: "add_step sid turn ''tool'' (tool_step_payload tcid pid name (dict_get ?p ''result'') (dict_get ?p ''error'')) None s1 = (Inr u, s2)" and
    l: "tool_calls t = tool_calls s2" "chat_steps t = chat_steps s2" "next_id t = next_id s2"
    by (auto simp: record_execution_def Let_def op_bind_Inr_iff chat_audit_def)
  from c hit upd have s1: "s1 = s\<lparr>tool_calls := calls @ [tc\<lparr>tc_status := ?st, tc_result := Some ?p\<rparr>]\<rparr>"
    by (auto simp: complete_tool_call_def Let_def)
  define st where "st = \<lparr>st_id = next_id s1, st_session = sid, st_turn = turn, st_role = ''tool'',
    st_payload = tool_step_payload tcid pid name (dict_get ?p ''result'') (dict_get ?p ''error''), st_usage = None\<rparr>"
  from a have s2: "s2 = s1\<lparr>chat_steps := chat_steps s1 @ [st], next_id := Suc (next_id s1)\<rparr>"
    unfolding st_def by (auto simp: add_step_def split: if_splits)
  have "tool_step_of tc st" using tc by (simp add: tool_step_of_def reports_def st_def tool_step_payload_def dict_get_def)
  then show ?thesis unfolding effect_of_execution_def l s2 s1
    by (intro conjI exI [of _ ?st] exI [of _ "Some ?p"] exI [of _ st]) auto
qed

lemma answered_execution:
  assumes d: "answered d" and s: "tool_calls s = tool_calls d @ [tc]" "chat_steps s = chat_steps d" "next_id d < next_id s"
    and tc: "tc_id tc = next_id d" and eff: "effect_of_execution sid turn (tool_calls d) tc s t" and small: "next_id t \<le> 2 ^ 128"
  shows "answered t"
proof -
  from eff obtain status result st where e: "status \<in> {''completed'', ''errored''}" "next_id s < next_id t"
    "tool_calls t = tool_calls d @ [tc\<lparr>tc_status := status, tc_result := result\<rparr>]" "chat_steps t = chat_steps s @ [st]" "tool_step_of tc st"
    unfolding effect_of_execution_def by blast
  have "tool_done (tc\<lparr>tc_status := status, tc_result := result\<rparr>)" using e(1) by (auto simp: tool_done_def)
  with answered_new_call [OF d e(3), of "[st]"] e s tc small show ?thesis by (auto simp: tool_step_of_def)
qed

lemma answered_block:
  assumes d: "answered d" and run: "handle_block cfg env now uid sid turn project b d = (Inr v, t)" and small: "next_id t \<le> 2 ^ 128"
  shows "answered t"
proof -
  let ?name = "tu_name b"
  from run obtain args where args: "validate_tool_args (ce_pydantic env) ?name (tu_input b) = Inr args"
    by (auto simp: handle_block_def Let_def split: if_splits sum.splits)
  define tc where "tc = \<lparr>tc_id = next_id d, tc_session = sid, tc_turn = turn, tc_name = ?name, tc_provider_id = tu_id b, tc_args = args,
    tc_status = ''pending'', tc_result = None\<rparr>"
  define s where "s = snd (chat_audit uid sid EVENT_TOOL_CALL_INITIATED [(''toolCallId'', JStr (uuid_str (next_id d))), (''toolName'', JStr ?name)]
    (d\<lparr>next_id := Suc (next_id d), tool_calls := tool_calls d @ [tc]\<rparr>))"
  have s: "tool_calls s = tool_calls d @ [tc]" "chat_steps s = chat_steps d" "next_id d < next_id s" "tc_id tc = next_id d" "tc_status tc = ''pending''"
    by (simp_all add: s_def tc_def chat_audit_def)
  have fresh: "next_id d \<notin> tc_id ` set (tool_calls d)" using d by (auto simp: answered_def list_all_iff call_ok_def)
  note eff = record_execution_effect [OF _ _ fresh s(4,5)]
  from run args have rest: "(if ?name \<in> set GLOBAL_SERVER_SIDE_TOOLS
      then op_bind (execute_global_server_side_tool env now uid sid turn (next_id d) ?name args (tu_id b)) (\<lambda>x. op_return (Inr x))
      else if ?name \<in> set SERVER_SIDE_TOOLS
      then op_bind (execute_server_side_tool cfg env now uid sid turn (next_id d) ?name args (tu_id b) (case project of Some p \<Rightarrow> p | None \<Rightarrow> [])) (\<lambda>x.
           op_return (Inr x))
      else op_return (Inl \<lparr>to_id = uuid_str (next_id d), to_name = ?name, to_args = args\<rparr>)) s = (Inr v, t)"
    unfolding s_def tc_def handle_block_def create_tool_call_def uuid4_def chat_audit_def
    by (auto simp: op_bind_def Let_def split: if_splits)
  consider (global) "?name \<in> set GLOBAL_SERVER_SIDE_TOOLS" | (site) "?name \<notin> set GLOBAL_SERVER_SIDE_TOOLS" "?name \<in> set SERVER_SIDE_TOOLS"
    | (client) "?name \<notin> set GLOBAL_SERVER_SIDE_TOOLS" "?name \<notin> set SERVER_SIDE_TOOLS" by blast
  then show ?thesis
  proof cases
    case global
    with rest obtain x w where "record_execution uid sid turn (next_id d) ?name (tu_id b) x s = (Inr w, t)"
      by (auto simp: execute_global_server_side_tool_def op_bind_Inr_iff)
    from eff [OF this s(1)] have "effect_of_execution sid turn (tool_calls d) tc s t" by (simp add: tc_def)
    from answered_execution [OF d s(1-4) this small] show ?thesis .
  next
    case site
    with rest obtain x w z u where ex: "site_execute z ?name args uid (case project of Some p \<Rightarrow> p | None \<Rightarrow> []) sid s = (Inr x, u)" and
      rec: "record_execution uid sid turn (next_id d) ?name (tu_id b) x u = (Inr w, t)"
      by (auto simp: execute_server_side_tool_def op_bind_Inr_iff)
    have "rows_le s u" using op_preservesD [OF site_execute_rows rows_le_refl, of s z ?name args uid _ sid] ex by (metis snd_conv)
    then have u: "tool_calls u = tool_calls d @ [tc]" "chat_steps u = chat_steps d" "next_id d < next_id u"
      using s by (simp_all add: rows_le_def core_le_def)
    from eff [OF rec u(1)] have "effect_of_execution sid turn (tool_calls d) tc u t" by (simp add: tc_def)
    from answered_execution [OF d u s(4) this small] show ?thesis .
  next
    case client
    with rest have "t = s" by simp
    with answered_new_call [OF d s(1), of "[]"] s small client show ?thesis
      by (auto simp: tc_def tool_done_def server_run_def)
  qed
qed

lemma answered_apply:
  assumes d: "answered d" and ref: "refers sid turn tc d" and run: "apply_tool_result uid sid turn tc result err d = (Inr v, t)"
    and small: "next_id t \<le> 2 ^ 128"
  shows "answered t"
proof -
  let ?status = "if err \<noteq> None then ''errored'' else ''completed''" and ?r = "if result \<noteq> None then result else err"
  let ?hit = "\<lambda>c. tc_id c = tc_id tc \<and> tc_status c = ''pending''"
  show ?thesis
  proof (cases "list_ex ?hit (tool_calls d)")
    case False
    then have "complete_tool_call (tc_id tc) ?status ?r d = (Inr False, d)" by (simp add: complete_tool_call_def)
    with run d show ?thesis by (auto simp: apply_tool_result_def Let_def op_bind_def)
  next
    case True
    then obtain row where row: "row \<in> set (tool_calls d)" "tc_id row = tc_id tc" "tc_status row = ''pending''" by (auto simp: list_ex_iff)
    from ref obtain row' where "row' \<in> set (tool_calls d)" "tc_id row' = tc_id tc" "tc_session row' = sid" "tc_turn row' = turn"
      by (auto simp: refers_def call_key_def)
    moreover have "inj_on tc_id (set (tool_calls d))" using d by (simp add: answered_def distinct_map)
    with calculation row have "row' = row" by (metis inj_onD)
    ultimately have key: "tc_session row = sid" "tc_turn row = turn" by simp_all
    define s where "s = d\<lparr>tool_calls := map (\<lambda>c. if ?hit c then c\<lparr>tc_status := ?status, tc_result := ?r\<rparr> else c) (tool_calls d)\<rparr>"
    with True have c: "complete_tool_call (tc_id tc) ?status ?r d = (Inr True, s)" by (simp add: complete_tool_call_def Let_def)
    define st where "st = \<lparr>st_id = next_id d, st_session = sid, st_turn = turn, st_role = ''tool'',
      st_payload = tool_step_payload (tc_id tc) (tc_provider_id tc) (tc_name tc) (opt_obj result) (opt_obj err), st_usage = None\<rparr>"
    from run c obtain u s2 where a: "add_step sid turn ''tool'' (st_payload st) None s = (Inr u, s2)"
      and l: "tool_calls t = tool_calls s2" "chat_steps t = chat_steps s2" "next_id t = next_id s2"
      unfolding st_def by (auto simp: apply_tool_result_def Let_def op_bind_Inr_iff chat_audit_def split: if_splits)
    from a have "s2 = s\<lparr>chat_steps := chat_steps s @ [st], next_id := Suc (next_id s)\<rparr>"
      unfolding st_def s_def by (auto simp: add_step_def split: if_splits)
    with l have t: "tool_calls t = map (\<lambda>c. if tc_id c = tc_id row \<and> tc_status c = ''pending'' then c\<lparr>tc_status := ?status, tc_result := ?r\<rparr> else c) (tool_calls d)"
      "chat_steps t = chat_steps d @ [st]" "next_id d \<le> next_id t"
      by (simp_all add: s_def row(2))
    have "tool_step_of row st" using key row(2) by (simp add: tool_step_of_def reports_def st_def tool_step_payload_def dict_get_def)
    from answered_complete [OF d row(1,3) t small this] show ?thesis by simp
  qed
qed

lemma answered_unlinked:
  assumes "answered s" "m s = (Inr x, t)" "\<And>s. tool_calls (snd (m s)) = tool_calls s \<and> chat_steps (snd (m s)) = chat_steps s \<and> next_id s \<le> next_id (snd (m s))"
  shows "answered t"
  using assms(1,2) assms(3) [of s] answered_cong by simp

lemma session_frame:
  "tool_calls (snd (get_or_create_session ttl now sid c s)) = tool_calls s \<and> chat_steps (snd (get_or_create_session ttl now sid c s)) = chat_steps s \<and>
   next_id s \<le> next_id (snd (get_or_create_session ttl now sid c s))"
  by (simp add: get_or_create_session_def create_session_def split: option.split)

lemma small_frames:
  "tool_calls (snd (uuid4 s)) = tool_calls s \<and> chat_steps (snd (uuid4 s)) = chat_steps s \<and> next_id s \<le> next_id (snd (uuid4 s))"
  "tool_calls (snd (chat_audit uid sid ty p s)) = tool_calls s \<and> chat_steps (snd (chat_audit uid sid ty p s)) = chat_steps s \<and>
   next_id s \<le> next_id (snd (chat_audit uid sid ty p s))"
  "tool_calls (snd (touch_session now sid s)) = tool_calls s \<and> chat_steps (snd (touch_session now sid s)) = chat_steps s \<and>
   next_id s \<le> next_id (snd (touch_session now sid s))"
  "tool_calls (snd (mark_expired uid s)) = tool_calls s \<and> chat_steps (snd (mark_expired uid s)) = chat_steps s \<and>
   next_id s \<le> next_id (snd (mark_expired uid s))"
  by (auto simp: uuid4_def chat_audit_def touch_session_def mark_expired_def mark_runtime_def put_key_def byok_audit_def op_bind_def
      split: option.split)

lemma calls_ok_frame:
  assumes "\<And>s. tool_calls (snd (m s)) = tool_calls s \<and> chat_steps (snd (m s)) = chat_steps s \<and> next_id s \<le> next_id (snd (m s))"
  shows "op_preserves calls_ok m"
proof (rule op_preservesI)
  fix s assume "calls_ok s"
  with assms [of s] answered_cong [of "snd (m s)" s] show "calls_ok (snd (m s))" unfolding calls_ok_def by auto
qed

lemma debit_frame:
  "tool_calls (snd (chat_debit cfg uid sid turn usage d)) = tool_calls d \<and> chat_steps (snd (chat_debit cfg uid sid turn usage d)) = chat_steps d \<and>
   next_id d \<le> next_id (snd (chat_debit cfg uid sid turn usage d))"
proof -
  let ?P = "\<lambda>t. tool_calls t = tool_calls d \<and> chat_steps t = chat_steps d \<and> next_id d \<le> next_id t"
  have "?P (snd (consume (chat_wallet cfg) uid 1 key meta s d))" for key meta s
  proof -
    have ens: "?P (ensured uid d)" by (simp add: ensured_def split: option.split)
    obtain w where "wallets (ensured uid d) uid = Some w" using ensured_wallet by blast
    from consume_route_effect [OF _ this, of 1 key meta "chat_wallet cfg" s]
    have "?P (snd (consume_route (chat_wallet cfg) uid 1 key meta s (ensured uid d)))"
      using ens by (auto simp: debit_effect_def post_debit_def)
    then show ?thesis by (simp add: consume_eval split: option.split)
  qed
  then show ?thesis unfolding chat_debit_def op_bind_def
    by (auto split: prod.split sum.split) (metis snd_conv)+
qed

lemma mark_frames:
  "tool_calls (snd (mark_trial_used uid s)) = tool_calls s \<and> chat_steps (snd (mark_trial_used uid s)) = chat_steps s \<and>
   next_id s \<le> next_id (snd (mark_trial_used uid s))"
  "tool_calls (snd (unmark_trial uid s)) = tool_calls s \<and> chat_steps (snd (unmark_trial uid s)) = chat_steps s \<and>
   next_id s \<le> next_id (snd (unmark_trial uid s))"
  by (simp_all add: mark_trial_used_def unmark_trial_def split: option.split)

lemma calls_ok_apply: "op_preserves_ok (\<lambda>d. calls_ok d \<and> refers sid turn tc d) (apply_tool_result uid sid turn tc result err)"
proof (rule op_preserves_okI)
  fix s v t
  assume s: "calls_ok s \<and> refers sid turn tc s" and run: "apply_tool_result uid sid turn tc result err s = (Inr v, t)"
  have "refers sid turn tc t" using op_preservesD [OF apply_tool_result_refers conjunct2 [OF s]] run by (metis snd_conv)
  moreover have "next_id s \<le> next_id t"
    using op_preservesD [OF core_apply_tool_result core_le_refl, of s uid sid turn tc result err] run by (simp add: core_le_def)
  ultimately show "calls_ok t \<and> refers sid turn tc t" using answered_apply [OF _ _ run] s unfolding calls_ok_def by fastforce
qed

interpretation calls: chat_messages calls_ok
proof unfold_locales
  have step: "op_preserves_ok calls_ok (add_step sid turn role payload usage)" if "role \<noteq> ''tool''" for role sid turn payload usage
    by (rule calls_ok_op [OF core_small(2)]) (rule answered_add_step [OF _ that])
  show "op_preserves_ok calls_ok (add_step sid turn ''assistant'' payload usage)"
    "op_preserves_ok calls_ok (add_step sid turn ''user'' payload usage)" for sid turn payload usage
    by (rule step, simp)+
  show "op_preserves_ok calls_ok (truncate_from_message_step sid turn)" for sid turn
    by (rule calls_ok_op [OF core_small(6)]) (rule answered_truncate)
  show "op_preserves_ok calls_ok (handle_block cfg env now uid sid turn project b)" for cfg env now uid sid turn project b
    by (rule calls_ok_op [OF core_handle_block]) (rule answered_block)
qed (rule calls_ok_apply calls_ok_frame [OF debit_frame] op_preserves_imp_ok [OF calls_ok_frame [OF session_frame]]
    op_preserves_imp_ok [OF calls_ok_frame [OF small_frames(1)]] op_preserves_imp_ok [OF calls_ok_frame [OF small_frames(2)]]
    op_preserves_imp_ok [OF calls_ok_frame [OF small_frames(3)]] op_preserves_imp_ok [OF calls_ok_frame [OF small_frames(4)]]
    op_preserves_imp_ok [OF calls_ok_frame [OF mark_frames(1)]] op_preserves_imp_ok [OF calls_ok_frame [OF mark_frames(2)]])+

subsection \<open>What the model is sent\<close>

definition result_messages :: "uuid \<Rightarrow> neutral_message list \<Rightarrow> neutral_message list" where
  "result_messages i ms = filter (\<lambda>m. nm_role m = ''tool'' \<and> nm_tool_call_id m = JStr (uuid_str i)) ms"

lemma message_of_step_results:
  "message_of_step st = Inr ms \<Longrightarrow> length (result_messages i ms) = (if reports i st then 1 else 0)"
  by (auto simp: message_of_step_def result_messages_def reports_def Let_def split: if_splits option.splits)

lemma messages_of_results:
  "messages_of sts = Inr ms \<Longrightarrow> length (result_messages i ms) = length (filter (reports i) sts)"
proof (induction sts arbitrary: ms)
  case (Cons st sts)
  then obtain m1 m2 where "message_of_step st = Inr m1" "messages_of sts = Inr m2" "ms = m1 @ m2" by (auto split: sum.splits)
  with Cons.IH [of m2] message_of_step_results [of st m1 i] show ?case by (simp add: result_messages_def)
qed (simp add: result_messages_def)

lemma send_round_cases:
  assumes "send_round env p atts k z = (q, w)"
  shows "(\<exists>e. q = Inl e \<and> ct_requests w = ct_requests z) \<or>
    (\<exists>o1 q1. q = Inr o1 \<and> ct_requests w = ct_requests z @ [q1] \<and> messages_of (list_steps (gp_session p) (ct_db z)) = Inr (lr_messages q1))"
  using assms by (cases "messages_of (list_steps (gp_session p) (ct_db z))")
    (auto simp: send_round_def op_bind_def c_db_def build_messages_def c_commit_def c_sent_def c_others_def)

lemma first_request_rounds:
  assumes run: "generate_rounds cfg env p n k atts executed z = (r, y)" and req: "ct_requests y = ct_requests z @ q # later"
  shows "messages_of (list_steps (gp_session p) (ct_db z)) = Inr (lr_messages q)"
proof (cases n)
  case 0
  with c_sendsD [OF sends_rounds run] req show ?thesis by auto
next
  case (Suc m)
  obtain o1 w where send: "send_round env p atts k z = (o1, w)" by (meson surj_pair)
  from send_round_cases [OF send] show ?thesis
  proof (elim disjE exE conjE)
    fix e assume "o1 = Inl e" "ct_requests w = ct_requests z"
    with run send req Suc show ?thesis by (auto simp: op_bind_def)
  next
    fix o2 q0
    assume o1: "o1 = Inr o2" and w: "ct_requests w = ct_requests z @ [q0]"
      and m: "messages_of (list_steps (gp_session p) (ct_db z)) = Inr (lr_messages q0)"
    from run send o1 have "rest_of_round cfg env p m k executed o2 w = (r, y)" unfolding Suc generate_rounds_Suc by (simp add: op_bind_def)
    from c_sendsD [OF sends_rest this] w req m show ?thesis by auto
  qed
qed

lemma first_request:
  assumes run: "generate_with_trial_reconcile cfg env claimed p atts z = (r, y)" and req: "ct_requests y = ct_requests z @ q # later"
  shows "messages_of (list_steps (gp_session p) (ct_db z)) = Inr (lr_messages q)"
proof -
  obtain o1 w where loop: "generate_loop cfg env p atts z = (o1, w)" by (meson surj_pair)
  have "ct_requests y = ct_requests w"
  proof (cases claimed)
    case True
    with run have "generate_with_trial_reconcile cfg env True p atts z = (r, y)" by simp
    from generate_claimed_cases [OF this loop] show ?thesis by auto
  next
    case False
    with run loop show ?thesis by (simp add: generate_with_trial_reconcile_def)
  qed
  with first_request_rounds [OF loop [unfolded generate_loop_def]] req show ?thesis by simp
qed

lemma continue_first_request:
  assumes run: "continue_turn cfg env uid sid sess turn z = (r, y)" and req: "ct_requests y = ct_requests z @ q # later"
  shows "\<exists>d. messages_of (list_steps sid d) = Inr (lr_messages q) \<and> chat_steps d = chat_steps (ct_db z)"
proof (cases "mode_of_text (ses_mode sess)")
  case None
  with run req show ?thesis by (simp add: continue_turn_def session_mode_def)
next
  case (Some m)
  obtain o1 d1 where ev: "evaluate_access (ce_now env) uid m sid (ct_db z) = (o1, d1)" by (meson surj_pair)
  then have d1: "chat_steps d1 = chat_steps (ct_db z)" using evaluate_access_eval [OF ev] by auto
  show ?thesis
  proof (cases o1)
    case (Inl e)
    with run req Some ev show ?thesis by (auto simp: continue_turn_def session_mode_def op_bind_def c_db_def)
  next
    case (Inr ds)
    obtain decision state where ds: "ds = (decision, state)" by (cases ds)
    obtain o2 where key: "resolve_api_key env uid m d1 = (o2, d1)" using resolve_api_key_pure [of env uid m d1] by (metis prod.collapse)
    show ?thesis
    proof (cases o2)
      case (Inl e)
      with run req Some ev Inr ds key show ?thesis
        by (auto simp: continue_turn_def session_mode_def op_bind_def c_db_def Let_def split: if_splits)
    next
      case (Inr k)
      with run Some ev \<open>o1 = _\<close> ds key have "y = z\<lparr>ct_db := d1\<rparr> \<or>
          (\<exists>claimed p. gp_session p = sid \<and> generate_with_trial_reconcile cfg env claimed p None (z\<lparr>ct_db := d1\<rparr>) = (r, y))"
        by (auto simp: continue_turn_def session_mode_def op_bind_def c_db_def Let_def split: if_splits)
      then show ?thesis
      proof (elim disjE exE conjE)
        fix claimed p
        assume "gp_session p = sid" "generate_with_trial_reconcile cfg env claimed p None (z\<lparr>ct_db := d1\<rparr>) = (r, y)"
        with first_request [OF this(2)] req d1 show ?thesis by auto
      qed (use req in simp)
    qed
  qed
qed

lemma after_results_sends:
  assumes run: "after_results cfg env uid sid sess resolved z = (r, y)" and req: "ct_requests y \<noteq> ct_requests z"
  shows "pending_calls sid (tc_turn (snd (hd resolved))) (ct_db z) = [] \<and>
    continue_turn cfg env uid sid sess (tc_turn (snd (hd resolved))) z = (r, y)"
proof (cases "pending_calls sid (tc_turn (snd (hd resolved))) (ct_db z) = []")
  case True
  with run req show ?thesis
    by (auto simp: after_results_def Let_def op_bind_def c_db_def c_lift_def split: option.splits if_splits sum.splits)
next
  case False
  with run req show ?thesis by (auto simp: after_results_def Let_def op_bind_def c_db_def c_commit_def)
qed

lemma apply_results_next: "next_id (snd (apply_results uid sid turn rs s)) \<le> next_id s + length rs"
proof (induction rs arbitrary: s)
  case (Cons p rs)
  obtain item tc where p: "p = (item, tc)" by (cases p)
  have one: "next_id (snd (apply_tool_result uid sid turn tc result err s)) \<le> Suc (next_id s)" for result err
    by (auto simp: apply_tool_result_def complete_tool_call_def add_step_def chat_audit_def op_bind_def Let_def)
  let ?m = "if tool_done tc then op_return () else apply_tool_result uid sid turn tc (ti_result item) (ti_error item)"
  obtain q s1 where m: "?m s = (q, s1)" by (meson surj_pair)
  then have s1: "next_id s1 \<le> Suc (next_id s)" using one [of "ti_result item" "ti_error item"] by (auto split: if_splits)
  have eq: "apply_results uid sid turn (p # rs) s = (case q of Inl e \<Rightarrow> (Inl e, s1) | Inr v \<Rightarrow> apply_results uid sid turn rs s1)"
    unfolding p apply_results.simps op_bind_def m by (simp split: sum.split)
  show ?case using s1 Cons.IH [of s1] unfolding eq by (cases q) auto
qed simp

lemma continued_turn_is_complete:
  assumes d: "answered d" and bound: "next_id d + length results \<le> 2 ^ 128"
    and run: "chat_tool_result cfg env uid sid results (c_start d) = (r, y)" and req: "ct_requests y = q # later"
  shows "\<exists>first. get_tool_call (ti_tool_call_id (hd results)) d = Some first \<and> tc_session first = sid \<and>
    (\<forall>tc \<in> set (tool_calls d). tc_session tc = sid \<and> tc_turn tc = tc_turn first \<longrightarrow>
       length (result_messages (tc_id tc) (lr_messages q)) = 1)"
proof -
  from run req have ne: "results \<noteq> []" by (auto simp: chat_tool_result_def)
  with run req obtain sess where sess: "get_session sid uid d = Some sess"
    by (auto simp: chat_tool_result_parts op_bind_def c_db_def split: option.splits)
  obtain o1 d1 where tk: "take_results uid sid results d = (o1, d1)" by (meson surj_pair)
  let ?z = "(c_start d)\<lparr>ct_db := d1\<rparr>"
  from run req ne sess tk obtain rs where rs: "o1 = Inr rs" and rest: "after_results cfg env uid sid sess rs ?z = (r, y)"
    by (cases o1) (auto simp: chat_tool_result_parts op_bind_def c_db_def)
  let ?first = "snd (hd rs)" and ?turn = "tc_turn (snd (hd rs))"
  from tk rs obtain s1 where r: "resolve_results sid None results d = (Inr rs, s1)" and a: "apply_results uid sid ?turn rs s1 = (Inr (), d1)"
    by (auto simp: take_results_def op_bind_Inr_iff)
  note res = resolve_results_turn [OF r ne]
  then have s1: "s1 = d" by simp
  from res ne have "rs \<noteq> []" by auto
  then have "hd rs \<in> set rs" "fst (hd rs) = hd results" using res by (simp, metis hd_map)
  with res \<open>fst (hd rs) = _\<close> have first: "get_tool_call (ti_tool_call_id (hd results)) d = Some ?first" "tc_session ?first = sid"
    by (auto simp: case_prod_beta)
  from after_results_sends [OF rest] req have pend: "pending_calls sid ?turn d1 = []"
    and cont: "continue_turn cfg env uid sid sess ?turn ?z = (r, y)" by auto
  from continue_first_request [OF cont] req obtain d2 where msgs: "messages_of (list_steps sid d2) = Inr (lr_messages q)"
    and d2: "chat_steps d2 = chat_steps d1" by auto
  have "next_id d1 \<le> next_id d + length rs" using apply_results_next [of uid sid ?turn rs d] a s1 by simp
  moreover have "length rs = length results" using res by (metis length_map)
  ultimately have "next_id d1 \<le> 2 ^ 128" using bound by simp
  moreover have "calls_ok d1"
    using calls.take_results_ok [OF ne, of uid sid] tk rs d unfolding op_preserves_ok_def calls_ok_def by blast
  ultimately have ok: "answered d1" by (simp add: calls_ok_def)
  have "length (result_messages (tc_id tc) (lr_messages q)) = 1" if tc: "tc \<in> set (tool_calls d)" "tc_session tc = sid" "tc_turn tc = ?turn" for tc
  proof -
    have "refers sid ?turn tc d" using tc by (auto simp: refers_def call_key_def image_iff)
    with op_preservesD [OF apply_results_refers this, of uid sid ?turn rs] a s1 have "refers sid ?turn tc d1" by simp
    then obtain row where row: "row \<in> set (tool_calls d1)" "tc_id row = tc_id tc" "tc_session row = sid" "tc_turn row = ?turn"
      by (auto simp: refers_def call_key_def)
    from ok row(1) have rok: "call_ok d1 row" by (simp add: answered_def list_all_iff)
    have "tool_done row"
    proof (rule ccontr)
      assume "\<not> tool_done row"
      with rok have "\<not> server_run (tc_name row)" by (auto simp: call_ok_def)
      with row \<open>\<not> tool_done row\<close> have "row \<in> set (pending_calls sid ?turn d1)"
        by (simp add: pending_calls_def client_calls_def list_tool_calls_for_step_def server_run_def)
      with pend show False by simp
    qed
    with rok have "length (filter (tool_step_of row) (chat_steps d1)) = 1" by (simp add: call_ok_def)
    moreover have "filter (reports (tc_id tc)) (list_steps sid d2) = filter (tool_step_of row) (chat_steps d1)"
      using rok row unfolding list_steps_def d2 filter_filter by (intro filter_cong) (auto simp: call_ok_def tool_step_of_def)
    ultimately show ?thesis using messages_of_results [OF msgs, of "tc_id tc"] by simp
  qed
  with first show ?thesis by blast
qed

end
