(* ===== verification/ChatClaims.thy ===== *)
theory ChatClaims
  imports ChatTurns WalletClaims
begin

text \<open>Properties of the chat orchestrator, with a conversation to try them on.\<close>

definition demo_chat_cfg :: chat_settings where
  "demo_chat_cfg = \<lparr>max_server_tool_rounds = 2, session_soft_ttl_seconds = 3600, llm_provider = ''anthropic'', allowed_models = [],
     chat_wallet = demo_cfg,
     chat_attachments = \<lparr>attachment_max_count = 4, attachment_max_bytes_image = 100, attachment_max_bytes_document = 100,
       attachment_total_bytes = 200, attachment_pdf_max_pages = 5\<rparr>,
     chat_workspaces = \<lparr>workspace_file_max_count = 4, workspace_file_max_bytes = 100, workspace_files_total_bytes = 200,
       workspace_context_max_chars = 100\<rparr>,
     chat_site = \<lparr>preview_url_secret = ''s'', preview_url_ttl_seconds = 60, preview_max_file_bytes = 100, preview_max_project_bytes = 200,
       preview_max_files = 4, service_domain = []\<rparr>\<rparr>"

definition demo_answer :: "string \<Rightarrow> tool_use list \<Rightarrow> llm_result" where
  "demo_answer stop uses = \<lparr>res_stop_reason = Some stop, res_content_blocks = [[(''type'', JStr ''text''), (''text'', JStr ''hello'')]],
     res_usage = \<lparr>us_input_tokens = 3, us_output_tokens = 2, us_model = ''m'', us_cache_read_tokens = 0, us_cache_write_tokens = 0\<rparr>,
     res_text = ''hello'', res_tool_uses = uses\<rparr>"

definition demo_env :: "llm_outcome \<Rightarrow> chat_env" where
  "demo_env outcome = \<lparr>ce_now = 0, ce_llm = (\<lambda>k. \<lparr>lc_others = id, lc_outcome = outcome, lc_now = 1000000\<rparr>),
     ce_pydantic = \<lparr>pd_validate = (\<lambda>_ args. Inr args), pd_error = (\<lambda>_ _. []), pd_schema = (\<lambda>_. [])\<rparr>, ce_repr = (\<lambda>_. []),
     ce_hmac = (\<lambda>k m. k @ m), ce_zones = (\<lambda>_. None),
     ce_aead = \<lparr>ae_encrypt = (\<lambda>k n p. p), ae_decrypt = (\<lambda>k n c. Some c)\<rparr>, ce_master = ''m'', ce_pdf = (\<lambda>_. PdfUnreadable)\<rparr>"

definition demo_message :: run_request where
  "demo_message = \<lparr>rq_user = 1, rq_project_id = None, rq_session_id = None, rq_message = ''hi'', rq_mode = ''credits'', rq_assistant_mode = Some ''chat'',
     rq_attachments = [], rq_model = None, rq_workspace = None, rq_context = None, rq_edit_message_step_id = None\<rparr>"

definition demo_chat_db :: db where
  "demo_chat_db = empty_db\<lparr>users := [1 \<mapsto> \<lparr>trial_used = False\<rparr>],
     subscriptions := [1 \<mapsto> \<lparr>sub_status = ''active'', sub_plan = None, sub_expires_at = None\<rparr>], wallets := [1 \<mapsto> \<lparr>balance = 5, debt = 0\<rparr>]\<rparr>"

lemmas demo_chat_defs = demo_chat_cfg_def demo_answer_def demo_env_def demo_message_def demo_chat_db_def empty_db_def

lemmas demo_run_defs = chat_run_def resolve_session_def will_create_session_def get_or_create_session_def create_session_def
  uuid4_def session_mode_def mode_of_text_def edit_history_def prompt_and_files_def c_lift_def c_db_def c_commit_def c_sent_def c_others_def c_start_def
  op_bind_def add_step_def evaluate_access_def load_policy_state_def policy_defs chat_audit_def billing_plan_of_def resolve_api_key_def
  generate_with_trial_reconcile_def generate_loop_def send_round_def build_messages_def ASSISTANT_MODES_def
  effective_subscription_status_def claim_trial_def mark_trial_used_def list_steps_def message_of_step_def content_payload_def
  STOP_REASON_MAX_TOKENS_def STOP_REASON_TOOL_USE_def finalize_assistant_def touch_session_def eval_nat_numeral

lemmas demo_debit_defs = chat_debit_def consume_def validate_session_def ensure_wallet_def agent_reconcile_applies_def dict_get_def
  consume_plain_def debit_in_savepoint_def begin_nested_def insert_ledger_def update_debit_def existing_tx_def op_catch_def

lemma demo_run_answered:
  "\<exists>v. fst (chat_run demo_chat_cfg (demo_env (LlmAnswer (demo_answer ''end_turn'' []))) demo_message (c_start demo_chat_db)) = Inr v \<and>
     co_status v = ''assistant_message''"
  by (simp add: demo_run_defs demo_chat_defs demo_debit_defs)

text \<open>
  Claim C3. A message is charged exactly when its final answer is stored: after the request the ledger
  has a debit of one credit under the identifier of the turn if and only if the answer was a final
  message and the conversation is paid in credits by an active subscription. Whatever else happens, a
  refusal, a tool call, a cut answer, an exception of the model or an empty wallet, nothing is booked for
  the turn; and a final answer is among the committed steps.
\<close>

theorem message_is_charged_with_its_answer:
  assumes "uncharged (rq_user rq) (uuid_str (next_id d)) d"
    and "others_keep env (uncharged (rq_user rq) (uuid_str (next_id d)))"
  shows "case c_request (chat_run cfg env rq) (c_start d) of (r, y) \<Rightarrow>
    (let final = (\<exists>v. r = Inr v \<and> co_status v = ''assistant_message''); key = uuid_str (next_id d) in
     (if final \<and> pays_credits cfg (ce_now env) rq d then charged (rq_user rq) key (ct_committed y)
      else uncharged (rq_user rq) key (ct_committed y)) \<and>
     (final \<longrightarrow> answer_stored (next_id d) (projr r) (ct_committed y)))"
proof -
  obtain r y where run: "chat_run cfg env rq (c_start d) = (r, y)" by (meson surj_pair)
  from run_settled [OF assms(2,1) run] show ?thesis
    by (cases r) (auto simp: c_request_def run settled_def Let_def split: if_splits)
qed

theorem message_is_charged_with_its_answer_witness:
  "charged 1 (uuid_str 1) (ct_committed (snd (c_request (chat_run demo_chat_cfg (demo_env (LlmAnswer (demo_answer ''end_turn'' []))) demo_message)
     (c_start demo_chat_db))))"
proof -
  let ?env = "demo_env (LlmAnswer (demo_answer ''end_turn'' []))"
  have h: "uncharged (rq_user demo_message) (uuid_str (next_id demo_chat_db)) demo_chat_db"
    "others_keep ?env (uncharged (rq_user demo_message) (uuid_str (next_id demo_chat_db)))"
    by (simp_all add: uncharged_def existing_tx_def others_keep_def demo_chat_defs)
  have pays: "pays_credits demo_chat_cfg (ce_now ?env) demo_message demo_chat_db"
    by (simp add: pays_credits_def opened_mode_def mode_of_text_def subscription_of_def effective_subscription_status_def demo_chat_defs)
  have ids: "rq_user demo_message = 1" "next_id demo_chat_db = 1" by (simp_all add: demo_chat_defs)
  obtain r y where run: "c_request (chat_run demo_chat_cfg ?env demo_message) (c_start demo_chat_db) = (r, y)" by (meson surj_pair)
  with demo_run_answered have "\<exists>v. r = Inr v \<and> co_status v = ''assistant_message''"
    by (auto simp: c_request_def split: prod.splits sum.splits)
  with message_is_charged_with_its_answer [OF h, of demo_chat_cfg] run pays ids show ?thesis by (simp add: Let_def)
qed

lemma demo_trial_answered:
  "\<exists>v. fst (chat_run demo_chat_cfg (demo_env (LlmAnswer (demo_answer ''end_turn'' []))) demo_message (c_start demo_db)) = Inr v \<and>
     co_status v = ''assistant_message''"
  by (simp add: demo_run_defs demo_chat_defs demo_debit_defs demo_db_def)

text \<open>
  Claim C7. For a user without a subscription whose trial is unused, a message in credits mode leaves the
  trial used exactly when the turn went on, with a final answer or with tool calls for the client. A cut
  answer, an exception of the model or of anything before it, and every refusal give the trial back.
\<close>

theorem trial_is_spent_on_success_only:
  assumes "trial_flag (rq_user rq) False d" and "subscription_of (ce_now env) (rq_user rq) d = SubNone"
    and "opened_mode cfg (ce_now env) rq d = ''credits''" and "others_keep env (trial_flag (rq_user rq) True)"
  shows "case c_request (chat_run cfg env rq) (c_start d) of (r, y) \<Rightarrow>
    trial_flag (rq_user rq) (\<exists>v. r = Inr v \<and> co_status v \<in> {''assistant_message'', ''tool_call''}) (ct_committed y)"
proof -
  obtain r y where run: "chat_run cfg env rq (c_start d) = (r, y)" by (meson surj_pair)
  have "mode_of_text (opened_mode cfg (ce_now env) rq d) = Some ModeCredits" using assms(3) by (simp add: mode_of_text_def)
  from run_trial [OF assms(4,1,2) this run] show ?thesis
    by (cases r) (auto simp: c_request_def run went_on_def)
qed

theorem trial_is_spent_on_success_only_witness:
  "trial_flag 1 False demo_db \<and>
   trial_flag 1 True (ct_committed (snd (c_request (chat_run demo_chat_cfg (demo_env (LlmAnswer (demo_answer ''end_turn'' []))) demo_message)
     (c_start demo_db))))"
proof -
  let ?env = "demo_env (LlmAnswer (demo_answer ''end_turn'' []))"
  have user: "rq_user demo_message = 1" by (simp add: demo_chat_defs)
  have h: "trial_flag (rq_user demo_message) False demo_db" "subscription_of (ce_now ?env) (rq_user demo_message) demo_db = SubNone"
    "opened_mode demo_chat_cfg (ce_now ?env) demo_message demo_db = ''credits''" "others_keep ?env (trial_flag (rq_user demo_message) True)"
    by (simp_all add: trial_flag_def subscription_of_def effective_subscription_status_def opened_mode_def others_keep_def demo_chat_defs demo_db_def)
  obtain r y where run: "c_request (chat_run demo_chat_cfg ?env demo_message) (c_start demo_db) = (r, y)" by (meson surj_pair)
  with demo_trial_answered have "\<exists>v. r = Inr v \<and> co_status v \<in> {''assistant_message'', ''tool_call''}"
    by (auto simp: c_request_def split: prod.splits sum.splits)
  with trial_is_spent_on_success_only [OF h] run user h(1) show ?thesis by simp
qed

subsection \<open>Histories\<close>

datatype chat_cmd = RunMessage chat_settings chat_env run_request | SendResults chat_settings chat_env uuid uuid "tool_result_in list"

fun cmd_env :: "chat_cmd \<Rightarrow> chat_env" where
  "cmd_env (RunMessage cfg env rq) = env"
| "cmd_env (SendResults cfg env uid sid rs) = env"

fun exec_chat :: "chat_cmd \<Rightarrow> db \<Rightarrow> db" where
  "exec_chat (RunMessage cfg env rq) d = ct_committed (snd (c_request (chat_run cfg env rq) (c_start d)))"
| "exec_chat (SendResults cfg env uid sid rs) d = ct_committed (snd (c_request (chat_tool_result cfg env uid sid rs) (c_start d)))"

lemma exec_chat_calls: "others_keep (cmd_env c) calls_ok \<Longrightarrow> calls_ok d \<Longrightarrow> calls_ok (exec_chat c d)"
  by (cases c) (auto intro: calls.request_keeps calls.run_keeps calls.tool_result_keeps)

text \<open>
  Claim C4. After any sequence of messages, edits and batches of tool results, with any answers of the
  model and any failures, every committed tool call that is done has exactly one result step in its turn
  and every other has none, calls of the server are done, and identifiers are unique. Repeated, mixed and
  partial batches are included.
\<close>

theorem tool_calls_have_one_result:
  assumes "answered d" and "\<forall>c \<in> set cs. others_keep (cmd_env c) calls_ok" and "next_id (fold exec_chat cs d) \<le> 2 ^ 128"
  shows "answered (fold exec_chat cs d)"
proof -
  have "calls_ok (fold exec_chat cs d)" if "calls_ok d" for d
    using assms(2) that by (induction cs arbitrary: d) (auto intro: exec_chat_calls)
  with assms(1,3) show ?thesis unfolding calls_ok_def by blast
qed

definition demo_tool_use :: tool_use where
  "demo_tool_use = \<lparr>tu_id = ''t1'', tu_name = ''files.read'', tu_input = []\<rparr>"

lemmas demo_tool_defs = handle_tool_use_def demo_tool_use_def handle_block_def validate_tool_args_def create_tool_call_def
  ARGS_BY_TOOL_def PATH_MODELS_def tool_name_defs SERVER_SIDE_TOOLS_def GLOBAL_SERVER_SIDE_TOOLS_def dict_get_def

definition demo_after_call :: db where
  "demo_after_call = exec_chat (RunMessage demo_chat_cfg (demo_env (LlmAnswer (demo_answer ''tool_use'' [demo_tool_use]))) demo_message) demo_chat_db"

lemma demo_after_call: "next_id demo_after_call = 6 \<and> map tc_name (tool_calls demo_after_call) = [''files.read'']"
  unfolding demo_after_call_def exec_chat.simps c_request_def
  by (simp add: demo_run_defs demo_chat_defs demo_tool_defs)

theorem tool_calls_have_one_result_witness:
  "answered demo_after_call \<and> map tc_name (tool_calls demo_after_call) = [''files.read'']"
proof -
  let ?c = "RunMessage demo_chat_cfg (demo_env (LlmAnswer (demo_answer ''tool_use'' [demo_tool_use]))) demo_message"
  have "answered demo_chat_db" by (simp add: answered_def demo_chat_defs)
  moreover have "\<forall>c \<in> set [?c]. others_keep (cmd_env c) calls_ok" by (simp add: others_keep_def demo_env_def)
  moreover have eq: "fold exec_chat [?c] demo_chat_db = demo_after_call" by (simp add: demo_after_call_def)
  then have "next_id (fold exec_chat [?c] demo_chat_db) \<le> 2 ^ 128" using demo_after_call by simp
  ultimately have "answered (fold exec_chat [?c] demo_chat_db)" by (rule tool_calls_have_one_result)
  with eq demo_after_call show ?thesis by simp
qed

text \<open>
  Claim C8. A batch of tool results makes the model continue only when the turn is complete: the first
  history sent then has, for every tool call of that turn, of the client or of the server, exactly one
  result message under its identifier. While a call of the turn is unanswered nothing is sent.
\<close>

theorem turn_continues_with_every_result:
  assumes "answered d" and "next_id d + length results \<le> 2 ^ 128"
    and "ct_requests (snd (chat_tool_result cfg env uid sid results (c_start d))) = q # later"
  shows "\<exists>first. get_tool_call (ti_tool_call_id (hd results)) d = Some first \<and> tc_session first = sid \<and>
    (\<forall>tc \<in> set (tool_calls d). tc_session tc = sid \<and> tc_turn tc = tc_turn first \<longrightarrow>
       length (result_messages (tc_id tc) (lr_messages q)) = 1)"
  using continued_turn_is_complete [OF assms(1,2) _ assms(3)] by (metis prod.collapse)

lemmas demo_results_defs = chat_tool_result_def get_session_def get_tool_call_def apply_tool_result_def complete_tool_call_def pending_calls_def
  client_calls_def list_tool_calls_for_step_def tool_done_def next_step_after_def turn_steps_def tool_step_payload_def all_already_done_before_def
  continue_turn_def assistant_tool_step_id_def opt_obj_def MUTATING_TOOLS_def

lemma demo_results_sent:
  "\<exists>q later. ct_requests (snd (chat_tool_result demo_chat_cfg (demo_env (LlmAnswer (demo_answer ''end_turn'' []))) 1 2
     [\<lparr>ti_tool_call_id = 5, ti_result = Some [], ti_error = None\<rparr>] (c_start demo_after_call))) = q # later"
  unfolding demo_after_call_def exec_chat.simps c_request_def
  by (simp add: demo_run_defs demo_chat_defs demo_tool_defs demo_results_defs demo_debit_defs)

lemma demo_after_call_ok: "answered demo_after_call"
proof -
  have "others_keep (demo_env o1) calls_ok" for o1 by (simp add: others_keep_def demo_env_def)
  moreover have "calls_ok demo_chat_db" by (simp add: calls_ok_def answered_def demo_chat_defs)
  ultimately have "calls_ok demo_after_call" unfolding demo_after_call_def by (intro exec_chat_calls) simp_all
  with demo_after_call show ?thesis by (simp add: calls_ok_def)
qed

theorem turn_continues_with_every_result_witness:
  "\<exists>q later. ct_requests (snd (chat_tool_result demo_chat_cfg (demo_env (LlmAnswer (demo_answer ''end_turn'' []))) 1 2
     [\<lparr>ti_tool_call_id = 5, ti_result = Some [], ti_error = None\<rparr>] (c_start demo_after_call))) = q # later \<and>
     (\<exists>first. get_tool_call 5 demo_after_call = Some first \<and> tc_session first = 2)"
proof -
  let ?rs = "[\<lparr>ti_tool_call_id = 5, ti_result = Some [], ti_error = None\<rparr>]"
  have small: "next_id demo_after_call + length ?rs \<le> 2 ^ 128" using demo_after_call by simp
  obtain q later where sent: "ct_requests (snd (chat_tool_result demo_chat_cfg (demo_env (LlmAnswer (demo_answer ''end_turn'' []))) 1 2
     ?rs (c_start demo_after_call))) = q # later" using demo_results_sent by blast
  from turn_continues_with_every_result [OF demo_after_call_ok small sent] sent show ?thesis by auto
qed

text \<open>
  Claim C9. A request calls the model at most once more than the configured number of server-side tool
  rounds, whatever the model asks for.
\<close>

theorem model_calls_are_bounded:
  "length (ct_requests (snd (chat_run cfg env rq (c_start d)))) \<le> nat (max_server_tool_rounds cfg + 1) \<and>
   length (ct_requests (snd (chat_tool_result cfg env uid sid results (c_start d)))) \<le> nat (max_server_tool_rounds cfg + 1)"
proof -
  have "length (ct_requests (snd (m (c_start d)))) \<le> n" if "c_sends n m" for n and m :: "chat_run_out cop"
    using c_sendsD [OF that, of "c_start d" "fst (m (c_start d))" "snd (m (c_start d))"] by auto
  then show ?thesis using sends_run sends_tool_result by blast
qed

end
