(* ===== verification/Keyset.thy ===== *)
theory Keyset
  imports Main "HOL-Library.Multiset"
begin

text \<open>
  Pages by key: a list is served in pages of a limited size; one more row than the limit is fetched to
  know whether there is a next page, whose cursor is taken from the last row of this one. The contract of
  an order and its cursor is a locale; following the cursors then gives the ordered rows, each once.
\<close>

definition keyset_page :: "('c \<Rightarrow> 'a \<Rightarrow> bool) \<Rightarrow> ('a \<Rightarrow> 'c) \<Rightarrow> ('a list \<Rightarrow> 'a list) \<Rightarrow> 'c option \<Rightarrow> nat \<Rightarrow> 'a list \<Rightarrow> 'a list \<times> 'c option" where
  "keyset_page after cursor_of order cursor limit rows =
     (let found = take (limit + 1) (order (filter (\<lambda>r. case cursor of None \<Rightarrow> True | Some c \<Rightarrow> after c r) rows));
          shown = take limit found
      in (shown, if length found > limit \<and> shown \<noteq> [] then Some (cursor_of (last shown)) else None))"

fun follow :: "('c option \<Rightarrow> 'a list \<times> 'c option) \<Rightarrow> nat \<Rightarrow> 'c option \<Rightarrow> 'a list list" where
  "follow fetch 0 cursor = []"
| "follow fetch (Suc n) cursor =
     (case fetch cursor of (shown, None) \<Rightarrow> [shown] | (shown, Some c) \<Rightarrow> shown # follow fetch n (Some c))"

text \<open>Cursors may travel encoded and rows decorated, as long as the cursors that occur decode.\<close>

lemma follow_encoded:
  assumes step: "\<And>c. ok c \<Longrightarrow> fetch' (map_option enc c) = map_prod (map f) (map_option enc) (fetch c) \<and> ok (snd (fetch c))"
  shows "ok c \<Longrightarrow> follow fetch' n (map_option enc c) = map (map f) (follow fetch n c)"
proof (induction n arbitrary: c)
  case (Suc n)
  obtain shown nxt where p: "fetch c = (shown, nxt)" by (cases "fetch c")
  with step [OF Suc.prems] have "fetch' (map_option enc c) = (map f shown, map_option enc nxt)" "ok nxt" by simp_all
  with p Suc.IH [of nxt] show ?case by (cases nxt) simp_all
qed simp

lemma sorted_wrt_unique:
  assumes "\<And>x y. lt x y \<Longrightarrow> \<not> lt y x" "sorted_wrt lt xs" "sorted_wrt lt ys" "mset xs = mset ys"
  shows "xs = ys"
  using assms(2-)
proof (induction xs arbitrary: ys)
  case (Cons x xs)
  then obtain y ys' where ys: "ys = y # ys'" by (cases ys) auto
  have "x = y"
  proof (rule ccontr)
    assume ne: "x \<noteq> y"
    have "x \<in> set ys" "y \<in> set (x # xs)" using Cons.prems(3) ys by (metis list.set_intros(1) set_mset_mset)+
    with ne ys have "x \<in> set ys'" "y \<in> set xs" by auto
    with Cons.prems(1,2) ys assms(1) [of x y] show False by auto
  qed
  with Cons ys show ?case by simp
qed simp

locale keyset_list =
  fixes lt :: "'a \<Rightarrow> 'a \<Rightarrow> bool" and after :: "'c \<Rightarrow> 'a \<Rightarrow> bool" and cursor_of :: "'a \<Rightarrow> 'c" and order :: "'a list \<Rightarrow> 'a list" and ident :: "'a \<Rightarrow> 'i"
  assumes after_cursor: "after (cursor_of a) b = lt a b"
    and lt_asym: "lt a b \<Longrightarrow> \<not> lt b a"
    and lt_trans: "lt a b \<Longrightarrow> lt b c \<Longrightarrow> lt a c"
    and order_mset: "mset (order xs) = mset xs"
    and order_sorted: "distinct (map ident xs) \<Longrightarrow> sorted_wrt lt (order xs)"
begin

lemma order_filter:
  assumes "distinct (map ident rows)" "order rows = pre @ [a] @ rest"
  shows "order (filter (after (cursor_of a)) rows) = rest"
proof (rule sorted_wrt_unique [of lt])
  have sorted: "sorted_wrt lt (pre @ [a] @ rest)" using order_sorted [OF assms(1)] assms(2) by simp
  then show "sorted_wrt lt rest" by (simp add: sorted_wrt_append)
  show "sorted_wrt lt (order (filter (after (cursor_of a)) rows))"
    by (rule order_sorted) (use assms(1) in \<open>simp add: distinct_map_filter\<close>)
  have "filter (lt a) (pre @ [a] @ rest) = rest"
  proof -
    have "filter (lt a) pre = []" "\<not> lt a a" using sorted lt_asym by (auto simp: sorted_wrt_append filter_empty_conv)
    moreover have "filter (lt a) rest = rest" using sorted by (auto simp: sorted_wrt_append filter_id_conv)
    ultimately show ?thesis by simp
  qed
  then have "mset (filter (lt a) rows) = mset rest" using order_mset [of rows] assms(2) by (metis mset_filter)
  moreover have "after (cursor_of a) = lt a" using after_cursor by blast
  ultimately show "mset (order (filter (after (cursor_of a)) rows)) = mset rest" by (simp add: order_mset)
qed (rule lt_asym)

lemma follow_from:
  assumes d: "distinct (map ident rows)" and limit: "0 < limit"
  shows "order rows = pre @ rest \<Longrightarrow> (case cursor of None \<Rightarrow> pre = [] | Some c \<Rightarrow> pre \<noteq> [] \<and> c = cursor_of (last pre)) \<Longrightarrow> length rest < n \<Longrightarrow>
    concat (follow (\<lambda>c. keyset_page after cursor_of order c limit rows) n cursor) = rest"
proof (induction n arbitrary: pre rest cursor)
  case (Suc n)
  have found: "order (filter (\<lambda>r. case cursor of None \<Rightarrow> True | Some c \<Rightarrow> after c r) rows) = rest"
  proof (cases cursor)
    case None
    with Suc.prems show ?thesis by simp
  next
    case (Some c)
    with Suc.prems have pre: "pre \<noteq> []" "c = cursor_of (last pre)" by simp_all
    then have "order rows = butlast pre @ [last pre] @ rest" using Suc.prems(1) by simp
    from order_filter [OF d this] pre Some show ?thesis by simp
  qed
  let ?shown = "take limit rest"
  have page: "keyset_page after cursor_of order cursor limit rows =
      (?shown, if length rest > limit then Some (cursor_of (last ?shown)) else None)"
    unfolding keyset_page_def found using limit by (auto simp: Let_def min_def)
  show ?case
  proof (cases "length rest > limit")
    case False
    with page show ?thesis by simp
  next
    case True
    have "concat (follow (\<lambda>c. keyset_page after cursor_of order c limit rows) n (Some (cursor_of (last ?shown)))) = drop limit rest"
    proof (rule Suc.IH [of "pre @ ?shown"])
      show "order rows = (pre @ ?shown) @ drop limit rest" using Suc.prems(1) by simp
      have "?shown \<noteq> []" using True limit by auto
      then show "case Some (cursor_of (last ?shown)) of None \<Rightarrow> pre @ ?shown = [] | Some c \<Rightarrow> pre @ ?shown \<noteq> [] \<and> c = cursor_of (last (pre @ ?shown))"
        by simp
      show "length (drop limit rest) < n" using Suc.prems(3) limit True by simp
    qed
    with True page show ?thesis by simp
  qed
qed simp

lemma pages_list_everything:
  assumes "distinct (map ident rows)" "0 < limit" "length rows < n"
  shows "concat (follow (\<lambda>c. keyset_page after cursor_of order c limit rows) n None) = order rows"
proof -
  have "length (order rows) = length rows" using order_mset [of rows] by (metis size_mset)
  with follow_from [OF assms(1,2), of "[]" "order rows" None n] assms(3) show ?thesis by simp
qed

end

end
