(* ===== verification/Chats.thy ===== *)
theory Chats
  imports ChatStore Keyset "HOL-Library.Product_Lexorder"
begin

text \<open>
  The list of conversations and what a user sees of one (\<^verbatim>\<open>chats/cursor.py\<close>, \<^verbatim>\<open>chats/repository.py\<close>,
  \<^verbatim>\<open>chats/service.py\<close>). The table of sessions is read in the order of identifiers, of which the last given
  out is known. The time stamp of a step, which only these views read, is an argument
  (\<open>created\<close>), as are \<open>datetime.fromisoformat\<close> and \<open>repr\<close>. Stored payloads carry a list under
  \<open>content\<close> whose text blocks hold strings; anything else is read as no text.
\<close>

subsection \<open>Cursor\<close>

record chat_cursor =
  cc_is_pinned :: bool
  cc_updated_at :: int
  cc_id :: uuid

definition chat_cursor_encode :: "chat_cursor \<Rightarrow> string" where
  "chat_cursor_encode c =
     urlsafe_b64encode ((if cc_is_pinned c then ''1'' else ''0'') @ ''|'' @ isoformat (utc (cc_updated_at c)) @ ''|'' @ uuid_str (cc_id c))"

text \<open>\<open>raw.split("|", n)\<close> as a list of at most \<open>n + 1\<close> parts.\<close>

fun split_max :: "nat \<Rightarrow> string \<Rightarrow> string list" where
  "split_max 0 s = [s]"
| "split_max (Suc n) s =
     (case dropWhile (\<lambda>c. c \<noteq> CHR ''|'') s of
        [] \<Rightarrow> [s]
      | _ # rest \<Rightarrow> takeWhile (\<lambda>c. c \<noteq> CHR ''|'') s # split_max n rest)"

definition chat_cursor_decode :: "(string \<Rightarrow> datetime option) \<Rightarrow> string \<Rightarrow> chat_cursor option" where
  "chat_cursor_decode fromiso v =
     (case urlsafe_b64decode v of
        None \<Rightarrow> None
      | Some raw \<Rightarrow>
          if \<not> utf8_ok raw then None
          else (case split_max 2 raw of
             [pinned, updated, i] \<Rightarrow>
               (case (fromiso updated, PyBase64.py_int pinned, uuid_parse i) of
                  (Some u, Some p, Some n) \<Rightarrow> Some \<lparr>cc_is_pinned = (p \<noteq> 0), cc_updated_at = dt_instant u, cc_id = n\<rparr>
                | _ \<Rightarrow> None)
           | _ \<Rightarrow> None))"

subsection \<open>Pages\<close>

type_synonym chat_row = "uuid \<times> chat_session"

definition session_rows :: "db \<Rightarrow> chat_row list" where
  "session_rows d = List.map_filter (\<lambda>i. map_option (Pair i) (chat_sessions d i)) [0..<next_id d]"

definition ilike :: "string \<Rightarrow> string \<Rightarrow> bool" where
  "ilike t pattern = like_match (lower pattern) (lower t)"

definition first_block_text :: "dict \<Rightarrow> string option" where
  "first_block_text payload =
     (case map_of payload ''content'' of
        Some (JList (JObj b # _)) \<Rightarrow> (case map_of b ''text'' of Some (JStr t) \<Rightarrow> Some t | _ \<Rightarrow> None)
      | _ \<Rightarrow> None)"

definition chat_matches :: "db \<Rightarrow> uuid \<Rightarrow> string option \<Rightarrow> uuid option \<Rightarrow> chat_row \<Rightarrow> bool" where
  "chat_matches d uid query ws r \<longleftrightarrow>
     ses_user (snd r) = uid \<and>
     (case ws of None \<Rightarrow> True | Some w \<Rightarrow> ses_workspace (snd r) = Some w) \<and>
     (case nonempty query of
        None \<Rightarrow> True
      | Some q \<Rightarrow>
          let like = ''%'' @ q @ ''%'' in
          (case ses_title (snd r) of Some t \<Rightarrow> ilike t like | None \<Rightarrow> False) \<or>
          list_ex (\<lambda>st. st_session st = fst r \<and> st_role st = ''user'' \<and>
             (case first_block_text (st_payload st) of Some t \<Rightarrow> ilike t like | None \<Rightarrow> False)) (chat_steps d))"

definition pinned_ord :: "bool \<Rightarrow> int" where
  "pinned_ord b = (if b then 1 else 0)"

definition chat_after :: "chat_cursor \<Rightarrow> chat_row \<Rightarrow> bool" where
  "chat_after c r \<longleftrightarrow>
     pinned_ord (ses_pinned (snd r)) < pinned_ord (cc_is_pinned c) \<or>
     pinned_ord (ses_pinned (snd r)) = pinned_ord (cc_is_pinned c) \<and> ses_updated_at (snd r) < cc_updated_at c \<or>
     pinned_ord (ses_pinned (snd r)) = pinned_ord (cc_is_pinned c) \<and> ses_updated_at (snd r) = cc_updated_at c \<and> fst r < cc_id c"

definition chat_key :: "chat_row \<Rightarrow> int \<times> int \<times> uuid" where
  "chat_key r = (pinned_ord (ses_pinned (snd r)), ses_updated_at (snd r), fst r)"

definition chat_order :: "chat_row list \<Rightarrow> chat_row list" where
  "chat_order rows = rev (sort_key chat_key rows)"

definition chat_cursor_of :: "chat_row \<Rightarrow> chat_cursor" where
  "chat_cursor_of r = \<lparr>cc_is_pinned = ses_pinned (snd r), cc_updated_at = ses_updated_at (snd r), cc_id = fst r\<rparr>"

definition in_time_order :: "(uuid \<Rightarrow> int) \<Rightarrow> chat_step list \<Rightarrow> chat_step list" where
  "in_time_order created sts = sort_key (\<lambda>st. (created (st_id st), st_id st)) sts"

definition block_texts :: "(json \<Rightarrow> string) \<Rightarrow> dict \<Rightarrow> string list" where
  "block_texts rep payload =
     (case map_of payload ''content'' of
        Some (JList bs) \<Rightarrow>
          concat (map (\<lambda>b. case b of
             JObj d \<Rightarrow> if dict_get d ''type'' = JStr ''text''
                       then [case map_of d ''text'' of Some v \<Rightarrow> py_str rep v | None \<Rightarrow> []] else []
           | _ \<Rightarrow> []) bs)
      | _ \<Rightarrow> [])"

definition joined_text :: "(json \<Rightarrow> string) \<Rightarrow> dict \<Rightarrow> string" where
  "joined_text rep payload = join_with '' '' (filter (\<lambda>p. p \<noteq> []) (block_texts rep payload))"

definition text_from_payload :: "(json \<Rightarrow> string) \<Rightarrow> dict \<Rightarrow> string" where
  "text_from_payload rep payload = strip (joined_text rep payload)"

definition truncate_text :: "nat \<Rightarrow> string \<Rightarrow> string" where
  "truncate_text limit v = text_take limit (join_with '' '' (words_of v))"

definition PREVIEW_MAX_CHARS :: nat where
  "PREVIEW_MAX_CHARS = 160"

definition preview :: "(uuid \<Rightarrow> int) \<Rightarrow> (json \<Rightarrow> string) \<Rightarrow> uuid \<Rightarrow> db \<Rightarrow> string option" where
  "preview created rep sid d =
     (case rev (in_time_order created (filter (\<lambda>st. st_role st \<in> {''user'', ''assistant''}) (list_steps sid d))) of
        [] \<Rightarrow> None
      | st # _ \<Rightarrow>
          let raw = text_from_payload rep (st_payload st);
              t = (if st_role st = ''user'' \<and> raw \<noteq> [] then strip_context_block raw else raw)
          in if t \<noteq> [] then Some (truncate_text PREVIEW_MAX_CHARS t) else None)"

definition list_chats :: "(uuid \<Rightarrow> int) \<Rightarrow> (json \<Rightarrow> string) \<Rightarrow> uuid \<Rightarrow> string option \<Rightarrow> chat_cursor option \<Rightarrow> nat \<Rightarrow> uuid option \<Rightarrow> db \<Rightarrow>
    (chat_row \<times> string option) list \<times> string option" where
  "list_chats created rep uid query cursor limit ws d =
     (case keyset_page chat_after chat_cursor_of chat_order cursor limit (filter (chat_matches d uid query ws) (session_rows d)) of
        (shown, next_cursor) \<Rightarrow> (map (\<lambda>r. (r, preview created rep (fst r) d)) shown, map_option chat_cursor_encode next_cursor))"

definition list_chats_view :: "(string \<Rightarrow> datetime option) \<Rightarrow> (uuid \<Rightarrow> int) \<Rightarrow> (json \<Rightarrow> string) \<Rightarrow> uuid \<Rightarrow> string option \<Rightarrow> string option \<Rightarrow> nat \<Rightarrow>
    uuid option \<Rightarrow> ((chat_row \<times> string option) list \<times> string option) dbop" where
  "list_chats_view fromiso created rep uid query cursor limit ws =
     (case nonempty cursor of
        None \<Rightarrow> op_read (list_chats created rep uid query None limit ws)
      | Some v \<Rightarrow>
          (case chat_cursor_decode fromiso v of
             None \<Rightarrow> raise_app ValidationFailedError ''invalid cursor''
           | Some c \<Rightarrow> op_read (list_chats created rep uid query (Some c) limit ws)))"

subsection \<open>History\<close>

definition chats_require_session :: "uuid \<Rightarrow> uuid \<Rightarrow> chat_session dbop" where
  "chats_require_session sid uid =
     op_bind (op_read (get_session sid uid)) (\<lambda>s. case s of None \<Rightarrow> raise_app NotFoundError ''chat not found'' | Some c \<Rightarrow> op_return c)"

text \<open>\<open>dict(rows)\<close>: of two rows with one provider identifier the later wins.\<close>

definition provider_id_to_domain_id :: "uuid \<Rightarrow> db \<Rightarrow> (string \<times> uuid) list" where
  "provider_id_to_domain_id sid d = rev (map (\<lambda>tc. (tc_provider_id tc, tc_id tc)) (filter (\<lambda>tc. tc_session tc = sid) (tool_calls d)))"

definition domain_id :: "(string \<times> uuid) list \<Rightarrow> json \<Rightarrow> uuid option" where
  "domain_id ids v = (case v of JStr p \<Rightarrow> map_of ids p | _ \<Rightarrow> None)"

definition normalize_tool_use_block :: "(string \<times> uuid) list \<Rightarrow> dict \<Rightarrow> dict" where
  "normalize_tool_use_block ids b =
     (let b1 = (case dict_get b ''name'' of
                  JStr n \<Rightarrow> (case to_domain_tool_name n of Some m \<Rightarrow> dict_set b ''name'' (JStr m) | None \<Rightarrow> b)
                | _ \<Rightarrow> b)
      in case domain_id ids (dict_get b ''id'') of Some i \<Rightarrow> dict_set b1 ''id'' (JStr (uuid_str i)) | None \<Rightarrow> b1)"

definition normalize_tool_result_block :: "(string \<times> uuid) list \<Rightarrow> dict \<Rightarrow> dict" where
  "normalize_tool_result_block ids b =
     (case domain_id ids (dict_get b ''tool_use_id'') of Some i \<Rightarrow> dict_set b ''tool_use_id'' (JStr (uuid_str i)) | None \<Rightarrow> b)"

fun strip_leading_context_block :: "(json \<Rightarrow> string) \<Rightarrow> json list \<Rightarrow> json list" where
  "strip_leading_context_block rep [] = []"
| "strip_leading_context_block rep (JObj b # bs) =
     (if dict_get b ''type'' = JStr ''text''
      then JObj (dict_set b ''text'' (JStr (strip_context_block (case map_of b ''text'' of Some v \<Rightarrow> py_str rep v | None \<Rightarrow> [])))) # bs
      else JObj b # strip_leading_context_block rep bs)"
| "strip_leading_context_block rep (x # bs) = x # strip_leading_context_block rep bs"

definition normalize_block :: "(string \<times> uuid) list \<Rightarrow> json \<Rightarrow> json" where
  "normalize_block ids b =
     (case b of
        JObj d \<Rightarrow>
          if dict_get d ''type'' = JStr ''tool_use'' then JObj (normalize_tool_use_block ids d)
          else if dict_get d ''type'' = JStr ''tool_result'' then JObj (normalize_tool_result_block ids d)
          else b
      | _ \<Rightarrow> b)"

definition normalize_payload :: "(json \<Rightarrow> string) \<Rightarrow> (string \<times> uuid) list \<Rightarrow> chat_step \<Rightarrow> dict" where
  "normalize_payload rep ids st =
     (let payload = filter (\<lambda>kv. fst kv \<noteq> ''providerToolUseId'') (st_payload st) in
      case map_of payload ''content'' of
        Some (JList content) \<Rightarrow>
          dict_set payload ''content''
            (JList (map (normalize_block ids) (if st_role st = ''user'' then strip_leading_context_block rep content else content)))
      | _ \<Rightarrow> payload)"

record chat_step_view =
  sv_id :: uuid
  sv_message_step_id :: uuid
  sv_role :: string
  sv_payload :: dict
  sv_usage :: "dict option"
  sv_created_at :: int

definition get_history :: "(uuid \<Rightarrow> int) \<Rightarrow> (json \<Rightarrow> string) \<Rightarrow> uuid \<Rightarrow> uuid \<Rightarrow> (chat_session \<times> chat_step_view list) dbop" where
  "get_history created rep sid uid =
     op_bind (chats_require_session sid uid) (\<lambda>c.
     op_read (\<lambda>d. (c, map (\<lambda>st. \<lparr>sv_id = st_id st, sv_message_step_id = st_turn st, sv_role = st_role st,
                                  sv_payload = normalize_payload rep (provider_id_to_domain_id sid d) st, sv_usage = st_usage st,
                                  sv_created_at = created (st_id st)\<rparr>)
                    (in_time_order created (list_steps sid d)))))"

subsection \<open>Steps of a turn\<close>

record steps_view_step =
  vs_kind :: string
  vs_tool_name :: json
  vs_summary :: string
  vs_created_at :: int

definition STEP_SUMMARY_MAX_CHARS :: nat where
  "STEP_SUMMARY_MAX_CHARS = 120"

definition text_summary :: "(json \<Rightarrow> string) \<Rightarrow> dict \<Rightarrow> string" where
  "text_summary rep payload = truncate_text STEP_SUMMARY_MAX_CHARS (joined_text rep payload)"

definition call_word :: string where
  "call_word = [CHR 0xD0, CHR 0xB2, CHR 0xD1, CHR 0x8B, CHR 0xD0, CHR 0xB7, CHR 0xD0, CHR 0xBE, CHR 0xD0, CHR 0xB2]"

definition result_word :: string where
  "result_word = [CHR 0xD1, CHR 0x80, CHR 0xD0, CHR 0xB5, CHR 0xD0, CHR 0xB7, CHR 0xD1, CHR 0x83, CHR 0xD0, CHR 0xBB, CHR 0xD1, CHR 0x8C,
     CHR 0xD1, CHR 0x82, CHR 0xD0, CHR 0xB0, CHR 0xD1, CHR 0x82]"

definition tool_word :: string where
  "tool_word = [CHR 0xD0, CHR 0xB8, CHR 0xD0, CHR 0xBD, CHR 0xD1, CHR 0x81, CHR 0xD1, CHR 0x82, CHR 0xD1, CHR 0x80, CHR 0xD1, CHR 0x83,
     CHR 0xD0, CHR 0xBC, CHR 0xD0, CHR 0xB5, CHR 0xD0, CHR 0xBD, CHR 0xD1, CHR 0x82, CHR 0xD0, CHR 0xB0]"

definition is_tool_use :: "json \<Rightarrow> bool" where
  "is_tool_use b = (case b of JObj d \<Rightarrow> dict_get d ''type'' = JStr ''tool_use'' | _ \<Rightarrow> False)"

definition content_of :: "dict \<Rightarrow> json list" where
  "content_of payload = (case map_of payload ''content'' of Some (JList bs) \<Rightarrow> bs | _ \<Rightarrow> [])"

definition named_summary :: "string \<Rightarrow> (json \<Rightarrow> string) \<Rightarrow> json \<Rightarrow> string" where
  "named_summary word rep name = word @ '' '' @ (if truthy name then py_str rep name else tool_word)"

definition render_step :: "(uuid \<Rightarrow> int) \<Rightarrow> (json \<Rightarrow> string) \<Rightarrow> tool_call list \<Rightarrow> chat_step \<Rightarrow> steps_view_step list" where
  "render_step created rep calls st =
     (let stamp = created (st_id st); content = content_of (st_payload st) in
      if st_role st = ''assistant''
      then (let summary = text_summary rep (st_payload st) in
            (if summary \<noteq> []
             then [\<lparr>vs_kind = (if list_ex is_tool_use content then ''reasoning'' else ''assistant_message''), vs_tool_name = JNull,
                    vs_summary = summary, vs_created_at = stamp\<rparr>] else []) @
            concat (map (\<lambda>b. case b of
                JObj d \<Rightarrow>
                  if is_tool_use b
                  then let name = (case find (\<lambda>tc. tc_provider_id tc = py_str rep (dict_get d ''id'')) (rev calls) of
                                     Some tc \<Rightarrow> JStr (tc_name tc) | None \<Rightarrow> JNull)
                       in [\<lparr>vs_kind = ''tool_call'', vs_tool_name = name, vs_summary = named_summary call_word rep name, vs_created_at = stamp\<rparr>]
                  else []
              | _ \<Rightarrow> []) content))
      else if st_role st = ''tool''
      then (let own = dict_get (st_payload st) ''toolName'';
                name = (if own \<noteq> JNull then own
                        else if dict_get (st_payload st) ''toolCallId'' = JNull then JNull
                        else (case uuid_parse (py_str rep (dict_get (st_payload st) ''toolCallId'')) of
                                None \<Rightarrow> JNull
                              | Some i \<Rightarrow> (case find (\<lambda>tc. tc_id tc = i) calls of Some tc \<Rightarrow> JStr (tc_name tc) | None \<Rightarrow> JNull)))
            in [\<lparr>vs_kind = ''tool_result'', vs_tool_name = name, vs_summary = named_summary result_word rep name, vs_created_at = stamp\<rparr>])
      else [])"

definition latest_message_step_id :: "(uuid \<Rightarrow> int) \<Rightarrow> uuid \<Rightarrow> db \<Rightarrow> uuid option" where
  "latest_message_step_id created sid d =
     (case rev (in_time_order created (list_steps sid d)) of [] \<Rightarrow> None | st # _ \<Rightarrow> Some (st_turn st))"

definition steps_view :: "(uuid \<Rightarrow> int) \<Rightarrow> (json \<Rightarrow> string) \<Rightarrow> uuid \<Rightarrow> uuid \<Rightarrow> uuid option \<Rightarrow> (uuid \<times> steps_view_step list) dbop" where
  "steps_view created rep sid uid turn =
     op_bind (chats_require_session sid uid) (\<lambda>_.
     op_bind (op_read (\<lambda>d. case turn of Some t \<Rightarrow> Some t | None \<Rightarrow> latest_message_step_id created sid d)) (\<lambda>target.
     case target of
       None \<Rightarrow> raise_app NotFoundError ''no steps for chat''
     | Some t \<Rightarrow>
         op_bind (op_read (\<lambda>d. in_time_order created (filter (\<lambda>st. st_turn st = t) (list_steps sid d)))) (\<lambda>steps.
         if steps = [] then raise_app NotFoundError ''message step not found''
         else op_read (\<lambda>d. (t, concat (map (render_step created rep (list_tool_calls_for_step sid t d)) steps))))))"

subsection \<open>Changes\<close>

definition update_metadata :: "int \<Rightarrow> uuid \<Rightarrow> chat_session \<Rightarrow> string option option \<Rightarrow> bool option \<Rightarrow> uuid option option \<Rightarrow> chat_session dbop" where
  "update_metadata now sid c title pinned ws =
     (let c' = c\<lparr>ses_title := (case title of Some t \<Rightarrow> t | None \<Rightarrow> ses_title c),
                 ses_pinned := (case pinned of Some b \<Rightarrow> b | None \<Rightarrow> ses_pinned c),
                 ses_workspace := (case ws of Some w \<Rightarrow> w | None \<Rightarrow> ses_workspace c), ses_updated_at := now\<rparr>
      in op_bind (op_modify (\<lambda>d. d\<lparr>chat_sessions := (chat_sessions d)(sid \<mapsto> c')\<rparr>)) (\<lambda>_. op_return c'))"

definition rename_or_pin :: "int \<Rightarrow> uuid \<Rightarrow> uuid \<Rightarrow> string option option \<Rightarrow> bool option \<Rightarrow> uuid option option \<Rightarrow> chat_session dbop" where
  "rename_or_pin now sid uid title pinned ws =
     op_bind (chats_require_session sid uid) (\<lambda>c.
     op_bind (op_read (\<lambda>d. case ws of Some (Some w) \<Rightarrow> owns_workspace w uid d | _ \<Rightarrow> True)) (\<lambda>owned.
     if \<not> owned then raise_app WorkspaceNotFoundError ''workspace not found''
     else update_metadata now sid c title pinned ws))"

text \<open>Steps and tool calls go with the session; audit rows lose their reference to it.\<close>

definition delete_session :: "uuid \<Rightarrow> uuid \<Rightarrow> bool dbop" where
  "delete_session sid uid = (\<lambda>d.
     if get_session sid uid d = None then (Inr False, d)
     else (Inr True, d\<lparr>chat_sessions := (chat_sessions d)(sid := None),
                       chat_steps := filter (\<lambda>st. st_session st \<noteq> sid) (chat_steps d),
                       tool_calls := filter (\<lambda>tc. tc_session tc \<noteq> sid) (tool_calls d),
                       audit_logs := map (\<lambda>a. if audit_session a = Some sid then a\<lparr>audit_session := None\<rparr> else a) (audit_logs d)\<rparr>))"

definition delete_chat :: "uuid \<Rightarrow> uuid \<Rightarrow> unit dbop" where
  "delete_chat sid uid = op_bind (delete_session sid uid) (\<lambda>deleted. if deleted then op_return () else raise_app NotFoundError ''chat not found'')"

end
