(* ===== verification/ChatsFacts.thy ===== *)
theory ChatsFacts
  imports Chats
begin

text \<open>
  Facts of the views on conversations: the cursor of a page decodes to itself, the order of chats satisfies
  the contract of pages by key, the settings block in front of a message is recognised.
\<close>

subsection \<open>Identifiers\<close>

lemma hex_value_digit [simp]: "hex_value (hex_digit n) = Some (n mod 16)"
proof -
  have "\<forall>k \<in> set [0..<16]. hex_value (''0123456789abcdef'' ! k) = Some k" by code_simp
  then show ?thesis by (simp add: hex_digit_def)
qed

lemma hex_digit_plain:
  "(of_char (hex_digit n) :: nat) < 128" "\<not> is_space (hex_digit n)"
  "hex_digit n \<notin> set ''_+-xX{}:|''"
proof -
  have "\<forall>k \<in> set [0..<16]. let c = ''0123456789abcdef'' ! k in
      (of_char c :: nat) < 128 \<and> \<not> is_space c \<and> c \<notin> set ''_+-xX{}:|''" by code_simp
  then show "(of_char (hex_digit n) :: nat) < 128" "\<not> is_space (hex_digit n)" "hex_digit n \<notin> set ''_+-xX{}:|''"
    unfolding hex_digit_def Let_def by force+
qed

lemma hex_digits_plain:
  "c \<in> set (hex_digits k n) \<Longrightarrow> (of_char c :: nat) < 128 \<and> \<not> is_space c \<and> c \<notin> set ''_+-xX{}:|''"
  by (induction k arbitrary: n) (use hex_digit_plain in auto)

lemma hex_number_digits:
  "hex_number acc True (hex_digits k n @ s) = hex_number (16 ^ k * acc + n mod 16 ^ k) True s"
proof (induction k arbitrary: n s)
  case (Suc k)
  have ne: "hex_digit n \<noteq> CHR ''_''" using hex_digit_plain(3) [of n] by simp
  have "16 * (16 ^ k * acc + n div 16 mod 16 ^ k) + n mod 16 = 16 ^ Suc k * acc + n mod 16 ^ Suc k"
    by (simp add: mod_mult2_eq)
  then show ?case by (simp add: Suc.IH ne add.assoc mult.assoc)
qed simp

lemma hex_digits_head: "\<exists>a u. hex_digits (Suc k) n = hex_digit a # u"
proof (induction k arbitrary: n)
  case (Suc k)
  then obtain a u where "hex_digits (Suc k) (n div 16) = hex_digit a # u" by blast
  then show ?case by (simp only: hex_digits.simps(2) [of "Suc k"] append_Cons) blast
qed auto

lemma strip_chars_plain: "(\<And>c. c \<in> set s \<Longrightarrow> \<not> p c) \<Longrightarrow> strip_chars p s = s"
proof -
  assume h: "\<And>c. c \<in> set s \<Longrightarrow> \<not> p c"
  have "dropWhile p s = s" by (cases s) (use h in auto)
  moreover have "dropWhile p (rev s) = rev s" by (cases "rev s") (use h in \<open>auto simp: dropWhile_eq_self_iff\<close>)
  ultimately show ?thesis by (simp add: strip_chars_def)
qed

lemma remove_sub_absent: "CHR '':'' \<notin> set s \<Longrightarrow> CHR '':'' \<in> set p \<Longrightarrow> remove_sub p s = s"
proof (induction s)
  case (Cons c s)
  then have "\<not> prefix p (c # s)" by (metis set_mono_prefix subsetD)
  with Cons show ?case by (simp add: remove_sub.simps [of p "c # s"])
qed (simp add: remove_sub.simps)

lemma uuid_str_chars: "c \<in> set (uuid_str n) \<Longrightarrow> c = CHR ''-'' \<or> c \<in> set (hex_digits 32 n)"
  by (auto simp: uuid_str_def Let_def dest: in_set_takeD in_set_dropD)

lemma filter_hex: "filter (\<lambda>c. c \<noteq> CHR ''-'') (uuid_str n) = hex_digits 32 n"
proof -
  define h where "h = hex_digits 32 n"
  have "filter (\<lambda>c. c \<noteq> CHR ''-'') h = h" using hex_digits_plain [of _ 32 n] by (auto simp: h_def filter_id_conv)
  then have all: "filter (\<lambda>c. c \<noteq> CHR ''-'') s = s" if "set s \<subseteq> set h" for s
    using that by (auto simp: filter_id_conv)
  have sub: "set (take a (drop b h)) \<subseteq> set h" "set (take a h) \<subseteq> set h" "set (drop b h) \<subseteq> set h" for a b
    by (auto dest: in_set_takeD in_set_dropD)
  have "take 8 h @ take 4 (drop 8 h) @ take 4 (drop 12 h) @ take 4 (drop 16 h) @ drop 20 h = h"
    using append_take_drop_id [of 8 h] append_take_drop_id [of 4 "drop 8 h"] append_take_drop_id [of 4 "drop 12 h"]
      append_take_drop_id [of 4 "drop 16 h"] by simp
  then show ?thesis by (simp add: uuid_str_def Let_def all sub flip: h_def)
qed

lemma uuid_roundtrip:
  assumes "n < 2 ^ 128"
  shows "uuid_parse (uuid_str n) = Some n"
proof -
  have colon: "CHR '':'' \<notin> set (uuid_str n)" and brace: "\<And>c. c \<in> set (uuid_str n) \<Longrightarrow> c \<notin> set ''{}''"
    using uuid_str_chars [of _ n] hex_digits_plain [of _ 32 n] by fastforce+
  have rm: "remove_sub ''uuid:'' (remove_sub ''urn:'' (uuid_str n)) = uuid_str n"
    using colon by (simp add: remove_sub_absent)
  have st: "strip_chars (\<lambda>c. c \<in> set ''{}'') (uuid_str n) = uuid_str n" by (rule strip_chars_plain) (rule brace)
  have parse: "uuid_parse (uuid_str n) = int16 (hex_digits 32 n)"
    unfolding uuid_parse_def Let_def rm st filter_hex by simp
  define h where "h = hex_digits 32 n"
  have plain: "\<And>c. c \<in> set h \<Longrightarrow> (of_char c :: nat) < 128 \<and> \<not> is_space c \<and> c \<notin> set ''_+-xX{}:|''" unfolding h_def by (rule hex_digits_plain)
  have st: "strip h = h" unfolding strip_def by (rule strip_chars_plain) (use plain in blast)
  obtain a u where hs: "h = hex_digit a # u" and num: "hex_number 0 True h = Some (n mod 16 ^ 32)"
  proof -
    have "hex_number 0 True h = Some (n mod 16 ^ 32)" using hex_number_digits [of 0 32 n "[]"] by (simp add: h_def)
    moreover obtain a u where "h = hex_digit a # u"
    proof -
      have "(32::nat) = Suc 31" by simp
      then show thesis using that hex_digits_head [of 31 n] unfolding h_def by metis
    qed
    ultimately show thesis using that by blast
  qed
  have "hex_digit a \<noteq> CHR ''+''" "hex_digit a \<noteq> CHR ''_''" using hex_digit_plain(3) [of a] by simp_all
  moreover have "\<not> prefix ''0x'' h" "\<not> prefix ''0X'' h" using plain [of "CHR ''x''"] plain [of "CHR ''X''"] by (auto simp: prefix_def)
  moreover have "(case h of c # cs \<Rightarrow> if c = CHR ''+'' then cs else h | [] \<Rightarrow> h) = h" using \<open>hex_digit a \<noteq> CHR ''+''\<close> by (simp add: hs)
  ultimately have "int16 h = hex_number 0 False h" unfolding int16_def Let_def st by (simp only: if_False disj_not1 simp_thms)
  also have "\<dots> = hex_number 0 True h" using \<open>hex_digit a \<noteq> CHR ''_''\<close> by (simp add: hs)
  finally show ?thesis using assms num parse by (simp add: h_def)
qed

subsection \<open>Cursors\<close>

lemma utf8_decode_ascii: "list_all (\<lambda>n. n < 128) bs \<Longrightarrow> utf8_decode bs = bs"
proof (induction bs)
  case (Cons b bs)
  then show ?case by (simp add: utf8_decode.simps [of "b # bs"])
qed (simp add: utf8_decode.simps)

lemma ascii_utf8_ok: "is_ascii s \<Longrightarrow> utf8_ok s"
proof -
  assume "is_ascii s"
  then have a: "list_all (\<lambda>n. n < 128) (codes s)" by (simp add: is_ascii_def codes_def list_all_iff)
  then show ?thesis by (auto simp: utf8_ok_def utf8_decode_ascii list_all_iff list_ex_iff)
qed

lemma urlsafe_roundtrip: "urlsafe_b64decode (urlsafe_b64encode s) = Some s"
proof -
  obtain ns p where sh: "b2a_base64 s = map b64_char ns @ replicate p (CHR ''='')" using b2a_shape by blast
  have "\<forall>k \<in> set [0..<64]. b64_alphabet ! k \<notin> {CHR ''-'', CHR ''_''}" by code_simp
  then have "b64_char n \<noteq> CHR ''-''" "b64_char n \<noteq> CHR ''_''" for n by (simp_all add: b64_char_def)
  then have "c \<noteq> CHR ''-'' \<and> c \<noteq> CHR ''_''" if "c \<in> set (b2a_base64 s)" for c using that unfolding sh by auto
  then have "map (\<lambda>c. if c = CHR ''-'' then CHR ''+'' else if c = CHR ''_'' then CHR ''/'' else c) (urlsafe_b64encode s) = b2a_base64 s"
    unfolding urlsafe_b64encode_def map_map by (intro map_idI) auto
  then show ?thesis by (simp only: urlsafe_b64decode_def b64_roundtrip)
qed

lemma split_first:
  assumes "CHR ''|'' \<notin> set a"
  shows "split_max (Suc n) (a @ CHR ''|'' # b) = a # split_max n b"
proof -
  have "dropWhile (\<lambda>c. c \<noteq> CHR ''|'') (a @ CHR ''|'' # b) = CHR ''|'' # b"
    "takeWhile (\<lambda>c. c \<noteq> CHR ''|'') (a @ CHR ''|'' # b) = a"
    using assms by (induction a) auto
  then show ?thesis by simp
qed

lemma digit_plain: "(of_char (digit n) :: nat) < 128" "digit n \<noteq> CHR ''|''"
proof -
  have "\<forall>k \<in> set [0..<10]. let c = ''0123456789'' ! k in (of_char c :: nat) < 128 \<and> c \<noteq> CHR ''|''" by code_simp
  then show "(of_char (digit n) :: nat) < 128" "digit n \<noteq> CHR ''|''" unfolding digit_def Let_def by force+
qed

lemma dec_pad_plain: "c \<in> set (dec_pad k n) \<Longrightarrow> (of_char c :: nat) < 128 \<and> c \<noteq> CHR ''|''"
proof (induction k n rule: dec_pad.induct)
  case (1 n)
  then show ?case by (cases "n = 0") (use digit_plain in \<open>auto simp: dec_pad.simps(1) [of n] dec_pad.simps(1) [of 0]\<close>)
qed (use digit_plain in auto)

lemma isoformat_plain: "c \<in> set (isoformat (utc t)) \<Longrightarrow> (of_char c :: nat) < 128 \<and> c \<noteq> CHR ''|''"
  by (auto simp: isoformat_def utc_def Let_def split: prod.splits if_splits dest!: dec_pad_plain)

lemma uuid_str_ascii: "c \<in> set (uuid_str n) \<Longrightarrow> (of_char c :: nat) < 128"
  by (drule uuid_str_chars) (auto dest: hex_digits_plain)

text \<open>A cursor decodes to itself, given that \<open>fromisoformat\<close> reads what \<open>isoformat\<close> writes.\<close>

lemma chat_cursor_roundtrip:
  assumes iso: "fromiso (isoformat (utc (cc_updated_at c))) = Some (utc (cc_updated_at c))" and wide: "cc_id c < 2 ^ 128"
  shows "chat_cursor_decode fromiso (chat_cursor_encode c) = Some c"
proof -
  let ?p = "if cc_is_pinned c then ''1'' else ''0''" and ?t = "isoformat (utc (cc_updated_at c))" and ?u = "uuid_str (cc_id c)"
  have bar: "CHR ''|'' \<notin> set ?p" "CHR ''|'' \<notin> set ?t" using isoformat_plain by auto
  have "split_max 2 (?p @ CHR ''|'' # (?t @ CHR ''|'' # ?u)) = [?p, ?t, ?u]"
    unfolding numeral_2_eq_2 by (simp only: split_first [OF bar(1)] split_first [OF bar(2)] split_max.simps(1))
  moreover have "is_ascii (?p @ CHR ''|'' # (?t @ CHR ''|'' # ?u))"
    using isoformat_plain uuid_str_ascii by (auto simp: is_ascii_def list_all_iff)
  moreover have instant: "dt_instant (utc k) = k" for k by (simp add: dt_instant_def utc_def)
  moreover have "PyBase64.py_int ?p = Some (if cc_is_pinned c then 1 else 0)"
  proof -
    have "PyBase64.py_int ''1'' = Some 1" "PyBase64.py_int ''0'' = Some 0" by code_simp+
    then show ?thesis by simp
  qed
  ultimately show ?thesis
    by (simp add: chat_cursor_decode_def chat_cursor_encode_def urlsafe_roundtrip ascii_utf8_ok iso uuid_roundtrip [OF wide] instant)
qed

subsection \<open>Order\<close>

lemma chat_key_inj: "distinct (map fst xs) \<Longrightarrow> distinct (map chat_key xs)"
  by (auto simp: distinct_map inj_on_def chat_key_def)

interpretation chats: keyset_list "\<lambda>a b. chat_key b < chat_key a" chat_after chat_cursor_of chat_order fst
proof
  fix a b
  show "chat_after (chat_cursor_of a) b \<longleftrightarrow> chat_key b < chat_key a"
    by (auto simp: chat_after_def chat_cursor_of_def chat_key_def less_prod_def')
next
  fix xs :: "chat_row list"
  assume "distinct (map fst xs)"
  then have "distinct (map chat_key (sort_key chat_key xs))" using chat_key_inj by (simp add: distinct_map)
  then have "sorted_wrt (<) (map chat_key (sort_key chat_key xs))" by (simp add: strict_sorted_iff)
  then show "sorted_wrt (\<lambda>a b. chat_key b < chat_key a) (chat_order xs)"
    by (simp add: chat_order_def sorted_wrt_rev sorted_wrt_map)
qed (auto simp: chat_order_def)

lemma session_rows_set: "(i, c) \<in> set (session_rows d) \<longleftrightarrow> i < next_id d \<and> chat_sessions d i = Some c"
  by (auto simp: session_rows_def List.map_filter_def image_iff)

lemma session_rows_distinct: "distinct (map fst (session_rows d))"
proof -
  have "map fst (session_rows d) = filter (\<lambda>i. chat_sessions d i \<noteq> None) [0..<next_id d]"
    unfolding session_rows_def List.map_filter_def map_map by (auto intro!: map_idI)
  then show ?thesis by simp
qed

subsection \<open>Settings block\<close>

lemma words_of_nonspace: "w \<in> set (words_of s) \<Longrightarrow> c \<in> set w \<Longrightarrow> \<not> is_space c"
proof (induction s rule: words_of.induct)
  case (1 s)
  define t where "t = dropWhile is_space s"
  have "words_of s = (if t = [] then [] else takeWhile (\<lambda>c. \<not> is_space c) t # words_of (dropWhile (\<lambda>c. \<not> is_space c) t))"
    unfolding t_def by (subst words_of.simps) (simp only: Let_def)
  with 1(2) consider "w = takeWhile (\<lambda>c. \<not> is_space c) t" | "t \<noteq> []" "w \<in> set (words_of (dropWhile (\<lambda>c. \<not> is_space c) t))"
    by (cases "t = []") auto
  then show ?case
  proof cases
    case 1
    with \<open>c \<in> set w\<close> set_takeWhileD [of c "\<lambda>c. \<not> is_space c" t] show ?thesis by simp
  next
    case 2
    from "1.IH" [OF t_def this \<open>c \<in> set w\<close>] show ?thesis .
  qed
qed

lemma join_with_chars: "c \<in> set (join_with sep xs) \<Longrightarrow> c \<in> set sep \<or> (\<exists>x \<in> set xs. c \<in> set x)"
  by (induction sep xs rule: join_with.induct) auto

lemma newline_space: "is_space (CHR 0x0A)"
  by code_simp

lemma context_value_one_line: "validated_context_value key raw = Some v \<Longrightarrow> CHR 0x0A \<notin> set v"
proof -
  assume v: "validated_context_value key raw = Some v"
  have enums: "\<forall>vs \<in> set (map snd CONTEXT_ENUMS). \<forall>x \<in> set vs. CHR 0x0A \<notin> set x" by code_simp
  have free: "CHR 0x0A \<notin> set (sanitize_context_value s)" for s
    using words_of_nonspace newline_space
    by (auto simp: sanitize_context_value_def dest!: join_with_chars)
  have loc: "CHR 0x0A \<notin> set CONTEXT_LOCALE_CHARS" by code_simp
  from v show ?thesis
    using enums free loc
    by (fastforce simp: validated_context_value_def Let_def nonempty_def list_ex_iff
        split: json.splits option.splits if_splits dest: map_of_SomeD)
qed

lemma context_parts_one_line: "p \<in> set (context_parts d) \<Longrightarrow> CHR 0x0A \<notin> set p"
proof -
  assume "p \<in> set (context_parts d)"
  then obtain key v where kv: "key \<in> set CONTEXT_KEY_ORDER" "p = key @ ''='' @ v" "CHR 0x0A \<notin> set v"
    by (auto simp: context_parts_def dest!: context_value_one_line [OF sym] split: option.splits)
  moreover have "\<forall>k \<in> set CONTEXT_KEY_ORDER. CHR 0x0A \<notin> set k" by code_simp
  ultimately show ?thesis by auto
qed

lemma strip_at_bracket:
  assumes "CHR '']'' \<notin> set pre"
  shows "strip_context_block (CONTEXT_PREFIX @ pre @ CHR '']'' # rest) =
    (if prefix blank_line rest then drop 2 rest else if rest = [] then [] else CONTEXT_PREFIX @ pre @ CHR '']'' # rest)"
proof -
  have "dropWhile (\<lambda>c. c \<noteq> CHR '']'') (pre @ CHR '']'' # rest) = CHR '']'' # rest" using assms by (induction pre) auto
  then show ?thesis by (simp add: strip_context_block_def)
qed

lemma bracketed_block_stays:
  assumes "CHR '']'' \<in> set body" "CHR 0x0A \<notin> set body"
  shows "strip_context_block (CONTEXT_PREFIX @ body @ CHR '']'' # tail) = CONTEXT_PREFIX @ body @ CHR '']'' # tail"
proof -
  obtain pre post where body: "body = pre @ CHR '']'' # post" "CHR '']'' \<notin> set pre" using split_list_first [OF assms(1)] by blast
  have "\<not> prefix blank_line (post @ CHR '']'' # tail)"
    using assms(2) body(1) by (cases post) (auto simp: blank_line_def)
  with strip_at_bracket [OF body(2), of "post @ CHR '']'' # tail"] show ?thesis by (simp add: body(1))
qed

end
