(* ===== verification/ChatsClaims.thy ===== *)
theory ChatsClaims
  imports ChatsFacts
begin

text \<open>
  What a user sees of the conversations: the pages of the list, and messages without the settings block
  the server puts in front of them.
\<close>

text \<open>What a client gets for a cursor; a request that fails gives nothing.\<close>

definition fetch_page :: "(string \<Rightarrow> datetime option) \<Rightarrow> (uuid \<Rightarrow> int) \<Rightarrow> (json \<Rightarrow> string) \<Rightarrow> uuid \<Rightarrow> string option \<Rightarrow> nat \<Rightarrow> uuid option \<Rightarrow> db \<Rightarrow>
    string option \<Rightarrow> (chat_row \<times> string option) list \<times> string option" where
  "fetch_page fromiso created rep uid query limit ws d cursor =
     (case fst (list_chats_view fromiso created rep uid query cursor limit ws d) of Inr p \<Rightarrow> p | Inl _ \<Rightarrow> ([], None))"

definition page_cursor :: "chat_row list \<Rightarrow> chat_cursor option \<Rightarrow> bool" where
  "page_cursor rows c = (case c of None \<Rightarrow> True | Some k \<Rightarrow> k \<in> set (map chat_cursor_of rows))"

lemma page_cursor_next: "page_cursor rows (snd (keyset_page chat_after chat_cursor_of chat_order cursor limit rows))"
proof -
  let ?found = "take (limit + 1) (chat_order (filter (\<lambda>r. case cursor of None \<Rightarrow> True | Some c \<Rightarrow> chat_after c r) rows))"
  have "last (take limit ?found) \<in> set rows" if "take limit ?found \<noteq> []"
    using last_in_set [OF that] by (auto simp: chat_order_def dest!: in_set_takeD)
  then show ?thesis by (auto simp: page_cursor_def keyset_page_def Let_def)
qed

lemma fetch_page_step:
  assumes iso: "\<And>i c. chat_sessions d i = Some c \<Longrightarrow> fromiso (isoformat (utc (ses_updated_at c))) = Some (utc (ses_updated_at c))"
    and wide: "next_id d \<le> 2 ^ 128" and c: "page_cursor (filter (chat_matches d uid query ws) (session_rows d)) c"
  shows "fetch_page fromiso created rep uid query limit ws d (map_option chat_cursor_encode c) =
    map_prod (map (\<lambda>r. (r, preview created rep (fst r) d))) (map_option chat_cursor_encode)
      (keyset_page chat_after chat_cursor_of chat_order c limit (filter (chat_matches d uid query ws) (session_rows d)))"
proof (cases c)
  case None
  then show ?thesis
    by (simp add: fetch_page_def list_chats_view_def list_chats_def nonempty_def op_read_def split_beta map_prod_def)
next
  case (Some k)
  with c obtain i ses where "k = chat_cursor_of (i, ses)" "i < next_id d" "chat_sessions d i = Some ses"
    by (auto simp: page_cursor_def session_rows_set)
  then have dec: "chat_cursor_decode fromiso (chat_cursor_encode k) = Some k"
    using wide by (intro chat_cursor_roundtrip) (simp_all add: chat_cursor_of_def iso)
  have "chat_cursor_encode k \<noteq> []"
  proof
    assume "chat_cursor_encode k = []"
    moreover have "chat_cursor_decode fromiso [] = None"
      by (simp add: chat_cursor_decode_def urlsafe_b64decode_def b64decode_def is_ascii_def numeral_2_eq_2)
    ultimately show False using dec by simp
  qed
  then have "nonempty (Some (chat_cursor_encode k)) = Some (chat_cursor_encode k)" by (simp add: nonempty_def)
  with Some dec show ?thesis
    by (simp add: fetch_page_def list_chats_view_def list_chats_def op_read_def split_beta map_prod_def)
qed

text \<open>
  Claim C38. A client that starts without a cursor and follows the cursor of every answer gets each chat of
  the user that matches the search and the project exactly once, pinned chats first, then the most recently
  changed, with its preview, whatever the size of the pages and however many chats changed at the same time;
  every cursor the server hands out is accepted. The hypotheses are that \<open>fromisoformat\<close> reads what
  \<open>isoformat\<close> writes, and that identifiers are 128 bits wide.
\<close>

theorem chat_pages_list_each_chat_once:
  assumes "\<forall>i c. chat_sessions d i = Some c \<longrightarrow> fromiso (isoformat (utc (ses_updated_at c))) = Some (utc (ses_updated_at c))"
    and "next_id d \<le> 2 ^ 128" and "0 < limit" and "next_id d < n"
  shows "let shown = concat (follow (fetch_page fromiso created rep uid query limit ws d) n None)
    in set shown = {((i, c), preview created rep i d) | i c. i < next_id d \<and> chat_sessions d i = Some c \<and> chat_matches d uid query ws (i, c)}
      \<and> distinct (map (\<lambda>r. fst (fst r)) shown)
      \<and> sorted_wrt (\<lambda>a b. chat_key (fst b) < chat_key (fst a)) shown"
proof -
  define rows where "rows = filter (chat_matches d uid query ws) (session_rows d)"
  define view where "view = (\<lambda>r :: chat_row. (r, preview created rep (fst r) d))"
  have dist: "distinct (map fst rows)" unfolding rows_def using session_rows_distinct distinct_map_filter by blast
  have "length (map fst rows) \<le> next_id d"
  proof -
    have "set (map fst rows) \<subseteq> {..<next_id d}" by (auto simp: rows_def session_rows_set)
    then have "card (set (map fst rows)) \<le> next_id d" by (metis card_lessThan card_mono finite_lessThan)
    then show ?thesis using distinct_card [OF dist] by simp
  qed
  then have "length rows < n" using assms(4) by simp
  have "follow (fetch_page fromiso created rep uid query limit ws d) n (map_option chat_cursor_encode None) =
      map (map view) (follow (\<lambda>c. keyset_page chat_after chat_cursor_of chat_order c limit rows) n None)"
  proof (rule follow_encoded [where ok = "page_cursor rows"])
    show "page_cursor rows None" by (simp add: page_cursor_def)
    fix c
    assume "page_cursor rows c"
    then show "fetch_page fromiso created rep uid query limit ws d (map_option chat_cursor_encode c) =
        map_prod (map view) (map_option chat_cursor_encode) (keyset_page chat_after chat_cursor_of chat_order c limit rows)
      \<and> page_cursor rows (snd (keyset_page chat_after chat_cursor_of chat_order c limit rows))"
      unfolding rows_def view_def using fetch_page_step page_cursor_next assms(1,2) by blast
  qed
  then have "concat (follow (fetch_page fromiso created rep uid query limit ws d) n None) =
      map view (concat (follow (\<lambda>c. keyset_page chat_after chat_cursor_of chat_order c limit rows) n None))"
    by (simp add: map_concat)
  also have "\<dots> = map view (chat_order rows)" using chats.pages_list_everything [OF dist assms(3) \<open>length rows < n\<close>] by simp
  finally have shown: "concat (follow (fetch_page fromiso created rep uid query limit ws d) n None) = map view (chat_order rows)" .
  have "sorted_wrt (\<lambda>a b. chat_key (fst b) < chat_key (fst a)) (map view (chat_order rows))"
    using chats.order_sorted [OF dist] by (simp add: sorted_wrt_map view_def)
  moreover have "set (map view (chat_order rows)) =
      {((i, c), preview created rep i d) | i c. i < next_id d \<and> chat_sessions d i = Some c \<and> chat_matches d uid query ws (i, c)}"
    by (auto simp: chat_order_def rows_def view_def session_rows_set image_iff)
  moreover have "distinct (map (\<lambda>r. fst (fst r)) (map view (chat_order rows)))"
  proof -
    have "map (\<lambda>r. fst (fst r)) (map view (chat_order rows)) = map fst (chat_order rows)" by (simp add: view_def)
    moreover have "mset (map fst (chat_order rows)) = mset (map fst rows)" by (simp add: chat_order_def)
    ultimately show ?thesis using dist by (metis mset_eq_imp_distinct_iff)
  qed
  ultimately show ?thesis unfolding shown Let_def by blast
qed

definition pages_db :: db where
  "pages_db = empty_db\<lparr>next_id := 3, chat_sessions := [1 \<mapsto> \<lparr>ses_user = 0, ses_project_id = None, ses_mode = ''credits'', ses_model = None, ses_title = None,
     ses_assistant_mode = ''chat'', ses_workspace = None, ses_pinned = False, ses_created_at = 0, ses_updated_at = 5\<rparr>,
     2 \<mapsto> \<lparr>ses_user = 0, ses_project_id = None, ses_mode = ''credits'', ses_model = None, ses_title = None,
     ses_assistant_mode = ''chat'', ses_workspace = None, ses_pinned = False, ses_created_at = 0, ses_updated_at = 5\<rparr>]\<rparr>"

definition read_five :: "string \<Rightarrow> datetime option" where
  "read_five s = (if s = isoformat (utc 5) then Some (utc 5) else None)"

lemma chat_pages_list_each_chat_once_witness:
  "let shown = concat (follow (fetch_page read_five (\<lambda>_. 0) (\<lambda>_. []) 0 None 1 None pages_db) 4 None)
    in set shown = {((i, c), preview (\<lambda>_. 0) (\<lambda>_. []) i pages_db) | i c. i < next_id pages_db \<and> chat_sessions pages_db i = Some c \<and>
         chat_matches pages_db 0 None None (i, c)}
      \<and> distinct (map (\<lambda>r. fst (fst r)) shown)
      \<and> sorted_wrt (\<lambda>a b. chat_key (fst b) < chat_key (fst a)) shown"
proof (rule chat_pages_list_each_chat_once)
  show "\<forall>i c. chat_sessions pages_db i = Some c \<longrightarrow> read_five (isoformat (utc (ses_updated_at c))) = Some (utc (ses_updated_at c))"
    by (simp add: pages_db_def read_five_def)
qed (simp_all add: pages_db_def)

text \<open>
  Claim C39. In front of a message sent with settings the server puts a block that the views of the user
  take off again. What remains is the message, empty for a blank one, unless a setting holds a closing
  bracket: then the text is shown with its block.
\<close>

theorem settings_block_is_removed:
  assumes "render_context_block context = Some block"
  shows "strip_context_block (compose_turn0_text (Some block) msg) =
    (if CHR '']'' \<in> set (butlast block) then compose_turn0_text (Some block) msg
     else if strip msg = [] then [] else msg)"
proof -
  obtain d where d: "block = CONTEXT_PREFIX @ join_with ''; '' (context_parts d) @ '']''"
    using assms by (auto simp: render_context_block_def split: option.splits if_splits)
  define body where "body = join_with ''; '' (context_parts d)"
  have line: "CHR 0x0A \<notin> set body" using context_parts_one_line by (auto simp: body_def dest!: join_with_chars)
  have "butlast block = CONTEXT_PREFIX @ body" by (simp add: d body_def butlast_append)
  moreover have "CHR '']'' \<notin> set CONTEXT_PREFIX" by code_simp
  ultimately have inside: "CHR '']'' \<in> set (butlast block) \<longleftrightarrow> CHR '']'' \<in> set body" by simp
  obtain rest where composed: "compose_turn0_text (Some block) msg = CONTEXT_PREFIX @ body @ CHR '']'' # rest"
    and rest: "rest = (if strip msg = [] then [] else blank_line @ msg)"
    by (simp add: compose_turn0_text_def d body_def)
  show ?thesis
  proof (cases "CHR '']'' \<in> set body")
    case True
    then show ?thesis by (simp add: composed inside bracketed_block_stays line)
  next
    case False
    then show ?thesis unfolding composed inside strip_at_bracket [OF False] rest by (simp add: blank_line_def)
  qed
qed

lemma settings_block_is_removed_witness:
  "strip_context_block (compose_turn0_text (Some ''[Conversation settings for this message: tone=dry]'') ''hello'') = ''hello''"
proof -
  have "render_context_block (Some [(''tone'', JStr ''dry'')]) = Some ''[Conversation settings for this message: tone=dry]''" by code_simp
  from settings_block_is_removed [OF this, of "''hello''"] show ?thesis by (simp add: strip_def strip_chars_def is_space_def)
qed

end
