(* ===== verification/AttachmentClaims.thy ===== *)
theory AttachmentClaims
  imports Attachments
begin

text \<open>
  What the preparation of attachments guarantees: the decoded sizes stay within two bytes per
  attachment of the configured limits.
\<close>

lemma scan_padding:
  "a2b_scan True s q l p True = Some d \<Longrightarrow>
   d = [] \<and> s = replicate (length s) (CHR ''='') \<and> (q = 0 \<or> 2 \<le> q \<and> (4 \<le> q + p \<longrightarrow> length s \<le> 1) \<and> (q + p < 4 \<longrightarrow> q + p + length s = 4))"
proof (induction s arbitrary: p)
  case (Cons c s)
  show ?case
  proof (cases "c = CHR ''='' \<and> 2 \<le> q \<and> 4 \<le> q + Suc p")
    case True
    with Cons.prems have "s = []" "d = []" by (auto split: if_splits)
    with True show ?thesis by auto
  next
    case False
    with Cons.prems have c: "c = CHR ''=''" and rest: "a2b_scan True s q l (if 2 \<le> q then Suc p else p) True = Some d"
      by (auto split: if_splits option.splits)
    from Cons.IH [OF rest] False c show ?thesis by (auto split: if_splits)
  qed
qed (simp split: if_splits)

text \<open>The shape of what the strict scanner accepts, and the length of its result.\<close>

lemma scan_shape:
  "a2b_scan True s q l 0 False = Some d \<Longrightarrow> q < 4 \<Longrightarrow>
   \<exists>xs k. s = xs @ replicate k (CHR ''='') \<and> CHR ''='' \<notin> set xs \<and> list_all (\<lambda>c. b64_value c \<noteq> None) xs \<and>
     length d + 3 * q div 4 = 3 * (q + length xs) div 4 \<and>
     ((q + length xs) mod 4 = 0 \<or> 2 \<le> (q + length xs) mod 4 \<and> k = 4 - (q + length xs) mod 4)"
proof (induction s arbitrary: q l d)
  case Nil
  then show ?case by (auto split: if_splits)
next
  case (Cons c s)
  show ?case
  proof (cases "c = CHR ''=''")
    case True
    have "d = [] \<and> s = replicate (length s) (CHR ''='') \<and> (q = 0 \<or> 2 \<le> q \<and> Suc (length s) = 4 - q)"
    proof (cases "2 \<le> q \<and> 4 \<le> Suc q")
      case True
      with Cons.prems \<open>c = CHR ''=''\<close> show ?thesis by (auto split: if_splits)
    next
      case False
      with Cons.prems \<open>c = CHR ''=''\<close> have "a2b_scan True s q l (if 2 \<le> q then 1 else 0) True = Some d" by (auto split: if_splits)
      from scan_padding [OF this] False Cons.prems(2) show ?thesis by (auto split: if_splits)
    qed
    with True Cons.prems(2) show ?thesis
      by (intro exI [of _ "[]"] exI [of _ "Suc (length s)"]) auto
  next
    case False
    with Cons.prems obtain v where v: "b64_value c = Some v" by (auto split: option.splits)
    have step: "\<exists>l' d'. a2b_scan True s (Suc q mod 4) l' 0 False = Some d' \<and> length d = length d' + (if q = 0 then 0 else 1)"
    proof -
      consider "q = 0" | "q = 1" | "q = 2" | "q = 3" using Cons.prems(2) by linarith
      then show ?thesis
      proof cases
        case 1
        with Cons.prems(1) False v have "a2b_scan True s 1 v 0 False = Some d" by simp
        with 1 show ?thesis by (intro exI [of _ v] exI [of _ d]) simp
      next
        case 2
        with Cons.prems(1) False v obtain d' where "a2b_scan True s 2 (v mod 16) 0 False = Some d'" "length d = Suc (length d')" by auto
        moreover have "Suc q mod 4 = 2" using 2 by simp
        ultimately show ?thesis using 2 by (intro exI [of _ "v mod 16"] exI [of _ d']) (simp only:, simp)
      next
        case 3
        with Cons.prems(1) False v obtain d' where "a2b_scan True s 3 (v mod 4) 0 False = Some d'" "length d = Suc (length d')" by auto
        moreover have "Suc q mod 4 = 3" using 3 by simp
        ultimately show ?thesis using 3 by (intro exI [of _ "v mod 4"] exI [of _ d']) (simp only:, simp)
      next
        case 4
        with Cons.prems(1) False v obtain d' where "a2b_scan True s 0 0 0 False = Some d'" "length d = Suc (length d')" by auto
        with 4 show ?thesis by (intro exI [of _ 0] exI [of _ d']) simp
      qed
    qed
    then obtain l' d' where st: "a2b_scan True s (Suc q mod 4) l' 0 False = Some d'" "length d = length d' + (if q = 0 then 0 else 1)"
      by blast
    from Cons.IH [OF st(1)] obtain xs k where ih: "s = xs @ replicate k (CHR ''='')" "CHR ''='' \<notin> set xs"
      "list_all (\<lambda>c. b64_value c \<noteq> None) xs"
      "length d' + 3 * (Suc q mod 4) div 4 = 3 * (Suc q mod 4 + length xs) div 4"
      "(Suc q mod 4 + length xs) mod 4 = 0 \<or> 2 \<le> (Suc q mod 4 + length xs) mod 4 \<and> k = 4 - (Suc q mod 4 + length xs) mod 4"
      by auto
    have len: "length d + 3 * q div 4 = 3 * (q + length (c # xs)) div 4"
    proof -
      have "q = 0 \<or> q = 1 \<or> q = 2 \<or> q = 3" using Cons.prems(2) by auto
      then show ?thesis using ih(4) st(2) by (elim disjE) auto
    qed
    have "(Suc q mod 4 + length xs) mod 4 = (q + length (c # xs)) mod 4" by (simp add: mod_simps)
    with ih len False v show ?thesis
      by (intro exI [of _ "c # xs"] exI [of _ k]) auto
  qed
qed

lemma accepted_no_space:
  assumes "s = xs @ replicate k (CHR ''='')" "list_all (\<lambda>c. b64_value c \<noteq> None) xs"
  shows "strip s = s"
proof -
  have "list_all (\<lambda>c. \<not> is_space c) b64_alphabet" by code_simp
  moreover have "c \<in> set b64_alphabet" if "b64_value c \<noteq> None" for c
    using that by (auto simp: b64_value_def dest!: map_of_SomeD set_zip_leftD)
  ultimately have "\<not> is_space c" if "c \<in> set xs" for c using assms(2) that by (auto simp: list_all_iff)
  moreover have "\<not> is_space (CHR ''='')" by code_simp
  ultimately have no: "\<not> is_space c" if "c \<in> set s" for c using assms(1) that by auto
  then have "dropWhile is_space ys = ys" if "set ys \<subseteq> set s" for ys
    using that by (cases ys) auto
  then show ?thesis by (simp add: strip_def strip_chars_def)
qed

text \<open>
  The length computed before decoding is short of the decoded length by at most two bytes: superfluous
  padding after a complete quad is accepted by the decoder and subtracted by the estimate.
\<close>

lemma estimate_bounds_decoded:
  assumes "b64decode True s = Some d"
  shows "int (length d) \<le> decoded_len_from_base64 s + 2"
proof -
  from assms have "a2b_scan True s 0 0 0 False = Some d" by (auto simp: b64decode_def split: if_splits)
  from scan_shape [OF this] obtain xs k where sh: "s = xs @ replicate k (CHR ''='')" "CHR ''='' \<notin> set xs"
    "list_all (\<lambda>c. b64_value c \<noteq> None) xs" "length d = 3 * length xs div 4"
    "length xs mod 4 = 0 \<or> 2 \<le> length xs mod 4 \<and> k = 4 - length xs mod 4" by auto
  define m where "m = length xs"
  define c where "c = length (filter (\<lambda>c. c = CHR ''='') (drop (m + k - 2) s))"
  have c2: "c \<le> 2" unfolding c_def by (rule order_trans [OF length_filter_le]) (simp add: sh(1) m_def)
  have ck: "c \<le> k"
  proof -
    have "c \<le> length (filter (\<lambda>c. c = CHR ''='') s)"
      unfolding c_def by (metis append_take_drop_id filter_append le_add2 length_append)
    also have "\<dots> = k" using sh(2) by (simp add: sh(1) filter_False filter_empty_conv) (auto simp: filter_empty_conv)
    finally show ?thesis .
  qed
  show ?thesis
  proof (cases "s = []")
    case True
    then show ?thesis using sh by (simp add: decoded_len_from_base64_def strip_def strip_chars_def)
  next
    case False
    have est: "decoded_len_from_base64 s = int ((m + k) div 4 * 3) - int c"
      using False by (simp add: decoded_len_from_base64_def accepted_no_space [OF sh(1,3)] Let_def c_def m_def) (simp add: sh(1))
    obtain a b where mab: "m = 4 * a + b" "b < 4" by (metis mod_less_divisor mult_div_mod_eq zero_less_numeral)
    have d: "length d = 3 * m div 4" using sh(4) by (simp add: m_def)
    have "b = 0 \<or> 2 \<le> b \<and> k = 4 - b" using sh(5) mab by (simp add: m_def [symmetric])
    then show ?thesis
    proof
      assume "b = 0"
      then have "length d = 3 * a" "a \<le> (m + k) div 4" using d mab by auto
      then show ?thesis unfolding est using c2 by linarith
    next
      assume b: "2 \<le> b \<and> k = 4 - b"
      then have "(m + k) div 4 = Suc a" using mab by simp
      moreover have "3 * m div 4 = 3 * a + 3 * b div 4" using mab by simp
      moreover have "3 * b div 4 + (4 - b) \<le> 3" using b mab(2) by (cases "b = 2") auto
      ultimately show ?thesis unfolding est using b ck d by linarith
    qed
  qed
qed

definition decoded_size :: "attachment \<Rightarrow> nat" where
  "decoded_size att = (case b64decode True (at_data att) of Some d \<Rightarrow> length d | None \<Rightarrow> 0)"

lemma prepare_from_bounds:
  "prepare_from reader cfg provider tot atts = Inr p \<Longrightarrow> tot \<le> attachment_total_bytes cfg \<Longrightarrow>
   (\<forall>att \<in> set atts. int (decoded_size att) \<le> max_bytes_for (at_type att) cfg + 2) \<and>
   tot + int (sum_list (map decoded_size atts)) \<le> attachment_total_bytes cfg + 2 * int (length atts) \<and>
   pa_placeholders p = map (\<lambda>att. placeholder att (decoded_size att)) atts"
proof (induction atts arbitrary: tot p)
  case (Cons att rest)
  let ?a = "decoded_len_from_base64 (at_data att)"
  from Cons.prems(1) obtain d q where d: "b64decode True (at_data att) = Some d"
    and le: "?a \<le> max_bytes_for (at_type att) cfg" "tot + ?a \<le> attachment_total_bytes cfg"
    and q: "prepare_from reader cfg provider (tot + ?a) rest = Inr q"
    and p: "pa_placeholders p = placeholder att (length d) # pa_placeholders q"
    by (auto simp: Let_def decode_base64_def split: if_splits sum.splits option.splits)
  from Cons.IH [OF q le(2)] estimate_bounds_decoded [OF d] le p d show ?case
    by (auto simp: decoded_size_def)
qed simp

lemma prepare_attachments_bounds:
  assumes "prepare_attachments reader cfg provider atts = Inr p" and "0 \<le> attachment_total_bytes cfg"
  shows "int (length atts) \<le> attachment_max_count cfg \<and>
    (\<forall>att \<in> set atts. int (decoded_size att) \<le> max_bytes_for (at_type att) cfg + 2) \<and>
    int (sum_list (map decoded_size atts)) \<le> attachment_total_bytes cfg + 2 * int (length atts)"
    and "pa_placeholders p = map (\<lambda>att. placeholder att (decoded_size att)) atts"
  using assms prepare_from_bounds [of reader cfg provider 0 atts p]
  by (auto simp: prepare_attachments_def split: if_splits)

text \<open>The slack is real: six characters that are estimated at one byte decode to three.\<close>

definition demo_attachment :: attachment where
  "demo_attachment = \<lparr>at_type = ''text'', at_media_type = ''text/plain'', at_filename = None, at_data = ''QUJD==''\<rparr>"

lemma demo_attachment_prepared:
  assumes "attachment_max_count cfg = 1" "attachment_max_bytes_image cfg = 1" "attachment_max_bytes_document cfg = 1" "attachment_total_bytes cfg = 1"
  shows "\<exists>blocks. prepare_attachments reader cfg ''anthropic'' [demo_attachment] =
      Inr \<lparr>pa_content_blocks = blocks, pa_placeholders = [placeholder demo_attachment 3]\<rparr>"
    and "decoded_size demo_attachment = 3"
proof -
  have "b64decode True ''QUJD=='' = Some ''ABC''" by code_simp
  moreover have "decoded_len_from_base64 ''QUJD=='' = 1" by code_simp
  moreover have "utf8_ok ''ABC''" by (simp add: utf8_ok_def codes_def utf8_decode.simps)
  ultimately show "\<exists>blocks. prepare_attachments reader cfg ''anthropic'' [demo_attachment] =
      Inr \<lparr>pa_content_blocks = blocks, pa_placeholders = [placeholder demo_attachment 3]\<rparr>"
    "decoded_size demo_attachment = 3"
    using assms
    by (simp_all add: prepare_attachments_def demo_attachment_def ATTACHMENT_ALLOWLIST_def max_bytes_for_def
        decode_base64_def check_decoded_def decode_text_def decoded_size_def eval_nat_numeral)
qed

end
