(* ===== verification/AttachmentStore.thy ===== *)
theory AttachmentStore
  imports ChatClaims AttachmentClaims
begin

text \<open>
  What a message with attachments leaves in the conversation: the step of the user holds the text and one note per
  attachment, and the contents are within their limits.
\<close>

subsection \<open>The steps of users in one turn\<close>

definition user_steps_are :: "uuid \<Rightarrow> dict \<Rightarrow> db \<Rightarrow> bool" where
  "user_steps_are turn payload d \<longleftrightarrow> (\<forall>st \<in> set (chat_steps d). st_turn st = turn \<longrightarrow> st_role st = ''user'' \<longrightarrow> st_payload st = payload)"

lemma user_steps_frame:
  assumes "\<And>s. tool_calls (snd (m s)) = tool_calls s \<and> chat_steps (snd (m s)) = chat_steps s \<and> next_id s \<le> next_id (snd (m s))"
  shows "op_preserves (user_steps_are turn payload) m"
  by (rule op_preservesI) (simp add: user_steps_are_def assms)

lemma user_steps_add:
  "role \<noteq> ''user'' \<or> p = payload \<Longrightarrow> op_preserves (user_steps_are turn payload) (add_step sid turn' role p usage)"
  by (rule op_preservesI) (auto simp: user_steps_are_def add_step_def)

lemma user_steps_truncate: "op_preserves (user_steps_are turn payload) (truncate_from_message_step sid turn')"
  by (rule op_preservesI) (auto simp: user_steps_are_def truncate_from_message_step_def Let_def)

lemma user_steps_calls:
  "op_preserves (user_steps_are turn payload) (create_tool_call sid turn' name args tcid pid)"
  "op_preserves (user_steps_are turn payload) (complete_tool_call tcid status result)"
  by (rule op_preservesI, simp add: user_steps_are_def create_tool_call_def complete_tool_call_def Let_def)+

lemma user_steps_site: "op_preserves (user_steps_are turn payload) (site_execute env tool args uid ext sid)"
proof (rule op_preservesI)
  fix s assume "user_steps_are turn payload s"
  with op_preservesD [OF site_execute_rows rows_le_refl, of s env tool args uid ext sid]
  show "user_steps_are turn payload (snd (site_execute env tool args uid ext sid s))"
    by (simp add: rows_le_def user_steps_are_def)
qed

lemmas user_steps_rules = user_steps_calls user_steps_site user_steps_truncate
  user_steps_frame [OF small_frames(1)] user_steps_frame [OF small_frames(2)] user_steps_frame [OF small_frames(3)]
  user_steps_frame [OF small_frames(4)] user_steps_frame [OF session_frame] user_steps_frame [OF debit_frame]
  user_steps_frame [OF mark_frames(1)] user_steps_frame [OF mark_frames(2)]

lemma user_steps_tools:
  "op_preserves (user_steps_are turn payload) (record_execution uid sid turn' tcid name pid x)"
  "op_preserves (user_steps_are turn payload) (apply_tool_result uid sid turn' tc result err)"
  unfolding record_execution_def apply_tool_result_def Let_def
  by (intro op_rules user_steps_rules user_steps_add; simp)+

lemma user_steps_block: "op_preserves (user_steps_are turn payload) (handle_block cfg env now uid sid turn' project b)"
  unfolding handle_block_def execute_global_server_side_tool_def execute_server_side_tool_def Let_def
  by (auto intro!: op_rules user_steps_rules user_steps_tools split: sum.split)

interpretation stored: chat_requests "user_steps_are turn payload" for turn payload
proof unfold_locales
  show "op_preserves_ok (\<lambda>d. user_steps_are turn payload d \<and> refers sid turn' tc d) (apply_tool_result uid sid turn' tc result err)"
    for sid turn' tc uid result err
  proof (rule op_preserves_imp_ok, rule op_preservesI)
    fix s assume s: "user_steps_are turn payload s \<and> refers sid turn' tc s"
    from op_preservesD [OF user_steps_tools(2) conjunct1 [OF s]] op_preservesD [OF apply_tool_result_refers conjunct2 [OF s]]
    show "user_steps_are turn payload (snd (apply_tool_result uid sid turn' tc result err s)) \<and>
        refers sid turn' tc (snd (apply_tool_result uid sid turn' tc result err s))" by blast
  qed
  show "op_preserves_ok (user_steps_are turn payload) (add_step sid turn' ''assistant'' p usage)" for sid turn' p usage
    by (rule op_preserves_imp_ok, rule user_steps_add) simp
qed (rule user_steps_rules op_preserves_imp_ok [OF user_steps_block] user_steps_rules [THEN op_preserves_imp_ok])+

subsection \<open>The content of a message\<close>

text \<open>
  What may be kept of an attachment, given its media type, name and size only, and the content of the step of a user
  with a text and such notes.
\<close>

definition attachment_note :: "string \<Rightarrow> string option \<Rightarrow> nat \<Rightarrow> dict" where
  "attachment_note media name bytes =
     [(''type'', JStr ''text''),
      (''text'', JStr (''[attachment: '' @ media @ '' '' @ [CHR 0x22] @ (if name = None \<or> name = Some [] then ''file'' else the name) @ [CHR 0x22] @
                       '', '' @ nat_str bytes @ ''B '' @ em_dash @ '' '' @ sent_once_text @ '']''))]"

definition message_payload :: "string \<Rightarrow> dict list \<Rightarrow> dict" where
  "message_payload txt notes =
     [(''content'', JList (map JObj ((if txt = [] then [] else [[(''type'', JStr ''text''), (''text'', JStr txt)]]) @ notes)))]"

lemma placeholder_note: "placeholder att n = attachment_note (at_media_type att) (at_filename att) n"
  by (auto simp: placeholder_def attachment_note_def filename_or_def split: option.split)

text \<open>
  Claim C40. What a message leaves of its attachments. For a turn that has no step yet and to which no other request adds a
  step of the user, every step of the user of that turn that the request leaves committed holds exactly the text of
  the message, with its context block, and one note per attachment that is made of the media type, the file name and the
  decoded size alone: the content is not in it. When there is such a step, the number of attachments, each decoded content and all of
  them together are within the configured limits, up to two bytes per attachment.
\<close>

theorem attachments_are_bounded_and_not_stored:
  fixes rq :: run_request and cfg :: chat_settings
  defines "atts \<equiv> rq_attachments rq" and "limits \<equiv> chat_attachments cfg"
  assumes fresh: "\<forall>st \<in> set (chat_steps d). st_turn st \<noteq> next_id d"
    and others: "\<forall>k s. \<forall>st \<in> set (chat_steps (lc_others (ce_llm env k) s)). st_turn st = next_id d \<longrightarrow> st_role st = ''user'' \<longrightarrow> st \<in> set (chat_steps s)"
    and limit: "0 \<le> attachment_total_bytes limits"
  shows "\<forall>st \<in> set (chat_steps (ct_committed (snd (c_request (chat_run cfg env rq) (c_start d))))).
    st_turn st = next_id d \<longrightarrow> st_role st = ''user'' \<longrightarrow>
      st_payload st = message_payload (compose_turn0_text (render_context_block (rq_context rq)) (rq_message rq))
        (map (\<lambda>att. attachment_note (at_media_type att) (at_filename att) (decoded_size att)) atts) \<and>
      (atts \<noteq> [] \<longrightarrow>
        int (length atts) \<le> attachment_max_count limits \<and>
        (\<forall>att \<in> set atts. int (decoded_size att) \<le> max_bytes_for (at_type att) limits + 2) \<and>
        int (sum_list (map decoded_size atts)) \<le> attachment_total_bytes limits + 2 * int (length atts))"
proof -
  let ?text = "compose_turn0_text (render_context_block (rq_context rq)) (rq_message rq)"
  let ?P = "message_payload ?text (map (\<lambda>att. attachment_note (at_media_type att) (at_filename att) (decoded_size att)) atts)"
  let ?prepared = "if rq_attachments rq = [] then Inr None
    else map_sum id Some (prepare_attachments (ce_pdf env) (chat_attachments cfg) (active_provider (llm_provider cfg)) (rq_attachments rq))"
  have others': "others_keep env (user_steps_are (next_id d) p)" for p
    using others by (auto simp: others_keep_def user_steps_are_def)
  have start: "user_steps_are (next_id d) p d" for p using fresh by (auto simp: user_steps_are_def)
  show ?thesis
  proof (cases ?prepared)
    case (Inl e)
    have "c_keeps (user_steps_are (next_id d) p) (chat_run cfg env rq)" for p
      by (rule stored.run_keeps_with [OF others']) (simp add: Inl)
    from stored.request_keeps [OF this start] have "user_steps_are (next_id d) p (ct_committed (snd (c_request (chat_run cfg env rq) (c_start d))))" for p .
    from this [of "[]"] this [of "[([], JNull)]"] show ?thesis unfolding user_steps_are_def by (metis list.distinct(1))
  next
    case (Inr prepared)
    have some: "\<exists>p. prepared = Some p \<and> prepare_attachments (ce_pdf env) limits (active_provider (llm_provider cfg)) atts = Inr p" if "atts \<noteq> []"
      using Inr that by (cases "prepare_attachments (ce_pdf env) limits (active_provider (llm_provider cfg)) atts") (simp_all add: atts_def limits_def)
    then have bounds: "atts \<noteq> [] \<Longrightarrow> int (length atts) \<le> attachment_max_count limits \<and>
        (\<forall>att \<in> set atts. int (decoded_size att) \<le> max_bytes_for (at_type att) limits + 2) \<and>
        int (sum_list (map decoded_size atts)) \<le> attachment_total_bytes limits + 2 * int (length atts)"
      using prepare_attachments_bounds(1) limit by blast
    have content: "content_payload (user_content ?text prepared) = ?P"
    proof (cases "atts = []")
      case True
      with Inr show ?thesis by (simp add: content_payload_def user_content_def message_payload_def atts_def)
    next
      case False
      with some obtain p where "prepared = Some p" "prepare_attachments (ce_pdf env) limits (active_provider (llm_provider cfg)) atts = Inr p" by blast
      with prepare_attachments_bounds(2) [OF _ limit] show ?thesis
        by (simp add: content_payload_def user_content_def message_payload_def placeholder_note)
    qed
    have "c_keeps (user_steps_are (next_id d) ?P) (chat_run cfg env rq)"
      by (rule stored.run_keeps_with [OF others'])
        (use Inr content in \<open>auto intro!: op_preserves_imp_ok user_steps_add\<close>)
    from stored.request_keeps [OF this start] show ?thesis using bounds unfolding user_steps_are_def by blast
  qed
qed

text \<open>A message with an attachment whose content is at its limit plus the two bytes.\<close>

definition demo_file_cfg :: chat_settings where
  "demo_file_cfg = demo_chat_cfg\<lparr>chat_attachments :=
     \<lparr>attachment_max_count = 1, attachment_max_bytes_image = 1, attachment_max_bytes_document = 1, attachment_total_bytes = 1,
      attachment_pdf_max_pages = 1\<rparr>\<rparr>"

definition demo_file_message :: run_request where
  "demo_file_message = demo_message\<lparr>rq_attachments := [demo_attachment]\<rparr>"

lemma demo_user_step:
  "\<exists>st \<in> set (chat_steps (ct_committed (snd (c_request (chat_run demo_file_cfg (demo_env (LlmAnswer (demo_answer ''end_turn'' []))) demo_file_message)
     (c_start demo_chat_db))))). st_turn st = 1 \<and> st_role st = ''user''"
proof -
  obtain blocks where prep: "prepare_attachments (\<lambda>_. PdfUnreadable) (chat_attachments demo_file_cfg) ''anthropic'' [demo_attachment] =
      Inr \<lparr>pa_content_blocks = blocks, pa_placeholders = [placeholder demo_attachment 3]\<rparr>"
    using demo_attachment_prepared(1) [of "chat_attachments demo_file_cfg" "\<lambda>_. PdfUnreadable"] by (auto simp: demo_file_cfg_def)
  have "active_provider ''anthropic'' = ''anthropic''" by code_simp
  with prep show ?thesis
    by (simp add: c_request_def demo_file_message_def demo_file_cfg_def demo_run_defs demo_chat_defs demo_debit_defs)
qed

theorem attachments_are_bounded_and_not_stored_witness:
  "(\<exists>st \<in> set (chat_steps (ct_committed (snd (c_request (chat_run demo_file_cfg (demo_env (LlmAnswer (demo_answer ''end_turn'' []))) demo_file_message)
     (c_start demo_chat_db))))). st_payload st = message_payload ''hi'' [attachment_note ''text/plain'' None 3]) \<and>
   int (decoded_size demo_attachment) = max_bytes_for (at_type demo_attachment) (chat_attachments demo_file_cfg) + 2"
proof -
  let ?env = "demo_env (LlmAnswer (demo_answer ''end_turn'' []))"
  have size: "decoded_size demo_attachment = 3"
    using demo_attachment_prepared(2) [of "chat_attachments demo_file_cfg"] by (simp add: demo_file_cfg_def)
  have ids: "next_id demo_chat_db = 1" "chat_steps demo_chat_db = []" by (simp_all add: demo_chat_defs)
  have others: "lc_others (ce_llm ?env k) s = s" for k s by (simp add: demo_env_def)
  have said: "compose_turn0_text (render_context_block (rq_context demo_file_message)) (rq_message demo_file_message) = ''hi''"
    by code_simp
  have "rq_attachments demo_file_message = [demo_attachment]" "at_media_type demo_attachment = ''text/plain''" "at_filename demo_attachment = None"
    "0 \<le> attachment_total_bytes (chat_attachments demo_file_cfg)"
    by (simp_all add: demo_file_message_def demo_attachment_def demo_file_cfg_def)
  with attachments_are_bounded_and_not_stored [of demo_chat_db ?env demo_file_cfg demo_file_message] demo_user_step
  have "\<exists>st \<in> set (chat_steps (ct_committed (snd (c_request (chat_run demo_file_cfg ?env demo_file_message) (c_start demo_chat_db))))).
      st_payload st = message_payload ''hi'' [attachment_note ''text/plain'' None 3]"
    by (fastforce simp: ids others said size)
  moreover have "max_bytes_for (at_type demo_attachment) (chat_attachments demo_file_cfg) = 1"
    by (simp add: demo_attachment_def demo_file_cfg_def max_bytes_for_def)
  ultimately show ?thesis using size by simp
qed

end
