(* ===== verification/RateLimit.thy ===== *)
theory RateLimit
  imports Redis BillingCommon
begin

text \<open>
  Rate limits over a sliding window in a sorted set of Redis (\<^verbatim>\<open>api_gateway/rate_limit.py\<close>). The time of
  the process is a rational number of seconds, that of Redis its own clock in milliseconds. The member of an
  attempt, a time and a fresh identifier, is an argument, as is the state of the link.
\<close>

subsection \<open>Sorted sets\<close>

definition zset_at :: "redis \<Rightarrow> string \<Rightarrow> redis_error + (ustr \<times> rat) list" where
  "zset_at s k =
     (case live s k of
        None \<Rightarrow> Inr []
      | Some e \<Rightarrow> (case rval e of RZset z \<Rightarrow> Inr z | _ \<Rightarrow> Inl WrongType))"

definition r_zremrangebyscore :: "string \<Rightarrow> rat \<Rightarrow> rat \<Rightarrow> int redis_op" where
  "r_zremrangebyscore k low high s =
     (case zset_at s k of
        Inl e \<Rightarrow> (Inl e, s)
      | Inr z \<Rightarrow>
          let kept = filter (\<lambda>x. \<not> (low \<le> snd x \<and> snd x \<le> high)) z
          in (Inr (int (length z) - int (length kept)), if kept = [] then rdel k s else rkeep k (RZset kept) s))"

definition r_zadd :: "string \<Rightarrow> ustr \<Rightarrow> rat \<Rightarrow> int redis_op" where
  "r_zadd k m score s =
     (case zset_at s k of
        Inl e \<Rightarrow> (Inl e, s)
      | Inr z \<Rightarrow>
          if m \<in> fst ` set z then (Inr 0, rkeep k (RZset (map (\<lambda>x. if fst x = m then (m, score) else x) z)) s)
          else (Inr 1, rkeep k (RZset (z @ [(m, score)])) s))"

definition r_zcard :: "string \<Rightarrow> int redis_op" where
  "r_zcard k s = (case zset_at s k of Inl e \<Rightarrow> (Inl e, s) | Inr z \<Rightarrow> (Inr (int (length z)), s))"

text \<open>\<open>MULTI\<close> \dots \<open>EXEC\<close>: every command runs; the client raises the first error.\<close>

fun run_all :: "int redis_op list \<Rightarrow> redis \<Rightarrow> (redis_error + int list) \<times> redis" where
  "run_all [] s = (Inr [], s)"
| "run_all (m # ms) s =
     (case m s of (r, t) \<Rightarrow>
        case run_all ms t of (rs, u) \<Rightarrow>
          (case r of
             Inl e \<Rightarrow> (Inl e, u)
           | Inr v \<Rightarrow> (case rs of Inl e \<Rightarrow> (Inl e, u) | Inr vs \<Rightarrow> (Inr (v # vs), u))))"

subsection \<open>Limits\<close>

record rl_settings =
  rate_limit_window_seconds :: int
  rate_limit_chat_per_user :: int
  rate_limit_chat_per_device :: int
  rate_limit_chat_per_ip :: int
  rate_limit_other_per_user :: int
  admin_rate_limit_per_min :: int
  auth_rate_limit_per_ip :: int
  cloudpayments_webhook_rate_limit_per_ip :: int

record rl_call =
  rc_link :: link
  rc_now :: rat
  rc_member :: ustr

definition allow_attempt :: "rl_call \<Rightarrow> string \<Rightarrow> int \<Rightarrow> int \<Rightarrow> bool redis_op" where
  "allow_attempt c k limit window =
     op_bind (via_link (rc_link c) (run_all
        [r_zremrangebyscore k 0 (rc_now c - of_int window),
         r_zadd k (rc_member c) (rc_now c),
         r_zcard k,
         r_expire k window]))
       (\<lambda>results. op_return (results ! 2 \<le> limit))"

definition fail_open :: "bool redis_op \<Rightarrow> redis \<Rightarrow> bool \<times> redis" where
  "fail_open m s = (case m s of (Inr b, t) \<Rightarrow> (b, t) | (Inl _, t) \<Rightarrow> (True, t))"

fun run_checks :: "int \<Rightarrow> (string \<times> int) list \<Rightarrow> rl_call list \<Rightarrow> bool redis_op" where
  "run_checks window ((k, limit) # checks) (c # calls) =
     op_bind (allow_attempt c k limit window) (\<lambda>ok. if ok then run_checks window checks calls else op_return False)"
| "run_checks window _ _ = op_return True"

definition nonempty_text :: "string option \<Rightarrow> string list" where
  "nonempty_text x = (case x of Some t \<Rightarrow> if t = [] then [] else [t] | None \<Rightarrow> [])"

definition chat_checks :: "rl_settings \<Rightarrow> uuid \<Rightarrow> string option \<Rightarrow> string option \<Rightarrow> (string \<times> int) list" where
  "chat_checks cfg uid device ip =
     (''rl:user:'' @ uuid_str uid, rate_limit_chat_per_user cfg) #
     map (\<lambda>d. (''rl:dev:'' @ d, rate_limit_chat_per_device cfg)) (nonempty_text device) @
     map (\<lambda>i. (''rl:ip:'' @ i, rate_limit_chat_per_ip cfg)) (nonempty_text ip)"

definition enforce_chat_limits :: "rl_settings \<Rightarrow> rl_call list \<Rightarrow> uuid \<Rightarrow> string option \<Rightarrow> string option \<Rightarrow> redis \<Rightarrow> bool \<times> redis" where
  "enforce_chat_limits cfg calls uid device ip =
     fail_open (run_checks (rate_limit_window_seconds cfg) (chat_checks cfg uid device ip) calls)"

definition bucket :: "string option \<Rightarrow> string" where
  "bucket ip = (case nonempty_text ip of [] \<Rightarrow> ''unknown'' | i # _ \<Rightarrow> i)"

definition enforce_admin_limits :: "rl_settings \<Rightarrow> rl_call \<Rightarrow> string option \<Rightarrow> redis \<Rightarrow> bool \<times> redis" where
  "enforce_admin_limits cfg c ip =
     fail_open (allow_attempt c (''rl:admin:'' @ bucket ip) (admin_rate_limit_per_min cfg) (rate_limit_window_seconds cfg))"

definition enforce_auth_limits :: "rl_settings \<Rightarrow> rl_call \<Rightarrow> string option \<Rightarrow> redis \<Rightarrow> bool \<times> redis" where
  "enforce_auth_limits cfg c ip =
     fail_open (allow_attempt c (''rl:auth:'' @ bucket ip) (auth_rate_limit_per_ip cfg) (rate_limit_window_seconds cfg))"

definition enforce_cloudpayments_webhook_limits :: "rl_settings \<Rightarrow> rl_call \<Rightarrow> string option \<Rightarrow> redis \<Rightarrow> bool \<times> redis" where
  "enforce_cloudpayments_webhook_limits cfg c ip =
     fail_open (allow_attempt c (''rl:cpwh:'' @ bucket ip) (cloudpayments_webhook_rate_limit_per_ip cfg) (rate_limit_window_seconds cfg))"

definition enforce_other_limits :: "rl_settings \<Rightarrow> rl_call \<Rightarrow> uuid \<Rightarrow> redis \<Rightarrow> bool \<times> redis" where
  "enforce_other_limits cfg c uid =
     fail_open (allow_attempt c (''rl:other:'' @ uuid_str uid) (rate_limit_other_per_user cfg) (rate_limit_window_seconds cfg))"

subsection \<open>Attempts\<close>

text \<open>
  A sequence of attempts under one key: the milliseconds that pass on the server of Redis before the attempt,
  the time of the process and the member.
\<close>

fun attempts :: "string \<Rightarrow> int \<Rightarrow> int \<Rightarrow> (nat \<times> rat \<times> ustr) list \<Rightarrow> redis \<Rightarrow> bool list" where
  "attempts k limit window [] s = []"
| "attempts k limit window ((ms, now, m) # as) s =
     (case fail_open (allow_attempt \<lparr>rc_link = Up, rc_now = now, rc_member = m\<rparr> k limit window) (tick ms s) of
        (b, t) \<Rightarrow> b # attempts k limit window as t)"

definition in_window :: "int \<Rightarrow> rat \<Rightarrow> rat \<Rightarrow> bool" where
  "in_window window now x = (now - of_int window < x)"

definition recent :: "int \<Rightarrow> rat \<Rightarrow> (ustr \<times> rat) list \<Rightarrow> (ustr \<times> rat) list" where
  "recent window now hist = filter (\<lambda>x. in_window window now (snd x)) hist"

text \<open>What a key holds after the attempts of a history.\<close>

definition holds_history :: "string \<Rightarrow> int \<Rightarrow> (ustr \<times> rat) list \<Rightarrow> redis \<Rightarrow> bool" where
  "holds_history k window hist s =
     (if hist = [] then store s k = None
      else store s k = Some \<lparr>rval = RZset (recent window (snd (last hist)) hist), rexpire = Some (clock s + window * 1000)\<rparr>)"

definition clocks_agree :: "nat \<Rightarrow> rat \<Rightarrow> (ustr \<times> rat) list \<Rightarrow> bool" where
  "clocks_agree ms now hist =
     (0 \<le> now \<and> (hist \<noteq> [] \<longrightarrow> of_nat ms \<le> 1000 * (now - snd (last hist))))"

lemma sorted_last: "sorted (map snd hist) \<Longrightarrow> x \<in> set hist \<Longrightarrow> snd x \<le> snd (last hist)"
  by (induction hist rule: rev_induct) (auto simp: sorted_append)

lemma zset_after_tick:
  assumes h: "holds_history k window hist s" and w: "0 < window" and c: "clocks_agree ms now hist" and srt: "sorted (map snd hist)"
  shows "\<exists>z. zset_at (tick ms s) k = Inr z \<and> recent window now z = recent window now hist \<and> set z \<subseteq> set hist"
proof (cases "hist = []")
  case True
  with h have "zset_at (tick ms s) k = Inr []" by (simp add: holds_history_def zset_at_def live_def tick_def)
  with True show ?thesis by simp
next
  case False
  let ?l = "snd (last hist)"
  have st: "store s k = Some \<lparr>rval = RZset (recent window ?l hist), rexpire = Some (clock s + window * 1000)\<rparr>"
    using h False by (simp add: holds_history_def)
  have le: "?l \<le> now" using c False by (simp add: clocks_agree_def)
  show ?thesis
  proof (cases "int ms < window * 1000")
    case True
    have "zset_at (tick ms s) k = Inr (recent window ?l hist)" using st True by (simp add: zset_at_def live_def tick_def)
    moreover have "recent window now (recent window ?l hist) = recent window now hist"
      using le by (auto simp: recent_def in_window_def intro!: filter_cong)
    ultimately show ?thesis by (auto simp: recent_def)
  next
    case old: False
    have "of_int window * 1000 \<le> (of_nat ms :: rat)"
    proof -
      have "window * 1000 \<le> int ms" using old by simp
      then have "(of_int (window * 1000) :: rat) \<le> of_int (int ms)" by (simp only: of_int_le_iff)
      then show ?thesis by simp
    qed
    moreover note sorted_last [OF srt]
    moreover have "?l \<le> now - of_int window" if "of_int window * 1000 \<le> (of_nat ms :: rat)" using that c False by (simp add: clocks_agree_def)
    ultimately have "recent window now hist = []" by (force simp: recent_def in_window_def filter_empty_conv)
    moreover have "zset_at (tick ms s) k = Inr []" using st old by (simp add: zset_at_def live_def tick_def)
    ultimately show ?thesis by (simp add: recent_def)
  qed
qed

lemma zset_at_rdel [simp]: "zset_at (rdel k s) k = Inr []"
  by (simp add: zset_at_def live_def rdel_def)

lemma zset_at_rkeep [simp]: "zset_at (rkeep k (RZset z) s) k = Inr z"
  by (simp add: zset_at_def live_rkeep)

lemma allow_step:
  assumes z: "zset_at s k = Inr z" and w: "0 < window" and fresh: "m \<notin> fst ` set z" and pos: "\<And>x. x \<in> set z \<Longrightarrow> 0 \<le> snd x"
  shows "\<exists>t. allow_attempt \<lparr>rc_link = Up, rc_now = now, rc_member = m\<rparr> k limit window s =
      (Inr (int (length (recent window now z)) + 1 \<le> limit), t) \<and>
    store t k = Some \<lparr>rval = RZset (recent window now z @ [(m, now)]), rexpire = Some (clock s + window * 1000)\<rparr> \<and> clock t = clock s"
proof -
  have kept: "filter (\<lambda>x. \<not> (0 \<le> snd x \<and> snd x \<le> now - of_int window)) z = recent window now z"
    using pos by (force simp: recent_def in_window_def not_le intro!: filter_cong)
  define s1 where "s1 = snd (r_zremrangebyscore k 0 (now - of_int window) s)"
  have r1: "\<exists>v. r_zremrangebyscore k 0 (now - of_int window) s = (Inr v, s1)" "zset_at s1 k = Inr (recent window now z)" "clock s1 = clock s"
    unfolding s1_def r_zremrangebyscore_def z Let_def sum.case kept by auto
  define s2 where "s2 = rkeep k (RZset (recent window now z @ [(m, now)])) s1"
  have "m \<notin> fst ` set (recent window now z)" using fresh by (auto simp: recent_def)
  then have r2: "r_zadd k m now s1 = (Inr 1, s2)" by (simp add: r_zadd_def r1(2) s2_def)
  have r3: "r_zcard k s2 = (Inr (int (length (recent window now z)) + 1), s2)" by (simp add: r_zcard_def s2_def)
  obtain e where e: "live s2 k = Some e" "rval e = RZset (recent window now z @ [(m, now)])" by (auto simp: s2_def live_rkeep)
  have r4: "r_expire k window s2 = (Inr 1, rput k (e\<lparr>rexpire := Some (clock s2 + window * 1000)\<rparr>) s2)"
    using w e(1) by (simp add: r_expire_def r_pexpire_def)
  have e': "e\<lparr>rexpire := x\<rparr> = \<lparr>rval = RZset (recent window now z @ [(m, now)]), rexpire = x\<rparr>" for x
    using e(2) by (cases e) simp
  have "clock s2 = clock s" by (simp add: s2_def r1(3))
  with r1(1) r2 r3 r4 e' show ?thesis
    by (auto simp: allow_attempt_def via_link_def op_bind_def rput_def)
qed

lemma attempt_step:
  assumes h: "holds_history k window hist s" and w: "0 < window" and c: "clocks_agree ms now hist" and srt: "sorted (map snd hist)"
    and fresh: "m \<notin> fst ` set hist" and pos: "\<And>x. x \<in> set hist \<Longrightarrow> 0 \<le> snd x"
  shows "\<exists>t. fail_open (allow_attempt \<lparr>rc_link = Up, rc_now = now, rc_member = m\<rparr> k limit window) (tick ms s) =
      (int (length (recent window now hist)) + 1 \<le> limit, t) \<and> holds_history k window (hist @ [(m, now)]) t"
proof -
  obtain z where z: "zset_at (tick ms s) k = Inr z" "recent window now z = recent window now hist" "set z \<subseteq> set hist"
    using zset_after_tick [OF h w c srt] by blast
  have "m \<notin> fst ` set z" using fresh z(3) by blast
  from allow_step [OF z(1) w this, of now limit] z pos obtain t where
    "allow_attempt \<lparr>rc_link = Up, rc_now = now, rc_member = m\<rparr> k limit window (tick ms s) = (Inr (int (length (recent window now hist)) + 1 \<le> limit), t)"
    "store t k = Some \<lparr>rval = RZset (recent window now hist @ [(m, now)]), rexpire = Some (clock t + window * 1000)\<rparr>" by fastforce
  moreover have "recent window now (hist @ [(m, now)]) = recent window now hist @ [(m, now)]" using w by (simp add: recent_def in_window_def)
  ultimately show ?thesis by (simp add: fail_open_def holds_history_def)
qed

subsection \<open>The window\<close>

text \<open>
  The times of a sequence of attempts: they do not run backwards, and no more time passes on the server of
  Redis than on the clock of the process.
\<close>

fun paced :: "rat option \<Rightarrow> (nat \<times> rat \<times> ustr) list \<Rightarrow> bool" where
  "paced prev [] = True"
| "paced prev ((ms, now, m) # as) =
     (0 \<le> now \<and> (case prev of None \<Rightarrow> True | Some p \<Rightarrow> of_nat ms \<le> 1000 * (now - p)) \<and> paced (Some now) as)"

definition times :: "(nat \<times> rat \<times> ustr) list \<Rightarrow> rat list" where
  "times as = map (\<lambda>a. fst (snd a)) as"

definition members :: "(nat \<times> rat \<times> ustr) list \<Rightarrow> ustr list" where
  "members as = map (\<lambda>a. snd (snd a)) as"

definition last_time :: "(ustr \<times> rat) list \<Rightarrow> rat option" where
  "last_time hist = (if hist = [] then None else Some (snd (last hist)))"

lemma attempts_window:
  assumes w: "0 < window"
  shows "holds_history k window hist s \<Longrightarrow> paced (last_time hist) as \<Longrightarrow> distinct (map fst hist @ members as) \<Longrightarrow>
    sorted (map snd hist) \<Longrightarrow> (\<And>x. x \<in> set hist \<Longrightarrow> 0 \<le> snd x) \<Longrightarrow>
    length (attempts k limit window as s) = length as \<and>
    (\<forall>i < length as. attempts k limit window as s ! i \<longleftrightarrow>
       int (length (filter (in_window window (times as ! i)) (map snd hist @ take (Suc i) (times as)))) \<le> limit)"
proof (induction as arbitrary: hist s)
  case (Cons a as)
  obtain ms now m where a: "a = (ms, now, m)" by (cases a)
  have c: "clocks_agree ms now hist" using Cons.prems(2) by (auto simp: a clocks_agree_def last_time_def split: if_splits)
  have fresh: "m \<notin> fst ` set hist" using Cons.prems(3) by (auto simp: a members_def)
  from attempt_step [OF Cons.prems(1) w c Cons.prems(4) fresh Cons.prems(5)] obtain t where
    t: "fail_open (allow_attempt \<lparr>rc_link = Up, rc_now = now, rc_member = m\<rparr> k limit window) (tick ms s) =
      (int (length (recent window now hist)) + 1 \<le> limit, t)" "holds_history k window (hist @ [(m, now)]) t" by blast
  have le: "snd (last hist) \<le> now" if "hist \<noteq> []" using c that by (simp add: clocks_agree_def)
  have srt: "sorted (map snd (hist @ [(m, now)]))"
    using Cons.prems(4) le sorted_last [OF Cons.prems(4)] by (fastforce simp: sorted_append)
  have "length (attempts k limit window as t) = length as \<and>
    (\<forall>i < length as. attempts k limit window as t ! i \<longleftrightarrow>
       int (length (filter (in_window window (times as ! i)) (map snd (hist @ [(m, now)]) @ take (Suc i) (times as)))) \<le> limit)"
  proof (rule Cons.IH [OF t(2) _ _ srt])
    show "paced (last_time (hist @ [(m, now)])) as" using Cons.prems(2) by (simp add: a last_time_def)
    show "distinct (map fst (hist @ [(m, now)]) @ members as)" using Cons.prems(3) by (auto simp: a members_def)
    show "0 \<le> snd x" if "x \<in> set (hist @ [(m, now)])" for x using that Cons.prems(2) Cons.prems(5) [of x] by (auto simp: a)
  qed
  moreover have "length (filter (in_window window now) (map snd hist @ [now])) = length (recent window now hist) + 1"
    using w by (simp add: recent_def in_window_def filter_map comp_def)
  ultimately show ?case using t(1) by (auto simp: a times_def nth_Cons' less_Suc_eq_0_disj)
qed simp

lemma allowed_bounded:
  assumes len: "length bs = length ts" and lim: "0 \<le> limit"
    and b: "\<And>i. i < length ts \<Longrightarrow> bs ! i \<Longrightarrow> int (length (filter (in_window window (ts ! i)) (take (Suc i) ts))) \<le> limit"
  shows "int (length (filter (\<lambda>(b, x). b \<and> in_window window t x \<and> x \<le> t) (zip bs ts))) \<le> limit"
proof -
  define I where "I = {i. i < length ts \<and> bs ! i \<and> in_window window t (ts ! i) \<and> ts ! i \<le> t}"
  have count: "length (filter (\<lambda>(b, x). b \<and> in_window window t x \<and> x \<le> t) (zip bs ts)) = card I"
    unfolding length_filter_conv_card I_def using len by (auto intro!: arg_cong [where f = card])
  have fin: "finite I" by (simp add: I_def)
  show ?thesis
  proof (cases "I = {}")
    case True
    with count lim show ?thesis by simp
  next
    case False
    define i where "i = Max I"
    have i: "i \<in> I" "\<And>j. j \<in> I \<Longrightarrow> j \<le> i" unfolding i_def using fin False by simp_all
    have "I \<subseteq> {j. j < length (take (Suc i) ts) \<and> in_window window (ts ! i) (take (Suc i) ts ! j)}"
      using i by (fastforce simp: I_def in_window_def)
    then have "card I \<le> length (filter (in_window window (ts ! i)) (take (Suc i) ts))"
      unfolding length_filter_conv_card by (intro card_mono) auto
    moreover have "int (length (filter (in_window window (ts ! i)) (take (Suc i) ts))) \<le> limit" using b i(1) by (simp add: I_def)
    ultimately show ?thesis using count by linarith
  qed
qed

text \<open>
  Claim C37. While Redis answers, an attempt is let through exactly when the attempts of the last window,
  itself included and the refused ones too, are no more than the limit; so in no window of time are more
  attempts let through than the limit, whatever the key's expiry does. The clocks are assumed not to run backwards, that of
  Redis not faster than that of the process, and the members of the attempts to be distinct.
\<close>

theorem rate_limit_is_a_sliding_window:
  assumes "0 < window" "0 \<le> limit" "store s k = None" "paced None as" "distinct (members as)"
  shows "(\<forall>i < length as. attempts k limit window as s ! i \<longleftrightarrow>
       int (length (filter (\<lambda>x. times as ! i - of_int window < x) (take (Suc i) (times as)))) \<le> limit)
    \<and> int (length (filter (\<lambda>(b, x). b \<and> t - of_int window < x \<and> x \<le> t) (zip (attempts k limit window as s) (times as)))) \<le> limit"
proof -
  have exact: "length (attempts k limit window as s) = length as"
    "\<forall>i < length as. attempts k limit window as s ! i \<longleftrightarrow> int (length (filter (in_window window (times as ! i)) (take (Suc i) (times as)))) \<le> limit"
    using attempts_window [OF assms(1), of k "[]" s as limit] assms(3-5) by (simp_all add: holds_history_def last_time_def)
  have "int (length (filter (\<lambda>(b, x). b \<and> in_window window t x \<and> x \<le> t) (zip (attempts k limit window as s) (times as)))) \<le> limit"
    by (rule allowed_bounded) (use exact assms(2) in \<open>auto simp: times_def\<close>)
  with exact(2) show ?thesis by (simp add: in_window_def [abs_def])
qed

definition demo_redis :: redis where
  "demo_redis = \<lparr>store = Map.empty, clock = 0, messages = [], lua_tostring = dec\<rparr>"

lemma rate_limit_is_a_sliding_window_witness:
  "int (length (filter (\<lambda>(b, x). b \<and> 60 - of_int 60 < x \<and> x \<le> 60)
     (zip (attempts ''rl:other:x'' 1 60 [(0, 1, [1]), (500, 2, [2]), (60000, 70, [3])] demo_redis) (times [(0, 1, [1]), (500, 2, [2]), (60000, 70, [3])])))) \<le> 1"
proof -
  have "paced None [(0, 1, [1]), (500, 2, [2]), (60000, 70, [3])]" "distinct (members [(0, 1, [1]), (500, 2, [2]), (60000, 70, [3])])"
    "store demo_redis ''rl:other:x'' = None" by (simp_all add: members_def demo_redis_def)
  from rate_limit_is_a_sliding_window [OF _ _ this(3) this(1,2), of 60 1 60] show ?thesis by simp
qed

end
