(* ===== verification/Auth.thy ===== *)
theory Auth
  imports ChatStore
begin

text \<open>
  Who a request comes from. \<^verbatim>\<open>auth/issuer.py\<close>, \<^verbatim>\<open>auth/apple.py\<close>, \<^verbatim>\<open>auth/service.py\<close>,
  \<^verbatim>\<open>auth/cleanup_reaper.py\<close>, \<^verbatim>\<open>api_gateway/auth.py\<close> and the identity part of \<^verbatim>\<open>deps.py\<close>. Signing and
  checking of tokens, the key sets of providers, SHA-256, name-based identifiers and random tokens are
  arguments. The tables \<open>auth_identities\<close> and \<open>auth_refresh_tokens\<close>, which only this component reads, stand
  beside \<open>db\<close>; \<open>last_seen_at\<close> and \<open>created_at\<close>, which nothing reads, are left out. A request has one
  time, in microseconds, for the clock of the process and of the database.
\<close>

subsection \<open>Access tokens\<close>

text \<open>\<open>s or None\<close>.\<close>

abbreviation or_none :: "string \<Rightarrow> string option" where
  "or_none s \<equiv> nonempty (Some s)"

record token_issuer =
  ti_private_key :: string
  ti_issuer :: "string option"
  ti_audience :: "string option"
  ti_kid :: "string option"
  ti_access_ttl :: int

definition issuer_configured :: "token_issuer \<Rightarrow> bool" where
  "issuer_configured ti = (ti_private_key ti \<noteq> [])"

definition access_claims :: "token_issuer \<Rightarrow> int \<Rightarrow> uuid \<Rightarrow> string \<Rightarrow> dict" where
  "access_claims ti now uid device =
     [(''sub'', JStr (uuid_str uid)), (''device_id'', JStr device), (''iat'', JInt (now div 1000000)),
      (''exp'', JInt ((now + ti_access_ttl ti * 1000000) div 1000000))] @
     (case ti_issuer ti of Some i \<Rightarrow> [(''iss'', JStr i)] | None \<Rightarrow> []) @
     (case ti_audience ti of Some a \<Rightarrow> [(''aud'', JStr a)] | None \<Rightarrow> [])"

text \<open>\<open>jwt.encode(claims, key, algorithm="RS256", headers)\<close> is the argument \<open>encode\<close>.\<close>

definition issue_access_token :: "(dict \<Rightarrow> string \<Rightarrow> string option \<Rightarrow> string) \<Rightarrow> token_issuer \<Rightarrow> int \<Rightarrow> uuid \<Rightarrow> string \<Rightarrow> string option" where
  "issue_access_token encode ti now uid device =
     (if ti_private_key ti = [] then None else Some (encode (access_claims ti now uid device) (ti_private_key ti) (ti_kid ti)))"

text \<open>What \<open>jwt.decode\<close> is asked to check; \<open>None\<close> as its result is \<open>InvalidTokenError\<close>.\<close>

record jwt_options =
  jo_algorithms :: "string list"
  jo_audience :: "string option"
  jo_issuer :: "string option"
  jo_require :: "string list"
  jo_verify_aud :: bool

type_synonym jwt_decode = "string \<Rightarrow> string \<Rightarrow> jwt_options \<Rightarrow> dict option"

record jwt_verifier =
  jv_issuer :: "string option"
  jv_audience :: "string option"
  jv_jwks :: "(string \<Rightarrow> string option) option"
  jv_public_key :: "string option"

record authenticated_user =
  au_user_id :: uuid
  au_device_id :: json

definition signing_key :: "jwt_verifier \<Rightarrow> string \<Rightarrow> exn + string" where
  "signing_key jv token =
     (case jv_jwks jv of
        Some resolve \<Rightarrow> (case resolve token of Some k \<Rightarrow> Inr k | None \<Rightarrow> Inl (App (error UnauthorizedError ''unable to resolve signing key'')))
      | None \<Rightarrow>
          (case nonempty (jv_public_key jv) of
             Some k \<Rightarrow> Inr k
           | None \<Rightarrow> Inl (App (error UnauthorizedError ''no JWT verification key configured''))))"

definition jwt_verify :: "jwt_decode \<Rightarrow> (json \<Rightarrow> string) \<Rightarrow> jwt_verifier \<Rightarrow> string \<Rightarrow> exn + authenticated_user" where
  "jwt_verify decode rep jv token =
     (case signing_key jv token of
        Inl e \<Rightarrow> Inl e
      | Inr k \<Rightarrow>
          (case decode token k \<lparr>jo_algorithms = [''RS256''], jo_audience = jv_audience jv, jo_issuer = jv_issuer jv,
                               jo_require = [''exp'', ''sub''], jo_verify_aud = (jv_audience jv \<noteq> None)\<rparr> of
             None \<Rightarrow> Inl (App (error UnauthorizedError ''invalid token''))
           | Some claims \<Rightarrow>
               if \<not> truthy (dict_get claims ''sub'') then Inl (App (error UnauthorizedError ''missing sub''))
               else (case uuid_parse (py_str rep (dict_get claims ''sub'')) of
                       None \<Rightarrow> Inl (App (error UnauthorizedError ''sub is not a valid user id''))
                     | Some u \<Rightarrow> Inr \<lparr>au_user_id = u, au_device_id = dict_get claims ''device_id''\<rparr>)))"

definition verify_bearer_token :: "jwt_decode \<Rightarrow> (json \<Rightarrow> string) \<Rightarrow> jwt_verifier \<Rightarrow> string option \<Rightarrow> exn + authenticated_user" where
  "verify_bearer_token decode rep jv authorization =
     (case authorization of
        None \<Rightarrow> Inl (App (error UnauthorizedError ''missing bearer token''))
      | Some a \<Rightarrow>
          if \<not> prefix ''bearer '' (lower a) then Inl (App (error UnauthorizedError ''missing bearer token''))
          else jwt_verify decode rep jv (strip (drop 7 a)))"

subsection \<open>Keys of the client and the operator\<close>

text \<open>\<open>hmac.compare_digest\<close> on texts raises \<open>TypeError\<close> unless both are ASCII.\<close>

definition compare_digest :: "string \<Rightarrow> string \<Rightarrow> exn + bool" where
  "compare_digest a b = (if is_ascii a \<and> is_ascii b then Inr (a = b) else Inl (PyError ''TypeError''))"

fun any_matches :: "string \<Rightarrow> string list \<Rightarrow> bool \<Rightarrow> exn + bool" where
  "any_matches presented [] matched = Inr matched"
| "any_matches presented (c # cs) matched =
     (if c = [] then any_matches presented cs matched
      else case compare_digest presented c of
             Inl e \<Rightarrow> Inl e
           | Inr eq \<Rightarrow> any_matches presented cs (matched \<or> eq))"

record gateway_settings =
  client_api_key :: string
  client_api_key_prev :: string
  admin_api_secret :: string
  admin_api_secret_prev :: string
  admin_api_key :: string

definition client_api_key_matches :: "gateway_settings \<Rightarrow> string \<Rightarrow> exn + bool" where
  "client_api_key_matches cfg presented = any_matches presented [client_api_key cfg, client_api_key_prev cfg] False"

definition verify_client_api_key :: "gateway_settings \<Rightarrow> string option \<Rightarrow> exn option" where
  "verify_client_api_key cfg presented =
     (case presented of
        None \<Rightarrow> Some (App (error UnauthorizedError ''invalid client api key''))
      | Some p \<Rightarrow>
          (case client_api_key_matches cfg p of
             Inl e \<Rightarrow> Some e
           | Inr ok \<Rightarrow> if ok then None else Some (App (error UnauthorizedError ''invalid client api key''))))"

definition admin_secret_candidates :: "gateway_settings \<Rightarrow> string list" where
  "admin_secret_candidates cfg = filter (\<lambda>c. c \<noteq> []) [admin_api_secret cfg, admin_api_secret_prev cfg, admin_api_key cfg]"

definition admin_token_matches :: "gateway_settings \<Rightarrow> string \<Rightarrow> exn + bool" where
  "admin_token_matches cfg presented = any_matches presented (admin_secret_candidates cfg) False"

definition require_admin :: "gateway_settings \<Rightarrow> string option \<Rightarrow> string option \<Rightarrow> exn option" where
  "require_admin cfg x_admin_token x_admin_key =
     (case (case x_admin_token of Some t \<Rightarrow> Some t | None \<Rightarrow> x_admin_key) of
        None \<Rightarrow> Some (App (error ForbiddenError ''admin credentials required''))
      | Some p \<Rightarrow>
          (case admin_token_matches cfg p of
             Inl e \<Rightarrow> Some e
           | Inr ok \<Rightarrow> if ok then None else Some (App (error UnauthorizedError ''invalid admin token''))))"

text \<open>\<open>INSERT INTO users (id) \<dots> ON CONFLICT (id) DO NOTHING\<close>.\<close>

definition insert_user :: "uuid \<Rightarrow> db \<Rightarrow> db" where
  "insert_user uid d = (if users d uid = None then d\<lparr>users := (users d)(uid \<mapsto> \<lparr>trial_used = False\<rparr>)\<rparr> else d)"

definition provision_user :: "uuid \<Rightarrow> unit dbop" where
  "provision_user uid = op_modify (insert_user uid)"

definition HERMES_USER_NAMESPACE :: string where
  "HERMES_USER_NAMESPACE = ''638724f1-2181-4d61-96de-5b8eedf7ef7a''"

definition get_current_user :: "(string \<Rightarrow> string \<Rightarrow> uuid) \<Rightarrow> gateway_settings \<Rightarrow> string option \<Rightarrow> string option \<Rightarrow> authenticated_user dbop" where
  "get_current_user uuid5 cfg key x_user_id =
     (case verify_client_api_key cfg key of
        Some e \<Rightarrow> op_raise e
      | None \<Rightarrow>
          let raw = (case x_user_id of Some x \<Rightarrow> strip x | None \<Rightarrow> []) in
          if raw = [] then raise_app UnauthorizedError ''missing user id''
          else let uid = (case uuid_parse raw of Some u \<Rightarrow> u | None \<Rightarrow> uuid5 HERMES_USER_NAMESPACE raw)
               in op_bind (provision_user uid) (\<lambda>_. op_return \<lparr>au_user_id = uid, au_device_id = JNull\<rparr>))"

text \<open>
  The address of the client, for the limits per address. Membership of the peer in the trusted networks is
  an argument; \<open>hop_count\<close> is \<open>trusted_proxy_hop_count\<close>.
\<close>

definition client_ip :: "(string \<Rightarrow> bool) \<Rightarrow> int \<Rightarrow> string option \<Rightarrow> string option \<Rightarrow> string option \<Rightarrow> string option" where
  "client_ip is_trusted_proxy hop_count peer forwarded_for real_ip =
     (case peer of
        None \<Rightarrow> None
      | Some p \<Rightarrow>
          if \<not> is_trusted_proxy p then Some p
          else let hops = (case nonempty forwarded_for of
                             None \<Rightarrow> []
                           | Some f \<Rightarrow> filter (\<lambda>h. h \<noteq> []) (map strip (split_on (CHR '','') f)));
                   index = int (length hops) - max hop_count 1 - 1
               in if hops \<noteq> [] then Some (hops ! nat (if index < 0 then 0 else index))
                  else (case nonempty real_ip of Some r \<Rightarrow> Some (strip r) | None \<Rightarrow> Some p))"

subsection \<open>Sign in with Apple\<close>

record apple_verifier =
  av_issuer :: string
  av_audience :: string
  av_test_secret :: string
  av_test_flag :: bool
  av_jwks :: "string \<Rightarrow> string option"
  av_header :: "string \<Rightarrow> dict option"

definition av_test_mode :: "apple_verifier \<Rightarrow> bool" where
  "av_test_mode av = (av_test_flag av \<and> av_test_secret av \<noteq> [])"

record apple_identity =
  ai_sub :: string
  ai_email :: json
  ai_email_verified :: bool

abbreviation bad_apple_token :: exn where
  "bad_apple_token \<equiv> App (error UnauthorizedError ''invalid apple identity token'')"

definition apple_options :: "apple_verifier \<Rightarrow> string \<Rightarrow> jwt_options" where
  "apple_options av alg = \<lparr>jo_algorithms = [alg], jo_audience = Some (av_audience av), jo_issuer = Some (av_issuer av),
     jo_require = [''sub'', ''iss'', ''aud'', ''exp''], jo_verify_aud = True\<rparr>"

definition apple_decode_real :: "jwt_decode \<Rightarrow> apple_verifier \<Rightarrow> string \<Rightarrow> dict option" where
  "apple_decode_real decode av token =
     (case av_jwks av token of None \<Rightarrow> None | Some k \<Rightarrow> decode token k (apple_options av ''RS256''))"

definition apple_decode_test :: "jwt_decode \<Rightarrow> apple_verifier \<Rightarrow> string \<Rightarrow> dict option" where
  "apple_decode_test decode av token = decode token (av_test_secret av) (apple_options av ''HS256'')"

definition nonce_ok :: "(string \<Rightarrow> string) \<Rightarrow> (json \<Rightarrow> string) \<Rightarrow> dict \<Rightarrow> string option \<Rightarrow> bool" where
  "nonce_ok sha256 rep claims nonce =
     (case nonempty nonce of
        None \<Rightarrow> True
      | Some n \<Rightarrow> truthy (dict_get claims ''nonce'') \<longrightarrow> sha256 n = py_str rep (dict_get claims ''nonce''))"

definition apple_verify :: "jwt_decode \<Rightarrow> (string \<Rightarrow> string) \<Rightarrow> (json \<Rightarrow> string) \<Rightarrow> apple_verifier \<Rightarrow> string \<Rightarrow> string option \<Rightarrow> exn + apple_identity" where
  "apple_verify decode sha256 rep av token nonce =
     (if av_audience av = [] then Inl (App (error ServiceUnavailableError ''apple sign-in is not configured''))
      else case av_header av token of
        None \<Rightarrow> Inl bad_apple_token
      | Some header \<Rightarrow>
          let alg = (case map_of header ''alg'' of Some v \<Rightarrow> py_str rep v | None \<Rightarrow> []) in
          if alg = ''HS256'' \<and> \<not> av_test_mode av then Inl bad_apple_token
          else (case (if alg = ''HS256'' then apple_decode_test decode av token else apple_decode_real decode av token) of
                  None \<Rightarrow> Inl bad_apple_token
                | Some claims \<Rightarrow>
                    if \<not> nonce_ok sha256 rep claims nonce then Inl bad_apple_token
                    else if \<not> truthy (dict_get claims ''sub'') then Inl bad_apple_token
                    else Inr \<lparr>ai_sub = py_str rep (dict_get claims ''sub''), ai_email = dict_get claims ''email'',
                             ai_email_verified = (case map_of claims ''email_verified'' of Some v \<Rightarrow> truthy v | None \<Rightarrow> False)\<rparr>))"

subsection \<open>Rows and requests\<close>

record auth_identity =
  idn_user :: uuid
  idn_provider :: string
  idn_subject :: string
  idn_email :: json

record refresh_row =
  rt_id :: uuid
  rt_user :: uuid
  rt_device :: string
  rt_hash :: string
  rt_expires_at :: int
  rt_used_at :: "int option"
  rt_revoked_at :: "int option"

record auth_tables =
  at_db :: db
  auth_identities :: "auth_identity list"
  auth_refresh_tokens :: "refresh_row list"

record auth_tx =
  ax_tables :: auth_tables
  ax_committed :: auth_tables

type_synonym 'a aop = "(auth_tx, exn, 'a) op"

definition a_db :: "'a dbop \<Rightarrow> 'a aop" where
  "a_db m = (\<lambda>x. case m (at_db (ax_tables x)) of (r, d) \<Rightarrow> (r, x\<lparr>ax_tables := (ax_tables x)\<lparr>at_db := d\<rparr>\<rparr>))"

definition a_read :: "(auth_tables \<Rightarrow> 'a) \<Rightarrow> 'a aop" where
  "a_read f = op_read (\<lambda>x. f (ax_tables x))"

definition a_modify :: "(auth_tables \<Rightarrow> auth_tables) \<Rightarrow> unit aop" where
  "a_modify f = op_modify (\<lambda>x. x\<lparr>ax_tables := f (ax_tables x)\<rparr>)"

definition a_commit :: "unit aop" where
  "a_commit = op_modify (\<lambda>x. x\<lparr>ax_committed := ax_tables x\<rparr>)"

text \<open>Other requests commit while this one has written nothing.\<close>

definition a_others :: "(auth_tables \<Rightarrow> auth_tables) \<Rightarrow> unit aop" where
  "a_others f = op_modify (\<lambda>x. x\<lparr>ax_tables := f (ax_committed x), ax_committed := f (ax_committed x)\<rparr>)"

text \<open>A request on the committed tables: what it leaves uncommitted when it raises is rolled back.\<close>

definition auth_request :: "'a aop \<Rightarrow> auth_tables \<Rightarrow> (exn + 'a) \<times> auth_tables" where
  "auth_request m t =
     (case m \<lparr>ax_tables = t, ax_committed = t\<rparr> of
        (Inl e, x) \<Rightarrow> (Inl e, ax_committed x)
      | (Inr r, x) \<Rightarrow> (Inr r, ax_tables x))"

subsection \<open>The service\<close>

record issued_tokens =
  it_user_id :: uuid
  it_device_id :: string
  it_access_token :: string
  it_expires_in :: int
  it_refresh_token :: string
  it_refresh_expires_in :: int

record auth_service =
  as_issuer :: token_issuer
  as_encode :: "dict \<Rightarrow> string \<Rightarrow> string option \<Rightarrow> string"
  as_decode :: jwt_decode
  as_sha256 :: "string \<Rightarrow> string"
  as_repr :: "json \<Rightarrow> string"
  as_refresh_ttl :: int
  as_apple :: apple_verifier

text \<open>The time of a request and what \<open>secrets.token_urlsafe\<close> returns to it.\<close>

record auth_env =
  ae_now :: int
  ae_token :: string

definition require_issuer :: "auth_service \<Rightarrow> unit aop" where
  "require_issuer sv = (if issuer_configured (as_issuer sv) then op_return () else raise_app ServiceUnavailableError ''auth issuer is not configured'')"

definition device_user :: "string \<Rightarrow> auth_tables \<Rightarrow> uuid option" where
  "device_user device t = map_of (auth_devices (at_db t)) device"

definition insert_device :: "string \<Rightarrow> uuid \<Rightarrow> db \<Rightarrow> db" where
  "insert_device device uid d =
     (if device \<in> fst ` set (auth_devices d) then d else d\<lparr>auth_devices := auth_devices d @ [(device, uid)]\<rparr>)"

definition find_or_create_identity :: "string \<Rightarrow> uuid aop" where
  "find_or_create_identity device =
     op_bind (a_read (device_user device)) (\<lambda>row. case row of
       Some u \<Rightarrow> op_return u
     | None \<Rightarrow>
         op_bind (a_db uuid4) (\<lambda>new_user_id.
         op_bind (a_db (op_modify (insert_user new_user_id))) (\<lambda>_.
         op_bind (a_db (op_modify (insert_device device new_user_id))) (\<lambda>_.
         op_bind (a_read (device_user device)) (\<lambda>winner. case winner of
           None \<Rightarrow> raise_app ServiceUnavailableError ''failed to provision device identity''
         | Some u \<Rightarrow> op_return u)))))"

definition hash_refresh :: "auth_service \<Rightarrow> string \<Rightarrow> string" where
  "hash_refresh sv token = as_sha256 sv token"

text \<open>The index on \<open>token_hash\<close> is unique.\<close>

definition insert_refresh :: "refresh_row \<Rightarrow> unit aop" where
  "insert_refresh r =
     op_bind (a_read (\<lambda>t. rt_hash r \<in> rt_hash ` set (auth_refresh_tokens t))) (\<lambda>taken.
     if taken then op_raise DbError
     else a_modify (\<lambda>t. t\<lparr>auth_refresh_tokens := auth_refresh_tokens t @ [r]\<rparr>))"

definition issue_pair :: "auth_service \<Rightarrow> auth_env \<Rightarrow> uuid \<Rightarrow> string \<Rightarrow> issued_tokens aop" where
  "issue_pair sv env uid device =
     (case issue_access_token (as_encode sv) (as_issuer sv) (ae_now env) uid device of
        None \<Rightarrow> raise_app ServiceUnavailableError ''auth issuer is not configured''
      | Some access_token \<Rightarrow>
          op_bind (a_db uuid4) (\<lambda>i.
          op_bind (insert_refresh \<lparr>rt_id = i, rt_user = uid, rt_device = device, rt_hash = hash_refresh sv (ae_token env),
                                   rt_expires_at = ae_now env + as_refresh_ttl sv * 1000000, rt_used_at = None, rt_revoked_at = None\<rparr>) (\<lambda>_.
          op_return \<lparr>it_user_id = uid, it_device_id = device, it_access_token = access_token, it_expires_in = ti_access_ttl (as_issuer sv),
                     it_refresh_token = ae_token env, it_refresh_expires_in = as_refresh_ttl sv\<rparr>)))"

text \<open>\<open>device_id or str(uuid.uuid4())\<close>.\<close>

definition resolve_device :: "string option \<Rightarrow> string aop" where
  "resolve_device device =
     (case nonempty device of Some d \<Rightarrow> op_return d | None \<Rightarrow> op_bind (a_db uuid4) (\<lambda>i. op_return (uuid_str i)))"

definition register_or_token :: "auth_service \<Rightarrow> auth_env \<Rightarrow> string option \<Rightarrow> issued_tokens aop" where
  "register_or_token sv env device =
     op_bind (require_issuer sv) (\<lambda>_.
     op_bind (resolve_device device) (\<lambda>dev.
     op_bind (find_or_create_identity dev) (\<lambda>uid.
     op_bind (issue_pair sv env uid dev) (\<lambda>tokens.
     op_bind a_commit (\<lambda>_. op_return tokens)))))"

definition apple_user :: "string \<Rightarrow> auth_tables \<Rightarrow> uuid option" where
  "apple_user subject t =
     map_option idn_user (find (\<lambda>r. idn_provider r = ''apple'' \<and> idn_subject r = subject) (auth_identities t))"

definition insert_identity :: "auth_identity \<Rightarrow> auth_tables \<Rightarrow> auth_tables" where
  "insert_identity r t =
     (if list_ex (\<lambda>x. idn_provider x = idn_provider r \<and> idn_subject x = idn_subject r) (auth_identities t) then t
      else t\<lparr>auth_identities := auth_identities t @ [r]\<rparr>)"

definition resolve_apple_user :: "string \<Rightarrow> json \<Rightarrow> string \<Rightarrow> uuid aop" where
  "resolve_apple_user subject email device =
     op_bind (a_read (apple_user subject)) (\<lambda>row. case row of
       Some u \<Rightarrow> op_return u
     | None \<Rightarrow>
         op_bind (find_or_create_identity device) (\<lambda>device_uid.
         op_bind (a_read (\<lambda>t. list_ex (\<lambda>x. idn_user x = device_uid \<and> idn_provider x = ''apple'') (auth_identities t))) (\<lambda>has_apple.
         op_bind (if \<not> has_apple then op_return device_uid
                  else op_bind (a_db uuid4) (\<lambda>fresh. op_bind (a_db (op_modify (insert_user fresh))) (\<lambda>_. op_return fresh))) (\<lambda>link_to.
         op_bind (a_modify (insert_identity \<lparr>idn_user = link_to, idn_provider = ''apple'', idn_subject = subject, idn_email = email\<rparr>)) (\<lambda>_.
         op_bind (a_read (apple_user subject)) (\<lambda>winner. case winner of
           None \<Rightarrow> raise_app ServiceUnavailableError ''failed to link apple identity''
         | Some u \<Rightarrow> op_return u))))))"

definition upsert_device :: "string \<Rightarrow> uuid \<Rightarrow> unit aop" where
  "upsert_device device uid =
     a_db (op_modify (\<lambda>d.
       if device \<in> fst ` set (auth_devices d)
       then d\<lparr>auth_devices := map (\<lambda>x. if fst x = device then (device, uid) else x) (auth_devices d)\<rparr>
       else d\<lparr>auth_devices := auth_devices d @ [(device, uid)]\<rparr>))"

definition sign_in_with_apple :: "auth_service \<Rightarrow> auth_env \<Rightarrow> string \<Rightarrow> string option \<Rightarrow> string option \<Rightarrow> issued_tokens aop" where
  "sign_in_with_apple sv env identity_token device nonce =
     op_bind (require_issuer sv) (\<lambda>_.
     case apple_verify (as_decode sv) (as_sha256 sv) (as_repr sv) (as_apple sv) identity_token nonce of
       Inl e \<Rightarrow> op_raise e
     | Inr identity \<Rightarrow>
         op_bind (resolve_device device) (\<lambda>dev.
         op_bind (resolve_apple_user (ai_sub identity) (ai_email identity) dev) (\<lambda>uid.
         op_bind (upsert_device dev uid) (\<lambda>_.
         op_bind (issue_pair sv env uid dev) (\<lambda>tokens.
         op_bind a_commit (\<lambda>_. op_return tokens))))))"

definition update_tokens :: "(refresh_row \<Rightarrow> bool) \<Rightarrow> (refresh_row \<Rightarrow> refresh_row) \<Rightarrow> unit aop" where
  "update_tokens p f = a_modify (\<lambda>t. t\<lparr>auth_refresh_tokens := map (\<lambda>r. if p r then f r else r) (auth_refresh_tokens t)\<rparr>)"

definition revoke_chain :: "auth_env \<Rightarrow> uuid \<Rightarrow> string \<Rightarrow> unit aop" where
  "revoke_chain env uid device =
     update_tokens (\<lambda>r. rt_user r = uid \<and> rt_device r = device \<and> rt_revoked_at r = None) (\<lambda>r. r\<lparr>rt_revoked_at := Some (ae_now env)\<rparr>)"

text \<open>The rows are read without a lock; \<open>others\<close> is what other requests commit before the first write.\<close>

definition refresh :: "(auth_tables \<Rightarrow> auth_tables) \<Rightarrow> auth_service \<Rightarrow> auth_env \<Rightarrow> string \<Rightarrow> issued_tokens aop" where
  "refresh others sv env refresh_token =
     op_bind (require_issuer sv) (\<lambda>_.
     op_bind (a_read (\<lambda>t. find (\<lambda>r. rt_hash r = hash_refresh sv refresh_token) (auth_refresh_tokens t))) (\<lambda>found.
     op_bind (a_others others) (\<lambda>_.
     case found of
       None \<Rightarrow> raise_app UnauthorizedError ''invalid refresh token''
     | Some row \<Rightarrow>
         if rt_used_at row \<noteq> None
         then op_bind (revoke_chain env (rt_user row) (rt_device row)) (\<lambda>_.
              op_bind a_commit (\<lambda>_. raise_app UnauthorizedError ''refresh token reuse detected''))
         else if rt_revoked_at row \<noteq> None then raise_app UnauthorizedError ''refresh token revoked''
         else if rt_expires_at row \<le> ae_now env then raise_app UnauthorizedError ''refresh token expired''
         else op_bind (update_tokens (\<lambda>r. rt_id r = rt_id row) (\<lambda>r. r\<lparr>rt_used_at := Some (ae_now env)\<rparr>)) (\<lambda>_.
              op_bind (issue_pair sv env (rt_user row) (rt_device row)) (\<lambda>tokens.
              op_bind a_commit (\<lambda>_. op_return tokens))))))"

subsection \<open>Clean-up\<close>

definition stale_token :: "int \<Rightarrow> int \<Rightarrow> refresh_row \<Rightarrow> bool" where
  "stale_token grace now r =
     (rt_expires_at r < now \<or>
      (case (case rt_used_at r of Some u \<Rightarrow> Some u | None \<Rightarrow> rt_revoked_at r) of
         Some u \<Rightarrow> u < now - grace * 1000000
       | None \<Rightarrow> False))"

definition cleanup_refresh_tokens :: "int \<Rightarrow> auth_env \<Rightarrow> nat aop" where
  "cleanup_refresh_tokens grace_setting env =
     (let grace = max grace_setting 0 in
      op_bind (a_read (\<lambda>t. length (filter (stale_token grace (ae_now env)) (auth_refresh_tokens t)))) (\<lambda>deleted.
      op_bind (a_modify (\<lambda>t. t\<lparr>auth_refresh_tokens := filter (\<lambda>r. \<not> stale_token grace (ae_now env) r) (auth_refresh_tokens t)\<rparr>)) (\<lambda>_.
      op_return deleted)))"

end
