(* ===== verification/AuthFacts.thy ===== *)
theory AuthFacts
  imports Auth
begin

text \<open>
  Histories of authentication requests, and the contract between statements on the rows of the
  component and whole requests: what the five statements keep, every request keeps, on the rows it
  sees and on those it leaves committed.
\<close>

subsection \<open>Histories\<close>

datatype auth_cmd =
    Register "string option"
  | AppleSignIn string "string option" "string option"
  | Refresh string
  | Cleanup int

definition auth_op :: "auth_service \<Rightarrow> auth_env \<times> auth_cmd \<Rightarrow> issued_tokens option aop" where
  "auth_op sv c =
     (case c of
        (env, Register device) \<Rightarrow> op_bind (register_or_token sv env device) (\<lambda>p. op_return (Some p))
      | (env, AppleSignIn token device nonce) \<Rightarrow> op_bind (sign_in_with_apple sv env token device nonce) (\<lambda>p. op_return (Some p))
      | (env, Refresh token) \<Rightarrow> op_bind (refresh (\<lambda>t. t) sv env token) (\<lambda>p. op_return (Some p))
      | (env, Cleanup grace) \<Rightarrow> op_bind (cleanup_refresh_tokens grace env) (\<lambda>_. op_return None))"

definition auth_result :: "auth_service \<Rightarrow> auth_env \<times> auth_cmd \<Rightarrow> auth_tables \<Rightarrow> exn + issued_tokens option" where
  "auth_result sv c t = fst (auth_request (auth_op sv c) t)"

definition exec_auth :: "auth_service \<Rightarrow> auth_env \<times> auth_cmd \<Rightarrow> auth_tables \<Rightarrow> auth_tables" where
  "exec_auth sv c t = snd (auth_request (auth_op sv c) t)"

definition new_hash :: "auth_service \<Rightarrow> auth_env \<times> auth_cmd \<Rightarrow> string" where
  "new_hash sv c = hash_refresh sv (ae_token (fst c))"

subsection \<open>From statements to requests\<close>

locale auth_rows =
  fixes Q :: "auth_identity list \<Rightarrow> refresh_row list \<Rightarrow> bool" and fresh :: "string \<Rightarrow> bool"
  assumes link: "Q is rs \<Longrightarrow> \<not> list_ex (\<lambda>x. idn_provider x = idn_provider i \<and> idn_subject x = idn_subject i) is \<Longrightarrow> Q (is @ [i]) rs"
    and issue: "Q is rs \<Longrightarrow> fresh (rt_hash r) \<Longrightarrow> rt_hash r \<notin> rt_hash ` set rs \<Longrightarrow> Q is (rs @ [r])"
    and mark_used: "Q is rs \<Longrightarrow> Q is (map (\<lambda>r. if p r then r\<lparr>rt_used_at := Some n\<rparr> else r) rs)"
    and mark_revoked: "Q is rs \<Longrightarrow> Q is (map (\<lambda>r. if p r then r\<lparr>rt_revoked_at := Some n\<rparr> else r) rs)"
    and delete: "Q is rs \<Longrightarrow> Q is (filter p rs)"
begin

definition kept :: "auth_tx \<Rightarrow> bool" where
  "kept x \<longleftrightarrow> Q (auth_identities (ax_tables x)) (auth_refresh_tokens (ax_tables x)) \<and>
     Q (auth_identities (ax_committed x)) (auth_refresh_tokens (ax_committed x))"

lemma a_db_kept: "op_preserves kept (a_db m)"
  by (auto simp: op_preserves_def a_db_def kept_def split: prod.splits)

lemma a_read_kept: "op_preserves kept (a_read f)"
  by (simp add: a_read_def)

lemma a_commit_kept: "op_preserves kept a_commit"
  unfolding a_commit_def by (rule op_preserves_modify) (simp add: kept_def)

lemma a_others_kept: "op_preserves kept (a_others (\<lambda>t. t))"
  unfolding a_others_def by (rule op_preserves_modify) (simp add: kept_def)

lemma insert_identity_kept: "op_preserves kept (a_modify (insert_identity i))"
  unfolding a_modify_def by (rule op_preserves_modify) (auto simp: kept_def insert_identity_def link)

lemma update_used_kept: "op_preserves kept (update_tokens p (\<lambda>r. r\<lparr>rt_used_at := Some n\<rparr>))"
  unfolding update_tokens_def a_modify_def by (rule op_preserves_modify) (simp add: kept_def mark_used)

lemma update_revoked_kept: "op_preserves kept (update_tokens p (\<lambda>r. r\<lparr>rt_revoked_at := Some n\<rparr>))"
  unfolding update_tokens_def a_modify_def by (rule op_preserves_modify) (simp add: kept_def mark_revoked)

lemma delete_kept: "op_preserves kept (a_modify (\<lambda>t. t\<lparr>auth_refresh_tokens := filter p (auth_refresh_tokens t)\<rparr>))"
  unfolding a_modify_def by (rule op_preserves_modify) (simp add: kept_def delete)

lemma insert_refresh_kept: "fresh (rt_hash r) \<Longrightarrow> op_preserves kept (insert_refresh r)"
  by (auto simp: op_preserves_def insert_refresh_def op_bind_def a_read_def a_modify_def op_raise_def op_modify_def op_read_def kept_def issue)

lemmas statements_kept = a_db_kept a_read_kept a_commit_kept a_others_kept insert_identity_kept update_used_kept
  update_revoked_kept delete_kept op_preserves_bind op_preserves_option op_preserves_if op_preserves_return op_preserves_raise

lemma issue_pair_kept: "fresh (hash_refresh sv (ae_token env)) \<Longrightarrow> op_preserves kept (issue_pair sv env uid device)"
  unfolding issue_pair_def by (intro statements_kept insert_refresh_kept) simp

lemma identity_kept: "op_preserves kept (find_or_create_identity device)"
  unfolding find_or_create_identity_def by (intro statements_kept)

lemma resolve_device_kept: "op_preserves kept (resolve_device device)"
  unfolding resolve_device_def by (intro statements_kept)

lemma require_issuer_kept: "op_preserves kept (require_issuer sv)"
  unfolding require_issuer_def by (intro statements_kept)

lemma register_kept: "fresh (hash_refresh sv (ae_token env)) \<Longrightarrow> op_preserves kept (register_or_token sv env device)"
  unfolding register_or_token_def by (intro statements_kept issue_pair_kept identity_kept resolve_device_kept require_issuer_kept)

lemma resolve_apple_user_kept: "op_preserves kept (resolve_apple_user s email device)"
  unfolding resolve_apple_user_def by (intro statements_kept identity_kept)

lemma sign_in_kept: "fresh (hash_refresh sv (ae_token env)) \<Longrightarrow> op_preserves kept (sign_in_with_apple sv env token device nonce)"
  unfolding sign_in_with_apple_def upsert_device_def
  by (auto intro!: statements_kept issue_pair_kept resolve_apple_user_kept resolve_device_kept require_issuer_kept split: sum.split)

lemma refresh_kept: "fresh (hash_refresh sv (ae_token env)) \<Longrightarrow> op_preserves kept (refresh (\<lambda>t. t) sv env token)"
  unfolding refresh_def revoke_chain_def by (intro statements_kept issue_pair_kept require_issuer_kept)

lemma cleanup_kept: "op_preserves kept (cleanup_refresh_tokens grace env)"
  unfolding cleanup_refresh_tokens_def Let_def by (intro statements_kept)

lemma auth_op_kept: "fresh (new_hash sv c) \<Longrightarrow> op_preserves kept (auth_op sv c)"
  unfolding auth_op_def new_hash_def
  by (auto split: prod.split auth_cmd.split intro!: statements_kept register_kept sign_in_kept refresh_kept cleanup_kept)

lemma exec_auth_kept:
  assumes "fresh (new_hash sv c)" "Q (auth_identities t) (auth_refresh_tokens t)"
  shows "Q (auth_identities (exec_auth sv c t)) (auth_refresh_tokens (exec_auth sv c t))"
proof -
  have "kept \<lparr>ax_tables = t, ax_committed = t\<rparr>" using assms(2) by (simp add: kept_def)
  with auth_op_kept [OF assms(1)] have "kept (snd (auth_op sv c \<lparr>ax_tables = t, ax_committed = t\<rparr>))" by (rule op_preservesD)
  then show ?thesis by (auto simp: exec_auth_def auth_request_def kept_def split: prod.split sum.split)
qed

lemma history_kept:
  "(\<And>c. c \<in> set cs \<Longrightarrow> fresh (new_hash sv c)) \<Longrightarrow> Q (auth_identities t) (auth_refresh_tokens t) \<Longrightarrow>
   Q (auth_identities (fold (exec_auth sv) cs t)) (auth_refresh_tokens (fold (exec_auth sv) cs t))"
  by (induction cs arbitrary: t) (auto intro: exec_auth_kept)

end

subsection \<open>What is kept\<close>

text \<open>The hashes that occur; that they differ; that a token is used or revoked; the account of an Apple identity.\<close>

definition hashes_in :: "string set \<Rightarrow> auth_identity list \<Rightarrow> refresh_row list \<Rightarrow> bool" where
  "hashes_in H is rs = (rt_hash ` set rs \<subseteq> H)"

definition hashes_distinct :: "auth_identity list \<Rightarrow> refresh_row list \<Rightarrow> bool" where
  "hashes_distinct is rs = distinct (map rt_hash rs)"

definition spent :: "refresh_row \<Rightarrow> bool" where
  "spent r = (rt_used_at r \<noteq> None \<or> rt_revoked_at r \<noteq> None)"

definition token_dead :: "string \<Rightarrow> auth_identity list \<Rightarrow> refresh_row list \<Rightarrow> bool" where
  "token_dead h is rs = (\<forall>r \<in> set rs. rt_hash r = h \<longrightarrow> spent r)"

definition linked_to :: "string \<Rightarrow> uuid \<Rightarrow> auth_identity list \<Rightarrow> refresh_row list \<Rightarrow> bool" where
  "linked_to s u is rs = (map_option idn_user (find (\<lambda>r. idn_provider r = ''apple'' \<and> idn_subject r = s) is) = Some u)"

interpretation known: auth_rows "hashes_in H" "\<lambda>h. h \<in> H" for H
  by unfold_locales (auto simp: hashes_in_def)

interpretation unique: auth_rows hashes_distinct "\<lambda>h. True"
  by unfold_locales (auto simp: hashes_distinct_def comp_def if_distrib distinct_map_filter cong: if_cong)

interpretation dead: auth_rows "token_dead h" "\<lambda>k. k \<noteq> h" for h
  by unfold_locales (auto simp: token_dead_def spent_def)

interpretation linked: auth_rows "linked_to s u" "\<lambda>h. True" for s u
  by unfold_locales (auto simp: linked_to_def find_append split: option.splits)

end
