(* ===== verification/AuthClaims.thy ===== *)
theory AuthClaims
  imports AuthFacts
begin

text \<open>
  What the tokens are good for: a refresh token is exchanged once, its reuse ends the chain, two exchanges
  at the same time both succeed, an Apple identity is one account.
\<close>

subsection \<open>One refresh\<close>

abbreviation token_row :: "auth_service \<Rightarrow> string \<Rightarrow> auth_tables \<Rightarrow> refresh_row option" where
  "token_row sv token t \<equiv> find (\<lambda>r. rt_hash r = hash_refresh sv token) (auth_refresh_tokens t)"

definition used_rows :: "uuid \<Rightarrow> int \<Rightarrow> refresh_row list \<Rightarrow> refresh_row list" where
  "used_rows i n rs = map (\<lambda>r. if rt_id r = i then r\<lparr>rt_used_at := Some n\<rparr> else r) rs"

definition revoked_rows :: "uuid \<Rightarrow> string \<Rightarrow> int \<Rightarrow> refresh_row list \<Rightarrow> refresh_row list" where
  "revoked_rows uid device n rs =
     map (\<lambda>r. if rt_user r = uid \<and> rt_device r = device \<and> rt_revoked_at r = None then r\<lparr>rt_revoked_at := Some n\<rparr> else r) rs"

definition new_row :: "auth_service \<Rightarrow> auth_env \<Rightarrow> uuid \<Rightarrow> string \<Rightarrow> uuid \<Rightarrow> refresh_row" where
  "new_row sv env uid device i = \<lparr>rt_id = i, rt_user = uid, rt_device = device, rt_hash = hash_refresh sv (ae_token env),
     rt_expires_at = ae_now env + as_refresh_ttl sv * 1000000, rt_used_at = None, rt_revoked_at = None\<rparr>"

definition new_pair :: "auth_service \<Rightarrow> auth_env \<Rightarrow> uuid \<Rightarrow> string \<Rightarrow> issued_tokens" where
  "new_pair sv env uid device =
     \<lparr>it_user_id = uid, it_device_id = device,
      it_access_token = as_encode sv (access_claims (as_issuer sv) (ae_now env) uid device) (ti_private_key (as_issuer sv)) (ti_kid (as_issuer sv)),
      it_expires_in = ti_access_ttl (as_issuer sv), it_refresh_token = ae_token env, it_refresh_expires_in = as_refresh_ttl sv\<rparr>"

lemma used_rows_hash [simp]: "rt_hash ` set (used_rows i n rs) = rt_hash ` set rs"
  unfolding used_rows_def set_map image_image by (rule image_cong) auto

lemma issue_pair_run:
  assumes "issuer_configured (as_issuer sv)"
  shows "issue_pair sv env uid device x =
    (let i = next_id (at_db (ax_tables x)); t = (ax_tables x)\<lparr>at_db := (at_db (ax_tables x))\<lparr>next_id := i + 1\<rparr>\<rparr> in
     if hash_refresh sv (ae_token env) \<in> rt_hash ` set (auth_refresh_tokens t) then (Inl DbError, x\<lparr>ax_tables := t\<rparr>)
     else (Inr (new_pair sv env uid device),
           x\<lparr>ax_tables := t\<lparr>auth_refresh_tokens := auth_refresh_tokens t @ [new_row sv env uid device i]\<rparr>\<rparr>))"
  using assms
  by (simp add: issue_pair_def issue_access_token_def issuer_configured_def insert_refresh_def a_db_def uuid4_def a_read_def a_modify_def
      op_bind_def Let_def new_pair_def new_row_def)

lemma refresh_run:
  "auth_request (refresh others sv env token) t =
    (if \<not> issuer_configured (as_issuer sv) then (Inl (App (error ServiceUnavailableError ''auth issuer is not configured'')), t)
     else case token_row sv token t of
       None \<Rightarrow> (Inl (App (error UnauthorizedError ''invalid refresh token'')), others t)
     | Some r \<Rightarrow>
         if rt_used_at r \<noteq> None then
           (Inl (App (error UnauthorizedError ''refresh token reuse detected'')),
            (others t)\<lparr>auth_refresh_tokens := revoked_rows (rt_user r) (rt_device r) (ae_now env) (auth_refresh_tokens (others t))\<rparr>)
         else if rt_revoked_at r \<noteq> None then (Inl (App (error UnauthorizedError ''refresh token revoked'')), others t)
         else if rt_expires_at r \<le> ae_now env then (Inl (App (error UnauthorizedError ''refresh token expired'')), others t)
         else if hash_refresh sv (ae_token env) \<in> rt_hash ` set (auth_refresh_tokens (others t)) then (Inl DbError, others t)
         else (Inr (new_pair sv env (rt_user r) (rt_device r)),
               (others t)\<lparr>at_db := (at_db (others t))\<lparr>next_id := next_id (at_db (others t)) + 1\<rparr>,
                 auth_refresh_tokens := used_rows (rt_id r) (ae_now env) (auth_refresh_tokens (others t)) @
                   [new_row sv env (rt_user r) (rt_device r) (next_id (at_db (others t)))]\<rparr>))"
proof (cases "issuer_configured (as_issuer sv)")
  case False
  then show ?thesis by (simp add: refresh_def auth_request_def require_issuer_def)
next
  case True
  note start = refresh_def auth_request_def require_issuer_def a_read_def a_others_def
  show ?thesis
  proof (cases "token_row sv token t")
    case None
    with True show ?thesis by (simp add: start op_eval)
  next
    case (Some r)
    consider "rt_used_at r \<noteq> None" | "rt_used_at r = None" "rt_revoked_at r \<noteq> None"
      | "rt_used_at r = None" "rt_revoked_at r = None" "rt_expires_at r \<le> ae_now env"
      | "rt_used_at r = None" "rt_revoked_at r = None" "\<not> rt_expires_at r \<le> ae_now env" by blast
    then show ?thesis
    proof cases
      case 1
      with True Some show ?thesis
        by (simp add: start op_eval revoke_chain_def update_tokens_def a_modify_def a_commit_def revoked_rows_def)
    next
      case 2
      with True Some show ?thesis by (simp add: start op_eval)
    next
      case 3
      with True Some show ?thesis by (simp add: start op_eval)
    next
      case 4
      have run: "update_tokens (\<lambda>x. rt_id x = rt_id r) (\<lambda>x. x\<lparr>rt_used_at := Some (ae_now env)\<rparr>) x =
          (Inr (), x\<lparr>ax_tables := (ax_tables x)\<lparr>auth_refresh_tokens := used_rows (rt_id r) (ae_now env) (auth_refresh_tokens (ax_tables x))\<rparr>\<rparr>)" for x
        by (simp add: update_tokens_def a_modify_def used_rows_def)
      from 4 True Some show ?thesis
        by (simp add: start op_eval op_bind_InrI [OF run] op_bind_def [of "issue_pair sv env u d" for u d] issue_pair_run Let_def a_commit_def)
    qed
  qed
qed

definition refused :: "exn + 'a \<Rightarrow> bool" where
  "refused r = (case r of Inl (App e) \<Rightarrow> err_cls e \<in> {UnauthorizedError, ServiceUnavailableError} | _ \<Rightarrow> False)"

lemma auth_refresh_result:
  "auth_result sv (env, Refresh token) t = map_sum id Some (fst (auth_request (refresh (\<lambda>t. t) sv env token) t))"
  "exec_auth sv (env, Refresh token) t = snd (auth_request (refresh (\<lambda>t. t) sv env token) t)"
  by (auto simp: auth_result_def exec_auth_def auth_op_def auth_request_def op_bind_def split: prod.split sum.split)

lemma dead_token_refused:
  assumes "token_dead (hash_refresh sv token) is (auth_refresh_tokens t)"
  shows "refused (auth_result sv (env, Refresh token) t)"
proof (cases "token_row sv token t")
  case None
  then show ?thesis by (simp add: auth_refresh_result refresh_run refused_def mk_error_def)
next
  case (Some r)
  then have "r \<in> set (auth_refresh_tokens t)" "rt_hash r = hash_refresh sv token" by (auto simp: find_Some_iff)
  with assms have "spent r" by (simp add: token_dead_def)
  with Some show ?thesis by (auto simp: auth_refresh_result refresh_run refused_def mk_error_def spent_def)
qed

text \<open>A refresh that succeeds leaves its token dead.\<close>

lemma refresh_success:
  assumes ok: "auth_result sv (env, Refresh token) t = Inr p" and uniq: "distinct (map rt_hash (auth_refresh_tokens t))"
  shows "hash_refresh sv token \<in> rt_hash ` set (auth_refresh_tokens t)"
    "new_hash sv (env, Refresh token) \<noteq> hash_refresh sv token"
    "token_dead (hash_refresh sv token) is (auth_refresh_tokens (exec_auth sv (env, Refresh token) t))"
proof -
  from ok obtain r where r: "token_row sv token t = Some r"
    by (auto simp: auth_refresh_result refresh_run split: option.splits if_splits)
  then have row: "r \<in> set (auth_refresh_tokens t)" "rt_hash r = hash_refresh sv token" by (auto simp: find_Some_iff)
  then show known: "hash_refresh sv token \<in> rt_hash ` set (auth_refresh_tokens t)" by force
  have new: "hash_refresh sv (ae_token env) \<notin> rt_hash ` set (auth_refresh_tokens t)"
    "auth_refresh_tokens (exec_auth sv (env, Refresh token) t) = used_rows (rt_id r) (ae_now env) (auth_refresh_tokens t) @
       [new_row sv env (rt_user r) (rt_device r) (next_id (at_db t))]"
    using ok r by (auto simp: auth_refresh_result refresh_run split: if_splits)
  then show other: "new_hash sv (env, Refresh token) \<noteq> hash_refresh sv token" using known by (auto simp: new_hash_def)
  have "x = r" if "x \<in> set (auth_refresh_tokens t)" "rt_hash x = hash_refresh sv token" for x
    using uniq that row by (auto simp: distinct_map inj_on_def)
  then have "token_dead (hash_refresh sv token) is (used_rows (rt_id r) (ae_now env) (auth_refresh_tokens t))"
    by (auto simp: token_dead_def used_rows_def spent_def)
  then show "token_dead (hash_refresh sv token) is (auth_refresh_tokens (exec_auth sv (env, Refresh token) t))"
    using other by (auto simp: new(2) token_dead_def new_row_def new_hash_def)
qed

subsection \<open>Histories\<close>

lemma known_hashes:
  "auth_refresh_tokens t = [] \<Longrightarrow> rt_hash ` set (auth_refresh_tokens (fold (exec_auth sv) cs t)) \<subseteq> set (map (new_hash sv) cs)"
  using known.history_kept [where cs = cs and sv = sv and t = t and H = "set (map (new_hash sv) cs)"] by (simp add: hashes_in_def)

lemma distinct_hashes:
  "auth_refresh_tokens t = [] \<Longrightarrow> distinct (map rt_hash (auth_refresh_tokens (fold (exec_auth sv) cs t)))"
  using unique.history_kept [where cs = cs and sv = sv and t = t] by (simp add: hashes_distinct_def)

lemma dead_for_good:
  "token_dead h (auth_identities t) (auth_refresh_tokens t) \<Longrightarrow> h \<notin> set (map (new_hash sv) cs) \<Longrightarrow>
   token_dead h (auth_identities (fold (exec_auth sv) cs t)) (auth_refresh_tokens (fold (exec_auth sv) cs t))"
  using dead.history_kept [where cs = cs and sv = sv and t = t and h = h] by force

text \<open>
  Claim C33. In a history of requests that are served one after another, a refresh token is exchanged at
  most once: after a successful exchange the same token is refused at any later time, whatever was
  registered, signed in, refreshed or cleaned up in between. Random tokens are assumed to have different hashes.
\<close>

theorem refresh_token_is_exchanged_once:
  assumes "auth_refresh_tokens t = []"
    and "distinct (map (new_hash sv) (before @ [(env, Refresh token)] @ between))"
    and "auth_result sv (env, Refresh token) (fold (exec_auth sv) before t) = Inr p"
  shows "refused (auth_result sv (env', Refresh token) (fold (exec_auth sv) (before @ [(env, Refresh token)] @ between) t))"
proof -
  let ?h = "hash_refresh sv token"
  let ?t = "fold (exec_auth sv) before t"
  note ok = refresh_success [OF assms(3) distinct_hashes [OF assms(1)]]
  have "?h \<in> set (map (new_hash sv) before)" using ok(1) known_hashes [OF assms(1), of sv before] by blast
  then have "?h \<notin> set (map (new_hash sv) between)" using assms(2) by auto
  from dead_for_good [OF ok(3) this] show ?thesis by (intro dead_token_refused) simp
qed

definition plain_service :: auth_service where
  "plain_service =
     \<lparr>as_issuer = \<lparr>ti_private_key = ''k'', ti_issuer = None, ti_audience = None, ti_kid = None, ti_access_ttl = 900\<rparr>,
      as_encode = (\<lambda>claims k kid. k), as_decode = (\<lambda>token k o'. Some [(''sub'', JStr token)]), as_sha256 = (\<lambda>s. s), as_repr = (\<lambda>v. []), as_refresh_ttl = 3600,
      as_apple = \<lparr>av_issuer = ''apple'', av_audience = ''app'', av_test_secret = [], av_test_flag = False, av_jwks = (\<lambda>tok. Some ''a''), av_header = (\<lambda>tok. Some [])\<rparr>\<rparr>"

definition no_tables :: auth_tables where
  "no_tables = \<lparr>at_db = empty_db, auth_identities = [], auth_refresh_tokens = []\<rparr>"

definition demo_register :: "auth_env \<times> auth_cmd" where
  "demo_register = (\<lparr>ae_now = 0, ae_token = ''r1''\<rparr>, Register (Some ''phone''))"

lemma demo_registered: "auth_refresh_tokens (exec_auth plain_service demo_register no_tables) =
    [\<lparr>rt_id = 2, rt_user = 1, rt_device = ''phone'', rt_hash = ''r1'', rt_expires_at = 3600000000, rt_used_at = None, rt_revoked_at = None\<rparr>]"
  by code_simp

definition demo_refresh :: "auth_env \<times> auth_cmd" where
  "demo_refresh = (\<lparr>ae_now = 1, ae_token = ''r2''\<rparr>, Refresh ''r1'')"

lemma refresh_token_is_exchanged_once_witness:
  "refused (auth_result plain_service (\<lparr>ae_now = 2, ae_token = ''r3''\<rparr>, Refresh ''r1'')
     (fold (exec_auth plain_service) [demo_register, demo_refresh] no_tables))"
proof -
  let ?e = "\<lparr>ae_now = 1, ae_token = ''r2''\<rparr>"
  have "auth_refresh_tokens no_tables = []" by (simp add: no_tables_def)
  moreover have "distinct (map (new_hash plain_service) ([demo_register] @ [(?e, Refresh ''r1'')] @ []))" by code_simp
  moreover have "auth_result plain_service (?e, Refresh ''r1'') (fold (exec_auth plain_service) [demo_register] no_tables) =
      Inr (Some (new_pair plain_service ?e 1 ''phone''))" by code_simp
  ultimately show ?thesis using refresh_token_is_exchanged_once [of no_tables plain_service "[demo_register]" ?e "''r1''" "[]"]
    by (simp add: demo_refresh_def)
qed

text \<open>
  Claim C34. When a used refresh token is presented while its row exists, the request is refused and the chain of
  its account and device ends: every token of that account on that device, those of the thief
  included, is refused at any later time. Random tokens are assumed to have different hashes.
\<close>

theorem reuse_ends_the_chain:
  assumes "auth_refresh_tokens t = []"
    and "distinct (map (new_hash sv) (before @ [(env, Refresh token)] @ after))"
    and "token_row sv token (fold (exec_auth sv) before t) = Some r" "rt_used_at r \<noteq> None"
    and "token_row sv other (fold (exec_auth sv) before t) = Some r'" "rt_user r' = rt_user r" "rt_device r' = rt_device r"
  shows "refused (auth_result sv (env, Refresh token) (fold (exec_auth sv) before t)) \<and>
    refused (auth_result sv (env', Refresh other) (fold (exec_auth sv) (before @ [(env, Refresh token)] @ after) t))"
proof
  let ?t = "fold (exec_auth sv) before t" and ?h = "hash_refresh sv other"
  have rows: "r \<in> set (auth_refresh_tokens ?t)" "r' \<in> set (auth_refresh_tokens ?t)" "rt_hash r' = ?h"
    using assms(3,5) by (auto simp: find_Some_iff)
  show "refused (auth_result sv (env, Refresh token) ?t)"
    using assms(3,4) by (simp add: auth_refresh_result refresh_run refused_def mk_error_def)
  have only: "x = r'" if "x \<in> set (auth_refresh_tokens ?t)" "rt_hash x = ?h" for x
    using distinct_hashes [OF assms(1), of sv before] that rows by (auto simp: distinct_map inj_on_def)
  show "refused (auth_result sv (env', Refresh other) (fold (exec_auth sv) (before @ [(env, Refresh token)] @ after) t))"
  proof (cases "issuer_configured (as_issuer sv)")
    case False
    then show ?thesis by (simp add: auth_refresh_result refresh_run refused_def mk_error_def)
  next
    case True
    have "auth_refresh_tokens (exec_auth sv (env, Refresh token) ?t) = revoked_rows (rt_user r) (rt_device r) (ae_now env) (auth_refresh_tokens ?t)"
      using True assms(3,4) by (simp add: auth_refresh_result refresh_run)
    then have dead: "token_dead ?h (auth_identities (exec_auth sv (env, Refresh token) ?t)) (auth_refresh_tokens (exec_auth sv (env, Refresh token) ?t))"
      using only assms(6,7) by (auto simp: token_dead_def revoked_rows_def spent_def)
    have "?h \<in> set (map (new_hash sv) before)" using rows known_hashes [OF assms(1), of sv before] by force
    then have "?h \<notin> set (map (new_hash sv) after)" using assms(2) by auto
    from dead_for_good [OF dead this] show ?thesis by (intro dead_token_refused) simp
  qed
qed

lemma reuse_ends_the_chain_witness:
  "refused (auth_result plain_service (\<lparr>ae_now = 3, ae_token = ''r4''\<rparr>, Refresh ''r2'')
     (fold (exec_auth plain_service) [demo_register, demo_refresh, (\<lparr>ae_now = 2, ae_token = ''r3''\<rparr>, Refresh ''r1'')] no_tables))"
proof -
  let ?e = "\<lparr>ae_now = 2, ae_token = ''r3''\<rparr>"
  let ?r = "\<lparr>rt_id = 2, rt_user = 1, rt_device = ''phone'', rt_hash = ''r1'', rt_expires_at = 3600000000, rt_used_at = Some 1, rt_revoked_at = None\<rparr>"
  let ?s = "\<lparr>rt_id = 3, rt_user = 1, rt_device = ''phone'', rt_hash = ''r2'', rt_expires_at = 3600000001, rt_used_at = None, rt_revoked_at = None\<rparr>"
  have "auth_refresh_tokens no_tables = []" by (simp add: no_tables_def)
  moreover have "distinct (map (new_hash plain_service) ([demo_register, demo_refresh] @ [(?e, Refresh ''r1'')] @ []))" by code_simp
  moreover have "token_row plain_service ''r1'' (fold (exec_auth plain_service) [demo_register, demo_refresh] no_tables) = Some ?r" by code_simp
  moreover have "token_row plain_service ''r2'' (fold (exec_auth plain_service) [demo_register, demo_refresh] no_tables) = Some ?s" by code_simp
  ultimately show ?thesis
    using reuse_ends_the_chain [of no_tables plain_service "[demo_register, demo_refresh]" ?e "''r1''" "[]" ?r "''r2''" ?s] by simp
qed

text \<open>
  Claim C35. The row of a token is read without a lock and marked without asking again whether it is unused: of two
  exchanges of one valid token, of which the second runs between the read and the write of the first,
  both return a pair, and both new refresh tokens are valid.
\<close>

theorem concurrent_refreshes_both_succeed:
  assumes "issuer_configured (as_issuer sv)"
    and "token_row sv token t = Some r" "\<not> spent r" "ae_now e1 < rt_expires_at r" "ae_now e2 < rt_expires_at r"
    and "hash_refresh sv (ae_token e1) \<noteq> hash_refresh sv (ae_token e2)"
    and "{hash_refresh sv (ae_token e1), hash_refresh sv (ae_token e2)} \<inter> rt_hash ` set (auth_refresh_tokens t) = {}"
    and "\<forall>x \<in> set (auth_refresh_tokens t). rt_id x < next_id (at_db t)"
  shows "let second = auth_request (refresh (\<lambda>t. t) sv e2 token); first = auth_request (refresh (\<lambda>t. snd (second t)) sv e1 token)
    in fst (second t) = Inr (new_pair sv e2 (rt_user r) (rt_device r)) \<and>
       fst (first t) = Inr (new_pair sv e1 (rt_user r) (rt_device r)) \<and>
       (\<forall>e \<in> {e1, e2}. \<exists>n \<in> set (auth_refresh_tokens (snd (first t))). rt_hash n = hash_refresh sv (ae_token e) \<and> \<not> spent n)"
proof -
  have row: "r \<in> set (auth_refresh_tokens t)" using assms(2) by (auto simp: find_Some_iff)
  have id: "rt_id r \<noteq> next_id (at_db t)" using assms(8) row by auto
  have live: "rt_used_at r = None" "rt_revoked_at r = None" using assms(3) by (auto simp: spent_def)
  define new2 where "new2 = new_row sv e2 (rt_user r) (rt_device r) (next_id (at_db t))"
  define u where "u = t\<lparr>at_db := (at_db t)\<lparr>next_id := next_id (at_db t) + 1\<rparr>,
      auth_refresh_tokens := used_rows (rt_id r) (ae_now e2) (auth_refresh_tokens t) @ [new2]\<rparr>"
  define other where "other = (\<lambda>t. snd (auth_request (refresh (\<lambda>t. t) sv e2 token) t))"
  have second: "auth_request (refresh (\<lambda>t. t) sv e2 token) t = (Inr (new_pair sv e2 (rt_user r) (rt_device r)), u)"
    using assms(1,2,5,7) live by (simp add: refresh_run u_def new2_def)
  then have ot: "other t = u" by (simp add: other_def)
  have rows: "auth_refresh_tokens u = used_rows (rt_id r) (ae_now e2) (auth_refresh_tokens t) @ [new2]" by (simp add: u_def)
  have n2: "rt_hash new2 = hash_refresh sv (ae_token e2)" "rt_id new2 = next_id (at_db t)" "\<not> spent new2"
    by (simp_all add: new2_def new_row_def spent_def)
  have "rt_hash ` set (auth_refresh_tokens u) = insert (hash_refresh sv (ae_token e2)) (rt_hash ` set (auth_refresh_tokens t))"
    by (simp add: rows n2)
  then have free: "hash_refresh sv (ae_token e1) \<notin> rt_hash ` set (auth_refresh_tokens u)" using assms(6,7) by simp
  obtain new1 where new1: "rt_hash new1 = hash_refresh sv (ae_token e1)" "\<not> spent new1"
    and first: "fst (auth_request (refresh other sv e1 token) t) = Inr (new_pair sv e1 (rt_user r) (rt_device r))"
      "auth_refresh_tokens (snd (auth_request (refresh other sv e1 token) t)) = used_rows (rt_id r) (ae_now e1) (auth_refresh_tokens u) @ [new1]"
  proof
    let ?n = "new_row sv e1 (rt_user r) (rt_device r) (next_id (at_db u))"
    show "rt_hash ?n = hash_refresh sv (ae_token e1)" "\<not> spent ?n" by (simp_all add: new_row_def spent_def)
    show "fst (auth_request (refresh other sv e1 token) t) = Inr (new_pair sv e1 (rt_user r) (rt_device r))"
      "auth_refresh_tokens (snd (auth_request (refresh other sv e1 token) t)) = used_rows (rt_id r) (ae_now e1) (auth_refresh_tokens u) @ [?n]"
      unfolding refresh_run ot using assms(1,2,4) live free by simp_all
  qed
  have "new2 \<in> set (used_rows (rt_id r) (ae_now e1) (auth_refresh_tokens u))" using id n2(2) by (force simp: rows used_rows_def)
  with new1 n2 have "\<exists>n \<in> set (auth_refresh_tokens (snd (auth_request (refresh other sv e1 token) t))).
      rt_hash n = hash_refresh sv (ae_token e) \<and> \<not> spent n" if "e \<in> {e1, e2}" for e
    using that unfolding first(2) by auto
  with first(1) second show ?thesis unfolding Let_def by (simp add: other_def)
qed

lemma concurrent_refreshes_both_succeed_witness:
  "fst (auth_request (refresh (\<lambda>t. snd (auth_request (refresh (\<lambda>t. t) plain_service \<lparr>ae_now = 1, ae_token = ''r3''\<rparr> ''r1'') t))
      plain_service \<lparr>ae_now = 1, ae_token = ''r2''\<rparr> ''r1'') (exec_auth plain_service demo_register no_tables)) =
   Inr (new_pair plain_service \<lparr>ae_now = 1, ae_token = ''r2''\<rparr> 1 ''phone'')"
proof -
  let ?t = "exec_auth plain_service demo_register no_tables"
  let ?r = "\<lparr>rt_id = 2, rt_user = 1, rt_device = ''phone'', rt_hash = ''r1'', rt_expires_at = 3600000000, rt_used_at = None, rt_revoked_at = None\<rparr>"
  have "issuer_configured (as_issuer plain_service)" by code_simp
  moreover have "hash_refresh plain_service s = s" for s by (simp add: hash_refresh_def plain_service_def)
  moreover have "next_id (at_db ?t) = 3" by code_simp
  ultimately show ?thesis
    using concurrent_refreshes_both_succeed [of plain_service "''r1''" ?t ?r "\<lparr>ae_now = 1, ae_token = ''r2''\<rparr>" "\<lparr>ae_now = 1, ae_token = ''r3''\<rparr>"]
    by (simp add: demo_registered spent_def Let_def)
qed

subsection \<open>Apple identities\<close>

text \<open>The operations between the look-up and the answer leave the identities alone.\<close>

definition same_identities :: "auth_identity list \<Rightarrow> auth_tx \<Rightarrow> bool" where
  "same_identities is x = (auth_identities (ax_tables x) = is)"

lemma same_run: "op_preserves (same_identities is) m \<Longrightarrow> m x = (r, y) \<Longrightarrow> same_identities is x \<Longrightarrow> same_identities is y"
  unfolding op_preserves_def by (metis snd_conv)

lemma same_a_db: "op_preserves (same_identities is) (a_db m)"
  by (auto simp: op_preserves_def same_identities_def a_db_def split: prod.splits)

lemma same_a_read: "op_preserves (same_identities is) (a_read f)"
  by (simp add: a_read_def)

lemma same_find_or_create: "op_preserves (same_identities is) (find_or_create_identity device)"
  unfolding find_or_create_identity_def
  by (intro op_preserves_bind op_preserves_option same_a_db same_a_read op_preserves_return op_preserves_raise)

lemma same_issue_pair: "op_preserves (same_identities is) (issue_pair sv env uid device)"
  unfolding issue_pair_def insert_refresh_def a_modify_def
  by (intro op_preserves_bind op_preserves_option op_preserves_if same_a_db same_a_read op_preserves_return op_preserves_raise op_preserves_modify)
    (simp add: same_identities_def)

lemma issue_pair_user: "issue_pair sv env uid device x = (Inr p, y) \<Longrightarrow> it_user_id p = uid"
  by (auto simp: issue_pair_def op_bind_Inr_iff op_return_def op_raise_def split: option.splits)

lemma resolve_apple_user_result:
  assumes "resolve_apple_user s email device x = (Inr u, y)"
  shows "apple_user s (ax_tables y) = Some u"
  using assms unfolding resolve_apple_user_def
  by (auto simp: op_bind_Inr_iff a_read_def op_read_def op_return_def op_raise_def split: option.splits)

lemma sign_in_account:
  assumes "auth_result sv (env, AppleSignIn token device nonce) t = Inr (Some p)"
    and "apple_verify (as_decode sv) (as_sha256 sv) (as_repr sv) (as_apple sv) token nonce = Inr identity"
  shows "apple_user (ai_sub identity) (exec_auth sv (env, AppleSignIn token device nonce) t) = Some (it_user_id p)"
proof -
  let ?x = "\<lparr>ax_tables = t, ax_committed = t\<rparr>"
  obtain y where run: "sign_in_with_apple sv env token device nonce ?x = (Inr p, y)"
    and after: "exec_auth sv (env, AppleSignIn token device nonce) t = ax_tables y"
    using assms(1) by (auto simp: auth_result_def exec_auth_def auth_op_def auth_request_def op_bind_def split: prod.splits sum.splits)
  from run assms(2) obtain dev x1 uid x2 x3 x4 where u: "resolve_apple_user (ai_sub identity) (ai_email identity) dev x1 = (Inr uid, x2)"
    and d: "upsert_device dev uid x2 = (Inr (), x3)" and i: "issue_pair sv env uid dev x3 = (Inr p, x4)" and c: "a_commit x4 = (Inr (), y)"
    unfolding sign_in_with_apple_def by (auto simp: op_bind_Inr_iff op_return_def)
  have "same_identities (auth_identities (ax_tables x2)) x2" by (simp add: same_identities_def)
  then have "same_identities (auth_identities (ax_tables x2)) x3" by (rule same_run [OF same_a_db d [unfolded upsert_device_def]])
  then have "same_identities (auth_identities (ax_tables x2)) x4" by (rule same_run [OF same_issue_pair i])
  then have "auth_identities (ax_tables y) = auth_identities (ax_tables x2)" using c by (auto simp: a_commit_def op_modify_def same_identities_def)
  with resolve_apple_user_result [OF u] issue_pair_user [OF i] show ?thesis by (simp add: after apple_user_def)
qed

lemma apple_user_for_good:
  assumes "apple_user s t = Some u"
  shows "apple_user s (fold (exec_auth sv) cs t) = Some u"
  using linked.history_kept [where cs = cs and sv = sv and t = t and s = s and u = u] assms by (simp add: linked_to_def apple_user_def)

text \<open>
  Claim C36. Whatever happens in between and on whichever devices, two sign-ins whose tokens are verified for the
  same Apple subject give tokens of the same account.
\<close>

theorem apple_identity_is_one_account:
  assumes "apple_verify (as_decode sv) (as_sha256 sv) (as_repr sv) (as_apple sv) token nonce = Inr identity"
    and "apple_verify (as_decode sv) (as_sha256 sv) (as_repr sv) (as_apple sv) token' nonce' = Inr identity'"
    and "ai_sub identity = ai_sub identity'"
    and "auth_result sv (env, AppleSignIn token device nonce) t = Inr (Some p)"
    and "auth_result sv (env', AppleSignIn token' device' nonce') (fold (exec_auth sv) cs (exec_auth sv (env, AppleSignIn token device nonce) t)) = Inr (Some p')"
  shows "it_user_id p' = it_user_id p"
proof -
  let ?c = "(env', AppleSignIn token' device' nonce')" and ?t = "exec_auth sv (env, AppleSignIn token device nonce) t"
  have "apple_user (ai_sub identity) (fold (exec_auth sv) (cs @ [?c]) ?t) = Some (it_user_id p)"
    by (rule apple_user_for_good) (rule sign_in_account [OF assms(4,1)])
  moreover have "apple_user (ai_sub identity') (exec_auth sv ?c (fold (exec_auth sv) cs ?t)) = Some (it_user_id p')"
    by (rule sign_in_account [OF assms(5,2)])
  ultimately show ?thesis using assms(3) by simp
qed

definition demo_sign_in :: "string \<Rightarrow> string \<Rightarrow> auth_env \<times> auth_cmd" where
  "demo_sign_in token device = (\<lparr>ae_now = 5, ae_token = token\<rparr>, AppleSignIn ''apple-1'' (Some device) None)"

lemma apple_identity_is_one_account_witness:
  "auth_result plain_service (demo_sign_in ''r6'' ''tablet'') (fold (exec_auth plain_service) [demo_register] (exec_auth plain_service (demo_sign_in ''r5'' ''watch'') no_tables)) =
     Inr (Some (new_pair plain_service \<lparr>ae_now = 5, ae_token = ''r6''\<rparr> 1 ''tablet'')) \<and>
   it_user_id (new_pair plain_service \<lparr>ae_now = 5, ae_token = ''r6''\<rparr> 1 ''tablet'') =
     it_user_id (new_pair plain_service \<lparr>ae_now = 5, ae_token = ''r5''\<rparr> 1 ''watch'')"
proof
  let ?e = "\<lambda>tok. \<lparr>ae_now = 5, ae_token = tok\<rparr>" and ?i = "\<lparr>ai_sub = ''apple-1'', ai_email = JNull, ai_email_verified = False\<rparr>"
  have v: "apple_verify (as_decode plain_service) (as_sha256 plain_service) (as_repr plain_service) (as_apple plain_service) ''apple-1'' None = Inr ?i"
    by code_simp
  have "auth_result plain_service (?e ''r5'', AppleSignIn ''apple-1'' (Some ''watch'') None) no_tables = Inr (Some (new_pair plain_service (?e ''r5'') 1 ''watch''))"
    by code_simp
  moreover show r: "auth_result plain_service (demo_sign_in ''r6'' ''tablet'') (fold (exec_auth plain_service) [demo_register] (exec_auth plain_service (demo_sign_in ''r5'' ''watch'') no_tables)) =
     Inr (Some (new_pair plain_service (?e ''r6'') 1 ''tablet''))" by code_simp
  ultimately show "it_user_id (new_pair plain_service (?e ''r6'') 1 ''tablet'') = it_user_id (new_pair plain_service (?e ''r5'') 1 ''watch'')"
    using apple_identity_is_one_account [OF v v refl] unfolding demo_sign_in_def by blast
qed

end
