(* ===== verification/Spec2Isabelle.thy ===== *)
theory Spec2Isabelle
  imports BillingClaims AgentPauseClaims AgentServiceClaims AgentBrokerClaims AgentStream AgentConsumerClaims HermesClaims HermesConfigClaims WebsiteClaims ChatClaims ChatsClaims AttachmentStore RateLimit AuthClaims
begin

text \<open>
  Verification of the backend in \<^verbatim>\<open>src/src/app\<close> (paths below are relative to it): the server of an assistant
  application. It keeps users, subscriptions and a credit ledger, runs chat conversations with a language
  model and tools, runs long agent tasks on one private instance per user, streams their events, and bills
  all of it.

  \<^bold>\<open>Parts and how they interact.\<close> A request is authenticated and handed to a service. The chat orchestrator
  asks the policy for access, reads the conversation, calls the model, runs server-side tools (the website
  store, the clock), and debits the wallet with the final answer; workspaces, attachments, preferences and the
  user's own provider key feed it. The agent proxy asks the same policy, brings up the user's instance through
  the runtime manager, launches the run, and turns the instance's event stream into run rows, snapshots, debits
  and published events. A background consumer drives the stream, a broker serves it to clients out of a Redis
  ring, a sweep finalizes what nobody drives. Operator calls, purchases and two payment webhooks credit the
  wallet. Every state change leaves an audit record.

  \<^bold>\<open>Theories and sources.\<close>
  \<^item> Foundations. \<open>Prelude\<close>: operations on a state that may raise (\<open>op\<close>), invariants, contracts for commands,
    simulation and monotone runs as locales. \<open>PyData\<close>, \<open>PyUnicode\<close>, \<open>PyJson\<close>, \<open>PyBase64\<close>, \<open>Float64\<close>: the parts of
    Python's values and standard library the code uses. \<open>Database\<close>: the tables of \<^verbatim>\<open>models/tables.py\<close> as one record
    \<open>db\<close>, \<^verbatim>\<open>db.py\<close> and \<^verbatim>\<open>audit/service.py\<close>. \<open>Errors\<close>: \<^verbatim>\<open>errors.py\<close>. \<open>Redaction\<close>: \<^verbatim>\<open>observability/redaction.py\<close>.
    \<open>Redis\<close>: the documented behaviour of the commands that are sent.
  \<^item> Money. \<open>Policy\<close>: \<^verbatim>\<open>policy/\<close>. \<open>Wallet\<close>, \<open>WalletFacts\<close>, \<open>WalletClaims\<close>: \<^verbatim>\<open>wallet/service.py\<close>. \<open>Subscription\<close>,
    \<open>Admin\<close>, \<open>BillingCommon\<close>, \<open>Adapty\<close>, \<open>CloudPayments\<close>, \<open>BillingClaims\<close>: \<^verbatim>\<open>subscription/service.py\<close>,
    \<^verbatim>\<open>token_purchase/service.py\<close>, \<^verbatim>\<open>admin/service.py\<close>, \<^verbatim>\<open>billing_common/\<close>, \<^verbatim>\<open>billing_adapty/\<close>, \<^verbatim>\<open>billing_cloudpayments/\<close>.
  \<^item> Conversations. \<open>Preferences\<close>, \<open>Byok\<close>, \<open>Attachments\<close>, \<open>AttachmentClaims\<close>, \<open>AttachmentStore\<close>, \<open>Workspaces\<close>: \<^verbatim>\<open>preferences/service.py\<close>,
    \<^verbatim>\<open>byok/\<close>, \<^verbatim>\<open>chat/attachments.py\<close>, \<^verbatim>\<open>workspaces/\<close>. \<open>ChatTools\<close>, \<open>Website\<close>, \<open>SiteTools\<close>, \<open>WebsiteFacts\<close>,
    \<open>WebsiteClaims\<close>: \<^verbatim>\<open>chat/tools.py\<close>, \<^verbatim>\<open>chat/global_tools.py\<close>, \<^verbatim>\<open>website/\<close>. \<open>ChatContext\<close>, \<open>ChatStore\<close>,
    \<open>ChatOrchestrator\<close>, \<open>ChatFacts\<close>, \<open>ChatBilling\<close>, \<open>ChatTurns\<close>, \<open>ChatClaims\<close>: \<^verbatim>\<open>chat/repository.py\<close>,
    \<^verbatim>\<open>chat/orchestrator.py\<close>. \<open>Keyset\<close>, \<open>Chats\<close>, \<open>ChatsFacts\<close>, \<open>ChatsClaims\<close>: pages by key and \<^verbatim>\<open>chats/\<close>.
  \<^item> Agent runs. \<open>AgentSse\<close>, \<open>AgentEvents\<close>, \<open>AgentRuns\<close>, \<open>AgentRunClaims\<close>, \<open>AgentBilling\<close>, \<open>AgentBillingClaims\<close>,
    \<open>AgentProcess\<close>, \<open>AgentProcessFacts\<close>, \<open>AgentProcessClaims\<close>, \<open>AgentPauseClaims\<close>, \<open>AgentService\<close>,
    \<open>AgentServiceClaims\<close>: \<^verbatim>\<open>agent_proxy/service.py\<close>, \<^verbatim>\<open>billing.py\<close>, \<^verbatim>\<open>runs_repo.py\<close>, \<^verbatim>\<open>snapshots_repo.py\<close>.
    \<open>AgentTransport\<close>, \<open>AgentTransportFacts\<close>, \<open>AgentElement\<close>, \<open>AgentRing\<close>, \<open>AgentRingClaims\<close>: \<^verbatim>\<open>transport.py\<close>.
    \<open>AgentBroker\<close>, \<open>AgentBrokerClaims\<close>, \<open>AgentStream\<close>: \<^verbatim>\<open>broker.py\<close>. \<open>AgentConsumer\<close>, \<open>AgentConsumerClaims\<close>: \<^verbatim>\<open>consumer.py\<close>.
  \<^item> Instances. \<open>HermesConfig\<close>, \<open>HermesConfigClaims\<close>, \<open>HermesRuntime\<close>, \<open>HermesManager\<close>, \<open>HermesClaims\<close>:
    \<^verbatim>\<open>hermes_runtime/\<close> and the provider contract of \<^verbatim>\<open>config.py\<close>.

  \<^item> Access. \<open>Auth\<close>, \<open>AuthFacts\<close>, \<open>AuthClaims\<close>: \<^verbatim>\<open>auth/\<close>, \<^verbatim>\<open>api_gateway/auth.py\<close> and the identity of a
    request in \<^verbatim>\<open>deps.py\<close>. \<open>RateLimit\<close>: \<^verbatim>\<open>api_gateway/rate_limit.py\<close>.

  \<^bold>\<open>What the lemmas show.\<close>
  \<^item> Ledger: the books balance after any history of any billing surface, also when debits interleave; debits and
    grants are idempotent by key; the policy opens credits mode exactly when the debit of a chat message would succeed; webhook
    redeliveries change nothing. The locale \<open>credit_ledger\<close> is the contract the billing surfaces rely on.
  \<^item> Conversations: a message is charged exactly with its stored final answer; the trial is spent on success only;
    every tool call has one result or is open, and the model continues a turn only with all results; the number
    of model calls is bounded. The locales \<open>chat_rows\<close>, \<open>chat_requests\<close> and \<open>chat_messages\<close> are the contract between the
    statements on rows and whole requests; they are interpreted for the absence of a debit, the state of the trial,
    the invariant of tool calls and the steps of the user in one turn. Site tools keep to their project and its limits; preview tokens open what they
    were issued for; an admitted own key can be read; attachments are bounded, and a message keeps a note of them and not their content. The pages
    of the chat list give every chat once, from the locale \<open>keyset_list\<close>, the contract of an order and its
    cursor; the settings block in front of a message is taken off again, save for a bracket in a setting.
  \<^item> Agent runs: a terminal status is final, stored text is the head of the streamed text and only grows; a run
    is billed exactly once, a depleted one pauses without debt; a launch reaches the instance once, a resume
    chains one child or leaves the run resumable.
  \<^item> Events: the ring refines the log of published events (a simulation), a reader gets the published bytes, an
    unmarked stream has no gap, what arrives is delivered, a normal end hands over everything; leases exclude;
    the supervisor judges by progress, the sweep touches only what is abandoned.
  \<^item> Instances: every outcome of a cold start and the row and container it leaves, a late wake spares a newer attempt,
    the lines of the rendered configuration are the settings in their places and nothing else; a crash before
    registration leaves a permanent residue, and so does a container that was created and did not start.

  \<^item> Access: in sequence a refresh token is exchanged once and its reuse ends the chain, while two exchanges at
    the same time both succeed; an Apple identity is one account; no window of time lets more attempts through
    than the limit. The locale \<open>auth_rows\<close> is the contract between statements on rows and requests.

  \<^bold>\<open>Modelling choices.\<close> A session of the database is the record \<open>db\<close>; an operation returns an exception or a value
  and the new state; \<open>session_scope\<close> and savepoints restore the state when they raise, and where the code commits
  in the middle (chat, event processing, runtime manager) the committed rows are a component of their own.
  Between a commit and the next statement other requests run: what they commit is a function given as
  an argument, and a property names what they must not touch. Fresh identifiers come from a counter. Text is
  ASCII, or UTF-8 bytes where the code slices or encodes; time is a number of microseconds or an exact rational;
  numbers of JSON are rationals, prices are binary64 as in \<open>Float64\<close>; \<open>BIGINT\<close> columns do not overflow. Libraries and
  services outside the repository are arguments: the answers of models, instances, aggregators and the container
  engine, AES-GCM, HMAC, SHA-256, JSON web tokens, Pydantic, the PDF reader, time zones, \<open>repr\<close>. Redis and the container engine
  follow their documentation. Log lines and metrics are left out.
  Four places are coarser than the code. The handling of one block by the consumer of a run is one step, so the supervisor
  acts between blocks. A write of text takes any string, where Postgres refuses the character NUL. Numbers of JSON do not
  include \<open>NaN\<close> and \<open>Infinity\<close>, which \<open>json.loads\<close> accepts. The tools of a site run one after the other, where
  the code reads the limits of a project and writes the file without a lock.

  \<^bold>\<open>Bounds and fuel.\<close> Every function is total. The scanner of JSON has the length of its input as fuel, and each
  step consumes a character; the rounds of a generation, the retries of a launch and the polls of a readiness
  wait recurse on the configured bound, as the loops they translate; polling loops without a bound
  of their own read a list of observations and stop with it. Identifiers are distinct as texts for
  the first \<open>2 ^ 128\<close> of them, which the properties of tool calls state as a hypothesis.

  \<^bold>\<open>Not modelled.\<close> The wire adapters of the two model providers, CRM reports, StoreKit signatures, checkout links,
  the profile, routers, schemas, metrics, the wiring of services and most of the environment parsing of
  \<^verbatim>\<open>config.py\<close>: adapters of third-party libraries, declarative shapes and read-only reports.
\<close>

subsection \<open>Every billing surface keeps the books\<close>

text \<open>
  The calls that can move credits: the wallet itself, the operator surface, purchases, the two
  webhooks, the event stream of an agent run and the finalization of abandoned runs. A request either commits or is rolled back by \<open>session_scope\<close>; the webhooks' bare
  effect on the session is covered too, since the operations are run outside any scope.
\<close>

datatype billing_cmd =
    WalletCmd wallet_cmd
  | AdminGrant uuid int string string
  | AdminDebit uuid int string string
  | AdminSubscription uuid string datetime bool string string
  | Purchase int uuid string
  | AdaptyWebhook string
  | CloudPaymentsWebhook int string
  | AgentStream uuid string "(event_clock \<times> (exn + dict) \<times> sse_event) list"
  | OrphanSweep int uuid string int int bool rat

record outside_world =
  ow_sha256 :: "string \<Rightarrow> string"
  ow_loads :: "string \<Rightarrow> json option"
  ow_fromiso :: "string \<Rightarrow> datetime option"
  ow_repr :: "json \<Rightarrow> string"
  ow_http :: "uuid \<Rightarrow> http_outcome"
  ow_verify :: "string \<Rightarrow> app_error + verified_transaction"

fun exec_billing :: "settings \<Rightarrow> outside_world \<times> billing_cmd \<Rightarrow> db \<Rightarrow> db" where
  "exec_billing cfg (w, WalletCmd c) s = exec_wallet cfg c s"
| "exec_billing cfg (w, AdminGrant u a k r) s = snd (session_scope (admin_service_grant cfg u a k r) s)"
| "exec_billing cfg (w, AdminDebit u a k r) s = snd (session_scope (admin_service_debit cfg u a k r) s)"
| "exec_billing cfg (w, AdminSubscription u p e gc k r) s =
     snd (session_scope (admin_subscription_grant (ow_sha256 w) cfg u p e gc k r) s)"
| "exec_billing cfg (w, Purchase now u tx) s = snd (session_scope (purchase (ow_verify w) cfg now u tx) s)"
| "exec_billing cfg (w, AdaptyWebhook raw) s =
     snd (session_scope (adapty_handle (ow_loads w) (ow_fromiso w) cfg raw) s)"
| "exec_billing cfg (w, CloudPaymentsWebhook now raw) s =
     snd (cp_handle (ow_loads w) (ow_fromiso w) (ow_repr w) (ow_http w) cfg now raw s)"
| "exec_billing cfg (w, AgentStream u k evs) s =
     (case new_run_processing cfg u k s of
        (Inr r, s') \<Rightarrow> snd (snd (relay_events cfg evs (r, s')))
      | (Inl _, s') \<Rightarrow> s')"
| "exec_billing cfg (w, OrphanSweep now u k i j present age) s =
     snd (session_scope (finalize_orphan_run cfg now u k i j present age) s)"

interpretation billing_runs: command_system "exec_billing cfg" wallet_inv for cfg
proof
  fix c :: "outside_world \<times> billing_cmd" and s
  assume inv: "wallet_inv s"
  obtain w b where c: "c = (w, b)" by (cases c)
  show "wallet_inv (exec_billing cfg c s)"
  proof (cases b)
    case (AgentStream u k evs)
    obtain r where "new_run_processing cfg u k s = (Inr r, s)" using new_run_processing_returns by blast
    with op_preservesD [OF relay_events_inv, of "(r, s)" cfg evs] inv show ?thesis
      by (simp add: c AgentStream db_inv_def)
  qed (unfold c, use inv wallet_runs.exec_inv in simp_all,
      (rule op_preservesD, intro op_rules op_preserves_imp_ok, assumption)+)
qed

text \<open>
  Claim C5. No entry point can unbalance the books: after any sequence of wallet calls, operator
  grants and debits, subscription grants, purchases, webhook deliveries, agent event streams and
  finalizations of abandoned runs, with any answers of the
  outside services, every user's balance and debt are non-negative and explained by the ledger and
  the audit log.
\<close>

theorem every_surface_keeps_the_books:
  "books_ok u (fold (exec_billing cfg) cmds (empty_db\<lparr>users := us, chat_sessions := ss,
     auth_devices := ds, byok_keys := ks\<rparr>))"
proof -
  have "wallet_inv (empty_db\<lparr>users := us, chat_sessions := ss, auth_devices := ds, byok_keys := ks\<rparr>)"
    by (auto simp: wallet_inv_def ledger_wf_def books_ok_def books_defs empty_db_def)
  then show ?thesis
    using billing_runs.run_inv [of _ cfg cmds] by (simp add: wallet_inv_def)
qed

text \<open>
  Claim C6. The policy gate and the debit of a chat message agree: for a user with an active subscription and a message
  that is not yet charged, in a state where the gate opens credits mode the debit with which the orchestrator closes
  the message is accepted, books one credit under the turn and takes one credit from the balance; in a state where the
  gate refuses, that debit is refused for insufficient credits and neither ledger nor balance moves.
\<close>

theorem policy_gate_matches_wallet:
  assumes inv: "wallet_inv s" and gate: "load_policy_state now uid s = (Inr st, s)" "subscription_status st = SubActive"
    and session: "chat_sessions s sid = Some c" "ses_user c = uid" "users s uid \<noteq> None"
    and new: "existing_tx uid (uuid_str turn) s = None"
  shows "if allow (evaluate st ModeCredits)
    then \<exists>t. chat_debit cfg uid sid turn usage s = (Inr (), t) \<and> charged uid (uuid_str turn) t \<and>
           current_balance uid t = current_balance uid s - 1
    else \<exists>t. chat_debit cfg uid sid turn usage s = (Inl (App (error InsufficientCreditsError ''insufficient_credits'')), t) \<and>
           ledger t = ledger s \<and> current_balance uid t = current_balance uid s"
proof -
  let ?meta = "[(''usage'', JObj usage), (''model'', dict_get usage ''model'')]" and ?s = "ensured uid s"
  have st: "credits_balance st = current_balance uid s"
    using gate(1) by (auto simp: load_policy_state_def current_balance_def Let_def split: option.splits)
  obtain w where w: "wallets ?s uid = Some w" using ensured_wallet by blast
  have bal: "current_balance uid s = balance w" using current_of_wallet [OF w] by simp
  have new': "existing_tx uid (uuid_str turn) ?s = None" using new by simp
  have "0 \<le> balance w" using wallet_nonneg [of ?s uid w] inv w by simp
  then have gate': "allow (evaluate st ModeCredits) \<longleftrightarrow> 1 \<le> balance w"
    using gate(2) st bal by (auto simp: policy_defs)
  have "consume (chat_wallet cfg) uid 1 (uuid_str turn) ?meta (Some sid) s =
      consume_plain uid 1 (uuid_str turn) ?meta (Some sid) ?s"
    using session by (auto simp: consume_eval session_error_def consume_route_def agent_reconcile_applies_def dict_get_def)
  then have debit: "chat_debit cfg uid sid turn usage s =
      op_bind (consume_plain uid 1 (uuid_str turn) ?meta (Some sid)) (\<lambda>_. op_return ()) ?s"
    by (simp add: chat_debit_def op_bind_def)
  show ?thesis
  proof (cases "1 \<le> balance w")
    case True
    then obtain t where t: "chat_debit cfg uid sid turn usage s = (Inr (), t)" "wallets t uid = Some (w\<lparr>balance := balance w - 1\<rparr>)"
      using debit consume_plain_fresh [OF _ new' w True, of ?meta "Some sid"] by (auto simp: op_bind_def post_debit_def)
    moreover have "charged uid (uuid_str turn) t"
      using chat_debit_charges [OF t(1)] new by (simp add: uncharged_def)
    ultimately show ?thesis using True gate' bal by (simp add: current_balance_def)
  next
    case False
    then have "chat_debit cfg uid sid turn usage s = (Inl (App (error InsufficientCreditsError ''insufficient_credits'')), ?s)"
      using debit consume_plain_insufficient [OF _ new' w, of 1 ?meta "Some sid"] by (simp add: op_bind_def)
    moreover have "ledger ?s = ledger s" by (simp add: ensured_def split: option.split)
    ultimately show ?thesis using False gate' by simp
  qed
qed

lemma demo_gate:
  assumes "wallets s 1 = Some \<lparr>balance = b, debt = 0\<rparr>" "users s 1 = Some \<lparr>trial_used = False\<rparr>" "byok_keys s 1 = None"
    and "subscriptions s 1 = Some \<lparr>sub_status = ''active'', sub_plan = Some ''pro'', sub_expires_at = None\<rparr>"
  shows "load_policy_state 0 1 s =
    (Inr \<lparr>subscription_status = SubActive, ps_trial_used = False, credits_balance = b, byok_enabled = False, byok_status = ByokMissing\<rparr>, s)"
  using assms by (simp add: load_policy_state_def effective_subscription_status_def Let_def)

text \<open>User 1 with a subscription and a conversation, before and after a grant of 50 credits.\<close>

definition demo_subscriber :: "db \<Rightarrow> db" where
  "demo_subscriber s = s\<lparr>subscriptions := [1 \<mapsto> \<lparr>sub_status = ''active'', sub_plan = Some ''pro'', sub_expires_at = None\<rparr>],
     chat_sessions := [8 \<mapsto> WalletClaims.demo_session\<lparr>ses_user := 1\<rparr>]\<rparr>"

theorem policy_gate_matches_wallet_witness:
  "(\<exists>t. chat_debit demo_chat_cfg 1 8 9 [] (demo_subscriber demo_funded) = (Inr (), t) \<and> current_balance 1 t = 49) \<and>
   (\<exists>t. chat_debit demo_chat_cfg 1 8 9 [] (demo_subscriber demo_db) =
     (Inl (App (error InsufficientCreditsError ''insufficient_credits'')), t))"
proof
  have sel: "wallets (demo_subscriber s) = wallets s" "users (demo_subscriber s) = users s" "byok_keys (demo_subscriber s) = byok_keys s"
    "ledger (demo_subscriber s) = ledger s" "chat_sessions (demo_subscriber s) 8 = Some (WalletClaims.demo_session\<lparr>ses_user := 1\<rparr>)"
    "subscriptions (demo_subscriber s) 1 = Some \<lparr>sub_status = ''active'', sub_plan = Some ''pro'', sub_expires_at = None\<rparr>" for s
    by (simp_all add: demo_subscriber_def)
  have inv: "wallet_inv (demo_subscriber s) = wallet_inv s" for s
    by (simp add: wallet_inv_def ledger_wf_def books_ok_def books_defs demo_subscriber_def)
  have demo: "wallets demo_db 1 = Some \<lparr>balance = 0, debt = 0\<rparr>" "users demo_db 1 = Some \<lparr>trial_used = False\<rparr>" "byok_keys demo_db 1 = None"
    "existing_tx 1 (uuid_str 9) demo_db = None"
    by (simp_all add: demo_db_def empty_db_def existing_tx_def)
  have key: "uuid_str 9 \<noteq> ''g1''" by code_simp
  have funded: "wallets demo_funded 1 = Some \<lparr>balance = 50, debt = 0\<rparr>" "users demo_funded 1 = Some \<lparr>trial_used = False\<rparr>"
    "byok_keys demo_funded 1 = None" "existing_tx 1 (uuid_str 9) demo_funded = None"
    using key by (simp_all add: demo_funded_eq post_credit_def demo_db_def empty_db_def existing_tx_def)
  note gate = policy_gate_matches_wallet [OF _ demo_gate, of "demo_subscriber s" _ 8 "WalletClaims.demo_session\<lparr>ses_user := 1\<rparr>" 9 demo_chat_cfg "[]" for s,
    unfolded inv sel existing_tx_def]
  show "\<exists>t. chat_debit demo_chat_cfg 1 8 9 [] (demo_subscriber demo_funded) = (Inr (), t) \<and> current_balance 1 t = 49"
    using gate [OF demo_funded_inv funded(1-3)] funded by (simp add: policy_defs existing_tx_def current_balance_def sel) blast
  show "\<exists>t. chat_debit demo_chat_cfg 1 8 9 [] (demo_subscriber demo_db) =
     (Inl (App (error InsufficientCreditsError ''insufficient_credits'')), t)"
    using gate [OF demo_db_inv demo(1-3)] demo by (simp add: policy_defs existing_tx_def) blast
qed

end
